(* ===== verification/Prelude.thy ===== *)
theory Prelude
  imports Main "HOL-Library.Word" "HOL-Library.Multiset"
begin

text \<open>
  Shared vocabulary of the development: the names of Go's machine types, the panics of the
  program as values, the result type in which a panic is a branch, loops that may panic, and
  the generic lemmas on lists, multisets, maps and words that the component theories use.

  Conventions. \<open>uint64\<close> is \<open>64 word\<close>; Go's \<open>int\<close> and \<open>*big.Int\<close> are \<open>int\<close> (the places
  where a conversion between the two matters are written out with \<open>sint\<close> and \<open>of_int\<close>);
  a byte slice is a list of \<open>8 word\<close>, \<open>nil\<close> being the empty list; a Go map that is only
  looked up is a partial function, and where the program ranges over a map the order of
  the visit, which Go leaves open, is an explicit argument.
\<close>

section \<open>Machine types\<close>

type_synonym u64 = "64 word"
type_synonym u32 = "32 word"
type_synonym bytes = "8 word list"
type_synonym Address = string

text \<open>
  An instant is the number of nanoseconds since Go's zero time, so that \<open>IsZero\<close> is
  equality with 0; a duration is a number of nanoseconds.
\<close>

type_synonym time = int
type_synonym duration = int

definition IsZero :: "time \<Rightarrow> bool" where
  "IsZero t \<longleftrightarrow> t = 0"

text \<open>\<open>Time.Sub\<close> saturates at the limits of the 64-bit duration.\<close>

definition time_Sub :: "time \<Rightarrow> time \<Rightarrow> duration" where
  "time_Sub t u = max (- (2 ^ 63)) (min (2 ^ 63 - 1) (t - u))"

text \<open>Go's integer division truncates towards zero.\<close>

definition go_div :: "int \<Rightarrow> int \<Rightarrow> int" where
  "go_div a b = sgn a * sgn b * (\<bar>a\<bar> div \<bar>b\<bar>)"

definition go_mod :: "int \<Rightarrow> int \<Rightarrow> int" where
  "go_mod a b = a - b * go_div a b"

definition Milliseconds :: "duration \<Rightarrow> int" where
  "Milliseconds d = go_div d 1000000"

text \<open>\<open>Time.UnixMilli\<close>: Go's zero time is 62135596800 seconds before the Unix epoch.\<close>

definition UnixMilli :: "time \<Rightarrow> int" where
  "UnixMilli t = (t - 62135596800000000000) div 1000000"

section \<open>Panics as values\<close>

datatype panic =
    LogPanic string       \<comment> \<open>an explicit \<open>log.Panic\<close>\<close>
  | NilMapWrite           \<comment> \<open>assignment to an entry of a nil map\<close>
  | IndexOutOfRange       \<comment> \<open>slice or array access out of range\<close>
  | IntegerDivideByZero   \<comment> \<open>\<open>/\<close> or \<open>%\<close> by zero\<close>
  | NilDereference        \<comment> \<open>use of a nil pointer\<close>
  | UnlockOfUnlocked      \<comment> \<open>\<open>sync: unlock of unlocked mutex\<close>\<close>

type_synonym 'a res = "panic + 'a"

definition bindR :: "'a res \<Rightarrow> ('a \<Rightarrow> 'b res) \<Rightarrow> 'b res" where
  "bindR m f = (case m of Inl e \<Rightarrow> Inl e | Inr a \<Rightarrow> f a)"

lemma bindR_simps [simp]:
  "bindR (Inl e) f = Inl e"
  "bindR (Inr a) f = f a"
  by (simp_all add: bindR_def)

lemma bindR_InrE:
  assumes "bindR m f = Inr b"
  obtains a where "m = Inr a" "f a = Inr b"
  using assms by (cases m) (simp_all add: bindR_def)

lemma bindR_Inr_iff: "bindR m f = Inr b \<longleftrightarrow> (\<exists>a. m = Inr a \<and> f a = Inr b)"
  by (cases m) auto

text \<open>A \<open>for\<close> loop over a slice whose body may panic.\<close>

fun foldR :: "('a \<Rightarrow> 's \<Rightarrow> 's res) \<Rightarrow> 'a list \<Rightarrow> 's \<Rightarrow> 's res" where
  "foldR f [] s = Inr s"
| "foldR f (x # xs) s = bindR (f x s) (foldR f xs)"

lemma foldR_append: "foldR f (xs @ ys) s = bindR (foldR f xs s) (foldR f ys)"
  by (induction xs arbitrary: s) (auto simp: bindR_def split: sum.splits)

lemma foldR_invariant:
  assumes "foldR f xs s = Inr t" and "P s"
    and "\<And>x s t. x \<in> set xs \<Longrightarrow> P s \<Longrightarrow> f x s = Inr t \<Longrightarrow> P t"
  shows "P t"
  using assms
proof (induction xs arbitrary: s)
  case Nil
  then show ?case by simp
next
  case (Cons x xs)
  from Cons.prems(1) obtain u where u: "f x s = Inr u" "foldR f xs u = Inr t"
    by (auto simp: bindR_Inr_iff)
  have "P u" using Cons.prems(2,3) u(1) by auto
  then show ?case using Cons.IH [OF u(2)] Cons.prems(3) by (meson list.set_intros(2))
qed

lemma foldR_total:
  assumes "P s" and "\<And>x s. x \<in> set xs \<Longrightarrow> P s \<Longrightarrow> \<exists>t. f x s = Inr t \<and> P t"
  shows "\<exists>t. foldR f xs s = Inr t \<and> P t"
  using assms
proof (induction xs arbitrary: s)
  case Nil
  then show ?case by simp
next
  case (Cons x xs)
  then obtain u where "f x s = Inr u" "P u" by (meson list.set_intros(1))
  then show ?case using Cons.IH [of u] Cons.prems(2) by simp
qed

section \<open>Loops that may not end\<close>

text \<open>
  A computation that may run forever, or panic: \<open>None\<close> is the run that does not return. Loops
  of this kind are \<open>partial_function (option)\<close>.
\<close>

type_synonym 'a run = "'a res option"

definition bindO :: "'a run \<Rightarrow> ('a \<Rightarrow> 'b run) \<Rightarrow> 'b run" where
  "bindO m f = Option.bind m (\<lambda>r. case r of Inl e \<Rightarrow> Some (Inl e) | Inr a \<Rightarrow> f a)"

lemma bindO_simps [simp]:
  "bindO None f = None"
  "bindO (Some (Inl e)) f = Some (Inl e)"
  "bindO (Some (Inr a)) f = f a"
  by (simp_all add: bindO_def)

lemma bindO_Inr_iff: "bindO m f = Some (Inr b) \<longleftrightarrow> (\<exists>a. m = Some (Inr a) \<and> f a = Some (Inr b))"
  by (cases m) (auto simp: bindO_def split: sum.splits)

lemma bindO_mono [partial_function_mono]:
  assumes "mono_option B" "\<And>y. mono_option (\<lambda>f. C y f)"
  shows "mono_option (\<lambda>f. bindO (B f) (\<lambda>y. C y f))"
proof -
  have "mono_option (\<lambda>f. Option.bind (B f) (\<lambda>r. case r of Inl e \<Rightarrow> Some (Inl e) | Inr a \<Rightarrow> C a f))"
  proof (rule bind_mono [OF assms(1)])
    fix y
    show "mono_option (\<lambda>f. case y of Inl e \<Rightarrow> Some (Inl e) | Inr a \<Rightarrow> C a f)"
      using assms(2) by (cases y) (simp_all add: monotone_def flat_ord_def)
  qed
  then show ?thesis by (simp add: bindO_def)
qed

section \<open>Collections of rules\<close>

named_theorems pool_simps \<open>what the pool operations do to each field\<close>
named_theorems chain_simps \<open>what the chain operations do to each field\<close>
named_theorems pbft_simps \<open>what the consensus handlers do to each field\<close>

section \<open>Generic lemmas\<close>

lemma mset_filter_partition:
  "mset (filter P xs) + mset (filter (\<lambda>x. \<not> P x) xs) = mset xs"
  by (simp add: mset_filter)

lemma unat_add_1_less:
  assumes "unat (x :: u64) < 2 ^ 64 - 1"
  shows "unat (x + 1) = unat x + 1"
proof -
  have "unat x + unat (1 :: u64) < 2 ^ LENGTH(64)" using assms by simp
  then show ?thesis by (simp add: unat_add_lem [THEN iffD1])
qed

lemma sum_list_update:
  fixes xs :: "int list"
  assumes "i < length xs"
  shows "sum_list (xs[i := v]) = sum_list xs - xs ! i + v"
  using assms
proof (induction xs arbitrary: i)
  case Nil
  then show ?case by simp
next
  case (Cons x xs)
  then show ?case by (cases i) auto
qed

end
