(* ===== verification/Dsu.thy ===== *)
theory Dsu
  imports Prelude
begin

text \<open>
  The disjoint-set structure of \<open>pcn/overlay.go\<close> (lines 34-74): a parent array with path
  compression and union by rank. \<open>find\<close> recurses along the parents, so on a cyclic
  array it would not return; the invariant \<open>dsu_ok\<close>, that ranks grow along parents, excludes that.
  The contract that the overlay construction uses is the locale \<open>union_find\<close>.
\<close>

section \<open>State and operations\<close>

record dsu =
  d_parent :: "nat list"
  d_rank :: "nat list"

definition newDSU :: "nat \<Rightarrow> dsu" where
  "newDSU n = \<lparr>d_parent = [0..<n], d_rank = replicate n 0\<rparr>"

text \<open>The value returned and the compressed parent array.\<close>

partial_function (option) find_parent :: "nat \<Rightarrow> nat list \<Rightarrow> (nat \<times> nat list) run" where
  "find_parent x p =
     (if x \<ge> length p then Some (Inl IndexOutOfRange)
      else if p ! x \<noteq> x
      then bindO (find_parent (p ! x) p) (\<lambda>(r, p'). Some (Inr (r, p'[x := r])))
      else Some (Inr (x, p)))"

definition dsu_find :: "nat \<Rightarrow> dsu \<Rightarrow> (nat \<times> dsu) run" where
  "dsu_find x d = bindO (find_parent x (d_parent d)) (\<lambda>(r, p). Some (Inr (r, d\<lparr>d_parent := p\<rparr>)))"

definition dsu_union :: "nat \<Rightarrow> nat \<Rightarrow> dsu \<Rightarrow> (bool \<times> dsu) run" where
  "dsu_union a b d =
     bindO (dsu_find a d) (\<lambda>(ra, d1).
     bindO (dsu_find b d1) (\<lambda>(rb, d2).
       if ra = rb then Some (Inr (False, d2))
       else if d_rank d2 ! ra < d_rank d2 ! rb
       then Some (Inr (True, d2\<lparr>d_parent := (d_parent d2)[ra := rb]\<rparr>))
       else if d_rank d2 ! ra > d_rank d2 ! rb
       then Some (Inr (True, d2\<lparr>d_parent := (d_parent d2)[rb := ra]\<rparr>))
       else Some (Inr (True, d2\<lparr>d_parent := (d_parent d2)[rb := ra],
                                d_rank := (d_rank d2)[ra := d_rank d2 ! ra + 1]\<rparr>))))"

section \<open>The contract\<close>

text \<open>
  \<open>same\<close> is the partition the structure represents. A client may ask for a representative and
  merge two classes; neither panics nor runs forever on elements below the size.
\<close>

locale union_find =
  fixes ok :: "'s \<Rightarrow> bool"
    and size_of :: "'s \<Rightarrow> nat"
    and root :: "'s \<Rightarrow> nat \<Rightarrow> nat"
    and roots :: "'s \<Rightarrow> nat set"
    and find :: "nat \<Rightarrow> 's \<Rightarrow> (nat \<times> 's) run"
    and union :: "nat \<Rightarrow> nat \<Rightarrow> 's \<Rightarrow> (bool \<times> 's) run"
  assumes roots_def: "ok d \<Longrightarrow> roots d = root d ` {..<size_of d}"
    and find_law: "ok d \<Longrightarrow> x < size_of d \<Longrightarrow>
      \<exists>d'. find x d = Some (Inr (root d x, d')) \<and> ok d' \<and> size_of d' = size_of d \<and>
        (\<forall>y < size_of d. root d' y = root d y)"
    and union_law: "ok d \<Longrightarrow> a < size_of d \<Longrightarrow> b < size_of d \<Longrightarrow>
      \<exists>d'. union a b d = Some (Inr (root d a \<noteq> root d b, d')) \<and> ok d' \<and> size_of d' = size_of d \<and>
        (\<forall>x < size_of d. \<forall>y < size_of d. root d' x = root d' y \<longleftrightarrow>
           root d x = root d y \<or> root d x = root d a \<and> root d y = root d b \<or>
           root d x = root d b \<and> root d y = root d a) \<and>
        (root d a \<noteq> root d b \<longrightarrow> card (roots d') + 1 = card (roots d))"
begin

text \<open>When one class is left, all elements are in it.\<close>

lemma one_class:
  assumes "ok d" "card (roots d) = 1" "x < size_of d" "y < size_of d"
  shows "root d x = root d y"
proof -
  obtain r where "roots d = {r}" using assms(2) card_1_singletonE by blast
  moreover have "root d x \<in> roots d" "root d y \<in> roots d"
    using assms(1,3,4) by (auto simp: roots_def)
  ultimately show ?thesis by simp
qed

lemma union_joins:
  assumes "ok d" "a < size_of d" "b < size_of d" "union a b d = Some (Inr (r, d'))"
  shows "root d' a = root d' b" "r = (root d a \<noteq> root d b)" "ok d'" "size_of d' = size_of d"
    and "x < size_of d \<Longrightarrow> y < size_of d \<Longrightarrow> root d x = root d y \<Longrightarrow> root d' x = root d' y"
  using union_law [OF assms(1-3)] assms(2-4) by auto

end

section \<open>The invariant and the represented partition\<close>

definition dsu_ok :: "dsu \<Rightarrow> bool" where
  "dsu_ok d \<longleftrightarrow> length (d_rank d) = length (d_parent d) \<and>
     (\<forall>x < length (d_parent d). d_parent d ! x < length (d_parent d) \<and>
        (d_parent d ! x \<noteq> x \<longrightarrow> d_rank d ! x < d_rank d ! (d_parent d ! x)))"

text \<open>Following the parents from \<open>x\<close> ends in \<open>r\<close>.\<close>

inductive rep :: "nat list \<Rightarrow> nat \<Rightarrow> nat \<Rightarrow> bool" for p where
  rep_root: "x < length p \<Longrightarrow> p ! x = x \<Longrightarrow> rep p x x"
| rep_step: "x < length p \<Longrightarrow> p ! x \<noteq> x \<Longrightarrow> rep p (p ! x) r \<Longrightarrow> rep p x r"

inductive_cases repE: "rep p x r"

lemma rep_is_root: "rep p x r \<Longrightarrow> r < length p \<and> p ! r = r"
  by (induction rule: rep.induct) auto

lemma rep_det: "rep p x r \<Longrightarrow> rep p x r' \<Longrightarrow> r = r'"
proof (induction arbitrary: r' rule: rep.induct)
  case (rep_root x)
  from rep_root.prems show ?case using rep_root.hyps by (auto elim: repE)
next
  case (rep_step x r)
  from rep_step.prems have "rep p (p ! x) r'" using rep_step.hyps by (auto elim: repE)
  then show ?case by (rule rep_step.IH)
qed

text \<open>Ranks bound the length of every path, so a representative exists.\<close>

lemma rep_exists:
  assumes "length (rk :: nat list) = length p"
    and "\<forall>x < length p. p ! x < length p \<and> (p ! x \<noteq> x \<longrightarrow> rk ! x < rk ! (p ! x))"
    and "x < length p"
  shows "\<exists>r. rep p x r"
  using assms(3)
proof (induction "Max (set rk) - rk ! x" arbitrary: x rule: less_induct)
  case less
  show ?case
  proof (cases "p ! x = x")
    case True
    then show ?thesis using rep_root less.prems by blast
  next
    case False
    have l: "p ! x < length p" "rk ! x < rk ! (p ! x)" using assms(2) less.prems False by auto
    have "rk ! (p ! x) \<le> Max (set rk)" using l(1) assms(1) by simp
    then have "Max (set rk) - rk ! (p ! x) < Max (set rk) - rk ! x" using l(2) by linarith
    then have "\<exists>r. rep p (p ! x) r" using less.hyps l(1) by blast
    then show ?thesis using rep_step less.prems False by blast
  qed
qed

lemma rep_rank:
  assumes "\<forall>x < length p. p ! x < length p \<and> (p ! x \<noteq> x \<longrightarrow> (rk :: nat list) ! x < rk ! (p ! x))"
    and "rep p x r" "x \<noteq> r"
  shows "rk ! x < rk ! r"
  using assms(2,3)
proof (induction rule: rep.induct)
  case (rep_root x)
  then show ?case by simp
next
  case (rep_step x r)
  then have "rk ! x < rk ! (p ! x)" using assms(1) by auto
  then show ?case using rep_step by (cases "p ! x = r") auto
qed

definition dsu_root :: "dsu \<Rightarrow> nat \<Rightarrow> nat" where
  "dsu_root d x = (case find_parent x (d_parent d) of Some (Inr (r, p)) \<Rightarrow> r | _ \<Rightarrow> x)"

definition dsu_roots :: "dsu \<Rightarrow> nat set" where
  "dsu_roots d = {x. x < length (d_parent d) \<and> d_parent d ! x = x}"

definition dsu_size :: "dsu \<Rightarrow> nat" where
  "dsu_size d = length (d_parent d)"

text \<open>Compression: the entries that change point to the representative they had.\<close>

lemma find_parent_spec:
  assumes "rep p x r"
  shows "\<exists>p'. find_parent x p = Some (Inr (r, p')) \<and> length p' = length p \<and>
    (\<forall>y < length p. p' ! y = p ! y \<or> rep p y r \<and> p' ! y = r)"
  using assms
proof (induction rule: rep.induct)
  case (rep_root x)
  then show ?case by (subst find_parent.simps) auto
next
  case (rep_step x r)
  then obtain p' where p': "find_parent (p ! x) p = Some (Inr (r, p'))" "length p' = length p"
    "\<forall>y < length p. p' ! y = p ! y \<or> rep p y r \<and> p' ! y = r" by blast
  have "rep p x r" using rep_step.hyps rep.rep_step by blast
  then show ?case using p' rep_step.hyps
    by (subst find_parent.simps) (auto simp: nth_list_update)
qed

text \<open>An array that agrees up to such shortcuts represents the same partition.\<close>

lemma rep_shortcut:
  assumes "length p' = length p" "\<forall>y < length p. p' ! y = p ! y \<or> rep p y (p' ! y)"
    and "rep p x r"
  shows "rep p' x r"
  using assms(3)
proof (induction rule: rep.induct)
  case (rep_root x)
  have "p' ! x = x"
    using assms(2) rep_root rep_det [OF rep.rep_root [OF rep_root]] by fastforce
  then show ?case using rep.rep_root rep_root assms(1) by simp
next
  case (rep_step x r)
  have rr: "r < length p" "p ! r = r" using rep_is_root rep_step.hyps(3) by auto
  have root': "rep p' r r"
    using assms rr rep_det [OF rep.rep_root [OF rr]] by (metis rep.rep_root)
  show ?case
  proof (cases "p' ! x = p ! x")
    case True
    then show ?thesis using rep_step assms(1) by (auto intro: rep.rep_step)
  next
    case False
    then have "rep p x (p' ! x)" using assms(2) rep_step.hyps(1) by blast
    then have "p' ! x = r" using rep_det rep.rep_step [OF rep_step.hyps] by blast
    moreover have "r \<noteq> x" using rr rep_step.hyps(2) by auto
    ultimately show ?thesis using root' rep_step.hyps(1) assms(1)
      by (metis rep.rep_step)
  qed
qed

text \<open>Linking one root below another.\<close>

lemma rep_link:
  assumes "ra < length p" "p ! ra = ra" "rb < length p" "p ! rb = rb" "ra \<noteq> rb" "rep p x r"
  shows "rep (p[ra := rb]) x (if r = ra then rb else r)"
  using assms(6)
proof (induction rule: rep.induct)
  case (rep_root x)
  have "rep (p[ra := rb]) rb rb" using assms by (intro rep.rep_root) auto
  then show ?case using rep_root assms
    by (cases "x = ra") (auto intro: rep.intros)
next
  case (rep_step x r)
  then have "x \<noteq> ra" using assms(2) by auto
  then show ?case using rep_step by (auto intro: rep.rep_step)
qed

lemma roots_link:
  assumes "ra < length p" "p ! ra = ra" "rb < length p" "ra \<noteq> rb"
  shows "{x. x < length p \<and> p[ra := rb] ! x = x} = {x. x < length p \<and> p ! x = x} - {ra}"
  using assms by (auto simp: nth_list_update split: if_splits)

section \<open>The structure implements the contract\<close>

lemma dsu_rep:
  assumes "dsu_ok d" "x < dsu_size d"
  shows "rep (d_parent d) x (dsu_root d x)"
proof -
  obtain r where r: "rep (d_parent d) x r"
    using rep_exists [of "d_rank d" "d_parent d" x] assms by (auto simp: dsu_ok_def dsu_size_def)
  then show ?thesis using find_parent_spec [OF r] by (auto simp: dsu_root_def)
qed

lemma dsu_root_eq: "dsu_ok d \<Longrightarrow> rep (d_parent d) x r \<Longrightarrow> dsu_root d x = r"
  using dsu_rep rep_det repE by (metis dsu_size_def)

lemma dsu_root_less: "dsu_ok d \<Longrightarrow> x < dsu_size d \<Longrightarrow> dsu_root d x < dsu_size d"
  using dsu_rep rep_is_root unfolding dsu_size_def by blast

lemma dsu_roots_image:
  assumes "dsu_ok d"
  shows "dsu_roots d = dsu_root d ` {..<dsu_size d}"
proof
  show "dsu_roots d \<subseteq> dsu_root d ` {..<dsu_size d}"
    using dsu_root_eq [OF assms rep_root] by (force simp: dsu_roots_def dsu_size_def)
  show "dsu_root d ` {..<dsu_size d} \<subseteq> dsu_roots d"
    using rep_is_root [OF dsu_rep [OF assms]] by (auto simp: dsu_roots_def dsu_size_def)
qed

lemma dsu_find_law:
  assumes "dsu_ok d" "x < dsu_size d"
  shows "\<exists>d'. dsu_find x d = Some (Inr (dsu_root d x, d')) \<and> dsu_ok d' \<and> dsu_size d' = dsu_size d \<and>
    d_rank d' = d_rank d \<and> (\<forall>y < dsu_size d. dsu_root d' y = dsu_root d y)"
proof -
  let ?p = "d_parent d" and ?r = "dsu_root d x"
  have ranks: "\<forall>x < length ?p. ?p ! x < length ?p \<and> (?p ! x \<noteq> x \<longrightarrow> d_rank d ! x < d_rank d ! (?p ! x))"
    using assms(1) by (simp add: dsu_ok_def)
  obtain p' where p': "find_parent x ?p = Some (Inr (?r, p'))" "length p' = length ?p"
    "\<forall>y < length ?p. p' ! y = ?p ! y \<or> rep ?p y ?r \<and> p' ! y = ?r"
    using find_parent_spec [OF dsu_rep [OF assms]] by blast
  let ?d = "d\<lparr>d_parent := p'\<rparr>"
  have ok: "dsu_ok ?d"
    unfolding dsu_ok_def
  proof (intro conjI allI impI)
    show "length (d_rank ?d) = length (d_parent ?d)" using assms(1) p'(2) by (simp add: dsu_ok_def)
  next
    fix y assume "y < length (d_parent ?d)"
    then have y: "y < length ?p" using p'(2) by simp
    show "d_parent ?d ! y < length (d_parent ?d)"
      using p'(2,3) ranks y dsu_root_less [OF assms] by (auto simp: dsu_size_def)
    assume ne: "d_parent ?d ! y \<noteq> y"
    show "d_rank ?d ! y < d_rank ?d ! (d_parent ?d ! y)"
      using p'(3) ranks y ne rep_rank [OF ranks, of y ?r] by auto
  qed
  have "rep p' y (dsu_root d y)" if "y < dsu_size d" for y
    by (rule rep_shortcut [OF p'(2) _ dsu_rep [OF assms(1) that]]) (use p'(3) in auto)
  then have "\<forall>y < dsu_size d. dsu_root ?d y = dsu_root d y"
    using dsu_root_eq [OF ok] by simp
  then show ?thesis using p'(1,2) ok by (auto simp: dsu_find_def dsu_size_def)
qed

lemma dsu_link:
  assumes "dsu_ok d" "ra \<in> dsu_roots d" "rb \<in> dsu_roots d" "ra \<noteq> rb"
    and "dsu_ok d'" "d_parent d' = (d_parent d)[ra := rb]"
  shows "\<forall>x < dsu_size d. dsu_root d' x = (if dsu_root d x = ra then rb else dsu_root d x)"
    and "card (dsu_roots d') + 1 = card (dsu_roots d)"
proof -
  have r: "ra < length (d_parent d)" "d_parent d ! ra = ra" "rb < length (d_parent d)"
    "d_parent d ! rb = rb" using assms(2,3) by (auto simp: dsu_roots_def)
  show "\<forall>x < dsu_size d. dsu_root d' x = (if dsu_root d x = ra then rb else dsu_root d x)"
    using rep_link [OF r assms(4) dsu_rep [OF assms(1)]] assms(6) dsu_root_eq [OF assms(5)] by metis
  have "dsu_roots d' = dsu_roots d - {ra}"
    using roots_link [OF r(1-3) assms(4)] assms(6) by (simp add: dsu_roots_def)
  moreover have "finite (dsu_roots d)" by (simp add: dsu_roots_def)
  ultimately show "card (dsu_roots d') + 1 = card (dsu_roots d)"
    using assms(2) by (metis Suc_eq_plus1 card_Suc_Diff1)
qed

text \<open>The three ways \<open>union\<close> links, each keeping the ranks growing.\<close>

lemma link_ok:
  assumes "dsu_ok d" "ra \<in> dsu_roots d" "rb \<in> dsu_roots d" "ra \<noteq> rb"
  shows "d_rank d ! ra < d_rank d ! rb \<Longrightarrow> dsu_ok (d\<lparr>d_parent := (d_parent d)[ra := rb]\<rparr>)"
    and "d_rank d ! ra = d_rank d ! rb \<Longrightarrow>
      dsu_ok (d\<lparr>d_parent := (d_parent d)[rb := ra], d_rank := (d_rank d)[ra := d_rank d ! ra + 1]\<rparr>)"
  using assms by (fastforce simp: dsu_ok_def dsu_roots_def nth_list_update)+

lemma dsu_union_law:
  assumes "dsu_ok d" "a < dsu_size d" "b < dsu_size d"
  shows "\<exists>d'. dsu_union a b d = Some (Inr (dsu_root d a \<noteq> dsu_root d b, d')) \<and> dsu_ok d' \<and>
    dsu_size d' = dsu_size d \<and>
    (\<forall>x < dsu_size d. \<forall>y < dsu_size d. dsu_root d' x = dsu_root d' y \<longleftrightarrow>
       dsu_root d x = dsu_root d y \<or> dsu_root d x = dsu_root d a \<and> dsu_root d y = dsu_root d b \<or>
       dsu_root d x = dsu_root d b \<and> dsu_root d y = dsu_root d a) \<and>
    (dsu_root d a \<noteq> dsu_root d b \<longrightarrow> card (dsu_roots d') + 1 = card (dsu_roots d))"
proof -
  let ?ra = "dsu_root d a" and ?rb = "dsu_root d b"
  obtain d1 where d1: "dsu_find a d = Some (Inr (?ra, d1))" "dsu_ok d1" "dsu_size d1 = dsu_size d"
    "\<forall>y < dsu_size d. dsu_root d1 y = dsu_root d y"
    using dsu_find_law [OF assms(1,2)] by blast
  obtain d2 where d2: "dsu_find b d1 = Some (Inr (?rb, d2))" "dsu_ok d2" "dsu_size d2 = dsu_size d"
    "\<forall>y < dsu_size d. dsu_root d2 y = dsu_root d y"
    using dsu_find_law [OF d1(2), of b] assms(3) d1(3,4) by auto
  have card: "dsu_roots d2 = dsu_roots d"
    using dsu_roots_image [OF assms(1)] dsu_roots_image [OF d2(2)] d2(3,4) by auto
  have in2: "?ra \<in> dsu_roots d2" "?rb \<in> dsu_roots d2"
    unfolding card using dsu_roots_image [OF assms(1)] assms(2,3) by auto
  define d' where "d' = (if ?ra = ?rb then d2
    else if d_rank d2 ! ?ra < d_rank d2 ! ?rb then d2\<lparr>d_parent := (d_parent d2)[?ra := ?rb]\<rparr>
    else if d_rank d2 ! ?ra > d_rank d2 ! ?rb then d2\<lparr>d_parent := (d_parent d2)[?rb := ?ra]\<rparr>
    else d2\<lparr>d_parent := (d_parent d2)[?rb := ?ra],
      d_rank := (d_rank d2)[?ra := d_rank d2 ! ?ra + 1]\<rparr>)"
  have run: "dsu_union a b d = Some (Inr (?ra \<noteq> ?rb, d'))"
    using d1(1) d2(1) by (simp add: dsu_union_def d'_def)
  show ?thesis
  proof (cases "?ra = ?rb")
    case True
    then show ?thesis using run d2 by (auto simp: d'_def)
  next
    case False
    have ok: "dsu_ok d'"
      using link_ok [OF d2(2) in2 False] link_ok [OF d2(2) in2(2,1) False [symmetric]] False
      by (auto simp: d'_def)
    have sz: "dsu_size d' = dsu_size d" using d2(3) by (simp add: d'_def dsu_size_def)
    have "d_parent d' = (d_parent d2)[?ra := ?rb] \<or> d_parent d' = (d_parent d2)[?rb := ?ra]"
      using False by (auto simp: d'_def)
    then consider "d_parent d' = (d_parent d2)[?ra := ?rb]" | "d_parent d' = (d_parent d2)[?rb := ?ra]"
      by blast
    then show ?thesis
    proof cases
      case 1
      have "\<forall>x < dsu_size d. dsu_root d' x = (if dsu_root d x = ?ra then ?rb else dsu_root d x)"
        using dsu_link(1) [OF d2(2) in2 False ok 1] d2(3,4) by simp
      moreover have "card (dsu_roots d') + 1 = card (dsu_roots d)"
        using dsu_link(2) [OF d2(2) in2 False ok 1] card by simp
      ultimately show ?thesis using run ok sz False by auto
    next
      case 2
      have "\<forall>x < dsu_size d. dsu_root d' x = (if dsu_root d x = ?rb then ?ra else dsu_root d x)"
        using dsu_link(1) [OF d2(2) in2(2,1) False [symmetric] ok 2] d2(3,4) by simp
      moreover have "card (dsu_roots d') + 1 = card (dsu_roots d)"
        using dsu_link(2) [OF d2(2) in2(2,1) False [symmetric] ok 2] card by simp
      ultimately show ?thesis using run ok sz False by auto
    qed
  qed
qed

interpretation dsu: union_find dsu_ok dsu_size dsu_root dsu_roots dsu_find dsu_union
  using dsu_roots_image dsu_find_law dsu_union_law by unfold_locales blast+

lemma newDSU_ok [simp]: "dsu_ok (newDSU n)" "dsu_size (newDSU n) = n"
  by (simp_all add: dsu_ok_def newDSU_def dsu_size_def)

lemma newDSU_roots: "dsu_roots (newDSU n) = {..<n}"
  by (auto simp: dsu_roots_def newDSU_def)

lemma newDSU_root: "x < n \<Longrightarrow> dsu_root (newDSU n) x = x"
  by (rule dsu_root_eq [OF newDSU_ok(1)]) (simp add: newDSU_def rep_root)

end
