(* ===== verification/Data_Model.thy ===== *)
theory Data_Model
  imports Prelude
begin

text \<open>
  The data of package \<open>core\<close> (\<open>core/account.go\<close>, \<open>core/transaction.go\<close>,
  \<open>core/block.go\<close>), the account-transfer message of \<open>message/message_CLPA.go\<close> that is stored
  in the same encoding, and the parameters that stand for code outside the repository.

  \<^item> \<open>encoding/gob\<close> is used in one way only: a value is encoded and the bytes are later
    decoded as a value of the same type. The type \<open>gob\<close> is that documented behaviour: an
    encoded value is represented by what it encodes, a decoder of the wrong type panics.
  \<^item> \<open>crypto/sha256\<close>, the bit set of \<open>bits-and-blooms/bitset\<close>, the Merkle tries of
    \<open>go-ethereum/trie\<close> and the database of \<open>boltdb/bolt\<close> are fields of the record \<open>lib\<close>, an argument of every definition
    that reaches them. The laws a theorem needs of them are the predicates
    \<open>bitset_laws\<close>, \<open>state_trie_laws\<close>, \<open>tx_trie_laws\<close>, \<open>bolt_laws\<close> and \<open>sha256_laws\<close>.
\<close>

section \<open>Accounts (core/account.go)\<close>

record AccountState =
  as_AcAddress :: Address
  as_Nonce :: u64
  as_Balance :: int
  as_StorageRoot :: bytes
  as_CodeHash :: bytes

definition Deduct :: "AccountState \<Rightarrow> int \<Rightarrow> bool \<times> AccountState" where
  "Deduct s val =
     (if as_Balance s < val then (False, s)
      else (True, s\<lparr>as_Balance := as_Balance s - val\<rparr>))"

definition Deposit :: "AccountState \<Rightarrow> int \<Rightarrow> AccountState" where
  "Deposit s value = s\<lparr>as_Balance := as_Balance s + value\<rparr>"

section \<open>Transactions (core/transaction.go)\<close>

record Transaction =
  tx_Sender :: Address
  tx_Recipient :: Address
  tx_Nonce :: u64
  tx_Signature :: bytes
  tx_Value :: int
  tx_TxHash :: bytes
  tx_Time :: time
  tx_Relayed :: bool
  tx_HasBridge :: bool
  tx_SenderIsBridge :: bool
  tx_HasBroker :: bool
  tx_SenderIsBroker :: bool
  tx_OriginalSender :: Address
  tx_FinalRecipient :: Address
  tx_RawTxHash :: bytes
  tx_BridgeRoute :: "u64 list"
  tx_BridgeRouteIndex :: int
  tx_BridgeOverlayEpoch :: int

section \<open>Blocks (core/block.go)\<close>

text \<open>The word array of a bit set; its operations are parameters.\<close>

type_synonym bitset = "u64 list"

record BlockHeader =
  bh_ParentBlockHash :: bytes
  bh_StateRoot :: bytes
  bh_TxRoot :: bytes
  bh_Bloom :: bitset
  bh_Number :: u64
  bh_Time :: time
  bh_Miner :: u32

record Block =
  b_Header :: BlockHeader
  b_Body :: "Transaction list"
  b_Hash :: bytes

definition NewBlock :: "BlockHeader \<Rightarrow> Transaction list \<Rightarrow> Block" where
  "NewBlock bh bb = \<lparr>b_Header = bh, b_Body = bb, b_Hash = []\<rparr>"

section \<open>The account-transfer message (message/message\_CLPA.go)\<close>

record AccountTransferMsg =
  atm_ModifiedMap :: "(Address \<times> u64) list"  \<comment> \<open>the map's entries, in the order of a range over it\<close>
  atm_Addrs :: "Address list"
  atm_AccountState :: "AccountState list"
  atm_ATid :: u64

section \<open>Encoded values\<close>

datatype gob =
    GobAS AccountState
  | GobTx Transaction
  | GobBH BlockHeader
  | GobB Block
  | GobATM AccountTransferMsg

definition AS_Encode :: "AccountState \<Rightarrow> gob" where "AS_Encode s = GobAS s"

fun DecodeAS :: "gob \<Rightarrow> AccountState res" where
  "DecodeAS (GobAS s) = Inr s"
| "DecodeAS _ = Inl (LogPanic ''gob'')"

definition Tx_Encode :: "Transaction \<Rightarrow> gob" where "Tx_Encode t = GobTx t"

fun DecodeTx :: "gob \<Rightarrow> Transaction res" where
  "DecodeTx (GobTx t) = Inr t"
| "DecodeTx _ = Inl (LogPanic ''gob'')"

definition BH_Encode :: "BlockHeader \<Rightarrow> gob" where "BH_Encode h = GobBH h"

fun DecodeBH :: "gob \<Rightarrow> BlockHeader res" where
  "DecodeBH (GobBH h) = Inr h"
| "DecodeBH _ = Inl (LogPanic ''gob'')"

definition B_Encode :: "Block \<Rightarrow> gob" where "B_Encode b = GobB b"

fun DecodeB :: "gob \<Rightarrow> Block res" where
  "DecodeB (GobB b) = Inr b"
| "DecodeB _ = Inl (LogPanic ''gob'')"

definition ATM_Encode :: "AccountTransferMsg \<Rightarrow> gob" where "ATM_Encode m = GobATM m"

fun DecodeAccountTransferMsg :: "gob \<Rightarrow> AccountTransferMsg res" where
  "DecodeAccountTransferMsg (GobATM m) = Inr m"
| "DecodeAccountTransferMsg _ = Inl (LogPanic ''gob'')"

lemmas gob_defs = AS_Encode_def Tx_Encode_def BH_Encode_def B_Encode_def ATM_Encode_def

section \<open>Code outside the repository\<close>

text \<open>
  The contents of a state trie, a database of committed tries (a carrier only: its operations
  are parameters), and the values and the carrier of a \<open>bolt\<close> database.
\<close>

type_synonym acctTrie = "Address \<rightharpoonup> gob"
type_synonym triedb = "(bytes \<times> acctTrie) list"

datatype dbval = DbGob gob | DbBytes bytes

type_synonym boltdb = "((string \<times> bytes) \<times> dbval) list"

record lib =
  sha256 :: "gob \<Rightarrow> bytes"
    \<comment> \<open>\<open>crypto/sha256\<close> on encoded values\<close>
  bs_New :: "nat \<Rightarrow> bitset"
    \<comment> \<open>\<open>bitset.New\<close>\<close>
  bs_Set :: "bitset \<Rightarrow> nat \<Rightarrow> bitset"
    \<comment> \<open>\<open>BitSet.Set\<close>\<close>
  bs_Test :: "bitset \<Rightarrow> nat \<Rightarrow> bool"
    \<comment> \<open>\<open>BitSet.Test\<close>\<close>
  st_Root :: "acctTrie \<Rightarrow> bytes"
    \<comment> \<open>\<open>Trie.Hash\<close> of a trie with these entries\<close>
  tr_Open :: "triedb \<Rightarrow> bytes \<Rightarrow> acctTrie option"
    \<comment> \<open>\<open>trie.New\<close> at a root: the contents, \<open>None\<close> on error\<close>
  tr_Commit :: "triedb \<Rightarrow> bytes \<Rightarrow> acctTrie \<Rightarrow> bytes \<times> triedb option"
    \<comment> \<open>\<open>Trie.Commit\<close> of a trie opened at a root and now with these contents: the new root, and
      the database after \<open>Database.Update\<close> and \<open>Database.Commit\<close>, \<open>None\<close> for a nil node set\<close>
  tt_Root :: "bytes list \<Rightarrow> bytes"
    \<comment> \<open>root hash of a fresh trie after updating these keys with \<open>{0}\<close>\<close>
  tt_Prove :: "bytes list \<Rightarrow> bytes \<Rightarrow> ((bytes \<times> bytes) list) option"
    \<comment> \<open>\<open>Trie.Prove\<close>: the proof's database, \<open>None\<close> on error\<close>
  tt_Verify :: "bytes \<Rightarrow> bytes \<Rightarrow> (bytes \<times> bytes) list \<Rightarrow> bytes option"
    \<comment> \<open>\<open>trie.VerifyProof\<close>: the value, \<open>None\<close> for nil or an error\<close>
  bolt_Put :: "boltdb \<Rightarrow> string \<Rightarrow> bytes \<Rightarrow> dbval \<Rightarrow> boltdb option"
    \<comment> \<open>\<open>Bucket.Put\<close> in a committed transaction, \<open>None\<close> on error\<close>
  bolt_Get :: "boltdb \<Rightarrow> string \<Rightarrow> bytes \<Rightarrow> dbval option"
    \<comment> \<open>\<open>Bucket.Get\<close>, \<open>None\<close> for nil\<close>

text \<open>Documented behaviour of these libraries; a bit index of a bit set is below its capacity.\<close>

definition bitset_laws :: "lib \<Rightarrow> bool" where
  "bitset_laws L \<longleftrightarrow>
     (\<forall>n i. \<not> bs_Test L (bs_New L n) i) \<and>
     (\<forall>b i j. i < 2 ^ 32 \<longrightarrow> j < 2 ^ 32 \<longrightarrow>
        (bs_Test L (bs_Set L b i) j \<longleftrightarrow> j = i \<or> bs_Test L b j))"

text \<open>
  A trie opens at its own root after a commit, other roots are as before, the empty trie can
  always be opened; a commit has no node set exactly when the contents did not change.
\<close>

definition state_trie_laws :: "lib \<Rightarrow> bool" where
  "state_trie_laws L \<longleftrightarrow>
     (\<forall>db. tr_Open L db (st_Root L Map.empty) = Some Map.empty) \<and>
     (\<forall>t. length (st_Root L t) = 32) \<and>
     (\<forall>db r t0 t. tr_Open L db r = Some t0 \<longrightarrow>
        fst (tr_Commit L db r t) = st_Root L t \<and>
        (case snd (tr_Commit L db r t) of
           None \<Rightarrow> t = t0 \<and> st_Root L t = r
         | Some db' \<Rightarrow> tr_Open L db' (st_Root L t) = Some t \<and>
             (\<forall>r'. r' \<noteq> st_Root L t \<longrightarrow> tr_Open L db' r' = tr_Open L db r')))"

text \<open>
  The first conjunct is \<open>Trie.Prove\<close>'s contract: it proves presence or absence, and returns no
  error in either case. \<open>tx_trie_sound\<close> is the soundness of the Merkle proofs against the root of
  one trie: no other trie's proof verifies against it, which rests on the collision resistance
  of the trie's hash function.
\<close>

definition tx_trie_laws :: "lib \<Rightarrow> bool" where
  "tx_trie_laws L \<longleftrightarrow>
     (\<forall>ks k. \<exists>db. tt_Prove L ks k = Some db \<and>
        tt_Verify L (tt_Root L ks) k db = (if k \<in> set ks then Some [0] else None)) \<and>
     (\<forall>ks. length (tt_Root L ks) = 32)"

definition tx_trie_sound :: "lib \<Rightarrow> bytes list \<Rightarrow> bool" where
  "tx_trie_sound L ks \<longleftrightarrow> (\<forall>k db. tt_Verify L (tt_Root L ks) k db \<noteq> None \<longrightarrow> k \<in> set ks)"

text \<open>A key is required and at most 32768 bytes long; a \<open>Get\<close> sees the last \<open>Put\<close> of its key.\<close>

definition bolt_laws :: "lib \<Rightarrow> bool" where
  "bolt_laws L \<longleftrightarrow>
     (\<forall>db b v. bolt_Put L db b [] v = None) \<and>
     (\<forall>db b k v. k \<noteq> [] \<longrightarrow> length k \<le> 32768 \<longrightarrow>
        (\<exists>db'. bolt_Put L db b k v = Some db')) \<and>
     (\<forall>db b k v db'. bolt_Put L db b k v = Some db' \<longrightarrow>
        (\<forall>b' k'. bolt_Get L db' b' k' = (if b' = b \<and> k' = k then Some v else bolt_Get L db b' k')))"

definition sha256_laws :: "lib \<Rightarrow> bool" where
  "sha256_laws L \<longleftrightarrow> (\<forall>x. length (sha256 L x) = 32)"

section \<open>Hashes and new transactions\<close>

definition AS_Hash :: "lib \<Rightarrow> AccountState \<Rightarrow> bytes" where
  "AS_Hash L s = sha256 L (AS_Encode s)"

definition BH_Hash :: "lib \<Rightarrow> BlockHeader \<Rightarrow> bytes" where
  "BH_Hash L h = sha256 L (BH_Encode h)"

definition zeroTx :: Transaction where
  "zeroTx = \<lparr>tx_Sender = '''', tx_Recipient = '''', tx_Nonce = 0, tx_Signature = [],
     tx_Value = 0, tx_TxHash = [], tx_Time = 0, tx_Relayed = False, tx_HasBridge = False,
     tx_SenderIsBridge = False, tx_HasBroker = False, tx_SenderIsBroker = False,
     tx_OriginalSender = '''', tx_FinalRecipient = '''', tx_RawTxHash = [],
     tx_BridgeRoute = [], tx_BridgeRouteIndex = 0, tx_BridgeOverlayEpoch = 0\<rparr>"

definition NewTransaction ::
  "lib \<Rightarrow> Address \<Rightarrow> Address \<Rightarrow> int \<Rightarrow> u64 \<Rightarrow> time \<Rightarrow> Transaction" where
  "NewTransaction L sender recipient value nonce proposeTime =
     (let tx = zeroTx\<lparr>tx_Sender := sender, tx_Recipient := recipient, tx_Value := value,
                 tx_Nonce := nonce, tx_Time := proposeTime\<rparr>
      in tx\<lparr>tx_TxHash := sha256 L (Tx_Encode tx), tx_Relayed := False,
            tx_FinalRecipient := '''', tx_OriginalSender := '''', tx_RawTxHash := [],
            tx_HasBridge := False, tx_SenderIsBridge := False, tx_HasBroker := False,
            tx_SenderIsBroker := False, tx_BridgeRoute := [], tx_BridgeRouteIndex := 0,
            tx_BridgeOverlayEpoch := 0\<rparr>)"

section \<open>Lemmas\<close>

lemma gob_roundtrip [simp]:
  "DecodeAS (AS_Encode s) = Inr s"
  "DecodeTx (Tx_Encode t) = Inr t"
  "DecodeBH (BH_Encode h) = Inr h"
  "DecodeB (B_Encode b) = Inr b"
  "DecodeAccountTransferMsg (ATM_Encode m) = Inr m"
  by (simp_all add: gob_defs)

lemma Deduct_simps [simp]:
  "as_Balance s < v \<Longrightarrow> Deduct s v = (False, s)"
  "\<not> as_Balance s < v \<Longrightarrow> Deduct s v = (True, s\<lparr>as_Balance := as_Balance s - v\<rparr>)"
  by (simp_all add: Deduct_def)

lemma Deposit_Balance [simp]: "as_Balance (Deposit s v) = as_Balance s + v"
  by (simp add: Deposit_def)

lemma NewTransaction_fields [simp]:
  "tx_Sender (NewTransaction L s r v n t) = s"
  "tx_Recipient (NewTransaction L s r v n t) = r"
  "tx_Value (NewTransaction L s r v n t) = v"
  "tx_Nonce (NewTransaction L s r v n t) = n"
  "tx_Time (NewTransaction L s r v n t) = t"
  "\<not> tx_Relayed (NewTransaction L s r v n t)"
  "tx_RawTxHash (NewTransaction L s r v n t) = []"
  "\<not> tx_HasBroker (NewTransaction L s r v n t)"
  "\<not> tx_HasBridge (NewTransaction L s r v n t)"
  by (simp_all add: NewTransaction_def Let_def)

lemma bitset_lawsD:
  assumes "bitset_laws L"
  shows "\<not> bs_Test L (bs_New L n) i"
    and "i < 2 ^ 32 \<Longrightarrow> j < 2 ^ 32 \<Longrightarrow>
      bs_Test L (bs_Set L b i) j \<longleftrightarrow> j = i \<or> bs_Test L b j"
  using assms by (auto simp: bitset_laws_def)

text \<open>
  Decoders are injective on the values they accept: a message that decodes to a value is the
  encoding of that value.
\<close>

lemma DecodeB_Inr_iff: "DecodeB g = Inr b \<longleftrightarrow> g = B_Encode b"
  by (cases g) (auto simp: gob_defs)

lemma DecodeAS_Inr_iff: "DecodeAS g = Inr s \<longleftrightarrow> g = AS_Encode s"
  by (cases g) (auto simp: gob_defs)

end
