(* ===== verification/Storage.thy ===== *)
theory Storage
  imports Data_Model
begin

text \<open>
  The block store (\<open>storage/storage.go\<close>): three buckets of a \<open>bolt\<close> database, for blocks, for
  block headers and for the hash of the newest block. A Go result \<open>(value, error)\<close> is a sum,
  \<open>Inl\<close> the error's text.

  The contract its client, the chain, relies on is the locale \<open>block_store\<close>: what the readers
  answer after a block was added. It is interpreted for the storage's own operations.
\<close>

type_synonym 'a err = "string + 'a"

section \<open>State and operations\<close>

record Storage =
  sg_dbFilePath :: string
  sg_blockBucket :: string
  sg_blockHeaderBucket :: string
  sg_newestBlockHashBucket :: string
  sg_DataBase :: boltdb

text \<open>\<open>db\<close> is what \<open>bolt.Open\<close> finds in the file.\<close>

definition NewStorage :: "string \<Rightarrow> boltdb \<Rightarrow> Storage" where
  "NewStorage dbFp db =
     \<lparr>sg_dbFilePath = dbFp, sg_blockBucket = ''block'', sg_blockHeaderBucket = ''blockHeader'',
      sg_newestBlockHashBucket = ''newestBlockHash'', sg_DataBase = db\<rparr>"

definition OnlyNewestBlock :: bytes where
  "OnlyNewestBlock = map of_char ''OnlyNewestBlock''"

definition db_put :: "lib \<Rightarrow> string \<Rightarrow> bytes \<Rightarrow> dbval \<Rightarrow> Storage \<Rightarrow> Storage res" where
  "db_put L bucket k v s =
     (case bolt_Put L (sg_DataBase s) bucket k v of
        None \<Rightarrow> Inl (LogPanic ''bolt'')
      | Some db \<Rightarrow> Inr (s\<lparr>sg_DataBase := db\<rparr>))"

definition UpdateNewestBlock :: "lib \<Rightarrow> bytes \<Rightarrow> Storage \<Rightarrow> Storage res" where
  "UpdateNewestBlock L newestbhash s =
     db_put L (sg_newestBlockHashBucket s) OnlyNewestBlock (DbBytes newestbhash) s"

definition AddBlockHeader :: "lib \<Rightarrow> bytes \<Rightarrow> BlockHeader \<Rightarrow> Storage \<Rightarrow> Storage res" where
  "AddBlockHeader L blockhash bh s =
     db_put L (sg_blockHeaderBucket s) blockhash (DbGob (BH_Encode bh)) s"

definition Storage_AddBlock :: "lib \<Rightarrow> Block \<Rightarrow> Storage \<Rightarrow> Storage res" where
  "Storage_AddBlock L b s =
     bindR (db_put L (sg_blockBucket s) (b_Hash b) (DbGob (B_Encode b)) s) (\<lambda>s1.
     bindR (AddBlockHeader L (b_Hash b) (b_Header b) s1) (\<lambda>s2.
     UpdateNewestBlock L (b_Hash b) s2))"

definition GetBlockHeader :: "lib \<Rightarrow> bytes \<Rightarrow> Storage \<Rightarrow> BlockHeader err res" where
  "GetBlockHeader L bhash s =
     (case bolt_Get L (sg_DataBase s) (sg_blockHeaderBucket s) bhash of
        None \<Rightarrow> Inr (Inl ''the block is not existed'')
      | Some (DbGob g) \<Rightarrow> bindR (DecodeBH g) (\<lambda>h. Inr (Inr h))
      | Some (DbBytes _) \<Rightarrow> Inl (LogPanic ''gob''))"

definition GetBlock :: "lib \<Rightarrow> bytes \<Rightarrow> Storage \<Rightarrow> Block err res" where
  "GetBlock L bhash s =
     (case bolt_Get L (sg_DataBase s) (sg_blockBucket s) bhash of
        None \<Rightarrow> Inr (Inl ''the block is not existed'')
      | Some (DbGob g) \<Rightarrow> bindR (DecodeB g) (\<lambda>b. Inr (Inr b))
      | Some (DbBytes _) \<Rightarrow> Inl (LogPanic ''gob''))"

definition GetNewestBlockHash :: "lib \<Rightarrow> Storage \<Rightarrow> bytes err" where
  "GetNewestBlockHash L s =
     (case bolt_Get L (sg_DataBase s) (sg_newestBlockHashBucket s) OnlyNewestBlock of
        None \<Rightarrow> Inl ''cannot find the newest block hash''
      | Some (DbBytes h) \<Rightarrow> Inr h
      | Some (DbGob _) \<Rightarrow> Inr [])"

section \<open>The store contract\<close>

locale block_store =
  fixes ok :: "'s \<Rightarrow> bool"
    and good_key :: "bytes \<Rightarrow> bool"
    and add :: "Block \<Rightarrow> 's \<Rightarrow> 's res"
    and get :: "bytes \<Rightarrow> 's \<Rightarrow> Block err res"
    and get_header :: "bytes \<Rightarrow> 's \<Rightarrow> BlockHeader err res"
    and newest :: "'s \<Rightarrow> bytes err"
  assumes add_total: "ok s \<Longrightarrow> good_key (b_Hash b) \<Longrightarrow> \<exists>s'. add b s = Inr s'"
    and add_ok: "ok s \<Longrightarrow> add b s = Inr s' \<Longrightarrow> ok s'"
    and get_add: "ok s \<Longrightarrow> add b s = Inr s' \<Longrightarrow>
      get h s' = (if h = b_Hash b then Inr (Inr b) else get h s)"
    and header_add: "ok s \<Longrightarrow> add b s = Inr s' \<Longrightarrow>
      get_header h s' = (if h = b_Hash b then Inr (Inr (b_Header b)) else get_header h s)"
    and newest_add: "ok s \<Longrightarrow> add b s = Inr s' \<Longrightarrow> newest s' = Inr (b_Hash b)"
begin

text \<open>
  After a sequence of blocks with distinct hashes, every block of the sequence is found under
  its hash with its header, and the newest hash is that of the last one.
\<close>

lemma add_all_get:
  assumes "foldR add bs s = Inr s'" "ok s" "distinct (map b_Hash bs)" "b \<in> set bs"
  shows "get (b_Hash b) s' = Inr (Inr b) \<and> get_header (b_Hash b) s' = Inr (Inr (b_Header b))"
  using assms
proof (induction bs arbitrary: s' rule: rev_induct)
  case Nil
  then show ?case by simp
next
  case (snoc x xs)
  from snoc.prems(1) obtain u where u: "foldR add xs s = Inr u" "add x u = Inr s'"
    by (auto simp: foldR_append bindR_Inr_iff)
  have ok: "ok u" using foldR_invariant [OF u(1), of ok] snoc.prems(2) add_ok by blast
  show ?case
  proof (cases "b = x")
    case True
    then show ?thesis using get_add [OF ok u(2)] header_add [OF ok u(2)] by simp
  next
    case False
    then have "b \<in> set xs" "b_Hash b \<noteq> b_Hash x"
      using snoc.prems(3,4) by (auto simp: rev_image_eqI)
    then show ?thesis
      using snoc.IH [OF u(1)] snoc.prems(2,3) get_add [OF ok u(2)] header_add [OF ok u(2)] by simp
  qed
qed

lemma add_all_newest:
  assumes "foldR add (bs @ [b]) s = Inr s'" "ok s"
  shows "newest s' = Inr (b_Hash b)"
proof -
  from assms(1) obtain u where u: "foldR add bs s = Inr u" "add b u = Inr s'"
    by (auto simp: foldR_append bindR_Inr_iff)
  have "ok u" using foldR_invariant [OF u(1), of ok] assms(2) add_ok by blast
  then show ?thesis using newest_add u(2) by blast
qed

lemma add_all_total:
  assumes "ok s" "\<And>b. b \<in> set bs \<Longrightarrow> good_key (b_Hash b)"
  shows "\<exists>s'. foldR add bs s = Inr s' \<and> ok s'"
  by (rule foldR_total [where P = ok, OF assms(1)]) (meson add_ok add_total assms(2))

end

section \<open>The storage implements the contract\<close>

definition buckets_ok :: "Storage \<Rightarrow> bool" where
  "buckets_ok s \<longleftrightarrow> sg_blockBucket s = ''block'' \<and> sg_blockHeaderBucket s = ''blockHeader'' \<and>
     sg_newestBlockHashBucket s = ''newestBlockHash''"

definition storage_ok :: "lib \<Rightarrow> Storage \<Rightarrow> bool" where
  "storage_ok L s \<longleftrightarrow> bolt_laws L \<and> buckets_ok s"

definition db_key :: "bytes \<Rightarrow> bool" where
  "db_key k \<longleftrightarrow> k \<noteq> [] \<and> length k \<le> 32768"

lemma db_key_OnlyNewestBlock [simp]: "db_key OnlyNewestBlock"
  by (simp add: db_key_def OnlyNewestBlock_def)

lemma db_put_total: "bolt_laws L \<Longrightarrow> db_key k \<Longrightarrow> \<exists>s'. db_put L b k v s = Inr s'"
proof -
  assume "bolt_laws L" "db_key k"
  then obtain db' where "bolt_Put L (sg_DataBase s) b k v = Some db'"
    unfolding bolt_laws_def db_key_def by blast
  then show ?thesis by (simp add: db_put_def)
qed

lemma db_put_empty: "bolt_laws L \<Longrightarrow> db_put L b [] v s = Inl (LogPanic ''bolt'')"
  by (simp add: bolt_laws_def db_put_def)

lemma db_put_buckets: "db_put L b k v s = Inr s' \<Longrightarrow> buckets_ok s \<Longrightarrow> buckets_ok s'"
  by (auto simp: db_put_def buckets_ok_def split: option.splits)

lemma db_put_get:
  "bolt_laws L \<Longrightarrow> db_put L b k v s = Inr s' \<Longrightarrow>
     bolt_Get L (sg_DataBase s') b' k' =
       (if b' = b \<and> k' = k then Some v else bolt_Get L (sg_DataBase s) b' k')"
  by (auto simp: db_put_def bolt_laws_def split: option.splits)

lemma Storage_AddBlock_total:
  assumes "storage_ok L s" "db_key (b_Hash b)"
  shows "\<exists>s'. Storage_AddBlock L b s = Inr s'"
proof -
  have bl: "bolt_laws L" using assms(1) by (simp add: storage_ok_def)
  obtain s1 where s1: "db_put L (sg_blockBucket s) (b_Hash b) (DbGob (B_Encode b)) s = Inr s1"
    using db_put_total [OF bl assms(2)] by blast
  obtain s2 where s2: "AddBlockHeader L (b_Hash b) (b_Header b) s1 = Inr s2"
    using db_put_total [OF bl assms(2)] unfolding AddBlockHeader_def by blast
  obtain s3 where "UpdateNewestBlock L (b_Hash b) s2 = Inr s3"
    using db_put_total [OF bl db_key_OnlyNewestBlock] unfolding UpdateNewestBlock_def by blast
  then show ?thesis by (simp add: Storage_AddBlock_def s1 s2)
qed

lemma Storage_AddBlock_effect:
  assumes "storage_ok L s" "Storage_AddBlock L b s = Inr s'"
  shows "buckets_ok s'"
    and "bolt_Get L (sg_DataBase s') bk k =
      (if bk = ''block'' \<and> k = b_Hash b then Some (DbGob (B_Encode b))
       else if bk = ''blockHeader'' \<and> k = b_Hash b then Some (DbGob (BH_Encode (b_Header b)))
       else if bk = ''newestBlockHash'' \<and> k = OnlyNewestBlock then Some (DbBytes (b_Hash b))
       else bolt_Get L (sg_DataBase s) bk k)"
proof -
  have bl: "bolt_laws L" and bk: "buckets_ok s" using assms(1) by (auto simp: storage_ok_def)
  from assms(2) obtain s1 s2 where
      s1: "db_put L (sg_blockBucket s) (b_Hash b) (DbGob (B_Encode b)) s = Inr s1"
    and s2: "db_put L (sg_blockHeaderBucket s1) (b_Hash b) (DbGob (BH_Encode (b_Header b))) s1 = Inr s2"
    and s3: "db_put L (sg_newestBlockHashBucket s2) OnlyNewestBlock (DbBytes (b_Hash b)) s2 = Inr s'"
    by (auto simp: Storage_AddBlock_def AddBlockHeader_def UpdateNewestBlock_def bindR_Inr_iff)
  have b1: "buckets_ok s1" using db_put_buckets [OF s1 bk] .
  have b2: "buckets_ok s2" using db_put_buckets [OF s2 b1] .
  show "buckets_ok s'" using db_put_buckets [OF s3 b2] .
  show "bolt_Get L (sg_DataBase s') bk k =
      (if bk = ''block'' \<and> k = b_Hash b then Some (DbGob (B_Encode b))
       else if bk = ''blockHeader'' \<and> k = b_Hash b then Some (DbGob (BH_Encode (b_Header b)))
       else if bk = ''newestBlockHash'' \<and> k = OnlyNewestBlock then Some (DbBytes (b_Hash b))
       else bolt_Get L (sg_DataBase s) bk k)"
    using db_put_get [OF bl s1] db_put_get [OF bl s2] db_put_get [OF bl s3] bk b1 b2
    by (simp add: buckets_ok_def)
qed

interpretation store: block_store "storage_ok L" db_key "Storage_AddBlock L" "GetBlock L"
  "GetBlockHeader L" "GetNewestBlockHash L" for L
proof (unfold_locales, goal_cases)
  case (1 s b)
  then show ?case by (rule Storage_AddBlock_total)
next
  case (2 s b s')
  then show ?case using Storage_AddBlock_effect(1) [OF 2] by (simp add: storage_ok_def)
next
  case (3 s b s' h)
  then show ?case using Storage_AddBlock_effect [OF 3]
    by (auto simp: GetBlock_def storage_ok_def buckets_ok_def)
next
  case (4 s b s' h)
  then show ?case using Storage_AddBlock_effect [OF 4]
    by (auto simp: GetBlockHeader_def storage_ok_def buckets_ok_def)
next
  case (5 s b s')
  then show ?case using Storage_AddBlock_effect [OF 5]
    by (auto simp: GetNewestBlockHash_def storage_ok_def buckets_ok_def)
qed

lemma NewStorage_ok: "bolt_laws L \<Longrightarrow> storage_ok L (NewStorage fp db)"
  by (simp add: storage_ok_def NewStorage_def buckets_ok_def)

end
