(* ===== verification/Overlay.thy ===== *)
theory Overlay
  imports Dsu Storage "HOL-Library.Product_Lexorder"
begin

text \<open>
  The overlay network between shards (\<open>pcn/overlay.go\<close>): a set of edges with, for every pair of
  shards, a route and its length. Shard numbers and slice indices are natural numbers; weights
  and gains are \<open>int64\<close> values, whose sums wrap. An access out of range is a panic, an
  \<open>error\<close> result is \<open>Inl\<close> of its text, and a loop without a syntactic bound is a \<open>run\<close>.
\<close>

section \<open>Data\<close>

record OverlayEdge =
  oe_U :: nat
  oe_V :: nat

record Overlay =
  ov_ShardNum :: nat
  ov_Edges :: "OverlayEdge list"
  ov_Routes :: "nat list list list"
  ov_Dist :: "int list list"

record weightedPair =
  wp_u :: nat
  wp_v :: nat
  wp_w :: int

type_synonym OverlayBuildMode = int

definition OverlayBuildFull :: OverlayBuildMode where "OverlayBuildFull = 0"
definition OverlayBuildTreeOnly :: OverlayBuildMode where "OverlayBuildTreeOnly = 1"
definition OverlayBuildBinaryTree :: OverlayBuildMode where "OverlayBuildBinaryTree = 2"

definition idx :: "'a list \<Rightarrow> nat \<Rightarrow> 'a res" where
  "idx xs i = (if i < length xs then Inr (xs ! i) else Inl IndexOutOfRange)"

definition idx2 :: "'a list list \<Rightarrow> nat \<Rightarrow> nat \<Rightarrow> 'a res" where
  "idx2 xss i j = bindR (idx xss i) (\<lambda>xs. idx xs j)"

text \<open>A computation without loops as a run, and propagation of an \<open>error\<close> result.\<close>

definition ret :: "'a res \<Rightarrow> 'a run" where "ret r = Some r"

definition bindE :: "'a err run \<Rightarrow> ('a \<Rightarrow> 'b err run) \<Rightarrow> 'b err run" where
  "bindE m f = bindO m (\<lambda>r. case r of Inl e \<Rightarrow> Some (Inr (Inl e)) | Inr a \<Rightarrow> f a)"

definition wrap64 :: "int \<Rightarrow> int" where
  "wrap64 x = sint (of_int x :: u64)"

section \<open>Adjacency\<close>

fun build_adj :: "nat \<Rightarrow> OverlayEdge list \<Rightarrow> nat list list \<Rightarrow> nat list list err" where
  "build_adj n [] adj = Inr adj"
| "build_adj n (e # es) adj =
     (if oe_U e \<ge> n \<or> oe_V e \<ge> n \<or> oe_U e = oe_V e then Inl ''invalid overlay edge''
      else let adj1 = adj[oe_U e := adj ! oe_U e @ [oe_V e]]
           in build_adj n es (adj1[oe_V e := adj1 ! oe_V e @ [oe_U e]]))"

section \<open>Breadth-first search\<close>

record bfs =
  q_parent :: "nat list"
  q_seen :: "bool list"
  q_dist :: "int list"
  q_queue :: "nat list"

fun bfs_visit :: "nat \<Rightarrow> nat list \<Rightarrow> bfs \<Rightarrow> bfs res" where
  "bfs_visit cur [] s = Inr s"
| "bfs_visit cur (next # ns) s =
     (if next \<ge> length (q_seen s) then Inl IndexOutOfRange
      else if q_seen s ! next then bfs_visit cur ns s
      else bfs_visit cur ns
        (s\<lparr>q_seen := (q_seen s)[next := True], q_parent := (q_parent s)[next := cur],
           q_dist := (q_dist s)[next := q_dist s ! cur + 1], q_queue := q_queue s @ [next]\<rparr>))"

lemma bfs_visit_measure:
  "bfs_visit cur ns s = Inr s' \<Longrightarrow>
     length (filter Not (q_seen s')) + length (q_queue s') =
     length (filter Not (q_seen s)) + length (q_queue s)"
proof (induction cur ns s rule: bfs_visit.induct)
  case (1 cur s)
  then show ?case by simp
next
  case (2 cur nx ns s)
  show ?case
  proof (cases "q_seen s ! nx")
    case True
    then show ?thesis using 2 by (auto split: if_splits)
  next
    case False
    then have "nx < length (q_seen s)" using 2(3) by (auto split: if_splits)
    moreover from this have "length (filter Not ((q_seen s)[nx := True])) + 1 = length (filter Not (q_seen s))"
      using False by (subst (2) id_take_nth_drop [of nx "q_seen s"]) (auto simp: upd_conv_take_nth_drop)
    ultimately show ?thesis using 2 False by auto
  qed
qed

function bfs_loop :: "nat list list \<Rightarrow> bfs \<Rightarrow> bfs res" where
  "bfs_loop adj s =
     (case q_queue s of
        [] \<Rightarrow> Inr s
      | cur # queue \<Rightarrow>
          (case bindR (idx adj cur) (\<lambda>ns. bfs_visit cur ns (s\<lparr>q_queue := queue\<rparr>)) of
             Inl e \<Rightarrow> Inl e
           | Inr s' \<Rightarrow> bfs_loop adj s'))"
  by pat_completeness auto
termination
  by (relation "measure (\<lambda>(adj, s). length (filter Not (q_seen s)) + length (q_queue s))")
    (auto simp: bindR_Inr_iff dest: bfs_visit_measure)

declare bfs_loop.simps [simp del]

definition bfs_init :: "nat \<Rightarrow> nat \<Rightarrow> bfs" where
  "bfs_init n source =
     \<lparr>q_parent = replicate n n, q_seen = (replicate n False)[source := True],
      q_dist = (replicate n (-1))[source := 0], q_queue = [source]\<rparr>"

section \<open>Routes\<close>

partial_function (option) route_loop ::
  "nat \<Rightarrow> nat list \<Rightarrow> nat \<Rightarrow> nat list \<Rightarrow> nat list run" where
  "route_loop source parent cur route =
     (if cur = source then Some (Inr route)
      else if cur \<ge> length parent then Some (Inl IndexOutOfRange)
      else route_loop source parent (parent ! cur) (route @ [cur]))"

definition buildRoute :: "nat \<Rightarrow> nat \<Rightarrow> nat list \<Rightarrow> nat list run" where
  "buildRoute source dest parent =
     (if source = dest then Some (Inr [source])
      else bindO (route_loop source parent dest []) (\<lambda>route. Some (Inr (rev (route @ [source])))))"

fun route_row :: "nat \<Rightarrow> bfs \<Rightarrow> nat list \<Rightarrow> nat list list \<Rightarrow> nat list list err run" where
  "route_row source s [] row = Some (Inr (Inr row))"
| "route_row source s (dest # ds) row =
     (if \<not> q_seen s ! dest then Some (Inr (Inl ''overlay is disconnected''))
      else bindO (buildRoute source dest (q_parent s)) (\<lambda>r. route_row source s ds (row @ [r])))"

fun overlay_rows ::
  "nat \<Rightarrow> nat list list \<Rightarrow> nat list \<Rightarrow> nat list list list \<Rightarrow> int list list \<Rightarrow>
   (nat list list list \<times> int list list) err run" where
  "overlay_rows n adj [] routes dist = Some (Inr (Inr (routes, dist)))"
| "overlay_rows n adj (source # ss) routes dist =
     bindO (ret (bfs_loop adj (bfs_init n source))) (\<lambda>s.
     bindE (route_row source s [0..<n] []) (\<lambda>row.
       overlay_rows n adj ss (routes @ [row]) (dist @ [q_dist s])))"

definition newOverlay :: "nat \<Rightarrow> OverlayEdge list \<Rightarrow> Overlay err run" where
  "newOverlay n edges =
     (case build_adj n edges (replicate n []) of
        Inl e \<Rightarrow> Some (Inr (Inl e))
      | Inr adj0 \<Rightarrow>
          bindE (overlay_rows n (map sort adj0) [0..<n] [] []) (\<lambda>(routes, dist).
            Some (Inr (Inr \<lparr>ov_ShardNum = n, ov_Edges = edges, ov_Routes = routes, ov_Dist = dist\<rparr>))))"

text \<open>A nil result is \<open>None\<close>.\<close>

definition NewCompleteOverlay :: "nat \<Rightarrow> Overlay option run" where
  "NewCompleteOverlay shardNum =
     (let edges = concat (map (\<lambda>i. map (\<lambda>j. \<lparr>oe_U = i, oe_V = j\<rparr>) [i+1..<shardNum]) [0..<shardNum])
      in bindO (newOverlay shardNum edges) (\<lambda>r.
        Some (Inr (case r of Inl _ \<Rightarrow> None | Inr ov \<Rightarrow> Some ov))))"

definition Route :: "Overlay option \<Rightarrow> nat \<Rightarrow> nat \<Rightarrow> nat list" where
  "Route overlay source dest =
     (case overlay of
        None \<Rightarrow> []
      | Some ov \<Rightarrow> if source \<ge> ov_ShardNum ov \<or> dest \<ge> ov_ShardNum ov then []
                  else ov_Routes ov ! source ! dest)"

definition BuildBinaryTreeOverlay :: "int \<Rightarrow> Overlay err run" where
  "BuildBinaryTreeOverlay shardNum =
     (if shardNum \<le> 0 then Some (Inr (Inl ''overlay requires at least one shard''))
      else newOverlay (nat shardNum)
        (map (\<lambda>sid. \<lparr>oe_U = (sid - 1) div 2, oe_V = sid\<rparr>) [1..<nat shardNum]))"

section \<open>Sorted pairs, keys and gains\<close>

fun read_pairs :: "int list list \<Rightarrow> (nat \<times> nat) list \<Rightarrow> weightedPair list \<Rightarrow> weightedPair list res" where
  "read_pairs weights [] pairs = Inr pairs"
| "read_pairs weights ((i, j) # ps) pairs =
     bindR (idx2 weights i j) (\<lambda>w.
       read_pairs weights ps (pairs @ [\<lparr>wp_u = i, wp_v = j, wp_w = w\<rparr>]))"

text \<open>
  The comparison of the source orders the pairs totally (heaviest first, then by shard
  numbers), so every sorting algorithm returns the same list; it is the one sorted by this key.
\<close>

definition pair_key :: "weightedPair \<Rightarrow> int \<times> nat \<times> nat" where
  "pair_key p = (- wp_w p, wp_u p, wp_v p)"

definition sortedWeightedPairs :: "int list list \<Rightarrow> weightedPair list res" where
  "sortedWeightedPairs weights =
     (let n = length weights in
      bindR (read_pairs weights (concat (map (\<lambda>i. map (Pair i) [i+1..<n]) [0..<n])) []) (\<lambda>pairs.
        Inr (sort_key pair_key pairs)))"

definition edgeKey :: "nat \<Rightarrow> nat \<Rightarrow> nat \<times> nat" where
  "edgeKey u v = (if u > v then (v, u) else (u, v))"

definition lessEdge :: "nat \<Rightarrow> nat \<Rightarrow> nat \<Rightarrow> nat \<Rightarrow> bool" where
  "lessEdge u1 v1 u2 v2 =
     (if u2 = 0 \<and> v2 = 0 then True else if u1 \<noteq> u2 then u1 < u2 else v1 < v2)"

text \<open>One candidate of \<open>overlayGain\<close>: the length of the path that uses the new edge from \<open>a\<close> to \<open>b\<close>.\<close>

definition gain_via :: "int list list \<Rightarrow> nat \<Rightarrow> nat \<Rightarrow> nat \<Rightarrow> nat \<Rightarrow> int \<Rightarrow> int res" where
  "gain_via dist i a b j newDistance =
     bindR (idx2 dist i a) (\<lambda>x. if x < 0 then Inr newDistance
       else bindR (idx2 dist b j) (\<lambda>y. if y < 0 then Inr newDistance
         else let candidate = x + 1 + y
              in Inr (if candidate < newDistance then candidate else newDistance)))"

definition gain_step ::
  "int list list \<Rightarrow> int list list \<Rightarrow> nat \<Rightarrow> nat \<Rightarrow> nat \<times> nat \<Rightarrow> int \<Rightarrow> int res" where
  "gain_step weights dist u v = (\<lambda>(i, j) gain.
     bindR (idx2 dist i j) (\<lambda>oldDistance.
     bindR (gain_via dist i u v j oldDistance) (\<lambda>d1.
     bindR (gain_via dist i v u j d1) (\<lambda>newDistance.
       if oldDistance > newDistance
       then bindR (idx2 weights i j) (\<lambda>w.
              Inr (wrap64 (gain + wrap64 (w * (oldDistance - newDistance)))))
       else Inr gain))))"

definition overlayGain :: "int list list \<Rightarrow> int list list \<Rightarrow> nat \<Rightarrow> nat \<Rightarrow> int res" where
  "overlayGain weights dist u v =
     (let n = length weights in
      foldR (gain_step weights dist u v) (concat (map (\<lambda>i. map (Pair i) [i+1..<n]) [0..<n])) 0)"

section \<open>Construction\<close>

fun check_rows :: "int list list \<Rightarrow> int list \<Rightarrow> nat \<Rightarrow> nat list \<Rightarrow> string option" where
  "check_rows weights limits n [] = None"
| "check_rows weights limits n (i # is) =
     (if length (weights ! i) < n
      then Some ''overlay weight matrix row is smaller than shard count''
      else if limits ! i < 2 \<and> n > 2 then Some ''overlay degree limits must be at least 2''
      else check_rows weights limits n is)"

definition incr :: "nat \<Rightarrow> int list \<Rightarrow> int list" where
  "incr i xs = xs[i := xs ! i + 1]"

type_synonym tree_state = "OverlayEdge list \<times> int list \<times> dsu"

text \<open>
  The spanning-tree loop. \<open>find\<close> panics on a shard number out of range, so the accesses to
  the degrees that follow it are in range.
\<close>

fun tree_loop :: "nat \<Rightarrow> int list \<Rightarrow> weightedPair list \<Rightarrow> tree_state \<Rightarrow> tree_state run" where
  "tree_loop n limits [] st = Some (Inr st)"
| "tree_loop n limits (pair # ps) (edges, degrees, d) =
     (if length edges = n - 1 then Some (Inr (edges, degrees, d))
      else bindO (dsu_find (wp_u pair) d) (\<lambda>(ru, d1).
        bindO (dsu_find (wp_v pair) d1) (\<lambda>(rv, d2).
          if ru = rv then tree_loop n limits ps (edges, degrees, d2)
          else if degrees ! wp_u pair \<ge> limits ! wp_u pair \<or> degrees ! wp_v pair \<ge> limits ! wp_v pair
          then tree_loop n limits ps (edges, degrees, d2)
          else bindO (dsu_union (wp_u pair) (wp_v pair) d2) (\<lambda>(_, d3).
            tree_loop n limits ps (edges @ [\<lparr>oe_U = wp_u pair, oe_V = wp_v pair\<rparr>],
              incr (wp_v pair) (incr (wp_u pair) degrees), d3)))))"

text \<open>One pass over the pairs for the best edge to add.\<close>

definition best_step ::
  "int list list \<Rightarrow> int list \<Rightarrow> (nat \<times> nat) set \<Rightarrow> int list \<Rightarrow> int list list \<Rightarrow>
   weightedPair \<Rightarrow> int \<times> OverlayEdge \<Rightarrow> (int \<times> OverlayEdge) res" where
  "best_step weights limits edgeExists degrees dist pair = (\<lambda>(bestGain, bestEdge).
     let u = wp_u pair; v = wp_v pair in
     if edgeKey u v \<in> edgeExists then Inr (bestGain, bestEdge)
     else if degrees ! u \<ge> limits ! u \<or> degrees ! v \<ge> limits ! v then Inr (bestGain, bestEdge)
     else bindR (overlayGain weights dist u v) (\<lambda>gain.
       if gain > bestGain \<or> gain = bestGain \<and> gain > 0 \<and> lessEdge u v (oe_U bestEdge) (oe_V bestEdge)
       then Inr (gain, \<lparr>oe_U = u, oe_V = v\<rparr>) else Inr (bestGain, bestEdge)))"

partial_function (option) grow_loop ::
  "nat \<Rightarrow> int list list \<Rightarrow> int list \<Rightarrow> weightedPair list \<Rightarrow> OverlayEdge list \<Rightarrow>
   (nat \<times> nat) set \<Rightarrow> int list \<Rightarrow> Overlay \<Rightarrow> Overlay err run" where
  "grow_loop n weights limits pairs edges edgeExists degrees overlay =
     bindO (ret (foldR (best_step weights limits edgeExists degrees (ov_Dist overlay)) pairs
              (0, \<lparr>oe_U = 0, oe_V = 0\<rparr>))) (\<lambda>(bestGain, bestEdge).
       if bestGain \<le> 0 then Some (Inr (Inr overlay))
       else bindO (newOverlay n (edges @ [bestEdge])) (\<lambda>r.
         case r of
           Inl e \<Rightarrow> Some (Inr (Inl e))
         | Inr overlay' \<Rightarrow> grow_loop n weights limits pairs (edges @ [bestEdge])
             (insert (edgeKey (oe_U bestEdge) (oe_V bestEdge)) edgeExists)
             (incr (oe_V bestEdge) (incr (oe_U bestEdge) degrees)) overlay'))"

definition BuildOverlayWithMode ::
  "int list list \<Rightarrow> int list \<Rightarrow> OverlayBuildMode \<Rightarrow> Overlay err run" where
  "BuildOverlayWithMode weights degreeLimits mode =
     (let n = length degreeLimits in
      if n = 0 then Some (Inr (Inl ''overlay requires at least one shard''))
      else if mode = OverlayBuildBinaryTree then BuildBinaryTreeOverlay (int n)
      else if length weights < n
      then Some (Inr (Inl ''overlay weight matrix is smaller than shard count''))
      else case check_rows weights degreeLimits n [0..<n] of
        Some e \<Rightarrow> Some (Inr (Inl e))
      | None \<Rightarrow>
          bindO (ret (sortedWeightedPairs weights)) (\<lambda>pairs.
          bindO (tree_loop n degreeLimits pairs ([], replicate n 0, newDSU n)) (\<lambda>(edges, degrees, d).
            if length edges \<noteq> n - 1
            then Some (Inr (Inl ''degree-constrained spanning tree could not connect all shards''))
            else bindE (newOverlay n edges) (\<lambda>overlay.
              if mode = OverlayBuildTreeOnly then Some (Inr (Inr overlay))
              else if mode \<noteq> OverlayBuildFull then Some (Inr (Inl ''unknown overlay build mode''))
              else grow_loop n weights degreeLimits pairs edges
                ((\<lambda>e. edgeKey (oe_U e) (oe_V e)) ` set edges) degrees overlay))))"

definition BuildOverlay :: "int list list \<Rightarrow> int list \<Rightarrow> Overlay err run" where
  "BuildOverlay weights degreeLimits = BuildOverlayWithMode weights degreeLimits OverlayBuildFull"

definition BuildTreeOverlay :: "int list list \<Rightarrow> int list \<Rightarrow> Overlay err run" where
  "BuildTreeOverlay weights degreeLimits =
     BuildOverlayWithMode weights degreeLimits OverlayBuildTreeOnly"

end
