(* ===== verification/Overlay_Bfs.thy ===== *)
theory Overlay_Bfs
  imports Overlay
begin

text \<open>
  Correctness of the searches behind an overlay: the breadth-first search of \<open>newOverlay\<close> does
  not panic, finds exactly the reachable shards and computes shortest distances, and the routes
  read off its parent array are shortest paths along edges.
\<close>

section \<open>Graphs\<close>

definition adj_ok :: "nat list list \<Rightarrow> bool" where
  "adj_ok adj \<longleftrightarrow> (\<forall>v < length adj. \<forall>w \<in> set (adj ! v). w < length adj)"

text \<open>\<open>reach_in adj k x y\<close>: there is a walk of \<open>k\<close> edges from \<open>x\<close> to \<open>y\<close>.\<close>

inductive reach_in :: "nat list list \<Rightarrow> nat \<Rightarrow> nat \<Rightarrow> nat \<Rightarrow> bool" for adj where
  reach_0: "x < length adj \<Longrightarrow> reach_in adj 0 x x"
| reach_Suc: "reach_in adj k x y \<Longrightarrow> z \<in> set (adj ! y) \<Longrightarrow> reach_in adj (Suc k) x z"

lemma reach_less: "adj_ok adj \<Longrightarrow> reach_in adj k x y \<Longrightarrow> x < length adj \<and> y < length adj"
  by (rotate_tac, induction rule: reach_in.induct) (auto simp: adj_ok_def)

section \<open>Invariants of the search\<close>

definition seen_at :: "bfs \<Rightarrow> nat \<Rightarrow> bool" where
  "seen_at s v \<longleftrightarrow> v < length (q_seen s) \<and> q_seen s ! v"

definition bfs_core :: "nat list list \<Rightarrow> nat \<Rightarrow> bfs \<Rightarrow> bool" where
  "bfs_core adj src s \<longleftrightarrow>
     length (q_seen s) = length adj \<and> length (q_parent s) = length adj \<and>
     length (q_dist s) = length adj \<and> seen_at s src \<and> q_dist s ! src = 0 \<and>
     (\<forall>v. seen_at s v \<longrightarrow> 0 \<le> q_dist s ! v) \<and>
     (\<forall>v. seen_at s v \<longrightarrow> v \<noteq> src \<longrightarrow> seen_at s (q_parent s ! v) \<and>
        v \<in> set (adj ! (q_parent s ! v)) \<and> q_dist s ! v = q_dist s ! (q_parent s ! v) + 1) \<and>
     (\<forall>v \<in> set (q_queue s). seen_at s v)"

definition queue_sorted :: "bfs \<Rightarrow> bool" where
  "queue_sorted s \<longleftrightarrow> sorted_wrt (\<lambda>a b. q_dist s ! a \<le> q_dist s ! b) (q_queue s)"

text \<open>While the neighbours of \<open>cur\<close> are visited.\<close>

definition visit_inv :: "nat list list \<Rightarrow> nat \<Rightarrow> nat \<Rightarrow> bfs \<Rightarrow> bool" where
  "visit_inv adj src cur s \<longleftrightarrow> bfs_core adj src s \<and> queue_sorted s \<and> seen_at s cur \<and>
     (\<forall>v. seen_at s v \<longrightarrow> q_dist s ! v \<le> q_dist s ! cur + 1) \<and>
     (\<forall>u \<in> set (q_queue s). q_dist s ! cur \<le> q_dist s ! u)"

text \<open>Between two shards taken from the queue.\<close>

definition loop_inv :: "nat list list \<Rightarrow> nat \<Rightarrow> bfs \<Rightarrow> bool" where
  "loop_inv adj src s \<longleftrightarrow> bfs_core adj src s \<and> queue_sorted s \<and>
     (\<forall>v. \<forall>u \<in> set (q_queue s). seen_at s v \<longrightarrow> q_dist s ! v \<le> q_dist s ! u + 1) \<and>
     (\<forall>v. seen_at s v \<longrightarrow> v \<notin> set (q_queue s) \<longrightarrow>
        (\<forall>w \<in> set (adj ! v). seen_at s w \<and> q_dist s ! w \<le> q_dist s ! v + 1))"

text \<open>What a visit never undoes.\<close>

definition grows :: "bfs \<Rightarrow> bfs \<Rightarrow> bool" where
  "grows s s' \<longleftrightarrow> (\<forall>v. seen_at s v \<longrightarrow> seen_at s' v \<and> q_dist s' ! v = q_dist s ! v) \<and>
     (\<forall>v. seen_at s' v \<longrightarrow> seen_at s v \<or> v \<in> set (q_queue s')) \<and>
     set (q_queue s) \<subseteq> set (q_queue s')"

lemma grows_refl: "grows s s"
  by (simp add: grows_def)

lemma grows_trans: "grows s s' \<Longrightarrow> grows s' s'' \<Longrightarrow> grows s s''"
  unfolding grows_def by (metis subset_iff)

definition mark :: "nat \<Rightarrow> nat \<Rightarrow> bfs \<Rightarrow> bfs" where
  "mark cur nx s = s\<lparr>q_seen := (q_seen s)[nx := True], q_parent := (q_parent s)[nx := cur],
     q_dist := (q_dist s)[nx := q_dist s ! cur + 1], q_queue := q_queue s @ [nx]\<rparr>"

lemma seen_at_mark: "nx < length (q_seen s) \<Longrightarrow> seen_at (mark cur nx s) v \<longleftrightarrow> v = nx \<or> seen_at s v"
  by (auto simp: seen_at_def mark_def nth_list_update)

lemma mark_fields:
  assumes "length (q_dist s) = length (q_seen s)" "length (q_parent s) = length (q_seen s)"
    and "nx < length (q_seen s)"
  shows "q_dist (mark cur nx s) ! v = (if v = nx then q_dist s ! cur + 1 else q_dist s ! v)"
    and "q_parent (mark cur nx s) ! v = (if v = nx then cur else q_parent s ! v)"
    and "q_queue (mark cur nx s) = q_queue s @ [nx]"
  using assms by (auto simp: mark_def nth_list_update)

lemma mark_inv:
  assumes "visit_inv adj src cur s" "\<not> q_seen s ! nx" "nx < length adj" "nx \<in> set (adj ! cur)"
  shows "visit_inv adj src cur (mark cur nx s)" "grows s (mark cur nx s)"
proof -
  have core: "bfs_core adj src s" using assms(1) by (simp add: visit_inv_def)
  have l: "nx < length (q_seen s)" "length (q_dist s) = length (q_seen s)"
    "length (q_parent s) = length (q_seen s)"
    using core assms(3) by (auto simp: bfs_core_def)
  have ns: "\<not> seen_at s nx" using assms(2) by (simp add: seen_at_def)
  note m = mark_fields [OF l(2,3,1)] seen_at_mark [OF l(1)]
  have ne: "src \<noteq> nx" "cur \<noteq> nx" "\<And>v. seen_at s v \<Longrightarrow> v \<noteq> nx" "\<And>v. v \<in> set (q_queue s) \<Longrightarrow> v \<noteq> nx"
    using ns core assms(1) by (auto simp: bfs_core_def visit_inv_def)
  have cs: "seen_at s cur" "\<And>v. seen_at s v \<Longrightarrow> 0 \<le> q_dist s ! v"
    using assms(1) core by (auto simp: visit_inv_def bfs_core_def)
  have "bfs_core adj src (mark cur nx s)"
    unfolding bfs_core_def m
    using core ne cs assms(4) by (auto simp: bfs_core_def mark_def)
  moreover have "queue_sorted (mark cur nx s)"
    unfolding queue_sorted_def m
    using assms(1) ne core
    by (auto simp: visit_inv_def queue_sorted_def sorted_wrt_append bfs_core_def
        intro: sorted_wrt_mono_rel [rotated])
  ultimately show "visit_inv adj src cur (mark cur nx s)"
    using assms(1) ne cs unfolding visit_inv_def m by auto
  show "grows s (mark cur nx s)" using ne unfolding grows_def m by auto
qed

lemma bfs_visit_spec:
  assumes "visit_inv adj src cur s" "set ns \<subseteq> set (adj ! cur)" "\<forall>w \<in> set ns. w < length adj"
  shows "\<exists>s'. bfs_visit cur ns s = Inr s' \<and> visit_inv adj src cur s' \<and> grows s s' \<and>
    (\<forall>w \<in> set ns. seen_at s' w)"
  using assms
proof (induction ns arbitrary: s)
  case Nil
  then show ?case by (simp add: grows_refl)
next
  case (Cons nx ns)
  have l: "length (q_seen s) = length adj" using Cons.prems(1) by (simp add: visit_inv_def bfs_core_def)
  define s1 where "s1 = (if q_seen s ! nx then s else mark cur nx s)"
  have nx: "nx < length adj" "nx \<in> set (adj ! cur)" using Cons.prems(2,3) by auto
  have "visit_inv adj src cur s1 \<and> grows s s1 \<and> seen_at s1 nx"
  proof (cases "q_seen s ! nx")
    case True
    then show ?thesis using Cons.prems(1) nx l by (simp add: s1_def grows_refl seen_at_def)
  next
    case False
    then show ?thesis using mark_inv [OF Cons.prems(1) False nx] nx l by (simp add: s1_def seen_at_mark)
  qed
  then have s1: "visit_inv adj src cur s1" "grows s s1" "seen_at s1 nx" by simp_all
  have "bfs_visit cur (nx # ns) s = bfs_visit cur ns s1"
    using Cons.prems(3) l by (simp add: s1_def mark_def)
  moreover obtain s' where s': "bfs_visit cur ns s1 = Inr s'" "visit_inv adj src cur s'" "grows s1 s'"
    "\<forall>w \<in> set ns. seen_at s' w"
    using Cons.IH [OF s1(1)] Cons.prems(2,3) by auto
  moreover have "grows s s'" by (rule grows_trans [OF s1(2) s'(3)])
  moreover have "seen_at s' nx" using s'(3) s1(3) by (simp add: grows_def)
  ultimately show ?case by simp
qed

lemma pop_inv:
  assumes "loop_inv adj src s" "q_queue s = cur # queue"
  shows "visit_inv adj src cur (s\<lparr>q_queue := queue\<rparr>)"
proof -
  let ?s = "s\<lparr>q_queue := queue\<rparr>"
  have sa: "seen_at ?s = seen_at s" by (intro ext) (simp add: seen_at_def)
  have core: "bfs_core adj src s" and qs: "queue_sorted s"
    and near: "\<And>v. seen_at s v \<Longrightarrow> q_dist s ! v \<le> q_dist s ! cur + 1"
    using assms by (auto simp: loop_inv_def)
  have "bfs_core adj src ?s" using core assms(2) unfolding bfs_core_def sa by simp
  moreover have "seen_at s cur" using core assms(2) by (simp add: bfs_core_def)
  ultimately show ?thesis
    using qs near assms(2) unfolding visit_inv_def queue_sorted_def sa by simp
qed

lemma visit_done:
  assumes "loop_inv adj src s" "q_queue s = cur # queue"
    and "visit_inv adj src cur s'" "grows (s\<lparr>q_queue := queue\<rparr>) s'" "\<forall>w \<in> set (adj ! cur). seen_at s' w"
  shows "loop_inv adj src s'"
proof -
  have g: "\<And>v. seen_at s v \<Longrightarrow> seen_at s' v \<and> q_dist s' ! v = q_dist s ! v"
    "\<And>v. seen_at s' v \<Longrightarrow> seen_at s v \<or> v \<in> set (q_queue s')" "set queue \<subseteq> set (q_queue s')"
    using assms(4) by (auto simp: grows_def seen_at_def)
  have "seen_at s' w \<and> q_dist s' ! w \<le> q_dist s' ! v + 1"
    if v: "seen_at s' v" "v \<notin> set (q_queue s')" "w \<in> set (adj ! v)" for v w
  proof (cases "v = cur")
    case True
    then show ?thesis using assms(3,5) v(3) by (auto simp: visit_inv_def)
  next
    case False
    then have "seen_at s v" "v \<notin> set (q_queue s)" using g v(1,2) assms(2) by auto
    then have "seen_at s w" "q_dist s ! w \<le> q_dist s ! v + 1"
      using assms(1) v(3) by (auto simp: loop_inv_def)
    then show ?thesis using g(1) \<open>seen_at s v\<close> by auto
  qed
  then show ?thesis using assms(3) unfolding loop_inv_def visit_inv_def by fastforce
qed

lemma bfs_loop_spec:
  assumes "adj_ok adj" "loop_inv adj src s"
  shows "\<exists>s'. bfs_loop adj s = Inr s' \<and> loop_inv adj src s' \<and> q_queue s' = []"
  using assms
proof (induction adj s rule: bfs_loop.induct)
  case (1 adj s)
  show ?case
  proof (cases "q_queue s")
    case Nil
    then show ?thesis using 1(3) by (subst bfs_loop.simps) simp
  next
    case (Cons cur queue)
    have vi: "visit_inv adj src cur (s\<lparr>q_queue := queue\<rparr>)" using pop_inv [OF 1(3) Cons] .
    then have cur: "cur < length adj" by (auto simp: visit_inv_def bfs_core_def seen_at_def)
    obtain s' where s': "bfs_visit cur (adj ! cur) (s\<lparr>q_queue := queue\<rparr>) = Inr s'"
      "visit_inv adj src cur s'" "grows (s\<lparr>q_queue := queue\<rparr>) s'" "\<forall>w \<in> set (adj ! cur). seen_at s' w"
      using bfs_visit_spec [OF vi, of "adj ! cur"] 1(2) cur by (auto simp: adj_ok_def)
    have run: "bindR (idx adj cur) (\<lambda>ns. bfs_visit cur ns (s\<lparr>q_queue := queue\<rparr>)) = Inr s'"
      using s'(1) cur by (simp add: idx_def)
    from 1(1) [OF Cons run 1(2) visit_done [OF 1(3) Cons s'(2-4)]] show ?thesis
      using Cons run by (subst bfs_loop.simps) simp
  qed
qed

lemma bfs_init_inv:
  assumes "src < length adj"
  shows "loop_inv adj src (bfs_init (length adj) src)"
proof -
  have s: "seen_at (bfs_init (length adj) src) v \<longleftrightarrow> v = src" for v
    using assms by (auto simp: seen_at_def bfs_init_def nth_list_update)
  have d: "q_dist (bfs_init (length adj) src) ! src = 0" using assms by (simp add: bfs_init_def)
  show ?thesis unfolding loop_inv_def bfs_core_def queue_sorted_def s
    using d by (auto simp: bfs_init_def)
qed

section \<open>Shortest distances\<close>

lemma core_reach:
  assumes "bfs_core adj src s" "seen_at s v"
  shows "reach_in adj (nat (q_dist s ! v)) src v"
  using assms(2)
proof (induction "nat (q_dist s ! v)" arbitrary: v)
  case 0
  have "v = src"
  proof (rule ccontr)
    assume "v \<noteq> src"
    then have "q_dist s ! v = q_dist s ! (q_parent s ! v) + 1" "0 \<le> q_dist s ! (q_parent s ! v)"
      using assms(1) 0(2) by (auto simp: bfs_core_def)
    then show False using 0(1) by simp
  qed
  then show ?case using assms(1) reach_0 by (auto simp: bfs_core_def seen_at_def)
next
  case (Suc k)
  have "v \<noteq> src" using Suc.hyps(2) assms(1) by (auto simp: bfs_core_def)
  then have p: "seen_at s (q_parent s ! v)" "v \<in> set (adj ! (q_parent s ! v))"
    "q_dist s ! v = q_dist s ! (q_parent s ! v) + 1" "0 \<le> q_dist s ! (q_parent s ! v)"
    using assms(1) Suc.prems by (auto simp: bfs_core_def)
  then have "k = nat (q_dist s ! (q_parent s ! v))" using Suc.hyps(2) by simp
  then show ?case using reach_Suc [OF Suc.hyps(1) [OF _ p(1)] p(2)] Suc.hyps(2) by simp
qed

lemma closed_reach:
  assumes "loop_inv adj src s" "q_queue s = []" "reach_in adj k src v"
  shows "seen_at s v \<and> q_dist s ! v \<le> int k"
  using assms(3)
proof (induction k arbitrary: v)
  case 0
  then have "v = src" by (auto elim: reach_in.cases)
  then show ?case using assms(1) by (simp add: loop_inv_def bfs_core_def)
next
  case (Suc k)
  then obtain y where y: "reach_in adj k src y" "v \<in> set (adj ! y)" by (auto elim: reach_in.cases)
  then show ?case using Suc.IH [OF y(1)] assms(1,2) by (fastforce simp: loop_inv_def)
qed

text \<open>The outcome of the search from one shard.\<close>

lemma bfs_correct:
  assumes "adj_ok adj" "src < length adj"
  obtains s where "bfs_loop adj (bfs_init (length adj) src) = Inr s" "bfs_core adj src s"
    "\<And>v. seen_at s v \<longleftrightarrow> (\<exists>k. reach_in adj k src v)"
    "\<And>v k. reach_in adj k src v \<Longrightarrow> q_dist s ! v \<le> int k"
proof -
  obtain s where s: "bfs_loop adj (bfs_init (length adj) src) = Inr s" "loop_inv adj src s" "q_queue s = []"
    using bfs_loop_spec [OF assms(1) bfs_init_inv [OF assms(2)]] by blast
  have core: "bfs_core adj src s" using s(2) by (simp add: loop_inv_def)
  show ?thesis
    by (rule that [OF s(1) core]) (use core_reach [OF core] closed_reach [OF s(2,3)] in blast)+
qed

section \<open>Routes\<close>

definition route_ok :: "nat list list \<Rightarrow> nat \<Rightarrow> nat \<Rightarrow> nat list \<Rightarrow> bool" where
  "route_ok adj source dest r \<longleftrightarrow> r \<noteq> [] \<and> hd r = source \<and> last r = dest \<and>
     successively (\<lambda>x y. y \<in> set (adj ! x)) r"

lemma route_loop_spec:
  assumes "bfs_core adj src s" "seen_at s v"
  shows "\<exists>path. route_loop src (q_parent s) v acc = Some (Inr (acc @ path)) \<and>
    route_ok adj src v (rev (path @ [src])) \<and> int (length path) = q_dist s ! v"
  using assms(2)
proof (induction "nat (q_dist s ! v)" arbitrary: v acc)
  case 0
  have "v = src"
  proof (rule ccontr)
    assume "v \<noteq> src"
    then have "q_dist s ! v = q_dist s ! (q_parent s ! v) + 1" "0 \<le> q_dist s ! (q_parent s ! v)"
      using assms(1) 0(2) by (auto simp: bfs_core_def)
    then show False using 0(1) by simp
  qed
  then show ?case using assms(1) by (subst route_loop.simps) (simp add: route_ok_def bfs_core_def)
next
  case (Suc k)
  have v: "v \<noteq> src" "v < length (q_parent s)"
    using Suc.hyps(2) Suc.prems assms(1) by (auto simp: bfs_core_def seen_at_def)
  then have p: "seen_at s (q_parent s ! v)" "v \<in> set (adj ! (q_parent s ! v))"
    "q_dist s ! v = q_dist s ! (q_parent s ! v) + 1" "0 \<le> q_dist s ! (q_parent s ! v)"
    using assms(1) Suc.prems by (auto simp: bfs_core_def)
  then have "k = nat (q_dist s ! (q_parent s ! v))" using Suc.hyps(2) by simp
  from Suc.hyps(1) [OF this p(1), of "acc @ [v]"] obtain path where
    ih: "route_loop src (q_parent s) (q_parent s ! v) (acc @ [v]) = Some (Inr ((acc @ [v]) @ path))"
      "route_ok adj src (q_parent s ! v) (rev (path @ [src]))"
      "int (length path) = q_dist s ! (q_parent s ! v)" by blast
  have "successively (\<lambda>x y. y \<in> set (adj ! x)) ((src # rev path) @ [v])"
    using ih(2) p(2) by (subst successively_append_iff) (simp add: route_ok_def)
  then have "route_ok adj src v (rev ((v # path) @ [src]))"
    by (simp add: route_ok_def)
  then show ?case using ih(1,3) p(3) v
    by (subst route_loop.simps) (auto intro!: exI [of _ "v # path"])
qed

lemma buildRoute_spec:
  assumes "bfs_core adj src s" "seen_at s v"
  shows "\<exists>r. buildRoute src v (q_parent s) = Some (Inr r) \<and> route_ok adj src v r \<and>
    int (length r) = q_dist s ! v + 1"
proof -
  obtain path where "route_loop src (q_parent s) v [] = Some (Inr path)"
    "route_ok adj src v (rev (path @ [src]))" "int (length path) = q_dist s ! v"
    using route_loop_spec [OF assms, of "[]"] by auto
  moreover have "q_dist s ! src = 0" using assms(1) by (simp add: bfs_core_def)
  ultimately show ?thesis by (auto simp: buildRoute_def route_ok_def)
qed

end
