(* ===== verification/Overlay_Routes.thy ===== *)
theory Overlay_Routes
  imports Overlay_Bfs
begin

text \<open>
  What \<open>newOverlay\<close> returns for a list of edges: an error exactly when an edge is malformed or
  the graph is disconnected, and otherwise an overlay whose routes are shortest paths.
\<close>

section \<open>The graph of a list of edges\<close>

definition edge_ok :: "nat \<Rightarrow> OverlayEdge \<Rightarrow> bool" where
  "edge_ok n e \<longleftrightarrow> oe_U e < n \<and> oe_V e < n \<and> oe_U e \<noteq> oe_V e"

definition edge_rel :: "OverlayEdge list \<Rightarrow> (nat \<times> nat) set" where
  "edge_rel es = {(x, y). \<exists>e \<in> set es. oe_U e = x \<and> oe_V e = y \<or> oe_U e = y \<and> oe_V e = x}"

definition connects :: "nat \<Rightarrow> OverlayEdge list \<Rightarrow> bool" where
  "connects n es \<longleftrightarrow> (\<forall>x < n. \<forall>y < n. (x, y) \<in> (edge_rel es)\<^sup>*)"

text \<open>A route from one shard to another along edges.\<close>

definition path_ok :: "OverlayEdge list \<Rightarrow> nat \<Rightarrow> nat \<Rightarrow> nat list \<Rightarrow> bool" where
  "path_ok es source dest r \<longleftrightarrow> r \<noteq> [] \<and> hd r = source \<and> last r = dest \<and>
     successively (\<lambda>x y. (x, y) \<in> edge_rel es) r"

lemma build_adj_spec:
  assumes "\<forall>e \<in> set es. edge_ok n e" "length adj = n"
  shows "\<exists>adj'. build_adj n es adj = Inr adj' \<and> length adj' = n \<and>
    (\<forall>x < n. set (adj' ! x) = set (adj ! x) \<union> {y. (x, y) \<in> edge_rel es})"
  using assms
proof (induction es arbitrary: adj)
  case Nil
  then show ?case by (simp add: edge_rel_def)
next
  case (Cons e es)
  let ?a1 = "adj[oe_U e := adj ! oe_U e @ [oe_V e]]"
  let ?a2 = "?a1[oe_V e := ?a1 ! oe_V e @ [oe_U e]]"
  have e: "oe_U e < n" "oe_V e < n" "oe_U e \<noteq> oe_V e" using Cons.prems(1) by (auto simp: edge_ok_def)
  obtain adj' where a: "build_adj n es ?a2 = Inr adj'" "length adj' = n"
    "\<forall>x < n. set (adj' ! x) = set (?a2 ! x) \<union> {y. (x, y) \<in> edge_rel es}"
    using Cons.IH [of ?a2] Cons.prems by auto
  have "set (adj' ! x) = set (adj ! x) \<union> {y. (x, y) \<in> edge_rel (e # es)}" if "x < n" for x
    using a(3) that e Cons.prems(2) by (auto simp: edge_rel_def nth_list_update)
  then show ?case using a(1,2) e by (auto simp: Let_def)
qed

lemma build_adj_invalid:
  "\<exists>e \<in> set es. \<not> edge_ok n e \<Longrightarrow> build_adj n es adj = Inl ''invalid overlay edge''"
  by (induction es arbitrary: adj) (auto simp: edge_ok_def Let_def)

definition adj_of :: "nat \<Rightarrow> OverlayEdge list \<Rightarrow> nat list list \<Rightarrow> bool" where
  "adj_of n es adj \<longleftrightarrow> length adj = n \<and> (\<forall>x < n. set (adj ! x) = {y. (x, y) \<in> edge_rel es})"

lemma adj_of_ok:
  assumes "\<forall>e \<in> set es. edge_ok n e" "adj_of n es adj"
  shows "adj_ok adj"
  using assms by (auto simp: adj_ok_def adj_of_def edge_rel_def edge_ok_def)

lemma edge_rel_less:
  "\<forall>e \<in> set es. edge_ok n e \<Longrightarrow> (x, y) \<in> edge_rel es \<Longrightarrow> x < n \<and> y < n"
  by (auto simp: edge_rel_def edge_ok_def)

lemma reach_in_rtrancl:
  assumes "\<forall>e \<in> set es. edge_ok n e" "adj_of n es adj" "x < n"
  shows "(\<exists>k. reach_in adj k x y) \<longleftrightarrow> (x, y) \<in> (edge_rel es)\<^sup>*"
proof
  assume "\<exists>k. reach_in adj k x y"
  then obtain k where "reach_in adj k x y" ..
  then show "(x, y) \<in> (edge_rel es)\<^sup>*"
  proof (induction rule: reach_in.induct)
    case (reach_Suc k x y z)
    then have "y < n" using reach_less [OF adj_of_ok [OF assms(1,2)]] assms(2) by (auto simp: adj_of_def)
    then have "(y, z) \<in> edge_rel es" using reach_Suc.hyps assms(2) by (auto simp: adj_of_def)
    then show ?case using reach_Suc.IH by simp
  qed simp
next
  assume "(x, y) \<in> (edge_rel es)\<^sup>*"
  then show "\<exists>k. reach_in adj k x y"
  proof (induction rule: rtrancl_induct)
    case base
    then show ?case using reach_0 assms(2,3) by (auto simp: adj_of_def)
  next
    case (step y z)
    then have "z \<in> set (adj ! y)"
      using edge_rel_less [OF assms(1)] assms(2) by (auto simp: adj_of_def)
    then show ?case using step.IH reach_Suc by blast
  qed
qed

lemma path_reach:
  assumes "\<forall>e \<in> set es. edge_ok n e" "adj_of n es adj" "x < n" "path_ok es x y r"
  shows "reach_in adj (length r - 1) x y"
  using assms(4)
proof (induction r arbitrary: y rule: rev_induct)
  case Nil
  then show ?case by (simp add: path_ok_def)
next
  case (snoc z r)
  show ?case
  proof (cases "r = []")
    case True
    then show ?thesis using snoc.prems assms(2,3) reach_0 by (auto simp: path_ok_def adj_of_def)
  next
    case False
    then have r: "path_ok es x (last r) r" "(last r, z) \<in> edge_rel es" "z = y"
      using snoc.prems by (auto simp: path_ok_def successively_append_iff)
    then have "y \<in> set (adj ! last r)"
      using edge_rel_less [OF assms(1) r(2)] assms(2) by (auto simp: adj_of_def)
    from reach_Suc [OF snoc.IH [OF r(1)] this] show ?thesis using False by (cases r) auto
  qed
qed

lemma route_ok_path:
  assumes "\<forall>e \<in> set es. edge_ok n e" "adj_of n es adj" "source < n" "route_ok adj source dest r"
  shows "path_ok es source dest r"
proof -
  have "successively (\<lambda>x y. (x, y) \<in> edge_rel es) r" if "hd r < n" "successively (\<lambda>x y. y \<in> set (adj ! x)) r"
    using that
  proof (induction r rule: induct_list012)
    case (3 x y zs)
    then have "(x, y) \<in> edge_rel es" using assms(2) by (auto simp: adj_of_def)
    then show ?case using 3 edge_rel_less [OF assms(1)] by auto
  qed simp_all
  then show ?thesis using assms(3,4) by (auto simp: route_ok_def path_ok_def)
qed

section \<open>Rows of the tables\<close>

definition row_ok :: "nat list list \<Rightarrow> nat \<Rightarrow> nat list list \<Rightarrow> int list \<Rightarrow> bool" where
  "row_ok adj src row ds \<longleftrightarrow> length row = length adj \<and> length ds = length adj \<and>
     (\<forall>v < length adj. route_ok adj src v (row ! v) \<and> int (length (row ! v)) = ds ! v + 1 \<and>
        (\<forall>k. reach_in adj k src v \<longrightarrow> ds ! v \<le> int k))"

lemma route_row_ok:
  assumes "bfs_core adj src s" "\<forall>v \<in> set ds. seen_at s v"
  shows "\<exists>rs. route_row src s ds row = Some (Inr (Inr (row @ rs))) \<and> length rs = length ds \<and>
    (\<forall>i < length ds. route_ok adj src (ds ! i) (rs ! i) \<and> int (length (rs ! i)) = q_dist s ! (ds ! i) + 1)"
  using assms(2)
proof (induction ds arbitrary: row)
  case Nil
  then show ?case by simp
next
  case (Cons d ds)
  have "seen_at s d" using Cons.prems by simp
  from buildRoute_spec [OF assms(1) this] obtain r where
    r: "buildRoute src d (q_parent s) = Some (Inr r)" "route_ok adj src d r"
      "int (length r) = q_dist s ! d + 1" by blast
  obtain rs where rs: "route_row src s ds (row @ [r]) = Some (Inr (Inr ((row @ [r]) @ rs)))"
    "length rs = length ds"
    "\<forall>i < length ds. route_ok adj src (ds ! i) (rs ! i) \<and> int (length (rs ! i)) = q_dist s ! (ds ! i) + 1"
    using Cons.IH [of "row @ [r]"] Cons.prems by auto
  have "q_seen s ! d" using Cons.prems by (simp add: seen_at_def)
  then show ?case using r rs
    by (intro exI [of _ "r # rs"]) (auto simp: nth_Cons split: nat.splits)
qed

lemma route_row_disconnected:
  assumes "bfs_core adj src s" "\<exists>v \<in> set ds. \<not> seen_at s v" "\<forall>v \<in> set ds. v < length adj"
  shows "route_row src s ds row = Some (Inr (Inl ''overlay is disconnected''))"
  using assms(2,3)
proof (induction ds arbitrary: row)
  case Nil
  then show ?case by simp
next
  case (Cons d ds)
  show ?case
  proof (cases "seen_at s d")
    case True
    then obtain r where "buildRoute src d (q_parent s) = Some (Inr r)"
      using buildRoute_spec [OF assms(1)] by auto
    then show ?thesis using Cons True by (auto simp: seen_at_def)
  next
    case False
    then show ?thesis using Cons.prems(2) assms(1) by (auto simp: seen_at_def bfs_core_def)
  qed
qed

lemma overlay_row:
  assumes "adj_ok adj" "src < length adj"
  shows "if \<forall>v < length adj. \<exists>k. reach_in adj k src v
    then \<exists>row s. bfs_loop adj (bfs_init (length adj) src) = Inr s \<and>
      route_row src s [0..<length adj] [] = Some (Inr (Inr row)) \<and> row_ok adj src row (q_dist s)
    else \<exists>s. bfs_loop adj (bfs_init (length adj) src) = Inr s \<and>
      route_row src s [0..<length adj] [] = Some (Inr (Inl ''overlay is disconnected''))"
proof -
  obtain s where s: "bfs_loop adj (bfs_init (length adj) src) = Inr s" "bfs_core adj src s"
    "\<And>v. seen_at s v \<longleftrightarrow> (\<exists>k. reach_in adj k src v)"
    "\<And>v k. reach_in adj k src v \<Longrightarrow> q_dist s ! v \<le> int k"
    using bfs_correct [OF assms] by blast
  show ?thesis
  proof (cases "\<forall>v < length adj. \<exists>k. reach_in adj k src v")
    case True
    then obtain rs where "route_row src s [0..<length adj] [] = Some (Inr (Inr rs))"
      "length rs = length adj"
      "\<forall>i < length adj. route_ok adj src i (rs ! i) \<and> int (length (rs ! i)) = q_dist s ! i + 1"
      using route_row_ok [OF s(2), of "[0..<length adj]" "[]"] s(3) by auto
    then show ?thesis using True s by (auto simp: row_ok_def bfs_core_def)
  next
    case False
    then have "route_row src s [0..<length adj] [] = Some (Inr (Inl ''overlay is disconnected''))"
      by (intro route_row_disconnected [OF s(2)]) (auto simp: s(3))
    then show ?thesis using False s(1) by auto
  qed
qed

lemma overlay_rows_ok:
  assumes "adj_ok adj" "\<forall>x \<in> set ss. x < length adj \<and> (\<forall>v < length adj. \<exists>k. reach_in adj k x v)"
  shows "\<exists>rs ds. overlay_rows (length adj) adj ss routes dist = Some (Inr (Inr (routes @ rs, dist @ ds))) \<and>
    length rs = length ss \<and> length ds = length ss \<and> (\<forall>i < length ss. row_ok adj (ss ! i) (rs ! i) (ds ! i))"
  using assms(2)
proof (induction ss arbitrary: routes dist)
  case Nil
  then show ?case by simp
next
  case (Cons x ss)
  then obtain row s where r: "bfs_loop adj (bfs_init (length adj) x) = Inr s"
    "route_row x s [0..<length adj] [] = Some (Inr (Inr row))" "row_ok adj x row (q_dist s)"
    using overlay_row [OF assms(1), of x] by auto
  obtain rs ds where "overlay_rows (length adj) adj ss (routes @ [row]) (dist @ [q_dist s]) =
      Some (Inr (Inr ((routes @ [row]) @ rs, (dist @ [q_dist s]) @ ds)))"
    "length rs = length ss" "length ds = length ss" "\<forall>i < length ss. row_ok adj (ss ! i) (rs ! i) (ds ! i)"
    using Cons.IH [of "routes @ [row]" "dist @ [q_dist s]"] Cons.prems by auto
  then show ?case using r
    by (intro exI [of _ "row # rs"] exI [of _ "q_dist s # ds"])
      (auto simp: ret_def bindE_def nth_Cons split: nat.splits)
qed

lemma overlay_rows_disconnected:
  assumes "adj_ok adj" "\<forall>x \<in> set ss. x < length adj"
    and "\<exists>x \<in> set ss. \<exists>v < length adj. \<not> (\<exists>k. reach_in adj k x v)"
  shows "overlay_rows (length adj) adj ss routes dist = Some (Inr (Inl ''overlay is disconnected''))"
  using assms(2,3)
proof (induction ss arbitrary: routes dist)
  case Nil
  then show ?case by simp
next
  case (Cons x ss)
  have x: "x < length adj" using Cons.prems(1) by simp
  show ?case
  proof (cases "\<forall>v < length adj. \<exists>k. reach_in adj k x v")
    case True
    then obtain row s where "bfs_loop adj (bfs_init (length adj) x) = Inr s"
      "route_row x s [0..<length adj] [] = Some (Inr (Inr row))"
      using overlay_row [OF assms(1) x] by auto
    then show ?thesis using Cons True by (auto simp: ret_def bindE_def)
  next
    case False
    then obtain s where "bfs_loop adj (bfs_init (length adj) x) = Inr s"
      "route_row x s [0..<length adj] [] = Some (Inr (Inl ''overlay is disconnected''))"
      using overlay_row [OF assms(1) x] by (simp only: if_False) blast
    then show ?thesis by (simp add: ret_def bindE_def)
  qed
qed

section \<open>The overlay\<close>

definition overlay_ok :: "nat \<Rightarrow> OverlayEdge list \<Rightarrow> Overlay \<Rightarrow> bool" where
  "overlay_ok n es ov \<longleftrightarrow> ov_ShardNum ov = n \<and> ov_Edges ov = es \<and>
     length (ov_Routes ov) = n \<and> length (ov_Dist ov) = n \<and>
     (\<forall>x < n. length (ov_Dist ov ! x) = n \<and>
       (\<forall>y < n. path_ok es x y (Route (Some ov) x y) \<and>
         int (length (Route (Some ov) x y)) = ov_Dist ov ! x ! y + 1 \<and>
         (\<forall>r. path_ok es x y r \<longrightarrow> length (Route (Some ov) x y) \<le> length r)))"

lemma newOverlay_total:
  assumes "\<forall>e \<in> set es. edge_ok n e"
  shows "if connects n es
    then \<exists>ov. newOverlay n es = Some (Inr (Inr ov)) \<and> overlay_ok n es ov
    else newOverlay n es = Some (Inr (Inl ''overlay is disconnected''))"
proof -
  obtain adj0 where a0: "build_adj n es (replicate n []) = Inr adj0" "length adj0 = n"
    "\<forall>x < n. set (adj0 ! x) = {y. (x, y) \<in> edge_rel es}"
    using build_adj_spec [OF assms, of "replicate n []"] by auto
  let ?adj = "map sort adj0"
  have ad: "adj_of n es ?adj" using a0(2,3) by (simp add: adj_of_def)
  have len: "length ?adj = n" using a0(2) by simp
  note ok = adj_of_ok [OF assms ad]
  note re = reach_in_rtrancl [OF assms ad]
  show ?thesis
  proof (cases "connects n es")
    case True
    then have "\<forall>x \<in> set [0..<n]. x < length ?adj \<and> (\<forall>v < length ?adj. \<exists>k. reach_in ?adj k x v)"
      using re len by (auto simp: connects_def)
    from overlay_rows_ok [OF ok this, of "[]" "[]"] obtain rs ds where
      r: "overlay_rows n ?adj [0..<n] [] [] = Some (Inr (Inr (rs, ds)))"
        "length rs = n" "length ds = n" "\<forall>i < n. row_ok ?adj i (rs ! i) (ds ! i)"
      unfolding len by auto
    let ?ov = "\<lparr>ov_ShardNum = n, ov_Edges = es, ov_Routes = rs, ov_Dist = ds\<rparr>"
    have "path_ok es x y (rs ! x ! y) \<and> int (length (rs ! x ! y)) = ds ! x ! y + 1 \<and>
        (\<forall>r. path_ok es x y r \<longrightarrow> length (rs ! x ! y) \<le> length r)" if xy: "x < n" "y < n" for x y
    proof -
      have ro: "route_ok ?adj x y (rs ! x ! y)" "int (length (rs ! x ! y)) = ds ! x ! y + 1"
        "\<And>k. reach_in ?adj k x y \<Longrightarrow> ds ! x ! y \<le> int k"
        using r(4) xy len by (auto simp: row_ok_def)
      have "length (rs ! x ! y) \<le> length q" if "path_ok es x y q" for q
      proof -
        have "q \<noteq> []" using that by (simp add: path_ok_def)
        then have "0 < length q" by simp
        then show ?thesis
          using ro(2) ro(3) [OF path_reach [OF assms ad xy(1) that]] by linarith
      qed
      then show ?thesis using ro route_ok_path [OF assms ad xy(1)] by blast
    qed
    then have "overlay_ok n es ?ov"
      using r len by (auto simp: overlay_ok_def Route_def row_ok_def)
    then show ?thesis using True r(1) a0(1) by (auto simp: newOverlay_def bindE_def)
  next
    case False
    then have "\<exists>x \<in> set [0..<n]. \<exists>v < length ?adj. \<not> (\<exists>k. reach_in ?adj k x v)"
      using re len by (auto simp: connects_def)
    from overlay_rows_disconnected [OF ok _ this] show ?thesis
      using False a0(1) len by (auto simp: newOverlay_def bindE_def)
  qed
qed

text \<open>
  Overlays have shortest routes. For well-formed edges \<open>newOverlay\<close> returns, without
  panicking or running forever: the error \<open>overlay is disconnected\<close> if some shard cannot be
  reached, and otherwise an overlay in which the route between any two shards is a path along
  the edges, no path along the edges is shorter, and the distance table holds its number of
  edges. An edge that is out of range or a self-loop is reported as invalid.
\<close>

theorem newOverlay_shortest_routes:
  "((\<exists>e \<in> set es. \<not> edge_ok n e) \<longrightarrow> newOverlay n es = Some (Inr (Inl ''invalid overlay edge''))) \<and>
   ((\<forall>e \<in> set es. edge_ok n e) \<and> \<not> connects n es \<longrightarrow>
      newOverlay n es = Some (Inr (Inl ''overlay is disconnected''))) \<and>
   ((\<forall>e \<in> set es. edge_ok n e) \<and> connects n es \<longrightarrow>
      (\<exists>ov. newOverlay n es = Some (Inr (Inr ov)) \<and> overlay_ok n es ov))"
  using newOverlay_total [of es n] build_adj_invalid [of es n "replicate n []"]
  by (auto simp: newOverlay_def)

lemma line3: "edge_rel [\<lparr>oe_U = 0, oe_V = 1\<rparr>, \<lparr>oe_U = 1, oe_V = 2\<rparr>] = {(0, 1), (1, 0), (1, 2), (2, 1)}"
  by (auto simp: edge_rel_def)

lemma line3_connects: "connects 3 [\<lparr>oe_U = 0, oe_V = 1\<rparr>, \<lparr>oe_U = 1, oe_V = 2\<rparr>]"
proof -
  let ?r = "{(0, 1), (1, 0), (1, 2), (2, 1)} :: (nat \<times> nat) set"
  have to: "(x, 1) \<in> ?r\<^sup>*" "(1, x) \<in> ?r\<^sup>*" if "x < 3" for x :: nat
  proof -
    have "x = 0 \<or> x = 1 \<or> x = 2" using that by linarith
    then show "(x, 1) \<in> ?r\<^sup>*" "(1, x) \<in> ?r\<^sup>*" by auto
  qed
  show ?thesis unfolding connects_def line3 using to rtrancl_trans by metis
qed

end
