(* ===== verification/Overlay_Tree.thy ===== *)
theory Overlay_Tree
  imports Overlay_Routes
begin

text \<open>
  The spanning-tree phase of \<open>BuildOverlayWithMode\<close>. Its loop uses the disjoint-set contract only.
  A class of connected shards always has a spare degree, since its sum of degrees is two
  less than twice its size; so with degree limits of at least two the loop connects all shards.
\<close>

section \<open>Degrees\<close>

definition deg :: "OverlayEdge list \<Rightarrow> nat \<Rightarrow> nat" where
  "deg es x = length (filter (\<lambda>e. oe_U e = x \<or> oe_V e = x) es)"

definition ekey :: "OverlayEdge \<Rightarrow> nat \<times> nat" where
  "ekey e = edgeKey (oe_U e) (oe_V e)"

lemma incr_nth: "i < length xs \<Longrightarrow> incr i xs ! x = (if x = i then xs ! i + 1 else xs ! x)"
  by (auto simp: incr_def nth_list_update)

lemma length_incr [simp]: "length (incr i xs) = length xs"
  by (simp add: incr_def)

lemma edge_rel_snoc:
  "edge_rel (es @ [e]) = edge_rel es \<union> {(oe_U e, oe_V e), (oe_V e, oe_U e)}"
  by (auto simp: edge_rel_def)

lemma edge_rel_sym: "sym (edge_rel es)"
  by (auto simp: edge_rel_def sym_def)

section \<open>The invariant of the loop\<close>

definition cls :: "dsu \<Rightarrow> nat \<Rightarrow> nat set" where
  "cls d x = {y. y < dsu_size d \<and> dsu_root d y = dsu_root d x}"

definition forest_inv :: "nat \<Rightarrow> OverlayEdge list \<Rightarrow> dsu \<Rightarrow> bool" where
  "forest_inv n edges d \<longleftrightarrow> dsu_ok d \<and> dsu_size d = n \<and> (\<forall>e \<in> set edges. edge_ok n e) \<and>
     (\<forall>x < n. \<forall>y < n. dsu_root d x = dsu_root d y \<longrightarrow> (x, y) \<in> (edge_rel edges)\<^sup>*) \<and>
     (\<forall>e \<in> set edges. dsu_root d (oe_U e) = dsu_root d (oe_V e)) \<and>
     card (dsu_roots d) + length edges = n \<and> distinct (map ekey edges)"

definition degree_inv :: "nat \<Rightarrow> int list \<Rightarrow> OverlayEdge list \<Rightarrow> int list \<Rightarrow> bool" where
  "degree_inv n limits edges degrees \<longleftrightarrow> length degrees = n \<and>
     (\<forall>x < n. degrees ! x = int (deg edges x) \<and> degrees ! x \<le> max 0 (limits ! x))"

definition spare_inv :: "nat \<Rightarrow> int list \<Rightarrow> dsu \<Rightarrow> bool" where
  "spare_inv n degrees d \<longleftrightarrow>
     (\<forall>x < n. (\<Sum>y\<in>cls d x. degrees ! y) + 2 = 2 * int (card (cls d x)))"

definition tree_inv :: "nat \<Rightarrow> int list \<Rightarrow> tree_state \<Rightarrow> bool" where
  "tree_inv n limits = (\<lambda>(edges, degrees, d).
     forest_inv n edges d \<and> degree_inv n limits edges degrees \<and> spare_inv n degrees d)"

text \<open>A pair that the loop has passed over.\<close>

definition settled :: "int list \<Rightarrow> tree_state \<Rightarrow> weightedPair \<Rightarrow> bool" where
  "settled limits = (\<lambda>(edges, degrees, d) p. dsu_root d (wp_u p) = dsu_root d (wp_v p) \<or>
     degrees ! wp_u p \<ge> limits ! wp_u p \<or> degrees ! wp_v p \<ge> limits ! wp_v p)"

definition pair_ok :: "nat \<Rightarrow> weightedPair \<Rightarrow> bool" where
  "pair_ok n p \<longleftrightarrow> wp_u p < n \<and> wp_v p < n \<and> wp_u p \<noteq> wp_v p"

text \<open>Searching for representatives changes nothing the invariant speaks of.\<close>

lemma same_roots:
  assumes "dsu_ok d" "dsu_ok d'" "dsu_size d' = dsu_size d" "\<forall>y < dsu_size d. dsu_root d' y = dsu_root d y"
  shows "dsu_roots d' = dsu_roots d" and "x < dsu_size d \<Longrightarrow> cls d' x = cls d x"
  using assms dsu_roots_image [OF assms(1)] dsu_roots_image [OF assms(2)]
  by (auto simp: cls_def)

lemma tree_inv_same_roots:
  assumes "tree_inv n limits (edges, degrees, d)"
    and "dsu_ok d'" "dsu_size d' = dsu_size d" "\<forall>y < dsu_size d. dsu_root d' y = dsu_root d y"
  shows "tree_inv n limits (edges, degrees, d')"
proof -
  have ok: "dsu_ok d" "dsu_size d = n" "\<forall>e \<in> set edges. edge_ok n e"
    using assms(1) by (auto simp: tree_inv_def forest_inv_def)
  note sr = same_roots [OF ok(1) assms(2-4)]
  have "forest_inv n edges d'"
    using assms ok sr(1) by (auto simp: tree_inv_def forest_inv_def edge_ok_def)
  moreover have "spare_inv n degrees d'"
    using assms(1) sr(2) ok(2) by (simp add: tree_inv_def spare_inv_def)
  ultimately show ?thesis using assms(1) by (simp add: tree_inv_def)
qed

subsection \<open>Adding an edge\<close>

lemma sum_incr:
  assumes "finite A" "u < length ds" "v < length ds" "u \<noteq> v"
  shows "(\<Sum>y\<in>A. incr v (incr u ds) ! y) =
    (\<Sum>y\<in>A. ds ! y) + (if u \<in> A then 1 else 0) + (if v \<in> A then 1 else 0)"
proof -
  have "incr v (incr u ds) ! y = ds ! y + (if y = u then 1 else 0) + (if y = v then 1 else 0)" for y
    using assms by (simp add: incr_nth)
  then show ?thesis using assms(1) by (simp add: sum.distrib)
qed

lemma spare_inv_union:
  assumes "spare_inv n degrees d" "dsu_size d = n" "length degrees = n" "u < n" "v < n"
    and "dsu_root d u \<noteq> dsu_root d v" "dsu_size d' = n"
    and merged: "\<forall>x < n. \<forall>y < n. dsu_root d' x = dsu_root d' y \<longleftrightarrow>
       dsu_root d x = dsu_root d y \<or> dsu_root d x = dsu_root d u \<and> dsu_root d y = dsu_root d v \<or>
       dsu_root d x = dsu_root d v \<and> dsu_root d y = dsu_root d u"
  shows "spare_inv n (incr v (incr u degrees)) d'"
  unfolding spare_inv_def
proof (intro allI impI)
  fix x assume x: "x < n"
  have uv: "u \<noteq> v" using assms(6) by auto
  have fin: "finite (cls d z)" for z by (simp add: cls_def)
  show "(\<Sum>y\<in>cls d' x. incr v (incr u degrees) ! y) + 2 = 2 * int (card (cls d' x))"
  proof (cases "dsu_root d x = dsu_root d u \<or> dsu_root d x = dsu_root d v")
    case True
    have c: "cls d' x = cls d u \<union> cls d v"
      using True merged x assms(2,6,7) by (auto simp: cls_def)
    have dj: "cls d u \<inter> cls d v = {}" using assms(6) by (auto simp: cls_def)
    have "(\<Sum>y\<in>cls d u. degrees ! y) + 2 = 2 * int (card (cls d u))"
      "(\<Sum>y\<in>cls d v. degrees ! y) + 2 = 2 * int (card (cls d v))"
      using assms(1,4,5) by (auto simp: spare_inv_def)
    moreover have "u \<in> cls d u" "v \<in> cls d v" "u \<notin> cls d v" "v \<notin> cls d u"
      using assms(2,4-6) by (auto simp: cls_def)
    ultimately show ?thesis
      unfolding c using fin dj assms(3-5) uv
      by (simp add: sum_incr sum.union_disjoint card_Un_disjoint)
  next
    case False
    then have c: "cls d' x = cls d x" using merged x assms(2,7) by (auto simp: cls_def)
    have "u \<notin> cls d x" "v \<notin> cls d x" using False by (auto simp: cls_def)
    then show ?thesis unfolding c using fin assms(1,3-5) uv x by (simp add: sum_incr spare_inv_def)
  qed
qed

lemma deg_snoc: "deg (es @ [e]) x = deg es x + (if oe_U e = x \<or> oe_V e = x then 1 else 0)"
  by (simp add: deg_def)

lemma degree_inv_snoc:
  assumes "degree_inv n limits edges degrees" "u < n" "v < n" "u \<noteq> v"
    and "degrees ! u < limits ! u" "degrees ! v < limits ! v"
  shows "degree_inv n limits (edges @ [\<lparr>oe_U = u, oe_V = v\<rparr>]) (incr v (incr u degrees))"
  using assms by (auto simp: degree_inv_def incr_nth deg_snoc)

lemma ekey_fresh:
  assumes "dsu_root d u \<noteq> dsu_root d v" "\<forall>e \<in> set edges. dsu_root d (oe_U e) = dsu_root d (oe_V e)"
  shows "edgeKey u v \<notin> ekey ` set edges"
  using assms by (fastforce simp: ekey_def edgeKey_def split: if_splits)

lemma merged_connected:
  assumes "\<forall>x < n. \<forall>y < n. dsu_root d x = dsu_root d y \<longrightarrow> (x, y) \<in> (edge_rel edges)\<^sup>*"
    and "u < n" "v < n" "x < n" "y < n"
    and "dsu_root d x = dsu_root d y \<or> dsu_root d x = dsu_root d u \<and> dsu_root d y = dsu_root d v \<or>
       dsu_root d x = dsu_root d v \<and> dsu_root d y = dsu_root d u"
  shows "(x, y) \<in> (edge_rel (edges @ [\<lparr>oe_U = u, oe_V = v\<rparr>]))\<^sup>*"
proof -
  let ?E = "edge_rel (edges @ [\<lparr>oe_U = u, oe_V = v\<rparr>])"
  have old: "(a, b) \<in> ?E\<^sup>*" if "a < n" "b < n" "dsu_root d a = dsu_root d b" for a b
    using assms(1) that rtrancl_mono [of "edge_rel edges" ?E] by (auto simp: edge_rel_snoc)
  have new: "(u, v) \<in> ?E\<^sup>*" "(v, u) \<in> ?E\<^sup>*" by (auto simp: edge_rel_snoc)
  show ?thesis using assms(2-6) old new by (metis rtrancl_trans)
qed

lemma tree_inv_add:
  assumes "tree_inv n limits (edges, degrees, d)" "u < n" "v < n" "dsu_root d u \<noteq> dsu_root d v"
    and "degrees ! u < limits ! u" "degrees ! v < limits ! v"
  obtains d' where "dsu_union u v d = Some (Inr (True, d'))"
    "tree_inv n limits (edges @ [\<lparr>oe_U = u, oe_V = v\<rparr>], incr v (incr u degrees), d')"
    "\<And>x y. x < n \<Longrightarrow> y < n \<Longrightarrow> dsu_root d x = dsu_root d y \<Longrightarrow> dsu_root d' x = dsu_root d' y"
    "dsu_root d' u = dsu_root d' v"
proof -
  have f: "forest_inv n edges d" and g: "degree_inv n limits edges degrees" and h: "spare_inv n degrees d"
    using assms(1) by (auto simp: tree_inv_def)
  have ok: "dsu_ok d" "dsu_size d = n" using f by (auto simp: forest_inv_def)
  obtain d' where d': "dsu_union u v d = Some (Inr (dsu_root d u \<noteq> dsu_root d v, d'))" "dsu_ok d'"
    "dsu_size d' = n" "\<forall>x < n. \<forall>y < n. dsu_root d' x = dsu_root d' y \<longleftrightarrow>
       dsu_root d x = dsu_root d y \<or> dsu_root d x = dsu_root d u \<and> dsu_root d y = dsu_root d v \<or>
       dsu_root d x = dsu_root d v \<and> dsu_root d y = dsu_root d u"
    "card (dsu_roots d') + 1 = card (dsu_roots d)"
    using dsu.union_law [OF ok(1), of u v] assms(2-4) ok(2) by auto
  let ?e = "\<lparr>oe_U = u, oe_V = v\<rparr>"
  have uv: "u \<noteq> v" using assms(4) by auto
  have "forest_inv n (edges @ [?e]) d'"
    unfolding forest_inv_def
  proof (intro conjI)
    show "\<forall>x<n. \<forall>y<n. dsu_root d' x = dsu_root d' y \<longrightarrow> (x, y) \<in> (edge_rel (edges @ [?e]))\<^sup>*"
      using merged_connected [of n d edges u v] f assms(2,3) d'(4) by (auto simp: forest_inv_def)
    show "\<forall>e \<in> set (edges @ [?e]). dsu_root d' (oe_U e) = dsu_root d' (oe_V e)"
      using f d'(4) assms(2,3) by (auto simp: forest_inv_def edge_ok_def)
    show "distinct (map ekey (edges @ [?e]))"
      using f ekey_fresh [OF assms(4)] by (auto simp: forest_inv_def ekey_def)
  qed (use f d' assms(2,3) uv in \<open>auto simp: forest_inv_def edge_ok_def\<close>)
  then have "tree_inv n limits (edges @ [?e], incr v (incr u degrees), d')"
    using degree_inv_snoc [OF g assms(2,3) uv assms(5,6)] spare_inv_union [OF h ok(2) _ assms(2-4) d'(3,4)]
      g [unfolded degree_inv_def, THEN conjunct1]
    by (simp add: tree_inv_def)
  then show ?thesis using that [of d'] d' assms(2-4) by auto
qed

section \<open>The loop\<close>

lemma incr_ge: "(xs :: int list) ! x \<le> incr i xs ! x"
  by (cases "i < length xs") (auto simp: incr_nth, simp add: incr_def list_update_beyond)

lemma settled_mono:
  assumes "settled limits (edges, degrees, d) p" "pair_ok n p"
    and "\<And>x y. x < n \<Longrightarrow> y < n \<Longrightarrow> dsu_root d x = dsu_root d y \<Longrightarrow> dsu_root d' x = dsu_root d' y"
    and "\<And>x. degrees ! x \<le> degrees' ! x"
  shows "settled limits (edges', degrees', d') p"
proof -
  have u: "wp_u p < n" "wp_v p < n" using assms(2) by (auto simp: pair_ok_def)
  consider "dsu_root d (wp_u p) = dsu_root d (wp_v p)" | "degrees ! wp_u p \<ge> limits ! wp_u p"
    | "degrees ! wp_v p \<ge> limits ! wp_v p"
    using assms(1) by (auto simp: settled_def)
  then show ?thesis
  proof cases
    case 1
    then show ?thesis using assms(3) [OF u] by (simp add: settled_def)
  next
    case 2
    then show ?thesis using assms(4) [of "wp_u p"] by (simp add: settled_def)
  next
    case 3
    then show ?thesis using assms(4) [of "wp_v p"] by (simp add: settled_def)
  qed
qed

lemma tree_loop_spec:
  assumes "tree_inv n limits st" "\<forall>p \<in> set ps. pair_ok n p"
    and "\<forall>p \<in> set done. pair_ok n p \<and> settled limits st p"
  shows "\<exists>st'. tree_loop n limits ps st = Some (Inr st') \<and> tree_inv n limits st' \<and>
    (length (fst st') = n - 1 \<or> (\<forall>p \<in> set done \<union> set ps. settled limits st' p))"
  using assms
proof (induction ps arbitrary: st "done")
  case Nil
  then show ?case by auto
next
  case (Cons p ps)
  obtain edges degrees d where st: "st = (edges, degrees, d)" by (cases st) auto
  let ?u = "wp_u p" and ?v = "wp_v p"
  have p: "?u < n" "?v < n" "?u \<noteq> ?v" using Cons.prems(2) by (auto simp: pair_ok_def)
  have ok: "dsu_ok d" "dsu_size d = n" using Cons.prems(1) st by (auto simp: tree_inv_def forest_inv_def)
  obtain d1 where d1: "dsu_find ?u d = Some (Inr (dsu_root d ?u, d1))" "dsu_ok d1" "dsu_size d1 = n"
    "\<forall>y < n. dsu_root d1 y = dsu_root d y"
    using dsu.find_law [OF ok(1), of ?u] p ok(2) by auto
  obtain d2 where d2: "dsu_find ?v d1 = Some (Inr (dsu_root d ?v, d2))" "dsu_ok d2" "dsu_size d2 = n"
    "\<forall>y < n. dsu_root d2 y = dsu_root d y"
    using dsu.find_law [OF d1(2), of ?v] p d1(3,4) by auto
  have inv2: "tree_inv n limits (edges, degrees, d2)"
    using tree_inv_same_roots [of n limits edges degrees d d2] Cons.prems(1) st d2(2-4) ok(2) by simp
  have done2: "pair_ok n q \<and> settled limits (edges, degrees, d2) q" if "q \<in> set done" for q
    using Cons.prems(3) that st d2(4) settled_mono [of limits edges degrees d q n d2 degrees edges] by auto
  show ?case
  proof (cases "length edges = n - 1")
    case True
    then show ?thesis using Cons.prems(1) st by auto
  next
    case False
    show ?thesis
    proof (cases "settled limits (edges, degrees, d2) p")
      case True
      then have "\<exists>st'. tree_loop n limits ps (edges, degrees, d2) = Some (Inr st') \<and> tree_inv n limits st' \<and>
        (length (fst st') = n - 1 \<or> (\<forall>q \<in> set (p # done) \<union> set ps. settled limits st' q))"
        using Cons.IH [OF inv2, of "p # done"] Cons.prems(2) done2 by auto
      then show ?thesis using False True st d1(1) d2(1,4) p by (auto simp: settled_def)
    next
      case unsettled: False
      then have nd: "dsu_root d2 ?u \<noteq> dsu_root d2 ?v" "degrees ! ?u < limits ! ?u" "degrees ! ?v < limits ! ?v"
        by (auto simp: settled_def)
      let ?edges = "edges @ [\<lparr>oe_U = ?u, oe_V = ?v\<rparr>]" and ?deg = "incr ?v (incr ?u degrees)"
      obtain d3 where d3: "dsu_union ?u ?v d2 = Some (Inr (True, d3))"
        "tree_inv n limits (?edges, ?deg, d3)"
        "\<And>x y. x < n \<Longrightarrow> y < n \<Longrightarrow> dsu_root d2 x = dsu_root d2 y \<Longrightarrow> dsu_root d3 x = dsu_root d3 y"
        "dsu_root d3 ?u = dsu_root d3 ?v"
        using tree_inv_add [OF inv2 p(1,2) nd] by blast
      have ge: "degrees ! x \<le> ?deg ! x" for x by (meson incr_ge order_trans)
      have "settled limits (?edges, ?deg, d3) q" if "q \<in> set done" for q
        using settled_mono [OF conjunct2 [OF done2 [OF that]] conjunct1 [OF done2 [OF that]] d3(3) ge] .
      then have "pair_ok n q \<and> settled limits (?edges, ?deg, d3) q" if "q \<in> set (p # done)" for q
        using that done2 d3(4) Cons.prems(2) by (auto simp: settled_def)
      then have "\<exists>st'. tree_loop n limits ps (?edges, ?deg, d3) = Some (Inr st') \<and> tree_inv n limits st' \<and>
        (length (fst st') = n - 1 \<or> (\<forall>q \<in> set (p # done) \<union> set ps. settled limits st' q))"
        using Cons.IH [OF d3(2), of "p # done"] Cons.prems(2) by auto
      then show ?thesis using False st d1(1) d2(1,4) d3(1) nd p by auto
    qed
  qed
qed

lemma tree_inv_init: "tree_inv n limits ([], replicate n 0, newDSU n)"
proof -
  have "cls (newDSU n) x = {x}" if "x < n" for x
    using that by (auto simp: cls_def newDSU_root)
  then show ?thesis
    by (auto simp: tree_inv_def forest_inv_def degree_inv_def spare_inv_def deg_def newDSU_roots
        newDSU_root)
qed

section \<open>All shards are connected\<close>

lemma spare_exists:
  assumes "spare_inv n degrees d" "dsu_size d = n" "x < n"
  shows "\<exists>y < n. dsu_root d y = dsu_root d x \<and> degrees ! y < 2"
proof (rule ccontr)
  assume "\<not> ?thesis"
  then have "\<forall>y \<in> cls d x. 2 \<le> degrees ! y" using assms(2) by (auto simp: cls_def not_less)
  then have "(\<Sum>y\<in>cls d x. 2) \<le> (\<Sum>y\<in>cls d x. degrees ! y)" by (intro sum_mono) auto
  then show False using assms(1,3) by (auto simp: spare_inv_def)
qed

lemma tree_complete:
  assumes "tree_inv n limits (edges, degrees, d)" "\<forall>x < n. 2 \<le> limits ! x" "0 < n"
    and "\<And>u v. u < v \<Longrightarrow> v < n \<Longrightarrow> \<exists>p. wp_u p = u \<and> wp_v p = v \<and> settled limits (edges, degrees, d) p"
  shows "length edges = n - 1"
proof -
  have h: "spare_inv n degrees d" "dsu_size d = n" "dsu_ok d" "card (dsu_roots d) + length edges = n"
    using assms(1) by (auto simp: tree_inv_def forest_inv_def)
  have "dsu_root d x = dsu_root d y" if xy: "x < n" "y < n" for x y
  proof (rule ccontr)
    assume ne: "dsu_root d x \<noteq> dsu_root d y"
    obtain a where a: "a < n" "dsu_root d a = dsu_root d x" "degrees ! a < 2"
      using spare_exists [OF h(1,2) xy(1)] by blast
    obtain b where b: "b < n" "dsu_root d b = dsu_root d y" "degrees ! b < 2"
      using spare_exists [OF h(1,2) xy(2)] by blast
    have spare: "\<not> degrees ! a \<ge> limits ! a" "\<not> degrees ! b \<ge> limits ! b"
      using a(1,3) b(1,3) assms(2) by force+
    have "a \<noteq> b" using a b ne by auto
    then consider "a < b" | "b < a" by linarith
    then show False
    proof cases
      case 1
      from assms(4) [OF 1 b(1)] have "dsu_root d a = dsu_root d b \<or> degrees ! a \<ge> limits ! a \<or> degrees ! b \<ge> limits ! b"
        by (auto simp: settled_def)
      then show False using a(2) b(2) ne spare by simp
    next
      case 2
      from assms(4) [OF 2 a(1)] have "dsu_root d a = dsu_root d b \<or> degrees ! a \<ge> limits ! a \<or> degrees ! b \<ge> limits ! b"
        by (auto simp: settled_def)
      then show False using a(2) b(2) ne spare by simp
    qed
  qed
  then have "\<And>x. x \<in> {..<n} \<Longrightarrow> dsu_root d x = dsu_root d 0" using assms(3) by blast
  then have "dsu_root d ` {..<n} = (\<lambda>_. dsu_root d 0) ` {..<n}" by (rule image_cong [OF refl])
  then have "dsu_root d ` {..<n} = {dsu_root d 0}" using assms(3) by auto
  then show ?thesis using h dsu_roots_image [OF h(3)] by simp
qed

lemma tree_connects:
  assumes "forest_inv n edges d" "length edges = n - 1" "0 < n"
  shows "connects n edges"
proof -
  have f: "dsu_ok d" "dsu_size d = n" "card (dsu_roots d) + length edges = n"
    using assms(1) unfolding forest_inv_def by blast+
  then have c: "card (dsu_roots d) = 1" using assms(2,3) by linarith
  show ?thesis
    using dsu.one_class [OF f(1) c] f(2) assms(1) unfolding connects_def forest_inv_def by blast
qed

end
