(* ===== verification/Overlay_Build.thy ===== *)
theory Overlay_Build
  imports Overlay_Tree
begin

text \<open>
  The whole construction: the sorted list of pairs, the growth phase, which is shown to end, and
  the three ways of building an overlay.
\<close>

section \<open>The sorted pairs\<close>

definition index_pairs :: "nat \<Rightarrow> (nat \<times> nat) list" where
  "index_pairs n = concat (map (\<lambda>i. map (Pair i) [i+1..<n]) [0..<n])"

lemma set_index_pairs: "set (index_pairs n) = {(i, j). i < j \<and> j < n}"
  by (force simp: index_pairs_def)

lemma read_pairs_spec:
  assumes "\<forall>(i, j) \<in> set ps. i < length weights \<and> j < length (weights ! i)"
  shows "read_pairs weights ps acc =
    Inr (acc @ map (\<lambda>(i, j). \<lparr>wp_u = i, wp_v = j, wp_w = weights ! i ! j\<rparr>) ps)"
  using assms
proof (induction ps arbitrary: acc)
  case Nil
  then show ?case by simp
next
  case (Cons p ps)
  then show ?case by (cases p) (auto simp: idx2_def idx_def)
qed

definition square :: "nat \<Rightarrow> 'a list list \<Rightarrow> bool" where
  "square n m \<longleftrightarrow> length m = n \<and> (\<forall>i < n. n \<le> length (m ! i))"

lemma sortedWeightedPairs_spec:
  assumes "square n weights"
  shows "\<exists>ps. sortedWeightedPairs weights = Inr ps \<and> (\<forall>p \<in> set ps. wp_u p < wp_v p \<and> wp_v p < n) \<and>
    (\<forall>u v. u < v \<longrightarrow> v < n \<longrightarrow> (\<exists>p \<in> set ps. wp_u p = u \<and> wp_v p = v)) \<and> sorted (map pair_key ps)"
proof -
  let ?ps = "map (\<lambda>(i, j). \<lparr>wp_u = i, wp_v = j, wp_w = weights ! i ! j\<rparr>) (index_pairs n)"
  have "i < length weights \<and> j < length (weights ! i)" if "i < j" "j < n" for i j
  proof -
    have "i < n" using that by simp
    then have "i < length weights" "n \<le> length (weights ! i)" using assms by (simp_all add: square_def)
    then show ?thesis using that by simp
  qed
  then have "\<forall>(i, j) \<in> set (index_pairs n). i < length weights \<and> j < length (weights ! i)"
    by (auto simp: set_index_pairs)
  then have "read_pairs weights (index_pairs n) [] = Inr ?ps"
    using read_pairs_spec by fastforce
  then have "sortedWeightedPairs weights = Inr (sort_key pair_key ?ps)"
    using assms by (simp add: sortedWeightedPairs_def index_pairs_def square_def Let_def)
  then show ?thesis using set_index_pairs [of n] by (fastforce simp: image_iff)
qed

section \<open>Gains\<close>

lemma idx2_square: "square n m \<Longrightarrow> i < n \<Longrightarrow> j < n \<Longrightarrow> idx2 m i j = Inr (m ! i ! j)"
  by (auto simp: idx2_def idx_def square_def)

lemma gain_via_total:
  "square n dist \<Longrightarrow> i < n \<Longrightarrow> a < n \<Longrightarrow> b < n \<Longrightarrow> j < n \<Longrightarrow> \<exists>x. gain_via dist i a b j d = Inr x"
  by (simp add: gain_via_def idx2_square Let_def)

lemma overlayGain_total:
  assumes "square n weights" "square n dist" "u < n" "v < n"
  shows "\<exists>g. overlayGain weights dist u v = Inr g"
proof -
  have step: "\<exists>g'. gain_step weights dist u v (i, j) g = Inr g'" if ij: "i < j" "j < n" for i j g
  proof -
    have i: "i < n" using ij by simp
    obtain x where x: "gain_via dist i u v j (dist ! i ! j) = Inr x"
      using gain_via_total [OF assms(2) i assms(3,4) ij(2)] by blast
    obtain y where "gain_via dist i v u j x = Inr y"
      using gain_via_total [OF assms(2) i assms(4,3) ij(2)] by blast
    then show ?thesis using x idx2_square [OF assms(1) i ij(2)] idx2_square [OF assms(2) i ij(2)]
      by (simp add: gain_step_def)
  qed
  have "\<exists>g. foldR (gain_step weights dist u v) (index_pairs n) 0 = Inr g \<and> True"
    by (rule foldR_total) (auto simp: set_index_pairs step)
  then show ?thesis using assms(1) by (simp add: overlayGain_def index_pairs_def square_def Let_def)
qed

section \<open>Growth\<close>

definition addable :: "int list \<Rightarrow> (nat \<times> nat) set \<Rightarrow> int list \<Rightarrow> weightedPair list \<Rightarrow> OverlayEdge \<Rightarrow> bool" where
  "addable limits ex degrees ps e \<longleftrightarrow> (\<exists>p \<in> set ps. e = \<lparr>oe_U = wp_u p, oe_V = wp_v p\<rparr> \<and>
     edgeKey (wp_u p) (wp_v p) \<notin> ex \<and> degrees ! wp_u p < limits ! wp_u p \<and> degrees ! wp_v p < limits ! wp_v p)"

lemma best_edge_spec:
  assumes "square n weights" "square n dist" "\<forall>p \<in> set ps. wp_u p < wp_v p \<and> wp_v p < n"
  shows "\<exists>g e. foldR (best_step weights limits ex degrees dist) ps (0, \<lparr>oe_U = 0, oe_V = 0\<rparr>) = Inr (g, e) \<and>
    (g \<le> 0 \<or> addable limits ex degrees ps e)"
proof -
  have "\<exists>b. foldR (best_step weights limits ex degrees dist) ps (0, \<lparr>oe_U = 0, oe_V = 0\<rparr>) = Inr b \<and>
    (case b of (g, e) \<Rightarrow> 0 \<le> g \<and> (g \<le> 0 \<or> addable limits ex degrees ps e))"
  proof (rule foldR_total [where P = "\<lambda>(g, e). 0 \<le> g \<and> (g \<le> 0 \<or> addable limits ex degrees ps e)"])
    fix p and b :: "int \<times> OverlayEdge"
    assume p: "p \<in> set ps" and b: "case b of (g, e) \<Rightarrow> 0 \<le> g \<and> (g \<le> 0 \<or> addable limits ex degrees ps e)"
    obtain g e where be: "b = (g, e)" by force
    have "wp_u p < n" "wp_v p < n" using assms(3) p by fastforce+
    then obtain gain where gain: "overlayGain weights dist (wp_u p) (wp_v p) = Inr gain"
      using overlayGain_total [OF assms(1,2)] by blast
    show "\<exists>t. best_step weights limits ex degrees dist p b = Inr t \<and>
      (case t of (g, e) \<Rightarrow> 0 \<le> g \<and> (g \<le> 0 \<or> addable limits ex degrees ps e))"
    proof (cases "edgeKey (wp_u p) (wp_v p) \<in> ex \<or> degrees ! wp_u p \<ge> limits ! wp_u p \<or>
        degrees ! wp_v p \<ge> limits ! wp_v p")
      case True
      then show ?thesis using b be by (auto simp: best_step_def Let_def)
    next
      case False
      then have "addable limits ex degrees ps \<lparr>oe_U = wp_u p, oe_V = wp_v p\<rparr>"
        using p by (auto simp: addable_def)
      then show ?thesis using False b be gain by (auto simp: best_step_def Let_def)
    qed
  qed simp
  then show ?thesis by auto
qed

text \<open>The state of the growth phase.\<close>

definition grow_inv ::
  "nat \<Rightarrow> int list \<Rightarrow> OverlayEdge list \<Rightarrow> int list \<Rightarrow> Overlay \<Rightarrow> bool" where
  "grow_inv n limits edges degrees ov \<longleftrightarrow> (\<forall>e \<in> set edges. edge_ok n e) \<and> connects n edges \<and>
     degree_inv n limits edges degrees \<and> distinct (map ekey edges) \<and> overlay_ok n edges ov"

lemma connects_snoc: "connects n es \<Longrightarrow> connects n (es @ [e])"
  using rtrancl_mono [of "edge_rel es" "edge_rel (es @ [e])"]
  by (auto simp: connects_def edge_rel_snoc)

lemma overlay_ok_square: "overlay_ok n es ov \<Longrightarrow> square n (ov_Dist ov)"
  by (simp add: overlay_ok_def square_def)

lemma grow_step:
  assumes "grow_inv n limits edges degrees ov" "addable limits (ekey ` set edges) degrees ps e"
    and "\<forall>p \<in> set ps. wp_u p < wp_v p \<and> wp_v p < n"
  shows "\<exists>ov'. newOverlay n (edges @ [e]) = Some (Inr (Inr ov')) \<and>
    grow_inv n limits (edges @ [e]) (incr (oe_V e) (incr (oe_U e) degrees)) ov'"
proof -
  obtain p where p: "p \<in> set ps" "e = \<lparr>oe_U = wp_u p, oe_V = wp_v p\<rparr>"
    "edgeKey (wp_u p) (wp_v p) \<notin> ekey ` set edges"
    "degrees ! wp_u p < limits ! wp_u p" "degrees ! wp_v p < limits ! wp_v p"
    using assms(2) by (auto simp: addable_def)
  have uv: "wp_u p < n" "wp_v p < n" "wp_u p \<noteq> wp_v p" using assms(3) p(1) by fastforce+
  have ok: "\<forall>x \<in> set (edges @ [e]). edge_ok n x"
    using assms(1) uv p(2) by (auto simp: grow_inv_def edge_ok_def)
  have con: "connects n (edges @ [e])" using assms(1) connects_snoc by (auto simp: grow_inv_def)
  have dk: "distinct (map ekey (edges @ [e]))" using assms(1) p(2,3) by (auto simp: grow_inv_def ekey_def)
  have dg: "degree_inv n limits (edges @ [e]) (incr (oe_V e) (incr (oe_U e) degrees))"
    using degree_inv_snoc [OF _ uv p(4,5)] assms(1) p(2) by (simp add: grow_inv_def)
  show ?thesis
    using newOverlay_total [OF ok] con dk dg ok unfolding grow_inv_def by (simp only: if_True) blast
qed

lemma grow_loop_ends:
  assumes "grow_inv n limits edges degrees ov" "square n weights"
    and "\<forall>p \<in> set ps. wp_u p < wp_v p \<and> wp_v p < n"
  shows "\<exists>ov' more degrees'. grow_loop n weights limits ps edges (ekey ` set edges) degrees ov =
      Some (Inr (Inr ov')) \<and> grow_inv n limits (edges @ more) degrees' ov'"
  using assms(1)
proof (induction "card ((\<lambda>p. edgeKey (wp_u p) (wp_v p)) ` set ps - ekey ` set edges)"
    arbitrary: edges degrees ov rule: less_induct)
  case less
  let ?keys = "(\<lambda>p. edgeKey (wp_u p) (wp_v p)) ` set ps"
  have sq: "square n (ov_Dist ov)" using less.prems overlay_ok_square by (auto simp: grow_inv_def)
  obtain g e where ge: "foldR (best_step weights limits (ekey ` set edges) degrees (ov_Dist ov)) ps
      (0, \<lparr>oe_U = 0, oe_V = 0\<rparr>) = Inr (g, e)" "g \<le> 0 \<or> addable limits (ekey ` set edges) degrees ps e"
    using best_edge_spec [OF assms(2) sq assms(3)] by blast
  show ?case
  proof (cases "g \<le> 0")
    case True
    then have "grow_loop n weights limits ps edges (ekey ` set edges) degrees ov = Some (Inr (Inr ov))"
      using ge(1) by (subst grow_loop.simps) (simp add: ret_def)
    then show ?thesis using less.prems by (metis append_Nil2)
  next
    case False
    then have ad: "addable limits (ekey ` set edges) degrees ps e" using ge(2) by blast
    obtain ov' where ov': "newOverlay n (edges @ [e]) = Some (Inr (Inr ov'))"
      "grow_inv n limits (edges @ [e]) (incr (oe_V e) (incr (oe_U e) degrees)) ov'"
      using grow_step [OF less.prems ad assms(3)] by blast
    have "ekey e \<in> ?keys - ekey ` set edges" using ad by (auto simp: addable_def ekey_def)
    then have "card (?keys - ekey ` set (edges @ [e])) < card (?keys - ekey ` set edges)"
      by (intro psubset_card_mono) auto
    from less.hyps [OF this ov'(2)] obtain ov'' more degrees'' where
      r: "grow_loop n weights limits ps (edges @ [e]) (ekey ` set (edges @ [e]))
          (incr (oe_V e) (incr (oe_U e) degrees)) ov' = Some (Inr (Inr ov''))"
        "grow_inv n limits ((edges @ [e]) @ more) degrees'' ov''" by blast
    have "grow_loop n weights limits ps edges (ekey ` set edges) degrees ov = Some (Inr (Inr ov''))"
      using ge(1) False ov'(1) r(1) by (subst grow_loop.simps) (simp add: ret_def ekey_def)
    then show ?thesis using r(2) by (metis append.assoc)
  qed
qed

section \<open>Building an overlay\<close>

lemma check_rows_ok:
  assumes "\<forall>i \<in> set is. n \<le> length (weights ! i) \<and> 2 \<le> limits ! i"
  shows "check_rows weights limits n is = None"
  using assms by (induction "is") auto

lemma tree_phase:
  assumes "square n weights" "length limits = n" "0 < n" "\<forall>i < n. 2 \<le> limits ! i"
    and "sortedWeightedPairs weights = Inr ps" "\<forall>p \<in> set ps. wp_u p < wp_v p \<and> wp_v p < n"
    and "\<forall>u v. u < v \<longrightarrow> v < n \<longrightarrow> (\<exists>p \<in> set ps. wp_u p = u \<and> wp_v p = v)"
  shows "\<exists>edges degrees d ov. tree_loop n limits ps ([], replicate n 0, newDSU n) =
      Some (Inr (edges, degrees, d)) \<and> length edges = n - 1 \<and>
    newOverlay n edges = Some (Inr (Inr ov)) \<and> grow_inv n limits edges degrees ov"
proof -
  have pok: "\<forall>p \<in> set ps. pair_ok n p" using assms(6) by (fastforce simp: pair_ok_def)
  obtain edges degrees d where t: "tree_loop n limits ps ([], replicate n 0, newDSU n) = Some (Inr (edges, degrees, d))"
    "tree_inv n limits (edges, degrees, d)"
    "length edges = n - 1 \<or> (\<forall>p \<in> set ps. settled limits (edges, degrees, d) p)"
    using tree_loop_spec [OF tree_inv_init pok, of "[]" limits] by auto
  have len: "length edges = n - 1"
    using t(3) tree_complete [OF t(2) assms(4,3)] assms(7) by blast
  have f: "forest_inv n edges d" "degree_inv n limits edges degrees" using t(2) by (auto simp: tree_inv_def)
  have ok: "\<forall>e \<in> set edges. edge_ok n e" "distinct (map ekey edges)"
    using f(1) unfolding forest_inv_def by blast+
  have con: "connects n edges" by (rule tree_connects [OF f(1) len assms(3)])
  obtain ov where "newOverlay n edges = Some (Inr (Inr ov))" "overlay_ok n edges ov"
    using newOverlay_total [OF ok(1)] con by auto
  then show ?thesis using t(1) len con ok f(2) unfolding grow_inv_def by blast
qed

lemma BuildOverlayWithMode_total:
  assumes "square (length limits) weights" "limits \<noteq> []" "\<forall>l \<in> set limits. 2 \<le> l"
    and "mode = OverlayBuildFull \<or> mode = OverlayBuildTreeOnly"
  shows "\<exists>ov degrees. BuildOverlayWithMode weights limits mode = Some (Inr (Inr ov)) \<and>
    grow_inv (length limits) limits (ov_Edges ov) degrees ov \<and>
    length limits - 1 \<le> length (ov_Edges ov) \<and>
    (mode = OverlayBuildTreeOnly \<longrightarrow> length (ov_Edges ov) = length limits - 1)"
proof -
  let ?n = "length limits"
  have n: "0 < ?n" "\<forall>i < ?n. 2 \<le> limits ! i" using assms(2,3) by auto
  obtain ps where ps: "sortedWeightedPairs weights = Inr ps"
    "\<forall>p \<in> set ps. wp_u p < wp_v p \<and> wp_v p < ?n"
    "\<forall>u v. u < v \<longrightarrow> v < ?n \<longrightarrow> (\<exists>p \<in> set ps. wp_u p = u \<and> wp_v p = v)"
    using sortedWeightedPairs_spec [OF assms(1)] by blast
  obtain edges degrees d ov where t: "tree_loop ?n limits ps ([], replicate ?n 0, newDSU ?n) =
      Some (Inr (edges, degrees, d))" "length edges = ?n - 1" "newOverlay ?n edges = Some (Inr (Inr ov))"
    "grow_inv ?n limits edges degrees ov"
    using tree_phase [OF assms(1) refl n ps] by blast
  have ch: "check_rows weights limits ?n [0..<?n] = None"
    by (rule check_rows_ok) (use assms(1) n in \<open>auto simp: square_def\<close>)
  have modes: "mode \<noteq> OverlayBuildBinaryTree" "OverlayBuildFull \<noteq> OverlayBuildTreeOnly"
    using assms(4) by (auto simp: OverlayBuildFull_def OverlayBuildTreeOnly_def OverlayBuildBinaryTree_def)
  have build: "BuildOverlayWithMode weights limits mode =
    (if mode = OverlayBuildTreeOnly then Some (Inr (Inr ov))
     else grow_loop ?n weights limits ps edges (ekey ` set edges) degrees ov)"
    using assms(1,2,4) ps(1) t(1-3) ch modes
    by (auto simp: BuildOverlayWithMode_def Let_def ret_def bindE_def square_def ekey_def)
  obtain ov' more degrees' where g: "grow_loop ?n weights limits ps edges (ekey ` set edges) degrees ov =
      Some (Inr (Inr ov'))" "grow_inv ?n limits (edges @ more) degrees' ov'"
    using grow_loop_ends [OF t(4) assms(1) ps(2)] by blast
  have eq: "ov_Edges ov = edges" "ov_Edges ov' = edges @ more"
    using t(4) g(2) by (auto simp: grow_inv_def overlay_ok_def)
  show ?thesis
  proof (cases "mode = OverlayBuildTreeOnly")
    case True
    then show ?thesis using build t(2,4) eq(1) by auto
  next
    case False
    then show ?thesis using build g eq(2) t(2) by auto
  qed
qed

text \<open>
  (C7) Overlay construction. For a square weight matrix and degree limits of at least two,
  \<open>BuildOverlayWithMode\<close> (full or tree-only) always returns an overlay: neither the greedy spanning
  tree nor the growth phase fails or runs forever. The overlay connects all shards, its routes are
  shortest paths along its edges, no shard exceeds its degree limit, no edge is duplicated, and
  in tree-only mode there are exactly one edge less than shards.
\<close>

theorem build_overlay_correct:
  assumes "square (length limits) weights" "limits \<noteq> []" "\<forall>l \<in> set limits. 2 \<le> l"
    and "mode = OverlayBuildFull \<or> mode = OverlayBuildTreeOnly"
  shows "\<exists>ov. BuildOverlayWithMode weights limits mode = Some (Inr (Inr ov)) \<and>
    overlay_ok (length limits) (ov_Edges ov) ov \<and> connects (length limits) (ov_Edges ov) \<and>
    (\<forall>x < length limits. int (deg (ov_Edges ov) x) \<le> limits ! x) \<and>
    distinct (map ekey (ov_Edges ov)) \<and>
    length limits - 1 \<le> length (ov_Edges ov) \<and>
    (mode = OverlayBuildTreeOnly \<longrightarrow> length (ov_Edges ov) = length limits - 1)"
proof -
  obtain ov degrees where b: "BuildOverlayWithMode weights limits mode = Some (Inr (Inr ov))"
    "grow_inv (length limits) limits (ov_Edges ov) degrees ov"
    "length limits - 1 \<le> length (ov_Edges ov)"
    "mode = OverlayBuildTreeOnly \<longrightarrow> length (ov_Edges ov) = length limits - 1"
    using BuildOverlayWithMode_total [OF assms] by blast
  have "int (deg (ov_Edges ov) x) \<le> limits ! x" if "x < length limits" for x
  proof -
    have "2 \<le> limits ! x" using assms(3) that by simp
    then show ?thesis using b(2) that by (auto simp: grow_inv_def degree_inv_def)
  qed
  then show ?thesis using b by (auto simp: grow_inv_def)
qed

theorem build_overlay_correct_witness:
  "\<exists>ov. BuildOverlayWithMode [[0, 5, 1], [5, 0, 9], [1, 9, 0]] [2, 2, 2] OverlayBuildTreeOnly = Some (Inr (Inr ov)) \<and>
    overlay_ok 3 (ov_Edges ov) ov \<and> connects 3 (ov_Edges ov) \<and>
    (\<forall>x < 3. int (deg (ov_Edges ov) x) \<le> [2, 2, 2] ! x) \<and> length (ov_Edges ov) = 2"
proof -
  have "square (length [2, 2, 2 :: int]) [[0, 5, 1], [5, 0, 9], [1, 9, 0 :: int]]"
    by (auto simp: square_def numeral_3_eq_3 less_Suc_eq)
  from build_overlay_correct [OF this, of OverlayBuildTreeOnly] show ?thesis
    by (auto simp: numeral_3_eq_3 numeral_2_eq_2)
qed

section \<open>Binary tree and complete overlay\<close>

definition binary_edges :: "nat \<Rightarrow> OverlayEdge list" where
  "binary_edges n = map (\<lambda>sid. \<lparr>oe_U = (sid - 1) div 2, oe_V = sid\<rparr>) [1..<n]"

lemma binary_edges_ok: "\<forall>e \<in> set (binary_edges n). edge_ok n e"
  by (auto simp: binary_edges_def edge_ok_def)

lemma binary_parent:
  assumes "0 < x" "x < n"
  shows "(x, (x - 1) div 2) \<in> edge_rel (binary_edges n)"
  unfolding edge_rel_def binary_edges_def
  using assms by (auto intro!: bexI [of _ "\<lparr>oe_U = (x - 1) div 2, oe_V = x\<rparr>"])

lemma binary_to_root: "x < n \<Longrightarrow> (x, 0) \<in> (edge_rel (binary_edges n))\<^sup>*"
proof (induction x rule: less_induct)
  case (less x)
  show ?case
  proof (cases "x = 0")
    case False
    then have "(x - 1) div 2 < x" by simp
    then have "((x - 1) div 2, 0) \<in> (edge_rel (binary_edges n))\<^sup>*" using less by auto
    then show ?thesis using binary_parent [of x n] False less.prems
      by (meson converse_rtrancl_into_rtrancl gr0I)
  qed simp
qed

lemma connects_via:
  assumes "\<And>x. x < n \<Longrightarrow> (x, c) \<in> (edge_rel es)\<^sup>*"
  shows "connects n es"
proof -
  have "(c, y) \<in> (edge_rel es)\<^sup>*" if "y < n" for y
    using assms [OF that] sym_rtrancl [OF edge_rel_sym] by (auto dest: symD)
  then show ?thesis using assms rtrancl_trans unfolding connects_def by metis
qed

lemma binary_degree: "deg (binary_edges n) x \<le> 3"
proof -
  let ?P = "\<lambda>sid. (sid - 1) div 2 = x \<or> sid = x"
  have "deg (binary_edges n) x = length (filter ?P [1..<n])"
    by (simp add: deg_def binary_edges_def filter_map comp_def)
  also have "\<dots> = card (set (filter ?P [1..<n]))"
    by (rule distinct_card [symmetric]) simp
  also have "\<dots> \<le> card {x, 2 * x + 1, 2 * x + 2}"
    by (rule card_mono) auto
  also have "\<dots> \<le> 3" by (simp add: card_insert_if)
  finally show ?thesis .
qed

text \<open>
  Binary-tree overlay. For a positive number of shards \<open>BuildBinaryTreeOverlay\<close> returns an
  overlay with one edge less than shards that connects them all with shortest routes and in
  which no shard has more than three neighbours.
\<close>

theorem binary_tree_overlay:
  assumes "0 < shardNum"
  shows "\<exists>ov. BuildBinaryTreeOverlay shardNum = Some (Inr (Inr ov)) \<and>
    overlay_ok (nat shardNum) (ov_Edges ov) ov \<and> connects (nat shardNum) (ov_Edges ov) \<and>
    length (ov_Edges ov) = nat shardNum - 1 \<and> (\<forall>x. deg (ov_Edges ov) x \<le> 3)"
proof -
  let ?n = "nat shardNum"
  have con: "connects ?n (binary_edges ?n)" by (rule connects_via [OF binary_to_root])
  obtain ov where ov: "newOverlay ?n (binary_edges ?n) = Some (Inr (Inr ov))"
    "overlay_ok ?n (binary_edges ?n) ov"
    using newOverlay_total [OF binary_edges_ok, of ?n] con by auto
  then have "ov_Edges ov = binary_edges ?n" by (simp add: overlay_ok_def)
  moreover have "BuildBinaryTreeOverlay shardNum = Some (Inr (Inr ov))"
    using assms ov(1) by (simp add: BuildBinaryTreeOverlay_def binary_edges_def)
  ultimately show ?thesis using ov(2) con binary_degree by (auto simp: binary_edges_def)
qed

definition complete_edges :: "nat \<Rightarrow> OverlayEdge list" where
  "complete_edges n = concat (map (\<lambda>i. map (\<lambda>j. \<lparr>oe_U = i, oe_V = j\<rparr>) [i+1..<n]) [0..<n])"

lemma set_complete_edges: "set (complete_edges n) = {\<lparr>oe_U = i, oe_V = j\<rparr> | i j. i < j \<and> j < n}"
  by (force simp: complete_edges_def)

lemma complete_rel: "x < n \<Longrightarrow> y < n \<Longrightarrow> x \<noteq> y \<Longrightarrow> (x, y) \<in> edge_rel (complete_edges n)"
proof -
  assume a: "x < n" "y < n" "x \<noteq> y"
  then consider "x < y" | "y < x" by linarith
  then show ?thesis
  proof cases
    case 1
    then have "\<lparr>oe_U = x, oe_V = y\<rparr> \<in> set (complete_edges n)" using a by (auto simp: set_complete_edges)
    then show ?thesis by (force simp: edge_rel_def)
  next
    case 2
    then have "\<lparr>oe_U = y, oe_V = x\<rparr> \<in> set (complete_edges n)" using a by (auto simp: set_complete_edges)
    then show ?thesis by (force simp: edge_rel_def)
  qed
qed

lemma NewCompleteOverlay_direct:
  "\<exists>ov. NewCompleteOverlay n = Some (Inr (Some ov)) \<and> overlay_ok n (ov_Edges ov) ov \<and>
    (\<forall>x < n. \<forall>y < n. Route (Some ov) x y = (if x = y then [x] else [x, y]))"
proof -
  let ?es = "complete_edges n"
  have ok: "\<forall>e \<in> set ?es. edge_ok n e" by (auto simp: set_complete_edges edge_ok_def)
  have "connects n ?es"
    unfolding connects_def using complete_rel by (metis r_into_rtrancl rtrancl.rtrancl_refl)
  then obtain ov where ov: "newOverlay n ?es = Some (Inr (Inr ov))" "overlay_ok n ?es ov"
    using newOverlay_total [OF ok] by auto
  have "Route (Some ov) x y = (if x = y then [x] else [x, y])" if xy: "x < n" "y < n" for x y
  proof -
    have r: "path_ok ?es x y (Route (Some ov) x y)"
      "\<And>r. path_ok ?es x y r \<Longrightarrow> length (Route (Some ov) x y) \<le> length r"
      using ov(2) xy by (auto simp: overlay_ok_def)
    have "path_ok ?es x y (if x = y then [x] else [x, y])"
      using complete_rel xy by (auto simp: path_ok_def)
    from r(2) [OF this] r(1) show ?thesis
      by (cases "Route (Some ov) x y"; cases "tl (Route (Some ov) x y)")
        (auto simp: path_ok_def split: if_splits)
  qed
  then show ?thesis using ov
    by (auto simp: NewCompleteOverlay_def complete_edges_def overlay_ok_def)
qed

end
