(* ===== verification/Params.thy ===== *)
theory Params
  imports Prelude
begin

text \<open>
  The configuration (\<open>params/global_config.go\<close>, \<open>params/static_config.go\<close>). The package's
  global variables are one record, \<open>params\<close>, an argument of the definitions that read them;
  \<open>ReadConfigFile\<close> is its update from a parsed configuration file.
\<close>

record params =
  NodesInShard :: int
  ShardNum :: int
  ConsensusMethod :: int
  PbftViewChangeTimeOut :: int
  PbftStartDelay :: int
  Block_Interval :: int
  MaxBlockSize_global :: int
  BlocksizeInBytes :: int
  UseBlocksizeInBytes :: int
  InjectSpeed :: int
  TotalDataSize :: int
  TxBatchSize :: int
  BrokerNum :: int
  RelayWithMerkleProof :: int
  BridgeOverlayEnabled :: int
  BridgeOverlayBuildMode :: int
  BridgeOverlayMinDegree :: int
  BridgeOverlayMaxDegree :: int
  BridgeOverlaySeed :: int
  BridgeKeyRootDir :: string
  ExpDataRootDir :: string
  DataWrite_path :: string
  LogWrite_path :: string
  DatabaseWrite_path :: string
  SupervisorAddr :: string
  DatasetFile :: string
  ReconfigTimeGap :: int
  Delay :: int
  JitterRange :: int
  Bandwidth :: int

definition defaultParams :: params where
  "defaultParams = \<lparr>
     NodesInShard = 4, ShardNum = 16,
     ConsensusMethod = 4, PbftViewChangeTimeOut = 300000, PbftStartDelay = 5000,
     Block_Interval = 4000,
     MaxBlockSize_global = 4000, BlocksizeInBytes = 20000, UseBlocksizeInBytes = 0,
     InjectSpeed = 6000, TotalDataSize = 200000, TxBatchSize = 20000,
     BrokerNum = 10, RelayWithMerkleProof = 0,
     BridgeOverlayEnabled = 0, BridgeOverlayBuildMode = 0, BridgeOverlayMinDegree = 2,
     BridgeOverlayMaxDegree = 10, BridgeOverlaySeed = 1, BridgeKeyRootDir = ''./bridge_keys'',
     ExpDataRootDir = ''expTest'', DataWrite_path = ''expTest'' @ ''/result/'',
     LogWrite_path = ''expTest'' @ ''/log'', DatabaseWrite_path = ''expTest'' @ ''/database/'',
     SupervisorAddr = ''127.0.0.1:18800'',
     DatasetFile = ''./TxData/1000000to1999999_BlockTransaction.csv'',
     ReconfigTimeGap = 50, Delay = 0, JitterRange = 0, Bandwidth = 0\<rparr>"

text \<open>The configuration file after \<open>json.Unmarshal\<close>; an absent member is the zero value.\<close>

record globalConfig =
  gc_ConsensusMethod :: int
  gc_ShardNum :: int
  gc_NodesInShard :: int
  gc_PbftViewChangeTimeOut :: int
  gc_PbftStartDelay :: int
  gc_ExpDataRootDir :: string
  gc_BlockInterval :: int
  gc_BlocksizeInBytes :: int
  gc_MaxBlockSizeGlobal :: int
  gc_UseBlocksizeInBytes :: int
  gc_InjectSpeed :: int
  gc_TotalDataSize :: int
  gc_TxBatchSize :: int
  gc_BrokerNum :: int
  gc_RelayWithMerkleProof :: int
  gc_DatasetFile :: string
  gc_ReconfigTimeGap :: int
  gc_BridgeOverlayEnabled :: int
  gc_BridgeOverlayBuildMode :: int
  gc_BridgeOverlayMinDegree :: int
  gc_BridgeOverlayMaxDegree :: int
  gc_BridgeOverlaySeed :: int
  gc_BridgeKeyRootDir :: string
  gc_Delay :: int
  gc_JitterRange :: int
  gc_Bandwidth :: int

definition ReadConfigFile :: "globalConfig \<Rightarrow> params \<Rightarrow> params" where
  "ReadConfigFile config p0 =
     (let p1 = p0\<lparr>ConsensusMethod := gc_ConsensusMethod config\<rparr>;
          p2 = (if gc_ShardNum config > 0 then p1\<lparr>ShardNum := gc_ShardNum config\<rparr> else p1);
          p3 = (if gc_NodesInShard config > 0 then p2\<lparr>NodesInShard := gc_NodesInShard config\<rparr>
                else p2);
          p4 = p3\<lparr>PbftViewChangeTimeOut := gc_PbftViewChangeTimeOut config\<rparr>;
          p5 = (if gc_PbftStartDelay config > 0
                then p4\<lparr>PbftStartDelay := gc_PbftStartDelay config\<rparr> else p4);
          p6 = p5\<lparr>ExpDataRootDir := gc_ExpDataRootDir config,
                 DataWrite_path := gc_ExpDataRootDir config @ ''/result/'',
                 LogWrite_path := gc_ExpDataRootDir config @ ''/log'',
                 DatabaseWrite_path := gc_ExpDataRootDir config @ ''/database/'',
                 Block_Interval := gc_BlockInterval config,
                 MaxBlockSize_global := gc_MaxBlockSizeGlobal config,
                 BlocksizeInBytes := gc_BlocksizeInBytes config,
                 UseBlocksizeInBytes := gc_UseBlocksizeInBytes config,
                 InjectSpeed := gc_InjectSpeed config,
                 TotalDataSize := gc_TotalDataSize config,
                 TxBatchSize := gc_TxBatchSize config,
                 BrokerNum := gc_BrokerNum config,
                 RelayWithMerkleProof := gc_RelayWithMerkleProof config,
                 DatasetFile := gc_DatasetFile config,
                 ReconfigTimeGap := gc_ReconfigTimeGap config,
                 BridgeOverlayEnabled := gc_BridgeOverlayEnabled config,
                 BridgeOverlayBuildMode := gc_BridgeOverlayBuildMode config\<rparr>;
          p7 = (if gc_BridgeOverlayMinDegree config > 0
                then p6\<lparr>BridgeOverlayMinDegree := gc_BridgeOverlayMinDegree config\<rparr> else p6);
          p8 = (if gc_BridgeOverlayMaxDegree config > 0
                then p7\<lparr>BridgeOverlayMaxDegree := gc_BridgeOverlayMaxDegree config\<rparr> else p7);
          p9 = (if BridgeOverlayMaxDegree p8 < BridgeOverlayMinDegree p8
                then p8\<lparr>BridgeOverlayMaxDegree := BridgeOverlayMinDegree p8\<rparr> else p8);
          p10 = p9\<lparr>BridgeOverlaySeed := gc_BridgeOverlaySeed config\<rparr>;
          p11 = (if gc_BridgeKeyRootDir config \<noteq> ''''
                 then p10\<lparr>BridgeKeyRootDir := gc_BridgeKeyRootDir config\<rparr> else p10)
      in p11\<lparr>Delay := gc_Delay config, JitterRange := gc_JitterRange config,
              Bandwidth := gc_Bandwidth config\<rparr>)"

section \<open>Chain configuration (params/static\_config.go)\<close>

record ChainConfig =
  cc_ChainID :: u64
  cc_NodeID :: u64
  cc_ShardID :: u64
  cc_Nodes_perShard :: u64
  cc_ShardNums :: u64
  cc_BlockSize :: u64
  cc_BlockInterval :: u64
  cc_InjectSpeed :: u64
  cc_MaxRelayBlockSize :: u64

definition SupervisorShard :: u64 where "SupervisorShard = 2147483647"

definition Init_Balance :: int where
  "Init_Balance = 100000000000000000000000000000000000000000000"

definition CommitteeMethod :: "string list" where
  "CommitteeMethod = [''CLPA_Broker'', ''CLPA'', ''Broker'', ''Relay'', ''Bridge'']"

section \<open>What every loaded configuration guarantees\<close>

definition params_ok :: "params \<Rightarrow> bool" where
  "params_ok p \<longleftrightarrow> 0 < ShardNum p \<and> 0 < NodesInShard p \<and> 0 < PbftStartDelay p \<and>
     0 < BridgeOverlayMinDegree p \<and> BridgeOverlayMinDegree p \<le> BridgeOverlayMaxDegree p \<and>
     BridgeKeyRootDir p \<noteq> '''' \<and>
     DataWrite_path p = ExpDataRootDir p @ ''/result/'' \<and>
     LogWrite_path p = ExpDataRootDir p @ ''/log'' \<and>
     DatabaseWrite_path p = ExpDataRootDir p @ ''/database/''"

lemma params_ok_default: "params_ok defaultParams"
  by (simp add: params_ok_def defaultParams_def)

text \<open>
  Whatever the configuration file says, the parameters the program runs with are sane: the
  shard and node counts are positive, the overlay degree bounds are positive and ordered, and
  the three output paths are below the experiment's root directory.
\<close>

theorem ReadConfigFile_ok:
  "params_ok p \<Longrightarrow> params_ok (ReadConfigFile config p)"
  by (simp add: params_ok_def ReadConfigFile_def Let_def)

end
