(* ===== verification/Utils.thy ===== *)
theory Utils
  imports Data_Model
begin

text \<open>
  Package \<open>utils\<close> (\<open>utils/utils_partition.go\<close>): the default placement of an account
  (\<open>Addr2Shard\<close>) and the bloom-filter index (\<open>ModBytes\<close>), with the part of \<open>strconv\<close> they use.
  Also \<open>NewBridgeAddresses\<close> of \<open>pcn/pcn.go\<close>, whose addresses are made to be placed by
  \<open>Addr2Shard\<close> in their own shard.
\<close>

section \<open>strconv: base-16 numbers\<close>

definition hexval :: "char \<Rightarrow> nat option" where
  "hexval c =
     (let n = (of_char c :: nat) in
      if 48 \<le> n \<and> n \<le> 57 then Some (n - 48)
      else if 97 \<le> n \<and> n \<le> 102 then Some (n - 87)
      else if 65 \<le> n \<and> n \<le> 70 then Some (n - 55)
      else None)"

fun parse_hex :: "string \<Rightarrow> nat \<Rightarrow> nat option" where
  "parse_hex [] acc = Some acc"
| "parse_hex (c # cs) acc =
     (case hexval c of None \<Rightarrow> None | Some d \<Rightarrow> parse_hex cs (16 * acc + d))"

definition ParseUint :: "string \<Rightarrow> u64 option" where
  "ParseUint s =
     (if s = [] then None
      else case parse_hex s 0 of
        None \<Rightarrow> None
      | Some n \<Rightarrow> if n < 2 ^ 64 then Some (of_nat n) else None)"

definition ParseInt :: "string \<Rightarrow> int option" where
  "ParseInt s =
     (let neg = (s \<noteq> [] \<and> hd s = CHR ''-'');
          body = (if s \<noteq> [] \<and> (hd s = CHR ''-'' \<or> hd s = CHR ''+'') then tl s else s)
      in case ParseUint body of
        None \<Rightarrow> None
      | Some u \<Rightarrow>
          if neg then (if uint u \<le> 2 ^ 63 then Some (- uint u) else None)
          else (if uint u < 2 ^ 63 then Some (uint u) else None))"

section \<open>Placement of accounts and bloom-filter index\<close>

definition last8 :: "string \<Rightarrow> string" where
  "last8 addr = (if length addr > 8 then drop (length addr - 8) addr else addr)"

text \<open>\<open>ShardNum\<close> is the global \<open>params.ShardNum\<close>.\<close>

definition Addr2Shard :: "int \<Rightarrow> Address \<Rightarrow> int res" where
  "Addr2Shard ShardNum addr =
     (case ParseUint (last8 addr) of
        None \<Rightarrow> Inl (LogPanic ''ParseUint'')
      | Some num \<Rightarrow>
          if ShardNum = 0 then Inl IntegerDivideByZero
          else Inr (go_mod (sint num) ShardNum))"

definition SetBytes :: "bytes \<Rightarrow> nat" where
  "SetBytes data = foldl (\<lambda>n w. 256 * n + unat w) 0 data"

text \<open>\<open>big.Int.Mod\<close> is Euclidean and panics on a zero modulus; \<open>mod\<close> passes through \<open>int64\<close>.\<close>

definition ModBytes :: "bytes \<Rightarrow> u64 \<Rightarrow> u64 res" where
  "ModBytes data m =
     (if m = 0 then Inl IntegerDivideByZero
      else Inr (of_int (int (SetBytes data) mod \<bar>sint m\<bar>)))"

section \<open>Bridge addresses (pcn/pcn.go)\<close>

definition hexchar :: "nat \<Rightarrow> char" where
  "hexchar d = char_of (if d < 10 then d + 48 else d + 87 :: nat)"

fun hex_digits :: "nat \<Rightarrow> string" where
  "hex_digits n = (if n < 16 then [hexchar n] else hex_digits (n div 16) @ [hexchar (n mod 16)])"

declare hex_digits.simps [simp del]

definition pad40 :: "string \<Rightarrow> string" where
  "pad40 s = replicate (40 - length s) (CHR ''0'') @ s"

definition NewBridgeAddresses :: "nat \<Rightarrow> Address list" where
  "NewBridgeAddresses shardNum = map (\<lambda>sid. pad40 (hex_digits sid)) [0..<shardNum]"

section \<open>Lemmas on numbers\<close>

lemma hexval_bound: "hexval c = Some d \<Longrightarrow> d < 16"
  by (auto simp: hexval_def Let_def split: if_splits)

lemma hexval_hexchar: "d < 16 \<Longrightarrow> hexval (hexchar d) = Some d"
  by (simp add: hexval_def hexchar_def Let_def of_char_of take_bit_eq_mod)

lemma parse_hex_append:
  "parse_hex (xs @ ys) acc = (case parse_hex xs acc of None \<Rightarrow> None | Some a \<Rightarrow> parse_hex ys a)"
  by (induction xs arbitrary: acc) (auto split: option.splits)

lemma parse_hex_bound:
  "parse_hex s acc = Some n \<Longrightarrow> n < (acc + 1) * 16 ^ length s"
proof (induction s arbitrary: acc)
  case Nil
  then show ?case by simp
next
  case (Cons c s)
  then obtain d where d: "hexval c = Some d" "parse_hex s (16 * acc + d) = Some n"
    by (auto split: option.splits)
  have "n < (16 * acc + d + 1) * 16 ^ length s" using Cons.IH [OF d(2)] .
  also have "\<dots> \<le> (16 * (acc + 1)) * 16 ^ length s"
    using hexval_bound [OF d(1)] by (intro mult_right_mono) auto
  finally show ?case by (simp add: algebra_simps)
qed

lemma parse_hex_defined: "parse_hex s acc \<noteq> None \<longleftrightarrow> (\<forall>c \<in> set s. hexval c \<noteq> None)"
  by (induction s arbitrary: acc) (auto split: option.splits)

lemma parse_hex_digits: "parse_hex (hex_digits n) 0 = Some n"
proof (induction n rule: hex_digits.induct)
  case (1 n)
  show ?case
  proof (cases "n < 16")
    case True
    then show ?thesis by (subst hex_digits.simps) (simp add: hexval_hexchar)
  next
    case False
    then show ?thesis
      using "1.IH" by (subst hex_digits.simps) (simp add: parse_hex_append hexval_hexchar)
  qed
qed

lemma length_hex_digits: "n < 16 ^ k \<Longrightarrow> 0 < k \<Longrightarrow> length (hex_digits n) \<le> k"
proof (induction k arbitrary: n)
  case 0
  then show ?case by simp
next
  case (Suc k)
  show ?case
  proof (cases "n < 16")
    case True
    then show ?thesis by (subst hex_digits.simps) simp
  next
    case False
    then have "0 < k" using Suc.prems(1) by (cases k) auto
    moreover have "n div 16 < 16 ^ k" using Suc.prems(1) by (simp add: less_mult_imp_div_less mult.commute)
    ultimately have "length (hex_digits (n div 16)) \<le> k" using Suc.IH by blast
    then show ?thesis using False by (subst hex_digits.simps) simp
  qed
qed

lemma parse_hex_zeros: "parse_hex (replicate k (CHR ''0'') @ s) 0 = parse_hex s 0"
proof (induction k)
  case (Suc k)
  have "hexval (CHR ''0'') = Some 0" by (simp add: hexval_def)
  then show ?case using Suc by simp
qed simp

lemma length_last8 [simp]: "length (last8 s) = min 8 (length s)"
  by (simp add: last8_def)

lemma last8_Nil_iff [simp]: "last8 s = [] \<longleftrightarrow> s = []"
  by (auto simp: last8_def)

text \<open>Eight hexadecimal digits never overflow: the parse succeeds with the exact value.\<close>

lemma ParseUint_short:
  assumes "length s \<le> 8"
  shows "ParseUint s = (if s = [] then None else map_option of_nat (parse_hex s 0))"
proof (cases "parse_hex s 0")
  case None
  then show ?thesis by (simp add: ParseUint_def)
next
  case (Some n)
  have "n < 16 ^ length s" using parse_hex_bound [OF Some] by simp
  also have "\<dots> \<le> 16 ^ 8" using assms by (intro power_increasing) auto
  finally have "n < 2 ^ 64" by simp
  then show ?thesis using Some by (simp add: ParseUint_def)
qed

lemma sint_small: "n < 2 ^ 63 \<Longrightarrow> sint (of_nat n :: u64) = int n"
  by (simp add: signed_of_nat signed_take_bit_int_eq_self)

lemma sint_uint_small:
  assumes "uint s < 2 ^ 63"
  shows "sint (s :: u64) = uint s"
proof -
  have "- (2 ^ 63) \<le> (0 :: int)" by simp
  also have "0 \<le> uint s" by simp
  finally have "- (2 ^ 63) \<le> uint s" .
  then have "signed_take_bit 63 (uint s) = uint s" using assms by (rule signed_take_bit_int_eq_self)
  then show ?thesis by (simp add: sint_uint)
qed

lemma go_mod_nonneg: "0 \<le> a \<Longrightarrow> 0 < b \<Longrightarrow> go_mod a b = a mod b"
  by (cases "a = 0") (auto simp: go_mod_def go_div_def minus_mult_div_eq_mod)

lemma Addr2Shard_eq:
  assumes "0 < ShardNum"
  shows "Addr2Shard ShardNum addr =
    (case parse_hex (last8 addr) 0 of
       None \<Rightarrow> Inl (LogPanic ''ParseUint'')
     | Some n \<Rightarrow> if addr = [] then Inl (LogPanic ''ParseUint'') else Inr (int n mod ShardNum))"
proof (cases "parse_hex (last8 addr) 0")
  case None
  then show ?thesis by (simp add: Addr2Shard_def ParseUint_short)
next
  case (Some n)
  have "n < 16 ^ length (last8 addr)" using parse_hex_bound [OF Some] by simp
  also have "\<dots> \<le> 16 ^ 8" by (intro power_increasing) auto
  finally have "n < 2 ^ 63" by simp
  then show ?thesis
    using Some assms by (simp add: Addr2Shard_def ParseUint_short sint_small go_mod_nonneg)
qed

lemma Addr2Shard_bounds:
  "0 < ShardNum \<Longrightarrow> Addr2Shard ShardNum addr = Inr r \<Longrightarrow> 0 \<le> r \<and> r < ShardNum"
  by (auto simp: Addr2Shard_eq split: option.splits if_splits)

lemma ModBytes_2048: "ModBytes data 2048 = Inr (of_nat (SetBytes data mod 2048))"
  by (simp add: ModBytes_def zmod_int [symmetric] of_nat_mod [symmetric] del: of_nat_mod)
     (metis of_int_of_nat_eq of_nat_numeral zmod_int)

section \<open>Properties\<close>

text \<open>
  (C30) Placement of accounts. With at least one shard, \<open>Addr2Shard\<close> answers exactly for the
  addresses that are not empty and whose last eight characters are hexadecimal digits, and its
  answer is a shard number; for every other address it panics.
\<close>

theorem Addr2Shard_total_on_hex:
  assumes "0 < ShardNum"
  shows "if addr \<noteq> [] \<and> list_all (\<lambda>c. hexval c \<noteq> None) (last8 addr)
    then \<exists>r. Addr2Shard ShardNum addr = Inr r \<and> 0 \<le> r \<and> r < ShardNum
    else Addr2Shard ShardNum addr = Inl (LogPanic ''ParseUint'')"
proof (cases "parse_hex (last8 addr) 0")
  case None
  then have "\<not> list_all (\<lambda>c. hexval c \<noteq> None) (last8 addr)"
    using parse_hex_defined [of "last8 addr" 0] by (auto simp: list_all_iff)
  then show ?thesis using None assms by (auto simp: Addr2Shard_eq)
next
  case (Some n)
  then have "list_all (\<lambda>c. hexval c \<noteq> None) (last8 addr)"
    using parse_hex_defined [of "last8 addr" 0] by (auto simp: list_all_iff)
  then show ?thesis using Some assms by (auto simp: Addr2Shard_eq)
qed

theorem Addr2Shard_total_on_hex_witness:
  "Addr2Shard 16 ''a93f00000000002f'' = Inr 15 \<and> Addr2Shard 16 ''xyz'' = Inl (LogPanic ''ParseUint'')"
proof -
  have "Addr2Shard 16 ''xyz'' = Inl (LogPanic ''ParseUint'')"
    using Addr2Shard_total_on_hex [of 16 "''xyz''"] by (simp add: last8_def hexval_def)
  moreover have "\<exists>r. Addr2Shard 16 ''a93f00000000002f'' = Inr r \<and> 0 \<le> r \<and> r < 16"
    using Addr2Shard_total_on_hex [of 16 "''a93f00000000002f''"] by (simp add: last8_def hexval_def)
  moreover have "Addr2Shard 16 ''a93f00000000002f'' = Inr 15"
    by (simp add: Addr2Shard_eq last8_def hexval_def)
  ultimately show ?thesis by simp
qed

text \<open>
  Bridge accounts. The bridge address made for a shard is placed by \<open>Addr2Shard\<close> in that
  very shard, for every shard number up to \<open>2 ^ 32\<close> shards, and is 40 characters long as an
  Ethereum address is.
\<close>

theorem bridge_address_in_its_shard:
  assumes "sid < n" and "n \<le> 2 ^ 32"
  shows "Addr2Shard (int n) (NewBridgeAddresses n ! sid) = Inr (int sid) \<and>
    length (NewBridgeAddresses n ! sid) = 40"
proof -
  let ?d = "hex_digits sid"
  have len: "length ?d \<le> 8"
    using assms by (intro length_hex_digits) auto
  have addr: "NewBridgeAddresses n ! sid = replicate (40 - length ?d) (CHR ''0'') @ ?d"
    using assms by (simp add: NewBridgeAddresses_def pad40_def)
  have "last8 (replicate (40 - length ?d) (CHR ''0'') @ ?d) = replicate (8 - length ?d) (CHR ''0'') @ ?d"
    using len by (simp add: last8_def drop_append)
  then have "parse_hex (last8 (NewBridgeAddresses n ! sid)) 0 = Some sid"
    by (simp add: addr parse_hex_zeros parse_hex_digits)
  moreover have "NewBridgeAddresses n ! sid \<noteq> []"
    using len by (auto simp: addr)
  ultimately show ?thesis
    using assms len by (simp add: Addr2Shard_eq addr)
qed

end
