(* ===== verification/TxPool.thy ===== *)
theory TxPool
  imports Data_Model
begin

text \<open>
  The transaction pool (\<open>core/txpool.go\<close>): a FIFO queue of transactions and the relay pool,
  a map from shard to the transactions waiting to be relayed there. Every method holds the
  pool's mutex for its whole body, so each is one atomic step; \<open>GetLocked\<close> and \<open>GetUnlocked\<close>,
  which other packages call, are steps on the mutex itself.

  The queue's contract is the locale \<open>packing_queue\<close>: adding appends, packing takes as many from the front
  as its limit admits and leaves the rest. It is interpreted for the pool with both packing methods.
\<close>

section \<open>State and operations\<close>

record TxPool =
  TxQueue :: "Transaction list"
  RelayPool :: "(u64 \<rightharpoonup> Transaction list) option"  \<comment> \<open>\<open>None\<close> is the nil map\<close>
  lock :: bool

definition NewTxPool :: TxPool where
  "NewTxPool = \<lparr>TxQueue = [], RelayPool = Some Map.empty, lock = False\<rparr>"

text \<open>A transaction without a time gets the time at which it enters the pool.\<close>

definition stamp :: "time \<Rightarrow> Transaction \<Rightarrow> Transaction" where
  "stamp now tx = (if IsZero (tx_Time tx) then tx\<lparr>tx_Time := now\<rparr> else tx)"

definition AddTx2Pool :: "time \<Rightarrow> Transaction \<Rightarrow> TxPool \<Rightarrow> TxPool" where
  "AddTx2Pool now tx p = p\<lparr>TxQueue := TxQueue p @ [stamp now tx]\<rparr>"

text \<open>\<open>clock i\<close> is the time at the \<open>i\<close>-th iteration of the loop, which reads it only for a transaction without a time.\<close>

fun AddTxs2Pool :: "(nat \<Rightarrow> time) \<Rightarrow> Transaction list \<Rightarrow> TxPool \<Rightarrow> TxPool" where
  "AddTxs2Pool clock [] p = p"
| "AddTxs2Pool clock (tx # txs) p =
     AddTxs2Pool (\<lambda>i. clock (Suc i)) txs (p\<lparr>TxQueue := TxQueue p @ [stamp (clock 0) tx]\<rparr>)"

fun remove_set :: "Transaction list \<Rightarrow> bytes set \<Rightarrow> bytes set" where
  "remove_set [] r = r"
| "remove_set (tx # txs) r =
     remove_set txs (if length (tx_TxHash tx) > 0 then insert (tx_TxHash tx) r else r)"

fun drop_hashes :: "bytes set \<Rightarrow> Transaction list \<Rightarrow> Transaction list \<Rightarrow> Transaction list" where
  "drop_hashes r [] dst = dst"
| "drop_hashes r (tx # txs) dst =
     (if tx_TxHash tx \<in> r then drop_hashes r txs dst else drop_hashes r txs (dst @ [tx]))"

definition RemoveTxs :: "Transaction list \<Rightarrow> TxPool \<Rightarrow> TxPool" where
  "RemoveTxs txs p =
     (if txs = [] then p
      else let remove = remove_set txs {} in
        if remove = {} then p
        else p\<lparr>TxQueue := drop_hashes remove (TxQueue p) []\<rparr>)"

definition AddTxs2Pool_Head :: "Transaction list \<Rightarrow> TxPool \<Rightarrow> TxPool" where
  "AddTxs2Pool_Head txs p = p\<lparr>TxQueue := txs @ TxQueue p\<rparr>"

definition PackTxs :: "u64 \<Rightarrow> TxPool \<Rightarrow> Transaction list \<times> TxPool" where
  "PackTxs max_txs p =
     (let txNum = (if length (TxQueue p) < unat max_txs then length (TxQueue p) else unat max_txs)
      in (take txNum (TxQueue p), p\<lparr>TxQueue := drop txNum (TxQueue p)\<rparr>))"

text \<open>
  \<open>unsafe.Sizeof\<close> of a transaction is the size of the struct itself, whatever its slices and
  strings point to. On a 64-bit platform: four strings of 16 bytes, four slices of 24, the
  time of 24, the nonce, the pointer to the value and the two route integers of 8 each, and the
  five booleans padded to 8: 224 bytes.
\<close>

definition sizeofTransaction :: int where "sizeofTransaction = 224"

fun pack_bytes_loop :: "int \<Rightarrow> Transaction list \<Rightarrow> nat \<Rightarrow> int \<Rightarrow> nat" where
  "pack_bytes_loop max_bytes [] tx_idx currentSize = tx_idx"
| "pack_bytes_loop max_bytes (tx # txs) tx_idx currentSize =
     (if currentSize + sizeofTransaction > max_bytes then tx_idx
      else pack_bytes_loop max_bytes txs (Suc tx_idx) (currentSize + sizeofTransaction))"

definition PackTxsWithBytes :: "int \<Rightarrow> TxPool \<Rightarrow> Transaction list \<times> TxPool" where
  "PackTxsWithBytes max_bytes p =
     (let txNum = pack_bytes_loop max_bytes (TxQueue p) 0 0
      in (take txNum (TxQueue p), p\<lparr>TxQueue := drop txNum (TxQueue p)\<rparr>))"

text \<open>Writing to the nil map that \<open>ClearRelayPool\<close> leaves panics.\<close>

definition AddRelayTx :: "Transaction \<Rightarrow> u64 \<Rightarrow> TxPool \<Rightarrow> TxPool res" where
  "AddRelayTx tx shardID p =
     (case RelayPool p of
        None \<Rightarrow> Inl NilMapWrite
      | Some m \<Rightarrow> Inr (p\<lparr>RelayPool := Some (m(shardID \<mapsto>
          (case m shardID of None \<Rightarrow> [] | Some q \<Rightarrow> q) @ [tx]))\<rparr>))"

definition GetLocked :: "TxPool \<Rightarrow> TxPool option" where
  \<comment> \<open>\<open>None\<close>: the caller blocks\<close>
  "GetLocked p = (if lock p then None else Some (p\<lparr>lock := True\<rparr>))"

definition GetUnlocked :: "TxPool \<Rightarrow> TxPool res" where
  "GetUnlocked p = (if lock p then Inr (p\<lparr>lock := False\<rparr>) else Inl UnlockOfUnlocked)"

definition GetTxQueueLen :: "TxPool \<Rightarrow> int" where
  "GetTxQueueLen p = int (length (TxQueue p))"

definition ClearRelayPool :: "TxPool \<Rightarrow> TxPool" where
  "ClearRelayPool p = p\<lparr>RelayPool := None\<rparr>"

text \<open>Reading an absent key of a map, or any key of the nil map, gives the empty slice.\<close>

definition relay_of :: "TxPool \<Rightarrow> u64 \<Rightarrow> Transaction list" where
  "relay_of p sid =
     (case RelayPool p of None \<Rightarrow> [] | Some m \<Rightarrow> (case m sid of None \<Rightarrow> [] | Some q \<Rightarrow> q))"

definition has_relay :: "TxPool \<Rightarrow> u64 \<Rightarrow> bool" where
  "has_relay p sid = (case RelayPool p of None \<Rightarrow> False | Some m \<Rightarrow> m sid \<noteq> None)"

definition PackRelayTxs ::
  "u64 \<Rightarrow> u64 \<Rightarrow> u64 \<Rightarrow> TxPool \<Rightarrow> (Transaction list \<times> bool) \<times> TxPool" where
  "PackRelayTxs shardID minRelaySize maxRelaySize p =
     (if \<not> has_relay p shardID then (([], False), p)
      else let q = relay_of p shardID in
        if int (length q) < sint minRelaySize then (([], False), p)
        else let txNum = (if length q < unat maxRelaySize then length q else unat maxRelaySize) in
          ((take txNum q, True),
           p\<lparr>RelayPool := map_option (\<lambda>m. m(shardID \<mapsto> drop txNum q)) (RelayPool p)\<rparr>))"

text \<open>\<open>ord\<close> is the order in which the range visits the keys of the relay pool.\<close>

definition TransferTxs :: "u64 list \<Rightarrow> Address \<Rightarrow> TxPool \<Rightarrow> Transaction list \<times> TxPool" where
  "TransferTxs ord addr p =
     (let mine = (\<lambda>tx. tx_Sender tx = addr);
          txTransfered = filter mine (TxQueue p) @
            concat (map (\<lambda>sid. filter mine (relay_of p sid)) ord);
          newRelayPool = (\<lambda>sid. let q = filter (\<lambda>tx. \<not> mine tx) (relay_of p sid) in
            if q = [] then None else Some q)
      in (txTransfered,
          p\<lparr>TxQueue := filter (\<lambda>tx. \<not> mine tx) (TxQueue p), RelayPool := Some newRelayPool\<rparr>))"

section \<open>The queue contract\<close>

text \<open>
  A run of a queue is any sequence of additions and packings, each with its own clock or limit. The
  result is what each packing gave, in order, and the final state.
\<close>

datatype ('c, 'a, 'l) queue_op = Add 'c "'a list" | Pack 'l

fun queue_run ::
  "('c \<Rightarrow> 'a list \<Rightarrow> 'p \<Rightarrow> 'p) \<Rightarrow> ('l \<Rightarrow> 'p \<Rightarrow> 'a list \<times> 'p) \<Rightarrow> ('c, 'a, 'l) queue_op list \<Rightarrow> 'p \<Rightarrow> 'a list list \<times> 'p" where
  "queue_run add pack [] p = ([], p)"
| "queue_run add pack (Add c xs # ops) p = queue_run add pack ops (add c xs p)"
| "queue_run add pack (Pack l # ops) p =
     (let (out, p') = pack l p; (outs, p'') = queue_run add pack ops p' in (out # outs, p''))"

text \<open>The specification: a list to which batches are appended and from whose front a number of entries is taken.\<close>

definition list_add :: "('c \<Rightarrow> 'a list \<Rightarrow> 'a list) \<Rightarrow> 'c \<Rightarrow> 'a list \<Rightarrow> 'a list \<Rightarrow> 'a list" where
  "list_add enters c xs q = q @ enters c xs"

definition list_pack :: "('l \<Rightarrow> nat) \<Rightarrow> 'l \<Rightarrow> 'a list \<Rightarrow> 'a list \<times> 'a list" where
  "list_pack admits l q = (take (admits l) q, drop (admits l) q)"

fun entered :: "('c \<Rightarrow> 'a list \<Rightarrow> 'a list) \<Rightarrow> ('c, 'a, 'l) queue_op list \<Rightarrow> 'a list" where
  "entered enters [] = []"
| "entered enters (Add c xs # ops) = enters c xs @ entered enters ops"
| "entered enters (Pack l # ops) = entered enters ops"

lemma list_run_fifo:
  "queue_run (list_add enters) (list_pack admits) ops q = (outs, q') \<Longrightarrow>
     concat outs @ q' = q @ entered enters ops"
proof (induction ops arbitrary: q outs q')
  case (Cons op ops)
  show ?case
  proof (cases op)
    case (Add c xs)
    then show ?thesis using Cons.IH [of "q @ enters c xs" outs q'] Cons.prems by (simp add: list_add_def)
  next
    case (Pack l)
    obtain outs1 q1 where r: "queue_run (list_add enters) (list_pack admits) ops (drop (admits l) q) = (outs1, q1)" by force
    moreover have "list_pack admits l q = (take (admits l) q, drop (admits l) q)" by (simp add: list_pack_def)
    ultimately show ?thesis using Cons.IH [OF r] Cons.prems Pack by auto
  qed
qed simp

locale packing_queue =
  fixes que :: "'p \<Rightarrow> 'a list"
    and add :: "'c \<Rightarrow> 'a list \<Rightarrow> 'p \<Rightarrow> 'p"
    and enters :: "'c \<Rightarrow> 'a list \<Rightarrow> 'a list"
    and pack :: "'l \<Rightarrow> 'p \<Rightarrow> 'a list \<times> 'p"
    and admits :: "'l \<Rightarrow> nat"
  assumes que_add: "que (add c xs p) = list_add enters c xs (que p)"
    and que_pack: "(fst (pack l p), que (snd (pack l p))) = list_pack admits l (que p)"
begin

text \<open>Every run of the queue is the run of the specification on the list it stands for.\<close>

lemma run_refines:
  "queue_run add pack ops p = (outs, p') \<Longrightarrow>
     queue_run (list_add enters) (list_pack admits) ops (que p) = (outs, que p')"
proof (induction ops arbitrary: p outs p')
  case (Cons op ops)
  show ?case
  proof (cases op)
    case (Add c xs)
    then show ?thesis using Cons.IH [of "add c xs p" outs p'] Cons.prems by (simp add: que_add)
  next
    case (Pack l)
    obtain out p1 where o: "pack l p = (out, p1)" by force
    obtain outs1 p2 where r: "queue_run add pack ops p1 = (outs1, p2)" by force
    have "list_pack admits l (que p) = (out, que p1)" using que_pack [of l p] o by simp
    then show ?thesis using Cons.prems Cons.IH [OF r] Pack o r by simp
  qed
qed simp

lemma run_fifo: "queue_run add pack ops p = (outs, p') \<Longrightarrow> concat outs @ que p' = que p @ entered enters ops"
  by (rule list_run_fifo [OF run_refines])

end

text \<open>
  The pool as such a queue. A packing is limited by a number of transactions or of bytes; the bytes
  admit as many transactions as structs of 224 bytes fit, none if the budget is negative.
\<close>

datatype pack_limit = CountLimit u64 | BytesLimit int

fun pool_pack :: "pack_limit \<Rightarrow> TxPool \<Rightarrow> Transaction list \<times> TxPool" where
  "pool_pack (CountLimit m) p = PackTxs m p"
| "pool_pack (BytesLimit k) p = PackTxsWithBytes k p"

fun admitted :: "pack_limit \<Rightarrow> nat" where
  "admitted (CountLimit m) = unat m"
| "admitted (BytesLimit k) = nat (k div 224)"

definition stamp_all :: "(nat \<Rightarrow> time) \<Rightarrow> Transaction list \<Rightarrow> Transaction list" where
  "stamp_all clock txs = map2 stamp (map clock [0..<length txs]) txs"

lemma stamp_all_simps [simp]:
  "stamp_all clock [] = []"
  "stamp_all clock (tx # txs) = stamp (clock 0) tx # stamp_all (\<lambda>i. clock (Suc i)) txs"
  "stamp_all (\<lambda>_. now) txs = map (stamp now) txs"
proof -
  show 2: "stamp_all clock (tx # txs) = stamp (clock 0) tx # stamp_all (\<lambda>i. clock (Suc i)) txs" for clock tx txs
    unfolding stamp_all_def length_Cons map_upt_Suc by simp
  show "stamp_all clock [] = []" for clock by (simp add: stamp_all_def)
  then show "stamp_all (\<lambda>_. now) txs = map (stamp now) txs" by (induction txs) (simp_all add: 2)
qed

lemma AddTxs2Pool_TxQueue [pool_simps]:
  "TxQueue (AddTxs2Pool clock txs p) = TxQueue p @ stamp_all clock txs"
  by (induction clock txs p rule: AddTxs2Pool.induct) auto

lemma AddTxs2Pool_frame [pool_simps]:
  "RelayPool (AddTxs2Pool clock txs p) = RelayPool p" "lock (AddTxs2Pool clock txs p) = lock p"
  by (induction clock txs p rule: AddTxs2Pool.induct) auto

text \<open>How many transactions the byte budget admits.\<close>

lemma pack_bytes_loop_eq:
  assumes "0 \<le> cur" "cur \<le> max_bytes"
  shows "pack_bytes_loop max_bytes txs k cur =
    k + min (length txs) (nat ((max_bytes - cur) div sizeofTransaction))"
  using assms
proof (induction txs arbitrary: k cur)
  case Nil
  then show ?case by simp
next
  case (Cons tx txs)
  show ?case
  proof (cases "cur + sizeofTransaction > max_bytes")
    case True
    then have "(max_bytes - cur) div sizeofTransaction = 0"
      using Cons.prems by (simp add: sizeofTransaction_def)
    then show ?thesis using True by simp
  next
    case False
    have "(max_bytes - cur) div sizeofTransaction =
        1 + (max_bytes - (cur + sizeofTransaction)) div sizeofTransaction"
      by (simp add: sizeofTransaction_def)
    moreover have "0 \<le> (max_bytes - (cur + sizeofTransaction)) div sizeofTransaction"
      using False by (simp add: sizeofTransaction_def)
    ultimately have "nat ((max_bytes - cur) div sizeofTransaction) =
        Suc (nat ((max_bytes - (cur + sizeofTransaction)) div sizeofTransaction))"
      by linarith
    then show ?thesis
      using False Cons by (simp add: sizeofTransaction_def)
  qed
qed

lemma PackTxsWithBytes_takes:
  "PackTxsWithBytes k p = (take (nat (k div 224)) (TxQueue p), p\<lparr>TxQueue := drop (nat (k div 224)) (TxQueue p)\<rparr>)"
proof -
  have "pack_bytes_loop k (TxQueue p) 0 0 = min (length (TxQueue p)) (nat (k div 224))"
  proof (cases "0 \<le> k")
    case True
    then show ?thesis using pack_bytes_loop_eq [of 0 k "TxQueue p" 0] by (simp add: sizeofTransaction_def)
  next
    case False
    then have "nat (k div 224) = 0" by linarith
    with False show ?thesis by (cases "TxQueue p") (simp_all add: sizeofTransaction_def)
  qed
  then show ?thesis by (simp add: PackTxsWithBytes_def Let_def min_def)
qed

lemma PackTxs_takes:
  "PackTxs m p = (take (unat m) (TxQueue p), p\<lparr>TxQueue := drop (unat m) (TxQueue p)\<rparr>)"
  by (simp add: PackTxs_def Let_def)

interpretation pool_queue: packing_queue TxQueue AddTxs2Pool stamp_all pool_pack admitted
proof
  show "TxQueue (AddTxs2Pool c xs p) = list_add stamp_all c xs (TxQueue p)" for c xs p
    by (simp add: pool_simps list_add_def)
  show "(fst (pool_pack l p), TxQueue (snd (pool_pack l p))) = list_pack admitted l (TxQueue p)" for l p
    by (cases l) (simp_all add: PackTxs_takes PackTxsWithBytes_takes list_pack_def)
qed

section \<open>Lemmas\<close>

lemma stamp_id [simp]: "tx_Time tx \<noteq> 0 \<Longrightarrow> stamp now tx = tx"
  by (simp add: stamp_def IsZero_def)

lemma stamp_fields [simp]:
  "tx_Sender (stamp now tx) = tx_Sender tx" "tx_Recipient (stamp now tx) = tx_Recipient tx"
  "tx_Value (stamp now tx) = tx_Value tx" "tx_TxHash (stamp now tx) = tx_TxHash tx"
  "tx_Relayed (stamp now tx) = tx_Relayed tx"
  by (simp_all add: stamp_def)

lemma AddTx2Pool_eq: "AddTx2Pool now tx p = AddTxs2Pool (\<lambda>_. now) [tx] p"
  by (simp add: AddTx2Pool_def)

lemma remove_set_eq: "remove_set txs r = r \<union> {h \<in> tx_TxHash ` set txs. h \<noteq> []}"
  by (induction txs arbitrary: r) auto

lemma drop_hashes_eq: "drop_hashes r txs dst = dst @ filter (\<lambda>tx. tx_TxHash tx \<notin> r) txs"
  by (induction txs arbitrary: dst) auto

lemma RemoveTxs_TxQueue [pool_simps]:
  "TxQueue (RemoveTxs txs p) =
     filter (\<lambda>tx. tx_TxHash tx = [] \<or> tx_TxHash tx \<notin> tx_TxHash ` set txs) (TxQueue p)"
proof (cases "txs = [] \<or> remove_set txs {} = {}")
  case True
  then have *: "{h \<in> tx_TxHash ` set txs. h \<noteq> []} = {}"
    by (auto simp: remove_set_eq)
  have "TxQueue (RemoveTxs txs p) = TxQueue p"
    using True by (auto simp: RemoveTxs_def Let_def)
  moreover have "filter (\<lambda>tx. tx_TxHash tx = [] \<or> tx_TxHash tx \<notin> tx_TxHash ` set txs) (TxQueue p)
      = TxQueue p"
    using * by (intro filter_True) auto
  ultimately show ?thesis by simp
next
  case False
  then show ?thesis
    by (auto simp: RemoveTxs_def Let_def drop_hashes_eq remove_set_eq intro!: filter_cong)
qed

lemma RemoveTxs_frame [pool_simps]:
  "RelayPool (RemoveTxs txs p) = RelayPool p" "lock (RemoveTxs txs p) = lock p"
  by (simp_all add: RemoveTxs_def Let_def)

lemma relay_of_AddRelayTx:
  "AddRelayTx tx sid p = Inr p' \<Longrightarrow>
     relay_of p' = (relay_of p)(sid := relay_of p sid @ [tx]) \<and> TxQueue p' = TxQueue p"
  by (cases "RelayPool p") (auto simp: AddRelayTx_def relay_of_def)

lemma TransferTxs_conserves:
  assumes "distinct ord" and "\<And>sid. relay_of p sid \<noteq> [] \<Longrightarrow> sid \<in> set ord"
    and "TransferTxs ord addr p = (out, p')"
  shows "mset out + mset (TxQueue p') + (\<Sum>sid \<in> set ord. mset (relay_of p' sid)) =
    mset (TxQueue p) + (\<Sum>sid \<in> set ord. mset (relay_of p sid))"
proof -
  have rel: "relay_of p' sid = filter (\<lambda>tx. tx_Sender tx \<noteq> addr) (relay_of p sid)" for sid
    using assms(3) by (auto simp: TransferTxs_def Let_def relay_of_def [of "_\<lparr>TxQueue := _, RelayPool := _\<rparr>"])
  have out: "mset out = mset (filter (\<lambda>tx. tx_Sender tx = addr) (TxQueue p)) +
      (\<Sum>sid \<in> set ord. mset (filter (\<lambda>tx. tx_Sender tx = addr) (relay_of p sid)))"
    using assms(1,3) by (auto simp: TransferTxs_def Let_def mset_concat sum_list_distinct_conv_sum_set
        comp_def)
  have q: "TxQueue p' = filter (\<lambda>tx. tx_Sender tx \<noteq> addr) (TxQueue p)"
    using assms(3) by (auto simp: TransferTxs_def Let_def)
  have "(\<Sum>sid \<in> set ord. mset (relay_of p sid)) =
      (\<Sum>sid \<in> set ord. mset (filter (\<lambda>tx. tx_Sender tx = addr) (relay_of p sid))) +
      (\<Sum>sid \<in> set ord. mset (relay_of p' sid))"
    by (simp add: rel mset_filter_partition flip: sum.distrib)
  moreover have "mset (TxQueue p) =
      mset (filter (\<lambda>tx. tx_Sender tx = addr) (TxQueue p)) + mset (TxQueue p')"
    by (simp add: q mset_filter_partition)
  ultimately show ?thesis by (simp add: out)
qed

section \<open>Properties\<close>

text \<open>
  (C39) The pool is a FIFO queue that packs exactly what its limits admit. Over any sequence of
  additions and packings, by count or by bytes, with any clock and any limit at each of them: every
  packing gives the first entries of the queue, as many as \<open>max_txs\<close> says or as structs of 224 bytes
  fit in \<open>max_bytes\<close>, or all if there are fewer; the packed blocks and the queue left are those of the
  plain list to which the batches are appended, every transaction without a time being stamped with the
  time read for it. So what was packed, followed by what is still queued, is the initial queue
  followed by all batches in order.
\<close>

theorem pool_fifo:
  "\<exists>outs p'. queue_run AddTxs2Pool pool_pack ops p = (outs, p') \<and>
     queue_run (\<lambda>clock txs q. q @ map2 stamp (map clock [0..<length txs]) txs)
       (\<lambda>l q. let n = (case l of CountLimit m \<Rightarrow> unat m | BytesLimit k \<Rightarrow> nat (k div 224)) in (take n q, drop n q))
       ops (TxQueue p) = (outs, TxQueue p') \<and>
     concat outs @ TxQueue p' = TxQueue p @ entered stamp_all ops"
proof -
  obtain outs p' where r: "queue_run AddTxs2Pool pool_pack ops p = (outs, p')" by force
  have add: "list_add stamp_all = (\<lambda>clock txs q. q @ map2 stamp (map clock [0..<length txs]) txs)"
    by (intro ext) (simp add: list_add_def stamp_all_def)
  have pack: "list_pack admitted =
      (\<lambda>l q. let n = (case l of CountLimit m \<Rightarrow> unat m | BytesLimit k \<Rightarrow> nat (k div 224)) in (take n q, drop n q))"
    by (intro ext) (simp add: list_pack_def Let_def split: pack_limit.split)
  show ?thesis
    using r pool_queue.run_refines [OF r, unfolded add pack] pool_queue.run_fifo [OF r] by blast
qed

text \<open>
  When an account moves to another shard, its transactions are taken out of the queue and of
  every relay queue, and nothing else: none of the account's transactions stays, no
  transaction of another sender leaves, and together the pool and what was taken out hold exactly
  the transactions that were there. This holds for every order in which the range visits the
  keys of the relay pool.
\<close>

theorem TransferTxs_splits:
  assumes "distinct ord" and "\<forall>sid. relay_of p sid \<noteq> [] \<longrightarrow> sid \<in> set ord"
    and "TransferTxs ord addr p = (out, p')"
  shows "mset out + mset (TxQueue p') + (\<Sum>sid \<in> set ord. mset (relay_of p' sid)) =
      mset (TxQueue p) + (\<Sum>sid \<in> set ord. mset (relay_of p sid)) \<and>
    (\<forall>tx \<in> set out. tx_Sender tx = addr) \<and> (\<forall>tx \<in> set (TxQueue p'). tx_Sender tx \<noteq> addr) \<and>
    (\<forall>sid. \<forall>tx \<in> set (relay_of p' sid). tx_Sender tx \<noteq> addr)"
proof (intro conjI)
  show "mset out + mset (TxQueue p') + (\<Sum>sid \<in> set ord. mset (relay_of p' sid)) =
      mset (TxQueue p) + (\<Sum>sid \<in> set ord. mset (relay_of p sid))"
    using assms by (intro TransferTxs_conserves) auto
  show "\<forall>tx \<in> set out. tx_Sender tx = addr" "\<forall>tx \<in> set (TxQueue p'). tx_Sender tx \<noteq> addr"
    using assms(3) by (auto simp: TransferTxs_def Let_def)
  show "\<forall>sid. \<forall>tx \<in> set (relay_of p' sid). tx_Sender tx \<noteq> addr"
    using assms(3) by (auto simp: TransferTxs_def Let_def relay_of_def
        split: option.splits if_splits)
qed

text \<open>
  Removing the transactions of a committed block drops from the queue exactly those whose
  non-empty hash is the hash of a given transaction, keeps the order of the others, leaves
  the relay pool and the lock alone, and does nothing the second time.
\<close>

theorem RemoveTxs_exact:
  "TxQueue (RemoveTxs txs p) =
     filter (\<lambda>tx. \<not> (tx_TxHash tx \<noteq> [] \<and> tx_TxHash tx \<in> tx_TxHash ` set txs)) (TxQueue p) \<and>
   RelayPool (RemoveTxs txs p) = RelayPool p \<and> lock (RemoveTxs txs p) = lock p \<and>
   RemoveTxs txs (RemoveTxs txs p) = RemoveTxs txs p"
proof -
  have "TxQueue (RemoveTxs txs p) =
      filter (\<lambda>tx. \<not> (tx_TxHash tx \<noteq> [] \<and> tx_TxHash tx \<in> tx_TxHash ` set txs)) (TxQueue p)" for p
    unfolding pool_simps by (rule filter_cong) auto
  then show ?thesis
    by (intro conjI pool_simps TxPool.equality) (simp_all add: pool_simps)
qed

text \<open>A pool whose relay pool was cleared cannot take a relay transaction.\<close>

lemma AddRelayTx_after_clear: "AddRelayTx tx sid (ClearRelayPool p) = Inl NilMapWrite"
  by (simp add: AddRelayTx_def ClearRelayPool_def)

end
