(* ===== verification/Blockchain.thy ===== *)
theory Blockchain
  imports Params Utils TxPool Storage
begin

text \<open>
  The chain a node keeps (\<open>chain/blockchain.go\<close>): execution of a block's transactions on the
  account trie, generation of blocks, the guards under which a block is appended, start-up from
  a database, and the installation and reading of accounts that re-sharding uses.

  \<open>bc_triedb\<close> stands for the pair of \<open>db\<close> and \<open>triedb\<close>: the trie database has no cache and is
  committed to \<open>db\<close> after every update. The abstract ledger, a balance for every address,
  is \<open>ledger_tx\<close>; that the execution on tries implements it is \<open>exec_txs_refines\<close>.
\<close>

section \<open>State\<close>

record BlockChain =
  bc_triedb :: triedb
  bc_ChainConfig :: ChainConfig
  bc_CurrentBlock :: Block
  bc_Storage :: Storage
  bc_Txpool :: TxPool
  bc_PartitionMap :: "string \<rightharpoonup> u64"

section \<open>Transaction root and bloom filter\<close>

definition GetTxTreeRoot :: "lib \<Rightarrow> Transaction list \<Rightarrow> bytes" where
  "GetTxTreeRoot L txs = tt_Root L (map tx_TxHash txs)"

definition GetBloomFilter :: "lib \<Rightarrow> Transaction list \<Rightarrow> bitset res" where
  "GetBloomFilter L txs =
     foldR (\<lambda>tx bs. bindR (ModBytes (tx_TxHash tx) 2048) (\<lambda>i. Inr (bs_Set L bs (unat i))))
       txs (bs_New L 2048)"

section \<open>Partition map and pool\<close>

definition Update_PartitionMap :: "string \<Rightarrow> u64 \<Rightarrow> BlockChain \<Rightarrow> BlockChain" where
  "Update_PartitionMap key val bc = bc\<lparr>bc_PartitionMap := (bc_PartitionMap bc)(key \<mapsto> val)\<rparr>"

definition Get_PartitionMap :: "params \<Rightarrow> BlockChain \<Rightarrow> string \<Rightarrow> u64 res" where
  "Get_PartitionMap P bc key =
     (case bc_PartitionMap bc key of
        None \<Rightarrow> bindR (Addr2Shard (ShardNum P) key) (\<lambda>s. Inr (of_int s))
      | Some val \<Rightarrow> Inr val)"

definition SendTx2Pool :: "(nat \<Rightarrow> time) \<Rightarrow> Transaction list \<Rightarrow> BlockChain \<Rightarrow> BlockChain" where
  "SendTx2Pool clock txs bc = bc\<lparr>bc_Txpool := AddTxs2Pool clock txs (bc_Txpool bc)\<rparr>"

section \<open>Execution of transactions\<close>

text \<open>\<open>common.BytesToHash\<close>: the last 32 bytes, padded with zeros on the left.\<close>

definition BytesToHash :: "bytes \<Rightarrow> bytes" where
  "BytesToHash b =
     (if length b > 32 then drop (length b - 32) b else replicate (32 - length b) 0 @ b)"

text \<open>The account of an address, made up with the initial balance when the trie has none.\<close>

definition newState :: "u64 \<Rightarrow> int \<Rightarrow> AccountState" where
  "newState nonce balance =
     \<lparr>as_AcAddress = '''', as_Nonce = nonce, as_Balance = balance, as_StorageRoot = [],
      as_CodeHash = []\<rparr>"

definition loadState :: "acctTrie \<Rightarrow> Address \<Rightarrow> u64 \<Rightarrow> AccountState res" where
  "loadState st a nonce =
     (case st a of
        None \<Rightarrow> Inr (newState nonce Init_Balance)
      | Some enc \<Rightarrow> DecodeAS enc)"

text \<open>
  \<open>sender_here\<close> and \<open>recipient_here\<close> are the conditions of lines 96 and 123, with Go's
  short-circuit evaluation: the partition map is not asked for a relayed sender.
\<close>

definition sender_here :: "params \<Rightarrow> BlockChain \<Rightarrow> Transaction \<Rightarrow> bool res" where
  "sender_here P bc tx =
     (if tx_Relayed tx then Inr False
      else bindR (Get_PartitionMap P bc (tx_Sender tx)) (\<lambda>s.
        Inr (s = cc_ShardID (bc_ChainConfig bc) \<or> tx_HasBroker tx \<or> tx_HasBridge tx)))"

definition recipient_here :: "params \<Rightarrow> BlockChain \<Rightarrow> Transaction \<Rightarrow> bool res" where
  "recipient_here P bc tx =
     bindR (Get_PartitionMap P bc (tx_Recipient tx)) (\<lambda>s.
        Inr (s = cc_ShardID (bc_ChainConfig bc) \<or> tx_HasBroker tx \<or> tx_HasBridge tx))"

text \<open>The sender's half of the loop body; \<open>None\<close> is the \<open>continue\<close> on insufficient balance.\<close>

definition exec_sender ::
  "params \<Rightarrow> BlockChain \<Rightarrow> nat \<Rightarrow> Transaction \<Rightarrow> acctTrie \<times> nat \<Rightarrow> (acctTrie \<times> nat) option res" where
  "exec_sender P bc i tx = (\<lambda>(st, cnt).
     bindR (sender_here P bc tx) (\<lambda>senderIn.
       if \<not> senderIn then Inr (Some (st, cnt))
       else bindR (loadState st (tx_Sender tx) (of_nat i)) (\<lambda>s_state.
         if as_Balance s_state < tx_Value tx then Inr None
         else Inr (Some (st(tx_Sender tx \<mapsto> AS_Encode (snd (Deduct s_state (tx_Value tx)))),
                         cnt + 1)))))"

definition exec_recipient ::
  "params \<Rightarrow> BlockChain \<Rightarrow> nat \<Rightarrow> Transaction \<Rightarrow> acctTrie \<times> nat \<Rightarrow> (acctTrie \<times> nat) res" where
  "exec_recipient P bc i tx = (\<lambda>(st, cnt).
     bindR (recipient_here P bc tx) (\<lambda>recipientIn.
       if \<not> recipientIn then Inr (st, cnt)
       else bindR (loadState st (tx_Recipient tx) (of_nat i)) (\<lambda>r_state.
         Inr (st(tx_Recipient tx \<mapsto> AS_Encode (Deposit r_state (tx_Value tx))), cnt + 1))))"

definition exec_tx ::
  "params \<Rightarrow> BlockChain \<Rightarrow> nat \<times> Transaction \<Rightarrow> acctTrie \<times> nat \<Rightarrow> (acctTrie \<times> nat) res" where
  "exec_tx P bc = (\<lambda>(i, tx) s.
     bindR (exec_sender P bc i tx s) (\<lambda>r.
       case r of None \<Rightarrow> Inr s | Some s1 \<Rightarrow> exec_recipient P bc i tx s1))"

definition exec_txs ::
  "params \<Rightarrow> BlockChain \<Rightarrow> (nat \<times> Transaction) list \<Rightarrow> acctTrie \<times> nat \<Rightarrow> (acctTrie \<times> nat) res" where
  "exec_txs P bc itxs s = foldR (exec_tx P bc) itxs s"

definition GetUpdateStatusTrie ::
  "lib \<Rightarrow> params \<Rightarrow> Transaction list \<Rightarrow> BlockChain \<Rightarrow> (bytes \<times> BlockChain) res" where
  "GetUpdateStatusTrie L P txs bc =
     (let root = BytesToHash (bh_StateRoot (b_Header (bc_CurrentBlock bc))) in
      if length txs = 0 then Inr (root, bc)
      else case tr_Open L (bc_triedb bc) root of
        None \<Rightarrow> Inl (LogPanic ''trie.New'')
      | Some st \<Rightarrow>
          bindR (exec_txs P bc (enumerate 0 txs) (st, 0)) (\<lambda>(st', cnt).
            if cnt = 0 then Inr (root, bc)
            else let (rt, ns) = tr_Commit L (bc_triedb bc) root st' in
              case ns of
                None \<Rightarrow> Inr (rt, bc)
              | Some db \<Rightarrow> Inr (rt, bc\<lparr>bc_triedb := db\<rparr>)))"

section \<open>Blocks\<close>

definition zeroHeader :: BlockHeader where
  "zeroHeader = \<lparr>bh_ParentBlockHash = [], bh_StateRoot = [], bh_TxRoot = [], bh_Bloom = [],
     bh_Number = 0, bh_Time = 0, bh_Miner = 0\<rparr>"

definition pack_block :: "params \<Rightarrow> BlockChain \<Rightarrow> Transaction list \<times> TxPool" where
  "pack_block P bc =
     (if UseBlocksizeInBytes P = 1 then PackTxsWithBytes (BlocksizeInBytes P) (bc_Txpool bc)
      else PackTxs (cc_BlockSize (bc_ChainConfig bc)) (bc_Txpool bc))"

definition GenerateBlock ::
  "lib \<Rightarrow> params \<Rightarrow> time \<Rightarrow> u32 \<Rightarrow> BlockChain \<Rightarrow> (Block \<times> BlockChain) res" where
  "GenerateBlock L P now miner bc =
     (let (txs, pool) = pack_block P bc; bc1 = bc\<lparr>bc_Txpool := pool\<rparr> in
      bindR (GetUpdateStatusTrie L P txs bc1) (\<lambda>(rt, bc2).
      bindR (GetBloomFilter L txs) (\<lambda>bloom.
        let bh = zeroHeader\<lparr>bh_ParentBlockHash := b_Hash (bc_CurrentBlock bc),
              bh_Number := bh_Number (b_Header (bc_CurrentBlock bc)) + 1, bh_Time := now,
              bh_StateRoot := rt, bh_TxRoot := GetTxTreeRoot L txs, bh_Bloom := bloom,
              bh_Miner := miner\<rparr>;
            b = NewBlock bh txs
        in Inr (b\<lparr>b_Hash := BH_Hash L bh\<rparr>, bc2))))"

definition NewGenisisBlock :: "lib \<Rightarrow> Block res" where
  "NewGenisisBlock L =
     bindR (GetBloomFilter L []) (\<lambda>bloom.
       let bh = zeroHeader\<lparr>bh_Number := 0, bh_StateRoot := st_Root L Map.empty,
             bh_TxRoot := GetTxTreeRoot L [], bh_Bloom := bloom\<rparr>;
           b = NewBlock bh []
       in Inr (b\<lparr>b_Hash := BH_Hash L bh\<rparr>))"

definition AddGenisisBlock :: "lib \<Rightarrow> Block \<Rightarrow> BlockChain \<Rightarrow> BlockChain res" where
  "AddGenisisBlock L gb bc =
     bindR (Storage_AddBlock L gb (bc_Storage bc)) (\<lambda>s.
       case GetNewestBlockHash L s of
         Inl _ \<Rightarrow> Inl (LogPanic '''')
       | Inr newestHash \<Rightarrow> bindR (GetBlock L newestHash s) (\<lambda>r.
           case r of
             Inl _ \<Rightarrow> Inl (LogPanic '''')
           | Inr curb \<Rightarrow> Inr (bc\<lparr>bc_Storage := s, bc_CurrentBlock := curb\<rparr>)))"

definition AddBlock :: "lib \<Rightarrow> params \<Rightarrow> Block \<Rightarrow> BlockChain \<Rightarrow> BlockChain res" where
  "AddBlock L P b bc =
     (if bh_Number (b_Header b) \<noteq> bh_Number (b_Header (bc_CurrentBlock bc)) + 1 then Inr bc
      else if bh_ParentBlockHash (b_Header b) \<noteq> b_Hash (bc_CurrentBlock bc) then Inr bc
      else bindR (case tr_Open L (bc_triedb bc) (BytesToHash (bh_StateRoot (b_Header b))) of
                    None \<Rightarrow> bindR (GetUpdateStatusTrie L P (b_Body b) bc) (\<lambda>(rt, bc'). Inr bc')
                  | Some _ \<Rightarrow> Inr bc) (\<lambda>bc1.
           bindR (Storage_AddBlock L b (bc_Storage bc1)) (\<lambda>s.
             Inr (bc1\<lparr>bc_CurrentBlock := b, bc_Storage := s\<rparr>))))"

text \<open>
  The genesis block of a new chain, or the chain found in the database. The field
  \<open>CurrentBlock\<close> is nil until it is set, and is not read before; \<open>fp\<close> is the text that
  \<open>Sprintf\<close> gives for the shard and the node.
\<close>

definition NewBlockChain ::
  "lib \<Rightarrow> params \<Rightarrow> ChainConfig \<Rightarrow> string \<Rightarrow> boltdb \<Rightarrow> triedb \<Rightarrow> BlockChain res" where
  "NewBlockChain L P cc fp sdb db =
     (let sto = NewStorage (DatabaseWrite_path P @ ''chainDB/'' @ fp) sdb;
          bc = \<lparr>bc_triedb = db, bc_ChainConfig = cc, bc_CurrentBlock = NewBlock zeroHeader [],
                bc_Storage = sto, bc_Txpool = NewTxPool, bc_PartitionMap = Map.empty\<rparr>
      in case GetNewestBlockHash L sto of
           Inl err \<Rightarrow>
             if err = ''cannot find the newest block hash''
             then bindR (NewGenisisBlock L) (\<lambda>gb. AddGenisisBlock L gb bc)
             else Inl (LogPanic '''')
         | Inr curHash \<Rightarrow> bindR (GetBlock L curHash sto) (\<lambda>r.
             case r of
               Inl _ \<Rightarrow> Inl (LogPanic '''')
             | Inr curb \<Rightarrow>
                 (case tr_Open L db (BytesToHash (bh_StateRoot (b_Header curb))) of
                    None \<Rightarrow> Inl (LogPanic '''')
                  | Some _ \<Rightarrow> Inr (bc\<lparr>bc_CurrentBlock := curb\<rparr>))))"

definition IsValidBlock :: "lib \<Rightarrow> Block \<Rightarrow> BlockChain \<Rightarrow> unit err" where
  "IsValidBlock L b bc =
     (if bh_ParentBlockHash (b_Header b) \<noteq> b_Hash (bc_CurrentBlock bc)
      then Inl ''the parentblock hash is not equal to the current block hash''
      else if GetTxTreeRoot L (b_Body b) \<noteq> bh_TxRoot (b_Header b)
      then Inl ''the transaction root is wrong''
      else Inr ())"

section \<open>Accounts\<close>

text \<open>Entry \<open>i\<close> of the addresses is read together with entry \<open>i\<close> of the states.\<close>

fun add_accounts_loop ::
  "params \<Rightarrow> BlockChain \<Rightarrow> string list \<Rightarrow> AccountState list \<Rightarrow> acctTrie \<Rightarrow> acctTrie res" where
  "add_accounts_loop P bc [] as st = Inr st"
| "add_accounts_loop P bc (addr # ac) as st =
     bindR (Get_PartitionMap P bc addr) (\<lambda>s.
       if s = cc_ShardID (bc_ChainConfig bc)
       then (case as of
               [] \<Rightarrow> Inl IndexOutOfRange
             | a # as' \<Rightarrow> add_accounts_loop P bc ac as'
                 (st(addr \<mapsto> AS_Encode (newState (as_Nonce a) (as_Balance a)))))
       else add_accounts_loop P bc ac (tl as) st)"

definition AddAccounts ::
  "lib \<Rightarrow> params \<Rightarrow> string list \<Rightarrow> AccountState list \<Rightarrow> u32 \<Rightarrow> BlockChain \<Rightarrow> BlockChain res" where
  "AddAccounts L P ac as miner bc =
     (let cur = bc_CurrentBlock bc; root = bh_StateRoot (b_Header cur) in
      bindR (if length ac = 0 then Inr (root, bc)
             else case tr_Open L (bc_triedb bc) (BytesToHash root) of
               None \<Rightarrow> Inl (LogPanic ''trie.New'')
             | Some st \<Rightarrow> bindR (add_accounts_loop P bc ac as st) (\<lambda>st'.
                 let (rrt, ns) = tr_Commit L (bc_triedb bc) (BytesToHash root) st' in
                 case ns of
                   None \<Rightarrow> Inr (root, bc)
                 | Some db \<Rightarrow> Inr (rrt, bc\<lparr>bc_triedb := db\<rparr>))) (\<lambda>(rt, bc1).
      bindR (GetBloomFilter L []) (\<lambda>bloom.
        let bh = zeroHeader\<lparr>bh_ParentBlockHash := b_Hash cur,
              bh_Number := bh_Number (b_Header cur) + 1, bh_Time := 0,
              bh_StateRoot := rt, bh_TxRoot := GetTxTreeRoot L [], bh_Bloom := bloom,
              bh_Miner := 0\<rparr>;
            b = (NewBlock bh [])\<lparr>b_Hash := BH_Hash L bh\<rparr>
        in bindR (Storage_AddBlock L b (bc_Storage bc1)) (\<lambda>s.
             Inr (bc1\<lparr>bc_CurrentBlock := b, bc_Storage := s\<rparr>)))))"

fun fetch_loop :: "acctTrie \<Rightarrow> string list \<Rightarrow> AccountState list \<Rightarrow> AccountState list res" where
  "fetch_loop st [] res = Inr res"
| "fetch_loop st (addr # addrs) res =
     bindR (loadState st addr 0) (\<lambda>a. fetch_loop st addrs (res @ [a]))"

definition FetchAccounts :: "lib \<Rightarrow> string list \<Rightarrow> BlockChain \<Rightarrow> AccountState list res" where
  "FetchAccounts L addrs bc =
     (case tr_Open L (bc_triedb bc)
             (BytesToHash (bh_StateRoot (b_Header (bc_CurrentBlock bc)))) of
        None \<Rightarrow> Inl (LogPanic ''trie.New'')
      | Some st \<Rightarrow> fetch_loop st addrs [])"

end
