(* ===== verification/Demo_Lib.thy ===== *)
theory Demo_Lib
  imports Blockchain
begin

text \<open>
  One concrete instance of the libraries outside the repository that satisfies all the laws the
  theorems ask for, and a small chain on it. The witnesses of the development use them to show
  that the hypotheses of a theorem hold together.
\<close>

definition zero32 :: bytes where "zero32 = replicate 32 0"
definition one32 :: bytes where "one32 = replicate 32 1"

text \<open>
  The hash of a header is its height; the trie with the single key \<open>[7]\<close> has a root of its own,
  against which only that key verifies.
\<close>

definition demo_sha256 :: "gob \<Rightarrow> bytes" where
  "demo_sha256 g = replicate 31 0 @
     [case g of GobBH h \<Rightarrow> of_nat (unat (bh_Number h)) + 1 | GobTx t \<Rightarrow> 77 | _ \<Rightarrow> 0]"

definition demo_tt_Verify :: "bytes \<Rightarrow> bytes \<Rightarrow> (bytes \<times> bytes) list \<Rightarrow> bytes option" where
  "demo_tt_Verify root k db =
     (if root = one32 then (if k = [7] then Some [0] else None)
      else if ([1], k) \<in> set db then Some [0] else None)"

definition demo_lib :: lib where
  "demo_lib = \<lparr>
     sha256 = demo_sha256,
     bs_New = (\<lambda>n. []),
     bs_Set = (\<lambda>b i. if i < 2 ^ 64 then of_nat i # b else b),
     bs_Test = (\<lambda>b i. i < 2 ^ 64 \<and> of_nat i \<in> set b),
     st_Root = (\<lambda>t. if t = Map.empty then zero32 else one32),
     tr_Open = (\<lambda>db r. if r = zero32 then Some Map.empty else map_of db r),
     tr_Commit = (\<lambda>db r t. if t = Map.empty then (zero32, Some db) else (one32, Some ((one32, t) # db))),
     tt_Root = (\<lambda>ks. if set ks = {[7]} then one32 else zero32),
     tt_Prove = (\<lambda>ks k. Some (if k \<in> set ks then [([1], k)] else [])),
     tt_Verify = demo_tt_Verify,
     bolt_Put = (\<lambda>db b k v. if k = [] \<or> length k > 32768 then None else Some (((b, k), v) # db)),
     bolt_Get = (\<lambda>db b k. map_of db (b, k))\<rparr>"

lemma length_root32 [simp]: "length zero32 = 32" "length one32 = 32"
  by (simp_all add: zero32_def one32_def)

lemma zero32_neq_one32 [simp]: "zero32 \<noteq> one32" "one32 \<noteq> zero32"
  by (simp_all add: zero32_def one32_def)

lemma demo_state_trie_laws [simp]: "state_trie_laws demo_lib"
  by (simp add: state_trie_laws_def demo_lib_def)

lemma demo_tx_trie_laws [simp]: "tx_trie_laws demo_lib"
  by (auto simp: tx_trie_laws_def demo_lib_def demo_tt_Verify_def)

lemma demo_tx_trie_sound [simp]: "tx_trie_sound demo_lib [[7]]"
  by (auto simp: tx_trie_sound_def demo_lib_def demo_tt_Verify_def split: if_splits)

lemma demo_bolt_laws [simp]: "bolt_laws demo_lib"
  by (auto simp: bolt_laws_def demo_lib_def)

lemma demo_sha256_laws [simp]: "sha256_laws demo_lib"
  by (simp add: sha256_laws_def demo_lib_def demo_sha256_def)

section \<open>A chain\<close>

definition demo_config :: "u64 \<Rightarrow> ChainConfig" where
  "demo_config shard = \<lparr>cc_ChainID = shard, cc_NodeID = 0, cc_ShardID = shard, cc_Nodes_perShard = 4,
     cc_ShardNums = 2, cc_BlockSize = 10, cc_BlockInterval = 1000, cc_InjectSpeed = 100,
     cc_MaxRelayBlockSize = 10\<rparr>"

definition demo_tx :: "Address \<Rightarrow> Address \<Rightarrow> int \<Rightarrow> Transaction" where
  "demo_tx s r v = zeroTx\<lparr>tx_Sender := s, tx_Recipient := r, tx_Value := v, tx_TxHash := [7],
     tx_Time := 1\<rparr>"

definition demo_header :: BlockHeader where
  "demo_header = zeroHeader\<lparr>bh_StateRoot := zero32, bh_TxRoot := zero32\<rparr>"

definition demo_genesis :: Block where
  "demo_genesis = \<lparr>b_Header = demo_header, b_Body = [], b_Hash = BH_Hash demo_lib demo_header\<rparr>"

definition demo_chain :: "u64 \<Rightarrow> BlockChain" where
  "demo_chain shard =
     \<lparr>bc_triedb = [], bc_ChainConfig = demo_config shard, bc_CurrentBlock = demo_genesis,
      bc_Storage = NewStorage ''x''
        [((''block'', b_Hash demo_genesis), DbGob (B_Encode demo_genesis)),
         ((''blockHeader'', b_Hash demo_genesis), DbGob (BH_Encode demo_header)),
         ((''newestBlockHash'', OnlyNewestBlock), DbBytes (b_Hash demo_genesis))],
      bc_Txpool = NewTxPool\<lparr>TxQueue := [demo_tx ''a'' ''b'' 5]\<rparr>,
      bc_PartitionMap = [''a'' \<mapsto> 0, ''b'' \<mapsto> 0, ''c'' \<mapsto> 1]\<rparr>"

lemma demo_tx_fields [simp]:
  "tx_Sender (demo_tx s r v) = s" "tx_Recipient (demo_tx s r v) = r" "tx_Value (demo_tx s r v) = v"
  "tx_TxHash (demo_tx s r v) = [7]" "\<not> tx_Relayed (demo_tx s r v)" "\<not> tx_HasBroker (demo_tx s r v)"
  "\<not> tx_HasBridge (demo_tx s r v)" "tx_Time (demo_tx s r v) = 1"
  by (simp_all add: demo_tx_def zeroTx_def)

lemma demo_chain_fields [simp]:
  "bc_triedb (demo_chain k) = []" "bc_CurrentBlock (demo_chain k) = demo_genesis"
  "cc_ShardID (bc_ChainConfig (demo_chain k)) = k"
  "bc_PartitionMap (demo_chain k) = [''a'' \<mapsto> 0, ''b'' \<mapsto> 0, ''c'' \<mapsto> 1]"
  by (simp_all add: demo_chain_def demo_config_def)

lemma demo_genesis_fields [simp]:
  "b_Header demo_genesis = demo_header" "bh_StateRoot demo_header = zero32"
  "bh_Number demo_header = 0" "b_Body demo_genesis = []"
  "b_Hash demo_genesis = replicate 31 0 @ [1]"
  by (simp_all add: demo_genesis_def demo_header_def zeroHeader_def BH_Hash_def demo_lib_def
      demo_sha256_def BH_Encode_def)

lemma demo_Open_zero [simp]: "tr_Open demo_lib db zero32 = Some Map.empty"
  by (simp add: demo_lib_def)

end
