(* ===== verification/Chain_Ledger.thy ===== *)
theory Chain_Ledger
  imports Blockchain Demo_Lib
begin

text \<open>
  The abstract ledger that the chain's execution of transactions implements: every address has
  a balance, an address never seen before has the initial one. The simulation between the
  account trie and the ledger is proved for the whole of \<open>GetUpdateStatusTrie\<close>, which is
  shown not to panic; conservation of money and non-negativity of balances are then facts
  about the ledger.
\<close>

section \<open>The abstract ledger\<close>

definition balance_of :: "acctTrie \<Rightarrow> Address \<Rightarrow> int" where
  "balance_of st a =
     (case st a of
        None \<Rightarrow> Init_Balance
      | Some enc \<Rightarrow> (case DecodeAS enc of Inl _ \<Rightarrow> 0 | Inr s \<Rightarrow> as_Balance s))"

definition debits :: "params \<Rightarrow> BlockChain \<Rightarrow> Transaction \<Rightarrow> bool" where
  "debits P bc tx \<longleftrightarrow> sender_here P bc tx = Inr True"

definition credits :: "params \<Rightarrow> BlockChain \<Rightarrow> Transaction \<Rightarrow> bool" where
  "credits P bc tx \<longleftrightarrow> recipient_here P bc tx = Inr True"

definition ledger_tx ::
  "params \<Rightarrow> BlockChain \<Rightarrow> Transaction \<Rightarrow> (Address \<Rightarrow> int) \<Rightarrow> (Address \<Rightarrow> int)" where
  "ledger_tx P bc tx m =
     (if debits P bc tx \<and> m (tx_Sender tx) < tx_Value tx then m
      else let m1 = (if debits P bc tx
                     then m(tx_Sender tx := m (tx_Sender tx) - tx_Value tx) else m)
        in if credits P bc tx
           then m1(tx_Recipient tx := m1 (tx_Recipient tx) + tx_Value tx) else m1)"

section \<open>Well-formed states\<close>

definition trie_ok :: "acctTrie \<Rightarrow> bool" where
  "trie_ok st \<longleftrightarrow> (\<forall>a enc. st a = Some enc \<longrightarrow> (\<exists>s. DecodeAS enc = Inr s))"

text \<open>The addresses of the transaction have a shard.\<close>

definition placed :: "params \<Rightarrow> BlockChain \<Rightarrow> Transaction \<Rightarrow> bool" where
  "placed P bc tx \<longleftrightarrow>
     (\<exists>s. Get_PartitionMap P bc (tx_Recipient tx) = Inr s) \<and>
     (tx_Relayed tx \<or> (\<exists>s. Get_PartitionMap P bc (tx_Sender tx) = Inr s))"

definition current_state :: "lib \<Rightarrow> BlockChain \<Rightarrow> acctTrie option" where
  "current_state L bc =
     tr_Open L (bc_triedb bc) (BytesToHash (bh_StateRoot (b_Header (bc_CurrentBlock bc))))"

lemma trie_ok_empty [simp]: "trie_ok Map.empty"
  by (simp add: trie_ok_def)

lemma trie_ok_upd [simp]: "trie_ok st \<Longrightarrow> trie_ok (st(a \<mapsto> AS_Encode s))"
  by (auto simp: trie_ok_def)

lemma balance_of_empty [simp]: "balance_of Map.empty a = Init_Balance"
  by (simp add: balance_of_def)

lemma balance_of_upd [simp]:
  "balance_of (st(a \<mapsto> AS_Encode s)) = (balance_of st)(a := as_Balance s)"
  by (auto simp: balance_of_def)

lemma loadState_ok:
  assumes "trie_ok st"
  obtains s where "loadState st a n = Inr s" "as_Balance s = balance_of st a"
proof (cases "st a")
  case None
  then show ?thesis using that by (simp add: loadState_def balance_of_def newState_def)
next
  case (Some enc)
  with assms obtain s where "DecodeAS enc = Inr s" by (auto simp: trie_ok_def)
  with Some show ?thesis using that by (simp add: loadState_def balance_of_def)
qed

section \<open>Simulation\<close>

lemma here_cases:
  assumes "placed P bc tx"
  shows "sender_here P bc tx = Inr (debits P bc tx)"
    and "recipient_here P bc tx = Inr (credits P bc tx)"
  using assms unfolding placed_def debits_def credits_def
  by (auto simp: sender_here_def recipient_here_def)

lemma exec_sender_refines:
  assumes "trie_ok st" "placed P bc tx"
  shows "if debits P bc tx \<and> balance_of st (tx_Sender tx) < tx_Value tx
         then exec_sender P bc i tx (st, cnt) = Inr None
         else \<exists>st' cnt'. exec_sender P bc i tx (st, cnt) = Inr (Some (st', cnt')) \<and> trie_ok st' \<and>
           cnt \<le> cnt' \<and> (cnt' = cnt \<longrightarrow> st' = st) \<and>
           balance_of st' = (if debits P bc tx
             then (balance_of st)(tx_Sender tx := balance_of st (tx_Sender tx) - tx_Value tx)
             else balance_of st)"
proof -
  obtain s where s: "loadState st (tx_Sender tx) (of_nat i) = Inr s"
      "as_Balance s = balance_of st (tx_Sender tx)"
    using loadState_ok [OF assms(1)] .
  then show ?thesis
    using assms(1) by (auto simp: exec_sender_def here_cases [OF assms(2)])
qed

lemma exec_recipient_refines:
  assumes "trie_ok st" "placed P bc tx"
  shows "\<exists>st' cnt'. exec_recipient P bc i tx (st, cnt) = Inr (st', cnt') \<and> trie_ok st' \<and>
    cnt \<le> cnt' \<and> (cnt' = cnt \<longrightarrow> st' = st) \<and>
    balance_of st' = (if credits P bc tx
      then (balance_of st)(tx_Recipient tx := balance_of st (tx_Recipient tx) + tx_Value tx)
      else balance_of st)"
proof -
  obtain s where s: "loadState st (tx_Recipient tx) (of_nat i) = Inr s"
      "as_Balance s = balance_of st (tx_Recipient tx)"
    using loadState_ok [OF assms(1)] .
  then show ?thesis
    using assms(1) by (auto simp: exec_recipient_def here_cases [OF assms(2)])
qed

lemma exec_tx_refines:
  assumes "trie_ok st" "placed P bc tx"
  shows "\<exists>st' cnt'. exec_tx P bc (i, tx) (st, cnt) = Inr (st', cnt') \<and> trie_ok st' \<and>
    cnt \<le> cnt' \<and> (cnt' = cnt \<longrightarrow> st' = st) \<and>
    balance_of st' = ledger_tx P bc tx (balance_of st)"
proof (cases "debits P bc tx \<and> balance_of st (tx_Sender tx) < tx_Value tx")
  case True
  then show ?thesis
    using exec_sender_refines [OF assms, of i cnt] assms(1) by (simp add: exec_tx_def ledger_tx_def)
next
  case False
  then obtain st1 c1 where 1: "exec_sender P bc i tx (st, cnt) = Inr (Some (st1, c1))" "trie_ok st1"
      "cnt \<le> c1" "c1 = cnt \<longrightarrow> st1 = st"
      "balance_of st1 = (if debits P bc tx
        then (balance_of st)(tx_Sender tx := balance_of st (tx_Sender tx) - tx_Value tx)
        else balance_of st)"
    using exec_sender_refines [OF assms, of i cnt] by auto
  obtain st2 c2 where 2: "exec_recipient P bc i tx (st1, c1) = Inr (st2, c2)" "trie_ok st2"
      "c1 \<le> c2" "c2 = c1 \<longrightarrow> st2 = st1"
      "balance_of st2 = (if credits P bc tx
        then (balance_of st1)(tx_Recipient tx := balance_of st1 (tx_Recipient tx) + tx_Value tx)
        else balance_of st1)"
    using exec_recipient_refines [OF 1(2) assms(2), of i c1] by auto
  have "balance_of st2 = ledger_tx P bc tx (balance_of st)"
    unfolding 2(5) 1(5) using False by (auto simp: ledger_tx_def Let_def)
  then show ?thesis using 1(1-4) 2(1-4) by (auto simp: exec_tx_def)
qed

lemma exec_txs_refines:
  assumes "trie_ok st" "\<forall>tx \<in> snd ` set itxs. placed P bc tx"
  shows "\<exists>st' cnt'. exec_txs P bc itxs (st, cnt) = Inr (st', cnt') \<and> trie_ok st' \<and>
    cnt \<le> cnt' \<and> (cnt' = cnt \<longrightarrow> st' = st) \<and>
    balance_of st' = fold (ledger_tx P bc) (map snd itxs) (balance_of st)"
  using assms
proof (induction itxs arbitrary: st cnt)
  case Nil
  then show ?case by (simp add: exec_txs_def)
next
  case (Cons x itxs)
  obtain i tx where x: "x = (i, tx)" by force
  then have "placed P bc tx" using Cons.prems(2) by auto
  from exec_tx_refines [OF Cons.prems(1) this, of i cnt] obtain st1 c1 where
    1: "exec_tx P bc (i, tx) (st, cnt) = Inr (st1, c1)" "trie_ok st1"
      "cnt \<le> c1" "c1 = cnt \<longrightarrow> st1 = st" "balance_of st1 = ledger_tx P bc tx (balance_of st)"
    by auto
  from Cons.IH [OF 1(2), of c1] Cons.prems(2) obtain st2 c2 where
    2: "exec_txs P bc itxs (st1, c1) = Inr (st2, c2)" "trie_ok st2" "c1 \<le> c2"
      "c2 = c1 \<longrightarrow> st2 = st1" "balance_of st2 = fold (ledger_tx P bc) (map snd itxs) (balance_of st1)"
    by auto
  show ?case using 1 2 x by (auto simp: exec_txs_def)
qed

lemma BytesToHash_32 [simp]: "length b = 32 \<Longrightarrow> BytesToHash b = b"
  by (simp add: BytesToHash_def)

lemma length_BytesToHash [simp]: "length (BytesToHash b) = 32"
  by (auto simp: BytesToHash_def)

lemma BytesToHash_idem [simp]: "BytesToHash (BytesToHash b) = BytesToHash b"
  by simp

lemma GetUpdateStatusTrie_frame:
  "GetUpdateStatusTrie L P txs bc = Inr (rt, bc') \<Longrightarrow> bc' = bc\<lparr>bc_triedb := bc_triedb bc'\<rparr>"
  by (auto simp: GetUpdateStatusTrie_def Let_def bindR_Inr_iff split: if_splits option.splits prod.splits)

text \<open>What a commit of a state trie leaves in the database.\<close>

lemma state_trie_lawsD:
  assumes "state_trie_laws L" "tr_Open L db r = Some t0"
  shows "fst (tr_Commit L db r t) = st_Root L t \<and>
    (case snd (tr_Commit L db r t) of
       None \<Rightarrow> t = t0 \<and> st_Root L t = r
     | Some db' \<Rightarrow> tr_Open L db' (st_Root L t) = Some t \<and>
         (\<forall>r'. r' \<noteq> st_Root L t \<longrightarrow> tr_Open L db' r' = tr_Open L db r'))"
  using assms unfolding state_trie_laws_def by blast

lemma commit_opens:
  assumes "state_trie_laws L" "tr_Open L db r = Some t0"
    and "tr_Commit L db r t = (rt, ns)"
  shows "length rt = 32"
    and "tr_Open L (case ns of None \<Rightarrow> db | Some db' \<Rightarrow> db') rt = Some t"
    and "ns = None \<Longrightarrow> t = t0 \<and> rt = r"
    and "r' \<noteq> rt \<Longrightarrow> tr_Open L (case ns of None \<Rightarrow> db | Some db' \<Rightarrow> db') r' = tr_Open L db r'"
proof -
  have *: "rt = st_Root L t \<and> (case ns of None \<Rightarrow> t = t0 \<and> st_Root L t = r
      | Some db' \<Rightarrow> tr_Open L db' (st_Root L t) = Some t \<and>
          (\<forall>r'. r' \<noteq> st_Root L t \<longrightarrow> tr_Open L db' r' = tr_Open L db r'))"
    using state_trie_lawsD [OF assms(1,2), of t] assms(3) by simp
  then show "length rt = 32" using assms(1) by (simp add: state_trie_laws_def)
  show "tr_Open L (case ns of None \<Rightarrow> db | Some db' \<Rightarrow> db') rt = Some t"
    using * assms(2) by (auto split: option.splits)
  show "ns = None \<Longrightarrow> t = t0 \<and> rt = r" using * by auto
  show "r' \<noteq> rt \<Longrightarrow> tr_Open L (case ns of None \<Rightarrow> db | Some db' \<Rightarrow> db') r' = tr_Open L db r'"
    using * by (auto split: option.splits)
qed

text \<open>
  \<open>GetUpdateStatusTrie\<close> from the outcome of the loop: the root it returns, what the database
  opens at that root, and that nothing else of the chain changes.
\<close>

definition result_root :: "lib \<Rightarrow> BlockChain \<Rightarrow> acctTrie \<Rightarrow> nat \<Rightarrow> bytes" where
  "result_root L bc st' cnt =
     (if cnt = 0 then BytesToHash (bh_StateRoot (b_Header (bc_CurrentBlock bc))) else st_Root L st')"

lemma GetUpdateStatusTrie_exec:
  assumes "state_trie_laws L" "current_state L bc = Some st"
    and "exec_txs P bc (enumerate 0 txs) (st, 0) = Inr (st', c)" "c = 0 \<longrightarrow> st' = st"
  shows "\<exists>db. GetUpdateStatusTrie L P txs bc = Inr (result_root L bc st' c, bc\<lparr>bc_triedb := db\<rparr>) \<and>
    tr_Open L db (result_root L bc st' c) = Some st' \<and>
    (\<forall>r. r \<noteq> result_root L bc st' c \<longrightarrow> tr_Open L db r = tr_Open L (bc_triedb bc) r)"
proof -
  let ?root = "BytesToHash (bh_StateRoot (b_Header (bc_CurrentBlock bc)))"
  have op: "tr_Open L (bc_triedb bc) ?root = Some st" using assms(2) by (simp add: current_state_def)
  obtain rt ns where cm: "tr_Commit L (bc_triedb bc) ?root st' = (rt, ns)" by force
  note co = commit_opens [OF assms(1) op cm]
  have rt: "rt = st_Root L st'" using state_trie_lawsD [OF assms(1) op, of st'] cm by simp
  consider "txs = []" | "txs \<noteq> []" "c = 0" | "txs \<noteq> []" "c \<noteq> 0" by blast
  then show ?thesis
  proof cases
    case 1
    then have "st' = st" "c = 0" using assms(3) by (simp_all add: exec_txs_def)
    then show ?thesis using 1 op
      by (auto simp: GetUpdateStatusTrie_def result_root_def intro: exI [of _ "bc_triedb bc"])
  next
    case 2
    then show ?thesis using op assms(3,4)
      by (auto simp: GetUpdateStatusTrie_def result_root_def Let_def intro: exI [of _ "bc_triedb bc"])
  next
    case 3
    then have "GetUpdateStatusTrie L P txs bc =
        Inr (rt, bc\<lparr>bc_triedb := case ns of None \<Rightarrow> bc_triedb bc | Some db' \<Rightarrow> db'\<rparr>)"
      using op assms(3) cm by (auto simp: GetUpdateStatusTrie_def Let_def split: option.splits)
    then show ?thesis using co(2,4) rt 3 by (auto simp: result_root_def)
  qed
qed

lemma length_result_root: "state_trie_laws L \<Longrightarrow> length (result_root L bc st' c) = 32"
  by (simp add: result_root_def state_trie_laws_def)

lemma block_execution:
  assumes "state_trie_laws L" "current_state L bc = Some st" "trie_ok st"
    and "\<forall>tx \<in> set txs. placed P bc tx"
  obtains st' c db where "exec_txs P bc (enumerate 0 txs) (st, 0) = Inr (st', c)"
    "GetUpdateStatusTrie L P txs bc = Inr (result_root L bc st' c, bc\<lparr>bc_triedb := db\<rparr>)"
    "tr_Open L db (result_root L bc st' c) = Some st'" "trie_ok st'"
    "\<forall>r. r \<noteq> result_root L bc st' c \<longrightarrow> tr_Open L db r = tr_Open L (bc_triedb bc) r"
    "balance_of st' = fold (ledger_tx P bc) txs (balance_of st)"
proof -
  have pl: "\<forall>tx \<in> snd ` set (enumerate 0 txs). placed P bc tx"
    using assms(4) by (auto simp: in_set_enumerate_eq)
  from exec_txs_refines [where itxs = "enumerate 0 txs" and cnt = 0, OF assms(3) pl] obtain st' c where
    e: "exec_txs P bc (enumerate 0 txs) (st, 0) = Inr (st', c)" "trie_ok st'" "c = 0 \<longrightarrow> st' = st"
      "balance_of st' = fold (ledger_tx P bc) txs (balance_of st)"
    by auto
  from GetUpdateStatusTrie_exec [OF assms(1,2) e(1,3)] show ?thesis using that e by blast
qed

lemma GetUpdateStatusTrie_total:
  assumes "state_trie_laws L" "current_state L bc = Some st" "trie_ok st"
    and "\<forall>tx \<in> set txs. placed P bc tx"
  shows "\<exists>rt bc' st'. GetUpdateStatusTrie L P txs bc = Inr (rt, bc') \<and> length rt = 32 \<and>
    tr_Open L (bc_triedb bc') rt = Some st' \<and> trie_ok st' \<and>
    balance_of st' = fold (ledger_tx P bc) txs (balance_of st)"
proof -
  obtain st' c db where
    "GetUpdateStatusTrie L P txs bc = Inr (result_root L bc st' c, bc\<lparr>bc_triedb := db\<rparr>)"
    "tr_Open L db (result_root L bc st' c) = Some st'" "trie_ok st'"
    "balance_of st' = fold (ledger_tx P bc) txs (balance_of st)"
    using block_execution [OF assms] by metis
  then show ?thesis using length_result_root [OF assms(1)] by auto
qed

section \<open>Execution depends on the partition only\<close>

text \<open>Two chains that agree on the shard and the partition map execute alike.\<close>

definition same_partition :: "BlockChain \<Rightarrow> BlockChain \<Rightarrow> bool" where
  "same_partition bc bc' \<longleftrightarrow> bc_PartitionMap bc' = bc_PartitionMap bc \<and>
     cc_ShardID (bc_ChainConfig bc') = cc_ShardID (bc_ChainConfig bc)"

lemma same_partition_updates [simp]:
  "same_partition bc bc" "same_partition bc (bc\<lparr>bc_triedb := db\<rparr>)"
  "same_partition bc (bc\<lparr>bc_Txpool := p\<rparr>)" "same_partition bc (bc\<lparr>bc_CurrentBlock := b\<rparr>)"
  "same_partition bc (bc\<lparr>bc_Storage := s\<rparr>)"
  by (simp_all add: same_partition_def)

lemma same_partition_cong:
  assumes "same_partition bc bc'"
  shows "Get_PartitionMap P bc' = Get_PartitionMap P bc"
    and "sender_here P bc' = sender_here P bc" "recipient_here P bc' = recipient_here P bc"
    and "placed P bc' = placed P bc" "ledger_tx P bc' = ledger_tx P bc"
    and "exec_txs P bc' = exec_txs P bc"
proof -
  show g: "Get_PartitionMap P bc' = Get_PartitionMap P bc"
    using assms by (intro ext) (simp add: Get_PartitionMap_def same_partition_def)
  show s: "sender_here P bc' = sender_here P bc"
    using assms by (intro ext) (simp add: sender_here_def g same_partition_def)
  show r: "recipient_here P bc' = recipient_here P bc"
    using assms by (intro ext) (simp add: recipient_here_def g same_partition_def)
  show "placed P bc' = placed P bc"
    by (intro ext) (simp add: placed_def g)
  show "ledger_tx P bc' = ledger_tx P bc"
    by (intro ext) (simp add: ledger_tx_def debits_def credits_def s r)
  have e: "exec_sender P bc' = exec_sender P bc" "exec_recipient P bc' = exec_recipient P bc"
    by (intro ext, simp add: exec_sender_def exec_recipient_def s r)+
  have "exec_tx P bc' = exec_tx P bc"
    unfolding exec_tx_def e ..
  then show "exec_txs P bc' = exec_txs P bc"
    by (intro ext) (simp add: exec_txs_def)
qed

section \<open>Facts about the ledger\<close>

lemma ledger_tx_nonneg:
  assumes "0 \<le> tx_Value tx" "\<And>a. 0 \<le> m a"
  shows "0 \<le> ledger_tx P bc tx m a"
  using assms by (auto simp: ledger_tx_def Let_def)

lemma sum_upd:
  assumes "finite A" "(a :: 'a) \<in> A"
  shows "(\<Sum>x\<in>A. (m(a := v)) x) = (\<Sum>x\<in>A. m x) - m a + (v :: int)"
  using assms by (simp add: sum.remove)

lemma ledger_tx_conserves:
  assumes "finite A" "tx_Sender tx \<in> A" "tx_Recipient tx \<in> A"
    and "debits P bc tx" "credits P bc tx"
  shows "(\<Sum>a\<in>A. ledger_tx P bc tx m a) = (\<Sum>a\<in>A. m a)"
  using assms by (simp add: ledger_tx_def Let_def sum_upd del: fun_upd_apply)

lemma fold_ledger_conserves:
  assumes "finite A"
    and "\<forall>tx \<in> set txs. tx_Sender tx \<in> A \<and> tx_Recipient tx \<in> A \<and> debits P bc tx \<and> credits P bc tx"
  shows "(\<Sum>a\<in>A. fold (ledger_tx P bc) txs m a) = (\<Sum>a\<in>A. m a)"
  using assms by (induction txs arbitrary: m) (simp_all add: ledger_tx_conserves)

lemma fold_ledger_nonneg:
  assumes "\<forall>tx \<in> set txs. 0 \<le> tx_Value tx" "\<And>a. 0 \<le> m a"
  shows "0 \<le> fold (ledger_tx P bc) txs m a"
  using assms by (induction txs arbitrary: m) (simp_all add: ledger_tx_nonneg)

section \<open>Properties of block execution\<close>

text \<open>
  (C1) Refinement of the ledger. On a chain whose current state root opens to a well-formed
  account trie, executing any list of transactions whose addresses have a shard does not panic:
  it returns a 32-byte root at which the trie database now opens, and the balances found there
  are exactly those of the abstract ledger after the same transactions in the same order, the
  ones with insufficient funds skipped.
\<close>

theorem execution_refines_ledger:
  assumes "state_trie_laws L" "current_state L bc = Some st" "trie_ok st"
    and "\<forall>tx \<in> set txs. placed P bc tx"
  shows "\<exists>rt bc' st'. GetUpdateStatusTrie L P txs bc = Inr (rt, bc') \<and> length rt = 32 \<and>
    tr_Open L (bc_triedb bc') rt = Some st' \<and> trie_ok st' \<and>
    balance_of st' = fold (ledger_tx P bc) txs (balance_of st)"
  by (rule GetUpdateStatusTrie_total [OF assms])

lemma demo_current [simp]: "current_state demo_lib (demo_chain k) = Some Map.empty"
  by (simp add: current_state_def)

lemma demo_placed [simp]: "placed P (demo_chain k) (demo_tx ''a'' ''b'' v)"
  "placed P (demo_chain k) (demo_tx ''a'' ''c'' v)"
  by (simp_all add: placed_def Get_PartitionMap_def)

lemma demo_debits [simp]: "debits P (demo_chain 0) (demo_tx ''a'' r v)"
  by (simp add: debits_def sender_here_def Get_PartitionMap_def)

lemma demo_credits [simp]: "credits P (demo_chain 0) (demo_tx s ''b'' v)"
  "\<not> credits P (demo_chain 0) (demo_tx s ''c'' v)"
  by (simp_all add: credits_def recipient_here_def Get_PartitionMap_def)

theorem execution_refines_ledger_witness:
  "\<exists>rt bc' st'.
     GetUpdateStatusTrie demo_lib defaultParams [demo_tx ''a'' ''b'' 5] (demo_chain 0) = Inr (rt, bc') \<and>
     length rt = 32 \<and> tr_Open demo_lib (bc_triedb bc') rt = Some st' \<and> trie_ok st' \<and>
     balance_of st' = fold (ledger_tx defaultParams (demo_chain 0)) [demo_tx ''a'' ''b'' 5] (balance_of Map.empty)"
  by (rule execution_refines_ledger) simp_all

text \<open>
  (C17) Conservation of money inside a shard. If every transaction of a block is both debited and
  credited by this shard (its accounts live here, or it is a broker or bridge transaction), the
  total of the balances of any finite set of accounts that contains all the parties is the
  same before and after the block, whichever of the transactions had too little funds.
\<close>

theorem execution_conserves_supply:
  assumes "state_trie_laws L" "current_state L bc = Some st" "trie_ok st" "finite A"
    and "\<forall>tx \<in> set txs. placed P bc tx \<and> debits P bc tx \<and> credits P bc tx \<and>
      tx_Sender tx \<in> A \<and> tx_Recipient tx \<in> A"
  shows "\<exists>rt bc' st'. GetUpdateStatusTrie L P txs bc = Inr (rt, bc') \<and>
    tr_Open L (bc_triedb bc') rt = Some st' \<and>
    (\<Sum>a\<in>A. balance_of st' a) = (\<Sum>a\<in>A. balance_of st a)"
proof -
  have "\<forall>tx \<in> set txs. placed P bc tx" using assms(5) by blast
  from GetUpdateStatusTrie_total [OF assms(1-3) this] obtain rt bc' st' where
    "GetUpdateStatusTrie L P txs bc = Inr (rt, bc')" "tr_Open L (bc_triedb bc') rt = Some st'"
    "balance_of st' = fold (ledger_tx P bc) txs (balance_of st)"
    by blast
  then show ?thesis using fold_ledger_conserves [OF assms(4)] assms(5) by simp
qed

theorem execution_conserves_supply_witness:
  "\<exists>rt bc' st'.
     GetUpdateStatusTrie demo_lib defaultParams [demo_tx ''a'' ''b'' 5] (demo_chain 0) = Inr (rt, bc') \<and>
     tr_Open demo_lib (bc_triedb bc') rt = Some st' \<and>
     (\<Sum>a\<in>{''a'', ''b''}. balance_of st' a) = (\<Sum>a\<in>{''a'', ''b''}. balance_of Map.empty a)"
  by (rule execution_conserves_supply) simp_all

text \<open>
  No account is overdrawn. If all balances of the current state are non-negative and no
  transaction of the block has a negative value, all balances are non-negative afterwards.
\<close>

theorem execution_keeps_balances_nonneg:
  assumes "state_trie_laws L" "current_state L bc = Some st" "trie_ok st"
    and "\<forall>tx \<in> set txs. placed P bc tx \<and> 0 \<le> tx_Value tx"
    and "\<forall>a. 0 \<le> balance_of st a"
  shows "\<exists>rt bc' st'. GetUpdateStatusTrie L P txs bc = Inr (rt, bc') \<and>
    tr_Open L (bc_triedb bc') rt = Some st' \<and> (\<forall>a. 0 \<le> balance_of st' a)"
proof -
  have "\<forall>tx \<in> set txs. placed P bc tx" using assms(4) by blast
  from GetUpdateStatusTrie_total [OF assms(1-3) this] obtain rt bc' st' where
    "GetUpdateStatusTrie L P txs bc = Inr (rt, bc')" "tr_Open L (bc_triedb bc') rt = Some st'"
    "balance_of st' = fold (ledger_tx P bc) txs (balance_of st)"
    by blast
  then show ?thesis using fold_ledger_nonneg [of txs "balance_of st"] assms(4,5) by simp
qed

end
