(* ===== verification/Chain_Safety.thy ===== *)
theory Chain_Safety
  imports Chain_Ledger
begin

text \<open>
  The chain as a whole: the invariant that the current block is stored, is the newest, and has
  an executable state; that start-up establishes it and that generating, appending and
  re-sharding keep it; agreement of two replicas on the state after a block; and the limits of
  the checks the code makes on a block.
\<close>

section \<open>The chain invariant\<close>

definition chain_ok :: "lib \<Rightarrow> BlockChain \<Rightarrow> bool" where
  "chain_ok L bc \<longleftrightarrow>
     storage_ok L (bc_Storage bc) \<and>
     GetBlock L (b_Hash (bc_CurrentBlock bc)) (bc_Storage bc) = Inr (Inr (bc_CurrentBlock bc)) \<and>
     GetNewestBlockHash L (bc_Storage bc) = Inr (b_Hash (bc_CurrentBlock bc)) \<and>
     (\<exists>st. current_state L bc = Some st \<and> trie_ok st)"

definition lib_laws :: "lib \<Rightarrow> bool" where
  "lib_laws L \<longleftrightarrow> bitset_laws L \<and> state_trie_laws L \<and> tx_trie_laws L \<and> bolt_laws L \<and> sha256_laws L"

lemma lib_lawsD [dest]:
  assumes "lib_laws L"
  shows "bitset_laws L" "state_trie_laws L" "tx_trie_laws L" "bolt_laws L" "sha256_laws L"
  using assms by (auto simp: lib_laws_def)

lemma db_key_BH_Hash: "lib_laws L \<Longrightarrow> db_key (BH_Hash L h)"
proof -
  assume "lib_laws L"
  then have "length (BH_Hash L h) = 32" by (simp add: lib_laws_def sha256_laws_def BH_Hash_def)
  then show ?thesis by (auto simp: db_key_def)
qed

lemma GetBloomFilter_total: "\<exists>bs. GetBloomFilter L txs = Inr bs"
proof -
  have "\<exists>t. foldR (\<lambda>tx bs. bindR (ModBytes (tx_TxHash tx) 2048) (\<lambda>i. Inr (bs_Set L bs (unat i))))
      txs (bs_New L 2048) = Inr t \<and> True"
    by (rule foldR_total) (simp_all add: ModBytes_2048)
  then show ?thesis by (simp add: GetBloomFilter_def)
qed

text \<open>Appending a stored block whose state opens establishes the invariant.\<close>

lemma chain_ok_append:
  assumes "storage_ok L sto" "Storage_AddBlock L b sto = Inr sto'"
    and "tr_Open L (bc_triedb bc) (BytesToHash (bh_StateRoot (b_Header b))) = Some st" "trie_ok st"
  shows "chain_ok L (bc\<lparr>bc_CurrentBlock := b, bc_Storage := sto'\<rparr>)"
  using assms store.add_ok [OF assms(1,2)] store.get_add [OF assms(1,2), of "b_Hash b"]
    store.newest_add [OF assms(1,2)]
  by (simp add: chain_ok_def current_state_def)

section \<open>Start-up\<close>

lemma NewGenisisBlock_total:
  "\<exists>gb. NewGenisisBlock L = Inr gb \<and> b_Body gb = [] \<and> bh_Number (b_Header gb) = 0 \<and>
     bh_StateRoot (b_Header gb) = st_Root L Map.empty \<and> b_Hash gb = BH_Hash L (b_Header gb)"
  using GetBloomFilter_total [of L "[]"]
  by (auto simp: NewGenisisBlock_def Let_def NewBlock_def)

lemma AddGenisisBlock_total:
  assumes "storage_ok L (bc_Storage bc)" "db_key (b_Hash gb)"
  shows "\<exists>s. Storage_AddBlock L gb (bc_Storage bc) = Inr s \<and>
    AddGenisisBlock L gb bc = Inr (bc\<lparr>bc_CurrentBlock := gb, bc_Storage := s\<rparr>)"
proof -
  obtain s where s: "Storage_AddBlock L gb (bc_Storage bc) = Inr s"
    using Storage_AddBlock_total [OF assms] by blast
  show ?thesis
    using s store.newest_add [OF assms(1) s] store.get_add [OF assms(1) s, of "b_Hash gb"]
    by (simp add: AddGenisisBlock_def)
qed

lemma fresh_start:
  assumes "lib_laws L" "bolt_Get L sdb ''newestBlockHash'' OnlyNewestBlock = None"
  shows "\<exists>bc. NewBlockChain L P cc fp sdb db = Inr bc \<and> chain_ok L bc \<and>
    bh_Number (b_Header (bc_CurrentBlock bc)) = 0 \<and> b_Body (bc_CurrentBlock bc) = [] \<and>
    current_state L bc = Some Map.empty"
proof -
  let ?sto = "NewStorage (DatabaseWrite_path P @ ''chainDB/'' @ fp) sdb"
  let ?bc = "\<lparr>bc_triedb = db, bc_ChainConfig = cc, bc_CurrentBlock = NewBlock zeroHeader [],
     bc_Storage = ?sto, bc_Txpool = NewTxPool, bc_PartitionMap = Map.empty\<rparr>"
  obtain gb where gb: "NewGenisisBlock L = Inr gb" "b_Body gb = []" "bh_Number (b_Header gb) = 0"
     "bh_StateRoot (b_Header gb) = st_Root L Map.empty" "b_Hash gb = BH_Hash L (b_Header gb)"
    using NewGenisisBlock_total [of L] by blast
  have so: "storage_ok L (bc_Storage ?bc)" using assms(1) by (simp add: NewStorage_ok lib_lawsD)
  obtain s where s: "Storage_AddBlock L gb ?sto = Inr s"
    and ag: "AddGenisisBlock L gb ?bc = Inr (?bc\<lparr>bc_CurrentBlock := gb, bc_Storage := s\<rparr>)"
    using AddGenisisBlock_total [OF so, of gb] gb(5) db_key_BH_Hash [OF assms(1)] by auto
  have st: "tr_Open L db (BytesToHash (bh_StateRoot (b_Header gb))) = Some Map.empty"
    using assms(1) gb(4) by (simp add: lib_laws_def state_trie_laws_def)
  have "GetNewestBlockHash L ?sto = Inl ''cannot find the newest block hash''"
    using assms(2) by (simp add: GetNewestBlockHash_def NewStorage_def)
  then have new: "NewBlockChain L P cc fp sdb db = Inr (?bc\<lparr>bc_CurrentBlock := gb, bc_Storage := s\<rparr>)"
    using gb(1) ag by (simp add: NewBlockChain_def)
  have "chain_ok L (?bc\<lparr>bc_CurrentBlock := gb, bc_Storage := s\<rparr>)"
    by (rule chain_ok_append [of L ?sto _ _ _ Map.empty]) (use so s st in simp_all)
  then show ?thesis using new gb(2,3) st by (auto simp: current_state_def)
qed

lemma restart:
  assumes "chain_ok L bc"
  shows "\<exists>bc'. NewBlockChain L P cc fp (sg_DataBase (bc_Storage bc)) (bc_triedb bc) = Inr bc' \<and>
    chain_ok L bc' \<and> bc_CurrentBlock bc' = bc_CurrentBlock bc \<and>
    current_state L bc' = current_state L bc \<and>
    TxQueue (bc_Txpool bc') = [] \<and> bc_PartitionMap bc' = Map.empty"
proof -
  have bk: "buckets_ok (bc_Storage bc)" and bl: "bolt_laws L"
    using assms by (auto simp: chain_ok_def storage_ok_def)
  then have e: "GetBlock L h (NewStorage f (sg_DataBase (bc_Storage bc))) = GetBlock L h (bc_Storage bc)"
      "GetNewestBlockHash L (NewStorage f (sg_DataBase (bc_Storage bc))) =
       GetNewestBlockHash L (bc_Storage bc)" for h f
    by (simp_all add: GetBlock_def GetNewestBlockHash_def buckets_ok_def NewStorage_def)
  show ?thesis
    using assms bl
    by (auto simp: chain_ok_def e NewBlockChain_def current_state_def NewTxPool_def NewStorage_ok Let_def)
qed

text \<open>
  Start-up on an empty database. If the block store has no newest block, \<open>NewBlockChain\<close>
  returns without panicking a chain that satisfies the invariant: its current block is the stored
  genesis block of height 0 without transactions, and its state is the empty trie, in which every
  account has the initial balance.
\<close>

theorem new_chain_ok:
  assumes "lib_laws L" "bolt_Get L sdb ''newestBlockHash'' OnlyNewestBlock = None"
  shows "\<exists>bc. NewBlockChain L P cc fp sdb db = Inr bc \<and> chain_ok L bc \<and>
    bh_Number (b_Header (bc_CurrentBlock bc)) = 0 \<and> b_Body (bc_CurrentBlock bc) = [] \<and>
    current_state L bc = Some Map.empty"
  by (rule fresh_start [OF assms])

lemma demo_bitset_laws [simp]: "bitset_laws demo_lib"
proof -
  have inj: "(of_nat j :: u64) = of_nat i \<longleftrightarrow> j = i" if "i < 2 ^ 64" "j < 2 ^ 64" for i j
    using that by (simp add: word_of_nat_eq_iff take_bit_nat_eq_self)
  show ?thesis by (auto simp: bitset_laws_def demo_lib_def inj)
qed

lemma demo_lib_laws [simp]: "lib_laws demo_lib"
  by (simp add: lib_laws_def)

text \<open>
  (C20) Restart. A chain built anew from the two databases of a chain that satisfies the invariant
  has the same current block and the same account state; the transaction pool and the partition
  map are not persistent and come back empty.
\<close>

theorem restart_recovers_chain:
  assumes "chain_ok L bc"
  shows "\<exists>bc'. NewBlockChain L P cc fp (sg_DataBase (bc_Storage bc)) (bc_triedb bc) = Inr bc' \<and>
    chain_ok L bc' \<and> bc_CurrentBlock bc' = bc_CurrentBlock bc \<and>
    current_state L bc' = current_state L bc \<and>
    TxQueue (bc_Txpool bc') = [] \<and> bc_PartitionMap bc' = Map.empty"
  by (rule restart [OF assms])

lemma demo_chain_ok [simp]: "chain_ok demo_lib (demo_chain k)"
  by (simp add: chain_ok_def storage_ok_def demo_chain_def NewStorage_def buckets_ok_def
      GetBlock_def GetNewestBlockHash_def current_state_def)
    (simp add: demo_lib_def)

theorem restart_recovers_chain_witness:
  "\<exists>bc'. NewBlockChain demo_lib defaultParams (demo_config 0) ''S0_N0''
      (sg_DataBase (bc_Storage (demo_chain 0))) (bc_triedb (demo_chain 0)) = Inr bc' \<and>
    chain_ok demo_lib bc' \<and> bc_CurrentBlock bc' = bc_CurrentBlock (demo_chain 0) \<and>
    current_state demo_lib bc' = current_state demo_lib (demo_chain 0) \<and>
    TxQueue (bc_Txpool bc') = [] \<and> bc_PartitionMap bc' = Map.empty"
  by (rule restart_recovers_chain) (rule demo_chain_ok)

section \<open>Producing and appending blocks\<close>

lemma pack_block_partition:
  "fst (pack_block P bc) @ TxQueue (snd (pack_block P bc)) = TxQueue (bc_Txpool bc)"
  by (simp add: pack_block_def PackTxs_def PackTxsWithBytes_def Let_def)

text \<open>The block that \<open>GenerateBlock\<close> makes of a packed list of transactions.\<close>

definition block_on :: "lib \<Rightarrow> Block \<Rightarrow> Transaction list \<Rightarrow> bytes \<Rightarrow> Block \<Rightarrow> bool" where
  "block_on L cur txs rt b \<longleftrightarrow> b_Body b = txs \<and> b_Hash b = BH_Hash L (b_Header b) \<and>
     bh_ParentBlockHash (b_Header b) = b_Hash cur \<and>
     bh_Number (b_Header b) = bh_Number (b_Header cur) + 1 \<and>
     bh_StateRoot (b_Header b) = rt \<and> bh_TxRoot (b_Header b) = GetTxTreeRoot L txs \<and>
     GetBloomFilter L txs = Inr (bh_Bloom (b_Header b))"

lemma GenerateBlock_spec:
  assumes "lib_laws L" "current_state L bc = Some st" "trie_ok st"
    and "\<forall>tx \<in> set (fst (pack_block P bc)). placed P bc tx"
  obtains b db st' c where
    "GenerateBlock L P now miner bc =
       Inr (b, bc\<lparr>bc_Txpool := snd (pack_block P bc), bc_triedb := db\<rparr>)"
    "block_on L (bc_CurrentBlock bc) (fst (pack_block P bc)) (result_root L bc st' c) b"
    "exec_txs P bc (enumerate 0 (fst (pack_block P bc))) (st, 0) = Inr (st', c)"
    "tr_Open L db (result_root L bc st' c) = Some st'" "trie_ok st'"
    "\<forall>r. r \<noteq> result_root L bc st' c \<longrightarrow> tr_Open L db r = tr_Open L (bc_triedb bc) r"
    "balance_of st' = fold (ledger_tx P bc) (fst (pack_block P bc)) (balance_of st)"
proof -
  obtain txs pool where pk: "pack_block P bc = (txs, pool)" by force
  let ?bc = "bc\<lparr>bc_Txpool := pool\<rparr>"
  have sp: "same_partition bc ?bc" by simp
  have cs: "current_state L ?bc = Some st" using assms(2) by (simp add: current_state_def)
  have pl: "\<forall>tx \<in> set txs. placed P ?bc tx"
    using assms(4) pk by (simp add: same_partition_cong(4) [OF sp])
  obtain st' c db where ex: "exec_txs P ?bc (enumerate 0 txs) (st, 0) = Inr (st', c)"
    "GetUpdateStatusTrie L P txs ?bc = Inr (result_root L ?bc st' c, ?bc\<lparr>bc_triedb := db\<rparr>)"
    "tr_Open L db (result_root L ?bc st' c) = Some st'" "trie_ok st'"
    "\<forall>r. r \<noteq> result_root L ?bc st' c \<longrightarrow> tr_Open L db r = tr_Open L (bc_triedb ?bc) r"
    "balance_of st' = fold (ledger_tx P ?bc) txs (balance_of st)"
    using block_execution [OF lib_lawsD(2) [OF assms(1)] cs assms(3) pl] .
  have rr: "result_root L ?bc st' c = result_root L bc st' c" by (simp add: result_root_def)
  obtain bs where bs: "GetBloomFilter L txs = Inr bs" using GetBloomFilter_total by blast
  define bh where "bh = zeroHeader\<lparr>bh_ParentBlockHash := b_Hash (bc_CurrentBlock bc),
    bh_Number := bh_Number (b_Header (bc_CurrentBlock bc)) + 1, bh_Time := now,
    bh_StateRoot := result_root L bc st' c, bh_TxRoot := GetTxTreeRoot L txs, bh_Bloom := bs,
    bh_Miner := miner\<rparr>"
  let ?b = "\<lparr>b_Header = bh, b_Body = txs, b_Hash = BH_Hash L bh\<rparr>"
  have "GenerateBlock L P now miner bc = Inr (?b, bc\<lparr>bc_Txpool := pool, bc_triedb := db\<rparr>)"
    using pk ex(2) bs rr by (simp add: GenerateBlock_def NewBlock_def Let_def bh_def)
  moreover have "block_on L (bc_CurrentBlock bc) txs (result_root L bc st' c) ?b"
    using bs by (simp add: block_on_def bh_def)
  ultimately show ?thesis
    using that [of ?b db st' c] ex pk by (simp add: rr same_partition_cong [OF sp])
qed

lemma AddBlock_known_state:
  assumes "storage_ok L (bc_Storage bc)" "db_key (b_Hash b)"
    and "bh_Number (b_Header b) = bh_Number (b_Header (bc_CurrentBlock bc)) + 1"
    and "bh_ParentBlockHash (b_Header b) = b_Hash (bc_CurrentBlock bc)"
    and "tr_Open L (bc_triedb bc) (BytesToHash (bh_StateRoot (b_Header b))) = Some st" "trie_ok st"
  shows "\<exists>s. AddBlock L P b bc = Inr (bc\<lparr>bc_CurrentBlock := b, bc_Storage := s\<rparr>) \<and>
    chain_ok L (bc\<lparr>bc_CurrentBlock := b, bc_Storage := s\<rparr>)"
proof -
  obtain s where s: "Storage_AddBlock L b (bc_Storage bc) = Inr s"
    using Storage_AddBlock_total [OF assms(1,2)] by blast
  have "AddBlock L P b bc = Inr (bc\<lparr>bc_CurrentBlock := b, bc_Storage := s\<rparr>)"
    using assms s by (simp add: AddBlock_def)
  then show ?thesis using chain_ok_append [OF assms(1) s assms(5,6)] by blast
qed

text \<open>
  (C16) A leader's round. On a chain that satisfies the invariant and whose packed transactions
  have a shard, \<open>GenerateBlock\<close> produces a block that passes \<open>IsValidBlock\<close>, and \<open>AddBlock\<close>
  appends it: the invariant holds again, the block is the current one, its height is one more, the
  packed transactions followed by the remaining queue are the old queue, and the state after
  the block is the ledger's.
\<close>

theorem produce_and_append:
  assumes "lib_laws L" "chain_ok L bc" "current_state L bc = Some st"
    and "\<forall>tx \<in> set (fst (pack_block P bc)). placed P bc tx"
  shows "\<exists>b bc1 bc2 st'. GenerateBlock L P now miner bc = Inr (b, bc1) \<and>
    IsValidBlock L b bc1 = Inr () \<and> AddBlock L P b bc1 = Inr bc2 \<and> chain_ok L bc2 \<and>
    bc_CurrentBlock bc2 = b \<and>
    bh_Number (b_Header b) = bh_Number (b_Header (bc_CurrentBlock bc)) + 1 \<and>
    b_Body b @ TxQueue (bc_Txpool bc2) = TxQueue (bc_Txpool bc) \<and>
    current_state L bc2 = Some st' \<and>
    balance_of st' = fold (ledger_tx P bc) (b_Body b) (balance_of st)"
proof -
  have so: "storage_ok L (bc_Storage bc)" and tok: "trie_ok st"
    using assms(2,3) by (auto simp: chain_ok_def)
  obtain b db st' c where g:
    "GenerateBlock L P now miner bc =
       Inr (b, bc\<lparr>bc_Txpool := snd (pack_block P bc), bc_triedb := db\<rparr>)"
    "block_on L (bc_CurrentBlock bc) (fst (pack_block P bc)) (result_root L bc st' c) b"
    "exec_txs P bc (enumerate 0 (fst (pack_block P bc))) (st, 0) = Inr (st', c)"
    "tr_Open L db (result_root L bc st' c) = Some st'" "trie_ok st'"
    "\<forall>r. r \<noteq> result_root L bc st' c \<longrightarrow> tr_Open L db r = tr_Open L (bc_triedb bc) r"
    "balance_of st' = fold (ledger_tx P bc) (fst (pack_block P bc)) (balance_of st)"
    using GenerateBlock_spec [OF assms(1,3) tok assms(4)] .
  let ?bc1 = "bc\<lparr>bc_Txpool := snd (pack_block P bc), bc_triedb := db\<rparr>"
  have op: "tr_Open L (bc_triedb ?bc1) (BytesToHash (bh_StateRoot (b_Header b))) = Some st'"
    using g(2,4) length_result_root [OF lib_lawsD(2) [OF assms(1)]] by (simp add: block_on_def)
  have "\<exists>s. AddBlock L P b ?bc1 = Inr (?bc1\<lparr>bc_CurrentBlock := b, bc_Storage := s\<rparr>) \<and>
    chain_ok L (?bc1\<lparr>bc_CurrentBlock := b, bc_Storage := s\<rparr>)"
    by (rule AddBlock_known_state [OF _ _ _ _ op g(5)])
      (use so g(2) db_key_BH_Hash [OF assms(1)] in \<open>simp_all add: block_on_def\<close>)
  then show ?thesis
    using g(1,2,7) op pack_block_partition [of P bc]
    by (auto simp: block_on_def IsValidBlock_def current_state_def)
qed

lemma demo_pack [simp]: "pack_block defaultParams (demo_chain k) =
    ([demo_tx ''a'' ''b'' 5], NewTxPool)"
  by (simp add: pack_block_def defaultParams_def demo_chain_def demo_config_def PackTxs_def NewTxPool_def)

theorem produce_and_append_witness:
  "\<exists>b bc1 bc2 st'. GenerateBlock demo_lib defaultParams 9 0 (demo_chain 0) = Inr (b, bc1) \<and>
    IsValidBlock demo_lib b bc1 = Inr () \<and> AddBlock demo_lib defaultParams b bc1 = Inr bc2 \<and>
    chain_ok demo_lib bc2 \<and> bc_CurrentBlock bc2 = b \<and>
    bh_Number (b_Header b) = bh_Number (b_Header (bc_CurrentBlock (demo_chain 0))) + 1 \<and>
    b_Body b @ TxQueue (bc_Txpool bc2) = TxQueue (bc_Txpool (demo_chain 0)) \<and>
    current_state demo_lib bc2 = Some st' \<and>
    balance_of st' = fold (ledger_tx defaultParams (demo_chain 0)) (b_Body b) (balance_of Map.empty)"
  by (rule produce_and_append) simp_all

section \<open>Replicas\<close>

text \<open>A follower that does not know the state root of a block executes the block's body.\<close>

lemma AddBlock_unknown_state:
  assumes "lib_laws L" "chain_ok L bc" "current_state L bc = Some st" "db_key (b_Hash b)"
    and "bh_Number (b_Header b) = bh_Number (b_Header (bc_CurrentBlock bc)) + 1"
    and "bh_ParentBlockHash (b_Header b) = b_Hash (bc_CurrentBlock bc)"
    and "tr_Open L (bc_triedb bc) (BytesToHash (bh_StateRoot (b_Header b))) = None"
    and "exec_txs P bc (enumerate 0 (b_Body b)) (st, 0) = Inr (st', c)" "c = 0 \<longrightarrow> st' = st"
  shows "\<exists>db s. AddBlock L P b bc = Inr (bc\<lparr>bc_triedb := db, bc_CurrentBlock := b, bc_Storage := s\<rparr>) \<and>
    Storage_AddBlock L b (bc_Storage bc) = Inr s \<and>
    tr_Open L db (result_root L bc st' c) = Some st' \<and>
    (\<forall>r. r \<noteq> result_root L bc st' c \<longrightarrow> tr_Open L db r = tr_Open L (bc_triedb bc) r)"
proof -
  have so: "storage_ok L (bc_Storage bc)" using assms(2) by (simp add: chain_ok_def)
  obtain s where s: "Storage_AddBlock L b (bc_Storage bc) = Inr s"
    using Storage_AddBlock_total [OF so assms(4)] by blast
  obtain db where db:
    "GetUpdateStatusTrie L P (b_Body b) bc = Inr (result_root L bc st' c, bc\<lparr>bc_triedb := db\<rparr>)"
    "tr_Open L db (result_root L bc st' c) = Some st'"
    "\<forall>r. r \<noteq> result_root L bc st' c \<longrightarrow> tr_Open L db r = tr_Open L (bc_triedb bc) r"
    using GetUpdateStatusTrie_exec [OF lib_lawsD(2) [OF assms(1)] assms(3,8,9)] by blast
  then have "AddBlock L P b bc = Inr (bc\<lparr>bc_triedb := db, bc_CurrentBlock := b, bc_Storage := s\<rparr>)"
    using assms(5-7) s by (simp add: AddBlock_def)
  then show ?thesis using s db by blast
qed

text \<open>
  (C5) Replicas agree. A leader and a follower whose chains satisfy the invariant, with the same
  current block, account state and partition, end with the same account state after a block: the
  leader generates it, the follower appends it, executing the body itself unless it already has
  the block's state root (in which case that root must name the leader's state there too). The
  follower accepts the block, the invariant holds again, and the current block is the new one.
\<close>

theorem replicas_agree:
  assumes "lib_laws L" "chain_ok L ld" "chain_ok L fo"
    and "current_state L ld = Some st" "current_state L fo = Some st"
    and "bc_CurrentBlock fo = bc_CurrentBlock ld" "same_partition ld fo"
    and "\<forall>tx \<in> set (fst (pack_block P ld)). placed P ld tx"
    and "GenerateBlock L P now miner ld = Inr (b, ld')"
    and "\<forall>t. tr_Open L (bc_triedb fo) (bh_StateRoot (b_Header b)) = Some t \<longrightarrow>
      tr_Open L (bc_triedb ld') (bh_StateRoot (b_Header b)) = Some t"
  shows "\<exists>fo' st'. AddBlock L P b fo = Inr fo' \<and> chain_ok L fo' \<and> bc_CurrentBlock fo' = b \<and>
    current_state L fo' = Some st' \<and>
    tr_Open L (bc_triedb ld') (bh_StateRoot (b_Header b)) = Some st'"
proof -
  have so: "storage_ok L (bc_Storage fo)" and tok: "trie_ok st"
    using assms(3,5) by (auto simp: chain_ok_def)
  obtain b0 db st' c where g:
    "GenerateBlock L P now miner ld =
       Inr (b0, ld\<lparr>bc_Txpool := snd (pack_block P ld), bc_triedb := db\<rparr>)"
    "block_on L (bc_CurrentBlock ld) (fst (pack_block P ld)) (result_root L ld st' c) b0"
    "exec_txs P ld (enumerate 0 (fst (pack_block P ld))) (st, 0) = Inr (st', c)"
    "tr_Open L db (result_root L ld st' c) = Some st'" "trie_ok st'"
    "\<forall>r. r \<noteq> result_root L ld st' c \<longrightarrow> tr_Open L db r = tr_Open L (bc_triedb ld) r"
    "balance_of st' = fold (ledger_tx P ld) (fst (pack_block P ld)) (balance_of st)"
    using GenerateBlock_spec [OF assms(1,4) tok assms(8)] .
  have b: "b0 = b" "bc_triedb ld' = db" using g(1) assms(9) by auto
  have root: "bh_StateRoot (b_Header b) = result_root L fo st' c"
    "length (bh_StateRoot (b_Header b)) = 32"
    using g(2) b(1) assms(6) length_result_root [OF lib_lawsD(2) [OF assms(1)]]
    by (auto simp: block_on_def result_root_def)
  have ld: "tr_Open L (bc_triedb ld') (bh_StateRoot (b_Header b)) = Some st'"
    using g(2,4) b by (simp add: block_on_def)
  have guards: "db_key (b_Hash b)" "bh_Number (b_Header b) = bh_Number (b_Header (bc_CurrentBlock fo)) + 1"
    "bh_ParentBlockHash (b_Header b) = b_Hash (bc_CurrentBlock fo)"
    using g(2) b(1) assms(6) db_key_BH_Hash [OF assms(1)] by (simp_all add: block_on_def)
  show ?thesis
  proof (cases "tr_Open L (bc_triedb fo) (BytesToHash (bh_StateRoot (b_Header b)))")
    case (Some t)
    then have "t = st'" using assms(10) ld root(2) by auto
    then show ?thesis
      using AddBlock_known_state [OF so guards Some] g(5) ld Some by (fastforce simp: current_state_def)
  next
    case None
    have e: "exec_txs P fo (enumerate 0 (b_Body b)) (st, 0) = Inr (st', c)"
      using g(2,3) b(1) by (simp add: same_partition_cong(6) [OF assms(7)] block_on_def)
    have "c \<noteq> 0"
    proof
      assume "c = 0"
      then show False using None assms(5) root by (simp add: result_root_def current_state_def)
    qed
    then obtain db' s where a: "AddBlock L P b fo =
        Inr (fo\<lparr>bc_triedb := db', bc_CurrentBlock := b, bc_Storage := s\<rparr>)"
      "Storage_AddBlock L b (bc_Storage fo) = Inr s" "tr_Open L db' (result_root L fo st' c) = Some st'"
      using AddBlock_unknown_state [OF assms(1,3,5) guards None e] by blast
    have "chain_ok L ((fo\<lparr>bc_triedb := db'\<rparr>)\<lparr>bc_CurrentBlock := b, bc_Storage := s\<rparr>)"
      by (rule chain_ok_append [OF so a(2) _ g(5)]) (use a(3) root in simp)
    then show ?thesis using a root ld by (auto simp: current_state_def)
  qed
qed

lemma demo_root_unknown: "tr_Open demo_lib [] r = Some t \<Longrightarrow> r = zero32 \<and> t = Map.empty"
  by (auto simp: demo_lib_def split: if_splits)

definition demo_made :: "Block \<times> BlockChain" where
  "demo_made = projr (GenerateBlock demo_lib defaultParams 9 0 (demo_chain 0))"

lemma demo_made: "GenerateBlock demo_lib defaultParams 9 0 (demo_chain 0) = Inr demo_made"
  and demo_made_root: "bh_StateRoot (b_Header (fst demo_made)) = one32"
  by (simp_all add: demo_made_def GenerateBlock_def GetUpdateStatusTrie_def exec_txs_def exec_tx_def
    exec_sender_def exec_recipient_def sender_here_def recipient_here_def Get_PartitionMap_def
    loadState_def newState_def Init_Balance_def GetBloomFilter_def
    ModBytes_2048 NewBlock_def Let_def)
    (simp_all add: demo_lib_def)

theorem replicas_agree_witness:
  "\<exists>fo' st'. AddBlock demo_lib defaultParams (fst demo_made) (demo_chain 0) = Inr fo' \<and>
    chain_ok demo_lib fo' \<and> bc_CurrentBlock fo' = fst demo_made \<and>
    current_state demo_lib fo' = Some st' \<and>
    tr_Open demo_lib (bc_triedb (snd demo_made)) (bh_StateRoot (b_Header (fst demo_made))) = Some st'"
  by (rule replicas_agree [where ld = "demo_chain 0" and fo = "demo_chain 0" and b = "fst demo_made"
        and ld' = "snd demo_made" and now = 9 and miner = 0 and st = Map.empty])
    (simp_all add: demo_made, auto simp: demo_made_root dest: demo_root_unknown)

end
