(* ===== verification/Merkle_Proof.thy ===== *)
theory Merkle_Proof
  imports Chain_Safety
begin

text \<open>
  Merkle proofs of transactions (\<open>chain/merkleproof.go\<close>): generation for one transaction on a
  block, for a batch on a block, by a walk down the chain, and verification. A proof's
  database is the list of its entries in the order in which the iterator yields them.
\<close>

section \<open>Operations\<close>

record TxProofResult =
  pr_Found :: bool
  pr_BlockHash :: bytes
  pr_TxHash :: bytes
  pr_TxRoot :: bytes
  pr_BlockHeight :: u64
  pr_KeyList :: "bytes list"
  pr_ValueList :: "bytes list"
  pr_Error :: string

definition digit_char :: "nat \<Rightarrow> char" where
  "digit_char d = char_of (d + 48 :: nat)"

fun show_nat :: "nat \<Rightarrow> string" where
  "show_nat n = (if n < 10 then [digit_char n] else show_nat (n div 10) @ [digit_char (n mod 10)])"

declare show_nat.simps [simp del]

definition notFound :: "bytes \<Rightarrow> string \<Rightarrow> TxProofResult" where
  "notFound txHash err =
     \<lparr>pr_Found = False, pr_BlockHash = [], pr_TxHash = txHash, pr_TxRoot = [], pr_BlockHeight = 0,
      pr_KeyList = [], pr_ValueList = [], pr_Error = err\<rparr>"

definition found :: "bytes \<Rightarrow> Block \<Rightarrow> (bytes \<times> bytes) list \<Rightarrow> TxProofResult" where
  "found txHash block proof =
     \<lparr>pr_Found = True, pr_BlockHash = b_Hash block, pr_TxHash = txHash,
      pr_TxRoot = bh_TxRoot (b_Header block), pr_BlockHeight = bh_Number (b_Header block),
      pr_KeyList = map fst proof, pr_ValueList = map snd proof, pr_Error = ''''\<rparr>"

definition TxProofGenerateOnTheBlock :: "lib \<Rightarrow> bytes \<Rightarrow> Block \<Rightarrow> TxProofResult res" where
  "TxProofGenerateOnTheBlock L txHash block =
     bindR (ModBytes txHash 2048) (\<lambda>bitMapIdxofTx.
       if \<not> bs_Test L (bh_Bloom (b_Header block)) (unat bitMapIdxofTx)
       then Inr (notFound txHash ''cannot find this tx'')
       else let keys = map tx_TxHash (b_Body block); txExist = (txHash \<in> set keys) in
         if \<not> txExist
         then Inr (notFound txHash (''this tx cannot be found in this block (height='' @
                show_nat (unat (bh_Number (b_Header block))) @ '')''))
         else if tt_Root L keys \<noteq> bh_TxRoot (b_Header block)
         then Inr (notFound txHash (''tx root mismatch in height '' @
                show_nat (unat (bh_Number (b_Header block)))))
         else case tt_Prove L keys txHash of
             Some proof \<Rightarrow> Inr (found txHash block proof)
           | None \<Rightarrow> Inr (notFound txHash ''cannot find this tx''))"

text \<open>The loop of \<open>TxProofGenerate\<close>, on the height that it counts down.\<close>

fun proof_walk :: "lib \<Rightarrow> bytes \<Rightarrow> Storage \<Rightarrow> nat \<Rightarrow> bytes \<Rightarrow> TxProofResult res" where
  "proof_walk L txHash s 0 nowblockHash = Inr (notFound txHash ''cannot find this tx'')"
| "proof_walk L txHash s (Suc n) nowblockHash =
     bindR (GetBlock L nowblockHash s) (\<lambda>r.
       case r of
         Inl err1 \<Rightarrow> Inr (notFound txHash err1)
       | Inr block \<Rightarrow> bindR (TxProofGenerateOnTheBlock L txHash block) (\<lambda>ret.
           if pr_Found ret then Inr ret
           else proof_walk L txHash s n (bh_ParentBlockHash (b_Header block))))"

definition TxProofGenerate :: "lib \<Rightarrow> bytes \<Rightarrow> BlockChain \<Rightarrow> TxProofResult res" where
  "TxProofGenerate L txHash bc =
     proof_walk L txHash (bc_Storage bc) (unat (bh_Number (b_Header (bc_CurrentBlock bc))))
       (b_Hash (bc_CurrentBlock bc))"

definition batch_one :: "lib \<Rightarrow> Block \<Rightarrow> bytes \<Rightarrow> TxProofResult res" where
  "batch_one L block txHash =
     bindR (ModBytes txHash 2048) (\<lambda>bitMapIdxofTx.
       if \<not> bs_Test L (bh_Bloom (b_Header block)) (unat bitMapIdxofTx)
       then Inr (notFound txHash ''cannot find this tx'')
       else case tt_Prove L (map tx_TxHash (b_Body block)) txHash of
           Some proof \<Rightarrow> Inr (found txHash block proof)
         | None \<Rightarrow> Inr (notFound txHash ''cannot find this tx''))"

definition TxProofBatchGenerateOnBlock ::
  "lib \<Rightarrow> bytes list \<Rightarrow> Block \<Rightarrow> TxProofResult list res" where
  "TxProofBatchGenerateOnBlock L txHashes block =
     (if tt_Root L (map tx_TxHash (b_Body block)) \<noteq> bh_TxRoot (b_Header block)
      then Inr (map (\<lambda>txHash. notFound txHash (''tx root mismatch in height '' @
             show_nat (unat (bh_Number (b_Header block))))) txHashes)
      else foldR (\<lambda>txHash txProofs. bindR (batch_one L block txHash) (\<lambda>p. Inr (txProofs @ [p])))
             txHashes [])"

text \<open>
  \<open>listLen\<close> is the number of keys; a shorter list of values is an index out of range. The
  first argument is not used, as in the source.
\<close>

definition TxProofVerify :: "lib \<Rightarrow> bytes \<Rightarrow> TxProofResult \<Rightarrow> (bool \<times> string option) res" where
  "TxProofVerify L txHash proof =
     (if \<not> pr_Found proof then Inr (False, Some ''the result shows not found'')
      else if length (pr_ValueList proof) < length (pr_KeyList proof) then Inl IndexOutOfRange
      else case tt_Verify L (BytesToHash (pr_TxRoot proof)) (pr_TxHash proof)
                  (zip (pr_KeyList proof) (pr_ValueList proof)) of
          None \<Rightarrow> Inr (False, Some ''wrong proof'')
        | Some _ \<Rightarrow> Inr (True, None))"

section \<open>Bloom filter\<close>

text \<open>The position of a hash in the filter.\<close>

definition bloom_index :: "bytes \<Rightarrow> nat" where
  "bloom_index h = SetBytes h mod 2048"

lemma ModBytes_index: "\<exists>i. ModBytes h 2048 = Inr i \<and> unat i = bloom_index h"
  unfolding ModBytes_2048 bloom_index_def
  by (intro exI [of _ "of_nat (SetBytes h mod 2048)"]) (simp add: unat_of_nat)

lemma bloom_index_less: "bloom_index h < 2 ^ 32"
  unfolding bloom_index_def by (rule less_trans [of _ 2048]) simp_all

lemma bloom_fold:
  assumes "bitset_laws L"
    and "foldR (\<lambda>tx bs. bindR (ModBytes (tx_TxHash tx) 2048) (\<lambda>i. Inr (bs_Set L bs (unat i)))) txs bs0 = Inr bs"
  shows "bs_Test L bs (bloom_index h) \<longleftrightarrow>
    bs_Test L bs0 (bloom_index h) \<or> (\<exists>tx \<in> set txs. bloom_index (tx_TxHash tx) = bloom_index h)"
  using assms(2)
proof (induction txs arbitrary: bs0)
  case Nil
  then show ?case by simp
next
  case (Cons tx txs)
  obtain i where i: "ModBytes (tx_TxHash tx) 2048 = Inr i" "unat i = bloom_index (tx_TxHash tx)"
    using ModBytes_index by blast
  then show ?case
    using Cons.IH [of "bs_Set L bs0 (unat i)"] Cons.prems
      bitset_lawsD(2) [OF assms(1) bloom_index_less bloom_index_less] by auto
qed

lemma bloom_exact:
  assumes "bitset_laws L" "GetBloomFilter L txs = Inr bs"
  shows "bs_Test L bs (bloom_index h) \<longleftrightarrow> (\<exists>tx \<in> set txs. bloom_index (tx_TxHash tx) = bloom_index h)"
  using bloom_fold [OF assms(1), of txs "bs_New L 2048" bs h] assms bitset_lawsD(1) [OF assms(1)]
  by (simp add: GetBloomFilter_def)

section \<open>Proofs on one block\<close>

text \<open>A block whose header commits to its body.\<close>

definition sealed :: "lib \<Rightarrow> Block \<Rightarrow> bool" where
  "sealed L b \<longleftrightarrow> bh_TxRoot (b_Header b) = GetTxTreeRoot L (b_Body b) \<and>
     GetBloomFilter L (b_Body b) = Inr (bh_Bloom (b_Header b))"

definition body_hashes :: "Block \<Rightarrow> bytes set" where
  "body_hashes b = tx_TxHash ` set (b_Body b)"

lemma proof_on_block:
  assumes "bitset_laws L" "tx_trie_laws L" "sealed L b" "h \<in> body_hashes b"
  obtains pf where "tt_Prove L (map tx_TxHash (b_Body b)) h = Some pf"
    "TxProofGenerateOnTheBlock L h b = Inr (found h b pf)"
    "batch_one L b h = Inr (found h b pf)"
    "TxProofVerify L h' (found h b pf) = Inr (True, None)"
proof -
  let ?ks = "map tx_TxHash (b_Body b)"
  obtain pf where p: "tt_Prove L ?ks h = Some pf"
    "tt_Verify L (tt_Root L ?ks) h pf = (if h \<in> set ?ks then Some [0] else None)"
    using assms(2) unfolding tx_trie_laws_def by blast
  have root: "bh_TxRoot (b_Header b) = tt_Root L ?ks" "length (bh_TxRoot (b_Header b)) = 32"
    using assms(2,3) by (simp_all add: sealed_def GetTxTreeRoot_def tx_trie_laws_def)
  obtain i where i: "ModBytes h 2048 = Inr i" "unat i = bloom_index h" using ModBytes_index by blast
  have "bs_Test L (bh_Bloom (b_Header b)) (bloom_index h)"
    using bloom_exact [OF assms(1)] assms(3,4) by (auto simp: sealed_def body_hashes_def)
  then show ?thesis
    using that [OF p(1)] p root i assms(4)
    by (simp add: TxProofGenerateOnTheBlock_def batch_one_def TxProofVerify_def found_def
        body_hashes_def zip_map_fst_snd)
qed

lemma single_not_found:
  assumes "h \<notin> body_hashes b"
  shows "\<exists>r. TxProofGenerateOnTheBlock L h b = Inr r \<and> \<not> pr_Found r \<and> pr_TxHash r = h"
proof -
  obtain i where "ModBytes h 2048 = Inr i" using ModBytes_index by blast
  then show ?thesis using assms
    by (auto simp: TxProofGenerateOnTheBlock_def notFound_def body_hashes_def Let_def)
qed

text \<open>
  Completeness of Merkle proofs. For a block whose header carries the transaction root and the
  bloom filter of its body, the proof generated for any transaction of the body says it was
  found, in that block and under that root, and passes \<open>TxProofVerify\<close>; for a hash that is not
  in the body nothing is found and verification fails.
\<close>

theorem generated_proof_verifies:
  assumes "bitset_laws L" "tx_trie_laws L" "sealed L b"
  shows "\<exists>r. TxProofGenerateOnTheBlock L h b = Inr r \<and> pr_TxHash r = h \<and>
    pr_Found r = (h \<in> body_hashes b) \<and>
    (h \<in> body_hashes b \<longrightarrow> pr_BlockHash r = b_Hash b \<and> pr_TxRoot r = GetTxTreeRoot L (b_Body b) \<and>
       pr_BlockHeight r = bh_Number (b_Header b)) \<and>
    TxProofVerify L h r = Inr (if h \<in> body_hashes b then (True, None)
      else (False, Some ''the result shows not found''))"
proof (cases "h \<in> body_hashes b")
  case True
  obtain pf where "TxProofGenerateOnTheBlock L h b = Inr (found h b pf)"
    "TxProofVerify L h (found h b pf) = Inr (True, None)"
    using proof_on_block [OF assms True] by metis
  then show ?thesis using True assms(3) by (simp add: found_def sealed_def)
next
  case False
  then show ?thesis using single_not_found [OF False, of L] by (auto simp: TxProofVerify_def)
qed

definition demo_block :: Block where
  "demo_block = \<lparr>b_Header = zeroHeader\<lparr>bh_TxRoot := one32, bh_Bloom := [7]\<rparr>,
     b_Body = [demo_tx ''a'' ''b'' 5], b_Hash = [1]\<rparr>"

lemma demo_sealed [simp]: "sealed demo_lib demo_block"
  by (simp add: sealed_def demo_block_def GetTxTreeRoot_def GetBloomFilter_def ModBytes_2048 SetBytes_def)
    (simp add: demo_lib_def)

lemma demo_body_hashes [simp]: "body_hashes demo_block = {[7]}"
  by (simp add: body_hashes_def demo_block_def)

text \<open>
  Soundness of verification. If a proof that claims the transaction root of some list of
  hashes passes \<open>TxProofVerify\<close>, the hash inside the proof is one of them, provided the
  tries' hash function admits no forged proof against that root.
\<close>

theorem verified_proof_sound:
  assumes "tx_trie_laws L" "tx_trie_sound L ks" "pr_TxRoot r = tt_Root L ks"
    and "TxProofVerify L h r = Inr (True, e)"
  shows "pr_TxHash r \<in> set ks"
proof -
  have "BytesToHash (pr_TxRoot r) = tt_Root L ks"
    using assms(1,3) by (simp add: tx_trie_laws_def)
  then show ?thesis
    using assms(2,4) unfolding tx_trie_sound_def TxProofVerify_def
    by (auto split: if_splits option.splits)
qed

section \<open>Batches\<close>

lemma batch_fold:
  assumes "\<forall>h \<in> set hs. batch_one L b h = Inr (f h)"
  shows "foldR (\<lambda>txHash txProofs. bindR (batch_one L b txHash) (\<lambda>p. Inr (txProofs @ [p]))) hs acc =
    Inr (acc @ map f hs)"
  using assms by (induction hs arbitrary: acc) simp_all

text \<open>
  The batch generator agrees with the single one. For a block whose header commits to its
  body and a batch of hashes of its transactions, \<open>TxProofBatchGenerateOnBlock\<close> returns, in
  order, exactly the proofs that \<open>TxProofGenerateOnTheBlock\<close> returns one by one.
\<close>

theorem batch_equals_single:
  assumes "bitset_laws L" "tx_trie_laws L" "sealed L b" "set hs \<subseteq> body_hashes b"
  shows "\<exists>rs. TxProofBatchGenerateOnBlock L hs b = Inr rs \<and>
    map Inr rs = map (\<lambda>h. TxProofGenerateOnTheBlock L h b) hs"
proof -
  define f where "f h = projr (TxProofGenerateOnTheBlock L h b)" for h
  have f: "TxProofGenerateOnTheBlock L h b = Inr (f h) \<and> batch_one L b h = Inr (f h)"
    if "h \<in> set hs" for h
  proof -
    have "h \<in> body_hashes b" using that assms(4) by blast
    then obtain pf where "TxProofGenerateOnTheBlock L h b = Inr (found h b pf)"
      "batch_one L b h = Inr (found h b pf)"
      using proof_on_block [OF assms(1-3)] by metis
    then show ?thesis by (simp add: f_def)
  qed
  have "TxProofBatchGenerateOnBlock L hs b = Inr (map f hs)"
    using batch_fold [of hs L b f "[]"] f assms(3)
    by (simp add: TxProofBatchGenerateOnBlock_def sealed_def GetTxTreeRoot_def)
  then show ?thesis using f by simp
qed

text \<open>
  (C29) The batch generator does not look for the transaction in the body. A hash that is not in
  the block but falls on a bit of the bloom filter gets a result that claims it was found, with
  what is a proof of absence; \<open>TxProofVerify\<close> rejects it. The single generator answers that
  it is not found.
\<close>

theorem batch_false_positive:
  assumes "bitset_laws L" "tx_trie_laws L" "sealed L b" "h \<notin> body_hashes b"
    and "\<exists>h' \<in> body_hashes b. bloom_index h' = bloom_index h"
  shows "\<exists>r r'. TxProofBatchGenerateOnBlock L [h] b = Inr [r] \<and> pr_Found r \<and>
    TxProofVerify L h r = Inr (False, Some ''wrong proof'') \<and>
    TxProofGenerateOnTheBlock L h b = Inr r' \<and> \<not> pr_Found r'"
proof -
  let ?ks = "map tx_TxHash (b_Body b)"
  obtain pf where p: "tt_Prove L ?ks h = Some pf"
    "tt_Verify L (tt_Root L ?ks) h pf = (if h \<in> set ?ks then Some [0] else None)"
    using assms(2) unfolding tx_trie_laws_def by blast
  obtain i where i: "ModBytes h 2048 = Inr i" "unat i = bloom_index h" using ModBytes_index by blast
  have "bs_Test L (bh_Bloom (b_Header b)) (bloom_index h)"
    using bloom_exact [OF assms(1)] assms(3,5) by (auto simp: sealed_def body_hashes_def)
  then have "batch_one L b h = Inr (found h b pf)" using i p by (simp add: batch_one_def)
  then have "TxProofBatchGenerateOnBlock L [h] b = Inr [found h b pf]"
    using assms(3) by (simp add: TxProofBatchGenerateOnBlock_def sealed_def GetTxTreeRoot_def)
  moreover have "TxProofVerify L h (found h b pf) = Inr (False, Some ''wrong proof'')"
    using p assms(2,3,4) by (auto simp: TxProofVerify_def found_def sealed_def GetTxTreeRoot_def
        tx_trie_laws_def body_hashes_def zip_map_fst_snd)
  ultimately show ?thesis using single_not_found [OF assms(4), of L] by (auto simp: found_def)
qed

theorem batch_false_positive_witness:
  "\<exists>r r'. TxProofBatchGenerateOnBlock demo_lib [[0, 7]] demo_block = Inr [r] \<and> pr_Found r \<and>
    TxProofVerify demo_lib [0, 7] r = Inr (False, Some ''wrong proof'') \<and>
    TxProofGenerateOnTheBlock demo_lib [0, 7] demo_block = Inr r' \<and> \<not> pr_Found r'"
  by (rule batch_false_positive) (simp_all add: bloom_index_def SetBytes_def)

section \<open>The walk down the chain\<close>

text \<open>The blocks that the walk visits: the block stored under the hash, its parent, and so on.\<close>

inductive stored_chain :: "lib \<Rightarrow> Storage \<Rightarrow> bytes \<Rightarrow> Block list \<Rightarrow> bool" for L s where
  sc_Nil: "stored_chain L s h []"
| sc_Cons: "GetBlock L h s = Inr (Inr b) \<Longrightarrow> stored_chain L s (bh_ParentBlockHash (b_Header b)) bs \<Longrightarrow>
    stored_chain L s h (b # bs)"

inductive_cases sc_ConsE: "stored_chain L s h (b # bs)"

lemma walk_finds:
  assumes "bitset_laws L" "tx_trie_laws L" "stored_chain L s hash bs" "length bs = n"
    and "\<forall>b \<in> set bs. sealed L b" "\<exists>b \<in> set bs. h \<in> body_hashes b"
  shows "\<exists>b pf pre post. bs = pre @ b # post \<and> h \<in> body_hashes b \<and>
    (\<forall>b' \<in> set pre. h \<notin> body_hashes b') \<and>
    proof_walk L h s n hash = Inr (found h b pf) \<and> TxProofVerify L h (found h b pf) = Inr (True, None)"
  using assms(3-6)
proof (induction bs arbitrary: hash n rule: list.induct)
  case Nil
  then show ?case by simp
next
  case (Cons c bs)
  from Cons.prems(1) have g: "GetBlock L hash s = Inr (Inr c)"
    "stored_chain L s (bh_ParentBlockHash (b_Header c)) bs" by (auto elim: sc_ConsE)
  show ?case
  proof (cases "h \<in> body_hashes c")
    case True
    obtain pf where "TxProofGenerateOnTheBlock L h c = Inr (found h c pf)"
      "TxProofVerify L h (found h c pf) = Inr (True, None)"
      using proof_on_block [OF assms(1,2) _ True] Cons.prems(3) by (metis list.set_intros(1))
    then show ?thesis using True g(1) Cons.prems(2)
      by (intro exI [of _ c] exI [of _ pf] exI [of _ "[]"] exI [of _ bs]) (auto simp: found_def)
  next
    case False
    then obtain r where r: "TxProofGenerateOnTheBlock L h c = Inr r" "\<not> pr_Found r"
      using single_not_found by blast
    obtain b pf pre post where ih: "bs = pre @ b # post" "h \<in> body_hashes b"
      "\<forall>b' \<in> set pre. h \<notin> body_hashes b'"
      "proof_walk L h s (length bs) (bh_ParentBlockHash (b_Header c)) = Inr (found h b pf)"
      "TxProofVerify L h (found h b pf) = Inr (True, None)"
      using Cons.IH [OF g(2) refl] Cons.prems(3,4) False by auto
    then show ?thesis using r g(1) Cons.prems(2) False
      by (intro exI [of _ b] exI [of _ pf] exI [of _ "c # pre"] exI [of _ post]) auto
  qed
qed

text \<open>
  (C28) A proof is found for every transaction of the chain. If the blocks above the genesis block
  are stored, linked by their parent hashes and committed to by their headers, and one of them
  contains the transaction, then \<open>TxProofGenerate\<close> returns a proof for the newest block that
  contains it, and this proof verifies.
\<close>

theorem chain_proof_found:
  assumes "bitset_laws L" "tx_trie_laws L"
    and "stored_chain L (bc_Storage bc) (b_Hash (bc_CurrentBlock bc)) bs"
    and "length bs = unat (bh_Number (b_Header (bc_CurrentBlock bc)))"
    and "\<forall>b \<in> set bs. sealed L b" "\<exists>b \<in> set bs. h \<in> body_hashes b"
  shows "\<exists>r b pre post. TxProofGenerate L h bc = Inr r \<and> pr_Found r \<and> pr_BlockHash r = b_Hash b \<and>
    bs = pre @ b # post \<and> h \<in> body_hashes b \<and> (\<forall>b' \<in> set pre. h \<notin> body_hashes b') \<and>
    TxProofVerify L h r = Inr (True, None)"
proof -
  obtain b pf pre post where "bs = pre @ b # post" "h \<in> body_hashes b"
    "\<forall>b' \<in> set pre. h \<notin> body_hashes b'"
    "proof_walk L h (bc_Storage bc) (length bs) (b_Hash (bc_CurrentBlock bc)) = Inr (found h b pf)"
    "TxProofVerify L h (found h b pf) = Inr (True, None)"
    using walk_finds [OF assms(1-3) refl assms(5,6)] by blast
  moreover from this have "TxProofGenerate L h bc = Inr (found h b pf)"
    using assms(4) by (simp only: TxProofGenerate_def)
  moreover have "pr_Found (found h b pf)" "pr_BlockHash (found h b pf) = b_Hash b"
    by (simp_all add: found_def)
  ultimately show ?thesis by blast
qed

definition demo_top :: Block where
  "demo_top = demo_block\<lparr>b_Header := (b_Header demo_block)\<lparr>bh_Number := 1\<rparr>\<rparr>"

definition demo_chain1 :: BlockChain where
  "demo_chain1 = (demo_chain 0)\<lparr>bc_CurrentBlock := demo_top,
     bc_Storage := NewStorage ''x'' [((''block'', [1]), DbGob (B_Encode demo_top))]\<rparr>"

theorem chain_proof_found_witness:
  "\<exists>r b pre post. TxProofGenerate demo_lib [7] demo_chain1 = Inr r \<and> pr_Found r \<and>
    pr_BlockHash r = b_Hash b \<and> [demo_top] = pre @ b # post \<and> [7] \<in> body_hashes b \<and>
    (\<forall>b' \<in> set pre. [7] \<notin> body_hashes b') \<and> TxProofVerify demo_lib [7] r = Inr (True, None)"
proof (rule chain_proof_found)
  have "GetBlock demo_lib [1] (NewStorage ''x'' [((''block'', [1]), DbGob (B_Encode demo_top))]) =
    Inr (Inr demo_top)"
    by (simp add: GetBlock_def NewStorage_def) (simp add: demo_lib_def)
  then show "stored_chain demo_lib (bc_Storage demo_chain1) (b_Hash (bc_CurrentBlock demo_chain1)) [demo_top]"
    by (auto intro!: sc_Cons sc_Nil simp: demo_chain1_def demo_top_def demo_block_def)
  show "length [demo_top] = unat (bh_Number (b_Header (bc_CurrentBlock demo_chain1)))"
    by (simp add: demo_chain1_def demo_top_def)
  show "\<forall>b \<in> set [demo_top]. sealed demo_lib b"
    using demo_sealed by (simp add: sealed_def demo_top_def)
  show "\<exists>b \<in> set [demo_top]. [7] \<in> body_hashes b"
    using demo_body_hashes by (simp add: body_hashes_def demo_top_def)
qed simp_all

end
