(* ===== verification/Message.thy ===== *)
theory Message
  imports Merkle_Proof
begin

text \<open>
  The messages of package \<open>message\<close> and their framing. A message on the wire is a type, padded
  with zero bytes to a fixed width, followed by the content. The contents are JSON texts
  that are decoded as the type they were encoded from; the type \<open>wire\<close> stands for a framed
  message whose content has been decoded. A \<open>*shard.Node\<close> in a message is the node itself, a
  signature share or signature a byte string, nil the empty one.
\<close>

section \<open>Message types\<close>

type_synonym MessageType = string
type_synonym RequestType = string

definition "CPrePrepare = ''preprepare''"
definition "CPrepare = ''prepare''"
definition "CCommit = ''commit''"
definition "CRequestOldrequest = ''requestOldrequest''"
definition "CSendOldrequest = ''sendOldrequest''"
definition "CStop = ''stop''"
definition "CRelay = ''relay''"
definition "CRelayWithProof = ''CRelay&Proof''"
definition "CInject = ''inject''"
definition "CBlockInfo = ''BlockInfo''"
definition "CSeqIDinfo = ''SequenceID''"
definition "CBridgeOverlay = ''BridgeOverlay''"
definition "ViewChangePropose = ''ViewChangePropose''"
definition "NewChange = ''NewChange''"
definition "AccountState_and_TX = ''AccountState&txs''"
definition "CPartitionMsg = ''PartitionModifiedMap''"
definition "CPartitionReady = ''ready for partition''"
definition "CInner2CrossTx = ''innerShardTx_be_crossShard''"
definition "CBrokerTxMap = ''BrokerTxMap''"
definition "CBridgeTxMap = ''BridgeTxMap''"
definition "CInjectBroker = ''InjectTx_Broker''"
definition "CInjectBridge = ''InjectTx_Bridge''"
definition "CAccountTransferMsg_broker = ''BrokerAS_transfer''"

definition "BlockRequest = ''Block''"
definition "PartitionReq = ''PartitionReq''"

lemmas message_type_defs = CPrePrepare_def CPrepare_def CCommit_def CRequestOldrequest_def
  CSendOldrequest_def CStop_def CRelay_def CRelayWithProof_def CInject_def CBlockInfo_def
  CSeqIDinfo_def CBridgeOverlay_def ViewChangePropose_def NewChange_def AccountState_and_TX_def
  CPartitionMsg_def CPartitionReady_def CInner2CrossTx_def CBrokerTxMap_def CBridgeTxMap_def
  CInjectBroker_def CInjectBridge_def CAccountTransferMsg_broker_def

definition message_types :: "MessageType list" where
  "message_types = [CPrePrepare, CPrepare, CCommit, CRequestOldrequest, CSendOldrequest, CStop,
     CRelay, CRelayWithProof, CInject, CBlockInfo, CSeqIDinfo, CBridgeOverlay, ViewChangePropose,
     NewChange, AccountState_and_TX, CPartitionMsg, CPartitionReady, CInner2CrossTx, CBrokerTxMap,
     CBridgeTxMap, CInjectBroker, CInjectBridge, CAccountTransferMsg_broker]"

section \<open>Framing\<close>

definition prefixMSGtypeLen :: nat where "prefixMSGtypeLen = 30"

definition byte_of :: "char \<Rightarrow> 8 word" where "byte_of c = of_nat (of_char c)"

definition char_of_byte :: "8 word \<Rightarrow> char" where "char_of_byte v = char_of (unat v)"

fun copy_type :: "8 word list \<Rightarrow> nat \<Rightarrow> bytes \<Rightarrow> bytes res" where
  "copy_type [] i b = Inr b"
| "copy_type (v # vs) i b =
     (if i < length b then copy_type vs (i + 1) (b[i := v]) else Inl IndexOutOfRange)"

definition MergeMessage :: "MessageType \<Rightarrow> bytes \<Rightarrow> bytes res" where
  "MergeMessage msgType content =
     bindR (copy_type (map byte_of msgType) 0 (replicate prefixMSGtypeLen 0)) (\<lambda>b. Inr (b @ content))"

definition SplitMessage :: "bytes \<Rightarrow> (MessageType \<times> bytes) res" where
  "SplitMessage message =
     (if length message < prefixMSGtypeLen then Inl IndexOutOfRange
      else Inr (map char_of_byte (filter (\<lambda>v. v \<noteq> 0) (take prefixMSGtypeLen message)),
                drop prefixMSGtypeLen message))"

section \<open>Messages\<close>

record Node =
  nd_NodeID :: u64
  nd_ShardID :: u64
  nd_IPaddr :: string

record Request =
  rq_Type :: RequestType
  rq_Content :: gob
  rq_ReqTime :: time

record PrePrepare =
  pp_RequestMsg :: Request
  pp_Digest :: bytes
  pp_SeqID :: u64
  pp_B :: bytes
  pp_BlockBPKCS1 :: bytes

record Prepare =
  pm_Digest :: bytes
  pm_SeqID :: u64
  pm_SenderNode :: Node

record Commit =
  cm_Digest :: bytes
  cm_SeqID :: u64
  cm_SenderNode :: Node
  cm_PartialSig :: bytes

record RequestOldMessage =
  rom_SeqStartHeight :: u64
  rom_SeqEndHeight :: u64
  rom_ServerNode :: Node
  rom_SenderNode :: Node

record SendOldMessage =
  som_SeqStartHeight :: u64
  som_SeqEndHeight :: u64
  som_OldRequest :: "Request list"
  som_SenderNode :: Node

record InjectTxs =
  it_Txs :: "Transaction list"
  it_ToShardID :: u64

record BlockInfoMsg =
  bi_BlockBodyLength :: nat
  bi_InnerShardTxs :: "Transaction list"
  bi_Epoch :: int
  bi_ProposeTime :: time
  bi_CommitTime :: time
  bi_SenderShardID :: u64
  bi_Relay1Txs :: "Transaction list"
  bi_Relay2Txs :: "Transaction list"
  bi_Broker1Txs :: "Transaction list"
  bi_Broker2Txs :: "Transaction list"
  bi_Bridge1Txs :: "Transaction list"
  bi_Bridge2Txs :: "Transaction list"
  bi_BridgeForwardTxs :: "Transaction list"
  bi_JointSig :: bytes

record BridgeOverlayMsg =
  om_Epoch :: int
  om_DegreeLimits :: "int list"
  om_Edges :: "(u64 \<times> u64) list"
  om_Routes :: "u64 list list list"

record SeqIDinfo =
  si_SenderShardID :: u64
  si_SenderSeq :: u64
  si_Tx2s :: "Transaction list"
  si_SenderNode :: "Node option"
  si_Values :: "u64 \<rightharpoonup> int"
  si_JointSig :: bytes

record Relay =
  rl_Txs :: "Transaction list"
  rl_SenderShardID :: u64
  rl_SenderSeq :: u64

record RelayWithProof =
  rp_Txs :: "Transaction list"
  rp_TxProofs :: "TxProofResult list"
  rp_SenderShardID :: u64
  rp_SenderSeq :: u64

record ViewChangeMsg =
  vc_CurView :: int
  vc_NextView :: int
  vc_SeqID :: int
  vc_FromNode :: u64

record NewViewMsg =
  nv_CurView :: int
  nv_NextView :: int
  nv_NewSeqID :: int
  nv_FromNode :: u64

text \<open>A message in flight.\<close>

record PartitionModifiedMap =
  pmm_PartitionModified :: "(Address \<times> u64) list"  \<comment> \<open>the map's entries, in the order of a range over it\<close>

record PartitionReady =
  prd_FromShard :: u64
  prd_NowSeqID :: u64

record AccountStateAndTx =
  ast_Addrs :: "Address list"
  ast_AccountState :: "AccountState list"
  ast_Txs :: "Transaction list"
  ast_FromShard :: u64

record InnerTx2CrossTx =
  i2c_Txs :: "Transaction list"

datatype wire =
    WPrePrepare PrePrepare
  | WPrepare Prepare
  | WCommit Commit
  | WViewChange ViewChangeMsg
  | WNewView NewViewMsg
  | WRequestOld RequestOldMessage
  | WSendOld SendOldMessage
  | WStop
  | WRelay Relay
  | WRelayWithProof RelayWithProof
  | WInject InjectTxs
  | WBlockInfo BlockInfoMsg
  | WSeqIDinfo SeqIDinfo
  | WBridgeOverlay BridgeOverlayMsg
  | WPartition PartitionModifiedMap
  | WPartitionReady PartitionReady
  | WAccountStateTx AccountStateAndTx
  | WAccountTransferBroker AccountStateAndTx
  | WInner2CrossTx InnerTx2CrossTx

section \<open>Round trip of the framing\<close>

lemma copy_type_spec:
  "i + length vs \<le> length b \<Longrightarrow> copy_type vs i b = Inr (take i b @ vs @ drop (i + length vs) b)"
proof (induction vs arbitrary: i b)
  case Nil
  then show ?case by simp
next
  case (Cons v vs)
  have "take (Suc i) (b[i := v]) = take i b @ [v]"
    using Cons.prems by (simp add: take_Suc_conv_app_nth)
  then show ?case using Cons.IH [of "i + 1" "b[i := v]"] Cons.prems by simp
qed

lemma copy_type_too_long:
  "i + length vs > length b \<Longrightarrow> i \<le> length b \<Longrightarrow> copy_type vs i b = Inl IndexOutOfRange"
  by (induction vs arbitrary: i b) auto

lemma char_byte [simp]: "char_of_byte (byte_of c) = c"
proof -
  have "(of_char c :: nat) < 256" by (rule nat_of_char_less_256)
  then have "unat (byte_of c) = of_char c" by (simp add: byte_of_def unat_of_nat)
  then show ?thesis by (simp add: char_of_byte_def)
qed

lemma byte_of_zero: "byte_of c = 0 \<longleftrightarrow> c = CHR 0x00"
proof
  assume "byte_of c = 0"
  then have "c = char_of_byte 0" using char_byte [of c] by simp
  also have "char_of_byte 0 = CHR 0x00" by (simp add: char_of_byte_def char_of_def)
  finally show "c = CHR 0x00" .
qed (simp add: byte_of_def)

lemma MergeMessage_eq: "length t \<le> 30 \<Longrightarrow> MergeMessage t content = Inr (map byte_of t @ replicate (30 - length t) 0 @ content)"
  using copy_type_spec [of 0 "map byte_of t" "replicate 30 0"] by (simp add: MergeMessage_def prefixMSGtypeLen_def)

lemma SplitMessage_eq:
  assumes "length t \<le> 30" and "CHR 0x00 \<notin> set t"
  shows "SplitMessage (map byte_of t @ replicate (30 - length t) 0 @ content) = Inr (t, content)"
proof -
  have "filter (\<lambda>v. v \<noteq> 0) (map byte_of t) = map byte_of t"
    using assms(2) by (auto simp: filter_id_conv byte_of_zero)
  then show ?thesis using assms(1) by (simp add: SplitMessage_def prefixMSGtypeLen_def comp_def)
qed

lemma message_types_fit: "\<forall>t \<in> set message_types. length t \<le> 30 \<and> CHR 0x00 \<notin> set t"
  by (simp add: message_types_def message_type_defs)

text \<open>
  Framing round trip. For a type of at most 30 characters without zero characters,
  \<open>SplitMessage\<close> returns exactly the type and the content given to \<open>MergeMessage\<close>; for a longer
  type \<open>MergeMessage\<close> panics. The message types the program declares all fit, are free of zero
  characters and pairwise distinct, so a received message is dispatched as the type it was sent
  with.
\<close>

theorem merge_split:
  "(length t > 30 \<longrightarrow> MergeMessage t content = Inl IndexOutOfRange) \<and>
   (length t \<le> 30 \<and> CHR 0x00 \<notin> set t \<longrightarrow>
      bindR (MergeMessage t content) SplitMessage = Inr (t, content)) \<and>
   distinct message_types \<and> (\<forall>t \<in> set message_types. length t \<le> 30 \<and> CHR 0x00 \<notin> set t)"
proof (intro conjI impI)
  assume "length t > 30"
  then show "MergeMessage t content = Inl IndexOutOfRange"
    by (simp add: MergeMessage_def copy_type_too_long prefixMSGtypeLen_def)
next
  assume t: "length t \<le> 30 \<and> CHR 0x00 \<notin> set t"
  then show "bindR (MergeMessage t content) SplitMessage = Inr (t, content)"
    by (simp add: MergeMessage_eq SplitMessage_eq)
next
  show "distinct message_types" by (simp add: message_types_def message_type_defs)
  show "\<forall>t \<in> set message_types. length t \<le> 30 \<and> CHR 0x00 \<notin> set t" by (rule message_types_fit)
qed

end
