(* ===== verification/Chain_Accounts.thy ===== *)
theory Chain_Accounts
  imports Chain_Safety
begin

text \<open>
  What re-sharding does to the chain: \<open>AddAccounts\<close> installs account states in a block of
  its own and \<open>FetchAccounts\<close> reads them back. Also here: what the guards of
  \<open>AddBlock\<close> and \<open>IsValidBlock\<close> do and do not establish.
\<close>

section \<open>Installing and reading accounts\<close>

text \<open>The state installed for an address: the last entry for it, if the address is of this shard.\<close>

definition installed ::
  "params \<Rightarrow> BlockChain \<Rightarrow> string list \<Rightarrow> AccountState list \<Rightarrow> Address \<Rightarrow> AccountState option" where
  "installed P bc ac as a =
     (if Get_PartitionMap P bc a = Inr (cc_ShardID (bc_ChainConfig bc))
      then map_of (rev (zip ac as)) a else None)"

definition account_at :: "acctTrie \<Rightarrow> Address \<Rightarrow> AccountState" where
  "account_at st a = (case st a of None \<Rightarrow> newState 0 Init_Balance | Some enc \<Rightarrow> projr (DecodeAS enc))"

lemma add_accounts_loop_spec:
  assumes "\<forall>a \<in> set ac. \<exists>s. Get_PartitionMap P bc a = Inr s" "length ac \<le> length as" "trie_ok st"
  shows "\<exists>st'. add_accounts_loop P bc ac as st = Inr st' \<and> trie_ok st' \<and>
    (\<forall>a. st' a = (case installed P bc ac as a of
       None \<Rightarrow> st a | Some s \<Rightarrow> Some (AS_Encode (newState (as_Nonce s) (as_Balance s)))))"
  using assms
proof (induction ac arbitrary: as st)
  case Nil
  then show ?case by (simp add: installed_def)
next
  case (Cons addr ac)
  then obtain x as' where as: "as = x # as'" by (cases as) auto
  obtain s where s: "Get_PartitionMap P bc addr = Inr s" using Cons.prems(1) by auto
  have ih: "\<exists>st'. add_accounts_loop P bc ac as' u = Inr st' \<and> trie_ok st' \<and>
    (\<forall>a. st' a = (case installed P bc ac as' a of
       None \<Rightarrow> u a | Some s \<Rightarrow> Some (AS_Encode (newState (as_Nonce s) (as_Balance s)))))"
    if "trie_ok u" for u
    using Cons.IH [of as' u] Cons.prems(1,2) that as by simp
  define u where "u = (if s = cc_ShardID (bc_ChainConfig bc)
    then st(addr \<mapsto> AS_Encode (newState (as_Nonce x) (as_Balance x))) else st)"
  have "trie_ok u" using Cons.prems(3) by (simp add: u_def)
  obtain st' where st': "add_accounts_loop P bc ac as' u = Inr st'" "trie_ok st'"
    "\<forall>a. st' a = (case installed P bc ac as' a of
       None \<Rightarrow> u a | Some s \<Rightarrow> Some (AS_Encode (newState (as_Nonce s) (as_Balance s))))"
    using ih [OF \<open>trie_ok u\<close>] by blast
  have "add_accounts_loop P bc (addr # ac) as st = Inr st'"
    using st'(1) s as by (simp add: u_def split: if_splits)
  moreover have "st' a = (case installed P bc (addr # ac) as a of
       None \<Rightarrow> st a | Some s \<Rightarrow> Some (AS_Encode (newState (as_Nonce s) (as_Balance s))))" for a
    using st'(3) s as by (auto simp: u_def installed_def map_add_def split: option.splits if_splits)
  ultimately show ?case using st'(2) by blast
qed

lemma fetch_loop_spec:
  "trie_ok st \<Longrightarrow> fetch_loop st addrs res = Inr (res @ map (account_at st) addrs)"
proof (induction addrs arbitrary: res)
  case Nil
  then show ?case by simp
next
  case (Cons a addrs)
  have "loadState st a 0 = Inr (account_at st a)"
  proof (cases "st a")
    case (Some enc)
    then obtain s where "DecodeAS enc = Inr s" using Cons.prems by (auto simp: trie_ok_def)
    then show ?thesis using Some by (simp add: loadState_def account_at_def)
  qed (simp add: loadState_def account_at_def)
  then show ?case using Cons by simp
qed

lemma FetchAccounts_spec:
  "current_state L bc = Some st \<Longrightarrow> trie_ok st \<Longrightarrow>
     FetchAccounts L addrs bc = Inr (map (account_at st) addrs)"
  by (simp add: FetchAccounts_def current_state_def fetch_loop_spec)

lemma AddAccounts_spec:
  assumes "lib_laws L" "chain_ok L bc" "current_state L bc = Some st" "length ac \<le> length as"
    and "\<forall>a \<in> set ac. \<exists>s. Get_PartitionMap P bc a = Inr s"
  shows "\<exists>bc' st'. AddAccounts L P ac as miner bc = Inr bc' \<and> chain_ok L bc' \<and>
    same_partition bc bc' \<and> bc_Txpool bc' = bc_Txpool bc \<and>
    bh_Number (b_Header (bc_CurrentBlock bc')) = bh_Number (b_Header (bc_CurrentBlock bc)) + 1 \<and>
    bh_ParentBlockHash (b_Header (bc_CurrentBlock bc')) = b_Hash (bc_CurrentBlock bc) \<and>
    b_Body (bc_CurrentBlock bc') = [] \<and> current_state L bc' = Some st' \<and> trie_ok st' \<and>
    (\<forall>a. st' a = (case installed P bc ac as a of
       None \<Rightarrow> st a | Some s \<Rightarrow> Some (AS_Encode (newState (as_Nonce s) (as_Balance s)))))"
proof -
  let ?root = "bh_StateRoot (b_Header (bc_CurrentBlock bc))"
  have so: "storage_ok L (bc_Storage bc)" and tok: "trie_ok st"
    using assms(2,3) by (auto simp: chain_ok_def)
  have op: "tr_Open L (bc_triedb bc) (BytesToHash ?root) = Some st"
    using assms(3) by (simp add: current_state_def)
  obtain st' where st': "add_accounts_loop P bc ac as st = Inr st'" "trie_ok st'"
    "\<forall>a. st' a = (case installed P bc ac as a of
       None \<Rightarrow> st a | Some s \<Rightarrow> Some (AS_Encode (newState (as_Nonce s) (as_Balance s))))"
    using add_accounts_loop_spec [OF assms(5,4) tok] by blast
  obtain rrt ns where cm: "tr_Commit L (bc_triedb bc) (BytesToHash ?root) st' = (rrt, ns)" by force
  note co = commit_opens [OF lib_lawsD(2) [OF assms(1)] op cm]
  obtain bs where bs: "GetBloomFilter L [] = Inr bs" using GetBloomFilter_total by blast
  define db where "db = (if ac = [] then bc_triedb bc else case ns of None \<Rightarrow> bc_triedb bc | Some d \<Rightarrow> d)"
  define rt where "rt = (if ac = [] \<or> ns = None then ?root else rrt)"
  have opdb: "tr_Open L db (BytesToHash rt) = Some st'"
  proof (cases "ac = []")
    case True
    then show ?thesis using st'(1) op by (simp add: db_def rt_def)
  next
    case False
    then show ?thesis using co(1,2,3) op by (cases ns) (auto simp: db_def rt_def)
  qed
  define bh where "bh = zeroHeader\<lparr>bh_ParentBlockHash := b_Hash (bc_CurrentBlock bc),
    bh_Number := bh_Number (b_Header (bc_CurrentBlock bc)) + 1, bh_Time := 0,
    bh_StateRoot := rt, bh_TxRoot := GetTxTreeRoot L [], bh_Bloom := bs, bh_Miner := 0\<rparr>"
  let ?b = "\<lparr>b_Header = bh, b_Body = [], b_Hash = BH_Hash L bh\<rparr>"
  obtain s where s: "Storage_AddBlock L ?b (bc_Storage bc) = Inr s"
    using Storage_AddBlock_total [OF so, of ?b] db_key_BH_Hash [OF assms(1)] by auto
  let ?bc = "(bc\<lparr>bc_triedb := db\<rparr>)\<lparr>bc_CurrentBlock := ?b, bc_Storage := s\<rparr>"
  have "AddAccounts L P ac as miner bc = Inr ?bc"
    using op st'(1) cm bs s
    by (cases ns) (auto simp: AddAccounts_def Let_def db_def rt_def bh_def NewBlock_def)
  moreover have "chain_ok L ?bc"
    by (rule chain_ok_append [OF so s _ st'(2)]) (use opdb in \<open>simp add: bh_def\<close>)
  moreover have "current_state L ?bc = Some st'" using opdb by (simp add: current_state_def bh_def)
  ultimately show ?thesis using st'(2,3)
    by (intro exI [of _ ?bc] exI [of _ st']) (simp add: bh_def same_partition_def)
qed

text \<open>
  (C21) Account transfer round trip. On a chain that satisfies the invariant, \<open>AddAccounts\<close> with at
  least as many states as addresses does not panic and keeps the invariant, and \<open>FetchAccounts\<close>
  then returns, for every requested address, exactly the balance and nonce that were installed if
  the address was listed and belongs to this shard, and otherwise what it returned before.
\<close>

theorem AddAccounts_FetchAccounts:
  assumes "lib_laws L" "chain_ok L bc" "length ac \<le> length as"
    and "\<forall>a \<in> set ac. \<exists>s. Get_PartitionMap P bc a = Inr s"
  shows "\<exists>bc' old. AddAccounts L P ac as miner bc = Inr bc' \<and> chain_ok L bc' \<and>
    FetchAccounts L addrs bc = Inr (map old addrs) \<and>
    FetchAccounts L addrs bc' = Inr (map (\<lambda>a. case installed P bc ac as a of
      None \<Rightarrow> old a | Some s \<Rightarrow> newState (as_Nonce s) (as_Balance s)) addrs)"
proof -
  obtain st where st: "current_state L bc = Some st" "trie_ok st"
    using assms(2) by (auto simp: chain_ok_def)
  obtain bc' st' where a: "AddAccounts L P ac as miner bc = Inr bc'" "chain_ok L bc'"
      "current_state L bc' = Some st'" "trie_ok st'"
      "\<forall>a. st' a = (case installed P bc ac as a of
       None \<Rightarrow> st a | Some s \<Rightarrow> Some (AS_Encode (newState (as_Nonce s) (as_Balance s))))"
    using AddAccounts_spec [OF assms(1,2) st(1) assms(3,4)] by blast
  have "account_at st' = (\<lambda>a. case installed P bc ac as a of
      None \<Rightarrow> account_at st a | Some s \<Rightarrow> newState (as_Nonce s) (as_Balance s))"
  proof
    fix a
    show "account_at st' a = (case installed P bc ac as a of
      None \<Rightarrow> account_at st a | Some s \<Rightarrow> newState (as_Nonce s) (as_Balance s))"
      using spec [OF a(5), of a] by (cases "installed P bc ac as a") (simp_all add: account_at_def)
  qed
  then show ?thesis
    using a FetchAccounts_spec [OF a(3,4), of addrs] FetchAccounts_spec [OF st, of addrs] by auto
qed

theorem AddAccounts_FetchAccounts_witness:
  "\<exists>bc' old. AddAccounts demo_lib defaultParams [''a'', ''c''] [newState 3 8, newState 4 9] 0 (demo_chain 0)
       = Inr bc' \<and> chain_ok demo_lib bc' \<and>
    FetchAccounts demo_lib [''a'', ''b'', ''c''] (demo_chain 0) = Inr (map old [''a'', ''b'', ''c'']) \<and>
    FetchAccounts demo_lib [''a'', ''b'', ''c''] bc' = Inr (map (\<lambda>a.
      case installed defaultParams (demo_chain 0) [''a'', ''c''] [newState 3 8, newState 4 9] a of
      None \<Rightarrow> old a | Some s \<Rightarrow> newState (as_Nonce s) (as_Balance s)) [''a'', ''b'', ''c''])"
  by (rule AddAccounts_FetchAccounts) (simp_all add: Get_PartitionMap_def)

section \<open>What the checks on a block do not cover\<close>

text \<open>
  (C27) The state root of a block is not checked. A block with the right height, parent hash and
  transaction root whose state root is neither known to the node nor the root of the state its
  body leads to is declared valid and appended; from then on every attempt to execute a
  non-empty list of transactions on this node panics.
\<close>

theorem wrong_state_root_is_accepted:
  assumes "lib_laws L" "chain_ok L bc" "current_state L bc = Some st" "db_key (b_Hash b)"
    and "bh_Number (b_Header b) = bh_Number (b_Header (bc_CurrentBlock bc)) + 1"
    and "bh_ParentBlockHash (b_Header b) = b_Hash (bc_CurrentBlock bc)"
    and "bh_TxRoot (b_Header b) = GetTxTreeRoot L (b_Body b)"
    and "\<forall>tx \<in> set (b_Body b). placed P bc tx"
    and "tr_Open L (bc_triedb bc) (BytesToHash (bh_StateRoot (b_Header b))) = None"
    and "GetUpdateStatusTrie L P (b_Body b) bc = Inr (rt, bc1)"
    and "rt \<noteq> BytesToHash (bh_StateRoot (b_Header b))"
  shows "IsValidBlock L b bc = Inr () \<and>
    (\<exists>bc'. AddBlock L P b bc = Inr bc' \<and> bc_CurrentBlock bc' = b \<and>
      (\<forall>tx txs. GetUpdateStatusTrie L P (tx # txs) bc' = Inl (LogPanic ''trie.New'')))"
proof -
  have so: "storage_ok L (bc_Storage bc)" and tok: "trie_ok st"
    using assms(2,3) by (auto simp: chain_ok_def)
  obtain st' c db where e: "exec_txs P bc (enumerate 0 (b_Body b)) (st, 0) = Inr (st', c)"
    "GetUpdateStatusTrie L P (b_Body b) bc = Inr (result_root L bc st' c, bc\<lparr>bc_triedb := db\<rparr>)"
    "tr_Open L db (result_root L bc st' c) = Some st'" "trie_ok st'"
    "\<forall>r. r \<noteq> result_root L bc st' c \<longrightarrow> tr_Open L db r = tr_Open L (bc_triedb bc) r"
    "balance_of st' = fold (ledger_tx P bc) (b_Body b) (balance_of st)"
    using block_execution [OF lib_lawsD(2) [OF assms(1)] assms(3) tok assms(8)] .
  obtain s where s: "Storage_AddBlock L b (bc_Storage bc) = Inr s"
    using Storage_AddBlock_total [OF so assms(4)] by blast
  let ?bc = "bc\<lparr>bc_triedb := db, bc_CurrentBlock := b, bc_Storage := s\<rparr>"
  have "AddBlock L P b bc = Inr ?bc" using assms(5,6,9) e(2) s by (simp add: AddBlock_def)
  moreover have "tr_Open L db (BytesToHash (bh_StateRoot (b_Header b))) = None"
    using e(2,5) assms(9-11) by auto
  then have "GetUpdateStatusTrie L P (tx # txs) ?bc = Inl (LogPanic ''trie.New'')" for tx txs
    by (simp add: GetUpdateStatusTrie_def)
  ultimately show ?thesis using assms(6,7) by (auto simp: IsValidBlock_def)
qed

definition forged :: Block where
  "forged = \<lparr>b_Header = zeroHeader\<lparr>bh_Number := 1, bh_ParentBlockHash := b_Hash demo_genesis,
      bh_StateRoot := replicate 32 9, bh_TxRoot := one32\<rparr>,
    b_Body = [demo_tx ''a'' ''b'' 5], b_Hash = [42]\<rparr>"

lemma forged_fields [simp]:
  "bh_Number (b_Header forged) = 1" "bh_ParentBlockHash (b_Header forged) = b_Hash demo_genesis"
  "bh_StateRoot (b_Header forged) = replicate 32 9" "bh_TxRoot (b_Header forged) = one32"
  "b_Body forged = [demo_tx ''a'' ''b'' 5]" "db_key (b_Hash forged)"
  by (simp_all add: forged_def db_key_def)

lemma nine32: "replicate 32 (9 :: 8 word) \<noteq> zero32" "replicate 32 (9 :: 8 word) \<noteq> one32"
  by (simp_all add: zero32_def one32_def)

lemma demo_exec: "\<exists>bc1. GetUpdateStatusTrie demo_lib P [demo_tx ''a'' ''b'' 5] (demo_chain 0) = Inr (one32, bc1)"
  by (simp add: GetUpdateStatusTrie_def exec_txs_def exec_tx_def exec_sender_def exec_recipient_def
      sender_here_def recipient_here_def Get_PartitionMap_def loadState_def newState_def Init_Balance_def
      Let_def) (simp add: demo_lib_def)

theorem wrong_state_root_is_accepted_witness:
  "IsValidBlock demo_lib forged (demo_chain 0) = Inr () \<and>
    (\<exists>bc'. AddBlock demo_lib defaultParams forged (demo_chain 0) = Inr bc' \<and> bc_CurrentBlock bc' = forged \<and>
      (\<forall>tx txs. GetUpdateStatusTrie demo_lib defaultParams (tx # txs) bc' = Inl (LogPanic ''trie.New'')))"
proof -
  obtain bc1 where
    "GetUpdateStatusTrie demo_lib defaultParams [demo_tx ''a'' ''b'' 5] (demo_chain 0) = Inr (one32, bc1)"
    using demo_exec by blast
  moreover have "GetTxTreeRoot demo_lib [demo_tx ''a'' ''b'' 5] = one32"
    by (simp add: GetTxTreeRoot_def demo_lib_def)
  moreover have "tr_Open demo_lib [] (replicate 32 9) = None"
    using nine32 by (simp add: demo_lib_def)
  ultimately show ?thesis
    using wrong_state_root_is_accepted [of demo_lib "demo_chain 0" Map.empty forged defaultParams one32 bc1]
      nine32 by simp
qed

end
