(* ===== verification/Pbft_Node.thy ===== *)
theory Pbft_Node
  imports Message Chain_Accounts "HOL-Library.AList"
begin

text \<open>
  The consensus node (\<open>consensus_shard/pbft_all/pbft.go\<close>, \<open>messageHandle.go\<close>,
  \<open>view_change.go\<close>, \<open>toolFuncs.go\<close>): its state and its message handlers. The protocol-specific
  part of a node, the Go interface \<open>ExtraOpInConsensus\<close>, is a record of operations,
  \<open>ExtraOp\<close>, that the handlers call.

  \<^item> Sending is an effect on the outbox \<open>p_out\<close>, a list of addresses and messages in the order
    in which they are handed to the network; a metrics row is appended to \<open>p_csv\<close>.
  \<^item> A handler of a consensus message first waits on a condition variable; the condition is a
    predicate (\<open>waits_PrePrepare\<close> and so on), and the handler proper is what runs once it is
    false. It runs under \<open>pbftLock\<close>, as one step. \<open>Propose\<close>, the catch-up handlers and those of the view
    change do not hold \<open>pbftLock\<close> in the source; they are one step each here as well, so that two handlers
    that run at the same time are covered in either order, but not mixed.
  \<^item> The keys of \<open>cntPrepareConfirm\<close> and \<open>cntCommitConfirm\<close> are pointers to the sender node that
    \<open>json.Unmarshal\<close> allocates anew for every message. Two messages never share a key, so the
    inner map is the list of the senders, one entry per message.
  \<^item> A step that blocks on a mutex held elsewhere is a run that does not return.
\<close>

section \<open>Cryptography outside the repository\<close>

record xlib =
  x_lib :: lib
  x_digest :: "Request \<Rightarrow> bytes"
    \<comment> \<open>\<open>sha256\<close> of the JSON text of a request\<close>
  x_PKCS1 :: "bytes \<Rightarrow> bytes \<Rightarrow> bytes option"
    \<comment> \<open>\<open>tcrsa.PrepareDocumentHash\<close> for a public key\<close>
  x_Sign :: "bytes \<Rightarrow> bytes \<Rightarrow> bytes option"
    \<comment> \<open>\<open>KeyShare.Sign\<close>\<close>
  x_Join :: "bytes list \<Rightarrow> bytes \<Rightarrow> bytes option"
    \<comment> \<open>\<open>SigShareList.Join\<close>\<close>
  x_Verify :: "bytes \<Rightarrow> bytes \<Rightarrow> bytes \<Rightarrow> bool"
    \<comment> \<open>\<open>rsa.VerifyPKCS1v15\<close> of a public key, a hash and a signature\<close>

section \<open>State\<close>

record Bridges =
  br_Addrs :: "Address list"

text \<open>
  The data of account transfer (\<open>dataSupport/clpaData_Extra.go\<close>), shared by the two CLPA handlers.
  The entries of a map that the program ranges over are a list without repeated keys, in the
  order of the range; a map to \<open>bool\<close> in which only \<open>true\<close> is stored is the set of its keys.
\<close>

record Data_supportCLPA =
  cd_ModifiedMap :: "(Address \<times> u64) list list"
  cd_AccountTransferRound :: u64
  cd_ReceivedNewAccountState :: "(Address \<times> AccountState) list"
  cd_ReceivedNewTx :: "Transaction list"
  cd_AccountStateTx :: "(u64 \<times> AccountStateAndTx) list"
  cd_PartitionOn :: bool
  cd_PartitionReady :: "u64 set"
  cd_ReadySeq :: "u64 \<rightharpoonup> u64"
  cd_CollectOver :: bool

definition NewCLPADataSupport :: Data_supportCLPA where
  "NewCLPADataSupport =
     \<lparr>cd_ModifiedMap = [], cd_AccountTransferRound = 0, cd_ReceivedNewAccountState = [], cd_ReceivedNewTx = [],
      cd_AccountStateTx = [], cd_PartitionOn = False, cd_PartitionReady = {}, cd_ReadySeq = Map.empty,
      cd_CollectOver = False\<rparr>"

record PbftNode =
  p_RunningNode :: Node
  p_ShardID :: u64
  p_NodeID :: u64
  p_CurChain :: BlockChain
  p_pbftChainConfig :: ChainConfig
  p_ip_nodeTable :: "u64 \<Rightarrow> u64 \<rightharpoonup> string"
  p_node_nums :: u64
  p_malicious_nums :: u64
  p_view :: int
  p_lastCommitTime :: int
  p_viewChangeMap :: "int \<times> int \<Rightarrow> u64 set"
  p_newViewMap :: "int \<times> int \<Rightarrow> u64 set"
  p_sequenceID :: u64
  p_stopSignal :: bool
  p_requestPool :: "bytes \<rightharpoonup> Request"
  p_cntPrepareConfirm :: "bytes \<Rightarrow> Node list"
  p_cntCommitConfirm :: "bytes \<Rightarrow> Node list"
  p_isCommitBordcast :: "bytes \<Rightarrow> bool"
  p_isReply :: "bytes \<Rightarrow> bool"
  p_height2Digest :: "u64 \<rightharpoonup> bytes"
  p_pbftStage :: int
  p_sequenceLock :: bool
  p_sequenceLockHeld :: bool
  p_askForLock :: bool
  p_seqIDMap :: "(u64 \<times> u64) list"
  p_bridges :: "Bridges option"
  p_bridgeBalances :: "u64 \<rightharpoonup> int"
  p_bridgePub :: bytes
  p_bridgeK :: nat
  p_bridgeShare :: bytes
  p_bridgePreparedHash :: bytes
  p_bridgePreparedPKCS1 :: bytes
  p_bridgePartialSig :: bytes
  p_bridgeJointSig :: bytes
  p_bridgeSigShares :: "bytes list"
  p_bridgeSigSeen :: "u64 set"
  p_bridgeOverlayEpoch :: int
  p_bridgeDegreeLimits :: "int list"
  p_bridgeOverlayEdges :: "(u64 \<times> u64) list"
  p_bridgeOverlayRoutes :: "u64 list list list"
  p_cdm :: Data_supportCLPA
  p_proposing :: nat
    \<comment> \<open>where the proposing goroutine is: 0 outside \<open>HandleinPropose\<close>, else the part of it to run next\<close>
  p_out :: "(string \<times> wire) list"
  p_csv :: "int list list"

text \<open>
  The interface \<open>ExtraOpInConsensus\<close>. The first result of \<open>HandleinPropose\<close> is not used; one that
  waits for other goroutines in the middle is run in parts, and gives no request before the last.
\<close>

record ExtraOp =
  eo_HandleinPropose :: "time \<Rightarrow> PbftNode \<Rightarrow> (Request option \<times> PbftNode) res"
  eo_HandleinPrePrepare :: "PrePrepare \<Rightarrow> PbftNode \<Rightarrow> (bool \<times> PbftNode) res"
  eo_HandleinPrepare :: "Prepare \<Rightarrow> PbftNode \<Rightarrow> (bool \<times> PbftNode) res"
  eo_HandleinCommit :: "time \<Rightarrow> Commit \<Rightarrow> PbftNode \<Rightarrow> (bool \<times> PbftNode) res"
  eo_HandleReqestforOldSeq :: "RequestOldMessage \<Rightarrow> PbftNode \<Rightarrow> (bool \<times> PbftNode) res"
  eo_HandleforSequentialRequest :: "SendOldMessage \<Rightarrow> PbftNode \<Rightarrow> (bool \<times> PbftNode) res"

section \<open>Tools (toolFuncs.go, networks/p2pNetwork.go)\<close>

definition TcpDial :: "wire \<Rightarrow> string \<Rightarrow> PbftNode \<Rightarrow> PbftNode" where
  "TcpDial msg addr p = p\<lparr>p_out := p_out p @ [(addr, msg)]\<rparr>"

fun Broadcast :: "string \<Rightarrow> string list \<Rightarrow> wire \<Rightarrow> PbftNode \<Rightarrow> PbftNode" where
  "Broadcast sender [] msg p = p"
| "Broadcast sender (ip # receivers) msg p =
     Broadcast sender receivers msg (if ip = sender then p else TcpDial msg ip p)"

fun getNodeIps :: "(u64 \<rightharpoonup> string) \<Rightarrow> u64 \<Rightarrow> nat \<Rightarrow> string list" where
  "getNodeIps tbl nid 0 = []"
| "getNodeIps tbl nid (Suc k) =
     (case tbl nid of None \<Rightarrow> [] | Some ip \<Rightarrow> [ip]) @ getNodeIps tbl (nid + 1) k"

definition getNeighborNodes :: "PbftNode \<Rightarrow> string list" where
  "getNeighborNodes p = getNodeIps (p_ip_nodeTable p (p_ShardID p)) 0 (unat (p_node_nums p))"

definition getNodeIpsWithinShard :: "u64 \<Rightarrow> PbftNode \<Rightarrow> string list" where
  "getNodeIpsWithinShard shardID p = getNodeIps (p_ip_nodeTable p shardID) 0 (unat (p_node_nums p))"

text \<open>The broadcast to the neighbours followed by the message to the node itself.\<close>

definition broadcast_all :: "wire \<Rightarrow> PbftNode \<Rightarrow> PbftNode" where
  "broadcast_all msg p =
     (let me = nd_IPaddr (p_RunningNode p)
      in TcpDial msg me (Broadcast me (getNeighborNodes p) msg p))"

definition set2DMap :: "bool \<Rightarrow> bytes \<Rightarrow> Node \<Rightarrow> PbftNode \<Rightarrow> PbftNode" where
  "set2DMap isPrePareConfirm key val p =
     (if isPrePareConfirm
      then p\<lparr>p_cntPrepareConfirm := (p_cntPrepareConfirm p)(key := p_cntPrepareConfirm p key @ [val])\<rparr>
      else p\<lparr>p_cntCommitConfirm := (p_cntCommitConfirm p)(key := p_cntCommitConfirm p key @ [val])\<rparr>)"

definition getDigest :: "xlib \<Rightarrow> Request \<Rightarrow> bytes" where
  "getDigest X r = x_digest X r"

text \<open>An \<open>int64\<close> sum.\<close>

definition computeTCL :: "Transaction list \<Rightarrow> time \<Rightarrow> int" where
  "computeTCL txs commitTS =
     foldl (\<lambda>r tx. sint (of_int (r + Milliseconds (time_Sub commitTS (tx_Time tx))) :: u64)) 0 txs"

text \<open>Slicing with the negative bound \<open>-removedCnt\<close> panics unless nothing was removed.\<close>

definition DeleteElementsInList :: "Transaction list \<Rightarrow> Transaction list \<Rightarrow> Transaction list res" where
  "DeleteElementsInList list elements =
     (let removedCnt = length (filter (\<lambda>tx. tx_TxHash tx \<in> tx_TxHash ` set elements) list)
      in if removedCnt = 0 then Inr (take 0 list) else Inl IndexOutOfRange)"

definition is_leader :: "PbftNode \<Rightarrow> bool" where
  "is_leader p \<longleftrightarrow> of_int (p_view p) = p_NodeID p"

definition isBridgeMode :: "PbftNode \<Rightarrow> bool" where
  "isBridgeMode p \<longleftrightarrow> p_bridges p \<noteq> None"

definition quorum :: "PbftNode \<Rightarrow> u64" where
  "quorum p = 2 * p_malicious_nums p + 1"

section \<open>Proposing\<close>

text \<open>What follows \<open>HandleinPropose\<close> in a round of the proposing goroutine.\<close>

definition publish :: "xlib \<Rightarrow> Request \<Rightarrow> PbftNode \<Rightarrow> PbftNode" where
  "publish X r p =
     (let digest = getDigest X r;
          p1 = p\<lparr>p_requestPool := (p_requestPool p)(digest \<mapsto> r)\<rparr>;
          ppmsg = \<lparr>pp_RequestMsg = r, pp_Digest = digest, pp_SeqID = p_sequenceID p1,
                   pp_B = p_bridgePreparedHash p1, pp_BlockBPKCS1 = p_bridgePreparedPKCS1 p1\<rparr>;
          p2 = p1\<lparr>p_height2Digest := (p_height2Digest p1)(p_sequenceID p1 \<mapsto> digest)\<rparr>;
          p3 = broadcast_all (WPrePrepare ppmsg) p2
      in p3\<lparr>p_pbftStage := 2, p_proposing := 0\<rparr>)"

definition propose_round :: "xlib \<Rightarrow> ExtraOp \<Rightarrow> time \<Rightarrow> PbftNode \<Rightarrow> PbftNode res" where
  "propose_round X ops now p =
     bindR (eo_HandleinPropose ops now p) (\<lambda>(ro, q).
       case ro of None \<Rightarrow> Inr q | Some r \<Rightarrow> Inr (publish X r q))"

definition Propose :: "xlib \<Rightarrow> ExtraOp \<Rightarrow> time \<Rightarrow> PbftNode \<Rightarrow> PbftNode run" where
  "Propose X ops now p =
     (if p_proposing p \<noteq> 0 then Some (propose_round X ops now p)
      else if \<not> is_leader p then Some (Inr p)
      else if p_sequenceLock p then None
      else Some (propose_round X ops now
             (p\<lparr>p_sequenceLock := True, p_sequenceLockHeld := True, p_proposing := 1\<rparr>)))"

section \<open>Pre-prepare\<close>

definition waits_PrePrepare :: "int \<Rightarrow> PrePrepare \<Rightarrow> PbftNode \<Rightarrow> bool" where
  "waits_PrePrepare curView ppmsg p \<longleftrightarrow>
     p_pbftStage p < 1 \<and> pp_SeqID ppmsg \<ge> p_sequenceID p \<and> p_view p = curView"

definition send_prepare :: "PrePrepare \<Rightarrow> PbftNode \<Rightarrow> wire" where
  "send_prepare ppmsg p =
     WPrepare \<lparr>pm_Digest = pp_Digest ppmsg, pm_SeqID = pp_SeqID ppmsg, pm_SenderNode = p_RunningNode p\<rparr>"

definition handlePrePrepare ::
  "xlib \<Rightarrow> ExtraOp \<Rightarrow> int \<Rightarrow> PrePrepare \<Rightarrow> PbftNode \<Rightarrow> PbftNode res" where
  "handlePrePrepare X ops curView ppmsg p =
     (if pp_SeqID ppmsg < p_sequenceID p \<or> p_view p \<noteq> curView then Inr p
      else let d = getDigest X (pp_RequestMsg ppmsg);
               store = (\<lambda>q. q\<lparr>p_requestPool := (p_requestPool q)(d \<mapsto> pp_RequestMsg ppmsg),
                             p_height2Digest := (p_height2Digest q)(pp_SeqID ppmsg \<mapsto> d)\<rparr>)
        in bindR (if d \<noteq> pp_Digest ppmsg then Inr (False, p)
                  else if p_sequenceID p < pp_SeqID ppmsg then Inr (False, store p)
                  else bindR (eo_HandleinPrePrepare ops ppmsg p) (\<lambda>(flag, q). Inr (flag, store q)))
           (\<lambda>(flag, q).
              if flag
              then let q1 = broadcast_all (send_prepare ppmsg q) q
                   in Inr (q1\<lparr>p_pbftStage := p_pbftStage q1 + 1\<rparr>)
              else Inr q))"

section \<open>Prepare\<close>

definition waits_Prepare :: "int \<Rightarrow> Prepare \<Rightarrow> PbftNode \<Rightarrow> bool" where
  "waits_Prepare curView pmsg p \<longleftrightarrow>
     p_pbftStage p < 2 \<and> pm_SeqID pmsg \<ge> p_sequenceID p \<and> p_view p = curView"

definition handlePrepare :: "ExtraOp \<Rightarrow> int \<Rightarrow> Prepare \<Rightarrow> PbftNode \<Rightarrow> PbftNode res" where
  "handlePrepare ops curView pmsg p =
     (if pm_SeqID pmsg < p_sequenceID p \<or> p_view p \<noteq> curView then Inr p
      else if p_requestPool p (pm_Digest pmsg) = None then Inr p
      else if p_sequenceID p < pm_SeqID pmsg then Inr p
      else bindR (eo_HandleinPrepare ops pmsg p) (\<lambda>(ok, q).
        if \<not> ok then Inr q
        else let q1 = set2DMap True (pm_Digest pmsg) (pm_SenderNode pmsg) q;
                 cnt = length (p_cntPrepareConfirm q1 (pm_Digest pmsg))
          in if of_nat cnt \<ge> quorum q1 \<and> \<not> p_isCommitBordcast q1 (pm_Digest pmsg)
             then if isBridgeMode q1 \<and> p_bridgePartialSig q1 = [] then Inr q1
               else let c = \<lparr>cm_Digest = pm_Digest pmsg, cm_SeqID = pm_SeqID pmsg,
                             cm_SenderNode = p_RunningNode q1,
                             cm_PartialSig = (if isBridgeMode q1 then p_bridgePartialSig q1 else [])\<rparr>;
                        q2 = broadcast_all (WCommit c) q1
                    in Inr (q2\<lparr>p_isCommitBordcast := (p_isCommitBordcast q2)(pm_Digest pmsg := True),
                               p_pbftStage := p_pbftStage q2 + 1\<rparr>)
             else Inr q1))"

section \<open>Commit\<close>

definition waits_Commit :: "int \<Rightarrow> Commit \<Rightarrow> PbftNode \<Rightarrow> bool" where
  "waits_Commit curView cmsg p \<longleftrightarrow>
     p_pbftStage p < 3 \<and> cm_SeqID cmsg \<ge> p_sequenceID p \<and> p_view p = curView"

definition collectBridgePartialSig :: "u64 \<Rightarrow> bytes \<Rightarrow> PbftNode \<Rightarrow> PbftNode" where
  "collectBridgePartialSig senderID partialSig p =
     (if \<not> is_leader p then p
      else if partialSig = [] then p
      else if senderID \<in> p_bridgeSigSeen p then p
      else p\<lparr>p_bridgeSigSeen := insert senderID (p_bridgeSigSeen p),
             p_bridgeSigShares := p_bridgeSigShares p @ [partialSig]\<rparr>)"

definition collectBridgeCommitSig :: "Commit \<Rightarrow> PbftNode \<Rightarrow> PbftNode" where
  "collectBridgeCommitSig cmsg p =
     collectBridgePartialSig (nd_NodeID (cm_SenderNode cmsg)) (cm_PartialSig cmsg) p"

definition hasEnoughBridgeSignatureShares :: "PbftNode \<Rightarrow> bool" where
  "hasEnoughBridgeSignatureShares p \<longleftrightarrow> length (p_bridgeSigShares p) \<ge> p_bridgeK p"

text \<open>The end of a round: stage, time of the last commit, and the proposer's lock.\<close>

definition end_round :: "int \<Rightarrow> PbftNode \<Rightarrow> PbftNode" where
  "end_round nowMilli p =
     (let q = p\<lparr>p_pbftStage := 1, p_lastCommitTime := nowMilli\<rparr>
      in if p_sequenceLockHeld q then q\<lparr>p_sequenceLockHeld := False, p_sequenceLock := False\<rparr> else q)"

text \<open>Absent entries of the address table read as the empty string.\<close>

definition ip_of :: "PbftNode \<Rightarrow> u64 \<Rightarrow> u64 \<Rightarrow> string" where
  "ip_of p sid nid = (case p_ip_nodeTable p sid nid of None \<Rightarrow> '''' | Some ip \<Rightarrow> ip)"

definition request_old :: "Commit \<Rightarrow> PbftNode \<Rightarrow> PbftNode" where
  "request_old cmsg p =
     (let sn = \<lparr>nd_NodeID = of_int (p_view p), nd_ShardID = p_ShardID p,
                nd_IPaddr = ip_of p (p_ShardID p) (of_int (p_view p))\<rparr>;
          orequest = \<lparr>rom_SeqStartHeight = p_sequenceID p + 1, rom_SeqEndHeight = cm_SeqID cmsg,
                      rom_ServerNode = sn, rom_SenderNode = p_RunningNode p\<rparr>
      in TcpDial (WRequestOld orequest) (nd_IPaddr sn) p)"

definition handleCommit ::
  "ExtraOp \<Rightarrow> time \<Rightarrow> int \<Rightarrow> Commit \<Rightarrow> PbftNode \<Rightarrow> PbftNode run" where
  "handleCommit ops now curView cmsg p =
     (if cm_SeqID cmsg < p_sequenceID p \<or> p_view p \<noteq> curView then Some (Inr p)
      else let d = cm_Digest cmsg;
               p1 = (if isBridgeMode p then collectBridgeCommitSig cmsg p else p);
               p2 = set2DMap False d (cm_SenderNode cmsg) p1;
               cnt = length (p_cntCommitConfirm p2 d)
        in if p_stopSignal p2 then Some (Inr p2)
           else if of_nat cnt \<ge> quorum p2 \<and> \<not> p_isReply p2 d
           then if p_requestPool p2 d = None
                then if p_askForLock p2 then None
                  else let p3 = p2\<lparr>p_isReply := (p_isReply p2)(d := True), p_askForLock := True\<rparr>
                       in Some (Inr (end_round (UnixMilli now) (request_old cmsg p3)))
                else if isBridgeMode p2 \<and> is_leader p2 \<and> \<not> hasEnoughBridgeSignatureShares p2
                then Some (Inr p2)
                else Some (bindR (eo_HandleinCommit ops now cmsg p2) (\<lambda>(_, p3).
                  Inr (end_round (UnixMilli now)
                    (p3\<lparr>p_isReply := (p_isReply p3)(d := True), p_sequenceID := p_sequenceID p3 + 1\<rparr>))))
           else Some (Inr p2))"

section \<open>Catching up\<close>

text \<open>
  The requests of the heights from \<open>height\<close> to \<open>endHeight\<close>, up to the first one that is missing. The
  height is a \<open>uint64\<close>: if \<open>endHeight\<close> is the largest one, the loop ends only at a missing entry.
\<close>

partial_function (option) old_requests ::
  "(u64 \<rightharpoonup> bytes) \<Rightarrow> (bytes \<rightharpoonup> Request) \<Rightarrow> u64 \<Rightarrow> u64 \<Rightarrow> Request list \<Rightarrow> Request list run" where
  "old_requests h2d pool height endHeight oldR =
     (if height > endHeight then Some (Inr oldR)
      else case h2d height of
        None \<Rightarrow> Some (Inr oldR)
      | Some d \<Rightarrow> (case pool d of
            None \<Rightarrow> Some (Inr oldR)
          | Some r \<Rightarrow> old_requests h2d pool (height + 1) endHeight (oldR @ [r])))"

definition handleRequestOldSeq :: "ExtraOp \<Rightarrow> RequestOldMessage \<Rightarrow> PbftNode \<Rightarrow> PbftNode run" where
  "handleRequestOldSeq ops rom p =
     (if \<not> is_leader p then Some (Inr p)
      else bindO (old_requests (p_height2Digest p) (p_requestPool p) (rom_SeqStartHeight rom)
                    (rom_SeqEndHeight rom) []) (\<lambda>oldR.
        bindO (Some (eo_HandleReqestforOldSeq ops rom p)) (\<lambda>(_, q).
          let sb = \<lparr>som_SeqStartHeight = rom_SeqStartHeight rom, som_SeqEndHeight = rom_SeqEndHeight rom,
                    som_OldRequest = oldR, som_SenderNode = p_RunningNode q\<rparr>
          in Some (Inr (TcpDial (WSendOld sb) (nd_IPaddr (rom_SenderNode rom)) q)))))"

fun store_old :: "xlib \<Rightarrow> u64 \<Rightarrow> Request list \<Rightarrow> PbftNode \<Rightarrow> PbftNode" where
  "store_old X seq [] p = p"
| "store_old X seq (r # rs) p =
     (let d = getDigest X r in store_old X (seq + 1) rs
        (p\<lparr>p_requestPool := (p_requestPool p)(d \<mapsto> r), p_height2Digest := (p_height2Digest p)(seq \<mapsto> d),
           p_isReply := (p_isReply p)(d := True)\<rparr>))"

text \<open>If the request of the next sequence number is already known, it is prepared at once.\<close>

definition resume_prepare :: "xlib \<Rightarrow> ExtraOp \<Rightarrow> PbftNode \<Rightarrow> PbftNode res" where
  "resume_prepare X ops p =
     (case p_height2Digest p (p_sequenceID p) of
        None \<Rightarrow> Inr p
      | Some rDigest \<Rightarrow>
          (case p_requestPool p rDigest of
             None \<Rightarrow> Inr p
           | Some r \<Rightarrow>
               let ppmsg = \<lparr>pp_RequestMsg = r, pp_Digest = getDigest X r,
                            pp_SeqID = p_sequenceID p, pp_B = [], pp_BlockBPKCS1 = []\<rparr>
               in bindR (eo_HandleinPrePrepare ops ppmsg p) (\<lambda>(flag, q).
                 if flag
                 then Inr (Broadcast (nd_IPaddr (p_RunningNode q)) (getNeighborNodes q)
                            (send_prepare ppmsg q) q)
                 else Inr q)))"

definition handleSendOldSeq :: "xlib \<Rightarrow> ExtraOp \<Rightarrow> SendOldMessage \<Rightarrow> PbftNode \<Rightarrow> PbftNode res" where
  "handleSendOldSeq X ops som p =
     bindR (eo_HandleforSequentialRequest ops som p) (\<lambda>(_, p1).
       let p2 = store_old X (som_SeqStartHeight som) (som_OldRequest som) p1;
           p3 = p2\<lparr>p_sequenceID := som_SeqEndHeight som + 1\<rparr>
       in bindR (resume_prepare X ops p3)
            (\<lambda>p4. if p_askForLock p4 then Inr (p4\<lparr>p_askForLock := False\<rparr>)
                  else Inl UnlockOfUnlocked))"

section \<open>View change\<close>

definition next_view :: "PbftNode \<Rightarrow> int res" where
  "next_view p =
     (if p_node_nums p = 0 then Inl IntegerDivideByZero
      else Inr (go_mod (p_view p + 1) (sint (p_node_nums p))))"

definition viewChangePropose :: "PbftNode \<Rightarrow> PbftNode res" where
  "viewChangePropose p0 =
     (let p = p0\<lparr>p_pbftStage := 5\<rparr> in
      bindR (next_view p) (\<lambda>nv.
        Inr (broadcast_all (WViewChange \<lparr>vc_CurView = p_view p, vc_NextView = nv,
               vc_SeqID = sint (p_sequenceID p), vc_FromNode = p_NodeID p\<rparr>) p)))"

text \<open>The timer of the view change.\<close>

definition view_change_tick :: "params \<Rightarrow> int \<Rightarrow> PbftNode \<Rightarrow> PbftNode res" where
  "view_change_tick P nowMilli p =
     (if nowMilli - p_lastCommitTime p > PbftViewChangeTimeOut P
      then viewChangePropose (p\<lparr>p_lastCommitTime := nowMilli\<rparr>) else Inr p)"

definition view_quorum :: "PbftNode \<Rightarrow> int" where
  "view_quorum p = 2 * sint (p_malicious_nums p) + 1"

definition handleViewChangeMsg :: "ViewChangeMsg \<Rightarrow> PbftNode \<Rightarrow> PbftNode res" where
  "handleViewChangeMsg vcmsg p =
     (let vcData = (vc_NextView vcmsg, vc_SeqID vcmsg);
          q = p\<lparr>p_viewChangeMap := (p_viewChangeMap p)
                 (vcData := insert (vc_FromNode vcmsg) (p_viewChangeMap p vcData))\<rparr>
      in if int (card (p_viewChangeMap q vcData)) = view_quorum q
         then bindR (next_view q) (\<lambda>nv.
           Inr (broadcast_all (WNewView \<lparr>nv_CurView = p_view q, nv_NextView = nv,
                  nv_NewSeqID = sint (p_sequenceID q), nv_FromNode = p_NodeID q\<rparr>) q))
         else Inr q)"

definition handleNewViewMsg :: "int \<Rightarrow> NewViewMsg \<Rightarrow> PbftNode \<Rightarrow> PbftNode" where
  "handleNewViewMsg nowMilli nvmsg p =
     (let vcData = (nv_NextView nvmsg, nv_NewSeqID nvmsg);
          q = p\<lparr>p_newViewMap := (p_newViewMap p)
                 (vcData := insert (nv_FromNode nvmsg) (p_newViewMap p vcData))\<rparr>
      in if int (card (p_newViewMap q vcData)) = view_quorum q
         then q\<lparr>p_view := sint (of_int (nv_NextView nvmsg) :: u32),
                p_sequenceID := of_int (nv_NewSeqID nvmsg),
                p_pbftStage := 1, p_lastCommitTime := nowMilli\<rparr>
         else q)"

definition WaitToStop :: "PbftNode \<Rightarrow> PbftNode" where
  "WaitToStop p = p\<lparr>p_stopSignal := True\<rparr>"

end
