(* ===== verification/Pbft_Control.thy ===== *)
theory Pbft_Control
  imports Pbft_Node
begin

text \<open>
  The consensus node as a state machine. A step is one handler, run to its end once the
  condition it waits for is over; the view a handler has read before it took the lock is
  part of the event, and any value is allowed, so the steps include every interleaving of the
  goroutines. A handler that blocks on a mutex or panics gives no step.

  The contract of the protocol-specific operations, the Go interface \<open>ExtraOpInConsensus\<close> and the
  handler of messages between shards, is the locale \<open>consensus_ops\<close>: they leave the control
  state of the node alone and change the current block only where the protocol lets them. What
  follows for a run of the node is proved once there.
\<close>

section \<open>Effects of sending\<close>

definition sends :: "wire \<Rightarrow> string list \<Rightarrow> (string \<times> wire) list" where
  "sends msg ips = map (\<lambda>ip. (ip, msg)) ips"

lemma Broadcast_eq:
  "Broadcast sender ips msg p = p\<lparr>p_out := p_out p @ sends msg (filter (\<lambda>ip. ip \<noteq> sender) ips)\<rparr>"
  by (induction ips arbitrary: p) (simp_all add: TcpDial_def sends_def)

lemma broadcast_all_eq:
  "broadcast_all msg p = p\<lparr>p_out := p_out p @
     sends msg (filter (\<lambda>ip. ip \<noteq> nd_IPaddr (p_RunningNode p)) (getNeighborNodes p) @ [nd_IPaddr (p_RunningNode p)])\<rparr>"
  by (simp add: broadcast_all_def Broadcast_eq TcpDial_def sends_def Let_def)

lemmas send_eqs = Broadcast_eq broadcast_all_eq TcpDial_def request_old_def

section \<open>Events and steps\<close>

datatype event =
    EPropose time
  | EPrePrepare int PrePrepare
  | EPrepare int Prepare
  | ECommit time int Commit
  | ERequestOld RequestOldMessage
  | ESendOld SendOldMessage
  | EViewChange ViewChangeMsg
  | ENewView int NewViewMsg
  | ETick int
  | EOutside time wire
  | EStop

text \<open>
  The dispatch of a received message: which handler runs, with the time and the view it will
  read.
\<close>

fun handleMessage :: "time \<Rightarrow> int \<Rightarrow> wire \<Rightarrow> event" where
  "handleMessage now curView (WPrePrepare m) = EPrePrepare curView m"
| "handleMessage now curView (WPrepare m) = EPrepare curView m"
| "handleMessage now curView (WCommit m) = ECommit now curView m"
| "handleMessage now curView (WViewChange m) = EViewChange m"
| "handleMessage now curView (WNewView m) = ENewView (UnixMilli now) m"
| "handleMessage now curView (WRequestOld m) = ERequestOld m"
| "handleMessage now curView (WSendOld m) = ESendOld m"
| "handleMessage now curView WStop = EStop"
| "handleMessage now curView w = EOutside now w"

type_synonym outside = "time \<Rightarrow> wire \<Rightarrow> PbftNode \<Rightarrow> PbftNode res"

fun event_waits :: "event \<Rightarrow> PbftNode \<Rightarrow> bool" where
  "event_waits (EPrePrepare cv m) p = waits_PrePrepare cv m p"
| "event_waits (EPrepare cv m) p = waits_Prepare cv m p"
| "event_waits (ECommit now cv m) p = waits_Commit cv m p"
| "event_waits _ p = False"

fun handle_event :: "xlib \<Rightarrow> params \<Rightarrow> ExtraOp \<Rightarrow> outside \<Rightarrow> event \<Rightarrow> PbftNode \<Rightarrow> PbftNode run" where
  "handle_event X P ops out (EPropose now) p = Propose X ops now p"
| "handle_event X P ops out (EPrePrepare cv m) p = Some (handlePrePrepare X ops cv m p)"
| "handle_event X P ops out (EPrepare cv m) p = Some (handlePrepare ops cv m p)"
| "handle_event X P ops out (ECommit now cv m) p = handleCommit ops now cv m p"
| "handle_event X P ops out (ERequestOld m) p = handleRequestOldSeq ops m p"
| "handle_event X P ops out (ESendOld m) p = Some (handleSendOldSeq X ops m p)"
| "handle_event X P ops out (EViewChange m) p = Some (handleViewChangeMsg m p)"
| "handle_event X P ops out (ENewView ms m) p = Some (Inr (handleNewViewMsg ms m p))"
| "handle_event X P ops out (ETick ms) p = Some (view_change_tick P ms p)"
| "handle_event X P ops out (EOutside now w) p = Some (out now w p)"
| "handle_event X P ops out EStop p = Some (Inr (WaitToStop p))"

definition pbft_step :: "xlib \<Rightarrow> params \<Rightarrow> ExtraOp \<Rightarrow> outside \<Rightarrow> event \<Rightarrow> PbftNode \<Rightarrow> PbftNode \<Rightarrow> bool" where
  "pbft_step X P ops out ev p q \<longleftrightarrow>
     \<not> event_waits ev p \<and> handle_event X P ops out ev p = Some (Inr q)"

text \<open>
  Which requests a step executes is read off the handler itself. \<open>handleCommit\<close> executes the request of a
  commit message when it calls \<open>HandleinCommit\<close> with it: run with operations whose \<open>HandleinCommit\<close>
  panics, it ends with that panic exactly when the call is made, since the handler has no panic of
  its own and looks at no other operation.
\<close>

definition commit_probe :: "Commit \<Rightarrow> ExtraOp" where
  "commit_probe c = \<lparr>eo_HandleinPropose = (\<lambda>_ p. Inr (None, p)), eo_HandleinPrePrepare = (\<lambda>_ p. Inr (True, p)),
     eo_HandleinPrepare = (\<lambda>_ p. Inr (True, p)),
     eo_HandleinCommit = (\<lambda>_ m p. if m = c then Inl (LogPanic ''HandleinCommit'') else Inr (True, p)),
     eo_HandleReqestforOldSeq = (\<lambda>_ p. Inr (True, p)), eo_HandleforSequentialRequest = (\<lambda>_ p. Inr (True, p))\<rparr>"

fun executed :: "event \<Rightarrow> PbftNode \<Rightarrow> bytes list" where
  "executed (ECommit now cv c) p =
     (case handleCommit (commit_probe c) now cv c p of Some (Inl _) \<Rightarrow> [cm_Digest c] | _ \<Rightarrow> [])"
| "executed _ p = []"

text \<open>A run: the events in order and the digests executed on the way.\<close>

inductive pbft_run ::
  "xlib \<Rightarrow> params \<Rightarrow> ExtraOp \<Rightarrow> outside \<Rightarrow> PbftNode \<Rightarrow> event list \<Rightarrow> bytes list \<Rightarrow> PbftNode \<Rightarrow> bool"
  for X P ops out p where
  run_nil: "pbft_run X P ops out p [] [] p"
| run_step: "pbft_run X P ops out p es ds q \<Longrightarrow> pbft_step X P ops out ev q q' \<Longrightarrow>
    pbft_run X P ops out p (es @ [ev]) (ds @ executed ev q) q'"

section \<open>The handlers of commits\<close>

text \<open>
  The node after a commit message has been counted, and the condition under which the handler goes on
  to execute the request. That it is the handler's condition is \<open>handleCommit_cases\<close> and
  \<open>executed_commit\<close> below.
\<close>

definition counted :: "Commit \<Rightarrow> PbftNode \<Rightarrow> PbftNode" where
  "counted c p = set2DMap False (cm_Digest c) (cm_SenderNode c)
     (if isBridgeMode p then collectBridgeCommitSig c p else p)"

definition executes :: "int \<Rightarrow> Commit \<Rightarrow> PbftNode \<Rightarrow> bool" where
  "executes cv c p \<longleftrightarrow>
     cm_SeqID c \<ge> p_sequenceID p \<and> p_view p = cv \<and> \<not> p_stopSignal p \<and>
     of_nat (length (p_cntCommitConfirm p (cm_Digest c)) + 1) \<ge> quorum p \<and> \<not> p_isReply p (cm_Digest c) \<and>
     p_requestPool p (cm_Digest c) \<noteq> None \<and>
     (isBridgeMode p \<and> is_leader p \<longrightarrow> hasEnoughBridgeSignatureShares (counted c p))"

lemma counted_fields [simp]:
  "p_sequenceID (counted c p) = p_sequenceID p" "p_view (counted c p) = p_view p"
  "p_stopSignal (counted c p) = p_stopSignal p" "p_isReply (counted c p) = p_isReply p"
  "p_requestPool (counted c p) = p_requestPool p" "p_malicious_nums (counted c p) = p_malicious_nums p"
  "p_NodeID (counted c p) = p_NodeID p" "p_bridges (counted c p) = p_bridges p"
  "p_askForLock (counted c p) = p_askForLock p" "p_CurChain (counted c p) = p_CurChain p"
  "p_sequenceLock (counted c p) = p_sequenceLock p" "p_newViewMap (counted c p) = p_newViewMap p"
  "p_cntCommitConfirm (counted c p) =
     (p_cntCommitConfirm p)(cm_Digest c := p_cntCommitConfirm p (cm_Digest c) @ [cm_SenderNode c])"
  by (simp_all add: counted_def set2DMap_def collectBridgeCommitSig_def collectBridgePartialSig_def)

lemma is_leader_counted [simp]: "is_leader (counted c p) = is_leader p"
  by (simp add: is_leader_def)

lemma isBridgeMode_counted [simp]: "isBridgeMode (counted c p) = isBridgeMode p"
  by (simp add: isBridgeMode_def)

lemma quorum_counted [simp]: "quorum (counted c p) = quorum p"
  by (simp add: quorum_def)

lemma handleCommit_counted:
  "handleCommit ops now cv c p =
     (if cm_SeqID c < p_sequenceID p \<or> p_view p \<noteq> cv then Some (Inr p)
      else if p_stopSignal p then Some (Inr (counted c p))
      else if of_nat (length (p_cntCommitConfirm p (cm_Digest c)) + 1) \<ge> quorum p \<and> \<not> p_isReply p (cm_Digest c)
      then if p_requestPool p (cm_Digest c) = None
        then if p_askForLock p then None
          else Some (Inr (end_round (UnixMilli now) (request_old c ((counted c p)
            \<lparr>p_isReply := (p_isReply p)(cm_Digest c := True), p_askForLock := True\<rparr>))))
        else if isBridgeMode p \<and> is_leader p \<and> \<not> hasEnoughBridgeSignatureShares (counted c p)
        then Some (Inr (counted c p))
        else Some (bindR (eo_HandleinCommit ops now c (counted c p)) (\<lambda>(_, q).
          Inr (end_round (UnixMilli now)
            (q\<lparr>p_isReply := (p_isReply q)(cm_Digest c := True), p_sequenceID := p_sequenceID q + 1\<rparr>))))
      else Some (Inr (counted c p)))"
proof -
  have *: "set2DMap False (cm_Digest c) (cm_SenderNode c)
      (if isBridgeMode p then collectBridgeCommitSig c p else p) = counted c p"
    by (simp add: counted_def)
  show ?thesis
    unfolding handleCommit_def Let_def * by simp
qed

text \<open>The ways in which the commit handler ends.\<close>

lemma handleCommit_cases:
  "handleCommit ops now cv c p =
     (if cm_SeqID c < p_sequenceID p \<or> p_view p \<noteq> cv then Some (Inr p)
      else if executes cv c p
      then Some (bindR (eo_HandleinCommit ops now c (counted c p)) (\<lambda>(_, q).
        Inr (end_round (UnixMilli now)
          (q\<lparr>p_isReply := (p_isReply q)(cm_Digest c := True), p_sequenceID := p_sequenceID q + 1\<rparr>))))
      else if \<not> p_stopSignal p \<and> of_nat (length (p_cntCommitConfirm p (cm_Digest c)) + 1) \<ge> quorum p \<and>
        \<not> p_isReply p (cm_Digest c) \<and> p_requestPool p (cm_Digest c) = None
      then if p_askForLock p then None
        else Some (Inr (end_round (UnixMilli now) (request_old c ((counted c p)
          \<lparr>p_isReply := (p_isReply p)(cm_Digest c := True), p_askForLock := True\<rparr>))))
      else Some (Inr (counted c p)))"
  unfolding handleCommit_counted executes_def not_less [symmetric]
  by (cases "p_requestPool p (cm_Digest c)") auto

lemma executed_commit: "executed (ECommit now cv c) p = (if executes cv c p then [cm_Digest c] else [])"
proof (cases "cm_SeqID c < p_sequenceID p \<or> p_view p \<noteq> cv")
  case True
  then have "\<not> executes cv c p" by (auto simp: executes_def not_le)
  with True show ?thesis by (simp add: handleCommit_cases)
next
  case False
  then show ?thesis by (simp add: handleCommit_cases commit_probe_def)
qed

declare executed.simps(1) [simp del] executed_commit [simp]

section \<open>The contract of the protocol-specific operations\<close>

text \<open>The votes, the replied digests, the view and the identity of a node, and its current block.\<close>

definition core ::
  "PbftNode \<Rightarrow> u64 \<times> u64 \<times> int \<times> (int \<times> int \<Rightarrow> u64 set) \<times> (bytes \<Rightarrow> Node list) \<times> (bytes \<Rightarrow> bool)" where
  "core p = (p_NodeID p, p_malicious_nums p, p_view p, p_newViewMap p, p_cntCommitConfirm p, p_isReply p)"

definition head :: "PbftNode \<Rightarrow> Block" where
  "head p = bc_CurrentBlock (p_CurChain p)"

definition quiet_between :: "PbftNode \<Rightarrow> PbftNode \<Rightarrow> bool" where
  "quiet_between p q \<longleftrightarrow> core q = core p \<and> p_sequenceID q = p_sequenceID p \<and> head q = head p"

lemma quiet_refl [simp]: "quiet_between p p"
  by (simp add: quiet_between_def)

lemma quiet_trans [trans]: "quiet_between p q \<Longrightarrow> quiet_between q r \<Longrightarrow> quiet_between p r"
  by (simp add: quiet_between_def)

lemmas quiet_simps = quiet_between_def core_def head_def

text \<open>The votes for a digest and the senders of the new-view messages with a key in a run.\<close>

fun votes_for :: "bytes \<Rightarrow> event \<Rightarrow> bool" where
  "votes_for d (ECommit _ _ c) = (cm_Digest c = d)"
| "votes_for d _ = False"

definition new_view_senders :: "int \<times> int \<Rightarrow> event list \<Rightarrow> u64 set" where
  "new_view_senders key es =
     {nv_FromNode m | m ms. ENewView ms m \<in> set es \<and> (nv_NextView m, nv_NewSeqID m) = key}"

definition votes :: "PbftNode \<Rightarrow> event list \<Rightarrow> bytes \<Rightarrow> nat" where
  "votes p es d = length (p_cntCommitConfirm p d) + length (filter (votes_for d) es)"

definition step_ok :: "event \<Rightarrow> PbftNode \<Rightarrow> PbftNode \<Rightarrow> bool" where
  "step_ok ev p q \<longleftrightarrow>
     p_malicious_nums q = p_malicious_nums p \<and> (\<forall>d. p_isReply p d \<longrightarrow> p_isReply q d) \<and>
     (\<forall>d. length (p_cntCommitConfirm q d) \<le> votes p [ev] d) \<and>
     (\<forall>d \<in> set (executed ev p). \<not> p_isReply p d \<and> p_isReply q d \<and> unat (quorum p) \<le> votes p [ev] d) \<and>
     (executed ev p = [] \<and> (\<forall>m. ev \<noteq> ESendOld m) \<longrightarrow> head q = head p) \<and>
     ((\<forall>m. ev \<noteq> ESendOld m) \<and> (\<forall>ms m. ev \<noteq> ENewView ms m) \<longrightarrow>
        p_sequenceID q = p_sequenceID p + of_nat (length (executed ev p)))"

definition views_ok :: "PbftNode \<Rightarrow> event list \<Rightarrow> PbftNode \<Rightarrow> bool" where
  "views_ok p es q \<longleftrightarrow>
     p_malicious_nums q = p_malicious_nums p \<and>
     (\<forall>key. p_newViewMap q key \<subseteq> p_newViewMap p key \<union> new_view_senders key es) \<and>
     (p_view q \<noteq> p_view p \<longrightarrow>
       (\<exists>key. view_quorum p \<le> int (card (p_newViewMap p key \<union> new_view_senders key es))))"

text \<open>The events that may change the core or the current block.\<close>

fun loud :: "event \<Rightarrow> bool" where
  "loud (ECommit _ _ _) = True"
| "loud (ESendOld _) = True"
| "loud (ENewView _ _) = True"
| "loud _ = False"

locale consensus_ops =
  fixes ops :: ExtraOp and out :: outside
  assumes propose_quiet: "eo_HandleinPropose ops now p = Inr (ro, q) \<Longrightarrow> quiet_between p q"
    and preprepare_quiet: "eo_HandleinPrePrepare ops ppm p = Inr (b, q) \<Longrightarrow> quiet_between p q"
    and prepare_quiet: "eo_HandleinPrepare ops pm p = Inr (b, q) \<Longrightarrow> quiet_between p q"
    and commit_core: "eo_HandleinCommit ops now cm p = Inr (b, q) \<Longrightarrow>
      core q = core p \<and> p_sequenceID q = p_sequenceID p"
    and old_quiet: "eo_HandleReqestforOldSeq ops rom p = Inr (b, q) \<Longrightarrow> quiet_between p q"
    and sequential_core: "eo_HandleforSequentialRequest ops som p = Inr (b, q) \<Longrightarrow> core q = core p"
    and out_quiet: "out now w p = Inr q \<Longrightarrow> quiet_between p q"
begin

lemma publish_quiet: "quiet_between p (publish X r p)"
  by (simp add: publish_def Let_def send_eqs quiet_simps)

lemma propose_round_quiet:
  assumes "propose_round X ops now p = Inr q"
  shows "quiet_between p q"
proof -
  obtain ro r where "eo_HandleinPropose ops now p = Inr (ro, r)" "q = r \<or> (\<exists>rq. q = publish X rq r)"
    using assms by (auto simp: propose_round_def bindR_Inr_iff split: option.splits)
  then show ?thesis using propose_quiet publish_quiet quiet_trans by blast
qed

lemma Propose_quiet:
  assumes "Propose X ops now p = Some (Inr q)"
  shows "quiet_between p q"
proof -
  consider "q = p" | "propose_round X ops now p = Inr q"
    | "propose_round X ops now (p\<lparr>p_sequenceLock := True, p_sequenceLockHeld := True, p_proposing := 1\<rparr>) = Inr q"
    using assms by (auto simp: Propose_def split: if_splits)
  then show ?thesis
  proof cases
    case 3
    from propose_round_quiet [OF this] show ?thesis by (simp add: quiet_simps)
  qed (use propose_round_quiet in simp_all)
qed

lemma handlePrePrepare_quiet:
  assumes "handlePrePrepare X ops cv m p = Inr q"
  shows "quiet_between p q"
proof (cases "pp_SeqID m < p_sequenceID p \<or> p_view p \<noteq> cv")
  case False
  let ?d = "getDigest X (pp_RequestMsg m)"
  let ?store = "\<lambda>q. q\<lparr>p_requestPool := (p_requestPool q)(?d \<mapsto> pp_RequestMsg m),
    p_height2Digest := (p_height2Digest q)(pp_SeqID m \<mapsto> ?d)\<rparr>"
  let ?E = "if ?d \<noteq> pp_Digest m then Inr (False, p)
      else if p_sequenceID p < pp_SeqID m then Inr (False, ?store p)
      else bindR (eo_HandleinPrePrepare ops m p) (\<lambda>(flag, q). Inr (flag, ?store q))"
  let ?F = "\<lambda>(flag, q). if flag then Inr ((broadcast_all (send_prepare m q) q)
      \<lparr>p_pbftStage := p_pbftStage (broadcast_all (send_prepare m q) q) + 1\<rparr>) else Inr q"
  have "bindR ?E ?F = Inr q"
    using assms False by (simp only: handlePrePrepare_def Let_def if_False)
  then obtain x where x: "?E = Inr x" "?F x = (Inr q :: PbftNode res)"
    by (rule bindR_InrE)
  obtain flag r where xe: "x = (flag, r)" by (cases x)
  note r = x(1) [unfolded xe] and F = x(2) [unfolded xe]
  have "quiet_between p r"
    using r preprepare_quiet [of m p]
    by (auto simp: bindR_Inr_iff quiet_simps split: if_splits)
  moreover have "quiet_between r q"
    using F by (auto simp: send_eqs quiet_simps split: if_splits)
  ultimately show ?thesis by (rule quiet_trans)
qed (use assms in \<open>simp add: handlePrePrepare_def\<close>)

lemma handlePrepare_quiet:
  assumes "handlePrepare ops cv m p = Inr q"
  shows "quiet_between p q"
proof (cases "q = p")
  case False
  then obtain ok r where r: "eo_HandleinPrepare ops m p = Inr (ok, r)" "quiet_between r q"
    using assms
    by (auto simp: handlePrepare_def Let_def bindR_Inr_iff send_eqs set2DMap_def quiet_simps split: if_splits)
  then show ?thesis using prepare_quiet quiet_trans by blast
qed simp

lemma handleRequestOldSeq_quiet:
  assumes "handleRequestOldSeq ops m p = Some (Inr q)"
  shows "quiet_between p q"
proof (cases "is_leader p")
  case True
  then obtain b r where r: "eo_HandleReqestforOldSeq ops m p = Inr (b, r)" "quiet_between r q"
    using assms by (auto simp: handleRequestOldSeq_def Let_def bindO_Inr_iff send_eqs quiet_simps)
  then show ?thesis using old_quiet quiet_trans by blast
qed (use assms in \<open>simp add: handleRequestOldSeq_def\<close>)

lemma quiet_step:
  assumes "pbft_step X P ops out ev p q" "\<not> loud ev"
  shows "quiet_between p q"
proof (cases ev)
  case (EViewChange m)
  then show ?thesis using assms
    by (auto simp: pbft_step_def handleViewChangeMsg_def Let_def bindR_Inr_iff send_eqs quiet_simps split: if_splits)
next
  case (ETick ms)
  then show ?thesis using assms
    by (auto simp: pbft_step_def view_change_tick_def viewChangePropose_def Let_def bindR_Inr_iff send_eqs
        quiet_simps split: if_splits)
next
  case EStop
  then show ?thesis using assms by (auto simp: pbft_step_def WaitToStop_def quiet_simps)
qed (use assms in \<open>auto simp: pbft_step_def intro: Propose_quiet handlePrePrepare_quiet handlePrepare_quiet
      handleRequestOldSeq_quiet out_quiet\<close>)

text \<open>The commit handler: what it counts, and what an execution needs and does.\<close>

lemma end_round_fields [simp]:
  "core (end_round t p) = core p" "p_sequenceID (end_round t p) = p_sequenceID p"
  "head (end_round t p) = head p" "p_isReply (end_round t p) = p_isReply p"
  by (simp_all add: end_round_def core_def head_def Let_def)

lemma commit_step:
  assumes "pbft_step X P ops out (ECommit now cv c) p q"
  shows "p_NodeID q = p_NodeID p \<and> p_malicious_nums q = p_malicious_nums p \<and> p_view q = p_view p \<and>
    p_newViewMap q = p_newViewMap p"
    and "p_cntCommitConfirm q = p_cntCommitConfirm p \<and> \<not> executes cv c p \<or>
      p_cntCommitConfirm q = p_cntCommitConfirm (counted c p)"
    and "p_isReply p d \<Longrightarrow> p_isReply q d"
    and "\<not> executes cv c p \<Longrightarrow> p_sequenceID q = p_sequenceID p \<and> head q = head p"
    and "executes cv c p \<Longrightarrow> p_isReply q (cm_Digest c) \<and> p_sequenceID q = p_sequenceID p + 1"
proof -
  have h: "handleCommit ops now cv c p = Some (Inr q)"
    using assms by (simp add: pbft_step_def)
  consider (skip) "\<not> executes cv c p" "q = p" | (count) "\<not> executes cv c p" "q = counted c p"
    | (ask) "\<not> executes cv c p" "q = end_round (UnixMilli now) (request_old c ((counted c p)
          \<lparr>p_isReply := (p_isReply p)(cm_Digest c := True), p_askForLock := True\<rparr>))"
    | (exec) b r where "executes cv c p" "eo_HandleinCommit ops now c (counted c p) = Inr (b, r)"
       "q = end_round (UnixMilli now)
          (r\<lparr>p_isReply := (p_isReply r)(cm_Digest c := True), p_sequenceID := p_sequenceID r + 1\<rparr>)"
  proof (cases "executes cv c p")
    case True
    then have "\<not> (cm_SeqID c < p_sequenceID p \<or> p_view p \<noteq> cv)" by (auto simp: executes_def)
    then show thesis using h True exec
      by (auto simp: handleCommit_cases bindR_Inr_iff)
  next
    case False
    then show thesis using h skip count ask
      by (simp add: handleCommit_cases split: if_splits)
  qed
  note c = this
  have e: "core r = core (counted c p) \<and> p_sequenceID r = p_sequenceID p"
    if "eo_HandleinCommit ops now c (counted c p) = Inr (b, r)" for b r
    using commit_core [OF that] by simp
  have core_q: "p_NodeID q = p_NodeID p \<and> p_malicious_nums q = p_malicious_nums p \<and> p_view q = p_view p \<and>
      p_newViewMap q = p_newViewMap p \<and> (p_isReply p d \<longrightarrow> p_isReply q d) \<and>
      (p_cntCommitConfirm q = p_cntCommitConfirm p \<and> \<not> executes cv c p \<or>
       p_cntCommitConfirm q = p_cntCommitConfirm (counted c p))" for d
    using c
  proof cases
    case (exec b r)
    then show ?thesis using e [OF exec(2)] by (simp add: core_def end_round_def Let_def)
  qed (simp_all add: end_round_def request_old_def TcpDial_def Let_def)
  then show "p_NodeID q = p_NodeID p \<and> p_malicious_nums q = p_malicious_nums p \<and> p_view q = p_view p \<and>
      p_newViewMap q = p_newViewMap p"
    and "p_cntCommitConfirm q = p_cntCommitConfirm p \<and> \<not> executes cv c p \<or>
      p_cntCommitConfirm q = p_cntCommitConfirm (counted c p)"
    and "p_isReply p d \<Longrightarrow> p_isReply q d" by blast+
  show "p_sequenceID q = p_sequenceID p \<and> head q = head p" if "\<not> executes cv c p"
    using c that by cases (auto simp: end_round_def head_def request_old_def TcpDial_def Let_def)
  show "p_isReply q (cm_Digest c) \<and> p_sequenceID q = p_sequenceID p + 1" if "executes cv c p"
    using c that e by cases auto
qed

lemma store_old_core:
  "core (store_old X n rs p) =
     (p_NodeID p, p_malicious_nums p, p_view p, p_newViewMap p, p_cntCommitConfirm p, p_isReply (store_old X n rs p))"
  "p_isReply p d \<Longrightarrow> p_isReply (store_old X n rs p) d"
  by (induction rs arbitrary: n p) (simp_all add: core_def Let_def)

lemma resume_quiet:
  assumes "resume_prepare X ops p = Inr q"
  shows "quiet_between p q"
proof (cases "q = p")
  case False
  then obtain m b r where r: "eo_HandleinPrePrepare ops m p = Inr (b, r)" "quiet_between r q"
    using assms by (auto simp: resume_prepare_def Let_def bindR_Inr_iff send_eqs quiet_simps
        split: option.splits if_splits)
  then show ?thesis using preprepare_quiet quiet_trans by blast
qed simp

lemma old_step:
  assumes "pbft_step X P ops out (ESendOld m) p q"
  shows "p_NodeID q = p_NodeID p \<and> p_malicious_nums q = p_malicious_nums p \<and> p_view q = p_view p \<and>
    p_newViewMap q = p_newViewMap p \<and> p_cntCommitConfirm q = p_cntCommitConfirm p"
    and "p_isReply p d \<Longrightarrow> p_isReply q d"
proof -
  obtain b p1 where 1: "eo_HandleforSequentialRequest ops m p = Inr (b, p1)"
    and q: "core q = core (store_old X (som_SeqStartHeight m) (som_OldRequest m) p1)"
  proof -
    have "handleSendOldSeq X ops m p = Inr q" using assms by (simp add: pbft_step_def)
    then obtain b p1 p4 where 1: "eo_HandleforSequentialRequest ops m p = Inr (b, p1)"
      and 4: "resume_prepare X ops (store_old X (som_SeqStartHeight m) (som_OldRequest m) p1
          \<lparr>p_sequenceID := som_SeqEndHeight m + 1\<rparr>) = Inr p4"
      and q: "core q = core p4"
      by (auto simp: handleSendOldSeq_def Let_def bindR_Inr_iff core_def split: if_splits)
    then show thesis using that resume_quiet [OF 4] by (auto simp: quiet_simps)
  qed
  from 1 q sequential_core [OF 1] store_old_core(1) [of X "som_SeqStartHeight m" "som_OldRequest m" p1]
    store_old_core(2) [of p1 d X "som_SeqStartHeight m" "som_OldRequest m"]
  show "p_NodeID q = p_NodeID p \<and> p_malicious_nums q = p_malicious_nums p \<and> p_view q = p_view p \<and>
    p_newViewMap q = p_newViewMap p \<and> p_cntCommitConfirm q = p_cntCommitConfirm p"
    and "p_isReply p d \<Longrightarrow> p_isReply q d"
    by (auto simp: core_def)
qed

lemma new_view_step:
  assumes "pbft_step X P ops out (ENewView ms m) p q"
  shows "p_malicious_nums q = p_malicious_nums p \<and> p_cntCommitConfirm q = p_cntCommitConfirm p \<and>
      p_isReply q = p_isReply p \<and> head q = head p \<and>
      p_newViewMap q = (p_newViewMap p)((nv_NextView m, nv_NewSeqID m) :=
        insert (nv_FromNode m) (p_newViewMap p (nv_NextView m, nv_NewSeqID m)))"
    and "p_view q \<noteq> p_view p \<Longrightarrow>
      int (card (p_newViewMap q (nv_NextView m, nv_NewSeqID m))) = view_quorum p"
  using assms by (auto simp: pbft_step_def handleNewViewMsg_def Let_def head_def view_quorum_def split: if_splits)

section \<open>Runs\<close>

lemma step_ok_quiet:
  assumes "quiet_between p q" "\<not> loud ev"
  shows "step_ok ev p q"
proof -
  have "executed ev p = []" using assms(2) by (cases ev) simp_all
  moreover have "\<not> votes_for d ev" for d using assms(2) by (cases ev) simp_all
  ultimately show ?thesis using assms(1) by (auto simp: step_ok_def quiet_simps votes_def)
qed

lemma quorum_votes:
  assumes "quorum p \<le> of_nat (n + 1)"
  shows "unat (quorum p) \<le> n + 1"
proof -
  have "unat (quorum p) \<le> unat (of_nat (n + 1) :: u64)" using assms by (simp add: word_le_nat_alt)
  also have "\<dots> \<le> n + 1" by (metis mod_less_eq_dividend unat_of_nat)
  finally show ?thesis .
qed

lemma step_ok:
  assumes "pbft_step X P ops out ev p q"
  shows "step_ok ev p q"
proof (cases ev)
  case (ECommit now cv c)
  note cs = commit_step [OF assms [unfolded ECommit]]
  have cnt: "length (p_cntCommitConfirm q d) \<le> votes p [ev] d" for d
    using cs(2) by (auto simp: votes_def ECommit)
  have ex: "\<not> p_isReply p (cm_Digest c) \<and> unat (quorum p) \<le> votes p [ev] (cm_Digest c)"
    if "executes cv c p"
    using that quorum_votes [of p "length (p_cntCommitConfirm p (cm_Digest c))"]
    by (simp add: executes_def votes_def ECommit)
  show ?thesis
    unfolding step_ok_def using cs(1,3,4,5) cnt ex by (simp add: ECommit)
next
  case (ESendOld m)
  then show ?thesis
    using old_step [OF assms [unfolded ESendOld]] by (simp add: step_ok_def votes_def)
next
  case (ENewView ms m)
  then show ?thesis
    using new_view_step(1) [OF assms [unfolded ENewView]] by (simp add: step_ok_def votes_def)
qed (use quiet_step [OF assms] step_ok_quiet in simp_all)

lemma quorum_cong: "p_malicious_nums q = p_malicious_nums p \<Longrightarrow> quorum q = quorum p"
  by (simp add: quorum_def)

theorem run_votes:
  assumes "pbft_run X P ops out p es ds q"
  shows "p_malicious_nums q = p_malicious_nums p \<and> (\<forall>d. p_isReply p d \<longrightarrow> p_isReply q d) \<and>
    (\<forall>d. length (p_cntCommitConfirm q d) \<le> votes p es d) \<and> distinct ds \<and>
    (\<forall>d \<in> set ds. \<not> p_isReply p d \<and> p_isReply q d \<and> unat (quorum p) \<le> votes p es d)"
  using assms
proof (induction rule: pbft_run.induct)
  case run_nil
  then show ?case by (simp add: votes_def)
next
  case (run_step es ds q ev q')
  note s = step_ok [OF run_step.hyps(2), unfolded step_ok_def]
  have v: "votes q [ev] d \<le> votes p (es @ [ev]) d" for d
    using run_step.IH by (simp add: votes_def)
  have m: "votes p es d \<le> votes p (es @ [ev]) d" for d by (simp add: votes_def)
  have qu: "quorum q = quorum p" using run_step.IH quorum_cong by blast
  have dis: "distinct (executed ev q)" by (cases ev) auto
  show ?case
  proof (intro conjI allI impI ballI)
    show "length (p_cntCommitConfirm q' d) \<le> votes p (es @ [ev]) d" for d
      using s v le_trans by blast
    show "distinct (ds @ executed ev q)" using run_step.IH s dis by auto
    show "unat (quorum p) \<le> votes p (es @ [ev]) d" if "d \<in> set (ds @ executed ev q)" for d
      using that run_step.IH s v m qu le_trans by (metis Un_iff set_append)
  qed (use run_step.IH s in auto)
qed

theorem run_head:
  assumes "pbft_run X P ops out p es ds q" "ds = []" "\<forall>m. ESendOld m \<notin> set es"
  shows "head q = head p"
  using assms
proof (induction rule: pbft_run.induct)
  case (run_step es ds q ev q')
  then show ?case using step_ok [OF run_step.hyps(2)] by (auto simp: step_ok_def)
qed simp

theorem run_sequence:
  assumes "pbft_run X P ops out p es ds q" "\<forall>m. ESendOld m \<notin> set es" "\<forall>ms m. ENewView ms m \<notin> set es"
  shows "p_sequenceID q = p_sequenceID p + of_nat (length ds)"
  using assms
proof (induction rule: pbft_run.induct)
  case (run_step es ds q ev q')
  then have "p_sequenceID q' = p_sequenceID q + of_nat (length (executed ev q))"
    using step_ok [OF run_step.hyps(2)] by (auto simp: step_ok_def)
  then show ?case using run_step by (simp add: add.assoc)
qed simp

lemma finite_senders: "finite (new_view_senders key es)"
proof (rule finite_subset)
  show "new_view_senders key es \<subseteq> (\<lambda>ev. case ev of ENewView ms m \<Rightarrow> nv_FromNode m | _ \<Rightarrow> 0) ` set es"
    by (force simp: new_view_senders_def)
qed simp

lemma senders_mono: "new_view_senders key es \<subseteq> new_view_senders key (es @ [ev])"
  by (auto simp: new_view_senders_def)

lemma view_step:
  assumes "pbft_step X P ops out ev p q"
  shows "p_newViewMap q key \<subseteq> p_newViewMap p key \<union> new_view_senders key [ev]"
    and "p_view q \<noteq> p_view p \<Longrightarrow> \<exists>key. view_quorum p = int (card (p_newViewMap q key))"
proof -
  have same: "p_newViewMap q = p_newViewMap p \<and> p_view q = p_view p" if "\<nexists>ms m. ev = ENewView ms m"
  proof (cases "loud ev")
    case True
    then show ?thesis using that assms commit_step(1) old_step(1) by (cases ev) auto
  next
    case False
    then show ?thesis using quiet_step [OF assms] by (simp add: quiet_simps)
  qed
  show "p_newViewMap q key \<subseteq> p_newViewMap p key \<union> new_view_senders key [ev]"
    using same new_view_step(1) [of X P _ _ p q] assms
    by (cases "\<exists>ms m. ev = ENewView ms m") (auto simp: new_view_senders_def split: if_splits)
  show "\<exists>key. view_quorum p = int (card (p_newViewMap q key))" if "p_view q \<noteq> p_view p"
    using same that new_view_step(2) [of X P _ _ p q] assms by metis
qed

theorem run_views:
  assumes "pbft_run X P ops out p es ds q" "\<forall>key. finite (p_newViewMap p key)"
  shows "views_ok p es q"
  using assms
proof (induction rule: pbft_run.induct)
  case run_nil
  then show ?case by (simp add: views_ok_def)
next
  case (run_step es ds q ev q')
  note IH = run_step.IH [OF run_step.prems, unfolded views_ok_def]
  have mal: "p_malicious_nums q' = p_malicious_nums p"
    using step_ok [OF run_step.hyps(2)] IH by (simp add: step_ok_def)
  have new: "p_newViewMap q' key \<subseteq> p_newViewMap p key \<union> new_view_senders key (es @ [ev])" for key
    using view_step(1) [OF run_step.hyps(2), of key] IH by (fastforce simp: new_view_senders_def)
  have "\<exists>key. view_quorum p \<le> int (card (p_newViewMap p key \<union> new_view_senders key (es @ [ev])))"
    if ne: "p_view q' \<noteq> p_view p"
  proof (cases "p_view q = p_view p")
    case True
    then obtain key where "view_quorum q = int (card (p_newViewMap q' key))"
      using view_step(2) [OF run_step.hyps(2)] ne by metis
    moreover have "view_quorum q = view_quorum p" using IH by (simp add: view_quorum_def)
    moreover have "card (p_newViewMap q' key) \<le> card (p_newViewMap p key \<union> new_view_senders key (es @ [ev]))"
      using new run_step.prems by (intro card_mono) (auto simp: finite_senders)
    ultimately show ?thesis by (metis of_nat_le_iff)
  next
    case False
    then obtain key where k: "view_quorum p \<le> int (card (p_newViewMap p key \<union> new_view_senders key es))"
      using IH by blast
    moreover have "card (p_newViewMap p key \<union> new_view_senders key es)
        \<le> card (p_newViewMap p key \<union> new_view_senders key (es @ [ev]))"
      using run_step.prems senders_mono [of key es ev] by (intro card_mono) (auto simp: finite_senders)
    ultimately show ?thesis by (metis of_nat_le_iff order_trans)
  qed
  then show ?case using mal new by (simp add: views_ok_def)
qed

end

end
