(* ===== verification/Pbft_Relay.thy ===== *)
theory Pbft_Relay
  imports Pbft_Node
begin

text \<open>
  The two plain protocols of a consensus node: transaction relay
  (\<open>pbftInside_module.go\<close>, \<open>pbftOutside_module.go\<close>, the senders of \<open>toolFuncs.go\<close>) and broker
  (\<open>pbftInside_moduleBroker.go\<close>, \<open>pbftOutside_moduleBroker.go\<close>). The pool's lock, taken and
  released around the reading of its length for the metrics row, is not shown.
\<close>

section \<open>Operations shared by the protocols\<close>

text \<open>\<open>HandleinPropose\<close>: a new block as a request.\<close>

definition propose_block :: "xlib \<Rightarrow> params \<Rightarrow> time \<Rightarrow> PbftNode \<Rightarrow> (Request \<times> PbftNode) res" where
  "propose_block X P now p =
     bindR (GenerateBlock (x_lib X) P now (ucast (p_NodeID p)) (p_CurChain p)) (\<lambda>(block, bc).
       Inr (\<lparr>rq_Type = BlockRequest, rq_Content = B_Encode block, rq_ReqTime = now\<rparr>,
            p\<lparr>p_CurChain := bc\<rparr>))"

text \<open>A \<open>HandleinPropose\<close> that runs in one part.\<close>

definition proposed :: "(Request \<times> PbftNode) res \<Rightarrow> (Request option \<times> PbftNode) res" where
  "proposed m = bindR m (\<lambda>(r, q). Inr (Some r, q))"

text \<open>\<open>HandleinPrePrepare\<close>: the block must be valid on this chain.\<close>

definition check_block :: "xlib \<Rightarrow> PrePrepare \<Rightarrow> PbftNode \<Rightarrow> (bool \<times> PbftNode) res" where
  "check_block X ppmsg p =
     bindR (DecodeB (rq_Content (pp_RequestMsg ppmsg))) (\<lambda>b.
       case IsValidBlock (x_lib X) b (p_CurChain p) of
         Inl _ \<Rightarrow> Inr (False, p)
       | Inr _ \<Rightarrow> Inr (True, p\<lparr>p_requestPool := (p_requestPool p)(pp_Digest ppmsg \<mapsto> pp_RequestMsg ppmsg)\<rparr>))"

definition no_prepare_op :: "Prepare \<Rightarrow> PbftNode \<Rightarrow> (bool \<times> PbftNode) res" where
  "no_prepare_op pmsg p = Inr (True, p)"

definition no_old_op :: "RequestOldMessage \<Rightarrow> PbftNode \<Rightarrow> (bool \<times> PbftNode) res" where
  "no_old_op rom p = Inr (True, p)"

text \<open>\<open>AddBlock\<close> makes the very block object the current block when it accepts it.\<close>

definition accepts :: "Block \<Rightarrow> BlockChain \<Rightarrow> bool" where
  "accepts b bc \<longleftrightarrow> bh_Number (b_Header b) = bh_Number (b_Header (bc_CurrentBlock bc)) + 1 \<and>
     bh_ParentBlockHash (b_Header b) = b_Hash (bc_CurrentBlock bc)"

definition metrics_row ::
  "Block \<Rightarrow> BlockInfoMsg \<Rightarrow> int \<Rightarrow> nat \<Rightarrow> Transaction list \<Rightarrow> Transaction list \<Rightarrow> int list" where
  "metrics_row block bim epoch poolSize txs1 txs2 =
     [uint (bh_Number (b_Header block)), epoch, int poolSize, int (length (b_Body block)),
      int (length txs1), int (length txs2), UnixMilli (bi_ProposeTime bim), UnixMilli (bi_CommitTime bim),
      computeTCL (b_Body block) (bi_CommitTime bim), computeTCL txs1 (bi_CommitTime bim),
      computeTCL txs2 (bi_CommitTime bim)]"

definition zeroInfo :: BlockInfoMsg where
  "zeroInfo = \<lparr>bi_BlockBodyLength = 0, bi_InnerShardTxs = [], bi_Epoch = 0, bi_ProposeTime = 0,
     bi_CommitTime = 0, bi_SenderShardID = 0, bi_Relay1Txs = [], bi_Relay2Txs = [], bi_Broker1Txs = [],
     bi_Broker2Txs = [], bi_Bridge1Txs = [], bi_Bridge2Txs = [], bi_BridgeForwardTxs = [], bi_JointSig = []\<rparr>"

text \<open>Adding the blocks of a catch-up message, by index.\<close>

definition add_request :: "xlib \<Rightarrow> params \<Rightarrow> Request \<Rightarrow> BlockChain \<Rightarrow> BlockChain res" where
  "add_request X P r bc =
     (if rq_Type r = BlockRequest then bindR (DecodeB (rq_Content r)) (\<lambda>b. AddBlock (x_lib X) P b bc)
      else Inr bc)"

fun seq_loop :: "xlib \<Rightarrow> params \<Rightarrow> Request list \<Rightarrow> nat \<Rightarrow> nat \<Rightarrow> BlockChain \<Rightarrow> BlockChain res" where
  "seq_loop X P reqs i 0 bc = Inr bc"
| "seq_loop X P reqs i (Suc n) bc =
     (if i < length reqs then bindR (add_request X P (reqs ! i) bc) (seq_loop X P reqs (i + 1) n)
      else Inl IndexOutOfRange)"

text \<open>
  The loop over the heights from the start to the end. When the end is the largest \<open>uint64\<close> the
  loop does not stop there and runs out of the list.
\<close>

definition seq_heights :: "xlib \<Rightarrow> params \<Rightarrow> SendOldMessage \<Rightarrow> BlockChain \<Rightarrow> BlockChain res" where
  "seq_heights X P som bc =
     (let s = som_SeqStartHeight som; e = som_SeqEndHeight som in
      if s > e then Inr bc
      else bindR (seq_loop X P (som_OldRequest som) 0 (unat (e - s) + 1) bc) (\<lambda>bc'.
        if e = - 1 then Inl IndexOutOfRange else Inr bc'))"

text \<open>The identifiers of all shards, in the order of the loops over them.\<close>

definition shard_ids :: "PbftNode \<Rightarrow> u64 list" where
  "shard_ids p = map of_nat [0..<unat (cc_ShardNums (p_pbftChainConfig p))]"

section \<open>Relay: inside the shard\<close>

text \<open>
  The loop of \<open>HandleinCommit\<close>: the body with the flags it sets, the transactions of the three
  kinds, and the relay pool.
\<close>

record relay_acc =
  ra_body :: "Transaction list"
  ra_inner :: "Transaction list"
  ra_relay1 :: "Transaction list"
  ra_relay2 :: "Transaction list"
  ra_pool :: TxPool

definition relay_step ::
  "params \<Rightarrow> BlockChain \<Rightarrow> u64 \<Rightarrow> Transaction \<Rightarrow> relay_acc \<Rightarrow> relay_acc res" where
  "relay_step P bc shard tx a =
     bindR (Get_PartitionMap P bc (tx_Sender tx)) (\<lambda>ssid.
     bindR (Get_PartitionMap P bc (tx_Recipient tx)) (\<lambda>rsid.
       if \<not> tx_Relayed tx \<and> ssid \<noteq> shard then Inl (LogPanic ''incorrect tx'')
       else if tx_Relayed tx \<and> rsid \<noteq> shard then Inl (LogPanic ''incorrect tx'')
       else if rsid \<noteq> shard
       then let tx' = tx\<lparr>tx_Relayed := True\<rparr> in
         bindR (AddRelayTx tx' rsid (ra_pool a)) (\<lambda>pool.
           Inr (a\<lparr>ra_body := ra_body a @ [tx'], ra_relay1 := ra_relay1 a @ [tx'], ra_pool := pool\<rparr>))
       else if tx_Relayed tx
       then Inr (a\<lparr>ra_body := ra_body a @ [tx], ra_relay2 := ra_relay2 a @ [tx]\<rparr>)
       else Inr (a\<lparr>ra_body := ra_body a @ [tx], ra_inner := ra_inner a @ [tx]\<rparr>)))"

definition relay_to :: "PbftNode \<Rightarrow> u64 \<Rightarrow> Relay" where
  "relay_to p sid = \<lparr>rl_Txs = relay_of (bc_Txpool (p_CurChain p)) sid,
     rl_SenderShardID = p_ShardID p, rl_SenderSeq = p_sequenceID p\<rparr>"

definition clear_relay :: "PbftNode \<Rightarrow> PbftNode" where
  "clear_relay p = p\<lparr>p_CurChain := (p_CurChain p)\<lparr>bc_Txpool := ClearRelayPool (bc_Txpool (p_CurChain p))\<rparr>\<rparr>"

definition RelayMsgSend :: "params \<Rightarrow> PbftNode \<Rightarrow> PbftNode res" where
  "RelayMsgSend P p =
     (if RelayWithMerkleProof P \<noteq> 0 then Inl (LogPanic ''RelayWithMerkleProof should be 0'')
      else Inr (clear_relay (fold (\<lambda>sid q. if sid = p_ShardID q then q
             else TcpDial (WRelay (relay_to q sid)) (ip_of q sid 0) q) (shard_ids p) p)))"

definition send_with_proof :: "xlib \<Rightarrow> Block \<Rightarrow> u64 \<Rightarrow> PbftNode \<Rightarrow> PbftNode res" where
  "send_with_proof X block sid p =
     (if sid = p_ShardID p then Inr p
      else let txs = relay_of (bc_Txpool (p_CurChain p)) sid in
        bindR (TxProofBatchGenerateOnBlock (x_lib X) (map tx_TxHash txs) block) (\<lambda>txProofs.
          Inr (TcpDial (WRelayWithProof \<lparr>rp_Txs = txs, rp_TxProofs = txProofs,
                 rp_SenderShardID = p_ShardID p, rp_SenderSeq = p_sequenceID p\<rparr>) (ip_of p sid 0) p)))"

definition RelayWithProofSend :: "xlib \<Rightarrow> params \<Rightarrow> Block \<Rightarrow> PbftNode \<Rightarrow> PbftNode res" where
  "RelayWithProofSend X P block p =
     (if RelayWithMerkleProof P \<noteq> 1 then Inl (LogPanic ''RelayWithMerkleProof should be 1'')
      else bindR (foldR (send_with_proof X block) (shard_ids p) p) (\<lambda>q. Inr (clear_relay q)))"

definition report_block :: "BlockInfoMsg \<Rightarrow> int list \<Rightarrow> PbftNode \<Rightarrow> PbftNode" where
  "report_block bim row p =
     (let q = TcpDial (WBlockInfo bim) (ip_of p SupervisorShard 0) p
      in q\<lparr>p_csv := p_csv q @ [row]\<rparr>)"

definition relay_leader_commit ::
  "xlib \<Rightarrow> params \<Rightarrow> time \<Rightarrow> int \<Rightarrow> Request \<Rightarrow> Block \<Rightarrow> bool \<Rightarrow> PbftNode \<Rightarrow> PbftNode res" where
  "relay_leader_commit X P now epoch r block current p =
     (let bc = p_CurChain p;
          a0 = \<lparr>ra_body = [], ra_inner = [], ra_relay1 = [], ra_relay2 = [],
                ra_pool = (bc_Txpool bc)\<lparr>RelayPool := Some Map.empty\<rparr>\<rparr>
      in bindR (foldR (relay_step P bc (p_ShardID p)) (b_Body block) a0) (\<lambda>a.
        let block' = block\<lparr>b_Body := ra_body a\<rparr>;
            bc1 = bc\<lparr>bc_Txpool := ra_pool a,
                     bc_CurrentBlock := (if current then block' else bc_CurrentBlock bc)\<rparr>;
            p1 = p\<lparr>p_CurChain := bc1\<rparr>
        in bindR (if RelayWithMerkleProof P = 1 then RelayWithProofSend X P block' p1
                  else RelayMsgSend P p1) (\<lambda>p2.
          let bim = zeroInfo\<lparr>bi_BlockBodyLength := length (b_Body block'), bi_InnerShardTxs := ra_inner a,
                bi_Epoch := epoch, bi_Relay1Txs := ra_relay1 a, bi_Relay2Txs := ra_relay2 a,
                bi_SenderShardID := p_ShardID p2, bi_ProposeTime := rq_ReqTime r, bi_CommitTime := now\<rparr>
          in Inr (report_block bim (metrics_row block' bim epoch
               (length (TxQueue (bc_Txpool (p_CurChain p2)))) (ra_relay1 a) (ra_relay2 a)) p2))))"

definition relay_HandleinCommit ::
  "xlib \<Rightarrow> params \<Rightarrow> time \<Rightarrow> Commit \<Rightarrow> PbftNode \<Rightarrow> (bool \<times> PbftNode) res" where
  "relay_HandleinCommit X P now cmsg p =
     (case p_requestPool p (cm_Digest cmsg) of
        None \<Rightarrow> Inl NilDereference
      | Some r \<Rightarrow>
          bindR (DecodeB (rq_Content r)) (\<lambda>block.
          bindR (AddBlock (x_lib X) P block (p_CurChain p)) (\<lambda>bc.
            let p1 = p\<lparr>p_CurChain := bc\<rparr> in
            if is_leader p1
            then bindR (relay_leader_commit X P now 0 r block (accepts block (p_CurChain p)) p1)
                   (\<lambda>q. Inr (True, q))
            else Inr (True, p1))))"

definition relay_HandleforSequentialRequest ::
  "xlib \<Rightarrow> params \<Rightarrow> SendOldMessage \<Rightarrow> PbftNode \<Rightarrow> (bool \<times> PbftNode) res" where
  "relay_HandleforSequentialRequest X P som p =
     (if sint (som_SeqEndHeight som - som_SeqStartHeight som + 1) \<noteq> int (length (som_OldRequest som))
      then Inr (True, p)
      else bindR (seq_heights X P som (p_CurChain p)) (\<lambda>bc.
        Inr (True, p\<lparr>p_CurChain := bc, p_sequenceID := som_SeqEndHeight som + 1\<rparr>)))"

definition relay_ops :: "xlib \<Rightarrow> params \<Rightarrow> ExtraOp" where
  "relay_ops X P =
     \<lparr>eo_HandleinPropose = (\<lambda>now p. proposed (propose_block X P now p)), eo_HandleinPrePrepare = check_block X,
      eo_HandleinPrepare = no_prepare_op, eo_HandleinCommit = relay_HandleinCommit X P,
      eo_HandleReqestforOldSeq = no_old_op,
      eo_HandleforSequentialRequest = relay_HandleforSequentialRequest X P\<rparr>"

section \<open>Relay: between shards\<close>

text \<open>A handler reads the clock once in the model: the transactions of one message without a time get the same time.\<close>

definition add_to_pool :: "time \<Rightarrow> Transaction list \<Rightarrow> PbftNode \<Rightarrow> PbftNode" where
  "add_to_pool now txs p = p\<lparr>p_CurChain := SendTx2Pool (\<lambda>_. now) txs (p_CurChain p)\<rparr>"

definition handleRelay :: "time \<Rightarrow> Relay \<Rightarrow> PbftNode \<Rightarrow> PbftNode" where
  "handleRelay now relay p =
     (let q = add_to_pool now (rl_Txs relay) p
      in q\<lparr>p_seqIDMap := AList.update (rl_SenderShardID relay) (rl_SenderSeq relay) (p_seqIDMap q)\<rparr>)"

fun all_proofs :: "xlib \<Rightarrow> Transaction list \<Rightarrow> TxProofResult list \<Rightarrow> bool res" where
  "all_proofs X [] pfs = Inr True"
| "all_proofs X (tx # txs) [] = Inl IndexOutOfRange"
| "all_proofs X (tx # txs) (pf # pfs) =
     bindR (TxProofVerify (x_lib X) (tx_TxHash tx) pf) (\<lambda>(ok, _).
       if ok then all_proofs X txs pfs else Inr False)"

definition handleRelayWithProof :: "xlib \<Rightarrow> time \<Rightarrow> RelayWithProof \<Rightarrow> PbftNode \<Rightarrow> PbftNode res" where
  "handleRelayWithProof X now rwp p =
     bindR (all_proofs X (rp_Txs rwp) (rp_TxProofs rwp)) (\<lambda>isAllCorrect.
       let q = (if isAllCorrect then add_to_pool now (rp_Txs rwp) p else p)
       in Inr (q\<lparr>p_seqIDMap := AList.update (rp_SenderShardID rwp) (rp_SenderSeq rwp) (p_seqIDMap q)\<rparr>))"

definition handleInjectTx :: "time \<Rightarrow> InjectTxs \<Rightarrow> PbftNode \<Rightarrow> PbftNode" where
  "handleInjectTx now it p = add_to_pool now (it_Txs it) p"

fun relay_HandleMessageOutsidePBFT :: "xlib \<Rightarrow> time \<Rightarrow> wire \<Rightarrow> PbftNode \<Rightarrow> PbftNode res" where
  "relay_HandleMessageOutsidePBFT X now (WRelay relay) p = Inr (handleRelay now relay p)"
| "relay_HandleMessageOutsidePBFT X now (WRelayWithProof rwp) p = handleRelayWithProof X now rwp p"
| "relay_HandleMessageOutsidePBFT X now (WInject it) p = Inr (handleInjectTx now it p)"
| "relay_HandleMessageOutsidePBFT X now _ p = Inr p"

section \<open>Broker\<close>

text \<open>The three kinds of transactions of a broker block.\<close>

definition isBroker2Tx :: "Transaction \<Rightarrow> bool" where
  "isBroker2Tx tx \<longleftrightarrow> tx_RawTxHash tx \<noteq> [] \<and> tx_Recipient tx = tx_FinalRecipient tx"

definition isBroker1Tx :: "Transaction \<Rightarrow> bool" where
  "isBroker1Tx tx \<longleftrightarrow> tx_RawTxHash tx \<noteq> [] \<and> tx_Sender tx = tx_OriginalSender tx"

fun broker_loop ::
  "Transaction list \<Rightarrow> Transaction list \<times> Transaction list \<times> Transaction list \<Rightarrow>
   Transaction list \<times> Transaction list \<times> Transaction list" where
  "broker_loop [] acc = acc"
| "broker_loop (tx # txs) (inner, b1, b2) =
     broker_loop txs
       (if isBroker2Tx tx then (inner, b1, b2 @ [tx])
        else if isBroker1Tx tx then (inner, b1 @ [tx], b2)
        else (inner @ [tx], b1, b2))"

definition zeroSeqInfo :: SeqIDinfo where
  "zeroSeqInfo = \<lparr>si_SenderShardID = 0, si_SenderSeq = 0, si_Tx2s = [], si_SenderNode = None,
     si_Values = Map.empty, si_JointSig = []\<rparr>"

definition broker_HandleinCommit ::
  "xlib \<Rightarrow> params \<Rightarrow> time \<Rightarrow> Commit \<Rightarrow> PbftNode \<Rightarrow> (bool \<times> PbftNode) res" where
  "broker_HandleinCommit X P now cmsg p =
     (case p_requestPool p (cm_Digest cmsg) of
        None \<Rightarrow> Inl NilDereference
      | Some r \<Rightarrow>
          bindR (DecodeB (rq_Content r)) (\<lambda>block.
          bindR (AddBlock (x_lib X) P block (p_CurChain p)) (\<lambda>bc.
            let p1 = p\<lparr>p_CurChain := bc\<rparr> in
            if is_leader p1
            then let (inner, b1, b2) = broker_loop (b_Body block) ([], [], []);
                     p2 = fold (\<lambda>sid q. if sid = p_ShardID q then q
                            else TcpDial (WSeqIDinfo (zeroSeqInfo\<lparr>si_SenderShardID := p_ShardID q,
                                   si_SenderSeq := p_sequenceID q\<rparr>)) (ip_of q sid 0) q) (shard_ids p1) p1;
                     bim = zeroInfo\<lparr>bi_BlockBodyLength := length (b_Body block), bi_InnerShardTxs := inner,
                             bi_Broker1Txs := b1, bi_Broker2Txs := b2, bi_Epoch := 0,
                             bi_SenderShardID := p_ShardID p2, bi_ProposeTime := rq_ReqTime r,
                             bi_CommitTime := now\<rparr>
                 in Inr (True, report_block bim (metrics_row block bim 0
                      (length (TxQueue (bc_Txpool (p_CurChain p2)))) b1 b2) p2)
            else Inr (True, p1))))"

definition broker_HandleforSequentialRequest ::
  "xlib \<Rightarrow> params \<Rightarrow> SendOldMessage \<Rightarrow> PbftNode \<Rightarrow> (bool \<times> PbftNode) res" where
  "broker_HandleforSequentialRequest X P som p =
     (if sint (som_SeqStartHeight som - som_SeqEndHeight som) \<noteq> int (length (som_OldRequest som))
      then Inr (True, p)
      else bindR (seq_heights X P som (p_CurChain p)) (\<lambda>bc.
        Inr (True, p\<lparr>p_CurChain := bc, p_sequenceID := som_SeqEndHeight som + 1\<rparr>)))"

definition broker_ops :: "xlib \<Rightarrow> params \<Rightarrow> ExtraOp" where
  "broker_ops X P =
     \<lparr>eo_HandleinPropose = (\<lambda>now p. proposed (propose_block X P now p)), eo_HandleinPrePrepare = check_block X,
      eo_HandleinPrepare = no_prepare_op, eo_HandleinCommit = broker_HandleinCommit X P,
      eo_HandleReqestforOldSeq = no_old_op,
      eo_HandleforSequentialRequest = broker_HandleforSequentialRequest X P\<rparr>"

definition broker_handleSeqIDinfos :: "SeqIDinfo \<Rightarrow> PbftNode \<Rightarrow> PbftNode" where
  "broker_handleSeqIDinfos sii p =
     p\<lparr>p_seqIDMap := AList.update (si_SenderShardID sii) (si_SenderSeq sii) (p_seqIDMap p)\<rparr>"

fun broker_HandleMessageOutsidePBFT :: "time \<Rightarrow> wire \<Rightarrow> PbftNode \<Rightarrow> PbftNode" where
  "broker_HandleMessageOutsidePBFT now (WSeqIDinfo sii) p = broker_handleSeqIDinfos sii p"
| "broker_HandleMessageOutsidePBFT now (WInject it) p = handleInjectTx now it p"
| "broker_HandleMessageOutsidePBFT now _ p = p"

end
