(* ===== verification/Pbft_Bridge.thy ===== *)
theory Pbft_Bridge
  imports Pbft_Relay
begin

text \<open>
  The bridge protocol of a consensus node (\<open>pbftInside_moduleBridge.go\<close>,
  \<open>pbftOutside_moduleBridge.go\<close>, \<open>bridge_crypto.go\<close>, \<open>pcn/pcn.go\<close>). Messages to
  different shards, which the source sends in the iteration order of a map, are sent in
  the order of the shard numbers, and those to the nodes of one shard in the order of the nodes;
  the address table has an entry for each of them.
\<close>

section \<open>Bridges (pcn.go) and signature material (bridge\_crypto.go)\<close>

definition NewBridges :: "Address list \<Rightarrow> Bridges" where
  "NewBridges bridgeAddrs = \<lparr>br_Addrs = bridgeAddrs\<rparr>"

fun is_bridge_in :: "Address list \<Rightarrow> Address \<Rightarrow> bool" where
  "is_bridge_in [] address = False"
| "is_bridge_in (a # as) address = (if a = address then True else is_bridge_in as address)"

definition IsBridgeAccount :: "Bridges \<Rightarrow> Address \<Rightarrow> bool" where
  "IsBridgeAccount b address = is_bridge_in (br_Addrs b) address"

text \<open>The key files after parsing: public key, threshold, number of shares, and the shares.\<close>

record key_material =
  km_PublicKey :: "bytes option"
  km_K :: nat
  km_L :: nat
  km_shares :: "bytes option list"

definition loadBridgeSignatureMaterial :: "params \<Rightarrow> key_material \<Rightarrow> PbftNode \<Rightarrow> PbftNode res" where
  "loadBridgeSignatureMaterial P km p =
     (case km_PublicKey km of
        None \<Rightarrow> Inl (LogPanic ''no public key'')
      | Some pub \<Rightarrow>
          if sint (p_NodeID p) \<ge> int (length (km_shares km)) then Inl (LogPanic ''no share for node'')
          else if unat (p_NodeID p) \<ge> length (km_shares km) then Inl IndexOutOfRange
          else case km_shares km ! unat (p_NodeID p) of
            None \<Rightarrow> Inl (LogPanic ''no share for node'')
          | Some share \<Rightarrow>
              if int (km_L km) < NodesInShard P then Inl (LogPanic ''not enough shares'')
              else Inr (p\<lparr>p_bridgePub := pub, p_bridgeK := km_K km, p_bridgeShare := share\<rparr>))"

definition initBridgeState :: "params \<Rightarrow> key_material \<Rightarrow> PbftNode \<Rightarrow> PbftNode res" where
  "initBridgeState P km p =
     loadBridgeSignatureMaterial P km
       (p\<lparr>p_bridges := Some (NewBridges (NewBridgeAddresses (nat (ShardNum P)))),
          p_bridgeBalances := (\<lambda>sid. if uint sid < ShardNum P then Some Init_Balance else None),
          p_bridgeSigShares := [], p_bridgeSigSeen := {}, p_bridgeOverlayEpoch := 0,
          p_bridgeDegreeLimits := [], p_bridgeOverlayEdges := [], p_bridgeOverlayRoutes := []\<rparr>)"

definition resetBridgeSignatureRound :: "PbftNode \<Rightarrow> PbftNode" where
  "resetBridgeSignatureRound p =
     p\<lparr>p_bridgePreparedHash := [], p_bridgePreparedPKCS1 := [], p_bridgePartialSig := [],
       p_bridgeJointSig := [], p_bridgeSigShares := [], p_bridgeSigSeen := {}\<rparr>"

definition prepareBridgeHash :: "xlib \<Rightarrow> gob \<Rightarrow> PbftNode \<Rightarrow> PbftNode res" where
  "prepareBridgeHash X msg p =
     (let h = sha256 (x_lib X) msg in
      case x_PKCS1 X (p_bridgePub p) h of
        None \<Rightarrow> Inl (LogPanic ''threshold hash preparation failed'')
      | Some d \<Rightarrow> Inr (p\<lparr>p_bridgePreparedHash := h, p_bridgePreparedPKCS1 := d\<rparr>))"

definition prepareBridgeHashForDigest :: "xlib \<Rightarrow> bytes \<Rightarrow> PbftNode \<Rightarrow> (bool \<times> PbftNode) res" where
  "prepareBridgeHashForDigest X digest p =
     (case p_requestPool p digest of
        None \<Rightarrow> Inr (False, p)
      | Some r \<Rightarrow> if rq_Type r \<noteq> BlockRequest then Inr (False, p)
          else bindR (prepareBridgeHash X (rq_Content r) p) (\<lambda>q. Inr (True, q)))"

definition partialSignBridge :: "xlib \<Rightarrow> PbftNode \<Rightarrow> bool \<times> PbftNode" where
  "partialSignBridge X p =
     (if length (p_bridgePreparedPKCS1 p) = 0 then (False, p)
      else case x_Sign X (p_bridgeShare p) (p_bridgePreparedPKCS1 p) of
        None \<Rightarrow> (False, p)
      | Some s \<Rightarrow> (True, p\<lparr>p_bridgePartialSig := s\<rparr>))"

definition combineBridgeSignature :: "xlib \<Rightarrow> PbftNode \<Rightarrow> bool \<times> PbftNode" where
  "combineBridgeSignature X p =
     (if length (p_bridgeSigShares p) < p_bridgeK p then (False, p)
      else case x_Join X (p_bridgeSigShares p) (p_bridgePreparedPKCS1 p) of
        None \<Rightarrow> (False, p)
      | Some s \<Rightarrow> (True, p\<lparr>p_bridgeJointSig := s\<rparr>))"

definition verifyBridgeSignature :: "xlib \<Rightarrow> PbftNode \<Rightarrow> bool" where
  "verifyBridgeSignature X p =
     (if length (p_bridgeJointSig p) = 0 then False
      else x_Verify X (p_bridgePub p) (p_bridgePreparedHash p) (p_bridgeJointSig p))"

section \<open>Routes\<close>

definition bridgeRoute :: "params \<Rightarrow> Transaction \<Rightarrow> u64 list res" where
  "bridgeRoute P bridgeTx =
     (if length (tx_BridgeRoute bridgeTx) \<ge> 2 then Inr (tx_BridgeRoute bridgeTx)
      else bindR (Addr2Shard (ShardNum P) (tx_OriginalSender bridgeTx)) (\<lambda>s.
           bindR (Addr2Shard (ShardNum P) (tx_FinalRecipient bridgeTx)) (\<lambda>d.
             Inr [of_int s, of_int d])))"

fun index_of :: "u64 \<Rightarrow> u64 list \<Rightarrow> int \<Rightarrow> int" where
  "index_of sid [] i = -1"
| "index_of sid (x # xs) i = (if x = sid then i else index_of sid xs (i + 1))"

definition currentRouteIndex :: "u64 \<Rightarrow> Transaction \<Rightarrow> u64 list \<Rightarrow> int" where
  "currentRouteIndex shard bridgeTx route =
     (if length route = 0 then -1
      else let idx = tx_BridgeRouteIndex bridgeTx in
        if idx \<ge> 0 \<and> idx < int (length route) \<and> route ! nat idx = shard then idx
        else index_of shard route 0)"

definition nextBridgeHop :: "params \<Rightarrow> u64 \<Rightarrow> Transaction \<Rightarrow> u64 option res" where
  "nextBridgeHop P shard bridgeTx =
     bindR (bridgeRoute P bridgeTx) (\<lambda>route.
       let currentIdx = currentRouteIndex shard bridgeTx route in
       if currentIdx < 0 \<or> currentIdx + 1 \<ge> int (length route) then Inr None
       else Inr (Some (route ! nat (currentIdx + 1))))"

definition bridge_addr :: "Bridges \<Rightarrow> u64 \<Rightarrow> Address res" where
  "bridge_addr b sid =
     (if unat sid < length (br_Addrs b) then Inr (br_Addrs b ! unat sid) else Inl IndexOutOfRange)"

text \<open>The transaction for the next hop with its shard, \<open>None\<close> when the route ends here.\<close>

definition generateNextBridgeTx ::
  "xlib \<Rightarrow> params \<Rightarrow> time \<Rightarrow> Bridges \<Rightarrow> u64 \<Rightarrow> Transaction \<Rightarrow> (u64 \<times> Transaction) option res" where
  "generateNextBridgeTx X P now b shard bridgeTx =
     bindR (bridgeRoute P bridgeTx) (\<lambda>route.
       let currentIdx = currentRouteIndex shard bridgeTx route in
       if currentIdx < 0 then Inr None
       else let nextIdx = currentIdx + 1 in
         if nextIdx \<ge> int (length route) then Inr None
         else let nextSID = route ! nat nextIdx in
           bindR (bridge_addr b nextSID) (\<lambda>sender.
           bindR (if nextIdx < int (length route) - 1 then bridge_addr b (route ! nat (nextIdx + 1))
                  else Inr (tx_FinalRecipient bridgeTx)) (\<lambda>recipient.
             let tx2 = NewTransaction (x_lib X) sender recipient (tx_Value bridgeTx) (tx_Nonce bridgeTx) now
             in Inr (Some (nextSID, tx2\<lparr>tx_HasBridge := True, tx_SenderIsBridge := True,
                  tx_OriginalSender := tx_OriginalSender bridgeTx,
                  tx_FinalRecipient := tx_FinalRecipient bridgeTx,
                  tx_RawTxHash := tx_RawTxHash bridgeTx, tx_BridgeRoute := route,
                  tx_BridgeRouteIndex := nextIdx,
                  tx_BridgeOverlayEpoch := tx_BridgeOverlayEpoch bridgeTx\<rparr>)))))"

section \<open>Leader's commit\<close>

record bridge_acc =
  ba_executed :: "Transaction list"
  ba_bridge1 :: "Transaction list"
  ba_bridge2 :: "Transaction list"
  ba_forward :: "Transaction list"
  ba_send :: "u64 \<Rightarrow> Transaction list"
  ba_outgoing :: "u64 \<rightharpoonup> int"
  ba_balances :: "u64 \<rightharpoonup> int"

definition ensure_balance :: "u64 \<Rightarrow> bridge_acc \<Rightarrow> bridge_acc" where
  "ensure_balance sid a =
     (if ba_balances a sid = None then a\<lparr>ba_balances := (ba_balances a)(sid \<mapsto> Init_Balance)\<rparr> else a)"

definition bridgeHasCapacity :: "u64 \<Rightarrow> int \<Rightarrow> bridge_acc \<Rightarrow> bool \<times> bridge_acc" where
  "bridgeHasCapacity destSID value a =
     (let a' = ensure_balance destSID a in (the (ba_balances a' destSID) \<ge> value, a'))"

text \<open>
  The common part of the two forwarding cases: the hop, the capacity check, the next
  transaction and the booking; \<open>keep\<close> records the transaction in its list.
\<close>

definition forward_hop ::
  "xlib \<Rightarrow> params \<Rightarrow> time \<Rightarrow> Bridges \<Rightarrow> u64 \<Rightarrow> Transaction \<Rightarrow> (bridge_acc \<Rightarrow> bridge_acc) \<Rightarrow>
   bridge_acc \<Rightarrow> bridge_acc res" where
  "forward_hop X P now b shard tx keep a =
     bindR (nextBridgeHop P shard tx) (\<lambda>hop.
       case hop of
         None \<Rightarrow> Inr a
       | Some nextSID \<Rightarrow>
           let (ok, a1) = bridgeHasCapacity nextSID (tx_Value tx) a in
           if \<not> ok then Inr a1
           else bindR (generateNextBridgeTx X P now b shard tx) (\<lambda>g.
             let a2 = keep a1;
                 a3 = (case g of None \<Rightarrow> a2
                       | Some (sid, tx2) \<Rightarrow> a2\<lparr>ba_send := (ba_send a2)(sid := ba_send a2 sid @ [tx2])\<rparr>);
                 a4 = a3\<lparr>ba_balances := (ba_balances a3)(nextSID \<mapsto> the (ba_balances a3 nextSID) - tx_Value tx)\<rparr>
             in case ba_outgoing a4 nextSID of
                  None \<Rightarrow> Inl NilDereference
                | Some v \<Rightarrow> Inr (a4\<lparr>ba_outgoing := (ba_outgoing a4)(nextSID \<mapsto> v + tx_Value tx)\<rparr>)))"

definition isBridge1Tx :: "Transaction \<Rightarrow> bool" where
  "isBridge1Tx tx \<longleftrightarrow> tx_RawTxHash tx \<noteq> [] \<and> tx_Sender tx = tx_OriginalSender tx"

definition isBridge2Tx :: "Transaction \<Rightarrow> bool" where
  "isBridge2Tx tx \<longleftrightarrow> tx_RawTxHash tx \<noteq> [] \<and> tx_Recipient tx = tx_FinalRecipient tx"

definition isBridgeForwardTx :: "Transaction \<Rightarrow> bool" where
  "isBridgeForwardTx tx \<longleftrightarrow> tx_RawTxHash tx \<noteq> [] \<and> tx_HasBridge tx \<and> \<not> isBridge1Tx tx \<and> \<not> isBridge2Tx tx"

definition bridge_step ::
  "xlib \<Rightarrow> params \<Rightarrow> time \<Rightarrow> Bridges \<Rightarrow> u64 \<Rightarrow> Transaction \<Rightarrow> bridge_acc \<Rightarrow> bridge_acc res" where
  "bridge_step X P now b shard tx a =
     (if isBridge2Tx tx then Inr (a\<lparr>ba_bridge2 := ba_bridge2 a @ [tx]\<rparr>)
      else if isBridge1Tx tx
      then forward_hop X P now b shard tx (\<lambda>a. a\<lparr>ba_bridge1 := ba_bridge1 a @ [tx]\<rparr>) a
      else if isBridgeForwardTx tx
      then forward_hop X P now b shard tx (\<lambda>a. a\<lparr>ba_forward := ba_forward a @ [tx]\<rparr>) a
      else Inr (a\<lparr>ba_executed := ba_executed a @ [tx]\<rparr>))"

definition bridge_acc0 :: "params \<Rightarrow> PbftNode \<Rightarrow> bridge_acc" where
  "bridge_acc0 P p =
     \<lparr>ba_executed = [], ba_bridge1 = [], ba_bridge2 = [], ba_forward = [], ba_send = (\<lambda>_. []),
      ba_outgoing = (\<lambda>sid. if uint sid < ShardNum P then Some 0 else None),
      ba_balances = p_bridgeBalances p\<rparr>"

definition bridge_info :: "PbftNode \<Rightarrow> bridge_acc \<Rightarrow> u64 \<Rightarrow> SeqIDinfo" where
  "bridge_info p a sid =
     \<lparr>si_SenderShardID = p_ShardID p, si_SenderSeq = p_sequenceID p, si_Tx2s = ba_send a sid,
      si_SenderNode = Some (p_RunningNode p), si_Values = [sid \<mapsto> the (ba_outgoing a sid)],
      si_JointSig = p_bridgeJointSig p\<rparr>"

definition send_bridge :: "bridge_acc \<Rightarrow> u64 \<Rightarrow> PbftNode \<Rightarrow> PbftNode" where
  "send_bridge a sid p =
     (if sid = p_ShardID p \<or> ba_send a sid = [] then p
      else fold (TcpDial (WSeqIDinfo (bridge_info p a sid))) (getNodeIpsWithinShard sid p) p)"

text \<open>After the loop: the joint signature, the messages to the other shards, the report.\<close>

definition bridge_finish ::
  "xlib \<Rightarrow> params \<Rightarrow> time \<Rightarrow> Request \<Rightarrow> Block \<Rightarrow> bridge_acc \<Rightarrow> PbftNode \<Rightarrow> bool \<times> PbftNode" where
  "bridge_finish X P now r block a p =
     (let (joined, p2) = combineBridgeSignature X p
      in if \<not> joined \<or> \<not> verifyBridgeSignature X p2 then (False, p2)
         else let p3 = fold (send_bridge a) (map of_nat [0..<nat (ShardNum P)]) p2;
                  bim = zeroInfo\<lparr>bi_BlockBodyLength := length (b_Body block),
                    bi_InnerShardTxs := ba_executed a, bi_Bridge1Txs := ba_bridge1 a,
                    bi_Bridge2Txs := ba_bridge2 a, bi_BridgeForwardTxs := ba_forward a,
                    bi_Broker1Txs := ba_bridge1 a, bi_Broker2Txs := ba_bridge2 a, bi_Epoch := 0,
                    bi_SenderShardID := p_ShardID p3, bi_ProposeTime := rq_ReqTime r,
                    bi_CommitTime := now, bi_JointSig := p_bridgeJointSig p3\<rparr>;
                  row = [uint (bh_Number (b_Header block)), 0,
                    int (length (TxQueue (bc_Txpool (p_CurChain p3)))), int (length (b_Body block)),
                    int (length (ba_bridge1 a)), int (length (ba_forward a)), int (length (ba_bridge2 a)),
                    UnixMilli (rq_ReqTime r), UnixMilli now, computeTCL (b_Body block) now,
                    computeTCL (ba_bridge1 a) now, computeTCL (ba_bridge2 a) now]
              in (True, report_block bim row p3))"

definition handleBridgeLeaderCommit ::
  "xlib \<Rightarrow> params \<Rightarrow> time \<Rightarrow> Request \<Rightarrow> Block \<Rightarrow> PbftNode \<Rightarrow> (bool \<times> PbftNode) res" where
  "handleBridgeLeaderCommit X P now r block p =
     (case p_bridges p of
        None \<Rightarrow> Inl NilDereference
      | Some b \<Rightarrow>
          bindR (foldR (bridge_step X P now b (p_ShardID p)) (b_Body block) (bridge_acc0 P p)) (\<lambda>a.
            Inr (bridge_finish X P now r block a (p\<lparr>p_bridgeBalances := ba_balances a\<rparr>))))"

definition bridge_HandleinCommit ::
  "xlib \<Rightarrow> params \<Rightarrow> time \<Rightarrow> Commit \<Rightarrow> PbftNode \<Rightarrow> (bool \<times> PbftNode) res" where
  "bridge_HandleinCommit X P now cmsg p =
     (case p_requestPool p (cm_Digest cmsg) of
        None \<Rightarrow> Inl NilDereference
      | Some r \<Rightarrow>
          bindR (DecodeB (rq_Content r)) (\<lambda>block.
          bindR (AddBlock (x_lib X) P block (p_CurChain p)) (\<lambda>bc.
            let p1 = p\<lparr>p_CurChain := bc\<lparr>bc_Txpool := RemoveTxs (b_Body block) (bc_Txpool bc)\<rparr>\<rparr> in
            if is_leader p1 then handleBridgeLeaderCommit X P now r block p1 else Inr (True, p1))))"

section \<open>The other operations\<close>

definition bridge_HandleinPropose :: "xlib \<Rightarrow> params \<Rightarrow> time \<Rightarrow> PbftNode \<Rightarrow> (Request \<times> PbftNode) res" where
  "bridge_HandleinPropose X P now p =
     bindR (propose_block X P now (resetBridgeSignatureRound p)) (\<lambda>(r, q).
     bindR (prepareBridgeHash X (rq_Content r) q) (\<lambda>q'. Inr (r, q')))"

definition bridge_HandleinPrePrepare :: "xlib \<Rightarrow> PrePrepare \<Rightarrow> PbftNode \<Rightarrow> (bool \<times> PbftNode) res" where
  "bridge_HandleinPrePrepare X ppmsg p =
     bindR (DecodeB (rq_Content (pp_RequestMsg ppmsg))) (\<lambda>b.
       case IsValidBlock (x_lib X) b (p_CurChain p) of
         Inl _ \<Rightarrow> Inr (False, p)
       | Inr _ \<Rightarrow>
           bindR (prepareBridgeHash X (rq_Content (pp_RequestMsg ppmsg)) (resetBridgeSignatureRound p)) (\<lambda>q.
             if length (pp_B ppmsg) > 0 \<and> pp_B ppmsg \<noteq> p_bridgePreparedHash q then Inr (False, q)
             else if length (pp_BlockBPKCS1 ppmsg) > 0 \<and> pp_BlockBPKCS1 ppmsg \<noteq> p_bridgePreparedPKCS1 q
             then Inr (False, q)
             else Inr (True, q\<lparr>p_requestPool := (p_requestPool q)(pp_Digest ppmsg \<mapsto> pp_RequestMsg ppmsg)\<rparr>)))"

definition bridge_HandleinPrepare :: "xlib \<Rightarrow> Prepare \<Rightarrow> PbftNode \<Rightarrow> (bool \<times> PbftNode) res" where
  "bridge_HandleinPrepare X pmsg p =
     bindR (prepareBridgeHashForDigest X (pm_Digest pmsg) p) (\<lambda>(ok, q).
       if \<not> ok then Inr (False, q) else Inr (partialSignBridge X q))"

definition bridge_ops :: "xlib \<Rightarrow> params \<Rightarrow> ExtraOp" where
  "bridge_ops X P =
     \<lparr>eo_HandleinPropose = (\<lambda>now p. proposed (bridge_HandleinPropose X P now p)), eo_HandleinPrePrepare = bridge_HandleinPrePrepare X,
      eo_HandleinPrepare = bridge_HandleinPrepare X, eo_HandleinCommit = bridge_HandleinCommit X P,
      eo_HandleReqestforOldSeq = no_old_op,
      eo_HandleforSequentialRequest = relay_HandleforSequentialRequest X P\<rparr>"

section \<open>Between shards\<close>

definition handleBridgeOverlay :: "BridgeOverlayMsg \<Rightarrow> PbftNode \<Rightarrow> PbftNode" where
  "handleBridgeOverlay overlay p =
     p\<lparr>p_bridgeOverlayEpoch := om_Epoch overlay, p_bridgeDegreeLimits := om_DegreeLimits overlay,
       p_bridgeOverlayEdges := om_Edges overlay, p_bridgeOverlayRoutes := om_Routes overlay\<rparr>"

definition bridge_handleSeqIDinfos :: "time \<Rightarrow> SeqIDinfo \<Rightarrow> PbftNode \<Rightarrow> PbftNode" where
  "bridge_handleSeqIDinfos now sii p =
     (let from = si_SenderShardID sii;
          p1 = (case si_Values sii (p_ShardID p) of
                  None \<Rightarrow> p
                | Some val \<Rightarrow>
                    let old = (case p_bridgeBalances p from of None \<Rightarrow> 0 | Some v \<Rightarrow> v)
                    in p\<lparr>p_bridgeBalances := (p_bridgeBalances p)(from \<mapsto> old + val)\<rparr>);
          p2 = (if length (si_Tx2s sii) > 0 then add_to_pool now (si_Tx2s sii) p1 else p1)
      in p2\<lparr>p_seqIDMap := AList.update from (si_SenderSeq sii) (p_seqIDMap p2)\<rparr>)"

fun bridge_HandleMessageOutsidePBFT :: "time \<Rightarrow> wire \<Rightarrow> PbftNode \<Rightarrow> PbftNode" where
  "bridge_HandleMessageOutsidePBFT now (WSeqIDinfo sii) p = bridge_handleSeqIDinfos now sii p"
| "bridge_HandleMessageOutsidePBFT now (WInject it) p = handleInjectTx now it p"
| "bridge_HandleMessageOutsidePBFT now (WBridgeOverlay ov) p = handleBridgeOverlay ov p"
| "bridge_HandleMessageOutsidePBFT now _ p = p"

end
