(* ===== verification/Pbft_Clpa.thy ===== *)
theory Pbft_Clpa
  imports Pbft_Relay
begin

text \<open>
  Account transfer between shards under the CLPA protocols (\<open>accountTransfer_module.go\<close>,
  \<open>accountTransfermod_Broker.go\<close>, \<open>pbftInside_moduleCLPA.go\<close>, \<open>pbftInside_modCLPABroker.go\<close> and the
  two \<open>pbftOutside\<close> modules). The leader's \<open>HandleinPropose\<close> waits twice for messages that other
  goroutines handle; it is run in three parts, chosen by \<open>p_proposing\<close>. The pool's lock, which
  is held while transactions are taken out, is not shown. The number of shards is below \<open>2 ^ 63\<close>.
\<close>

section \<open>Reading a map with a default\<close>

definition map_get :: "('k \<times> u64) list \<Rightarrow> 'k \<Rightarrow> u64" where
  "map_get m k = (case map_of m k of None \<Rightarrow> 0 | Some v \<Rightarrow> v)"

section \<open>Announcing readiness\<close>

definition sendPartitionReady :: "PbftNode \<Rightarrow> PbftNode" where
  "sendPartitionReady p =
     (let p1 = p\<lparr>p_cdm := (p_cdm p)\<lparr>cd_PartitionReady := insert (p_ShardID p) (cd_PartitionReady (p_cdm p))\<rparr>\<rparr>;
          pr = \<lparr>prd_FromShard = p_ShardID p1, prd_NowSeqID = p_sequenceID p1\<rparr>
      in fold (\<lambda>sid q. if sid \<noteq> prd_FromShard pr then TcpDial (WPartitionReady pr) (ip_of q sid 0) q else q)
           (shard_ids p1) p1)"

definition getPartitionReady :: "PbftNode \<Rightarrow> bool" where
  "getPartitionReady p \<longleftrightarrow>
     (\<forall>(sid, val) \<in> set (p_seqIDMap p).
        (case cd_ReadySeq (p_cdm p) sid of None \<Rightarrow> False | Some rval \<Rightarrow> rval - 1 = val)) \<and>
     int (card (cd_PartitionReady (p_cdm p))) = uint (cc_ShardNums (p_pbftChainConfig p))"

section \<open>Sending accounts and transactions\<close>

fun accounts_to_fetch :: "params \<Rightarrow> BlockChain \<Rightarrow> u64 \<Rightarrow> (Address \<times> u64) list \<Rightarrow> Address list res" where
  "accounts_to_fetch P bc shard [] = Inr []"
| "accounts_to_fetch P bc shard ((key, val) # es) =
     (if val \<noteq> shard
      then bindR (Get_PartitionMap P bc key) (\<lambda>s.
           bindR (accounts_to_fetch P bc shard es) (\<lambda>r. Inr (if s = shard then key # r else r)))
      else accounts_to_fetch P bc shard es)"

text \<open>
  What happens to a queued transaction when the accounts of a set leave for a shard: it stays,
  it is sent there, or (under brokers) it goes back to the supervisor as a cross-shard one.
\<close>

datatype verdict = Keep | Send | BeCross

definition relay_verdict :: "Address set \<Rightarrow> Transaction \<Rightarrow> verdict" where
  "relay_verdict addrSet ptx =
     (let condition1 = tx_Sender ptx \<in> addrSet \<and> \<not> tx_Relayed ptx;
          condition2 = tx_Recipient ptx \<in> addrSet \<and> tx_Relayed ptx
      in if condition1 \<or> condition2 then Send else Keep)"

text \<open>
  The source tests \<open>RawTxHash == nil\<close>. The slice is nil or a copy of a hash, which is not empty, so here the
  empty list stands for nil.
\<close>

definition broker_verdict :: "Address set \<Rightarrow> Transaction \<Rightarrow> verdict" where
  "broker_verdict addrSet ptx =
     (let ok1 = tx_Sender ptx \<in> addrSet; ok2 = tx_Recipient ptx \<in> addrSet;
          moves = (\<lambda>c. if c then Send else Keep)
      in if tx_RawTxHash ptx = []
         then if tx_HasBroker ptx then moves (if tx_SenderIsBroker ptx then ok2 else ok1)
              else if ok1 \<or> ok2 then BeCross else Keep
         else if tx_FinalRecipient ptx = tx_Recipient ptx then moves ok2
         else if tx_OriginalSender ptx = tx_Sender ptx then moves ok1
         else Keep)"

text \<open>
  One shard of the loop: the addresses that go there with their states, the transactions that go
  with them, and those that become cross-shard ones.
\<close>

record transfer_acc =
  ta_queue :: "Transaction list"
  ta_cross :: "Transaction list"
  ta_sent :: "(u64 \<times> AccountStateAndTx) list"

definition transfer_step ::
  "(Address set \<Rightarrow> Transaction \<Rightarrow> verdict) \<Rightarrow> u64 \<Rightarrow> (Address \<times> u64) list \<Rightarrow> (Address \<times> AccountState) list \<Rightarrow>
   u64 \<Rightarrow> transfer_acc \<Rightarrow> transfer_acc" where
  "transfer_step verdict shard mm fetched i a =
     (if i = shard then a
      else let going = filter (\<lambda>(addr, st). map_get mm addr = i) fetched;
               v = verdict (set (map fst going));
               q = ta_queue a
        in \<lparr>ta_queue = filter (\<lambda>tx. v tx = Keep) q,
            ta_cross = ta_cross a @ filter (\<lambda>tx. v tx = BeCross) q,
            ta_sent = ta_sent a @ [(i, \<lparr>ast_Addrs = map fst going, ast_AccountState = map snd going,
              ast_Txs = filter (\<lambda>tx. v tx = Send) q, ast_FromShard = shard\<rparr>)]\<rparr>)"

definition last_map :: "Data_supportCLPA \<Rightarrow> (Address \<times> u64) list res" where
  "last_map c = (if cd_ModifiedMap c = [] then Inl IndexOutOfRange else Inr (last (cd_ModifiedMap c)))"

definition transfer_all ::
  "lib \<Rightarrow> params \<Rightarrow> (Address set \<Rightarrow> Transaction \<Rightarrow> verdict) \<Rightarrow> PbftNode \<Rightarrow> transfer_acc res" where
  "transfer_all L P verdict p =
     bindR (last_map (p_cdm p)) (\<lambda>mm.
     bindR (accounts_to_fetch P (p_CurChain p) (p_ShardID p) mm) (\<lambda>accountToFetch.
     bindR (FetchAccounts L accountToFetch (p_CurChain p)) (\<lambda>asFetched.
       Inr (fold (transfer_step verdict (p_ShardID p) mm (zip accountToFetch asFetched)) (shard_ids p)
         \<lparr>ta_queue = TxQueue (bc_Txpool (p_CurChain p)), ta_cross = [], ta_sent = []\<rparr>))))"

definition set_queue :: "Transaction list \<Rightarrow> PbftNode \<Rightarrow> PbftNode" where
  "set_queue q p = p\<lparr>p_CurChain := (p_CurChain p)\<lparr>bc_Txpool := (bc_Txpool (p_CurChain p))\<lparr>TxQueue := q\<rparr>\<rparr>\<rparr>"

definition send_transfers :: "(AccountStateAndTx \<Rightarrow> wire) \<Rightarrow> transfer_acc \<Rightarrow> PbftNode \<Rightarrow> PbftNode" where
  "send_transfers w a p = fold (\<lambda>(i, ast) q. TcpDial (w ast) (ip_of q i 0) q) (ta_sent a) (set_queue (ta_queue a) p)"

definition sendAccounts_and_Txs :: "lib \<Rightarrow> params \<Rightarrow> PbftNode \<Rightarrow> PbftNode res" where
  "sendAccounts_and_Txs L P p =
     bindR (transfer_all L P relay_verdict p) (\<lambda>a. Inr (send_transfers WAccountStateTx a p))"

definition broker_sendAccounts_and_Txs :: "lib \<Rightarrow> params \<Rightarrow> PbftNode \<Rightarrow> PbftNode res" where
  "broker_sendAccounts_and_Txs L P p =
     bindR (transfer_all L P broker_verdict p) (\<lambda>a.
       let q = send_transfers WAccountTransferBroker a p
       in Inr (TcpDial (WInner2CrossTx \<lparr>i2c_Txs = ta_cross a\<rparr>) (ip_of q SupervisorShard 0) q))"

definition getCollectOver :: "PbftNode \<Rightarrow> bool" where
  "getCollectOver p = cd_CollectOver (p_cdm p)"

section \<open>Proposing the new partition\<close>

fun merge_states ::
  "Address list \<Rightarrow> AccountState list \<Rightarrow> (Address \<times> AccountState) list \<Rightarrow> (Address \<times> AccountState) list res" where
  "merge_states [] as recv = Inr recv"
| "merge_states (a # addrs) [] recv = Inl IndexOutOfRange"
| "merge_states (a # addrs) (s # as) recv = merge_states addrs as (AList.update a s recv)"

text \<open>
  \<open>proposePartition\<close> ranges over the map of the messages of the other shards, of which the list holds the entries; any
  order of the range is the run for the list in that order.
\<close>

fun collect_all ::
  "(u64 \<times> AccountStateAndTx) list \<Rightarrow> Data_supportCLPA \<Rightarrow> Data_supportCLPA res" where
  "collect_all [] c = Inr c"
| "collect_all ((sid, at) # ats) c =
     bindR (merge_states (ast_Addrs at) (ast_AccountState at) (cd_ReceivedNewAccountState c)) (\<lambda>recv.
       collect_all ats (c\<lparr>cd_ReceivedNewAccountState := recv, cd_ReceivedNewTx := cd_ReceivedNewTx c @ ast_Txs at\<rparr>))"

definition misplaced :: "(Address \<times> u64) list \<Rightarrow> u64 \<Rightarrow> Transaction \<Rightarrow> bool" where
  "misplaced mm shard tx \<longleftrightarrow>
     \<not> tx_Relayed tx \<and> map_get mm (tx_Sender tx) \<noteq> shard \<or> tx_Relayed tx \<and> map_get mm (tx_Recipient tx) \<noteq> shard"

text \<open>\<open>checked\<close>: whether the received transactions are checked first, as they are without brokers.\<close>

definition proposePartition :: "bool \<Rightarrow> time \<Rightarrow> PbftNode \<Rightarrow> (Request \<times> PbftNode) res" where
  "proposePartition checked now p =
     bindR (collect_all (cd_AccountStateTx (p_cdm p)) (p_cdm p)) (\<lambda>c.
       if unat (cd_AccountTransferRound c) \<ge> length (cd_ModifiedMap c) then Inl IndexOutOfRange
       else let mm = cd_ModifiedMap c ! unat (cd_AccountTransferRound c) in
         if checked \<and> (\<exists>tx \<in> set (cd_ReceivedNewTx c). misplaced mm (p_ShardID p) tx)
         then Inl (LogPanic ''error tx'')
         else let atm = \<lparr>atm_ModifiedMap = mm, atm_Addrs = map fst (cd_ReceivedNewAccountState c),
                         atm_AccountState = map snd (cd_ReceivedNewAccountState c),
                         atm_ATid = of_nat (length (cd_ModifiedMap c))\<rparr>
           in Inr (\<lparr>rq_Type = PartitionReq, rq_Content = ATM_Encode atm, rq_ReqTime = now\<rparr>,
                   add_to_pool now (cd_ReceivedNewTx c) (p\<lparr>p_cdm := c\<rparr>)))"

definition update_partition :: "(Address \<times> u64) list \<Rightarrow> BlockChain \<Rightarrow> BlockChain" where
  "update_partition mm bc = fold (\<lambda>(key, val). Update_PartitionMap key val) mm bc"

definition accountTransfer_do :: "lib \<Rightarrow> params \<Rightarrow> AccountTransferMsg \<Rightarrow> PbftNode \<Rightarrow> PbftNode res" where
  "accountTransfer_do L P atm p =
     bindR (AddAccounts L P (atm_Addrs atm) (atm_AccountState atm) (of_int (p_view p))
              (update_partition (atm_ModifiedMap atm) (p_CurChain p))) (\<lambda>bc.
       let c = p_cdm p;
           mms = (if of_nat (length (cd_ModifiedMap c)) \<noteq> atm_ATid atm
                  then cd_ModifiedMap c @ [atm_ModifiedMap atm] else cd_ModifiedMap c)
       in Inr (p\<lparr>p_CurChain := bc,
                 p_cdm := c\<lparr>cd_ModifiedMap := mms, cd_AccountTransferRound := atm_ATid atm, cd_AccountStateTx := [],
                   cd_ReceivedNewAccountState := [], cd_ReceivedNewTx := [], cd_PartitionOn := False,
                   cd_CollectOver := False, cd_PartitionReady := {}\<rparr>\<rparr>))"

section \<open>Inside the shard\<close>

text \<open>\<open>send\<close> and \<open>checked\<close> are what differs between the modules with and without brokers.\<close>

definition clpa_HandleinPropose ::
  "(PbftNode \<Rightarrow> PbftNode res) \<Rightarrow> bool \<Rightarrow> xlib \<Rightarrow> params \<Rightarrow> time \<Rightarrow> PbftNode \<Rightarrow> (Request option \<times> PbftNode) res" where
  "clpa_HandleinPropose send checked X P now p =
     (if p_proposing p \<le> 1
      then if cd_PartitionOn (p_cdm p) then Inr (None, (sendPartitionReady p)\<lparr>p_proposing := 2\<rparr>)
           else proposed (propose_block X P now p)
      else if p_proposing p = 2
      then if getPartitionReady p then bindR (send p) (\<lambda>q. Inr (None, q\<lparr>p_proposing := 3\<rparr>)) else Inr (None, p)
      else if getCollectOver p then proposed (proposePartition checked now p) else Inr (None, p))"

definition clpa_HandleinPrePrepare :: "xlib \<Rightarrow> PrePrepare \<Rightarrow> PbftNode \<Rightarrow> (bool \<times> PbftNode) res" where
  "clpa_HandleinPrePrepare X ppmsg p =
     (if rq_Type (pp_RequestMsg ppmsg) = PartitionReq
      then Inr (True, p\<lparr>p_requestPool := (p_requestPool p)(pp_Digest ppmsg \<mapsto> pp_RequestMsg ppmsg)\<rparr>)
      else check_block X ppmsg p)"

definition clpa_HandleinCommit ::
  "xlib \<Rightarrow> params \<Rightarrow> time \<Rightarrow> Commit \<Rightarrow> PbftNode \<Rightarrow> (bool \<times> PbftNode) res" where
  "clpa_HandleinCommit X P now cmsg p =
     (case p_requestPool p (cm_Digest cmsg) of
        None \<Rightarrow> Inl NilDereference
      | Some r \<Rightarrow>
          if rq_Type r = PartitionReq
          then bindR (DecodeAccountTransferMsg (rq_Content r)) (\<lambda>atm.
               bindR (accountTransfer_do (x_lib X) P atm p) (\<lambda>q. Inr (True, q)))
          else bindR (DecodeB (rq_Content r)) (\<lambda>block.
               bindR (AddBlock (x_lib X) P block (p_CurChain p)) (\<lambda>bc.
                 let p1 = p\<lparr>p_CurChain := bc\<rparr> in
                 if is_leader p1
                 then bindR (relay_leader_commit X P now (sint (cd_AccountTransferRound (p_cdm p1))) r block
                        (accepts block (p_CurChain p)) p1) (\<lambda>q. Inr (True, q))
                 else Inr (True, p1))))"

text \<open>The checks and the classification of the transactions of a block with brokers.\<close>

definition clpa_broker_step ::
  "params \<Rightarrow> BlockChain \<Rightarrow> u64 \<Rightarrow> Transaction \<Rightarrow> Transaction list \<times> Transaction list \<times> Transaction list \<Rightarrow>
   (Transaction list \<times> Transaction list \<times> Transaction list) res" where
  "clpa_broker_step P bc shard tx acc =
     bindR (Get_PartitionMap P bc (tx_Sender tx)) (\<lambda>ssid.
     bindR (Get_PartitionMap P bc (tx_Recipient tx)) (\<lambda>rsid.
       let isBroker1 = (tx_Sender tx = tx_OriginalSender tx); isBroker2 = (tx_Recipient tx = tx_FinalRecipient tx);
           senderIsInshard = (ssid = shard); recipientIsInshard = (rsid = shard);
           (inner, b1, b2) = acc
       in if isBroker1 \<and> \<not> senderIsInshard then Inl (LogPanic ''Err tx1'')
          else if isBroker2 \<and> \<not> recipientIsInshard then Inl (LogPanic ''Err tx2'')
          else if tx_RawTxHash tx = [] \<and> tx_HasBroker tx \<and> tx_SenderIsBroker tx \<and> \<not> recipientIsInshard
          then Inl (LogPanic ''err tx 1 - recipient'')
          else if tx_RawTxHash tx = [] \<and> tx_HasBroker tx \<and> \<not> tx_SenderIsBroker tx \<and> \<not> senderIsInshard
          then Inl (LogPanic ''err tx 1 - sender'')
          else if tx_RawTxHash tx = [] \<and> \<not> tx_HasBroker tx \<and> (\<not> senderIsInshard \<or> \<not> recipientIsInshard)
          then Inl (LogPanic ''err tx - without broker'')
          else Inr (if isBroker2 then (inner, b1, b2 @ [tx])
                    else if isBroker1 then (inner, b1 @ [tx], b2)
                    else (inner @ [tx], b1, b2))))"

definition clpa_broker_leader_commit ::
  "params \<Rightarrow> time \<Rightarrow> Request \<Rightarrow> Block \<Rightarrow> PbftNode \<Rightarrow> PbftNode res" where
  "clpa_broker_leader_commit P now r block p =
     bindR (foldR (clpa_broker_step P (p_CurChain p) (p_ShardID p)) (b_Body block) ([], [], [])) (\<lambda>(inner, b1, b2).
       let q = fold (\<lambda>sid q. if sid = p_ShardID q then q
                 else TcpDial (WSeqIDinfo (zeroSeqInfo\<lparr>si_SenderShardID := p_ShardID q,
                        si_SenderSeq := p_sequenceID q\<rparr>)) (ip_of q sid 0) q) (shard_ids p) p;
           epoch = sint (cd_AccountTransferRound (p_cdm q));
           bim = zeroInfo\<lparr>bi_BlockBodyLength := length (b_Body block), bi_InnerShardTxs := inner,
                   bi_Broker1Txs := b1, bi_Broker2Txs := b2, bi_Epoch := epoch,
                   bi_SenderShardID := p_ShardID q, bi_ProposeTime := rq_ReqTime r, bi_CommitTime := now\<rparr>
       in Inr (report_block bim (metrics_row block bim epoch
            (length (TxQueue (bc_Txpool (p_CurChain q)))) b1 b2) q))"

definition clpa_broker_HandleinCommit ::
  "xlib \<Rightarrow> params \<Rightarrow> time \<Rightarrow> Commit \<Rightarrow> PbftNode \<Rightarrow> (bool \<times> PbftNode) res" where
  "clpa_broker_HandleinCommit X P now cmsg p =
     (case p_requestPool p (cm_Digest cmsg) of
        None \<Rightarrow> Inl NilDereference
      | Some r \<Rightarrow>
          if rq_Type r = PartitionReq
          then bindR (DecodeAccountTransferMsg (rq_Content r)) (\<lambda>atm.
               bindR (accountTransfer_do (x_lib X) P atm p) (\<lambda>q. Inr (True, q)))
          else bindR (DecodeB (rq_Content r)) (\<lambda>block.
               bindR (AddBlock (x_lib X) P block (p_CurChain p)) (\<lambda>bc.
                 let p1 = p\<lparr>p_CurChain := bc\<rparr> in
                 if is_leader p1
                 then bindR (clpa_broker_leader_commit P now r block p1) (\<lambda>q. Inr (True, q))
                 else Inr (True, p1))))"

text \<open>Catching up: every request that is not a block is an account transfer.\<close>

definition clpa_add_request :: "xlib \<Rightarrow> params \<Rightarrow> Request \<Rightarrow> PbftNode \<Rightarrow> PbftNode res" where
  "clpa_add_request X P r p =
     (if rq_Type r = BlockRequest
      then bindR (DecodeB (rq_Content r)) (\<lambda>b.
           bindR (AddBlock (x_lib X) P b (p_CurChain p)) (\<lambda>bc. Inr (p\<lparr>p_CurChain := bc\<rparr>)))
      else bindR (DecodeAccountTransferMsg (rq_Content r)) (\<lambda>atm. accountTransfer_do (x_lib X) P atm p))"

fun clpa_seq_loop :: "xlib \<Rightarrow> params \<Rightarrow> Request list \<Rightarrow> nat \<Rightarrow> nat \<Rightarrow> PbftNode \<Rightarrow> PbftNode res" where
  "clpa_seq_loop X P reqs i 0 p = Inr p"
| "clpa_seq_loop X P reqs i (Suc n) p =
     (if i < length reqs then bindR (clpa_add_request X P (reqs ! i) p) (clpa_seq_loop X P reqs (i + 1) n)
      else Inl IndexOutOfRange)"

definition clpa_HandleforSequentialRequest ::
  "xlib \<Rightarrow> params \<Rightarrow> SendOldMessage \<Rightarrow> PbftNode \<Rightarrow> (bool \<times> PbftNode) res" where
  "clpa_HandleforSequentialRequest X P som p =
     (let s = som_SeqStartHeight som; e = som_SeqEndHeight som in
      if sint (e - s + 1) \<noteq> int (length (som_OldRequest som)) then Inr (True, p)
      else bindR (if s > e then Inr p
                  else bindR (clpa_seq_loop X P (som_OldRequest som) 0 (unat (e - s) + 1) p) (\<lambda>q.
                    if e = - 1 then Inl IndexOutOfRange else Inr q)) (\<lambda>q.
        Inr (True, q\<lparr>p_sequenceID := e + 1\<rparr>)))"

definition clpa_ops :: "xlib \<Rightarrow> params \<Rightarrow> ExtraOp" where
  "clpa_ops X P =
     \<lparr>eo_HandleinPropose = clpa_HandleinPropose (sendAccounts_and_Txs (x_lib X) P) True X P,
      eo_HandleinPrePrepare = clpa_HandleinPrePrepare X,
      eo_HandleinPrepare = no_prepare_op, eo_HandleinCommit = clpa_HandleinCommit X P,
      eo_HandleReqestforOldSeq = no_old_op,
      eo_HandleforSequentialRequest = clpa_HandleforSequentialRequest X P\<rparr>"

definition clpa_broker_ops :: "xlib \<Rightarrow> params \<Rightarrow> ExtraOp" where
  "clpa_broker_ops X P =
     \<lparr>eo_HandleinPropose = clpa_HandleinPropose (broker_sendAccounts_and_Txs (x_lib X) P) False X P,
      eo_HandleinPrePrepare = clpa_HandleinPrePrepare X,
      eo_HandleinPrepare = no_prepare_op, eo_HandleinCommit = clpa_broker_HandleinCommit X P,
      eo_HandleReqestforOldSeq = no_old_op,
      eo_HandleforSequentialRequest = clpa_HandleforSequentialRequest X P\<rparr>"

section \<open>Between shards\<close>

definition handlePartitionMsg :: "PartitionModifiedMap \<Rightarrow> PbftNode \<Rightarrow> PbftNode" where
  "handlePartitionMsg pm p =
     p\<lparr>p_cdm := (p_cdm p)\<lparr>cd_ModifiedMap := cd_ModifiedMap (p_cdm p) @ [pmm_PartitionModified pm],
                          cd_PartitionOn := True\<rparr>\<rparr>"

definition handlePartitionReady :: "PartitionReady \<Rightarrow> PbftNode \<Rightarrow> PbftNode" where
  "handlePartitionReady pr p =
     p\<lparr>p_cdm := (p_cdm p)\<lparr>cd_PartitionReady := insert (prd_FromShard pr) (cd_PartitionReady (p_cdm p)),
                          cd_ReadySeq := (cd_ReadySeq (p_cdm p))(prd_FromShard pr \<mapsto> prd_NowSeqID pr)\<rparr>\<rparr>"

definition handleAccountStateAndTxMsg :: "AccountStateAndTx \<Rightarrow> PbftNode \<Rightarrow> PbftNode" where
  "handleAccountStateAndTxMsg at p =
     (let c = p_cdm p; ats = AList.update (ast_FromShard at) at (cd_AccountStateTx c);
          c1 = c\<lparr>cd_AccountStateTx := ats\<rparr>
      in p\<lparr>p_cdm := (if int (length ats) = uint (cc_ShardNums (p_pbftChainConfig p)) - 1
                     then c1\<lparr>cd_CollectOver := True\<rparr> else c1)\<rparr>)"

fun clpa_HandleMessageOutsidePBFT :: "xlib \<Rightarrow> time \<Rightarrow> wire \<Rightarrow> PbftNode \<Rightarrow> PbftNode res" where
  "clpa_HandleMessageOutsidePBFT X now (WRelay relay) p = Inr (handleRelay now relay p)"
| "clpa_HandleMessageOutsidePBFT X now (WRelayWithProof rwp) p = handleRelayWithProof X now rwp p"
| "clpa_HandleMessageOutsidePBFT X now (WInject it) p = Inr (handleInjectTx now it p)"
| "clpa_HandleMessageOutsidePBFT X now (WPartition pm) p = Inr (handlePartitionMsg pm p)"
| "clpa_HandleMessageOutsidePBFT X now (WAccountStateTx at) p = Inr (handleAccountStateAndTxMsg at p)"
| "clpa_HandleMessageOutsidePBFT X now (WPartitionReady pr) p = Inr (handlePartitionReady pr p)"
| "clpa_HandleMessageOutsidePBFT X now _ p = Inr p"

fun clpa_broker_HandleMessageOutsidePBFT :: "time \<Rightarrow> wire \<Rightarrow> PbftNode \<Rightarrow> PbftNode" where
  "clpa_broker_HandleMessageOutsidePBFT now (WSeqIDinfo sii) p = broker_handleSeqIDinfos sii p"
| "clpa_broker_HandleMessageOutsidePBFT now (WInject it) p = handleInjectTx now it p"
| "clpa_broker_HandleMessageOutsidePBFT now (WPartition pm) p = handlePartitionMsg pm p"
| "clpa_broker_HandleMessageOutsidePBFT now (WAccountTransferBroker at) p = handleAccountStateAndTxMsg at p"
| "clpa_broker_HandleMessageOutsidePBFT now (WPartitionReady pr) p = handlePartitionReady pr p"
| "clpa_broker_HandleMessageOutsidePBFT now _ p = p"

end
