(* ===== verification/Pbft_Contracts.thy ===== *)
theory Pbft_Contracts
  imports Pbft_Control Pbft_Bridge Pbft_Clpa
begin

text \<open>
  The relay, the broker, the bridge and the two CLPA protocols keep the contract \<open>consensus_ops\<close>
  of the operations a consensus node calls: the locale is interpreted for each of them.
\<close>

section \<open>The protocols keep the contract\<close>

lemma GenerateBlock_head:
  "GenerateBlock L P now miner bc = Inr (b, bc') \<Longrightarrow> bc_CurrentBlock bc' = bc_CurrentBlock bc"
  by (auto simp: GenerateBlock_def Let_def bindR_Inr_iff GetUpdateStatusTrie_def pack_block_def
      split: if_splits prod.splits option.splits)

lemma propose_block_quiet: "propose_block X P now p = Inr (r, q) \<Longrightarrow> quiet_between p q"
  by (auto simp: propose_block_def bindR_Inr_iff quiet_simps dest: GenerateBlock_head)

lemma proposed_quiet:
  "proposed m = Inr (ro, q) \<Longrightarrow> (\<And>r. m = Inr (r, q) \<Longrightarrow> quiet_between p q) \<Longrightarrow> quiet_between p q"
  by (auto simp: proposed_def bindR_Inr_iff)

lemma check_block_quiet: "check_block X m p = Inr (b, q) \<Longrightarrow> quiet_between p q"
proof -
  assume "check_block X m p = Inr (b, q)"
  then obtain blk where "(case IsValidBlock (x_lib X) blk (p_CurChain p) of Inl _ \<Rightarrow> Inr (False, p)
      | Inr _ \<Rightarrow> Inr (True, p\<lparr>p_requestPool := (p_requestPool p)(pp_Digest m \<mapsto> pp_RequestMsg m)\<rparr>)) =
      (Inr (b, q) :: (bool \<times> PbftNode) res)"
    unfolding check_block_def by (rule bindR_InrE)
  then show ?thesis
    by (cases "IsValidBlock (x_lib X) blk (p_CurChain p)") (auto simp: quiet_simps)
qed

lemma no_op_quiet:
  "no_prepare_op m p = Inr (b, q) \<Longrightarrow> quiet_between p q"
  "no_old_op m' p = Inr (b, q) \<Longrightarrow> quiet_between p q"
  by (simp_all add: no_prepare_op_def no_old_op_def)

lemma fold_TcpDial:
  assumes "\<And>sid q. \<exists>o'. f sid q = q\<lparr>p_out := o'\<rparr>"
  shows "\<exists>o'. fold f sids p = p\<lparr>p_out := o'\<rparr>"
proof (induction sids arbitrary: p)
  case Nil
  show ?case by (rule exI [of _ "p_out p"]) simp
next
  case (Cons sid sids)
  obtain o1 where o1: "f sid p = p\<lparr>p_out := o1\<rparr>" using assms by blast
  obtain o2 where "fold f sids (p\<lparr>p_out := o1\<rparr>) = p\<lparr>p_out := o1\<rparr>\<lparr>p_out := o2\<rparr>"
    using Cons.IH by blast
  then show ?case by (auto simp: o1)
qed

text \<open>Steps that keep the control state: the core, the locks, the stage and the requests.\<close>

definition keeps_control :: "PbftNode \<Rightarrow> PbftNode \<Rightarrow> bool" where
  "keeps_control p q \<longleftrightarrow>
     core q = core p \<and> p_sequenceID q = p_sequenceID p \<and> p_pbftStage q = p_pbftStage p \<and>
     p_sequenceLock q = p_sequenceLock p \<and> p_sequenceLockHeld q = p_sequenceLockHeld p \<and>
     p_askForLock q = p_askForLock p \<and> p_stopSignal q = p_stopSignal p \<and> p_proposing q = p_proposing p \<and>
     p_requestPool q = p_requestPool p \<and> p_height2Digest q = p_height2Digest p"

lemma keeps_refl [simp]: "keeps_control p p"
  by (simp add: keeps_control_def)

lemma keeps_updates [simp]:
  "keeps_control p (q\<lparr>p_CurChain := bc\<rparr>) = keeps_control p q"
  "keeps_control (p\<lparr>p_CurChain := bc\<rparr>) q = keeps_control p q"
  "keeps_control (p\<lparr>p_bridgeBalances := bb\<rparr>) q = keeps_control p q"
  "keeps_control p (q\<lparr>p_out := o'\<rparr>) = keeps_control p q"
  "keeps_control p (q\<lparr>p_csv := cs\<rparr>) = keeps_control p q"
  "keeps_control p (q\<lparr>p_bridgeBalances := bb\<rparr>) = keeps_control p q"
  "keeps_control p (q\<lparr>p_bridgeJointSig := js\<rparr>) = keeps_control p q"
  "keeps_control p (q\<lparr>p_seqIDMap := sm\<rparr>) = keeps_control p q"
  "keeps_control p (q\<lparr>p_cdm := cd\<rparr>) = keeps_control p q"
  "keeps_control p (TcpDial w a q) = keeps_control p q"
  "keeps_control p (clear_relay q) = keeps_control p q"
  "keeps_control p (report_block bim row q) = keeps_control p q"
  "keeps_control p (add_to_pool now txs q) = keeps_control p q"
  by (simp_all add: keeps_control_def core_def TcpDial_def clear_relay_def report_block_def Let_def add_to_pool_def)

lemma keeps_fold:
  assumes "\<And>sid q. keeps_control p (f sid q) = keeps_control p q"
  shows "keeps_control p (fold f sids q) = keeps_control p q"
  by (induction sids arbitrary: q) (simp_all add: assms)

lemma RelayMsgSend_keeps: "RelayMsgSend P p = Inr q \<Longrightarrow> keeps_control p q"
  by (auto simp: RelayMsgSend_def keeps_fold split: if_splits)

lemma RelayWithProofSend_keeps:
  assumes "RelayWithProofSend X P b p = Inr q"
  shows "keeps_control p q"
proof -
  obtain r where r: "foldR (send_with_proof X b) (shard_ids p) p = Inr r" "q = clear_relay r"
    using assms by (auto simp: RelayWithProofSend_def bindR_Inr_iff split: if_splits)
  have "keeps_control p r"
    by (rule foldR_invariant [OF r(1), where P = "keeps_control p"])
       (auto simp: send_with_proof_def Let_def bindR_Inr_iff split: if_splits)
  then show ?thesis using r(2) by simp
qed

lemma relay_leader_commit_keeps: "relay_leader_commit X P now epoch r b cur p = Inr q \<Longrightarrow> keeps_control p q"
  by (auto simp: relay_leader_commit_def Let_def bindR_Inr_iff split: if_splits
      dest!: RelayMsgSend_keeps RelayWithProofSend_keeps)

lemma relay_commit_keeps: "relay_HandleinCommit X P now c p = Inr (b, q) \<Longrightarrow> keeps_control p q"
  by (auto simp: relay_HandleinCommit_def Let_def bindR_Inr_iff split: option.splits if_splits
      dest!: relay_leader_commit_keeps)

lemma broker_commit_keeps: "broker_HandleinCommit X P now c p = Inr (b, q) \<Longrightarrow> keeps_control p q"
  by (auto simp: broker_HandleinCommit_def Let_def bindR_Inr_iff keeps_fold split: option.splits if_splits prod.splits)

lemma send_bridge_keeps: "keeps_control p (send_bridge a sid q) = keeps_control p q"
  by (simp add: send_bridge_def keeps_fold)

lemma combine_keeps: "combineBridgeSignature X p = (ok, q) \<Longrightarrow> keeps_control p q"
  by (auto simp: combineBridgeSignature_def split: if_splits option.splits)

lemma bridge_finish_keeps: "bridge_finish X P now r b a p = (ok, q) \<Longrightarrow> keeps_control p q"
  using combine_keeps [of X p]
  by (cases "combineBridgeSignature X p")
    (auto simp: bridge_finish_def Let_def keeps_fold send_bridge_keeps split: if_splits)

lemma bridge_leader_keeps: "handleBridgeLeaderCommit X P now r b p = Inr (ok, q) \<Longrightarrow> keeps_control p q"
  by (auto simp: handleBridgeLeaderCommit_def bindR_Inr_iff split: option.splits dest!: bridge_finish_keeps)

lemma bridge_commit_keeps: "bridge_HandleinCommit X P now c p = Inr (b, q) \<Longrightarrow> keeps_control p q"
  by (auto simp: bridge_HandleinCommit_def Let_def bindR_Inr_iff split: option.splits if_splits
      dest!: bridge_leader_keeps)

lemma keeps_core: "keeps_control p q \<Longrightarrow> core q = core p \<and> p_sequenceID q = p_sequenceID p"
  by (simp add: keeps_control_def)

lemma relay_seq_core: "relay_HandleforSequentialRequest X P m p = Inr (b, q) \<Longrightarrow> core q = core p"
  by (auto simp: relay_HandleforSequentialRequest_def bindR_Inr_iff core_def split: if_splits)

lemma broker_seq_core: "broker_HandleforSequentialRequest X P m p = Inr (b, q) \<Longrightarrow> core q = core p"
  by (auto simp: broker_HandleforSequentialRequest_def bindR_Inr_iff core_def split: if_splits)

lemma add_to_pool_quiet: "quiet_between p (add_to_pool now txs p)"
  by (simp add: add_to_pool_def quiet_simps SendTx2Pool_def)

lemma relay_out_quiet: "relay_HandleMessageOutsidePBFT X now w p = Inr q \<Longrightarrow> quiet_between p q"
  using add_to_pool_quiet
  by (cases w) (auto simp: handleRelay_def handleRelayWithProof_def handleInjectTx_def Let_def bindR_Inr_iff
      quiet_simps split: if_splits)

lemma broker_out_quiet: "quiet_between p (broker_HandleMessageOutsidePBFT now w p)"
  using add_to_pool_quiet
  by (cases w) (auto simp: broker_handleSeqIDinfos_def handleInjectTx_def quiet_simps)

lemma bridge_out_quiet: "quiet_between p (bridge_HandleMessageOutsidePBFT now w p)"
  using add_to_pool_quiet
  by (cases w) (auto simp: bridge_handleSeqIDinfos_def handleBridgeOverlay_def handleInjectTx_def Let_def
      quiet_simps split: option.splits)

lemma bridge_quiet:
  "bridge_HandleinPropose X P now p = Inr (r, q) \<Longrightarrow> quiet_between p q"
  "bridge_HandleinPrepare X pm p = Inr (b, q) \<Longrightarrow> quiet_between p q"
proof -
  assume "bridge_HandleinPropose X P now p = Inr (r, q)"
  then obtain p1 where 1: "propose_block X P now (resetBridgeSignatureRound p) = Inr (r, p1)"
      "prepareBridgeHash X (rq_Content r) p1 = Inr q"
    by (auto simp: bridge_HandleinPropose_def bindR_Inr_iff)
  have "quiet_between p p1"
    using propose_block_quiet [OF 1(1)] by (simp add: quiet_simps resetBridgeSignatureRound_def)
  moreover have "quiet_between p1 q"
    using 1(2) by (auto simp: prepareBridgeHash_def Let_def quiet_simps split: option.splits)
  ultimately show "quiet_between p q" by (rule quiet_trans)
next
  assume "bridge_HandleinPrepare X pm p = Inr (b, q)"
  then show "quiet_between p q"
    by (auto simp: bridge_HandleinPrepare_def prepareBridgeHashForDigest_def prepareBridgeHash_def
        partialSignBridge_def Let_def bindR_Inr_iff quiet_simps split: option.splits if_splits)
qed

lemma bridge_preprepare_quiet:
  assumes "bridge_HandleinPrePrepare X m p = Inr (b, q)"
  shows "quiet_between p q"
proof -
  obtain blk where d: "DecodeB (rq_Content (pp_RequestMsg m)) = Inr blk"
    using assms by (auto simp: bridge_HandleinPrePrepare_def bindR_Inr_iff)
  show ?thesis
    using assms
    by (cases "IsValidBlock (x_lib X) blk (p_CurChain p)")
      (auto simp: bridge_HandleinPrePrepare_def d prepareBridgeHash_def bindR_Inr_iff quiet_simps
        resetBridgeSignatureRound_def Let_def split: option.splits if_splits)
qed

section \<open>The CLPA protocols\<close>

lemma fold_keeps_quiet:
  assumes "\<And>x q. quiet_between q (f x q)"
  shows "quiet_between p (fold f xs p)"
proof (induction xs arbitrary: p)
  case (Cons x xs)
  show ?case using quiet_trans [OF assms Cons.IH] by simp
qed simp

lemma TcpDial_quiet [simp]: "quiet_between p (TcpDial w a p)"
  by (simp add: TcpDial_def quiet_simps)

lemma quiet_updates [simp]:
  "quiet_between p (q\<lparr>p_proposing := n\<rparr>) = quiet_between p q"
  "quiet_between p (q\<lparr>p_cdm := cd\<rparr>) = quiet_between p q"
  "quiet_between (p\<lparr>p_cdm := cd\<rparr>) q = quiet_between p q"
  by (simp_all add: quiet_simps)

lemma sendPartitionReady_quiet: "quiet_between p (sendPartitionReady p)"
proof -
  let ?p = "p\<lparr>p_cdm := (p_cdm p)\<lparr>cd_PartitionReady := insert (p_ShardID p) (cd_PartitionReady (p_cdm p))\<rparr>\<rparr>"
  have "quiet_between ?p (sendPartitionReady p)"
    unfolding sendPartitionReady_def Let_def by (rule fold_keeps_quiet) simp
  then show ?thesis by simp
qed

lemma send_transfers_quiet: "quiet_between p (send_transfers w a p)"
proof -
  have "quiet_between (set_queue (ta_queue a) p) (send_transfers w a p)"
    unfolding send_transfers_def by (rule fold_keeps_quiet) (simp split: prod.splits)
  moreover have "quiet_between p (set_queue (ta_queue a) p)"
    by (simp add: set_queue_def quiet_simps)
  ultimately show ?thesis using quiet_trans by blast
qed

lemma sendAccounts_quiet:
  "sendAccounts_and_Txs L P p = Inr q \<Longrightarrow> quiet_between p q"
  "broker_sendAccounts_and_Txs L P p = Inr q \<Longrightarrow> quiet_between p q"
proof -
  assume "sendAccounts_and_Txs L P p = Inr q"
  then show "quiet_between p q"
    by (auto simp: sendAccounts_and_Txs_def bindR_Inr_iff intro: send_transfers_quiet)
next
  assume "broker_sendAccounts_and_Txs L P p = Inr q"
  then obtain a w ip where "q = TcpDial w ip (send_transfers WAccountTransferBroker a p)"
    by (auto simp: broker_sendAccounts_and_Txs_def bindR_Inr_iff Let_def)
  then show "quiet_between p q"
    using quiet_trans [OF send_transfers_quiet TcpDial_quiet] by simp
qed

lemma proposePartition_quiet: "proposePartition ch now p = Inr (r, q) \<Longrightarrow> quiet_between p q"
  by (auto simp: proposePartition_def bindR_Inr_iff Let_def add_to_pool_def SendTx2Pool_def quiet_simps split: if_splits)

lemma clpa_propose_quiet:
  assumes "\<And>p q. send p = Inr q \<Longrightarrow> quiet_between p q"
    and "clpa_HandleinPropose send ch X P now p = Inr (ro, q)"
  shows "quiet_between p q"
  using assms sendPartitionReady_quiet
  by (auto simp: clpa_HandleinPropose_def bindR_Inr_iff split: if_splits elim!: proposed_quiet
      dest: propose_block_quiet proposePartition_quiet)

lemma clpa_preprepare_quiet: "clpa_HandleinPrePrepare X m p = Inr (b, q) \<Longrightarrow> quiet_between p q"
  using check_block_quiet by (auto simp: clpa_HandleinPrePrepare_def quiet_simps split: if_splits)

lemma accountTransfer_keeps: "accountTransfer_do L P atm p = Inr q \<Longrightarrow> keeps_control p q"
  by (auto simp: accountTransfer_do_def bindR_Inr_iff Let_def)

lemma clpa_commit_keeps: "clpa_HandleinCommit X P now c p = Inr (b, q) \<Longrightarrow> keeps_control p q"
  by (auto simp: clpa_HandleinCommit_def Let_def bindR_Inr_iff split: option.splits if_splits
      dest!: relay_leader_commit_keeps accountTransfer_keeps)

lemma clpa_broker_leader_keeps: "clpa_broker_leader_commit P now r b p = Inr q \<Longrightarrow> keeps_control p q"
  by (auto simp: clpa_broker_leader_commit_def Let_def bindR_Inr_iff keeps_fold)

lemma clpa_broker_commit_keeps: "clpa_broker_HandleinCommit X P now c p = Inr (b, q) \<Longrightarrow> keeps_control p q"
  by (auto simp: clpa_broker_HandleinCommit_def Let_def bindR_Inr_iff split: option.splits if_splits
      dest!: clpa_broker_leader_keeps accountTransfer_keeps)

lemma clpa_add_request_core: "clpa_add_request X P r p = Inr q \<Longrightarrow> core q = core p"
  by (auto simp: clpa_add_request_def bindR_Inr_iff core_def split: if_splits dest!: accountTransfer_keeps keeps_core)

lemma clpa_seq_loop_core: "clpa_seq_loop X P reqs i n p = Inr q \<Longrightarrow> core q = core p"
proof (induction n arbitrary: i p)
  case (Suc n)
  then obtain r where "clpa_add_request X P (reqs ! i) p = Inr r" "clpa_seq_loop X P reqs (i + 1) n r = Inr q"
    by (auto simp: bindR_Inr_iff split: if_splits)
  then show ?case using Suc.IH clpa_add_request_core by metis
qed simp

lemma clpa_seq_core: "clpa_HandleforSequentialRequest X P m p = Inr (b, q) \<Longrightarrow> core q = core p"
  by (auto simp: clpa_HandleforSequentialRequest_def bindR_Inr_iff Let_def core_def
      simp del: clpa_seq_loop.simps split: if_splits dest!: clpa_seq_loop_core)

lemma partition_msg_quiet:
  "quiet_between p (handlePartitionMsg pm p)" "quiet_between p (handlePartitionReady pr p)"
  "quiet_between p (handleAccountStateAndTxMsg at p)"
  by (simp_all add: handlePartitionMsg_def handlePartitionReady_def handleAccountStateAndTxMsg_def Let_def)

lemma clpa_out_quiet: "clpa_HandleMessageOutsidePBFT X now w p = Inr q \<Longrightarrow> quiet_between p q"
  using relay_out_quiet [of X now w p q] partition_msg_quiet by (cases w) auto

lemma clpa_broker_out_quiet: "quiet_between p (clpa_broker_HandleMessageOutsidePBFT now w p)"
  using broker_out_quiet [of p now w] partition_msg_quiet by (cases w) auto

text \<open>The interpretations: each protocol with its handler of messages between shards.\<close>

interpretation relay: consensus_ops "relay_ops X P" "relay_HandleMessageOutsidePBFT X" for X P
  by unfold_locales
    (auto simp: relay_ops_def elim!: proposed_quiet dest: propose_block_quiet check_block_quiet no_op_quiet relay_commit_keeps [THEN keeps_core]
      relay_seq_core relay_out_quiet)

interpretation broker: consensus_ops "broker_ops X P" "\<lambda>now w p. Inr (broker_HandleMessageOutsidePBFT now w p)" for X P
  by unfold_locales
    (auto simp: broker_ops_def broker_out_quiet elim!: proposed_quiet dest: propose_block_quiet check_block_quiet no_op_quiet
      broker_commit_keeps [THEN keeps_core] broker_seq_core)

interpretation bridge: consensus_ops "bridge_ops X P" "\<lambda>now w p. Inr (bridge_HandleMessageOutsidePBFT now w p)" for X P
  by unfold_locales
    (auto simp: bridge_ops_def bridge_out_quiet elim!: proposed_quiet dest: bridge_quiet bridge_preprepare_quiet no_op_quiet
      bridge_commit_keeps [THEN keeps_core] relay_seq_core)

interpretation clpa: consensus_ops "clpa_ops X P" "clpa_HandleMessageOutsidePBFT X" for X P
  by unfold_locales
    (auto simp: clpa_ops_def elim: clpa_propose_quiet [rotated] dest: sendAccounts_quiet clpa_preprepare_quiet no_op_quiet
      clpa_commit_keeps [THEN keeps_core] clpa_seq_core clpa_out_quiet)

interpretation clpa_broker: consensus_ops "clpa_broker_ops X P"
    "\<lambda>now w p. Inr (clpa_broker_HandleMessageOutsidePBFT now w p)" for X P
  by unfold_locales
    (auto simp: clpa_broker_ops_def clpa_broker_out_quiet elim: clpa_propose_quiet [rotated]
      dest: sendAccounts_quiet clpa_preprepare_quiet no_op_quiet
      clpa_broker_commit_keeps [THEN keeps_core] clpa_seq_core)

end
