(* ===== verification/Pbft_Start.thy ===== *)
theory Pbft_Start
  imports Pbft_Contracts
begin

text \<open>
  The construction of a consensus node (\<open>NewPbftNode\<close>): the choice of the protocol, the initial
  state, and the size of the quorums it gives.
\<close>

section \<open>The choice of the protocol\<close>

text \<open>The switch of \<open>NewPbftNode\<close> over the names of the protocols.\<close>

definition choose_ihm :: "xlib \<Rightarrow> params \<Rightarrow> string \<Rightarrow> ExtraOp" where
  "choose_ihm X P messageHandleType =
     (if messageHandleType = ''CLPA_Broker'' then clpa_broker_ops X P
      else if messageHandleType = ''CLPA'' then clpa_ops X P
      else if messageHandleType = ''Broker'' then broker_ops X P
      else if messageHandleType = ''Bridge'' then bridge_ops X P
      else relay_ops X P)"

definition choose_ohm :: "xlib \<Rightarrow> string \<Rightarrow> outside" where
  "choose_ohm X messageHandleType =
     (if messageHandleType = ''CLPA_Broker'' then (\<lambda>now w p. Inr (clpa_broker_HandleMessageOutsidePBFT now w p))
      else if messageHandleType = ''CLPA'' then clpa_HandleMessageOutsidePBFT X
      else if messageHandleType = ''Broker'' then (\<lambda>now w p. Inr (broker_HandleMessageOutsidePBFT now w p))
      else if messageHandleType = ''Bridge'' then (\<lambda>now w p. Inr (bridge_HandleMessageOutsidePBFT now w p))
      else relay_HandleMessageOutsidePBFT X)"

interpretation pbft: consensus_ops "choose_ihm X P mode" "choose_ohm X mode" for X P mode
  using relay.consensus_ops_axioms broker.consensus_ops_axioms bridge.consensus_ops_axioms
    clpa.consensus_ops_axioms clpa_broker.consensus_ops_axioms
  by (simp add: choose_ihm_def choose_ohm_def)

section \<open>The constructor\<close>

text \<open>
  The databases of the node and the parsed key files are arguments; \<open>fp\<close> is the name under
  which the chain stores its blocks.
\<close>

definition NewPbftNode ::
  "xlib \<Rightarrow> params \<Rightarrow> key_material \<Rightarrow> (u64 \<Rightarrow> u64 \<rightharpoonup> string) \<Rightarrow> string \<Rightarrow> boltdb \<Rightarrow> triedb \<Rightarrow> time \<Rightarrow>
   u64 \<Rightarrow> u64 \<Rightarrow> ChainConfig \<Rightarrow> string \<Rightarrow> PbftNode res" where
  "NewPbftNode X P km tbl fp sdb db now shardID nodeID pcc messageHandleType =
     bindR (NewBlockChain (x_lib X) P pcc fp sdb db) (\<lambda>bc.
       let p = \<lparr>p_RunningNode = \<lparr>nd_NodeID = nodeID, nd_ShardID = shardID,
                  nd_IPaddr = (case tbl shardID nodeID of None \<Rightarrow> '''' | Some ip \<Rightarrow> ip)\<rparr>,
                p_ShardID = shardID, p_NodeID = nodeID, p_CurChain = bc, p_pbftChainConfig = pcc,
                p_ip_nodeTable = tbl, p_node_nums = cc_Nodes_perShard pcc,
                p_malicious_nums = (cc_Nodes_perShard pcc - 1) div 3,
                p_view = 0, p_lastCommitTime = UnixMilli (now + 5000000000),
                p_viewChangeMap = (\<lambda>_. {}), p_newViewMap = (\<lambda>_. {}),
                p_sequenceID = bh_Number (b_Header (bc_CurrentBlock bc)) + 1, p_stopSignal = False,
                p_requestPool = Map.empty, p_cntPrepareConfirm = (\<lambda>_. []), p_cntCommitConfirm = (\<lambda>_. []),
                p_isCommitBordcast = (\<lambda>_. False), p_isReply = (\<lambda>_. False), p_height2Digest = Map.empty,
                p_pbftStage = 1, p_sequenceLock = False, p_sequenceLockHeld = False, p_askForLock = False,
                p_seqIDMap = [], p_bridges = None, p_bridgeBalances = Map.empty, p_bridgePub = [], p_bridgeK = 0,
                p_bridgeShare = [], p_bridgePreparedHash = [], p_bridgePreparedPKCS1 = [], p_bridgePartialSig = [],
                p_bridgeJointSig = [], p_bridgeSigShares = [], p_bridgeSigSeen = {}, p_bridgeOverlayEpoch = 0,
                p_bridgeDegreeLimits = [], p_bridgeOverlayEdges = [], p_bridgeOverlayRoutes = [],
                p_cdm = NewCLPADataSupport, p_proposing = 0, p_out = [], p_csv = []\<rparr>
       in if messageHandleType = ''Bridge'' then initBridgeState P km p else Inr p)"

lemma NewPbftNode_fields:
  assumes "NewPbftNode X P km tbl fp sdb db now s n pcc mode = Inr p"
  shows "p_malicious_nums p = (cc_Nodes_perShard pcc - 1) div 3" "p_view p = 0"
    "p_newViewMap p = (\<lambda>_. {})" "p_isReply p = (\<lambda>_. False)" "p_cntCommitConfirm p = (\<lambda>_. [])"
    "p_NodeID p = n" "p_ShardID p = s" "p_requestPool p = Map.empty" "p_pbftStage p = 1" "\<not> p_sequenceLock p"
    "p_sequenceID p = bh_Number (b_Header (bc_CurrentBlock (p_CurChain p))) + 1"
  using assms by (auto simp: NewPbftNode_def Let_def bindR_Inr_iff initBridgeState_def loadBridgeSignatureMaterial_def
      split: if_splits option.splits)

section \<open>The size of the quorums\<close>

lemma quorum_value:
  assumes "p_malicious_nums p = (n - 1) div 3" "n \<noteq> 0"
  shows "unat (quorum p) = 2 * ((unat n - 1) div 3) + 1"
proof -
  define f where "f = (unat n - 1) div 3"
  have n: "unat (n - 1) = unat n - 1"
    using assms(2) by (metis unat_minus_one)
  have "unat ((n - 1) div 3) = f"
    by (simp add: unat_div_distrib n f_def)
  then have m: "p_malicious_nums p = of_nat f" using assms(1) by (metis of_nat_unat ucast_id)
  have b: "2 * f + 1 < 2 ^ 64"
    using unsigned_less [of n, where ?'a = nat] by (auto simp: f_def)
  have "unat (of_nat (2 * f + 1) :: u64) = 2 * f + 1"
    using b by (simp only: unat_of_nat) simp
  moreover have "quorum p = of_nat (2 * f + 1)" by (simp add: quorum_def m)
  ultimately show ?thesis by (simp add: f_def)
qed

end
