(* ===== verification/Pbft_Round.thy ===== *)
theory Pbft_Round
  imports Pbft_Start
begin

text \<open>
  Progress: a round in which a node receives a valid proposal, \<open>2f + 1\<close> prepares and \<open>2f + 1\<close>
  commits ends with the block added to its chain and the next sequence number. The lemmas are
  about any operations whose prepare step does nothing, which is so for relay and broker.
\<close>

section \<open>Composition of runs\<close>

lemma run_append:
  assumes "pbft_run X P ops out q es' ds' r" "pbft_run X P ops out p es ds q"
  shows "pbft_run X P ops out p (es @ es') (ds @ ds') r"
  using assms
proof (induction rule: pbft_run.induct)
  case (run_step es' ds' r ev r')
  then show ?case
    using pbft_run.run_step [of X P ops out p "es @ es'" "ds @ ds'" r ev r'] by simp
qed simp

lemma run_one:
  assumes "pbft_step X P ops out ev p q" "executed ev p = ds"
  shows "pbft_run X P ops out p [ev] ds q"
  using pbft_run.run_step [OF pbft_run.run_nil assms(1)] assms(2) by simp

section \<open>Counting to the quorum\<close>

lemma quorum_pos: "0 < unat (quorum p)"
proof -
  have "odd (quorum p)" by (simp add: quorum_def)
  then have "quorum p \<noteq> 0" by (metis even_zero)
  then show ?thesis by (simp add: unat_gt_0)
qed

lemma quorum_iff:
  assumes "k \<le> unat (quorum p)"
  shows "quorum p \<le> of_nat k \<longleftrightarrow> k = unat (quorum p)"
proof -
  have "k < 2 ^ 64" using assms unsigned_less [of "quorum p", where ?'a = nat] by simp
  then have "unat (of_nat k :: u64) = k" by (simp add: unat_of_nat)
  then show ?thesis using assms by (auto simp: word_le_nat_alt)
qed

lemma quorum_updates [simp]:
  "quorum (p\<lparr>p_pbftStage := s\<rparr>) = quorum p" "quorum (p\<lparr>p_out := w\<rparr>) = quorum p"
  "quorum (p\<lparr>p_cntPrepareConfirm := a\<rparr>) = quorum p" "quorum (p\<lparr>p_cntCommitConfirm := a\<rparr>) = quorum p"
  "quorum (p\<lparr>p_isCommitBordcast := cb\<rparr>) = quorum p"
  "quorum (p\<lparr>p_requestPool := rp\<rparr>) = quorum p" "quorum (p\<lparr>p_height2Digest := hm\<rparr>) = quorum p"
  by (simp_all add: quorum_def)

section \<open>The prepares\<close>

text \<open>The node during the prepare phase: votes, stage, whether the commit is sent, and outbox.\<close>

definition prep :: "bytes \<Rightarrow> Node list \<Rightarrow> int \<Rightarrow> bool \<Rightarrow> (string \<times> wire) list \<Rightarrow> PbftNode \<Rightarrow> PbftNode" where
  "prep d ns stage sent w p = p\<lparr>p_cntPrepareConfirm := (p_cntPrepareConfirm p)(d := ns),
     p_isCommitBordcast := (p_isCommitBordcast p)(d := sent), p_pbftStage := stage, p_out := w\<rparr>"

lemma prep_fields [simp]:
  "p_view (prep d ns st b w p) = p_view p" "p_sequenceID (prep d ns st b w p) = p_sequenceID p"
  "p_requestPool (prep d ns st b w p) = p_requestPool p" "p_bridges (prep d ns st b w p) = p_bridges p"
  "p_pbftStage (prep d ns st b w p) = st" "quorum (prep d ns st b w p) = quorum p"
  "p_isCommitBordcast (prep d ns st b w p) d = b" "p_cntPrepareConfirm (prep d ns st b w p) d = ns"
  "isBridgeMode (prep d ns st b w p) = isBridgeMode p" "p_RunningNode (prep d ns st b w p) = p_RunningNode p"
  by (simp_all add: prep_def quorum_def isBridgeMode_def)

lemma set2DMap_prep [simp]: "set2DMap True d n (prep d ns st b w p) = prep d (ns @ [n]) st b w p"
  by (simp add: prep_def set2DMap_def)

lemma prep_out [simp]:
  "broadcast_all msg (prep d ns st b w p) = prep d ns st b (w @
     sends msg (filter (\<lambda>ip. ip \<noteq> nd_IPaddr (p_RunningNode p)) (getNeighborNodes p) @ [nd_IPaddr (p_RunningNode p)])) p"
  by (simp add: prep_def broadcast_all_eq getNeighborNodes_def)

lemma prep_sent [simp]:
  "(prep d ns st b w p)\<lparr>p_isCommitBordcast := (p_isCommitBordcast (prep d ns st b w p))(d := b'), p_pbftStage := st'\<rparr>
     = prep d ns st' b' w p"
  by (simp add: prep_def)

text \<open>The commit a node sends for a request.\<close>

definition commit_msg :: "bytes \<Rightarrow> u64 \<Rightarrow> Node \<Rightarrow> wire" where
  "commit_msg d s n = WCommit \<lparr>cm_Digest = d, cm_SeqID = s, cm_SenderNode = n, cm_PartialSig = []\<rparr>"

lemma snd_sends [simp]: "snd ` set (sends msg ips) = (if ips = [] then {} else {msg})"
  by (cases ips) (auto simp: sends_def)

lemma prepare_step:
  assumes ops: "eo_HandleinPrepare ops = no_prepare_op"
    and p: "p_bridges p = None" "p_requestPool p d \<noteq> None"
    and pm: "pm_Digest pm = d" "pm_SeqID pm = p_sequenceID p"
    and ns: "length ns < unat (quorum p)" "2 \<le> stage"
  shows "\<exists>w'. pbft_step X P ops out (EPrepare (p_view p) pm) (prep d ns stage False w p)
    (prep d (ns @ [pm_SenderNode pm]) (if length ns + 1 = unat (quorum p) then stage + 1 else stage)
      (length ns + 1 = unat (quorum p)) w' p) \<and>
    (length ns + 1 = unat (quorum p) \<longrightarrow> commit_msg d (p_sequenceID p) (p_RunningNode p) \<in> snd ` set w')"
proof -
  have c: "quorum p \<le> 1 + of_nat (length ns) \<longleftrightarrow> length ns + 1 = unat (quorum p)"
    using quorum_iff [of "length ns + 1" p] ns(1) by simp
  obtain r where pool: "p_requestPool p d = Some r" using p(2) by blast
  have br: "\<not> isBridgeMode p" using p(1) by (simp add: isBridgeMode_def)
  show ?thesis
  proof (cases "length ns + 1 = unat (quorum p)")
    case True
    let ?w = "w @ sends (commit_msg d (p_sequenceID p) (p_RunningNode p))
        (filter (\<lambda>ip. ip \<noteq> nd_IPaddr (p_RunningNode p)) (getNeighborNodes p) @ [nd_IPaddr (p_RunningNode p)])"
    show ?thesis
      using p(1) pool pm ns(2) c True br
      by (intro exI [of _ ?w])
        (simp add: pbft_step_def handlePrepare_def waits_Prepare_def ops no_prepare_op_def Let_def commit_msg_def image_Un)
  next
    case False
    show ?thesis
      using p(1) pool pm ns(2) c False
      by (intro exI [of _ w])
        (simp add: pbft_step_def handlePrepare_def waits_Prepare_def ops no_prepare_op_def Let_def)
  qed
qed

lemma prepares_run:
  assumes "eo_HandleinPrepare ops = no_prepare_op" "p_bridges p = None" "p_requestPool p d \<noteq> None"
    and "p_cntPrepareConfirm p d = []" "\<not> p_isCommitBordcast p d" "2 \<le> p_pbftStage p"
    and "\<forall>pm \<in> set pms. pm_Digest pm = d \<and> pm_SeqID pm = p_sequenceID p" "length pms \<le> unat (quorum p)"
  shows "\<exists>w. pbft_run X P ops out p (map (EPrepare (p_view p)) pms) []
    (prep d (map pm_SenderNode pms) (if length pms = unat (quorum p) then p_pbftStage p + 1 else p_pbftStage p)
      (length pms = unat (quorum p)) w p) \<and>
    (length pms = unat (quorum p) \<longrightarrow> commit_msg d (p_sequenceID p) (p_RunningNode p) \<in> snd ` set w)"
  using assms(7,8)
proof (induction pms rule: rev_induct)
  case Nil
  have "prep d [] (p_pbftStage p) False (p_out p) p = p"
    using assms(4,5) by (simp add: prep_def fun_upd_idem)
  then show ?case
    using quorum_pos [of p] pbft_run.run_nil [of X P ops out p] by (intro exI [of _ "p_out p"]) simp
next
  case (snoc pm pms)
  have l: "length (map pm_SenderNode pms) < unat (quorum p)" using snoc.prems(2) by simp
  have IH: "\<exists>w. pbft_run X P ops out p (map (EPrepare (p_view p)) pms) []
    (prep d (map pm_SenderNode pms) (if length pms = unat (quorum p) then p_pbftStage p + 1 else p_pbftStage p)
      (length pms = unat (quorum p)) w p) \<and>
    (length pms = unat (quorum p) \<longrightarrow> commit_msg d (p_sequenceID p) (p_RunningNode p) \<in> snd ` set w)"
    by (rule snoc.IH) (use snoc.prems in simp_all)
  have "length pms \<noteq> unat (quorum p)" using l by simp
  then obtain w where w: "pbft_run X P ops out p (map (EPrepare (p_view p)) pms) []
      (prep d (map pm_SenderNode pms) (p_pbftStage p) False w p)" using IH by auto
  obtain w' where "pbft_step X P ops out (EPrepare (p_view p) pm) (prep d (map pm_SenderNode pms) (p_pbftStage p) False w p)
      (prep d (map pm_SenderNode pms @ [pm_SenderNode pm])
        (if length (map pm_SenderNode pms) + 1 = unat (quorum p) then p_pbftStage p + 1 else p_pbftStage p)
        (length (map pm_SenderNode pms) + 1 = unat (quorum p)) w' p)"
      "length (map pm_SenderNode pms) + 1 = unat (quorum p) \<longrightarrow> commit_msg d (p_sequenceID p) (p_RunningNode p) \<in> snd ` set w'"
    using prepare_step [OF assms(1-3) _ _ l assms(6), of pm X P out w] snoc.prems by auto
  from pbft_run.run_step [OF w this(1)] this(2) show ?case by auto
qed

section \<open>The commits\<close>

definition comm :: "bytes \<Rightarrow> Node list \<Rightarrow> PbftNode \<Rightarrow> PbftNode" where
  "comm d ns p = p\<lparr>p_cntCommitConfirm := (p_cntCommitConfirm p)(d := ns)\<rparr>"

lemma comm_fields [simp]:
  "p_view (comm d ns p) = p_view p" "p_sequenceID (comm d ns p) = p_sequenceID p"
  "p_requestPool (comm d ns p) = p_requestPool p" "p_bridges (comm d ns p) = p_bridges p"
  "p_pbftStage (comm d ns p) = p_pbftStage p" "quorum (comm d ns p) = quorum p"
  "p_isReply (comm d ns p) = p_isReply p" "p_cntCommitConfirm (comm d ns p) d = ns"
  "p_stopSignal (comm d ns p) = p_stopSignal p" "p_CurChain (comm d ns p) = p_CurChain p"
  "isBridgeMode (comm d ns p) = isBridgeMode p" "is_leader (comm d ns p) = is_leader p"
  by (simp_all add: comm_def quorum_def isBridgeMode_def is_leader_def)

lemma counted_comm:
  "p_bridges p = None \<Longrightarrow> cm_Digest c = d \<Longrightarrow> counted c (comm d ns p) = comm d (ns @ [cm_SenderNode c]) p"
  by (simp add: counted_def comm_def isBridgeMode_def set2DMap_def)

text \<open>Below the quorum a commit is only counted; at the quorum the request is executed.\<close>

lemma commit_counts:
  assumes "p_bridges p = None" "p_pbftStage p \<ge> 3" "\<not> p_stopSignal p"
    and "cm_Digest c = d" "cm_SeqID c = p_sequenceID p" "length ns + 1 < unat (quorum p)"
  shows "pbft_run X P ops out (comm d ns p) [ECommit now (p_view p) c] [] (comm d (ns @ [cm_SenderNode c]) p)"
proof (rule run_one)
  have "\<not> quorum p \<le> 1 + of_nat (length ns)"
    using quorum_iff [of "length ns + 1" p] assms(6) by simp
  then show "executed (ECommit now (p_view p) c) (comm d ns p) = []"
    and "pbft_step X P ops out (ECommit now (p_view p) c) (comm d ns p) (comm d (ns @ [cm_SenderNode c]) p)"
    using assms counted_comm [OF assms(1,4)]
    by (simp_all add: executes_def pbft_step_def waits_Commit_def handleCommit_cases)
qed

lemma commit_executes:
  assumes "p_bridges p = None" "p_pbftStage p \<ge> 3" "\<not> p_stopSignal p" "\<not> p_isReply p d" "p_requestPool p d \<noteq> None"
    and "cm_Digest c = d" "cm_SeqID c = p_sequenceID p" "length ns + 1 = unat (quorum p)"
    and "eo_HandleinCommit ops now c (comm d (ns @ [cm_SenderNode c]) p) = Inr (b, r)"
  shows "pbft_run X P ops out (comm d ns p) [ECommit now (p_view p) c] [d]
    (end_round (UnixMilli now) (r\<lparr>p_isReply := (p_isReply r)(d := True), p_sequenceID := p_sequenceID r + 1\<rparr>))"
proof (rule run_one)
  have "quorum p \<le> 1 + of_nat (length ns)"
    using quorum_iff [of "length ns + 1" p] assms(8) by simp
  then have "executes (p_view p) c (comm d ns p)"
    using assms by (simp add: executes_def isBridgeMode_def)
  then show "executed (ECommit now (p_view p) c) (comm d ns p) = [d]"
    and "pbft_step X P ops out (ECommit now (p_view p) c) (comm d ns p)
      (end_round (UnixMilli now) (r\<lparr>p_isReply := (p_isReply r)(d := True), p_sequenceID := p_sequenceID r + 1\<rparr>))"
    using assms counted_comm [OF assms(1,6)]
    by (simp_all add: pbft_step_def waits_Commit_def handleCommit_cases)
qed

lemma commits_count:
  assumes "p_bridges p = None" "p_pbftStage p \<ge> 3" "\<not> p_stopSignal p" "p_cntCommitConfirm p d = []"
    and "\<forall>c \<in> set cs. cm_Digest c = d \<and> cm_SeqID c = p_sequenceID p" "length cs < unat (quorum p)"
  shows "pbft_run X P ops out p (map (ECommit now (p_view p)) cs) [] (comm d (map cm_SenderNode cs) p)"
  using assms(5,6)
proof (induction cs rule: rev_induct)
  case Nil
  have "comm d [] p = p" using assms(4) by (simp add: comm_def fun_upd_idem)
  then show ?case using pbft_run.run_nil by simp
next
  case (snoc c cs)
  have "pbft_run X P ops out p (map (ECommit now (p_view p)) cs) [] (comm d (map cm_SenderNode cs) p)"
    by (rule snoc.IH) (use snoc.prems in simp_all)
  moreover have "pbft_run X P ops out (comm d (map cm_SenderNode cs) p) [ECommit now (p_view p) c] []
      (comm d (map cm_SenderNode cs @ [cm_SenderNode c]) p)"
    using snoc.prems assms(1-3) by (intro commit_counts) auto
  ultimately show ?case using run_append by fastforce
qed

lemma commits_run:
  assumes "p_bridges p = None" "p_pbftStage p \<ge> 3" "\<not> p_stopSignal p" "\<not> p_isReply p d" "p_requestPool p d \<noteq> None"
    and "p_cntCommitConfirm p d = []" "length cs = unat (quorum p)"
    and "\<forall>c \<in> set cs. cm_Digest c = d \<and> cm_SeqID c = p_sequenceID p"
    and "\<And>c. cm_Digest c = d \<Longrightarrow> eo_HandleinCommit ops now c (comm d (map cm_SenderNode cs) p) =
      Inr (True, f (comm d (map cm_SenderNode cs) p))"
  shows "pbft_run X P ops out p (map (ECommit now (p_view p)) cs) [d]
    (end_round (UnixMilli now) ((f (comm d (map cm_SenderNode cs) p))
       \<lparr>p_isReply := (p_isReply (f (comm d (map cm_SenderNode cs) p)))(d := True),
        p_sequenceID := p_sequenceID (f (comm d (map cm_SenderNode cs) p)) + 1\<rparr>))"
proof -
  obtain cs' c where cs: "cs = cs' @ [c]"
    using assms(7) quorum_pos [of p] by (metis length_greater_0_conv rev_exhaust)
  have b: "eo_HandleinCommit ops now c (comm d (map cm_SenderNode cs' @ [cm_SenderNode c]) p) =
      Inr (True, f (comm d (map cm_SenderNode cs) p))"
    using assms(9) [of c] assms(8) cs by simp
  have "pbft_run X P ops out p (map (ECommit now (p_view p)) cs') [] (comm d (map cm_SenderNode cs') p)"
    using assms cs by (intro commits_count) auto
  from run_append [OF commit_executes [OF assms(1-5) _ _ _ b] this] show ?thesis
    using assms(7,8) cs by simp
qed

section \<open>A round\<close>

lemma preprepare_step:
  assumes r: "r = pp_RequestMsg m" and d: "d = getDigest X r"
    and "1 \<le> p_pbftStage p" "pp_Digest m = d" "pp_SeqID m = p_sequenceID p"
    and "DecodeB (rq_Content r) = Inr b" "IsValidBlock (x_lib X) b (p_CurChain p) = Inr ()"
  shows "\<exists>w. pbft_run X P (relay_ops X P) out p [EPrePrepare (p_view p) m] []
    (p\<lparr>p_requestPool := (p_requestPool p)(d \<mapsto> r), p_height2Digest := (p_height2Digest p)(p_sequenceID p \<mapsto> d),
       p_out := w, p_pbftStage := p_pbftStage p + 1\<rparr>) \<and> send_prepare m p \<in> snd ` set w"
proof -
  let ?q = "p\<lparr>p_requestPool := (p_requestPool p)(d \<mapsto> r), p_height2Digest := (p_height2Digest p)(p_sequenceID p \<mapsto> d)\<rparr>"
  let ?w = "p_out (broadcast_all (send_prepare m ?q) ?q)"
  have "pbft_step X P (relay_ops X P) out (EPrePrepare (p_view p) m) p (?q\<lparr>p_out := ?w, p_pbftStage := p_pbftStage p + 1\<rparr>)"
    using assms(3-) by (simp add: pbft_step_def waits_PrePrepare_def handlePrePrepare_def relay_ops_def
        check_block_def Let_def broadcast_all_eq flip: r d)
  moreover have "send_prepare m p \<in> snd ` set ?w" by (simp add: broadcast_all_eq send_prepare_def image_Un)
  ultimately show ?thesis using run_one by (intro exI [of _ ?w]) fastforce
qed

lemma relay_commit_replica:
  assumes "p_requestPool p d = Some r" "DecodeB (rq_Content r) = Inr b" "AddBlock (x_lib X) P b (p_CurChain p) = Inr bc"
    and "\<not> is_leader p" "cm_Digest c = d"
  shows "relay_HandleinCommit X P now c p = Inr (True, p\<lparr>p_CurChain := bc\<rparr>)"
  using assms by (simp add: relay_HandleinCommit_def is_leader_def)

lemma relay_commits:
  assumes "p_bridges p = None" "p_pbftStage p \<ge> 3" "\<not> p_stopSignal p" "\<not> p_isReply p d" "\<not> is_leader p"
    and "p_requestPool p d = Some r" "DecodeB (rq_Content r) = Inr b" "AddBlock (x_lib X) P b (p_CurChain p) = Inr bc"
    and "p_cntCommitConfirm p d = []" "length cs = unat (quorum p)"
    and "\<forall>c \<in> set cs. cm_Digest c = d \<and> cm_SeqID c = p_sequenceID p"
  shows "\<exists>q. pbft_run X P (relay_ops X P) out p (map (ECommit now (p_view p)) cs) [d] q \<and>
    p_CurChain q = bc \<and> p_sequenceID q = p_sequenceID p + 1 \<and> p_pbftStage q = 1 \<and> p_isReply q d"
proof -
  let ?q = "comm d (map cm_SenderNode cs) p"
  have ex: "eo_HandleinCommit (relay_ops X P) now c ?q = Inr (True, ?q\<lparr>p_CurChain := bc\<rparr>)"
    if "cm_Digest c = d" for c
    using relay_commit_replica [of ?q d r b X P bc c now] assms that by (simp add: relay_ops_def)
  have "pbft_run X P (relay_ops X P) out p (map (ECommit now (p_view p)) cs) [d]
      (end_round (UnixMilli now) (?q\<lparr>p_CurChain := bc, p_isReply := (p_isReply ?q)(d := True),
         p_sequenceID := p_sequenceID ?q + 1\<rparr>))"
    using commits_run [OF assms(1-4) _ assms(9,10,11), of "relay_ops X P" now "\<lambda>q. q\<lparr>p_CurChain := bc\<rparr>" X P out]
      assms(6) ex by simp
  then show ?thesis by (intro exI conjI) (auto simp: end_round_def Let_def)
qed

end
