(* ===== verification/Demo_Node.thy ===== *)
theory Demo_Node
  imports Pbft_Round
begin

text \<open>
  A small consensus node on the chain and the libraries of \<open>Demo_Lib\<close>, for the witnesses of the
  theorems about nodes: four nodes in the shard, one of which may fail, and an empty block to
  agree on.
\<close>

definition demo_x :: xlib where
  "demo_x = \<lparr>x_lib = demo_lib, x_digest = (\<lambda>r. [3]), x_PKCS1 = (\<lambda>k h. Some (1 # h)), x_Sign = (\<lambda>k d. Some (2 # d)),
     x_Join = (\<lambda>sh d. Some (4 # d)), x_Verify = (\<lambda>k h s. True)\<rparr>"

definition demo_block :: Block where
  "demo_block = (let h = zeroHeader\<lparr>bh_ParentBlockHash := b_Hash demo_genesis, bh_Number := 1,
       bh_StateRoot := zero32, bh_TxRoot := GetTxTreeRoot demo_lib []\<rparr>
     in \<lparr>b_Header = h, b_Body = [], b_Hash = BH_Hash demo_lib h\<rparr>)"

definition demo_request :: Request where
  "demo_request = \<lparr>rq_Type = BlockRequest, rq_Content = B_Encode demo_block, rq_ReqTime = 1\<rparr>"

definition demo_keys :: key_material where
  "demo_keys = \<lparr>km_PublicKey = Some [1], km_K = 3, km_L = 4, km_shares = [Some [0], Some [1], Some [2], Some [3]]\<rparr>"

text \<open>Node 1 of shard 0, at the height of the genesis block.\<close>

definition demo_node :: PbftNode where
  "demo_node = projr (NewPbftNode demo_x defaultParams demo_keys (\<lambda>s n. None) ''x''
     (sg_DataBase (bc_Storage (demo_chain 0))) [] 1 0 1 (demo_config 0) ''Relay'')"

lemma demo_restart:
  "\<exists>bc. NewBlockChain demo_lib defaultParams (demo_config 0) ''x'' (sg_DataBase (bc_Storage (demo_chain 0))) [] = Inr bc \<and>
     chain_ok demo_lib bc \<and> bc_CurrentBlock bc = demo_genesis"
  using restart [OF demo_chain_ok [of 0], of defaultParams "demo_config 0" "''x''"] by auto

lemma demo_started:
  "NewPbftNode demo_x defaultParams demo_keys (\<lambda>s n. None) ''x''
     (sg_DataBase (bc_Storage (demo_chain 0))) [] 1 0 1 (demo_config 0) ''Relay'' = Inr demo_node"
  and demo_node_chain [simp]: "chain_ok demo_lib (p_CurChain demo_node)"
    "bc_CurrentBlock (p_CurChain demo_node) = demo_genesis"
  and demo_node_fields [simp]: "p_bridges demo_node = None" "p_cntPrepareConfirm demo_node = (\<lambda>_. [])"
    "p_isCommitBordcast demo_node = (\<lambda>_. False)" "\<not> p_stopSignal demo_node"
proof -
  obtain bc where "NewBlockChain demo_lib defaultParams (demo_config 0) ''x''
      (sg_DataBase (bc_Storage (demo_chain 0))) [] = Inr bc" "chain_ok demo_lib bc" "bc_CurrentBlock bc = demo_genesis"
    using demo_restart by blast
  then show "NewPbftNode demo_x defaultParams demo_keys (\<lambda>s n. None) ''x''
     (sg_DataBase (bc_Storage (demo_chain 0))) [] 1 0 1 (demo_config 0) ''Relay'' = Inr demo_node"
    "chain_ok demo_lib (p_CurChain demo_node)" "bc_CurrentBlock (p_CurChain demo_node) = demo_genesis"
    "p_bridges demo_node = None" "p_cntPrepareConfirm demo_node = (\<lambda>_. [])"
    "p_isCommitBordcast demo_node = (\<lambda>_. False)" "\<not> p_stopSignal demo_node"
    by (simp_all add: demo_node_def NewPbftNode_def demo_x_def)
qed

lemmas demo_node_init [simp] = NewPbftNode_fields [OF demo_started]

lemma demo_quorum [simp]: "quorum demo_node = 3"
  by (simp add: quorum_def demo_config_def)

lemma demo_follower [simp]: "\<not> is_leader demo_node"
  by (simp add: is_leader_def)

lemma demo_x_lib [simp]: "x_lib demo_x = demo_lib" "getDigest demo_x r = [3]"
  by (simp_all add: demo_x_def getDigest_def)

lemma demo_block_fields [simp]:
  "bh_ParentBlockHash (b_Header demo_block) = b_Hash demo_genesis" "bh_Number (b_Header demo_block) = 1"
  "bh_StateRoot (b_Header demo_block) = zero32" "b_Body demo_block = []"
  "bh_TxRoot (b_Header demo_block) = GetTxTreeRoot demo_lib []" "db_key (b_Hash demo_block)"
  by (simp_all add: demo_block_def Let_def db_key_BH_Hash)

lemma demo_request_fields [simp]:
  "DecodeB (rq_Content demo_request) = Inr demo_block" "rq_Type demo_request = BlockRequest"
  by (simp_all add: demo_request_def)

lemma demo_valid: "IsValidBlock demo_lib demo_block (p_CurChain demo_node) = Inr ()"
  by (simp add: IsValidBlock_def)

lemma demo_added: "\<exists>bc. AddBlock demo_lib defaultParams demo_block (p_CurChain demo_node) = Inr bc"
proof -
  have "storage_ok demo_lib (bc_Storage (p_CurChain demo_node))"
    using demo_node_chain(1) by (simp add: chain_ok_def)
  then show ?thesis
    using AddBlock_known_state [of demo_lib "p_CurChain demo_node" demo_block Map.empty defaultParams] by auto
qed

text \<open>The node when it waits for commits of the block, and the commit of another node.\<close>

definition demo_waiting :: PbftNode where
  "demo_waiting = demo_node\<lparr>p_requestPool := [[3] \<mapsto> demo_request], p_pbftStage := 3\<rparr>"

definition demo_commit :: Commit where
  "demo_commit = \<lparr>cm_Digest = [3], cm_SeqID = 1, cm_SenderNode = \<lparr>nd_NodeID = 2, nd_ShardID = 0, nd_IPaddr = []\<rparr>,
     cm_PartialSig = []\<rparr>"

lemma demo_waiting_fields [simp]:
  "p_bridges demo_waiting = None" "p_pbftStage demo_waiting = 3" "\<not> p_stopSignal demo_waiting"
  "p_isReply demo_waiting = (\<lambda>_. False)" "\<not> is_leader demo_waiting" "p_requestPool demo_waiting [3] = Some demo_request"
  "p_cntCommitConfirm demo_waiting = (\<lambda>_. [])" "quorum demo_waiting = 3" "p_sequenceID demo_waiting = 1"
  "p_CurChain demo_waiting = p_CurChain demo_node" "p_view demo_waiting = 0" "p_newViewMap demo_waiting = (\<lambda>_. {})"
  "p_malicious_nums demo_waiting = 1"
  using demo_quorum demo_follower
  by (simp_all add: demo_waiting_def is_leader_def quorum_def demo_config_def)

lemma demo_commit_fields [simp]: "cm_Digest demo_commit = [3]" "cm_SeqID demo_commit = 1"
  by (simp_all add: demo_commit_def)

lemma demo_run:
  "\<exists>q. pbft_run demo_x defaultParams (relay_ops demo_x defaultParams) (relay_HandleMessageOutsidePBFT demo_x)
     demo_waiting (replicate 3 (ECommit 9 0 demo_commit)) [[3]] q"
proof -
  obtain bc where bc: "AddBlock demo_lib defaultParams demo_block (p_CurChain demo_node) = Inr bc"
    using demo_added by blast
  have "\<exists>q. pbft_run demo_x defaultParams (relay_ops demo_x defaultParams) (relay_HandleMessageOutsidePBFT demo_x) demo_waiting
      (map (ECommit 9 (p_view demo_waiting)) (replicate 3 demo_commit)) [[3]] q \<and>
      p_CurChain q = bc \<and> p_sequenceID q = p_sequenceID demo_waiting + 1 \<and> p_pbftStage q = 1 \<and> p_isReply q [3]"
    by (rule relay_commits [where r = demo_request and b = demo_block]) (use bc in simp_all)
  then show ?thesis by (auto simp: map_replicate)
qed

end
