(* ===== verification/Pbft_Safety.thy ===== *)
theory Pbft_Safety
  imports Demo_Node
begin

text \<open>
  Safety of the runs of a consensus node, whichever protocol it was started with: the theorems of
  the locale \<open>consensus_ops\<close> for the protocols that \<open>NewPbftNode\<close> chooses from.
\<close>

section \<open>Safety of runs\<close>

text \<open>
  (C4) Whatever messages arrive in whatever order, and whichever protocol runs: a node executes
  a request at most once, only when it had not answered it before, and only after at least
  \<open>2f + 1\<close> commit messages for its digest were counted, those of the run and those of before.
\<close>

theorem executed_once_with_quorum:
  assumes "pbft_run X P (choose_ihm X P mode) (choose_ohm X mode) p es ds q"
  shows "distinct ds \<and> (\<forall>d \<in> set ds. \<not> p_isReply p d \<and> p_isReply q d \<and> unat (quorum p) \<le> votes p es d)"
  using pbft.run_votes [OF assms] by blast

theorem executed_once_with_quorum_witness:
  "3 \<le> votes demo_waiting (replicate 3 (ECommit 9 0 demo_commit)) [3]"
proof -
  obtain q where "pbft_run demo_x defaultParams (choose_ihm demo_x defaultParams ''Relay'') (choose_ohm demo_x ''Relay'')
      demo_waiting (replicate 3 (ECommit 9 0 demo_commit)) [[3]] q"
    using demo_run by (auto simp: choose_ihm_def choose_ohm_def)
  from executed_once_with_quorum [OF this] show ?thesis by simp
qed

text \<open>
  The current block of a node changes only when a request is executed or a catch-up message
  is handled: over a run without either, no message, proposal, timer or view change touches it.
\<close>

theorem head_changes_only_by_execution:
  assumes "pbft_run X P (choose_ihm X P mode) (choose_ohm X mode) p es [] q"
    and "\<forall>m. ESendOld m \<notin> set es"
  shows "bc_CurrentBlock (p_CurChain q) = bc_CurrentBlock (p_CurChain p)"
  using pbft.run_head [OF assms(1) refl assms(2)] by (simp add: head_def)

text \<open>
  Between view changes and catch-ups the sequence number of a node counts the requests it
  has executed.
\<close>

theorem sequence_counts_executions:
  assumes "pbft_run X P (choose_ihm X P mode) (choose_ohm X mode) p es ds q"
    and "\<forall>m. ESendOld m \<notin> set es" "\<forall>ms m. ENewView ms m \<notin> set es"
  shows "p_sequenceID q = p_sequenceID p + of_nat (length ds)"
  by (rule pbft.run_sequence [OF assms])

text \<open>
  (C19) A node that has not yet received new-view messages leaves its view only after it received
  new-view messages with one and the same next view and sequence number from \<open>2f + 1\<close> different
  nodes.
\<close>

theorem view_change_needs_quorum:
  assumes "pbft_run X P (choose_ihm X P mode) (choose_ohm X mode) p es ds q"
    and "\<forall>key. p_newViewMap p key = {}" "p_view q \<noteq> p_view p"
  shows "\<exists>key. view_quorum p \<le> int (card (new_view_senders key es))"
  using pbft.run_views [OF assms(1)] assms(2,3) by (simp add: views_ok_def)

definition demo_new_view :: "u64 \<Rightarrow> event" where
  "demo_new_view n = ENewView 9 \<lparr>nv_CurView = 0, nv_NextView = 1, nv_NewSeqID = 1, nv_FromNode = n\<rparr>"

lemma demo_new_view_run:
  "\<exists>q. pbft_run demo_x defaultParams (choose_ihm demo_x defaultParams ''Relay'') (choose_ohm demo_x ''Relay'')
     demo_waiting [demo_new_view 0, demo_new_view 2, demo_new_view 3] [] q \<and> p_view q = 1"
proof -
  let ?run = "pbft_run demo_x defaultParams (choose_ihm demo_x defaultParams ''Relay'') (choose_ohm demo_x ''Relay'')"
  let ?h = "\<lambda>n. handleNewViewMsg 9 \<lparr>nv_CurView = 0, nv_NextView = 1, nv_NewSeqID = 1, nv_FromNode = n\<rparr>"
  have step: "?run p [demo_new_view n] [] (?h n p)" for n p
    by (rule run_one) (simp_all add: pbft_step_def demo_new_view_def)
  have "?run demo_waiting ([demo_new_view 0] @ [demo_new_view 2] @ [demo_new_view 3]) ([] @ [] @ [])
      (?h 3 (?h 2 (?h 0 demo_waiting)))"
    using run_append [OF run_append [OF step [of "?h 2 (?h 0 demo_waiting)" 3] step [of "?h 0 demo_waiting" 2]]
        step [of demo_waiting 0]] by simp
  moreover have "p_view (?h 3 (?h 2 (?h 0 demo_waiting))) = 1"
    by (simp add: handleNewViewMsg_def view_quorum_def Let_def)
  ultimately show ?thesis by auto
qed

theorem view_change_needs_quorum_witness:
  "\<exists>key. 3 \<le> card (new_view_senders key [demo_new_view 0, demo_new_view 2, demo_new_view 3])"
proof -
  obtain q where q: "pbft_run demo_x defaultParams (choose_ihm demo_x defaultParams ''Relay'') (choose_ohm demo_x ''Relay'')
     demo_waiting [demo_new_view 0, demo_new_view 2, demo_new_view 3] [] q" "p_view q = 1"
    using demo_new_view_run by blast
  have "view_quorum demo_waiting = 3" by (simp add: view_quorum_def)
  then show ?thesis using view_change_needs_quorum [OF q(1)] q(2) by auto
qed

section \<open>Progress\<close>

text \<open>\<open>IsValidBlock\<close> compares the parent hash, \<open>AddBlock\<close> the number too: a valid block with the next number is added.\<close>

lemma valid_block_added:
  assumes "IsValidBlock L b bc = Inr ()" "bh_Number (b_Header b) = bh_Number (b_Header (bc_CurrentBlock bc)) + 1"
    and "AddBlock L P b bc = Inr bc'"
  shows "bc_CurrentBlock bc' = b"
  using assms by (auto simp: IsValidBlock_def AddBlock_def bindR_Inr_iff split: if_splits)

text \<open>
  (C18) A fault-free round of the relay protocol at a replica: it receives a proposal for the
  current sequence number whose block has the next number and is valid on its chain, and whose body
  it can execute, then \<open>2f + 1\<close> prepares and \<open>2f + 1\<close> commits for it. No handler blocks or panics, the
  block is executed once and added to the chain, where it is the current block from then on, the
  sequence number is the next one and the node is ready for the next proposal.
\<close>

theorem replica_round:
  assumes m: "r = pp_RequestMsg m" "d = getDigest X r" "pp_Digest m = d" "pp_SeqID m = p_sequenceID p"
    and node: "p_bridges p = None" "p_pbftStage p = 1" "\<not> p_stopSignal p" "\<not> is_leader p"
    and fresh: "\<not> p_isReply p d" "\<not> p_isCommitBordcast p d" "p_cntPrepareConfirm p d = []"
      "p_cntCommitConfirm p d = []"
    and block: "DecodeB (rq_Content r) = Inr b" "IsValidBlock (x_lib X) b (p_CurChain p) = Inr ()"
      "bh_Number (b_Header b) = bh_Number (b_Header (bc_CurrentBlock (p_CurChain p))) + 1"
      "AddBlock (x_lib X) P b (p_CurChain p) = Inr bc"
    and pms: "length pms = unat (quorum p)" "\<forall>pm \<in> set pms. pm_Digest pm = d \<and> pm_SeqID pm = p_sequenceID p"
    and cs: "length cs = unat (quorum p)" "\<forall>c \<in> set cs. cm_Digest c = d \<and> cm_SeqID c = p_sequenceID p"
  shows "\<exists>q. pbft_run X P (relay_ops X P) (relay_HandleMessageOutsidePBFT X) p
      ([EPrePrepare (p_view p) m] @ map (EPrepare (p_view p)) pms @ map (ECommit now (p_view p)) cs) [d] q \<and>
    p_CurChain q = bc \<and> bc_CurrentBlock (p_CurChain q) = b \<and> p_sequenceID q = p_sequenceID p + 1 \<and>
    p_pbftStage q = 1 \<and> p_isReply q d"
proof -
  let ?ops = "relay_ops X P" and ?out = "relay_HandleMessageOutsidePBFT X"
  obtain w where 1: "pbft_run X P ?ops ?out p [EPrePrepare (p_view p) m] []
      (p\<lparr>p_requestPool := (p_requestPool p)(d \<mapsto> r), p_height2Digest := (p_height2Digest p)(p_sequenceID p \<mapsto> d),
         p_out := w, p_pbftStage := 2\<rparr>)" (is "pbft_run _ _ _ _ _ _ _ ?p1")
    using preprepare_step [OF m(1,2) _ m(3,4) block(1,2), of P ?out] node(2) by auto
  have q1: "quorum ?p1 = quorum p" by (simp add: quorum_def)
  have v1: "p_view ?p1 = p_view p" by simp
  have "\<exists>w. pbft_run X P ?ops ?out ?p1 (map (EPrepare (p_view ?p1)) pms) []
      (prep d (map pm_SenderNode pms) (if length pms = unat (quorum ?p1) then p_pbftStage ?p1 + 1 else p_pbftStage ?p1)
        (length pms = unat (quorum ?p1)) w ?p1) \<and>
      (length pms = unat (quorum ?p1) \<longrightarrow> commit_msg d (p_sequenceID ?p1) (p_RunningNode ?p1) \<in> snd ` set w)"
    by (rule prepares_run) (use node fresh pms q1 in \<open>simp_all add: relay_ops_def\<close>)
  then obtain w2 where 2: "pbft_run X P ?ops ?out ?p1 (map (EPrepare (p_view p)) pms) []
      (prep d (map pm_SenderNode pms) 3 True w2 ?p1)" (is "pbft_run _ _ _ _ _ _ _ ?p2")
    using pms(1) unfolding q1 v1 by auto
  have f2: "p_view ?p2 = p_view p" "p_sequenceID ?p2 = p_sequenceID p" "quorum ?p2 = quorum p"
    using q1 by simp_all
  have "\<exists>q. pbft_run X P ?ops ?out ?p2 (map (ECommit now (p_view ?p2)) cs) [d] q \<and>
      p_CurChain q = bc \<and> p_sequenceID q = p_sequenceID ?p2 + 1 \<and> p_pbftStage q = 1 \<and> p_isReply q d"
    by (rule relay_commits [where r = r and b = b])
      (use node fresh block cs q1 in \<open>simp_all add: prep_def is_leader_def quorum_def\<close>)
  then obtain q where 3: "pbft_run X P ?ops ?out ?p2 (map (ECommit now (p_view p)) cs) [d] q"
      "p_CurChain q = bc \<and> p_sequenceID q = p_sequenceID p + 1 \<and> p_pbftStage q = 1 \<and> p_isReply q d"
    unfolding f2 by blast
  have "bc_CurrentBlock bc = b" by (rule valid_block_added [OF block(2-4)])
  with run_append [OF run_append [OF 3(1) 2] 1] 3(2) show ?thesis by auto
qed

theorem replica_round_witness:
  "\<exists>q. pbft_run demo_x defaultParams (relay_ops demo_x defaultParams) (relay_HandleMessageOutsidePBFT demo_x) demo_node
      ([EPrePrepare 0 \<lparr>pp_RequestMsg = demo_request, pp_Digest = [3], pp_SeqID = 1, pp_B = [], pp_BlockBPKCS1 = []\<rparr>] @
       map (EPrepare 0) (replicate 3 \<lparr>pm_Digest = [3], pm_SeqID = 1, pm_SenderNode = p_RunningNode demo_node\<rparr>) @
       map (ECommit 9 0) (replicate 3 demo_commit)) [[3]] q \<and> bc_CurrentBlock (p_CurChain q) = demo_block \<and> p_sequenceID q = 2"
proof -
  obtain bc where bc: "AddBlock demo_lib defaultParams demo_block (p_CurChain demo_node) = Inr bc"
    using demo_added by blast
  let ?m = "\<lparr>pp_RequestMsg = demo_request, pp_Digest = [3], pp_SeqID = 1, pp_B = [], pp_BlockBPKCS1 = []\<rparr>"
  have "\<exists>q. pbft_run demo_x defaultParams (relay_ops demo_x defaultParams) (relay_HandleMessageOutsidePBFT demo_x) demo_node
      ([EPrePrepare (p_view demo_node) ?m] @
       map (EPrepare (p_view demo_node)) (replicate 3 \<lparr>pm_Digest = [3], pm_SeqID = 1, pm_SenderNode = p_RunningNode demo_node\<rparr>) @
       map (ECommit 9 (p_view demo_node)) (replicate 3 demo_commit)) [[3]] q \<and>
      p_CurChain q = bc \<and> bc_CurrentBlock (p_CurChain q) = demo_block \<and> p_sequenceID q = p_sequenceID demo_node + 1 \<and>
      p_pbftStage q = 1 \<and> p_isReply q [3]"
    by (rule replica_round [where r = demo_request and b = demo_block]) (use bc demo_valid demo_node_chain(2) in simp_all)
  then show ?thesis by auto
qed

text \<open>
  (C31) The quorum is a number of messages, not of nodes: the same commit message of one single
  node, received \<open>2f + 1\<close> times, makes a replica that waits for commits execute the request.
\<close>

theorem one_sender_is_a_quorum:
  assumes "p_bridges p = None" "p_pbftStage p \<ge> 3" "\<not> p_stopSignal p" "\<not> p_isReply p (cm_Digest c)" "\<not> is_leader p"
    and "p_requestPool p (cm_Digest c) = Some r" "DecodeB (rq_Content r) = Inr b"
    and "AddBlock (x_lib X) P b (p_CurChain p) = Inr bc"
    and "p_cntCommitConfirm p (cm_Digest c) = []" "cm_SeqID c = p_sequenceID p"
  shows "\<exists>q. pbft_run X P (relay_ops X P) (relay_HandleMessageOutsidePBFT X) p
      (replicate (unat (quorum p)) (ECommit now (p_view p) c)) [cm_Digest c] q \<and> p_CurChain q = bc"
proof -
  have "\<exists>q. pbft_run X P (relay_ops X P) (relay_HandleMessageOutsidePBFT X) p
      (map (ECommit now (p_view p)) (replicate (unat (quorum p)) c)) [cm_Digest c] q \<and>
      p_CurChain q = bc \<and> p_sequenceID q = p_sequenceID p + 1 \<and> p_pbftStage q = 1 \<and> p_isReply q (cm_Digest c)"
    by (rule relay_commits [OF assms(1-9)]) (use assms(10) in auto)
  then show ?thesis by (auto simp: map_replicate)
qed

theorem one_sender_is_a_quorum_witness:
  "\<exists>q. pbft_run demo_x defaultParams (relay_ops demo_x defaultParams) (relay_HandleMessageOutsidePBFT demo_x) demo_waiting
      (replicate 3 (ECommit 9 0 demo_commit)) [[3]] q"
proof -
  obtain bc where bc: "AddBlock demo_lib defaultParams demo_block (p_CurChain demo_node) = Inr bc"
    using demo_added by blast
  have "\<exists>q. pbft_run demo_x defaultParams (relay_ops demo_x defaultParams) (relay_HandleMessageOutsidePBFT demo_x) demo_waiting
      (replicate (unat (quorum demo_waiting)) (ECommit 9 (p_view demo_waiting) demo_commit)) [cm_Digest demo_commit] q \<and>
      p_CurChain q = bc"
    by (rule one_sender_is_a_quorum [where r = demo_request and b = demo_block]) (use bc in simp_all)
  then show ?thesis by auto
qed

section \<open>Quorums\<close>

text \<open>
  The quorum of a new node in a shard of \<open>N \<ge> 1\<close> nodes is \<open>2f + 1\<close> with \<open>f = (N - 1) div 3\<close>. It
  is never more than \<open>N\<close>, and when \<open>N = 3f + 1\<close> any two sets of that many nodes have more than
  \<open>f\<close> nodes in common.
\<close>

theorem quorums_intersect:
  assumes "NewPbftNode X P km tbl fp sdb db now s n pcc mode = Inr p" "cc_Nodes_perShard pcc \<noteq> 0"
    and "N = unat (cc_Nodes_perShard pcc)" "f = (N - 1) div 3"
  shows "unat (quorum p) = 2 * f + 1 \<and> unat (quorum p) \<le> N \<and>
    (N = 3 * f + 1 \<longrightarrow> (\<forall>A B. A \<subseteq> {..<N} \<and> B \<subseteq> {..<N} \<and> card A = unat (quorum p) \<and> card B = unat (quorum p) \<longrightarrow>
      f < card (A \<inter> B)))"
proof (intro conjI impI allI)
  show q: "unat (quorum p) = 2 * f + 1"
    using quorum_value [OF NewPbftNode_fields(1) [OF assms(1)] assms(2)] assms(3,4) by simp
  have "0 < N" using assms(2,3) by (simp add: unat_gt_0)
  then show "unat (quorum p) \<le> N" using q assms(4) by simp
  fix A B assume N: "N = 3 * f + 1"
    and AB: "A \<subseteq> {..<N} \<and> B \<subseteq> {..<N} \<and> card A = unat (quorum p) \<and> card B = unat (quorum p)"
  then have fin: "finite A" "finite B" by (auto intro: finite_subset)
  have "card (A \<union> B) \<le> N"
    using AB card_mono [of "{..<N}" "A \<union> B"] by simp
  then show "f < card (A \<inter> B)"
    using card_Un_Int [OF fin] AB q N by simp
qed

text \<open>
  With six nodes in a shard the quorum is three: there are two disjoint quorums, so nodes that
  all follow the protocol can commit two different requests at one sequence number.
\<close>

theorem disjoint_quorums:
  assumes "NewPbftNode X P km tbl fp sdb db now s n pcc mode = Inr p" "cc_Nodes_perShard pcc = 6"
  shows "\<exists>A B. A \<subseteq> {..<6 :: nat} \<and> B \<subseteq> {..<6} \<and> card A = unat (quorum p) \<and> card B = unat (quorum p) \<and> A \<inter> B = {}"
proof -
  have q: "unat (quorum p) = 3"
    using quorum_value [OF NewPbftNode_fields(1) [OF assms(1)]] assms(2) by simp
  show ?thesis
    by (intro exI [of _ "{0, 1, 2}"] exI [of _ "{3, 4, 5}"]) (auto simp: q)
qed

end
