(* ===== verification/Clpa_Transfer.thy ===== *)
theory Clpa_Transfer
  imports Pbft_Clpa Demo_Node
begin

text \<open>
  What a new partition does to the accounts: the leaders of all shards send the accounts that leave
  and the queued transactions that go with them, the leader of each shard collects what arrives,
  proposes it, and every node of the shard installs it. The theorem follows the accounts from the
  messages of the other leaders to the state of a node after \<open>accountTransfer_do\<close>.
\<close>

section \<open>What a leader sends\<close>

text \<open>
  The leader of a shard before a transfer: its chain is in order, it places accounts as all the
  others do, and \<open>mm\<close> is the last partition it was sent.
\<close>

definition transfer_ready :: "lib \<Rightarrow> params \<Rightarrow> (Address \<Rightarrow> u64 res) \<Rightarrow> (Address \<times> u64) list \<Rightarrow> PbftNode \<Rightarrow> bool" where
  "transfer_ready L P place mm p \<longleftrightarrow> chain_ok L (p_CurChain p) \<and> p_ShardID p = cc_ShardID (bc_ChainConfig (p_CurChain p)) \<and>
     (\<forall>a. Get_PartitionMap P (p_CurChain p) a = place a) \<and> last_map (p_cdm p) = Inr mm"

definition leaving :: "(Address \<Rightarrow> u64 res) \<Rightarrow> u64 \<Rightarrow> (Address \<times> u64) list \<Rightarrow> Address list" where
  "leaving place shard mm = map fst (filter (\<lambda>(k, v). v \<noteq> shard \<and> place k = Inr shard) mm)"

lemma accounts_to_fetch_spec:
  assumes "\<And>a. Get_PartitionMap P bc a = place a" and "\<forall>(a, v) \<in> set mm. \<exists>s. place a = Inr s"
  shows "accounts_to_fetch P bc shard mm = Inr (leaving place shard mm)"
  using assms(2)
proof (induction mm)
  case (Cons e mm)
  obtain a v s where e: "e = (a, v)" "place a = Inr s" using Cons.prems by (cases e) auto
  then show ?case using Cons.IH Cons.prems assms(1) by (auto simp: leaving_def)
qed (simp add: leaving_def)

definition sent_ok :: "(Address set \<Rightarrow> Transaction \<Rightarrow> verdict) \<Rightarrow> u64 \<Rightarrow> (Address \<times> u64) list \<Rightarrow>
    (Address \<times> AccountState) list \<Rightarrow> u64 \<times> AccountStateAndTx \<Rightarrow> bool" where
  "sent_ok v shard mm fetched e \<longleftrightarrow>
     (let going = filter (\<lambda>(addr, st). map_get mm addr = fst e) fetched
      in ast_Addrs (snd e) = map fst going \<and> ast_AccountState (snd e) = map snd going \<and> ast_FromShard (snd e) = shard \<and>
         (\<forall>tx \<in> set (ast_Txs (snd e)). v (set (ast_Addrs (snd e))) tx = Send))"

lemma transfer_fold:
  assumes "\<forall>e \<in> set (ta_sent a). sent_ok v shard mm fetched e"
  shows "(\<forall>e \<in> set (ta_sent (fold (transfer_step v shard mm fetched) is a)). sent_ok v shard mm fetched e) \<and>
    map fst (ta_sent (fold (transfer_step v shard mm fetched) is a)) = map fst (ta_sent a) @ filter (\<lambda>i. i \<noteq> shard) is"
  using assms
proof (induction "is" arbitrary: a)
  case (Cons i "is")
  have "\<forall>e \<in> set (ta_sent (transfer_step v shard mm fetched i a)). sent_ok v shard mm fetched e"
    using Cons.prems by (auto simp: transfer_step_def Let_def sent_ok_def)
  from Cons.IH [OF this] show ?case by (simp add: transfer_step_def Let_def)
qed simp

text \<open>No queued transaction is lost: it stays, is sent to one shard, or becomes a cross-shard one.\<close>

lemma transfer_keeps_transactions:
  "mset (ta_queue (fold (transfer_step v shard mm fetched) is a)) + mset (ta_cross (fold (transfer_step v shard mm fetched) is a)) +
     (\<Sum>(i, ast) \<leftarrow> ta_sent (fold (transfer_step v shard mm fetched) is a). mset (ast_Txs ast)) =
   mset (ta_queue a) + mset (ta_cross a) + (\<Sum>(i, ast) \<leftarrow> ta_sent a. mset (ast_Txs ast))"
proof (induction "is" arbitrary: a)
  case (Cons i "is")
  have split: "mset q = mset (filter (\<lambda>tx. f tx = Keep) q) + mset (filter (\<lambda>tx. f tx = BeCross) q) + mset (filter (\<lambda>tx. f tx = Send) q)"
    for q and f :: "Transaction \<Rightarrow> verdict"
  proof (induction q)
    case (Cons t q)
    then show ?case by (cases "f t") auto
  qed simp
  have "mset (ta_queue (transfer_step v shard mm fetched i a)) + mset (ta_cross (transfer_step v shard mm fetched i a)) +
      (\<Sum>(i, ast) \<leftarrow> ta_sent (transfer_step v shard mm fetched i a). mset (ast_Txs ast)) =
    mset (ta_queue a) + mset (ta_cross a) + (\<Sum>(i, ast) \<leftarrow> ta_sent a. mset (ast_Txs ast))"
    using split [of "ta_queue a"] by (simp add: transfer_step_def Let_def ac_simps)
  then show ?case using Cons.IH [of "transfer_step v shard mm fetched i a"] by simp
qed simp

definition keeps_queue :: "transfer_acc \<Rightarrow> PbftNode \<Rightarrow> bool" where
  "keeps_queue a p \<longleftrightarrow> mset (ta_queue a) + mset (ta_cross a) + (\<Sum>(i, ast) \<leftarrow> ta_sent a. mset (ast_Txs ast)) =
     mset (TxQueue (bc_Txpool (p_CurChain p)))"

lemma transfer_all_keeps_queue: "transfer_all L P v p = Inr a \<Longrightarrow> keeps_queue a p"
  using transfer_keeps_transactions [of v "p_ShardID p" _ _ "shard_ids p" "\<lparr>ta_queue = TxQueue (bc_Txpool (p_CurChain p)), ta_cross = [], ta_sent = []\<rparr>"]
  by (auto simp: transfer_all_def bindR_Inr_iff keeps_queue_def)

definition message_to :: "lib \<Rightarrow> params \<Rightarrow> (Address set \<Rightarrow> Transaction \<Rightarrow> verdict) \<Rightarrow> u64 \<Rightarrow> PbftNode \<Rightarrow> AccountStateAndTx option" where
  "message_to L P v t p = (case transfer_all L P v p of Inl e \<Rightarrow> None | Inr a \<Rightarrow> map_of (ta_sent a) t)"

lemma message_to_spec:
  assumes "transfer_ready L P place mm p" and "\<forall>(a, v) \<in> set mm. \<exists>s. place a = Inr s"
    and "current_state L (p_CurChain p) = Some st" and "t \<in> set (shard_ids p)" and "t \<noteq> p_ShardID p"
  shows "\<exists>ast. message_to L P v t p = Some ast \<and> ast_FromShard ast = p_ShardID p \<and>
    ast_Addrs ast = filter (\<lambda>a. map_get mm a = t) (leaving place (p_ShardID p) mm) \<and>
    ast_AccountState ast = map (account_at st) (ast_Addrs ast) \<and> (\<forall>tx \<in> set (ast_Txs ast). v (set (ast_Addrs ast)) tx = Send)"
proof -
  have r: "chain_ok L (p_CurChain p)" "\<And>a. Get_PartitionMap P (p_CurChain p) a = place a" "last_map (p_cdm p) = Inr mm"
    using assms(1) by (auto simp: transfer_ready_def)
  have tok: "trie_ok st" using r(1) assms(3) by (auto simp: chain_ok_def)
  let ?as = "leaving place (p_ShardID p) mm"
  let ?f = "zip ?as (map (account_at st) ?as)"
  let ?a = "fold (transfer_step v (p_ShardID p) mm ?f) (shard_ids p)
    \<lparr>ta_queue = TxQueue (bc_Txpool (p_CurChain p)), ta_cross = [], ta_sent = []\<rparr>"
  have a: "transfer_all L P v p = Inr ?a"
    using accounts_to_fetch_spec [OF r(2) assms(2), of "p_ShardID p"] FetchAccounts_spec [OF assms(3) tok, of ?as]
    by (simp add: transfer_all_def r(3))
  have s: "\<forall>e \<in> set (ta_sent ?a). sent_ok v (p_ShardID p) mm ?f e" "map fst (ta_sent ?a) = filter (\<lambda>i. i \<noteq> p_ShardID p) (shard_ids p)"
    using transfer_fold [of "\<lparr>ta_queue = TxQueue (bc_Txpool (p_CurChain p)), ta_cross = [], ta_sent = []\<rparr>" v "p_ShardID p" mm ?f "shard_ids p"]
    by simp_all
  have "t \<in> set (map fst (ta_sent ?a))" unfolding s(2) using assms(4,5) by simp
  then obtain ast where ast: "map_of (ta_sent ?a) t = Some ast"
    using map_of_eq_None_iff [of "ta_sent ?a" t] by (cases "map_of (ta_sent ?a) t") auto
  then have "sent_ok v (p_ShardID p) mm ?f (t, ast)" using s(1) map_of_SomeD by fastforce
  moreover have "filter (\<lambda>(addr, st). map_get mm addr = t) ?f = map (\<lambda>a. (a, account_at st a)) (filter (\<lambda>a. map_get mm a = t) ?as)"
    by (simp add: zip_map2 zip_same_conv_map filter_map comp_def)
  ultimately have "ast_Addrs ast = filter (\<lambda>a. map_get mm a = t) ?as" "ast_FromShard ast = p_ShardID p"
    "ast_AccountState ast = map (account_at st) (filter (\<lambda>a. map_get mm a = t) ?as)"
    "\<forall>tx \<in> set (ast_Txs ast). v (set (ast_Addrs ast)) tx = Send"
    by (auto simp: sent_ok_def Let_def comp_def)
  moreover have "message_to L P v t p = Some ast" using a ast by (simp add: message_to_def)
  ultimately show ?thesis by (intro exI [of _ ast] conjI) (assumption | simp)+
qed

lemma leaving_member:
  assumes "distinct (map fst mm)" and "t \<noteq> shard"
  shows "a \<in> set (filter (\<lambda>a. map_get mm a = t) (leaving place shard mm)) \<longleftrightarrow> map_of mm a = Some t \<and> place a = Inr shard"
proof -
  have "(a, v) \<in> set mm \<longleftrightarrow> map_of mm a = Some v" for v using assms(1) by (simp add: map_of_eq_Some_iff)
  then have "a \<in> set (leaving place shard mm) \<longleftrightarrow> (\<exists>v. map_of mm a = Some v \<and> v \<noteq> shard \<and> place a = Inr shard)"
    by (force simp: leaving_def)
  then show ?thesis using assms(2) by (auto simp: map_get_def)
qed

section \<open>What a leader collects\<close>

lemma update_new: "k \<notin> fst ` set xs \<Longrightarrow> AList.update k v xs = xs @ [(k, v)]"
  by (induction xs) auto

definition collected :: "AccountStateAndTx list \<Rightarrow> (u64 \<times> AccountStateAndTx) list" where
  "collected ms = map (\<lambda>m. (ast_FromShard m, m)) ms"

lemma receive_new:
  assumes "ast_FromShard m \<notin> fst ` set (cd_AccountStateTx (p_cdm t))"
  shows "handleAccountStateAndTxMsg m t = t\<lparr>p_cdm := (p_cdm t)\<lparr>
    cd_AccountStateTx := cd_AccountStateTx (p_cdm t) @ [(ast_FromShard m, m)],
    cd_CollectOver := (int (length (cd_AccountStateTx (p_cdm t)) + 1) = uint (cc_ShardNums (p_pbftChainConfig t)) - 1 \<or> cd_CollectOver (p_cdm t))\<rparr>\<rparr>"
  using update_new [OF assms, of m] by (simp add: handleAccountStateAndTxMsg_def Let_def)

lemma receive_all:
  assumes "distinct (map ast_FromShard ms)" and "cd_AccountStateTx (p_cdm t) = []" and "ms \<noteq> []"
  shows "\<exists>over. fold handleAccountStateAndTxMsg ms t =
      t\<lparr>p_cdm := (p_cdm t)\<lparr>cd_AccountStateTx := collected ms, cd_CollectOver := over\<rparr>\<rparr> \<and>
    (int (length ms) = uint (cc_ShardNums (p_pbftChainConfig t)) - 1 \<longrightarrow> over)"
  using assms(1,3)
proof (induction ms rule: rev_induct)
  case Nil
  then show ?case by blast
next
  case (snoc m ms)
  obtain o1 where t1: "fold handleAccountStateAndTxMsg ms t = t\<lparr>p_cdm := (p_cdm t)\<lparr>cd_AccountStateTx := collected ms, cd_CollectOver := o1\<rparr>\<rparr>"
  proof (cases "ms = []")
    case True
    then show ?thesis using that [of "cd_CollectOver (p_cdm t)"] assms(2) by (simp add: collected_def)
  qed (use snoc that in auto)
  have "ast_FromShard m \<notin> fst ` set (collected ms)" using snoc.prems(1) by (auto simp: collected_def)
  then show ?case using receive_new [of m "fold handleAccountStateAndTxMsg ms t"] t1
    by (intro exI [of _ "int (length (ms @ [m])) = uint (cc_ShardNums (p_pbftChainConfig t)) - 1 \<or> o1"]) (simp add: collected_def)
qed

lemma merge_states_spec:
  "merge_states as (map F as) recv = Inr (fold (\<lambda>a. AList.update a (F a)) as recv)"
  by (induction as arbitrary: recv) simp_all

lemma fold_update:
  "map_of (fold (\<lambda>a. AList.update a (F a)) as recv) x = (if x \<in> set as then Some (F x) else map_of recv x)"
  "distinct (map fst recv) \<Longrightarrow> distinct (map fst (fold (\<lambda>a. AList.update a (F a)) as recv))"
  by (induction as arbitrary: recv) (auto simp: update_conv' distinct_update)

lemma collect_all_spec:
  assumes "\<forall>m \<in> set ms. ast_AccountState m = map F (ast_Addrs m)" and "distinct (map fst (cd_ReceivedNewAccountState c))"
  shows "\<exists>recv. collect_all (collected ms) c = Inr (c\<lparr>cd_ReceivedNewAccountState := recv,
      cd_ReceivedNewTx := cd_ReceivedNewTx c @ concat (map ast_Txs ms)\<rparr>) \<and> distinct (map fst recv) \<and>
    (\<forall>a. map_of recv a = (if \<exists>m \<in> set ms. a \<in> set (ast_Addrs m) then Some (F a) else map_of (cd_ReceivedNewAccountState c) a))"
  using assms
proof (induction ms arbitrary: c)
  case Nil
  then show ?case by (intro exI [of _ "cd_ReceivedNewAccountState c"]) (simp add: collected_def)
next
  case (Cons m ms)
  let ?r = "fold (\<lambda>a. AList.update a (F a)) (ast_Addrs m) (cd_ReceivedNewAccountState c)"
  let ?c = "c\<lparr>cd_ReceivedNewAccountState := ?r, cd_ReceivedNewTx := cd_ReceivedNewTx c @ ast_Txs m\<rparr>"
  have "distinct (map fst (cd_ReceivedNewAccountState ?c))" using fold_update(2) [OF Cons.prems(2)] by simp
  from Cons.IH [OF _ this] Cons.prems(1) obtain recv where r: "collect_all (collected ms) ?c = Inr (?c\<lparr>cd_ReceivedNewAccountState := recv,
      cd_ReceivedNewTx := cd_ReceivedNewTx ?c @ concat (map ast_Txs ms)\<rparr>)" "distinct (map fst recv)"
    "\<forall>a. map_of recv a = (if \<exists>m \<in> set ms. a \<in> set (ast_Addrs m) then Some (F a) else map_of (cd_ReceivedNewAccountState ?c) a)" by auto
  have "collect_all (collected (m # ms)) c = collect_all (collected ms) ?c"
    using Cons.prems(1) by (simp add: collected_def merge_states_spec)
  moreover have "\<forall>a. map_of recv a = (if \<exists>x \<in> set (m # ms). a \<in> set (ast_Addrs x) then Some (F a) else map_of (cd_ReceivedNewAccountState c) a)"
    using r(3) by (auto simp: fold_update(1))
  ultimately show ?case using r(1,2) by (intro exI [of _ recv]) simp
qed

section \<open>What a shard installs\<close>

lemma update_partition_eq:
  "update_partition mm bc = bc\<lparr>bc_PartitionMap := bc_PartitionMap bc ++ map_of (rev mm)\<rparr>"
  by (induction mm arbitrary: bc) (auto simp: update_partition_def Update_PartitionMap_def)

lemma map_of_rev: "distinct (map fst xs) \<Longrightarrow> map_of (rev xs) = map_of xs"
  by (intro map_of_inject_set [THEN iffD2]) (simp_all add: rev_map [symmetric])

definition moved :: "(Address \<Rightarrow> u64 res) \<Rightarrow> (Address \<times> u64) list \<Rightarrow> Address \<Rightarrow> u64 res" where
  "moved place mm a = (case map_of mm a of Some v \<Rightarrow> Inr v | None \<Rightarrow> place a)"

lemma Get_after_update:
  assumes "\<And>a. Get_PartitionMap P bc a = place a" and "distinct (map fst mm)"
  shows "Get_PartitionMap P (update_partition mm bc) a = moved place mm a"
  using assms by (simp add: update_partition_eq map_of_rev Get_PartitionMap_def moved_def map_add_def split: option.split)

lemma chain_ok_frame [simp]:
  "chain_ok L (bc\<lparr>bc_PartitionMap := m\<rparr>) = chain_ok L bc" "current_state L (bc\<lparr>bc_PartitionMap := m\<rparr>) = current_state L bc"
  "chain_ok L (bc\<lparr>bc_Txpool := q\<rparr>) = chain_ok L bc" "current_state L (bc\<lparr>bc_Txpool := q\<rparr>) = current_state L bc"
  by (simp_all add: chain_ok_def current_state_def)

lemma accountTransfer_spec:
  assumes "lib_laws L" and "chain_ok L (p_CurChain p)" and "current_state L (p_CurChain p) = Some st"
    and "p_ShardID p = cc_ShardID (bc_ChainConfig (p_CurChain p))" and "\<And>a. Get_PartitionMap P (p_CurChain p) a = place a"
    and "distinct (map fst mm)" and "distinct (map fst recv)" and "\<forall>a \<in> fst ` set recv. map_of mm a = Some (p_ShardID p)"
    and "atm_ModifiedMap atm = mm" and "atm_Addrs atm = map fst recv" and "atm_AccountState atm = map snd recv"
  shows "\<exists>q st'. accountTransfer_do L P atm p = Inr q \<and> chain_ok L (p_CurChain q) \<and>
    (\<forall>a. Get_PartitionMap P (p_CurChain q) a = moved place mm a) \<and> bc_Txpool (p_CurChain q) = bc_Txpool (p_CurChain p) \<and>
    current_state L (p_CurChain q) = Some st' \<and>
    (\<forall>a. account_at st' a = (case map_of recv a of None \<Rightarrow> account_at st a | Some s \<Rightarrow> newState (as_Nonce s) (as_Balance s)))"
proof -
  let ?bc = "update_partition mm (p_CurChain p)"
  have bc: "chain_ok L ?bc" "current_state L ?bc = Some st" "bc_Txpool ?bc = bc_Txpool (p_CurChain p)"
    "cc_ShardID (bc_ChainConfig ?bc) = p_ShardID p" using assms(2-4) by (simp_all add: update_partition_eq)
  have get: "Get_PartitionMap P ?bc a = moved place mm a" for a by (rule Get_after_update [OF assms(5,6)])
  have here: "a \<in> fst ` set recv \<Longrightarrow> Get_PartitionMap P ?bc a = Inr (p_ShardID p)" for a
    using bspec [OF assms(8), of a] by (simp add: get moved_def)
  have "\<forall>a \<in> set (map fst recv). \<exists>s. Get_PartitionMap P ?bc a = Inr s" using here by auto
  from AddAccounts_spec [OF assms(1) bc(1,2) _ this, of "map snd recv" "of_int (p_view p)"]
  obtain bc' st' where a: "AddAccounts L P (map fst recv) (map snd recv) (of_int (p_view p)) ?bc = Inr bc'" "chain_ok L bc'"
    "same_partition ?bc bc'" "bc_Txpool bc' = bc_Txpool ?bc" "current_state L bc' = Some st'"
    "\<forall>a. st' a = (case installed P ?bc (map fst recv) (map snd recv) a of
       None \<Rightarrow> st a | Some s \<Rightarrow> Some (AS_Encode (newState (as_Nonce s) (as_Balance s))))" by auto
  have inst: "installed P ?bc (map fst recv) (map snd recv) a = map_of recv a" for a
    using here [of a] map_of_rev [OF assms(7)]
    by (cases "a \<in> fst ` set recv") (auto simp: installed_def bc(4) zip_map_fst_snd map_of_eq_None_iff [THEN iffD2] map_of_eq_None_iff)
  have "account_at st' a = (case map_of recv a of None \<Rightarrow> account_at st a | Some s \<Rightarrow> newState (as_Nonce s) (as_Balance s))" for a
    using spec [OF a(6), of a] unfolding inst by (cases "map_of recv a") (simp_all add: account_at_def)
  moreover have "Get_PartitionMap P bc' a = moved place mm a" for a
    using a(3) get [of a] by (simp add: same_partition_def Get_PartitionMap_def)
  ultimately show ?thesis using a bc(3) by (simp add: accountTransfer_do_def assms(9-11) Let_def)
qed

section \<open>A transfer from all shards\<close>

lemma received_not_misplaced:
  assumes "relay_verdict A tx = Send" and "\<And>a. a \<in> A \<Longrightarrow> map_of mm a = Some t"
  shows "\<not> misplaced mm t tx"
  using assms by (auto simp: relay_verdict_def misplaced_def map_get_def Let_def split: if_splits)

lemma proposePartition_spec:
  assumes "\<forall>m \<in> set ms. ast_AccountState m = map F (ast_Addrs m)" and "cd_ReceivedNewAccountState (p_cdm t) = []"
    and "cd_ReceivedNewTx (p_cdm t) = []" and "cd_AccountStateTx (p_cdm t) = collected ms"
    and "last_map (p_cdm t) = Inr mm" and "unat (cd_AccountTransferRound (p_cdm t)) + 1 = length (cd_ModifiedMap (p_cdm t))"
    and "checked \<Longrightarrow> \<forall>m \<in> set ms. \<forall>tx \<in> set (ast_Txs m). \<not> misplaced mm (p_ShardID t) tx"
  shows "\<exists>r t2 atm recv c. proposePartition checked now t = Inr (r, t2) \<and> DecodeAccountTransferMsg (rq_Content r) = Inr atm \<and>
    atm_ModifiedMap atm = mm \<and> atm_Addrs atm = map fst recv \<and> atm_AccountState atm = map snd recv \<and> distinct (map fst recv) \<and>
    (\<forall>a. map_of recv a = (if \<exists>m \<in> set ms. a \<in> set (ast_Addrs m) then Some (F a) else None)) \<and>
    t2 = add_to_pool now (concat (map ast_Txs ms)) (t\<lparr>p_cdm := c\<rparr>)"
proof -
  obtain recv where r: "collect_all (collected ms) (p_cdm t) = Inr ((p_cdm t)\<lparr>cd_ReceivedNewAccountState := recv,
      cd_ReceivedNewTx := concat (map ast_Txs ms)\<rparr>)" "distinct (map fst recv)"
    "\<forall>a. map_of recv a = (if \<exists>m \<in> set ms. a \<in> set (ast_Addrs m) then Some (F a) else None)"
    using collect_all_spec [OF assms(1), of "p_cdm t"] assms(2,3) by auto
  have idx: "unat (cd_AccountTransferRound (p_cdm t)) = length (cd_ModifiedMap (p_cdm t)) - 1" using assms(6) by simp
  have mm: "cd_ModifiedMap (p_cdm t) ! unat (cd_AccountTransferRound (p_cdm t)) = mm"
    "unat (cd_AccountTransferRound (p_cdm t)) < length (cd_ModifiedMap (p_cdm t))"
    using assms(5) idx last_conv_nth [of "cd_ModifiedMap (p_cdm t)"] assms(6) by (auto simp: last_map_def split: if_splits)
  let ?atm = "\<lparr>atm_ModifiedMap = mm, atm_Addrs = map fst recv, atm_AccountState = map snd recv,
    atm_ATid = of_nat (length (cd_ModifiedMap (p_cdm t)))\<rparr>"
  have "\<not> (checked \<and> (\<exists>tx \<in> set (concat (map ast_Txs ms)). misplaced mm (p_ShardID t) tx))" using assms(7) by auto
  then have "proposePartition checked now t = Inr (\<lparr>rq_Type = PartitionReq, rq_Content = ATM_Encode ?atm, rq_ReqTime = now\<rparr>,
      add_to_pool now (concat (map ast_Txs ms)) (t\<lparr>p_cdm := (p_cdm t)\<lparr>cd_ReceivedNewAccountState := recv,
        cd_ReceivedNewTx := concat (map ast_Txs ms)\<rparr>\<rparr>))"
    using mm by (simp add: proposePartition_def assms(4) r(1) Let_def)
  then show ?thesis using r(2,3) by fastforce
qed

text \<open>
  (C9) A new partition loses no account and no queued transaction. Let the leaders of the other shards, in any order, send
  their messages to the leader of a shard, all with chains in order, the same placement and the same
  new partition. Then each queued transaction of such a leader stays queued, is sent to one shard or
  becomes a cross-shard one, exactly once; the collection is complete when the leaders of all other shards have sent; the
  proposal and the transfer on it do not panic and keep the chain in order; accounts are placed
  as the new partition says; the queue is the old one followed by the transactions that came with
  the accounts; each account that the partition moves here has the balance and nonce it had in the
  shard it came from; and no other account has changed.
\<close>

theorem accounts_survive_a_repartition:
  assumes "lib_laws L" and "\<forall>p \<in> set (t # ps). transfer_ready L P place mm p" and "\<forall>p \<in> set ps. p_ShardID t \<in> set (shard_ids p)"
    and "distinct (map p_ShardID (t # ps))" and "ps \<noteq> []" and "distinct (map fst mm)"
    and "\<forall>(a, v) \<in> set mm. \<exists>s. place a = Inr s"
    and "cd_AccountStateTx (p_cdm t) = [] \<and> cd_ReceivedNewAccountState (p_cdm t) = [] \<and> cd_ReceivedNewTx (p_cdm t) = []"
    and "unat (cd_AccountTransferRound (p_cdm t)) + 1 = length (cd_ModifiedMap (p_cdm t))"
    and "v = relay_verdict \<and> checked \<or> v = broker_verdict \<and> \<not> checked"
  shows "\<exists>ms r t2 atm t3. map (message_to L P v (p_ShardID t)) ps = map Some ms \<and>
    (\<forall>p \<in> set ps. \<exists>a. transfer_all L P v p = Inr a \<and> keeps_queue a p) \<and>
    (int (length ps) = uint (cc_ShardNums (p_pbftChainConfig t)) - 1 \<longrightarrow> getCollectOver (fold handleAccountStateAndTxMsg ms t)) \<and>
    proposePartition checked now (fold handleAccountStateAndTxMsg ms t) = Inr (r, t2) \<and>
    DecodeAccountTransferMsg (rq_Content r) = Inr atm \<and> accountTransfer_do L P atm t2 = Inr t3 \<and> chain_ok L (p_CurChain t3) \<and>
    (\<forall>a. Get_PartitionMap P (p_CurChain t3) a = moved place mm a) \<and>
    TxQueue (bc_Txpool (p_CurChain t3)) = TxQueue (bc_Txpool (p_CurChain t)) @ map (stamp now) (concat (map ast_Txs ms)) \<and>
    (\<forall>p \<in> set ps. \<forall>a s. place a = Inr (p_ShardID p) \<and> map_of mm a = Some (p_ShardID t) \<and> FetchAccounts L [a] (p_CurChain p) = Inr [s] \<longrightarrow>
       FetchAccounts L [a] (p_CurChain t3) = Inr [newState (as_Nonce s) (as_Balance s)]) \<and>
    (\<forall>a. map_of mm a \<noteq> Some (p_ShardID t) \<or> place a \<notin> Inr ` p_ShardID ` set ps \<longrightarrow>
       FetchAccounts L [a] (p_CurChain t3) = FetchAccounts L [a] (p_CurChain t))"
proof -
  let ?t = "p_ShardID t"
  define st where "st p = the (current_state L (p_CurChain p))" for p :: PbftNode
  define M where "M p = the (message_to L P v ?t p)" for p :: PbftNode
  define F where "F a = account_at (st (SOME p. p \<in> set ps \<and> place a = Inr (p_ShardID p))) a" for a
  have st: "current_state L (p_CurChain p) = Some (st p)" "trie_ok (st p)" if "p \<in> set (t # ps)" for p
    using assms(2) that by (auto simp: transfer_ready_def chain_ok_def st_def)
  have msg: "message_to L P v ?t p = Some (M p) \<and> ast_FromShard (M p) = p_ShardID p \<and>
      (\<forall>a. a \<in> set (ast_Addrs (M p)) \<longleftrightarrow> map_of mm a = Some ?t \<and> place a = Inr (p_ShardID p)) \<and>
      ast_AccountState (M p) = map (account_at (st p)) (ast_Addrs (M p)) \<and>
      (\<forall>tx \<in> set (ast_Txs (M p)). v (set (ast_Addrs (M p))) tx = Send)" if p: "p \<in> set ps" for p
  proof -
    have "?t \<noteq> p_ShardID p" using assms(4) p by auto
    then show ?thesis
      using message_to_spec [of L P place mm p "st p" ?t v] leaving_member [OF assms(6), of ?t "p_ShardID p" _ place] assms(2,3,7) st(1) p
      unfolding M_def by (auto simp del: set_filter)
  qed
  have F: "F a = account_at (st p) a" if "p \<in> set ps" "place a = Inr (p_ShardID p)" for a p
  proof -
    have "(SOME q. q \<in> set ps \<and> place a = Inr (p_ShardID q)) = p"
      by (rule some_equality) (use that assms(4) in \<open>auto simp: distinct_map dest: inj_onD\<close>)
    then show ?thesis by (simp add: F_def)
  qed
  let ?ms = "map M ps"
  have ms: "map (message_to L P v ?t) ps = map Some ?ms" using msg by simp
  have from_shards: "map ast_FromShard ?ms = map p_ShardID ps" using msg by simp
  have "distinct (map ast_FromShard ?ms)" unfolding from_shards using assms(4) by simp
  from receive_all [OF this, of t] assms(5,8)
  obtain over where t1: "fold handleAccountStateAndTxMsg ?ms t = t\<lparr>p_cdm := (p_cdm t)\<lparr>cd_AccountStateTx := collected ?ms, cd_CollectOver := over\<rparr>\<rparr>"
    "int (length ps) = uint (cc_ShardNums (p_pbftChainConfig t)) - 1 \<longrightarrow> over" by auto
  let ?t1 = "fold handleAccountStateAndTxMsg ?ms t"
  have FM: "\<forall>m \<in> set ?ms. ast_AccountState m = map F (ast_Addrs m)" using msg F by simp
  have chk: "\<forall>m \<in> set ?ms. \<forall>tx \<in> set (ast_Txs m). \<not> misplaced mm ?t tx" if checked
    using msg received_not_misplaced assms(10) that by fastforce
  have "last_map (p_cdm t) = Inr mm" using assms(2) by (simp add: transfer_ready_def)
  then have t1s: "cd_ReceivedNewAccountState (p_cdm ?t1) = []" "cd_ReceivedNewTx (p_cdm ?t1) = []" "last_map (p_cdm ?t1) = Inr mm"
    "cd_AccountStateTx (p_cdm ?t1) = collected ?ms" "p_ShardID ?t1 = ?t"
    "unat (cd_AccountTransferRound (p_cdm ?t1)) + 1 = length (cd_ModifiedMap (p_cdm ?t1))"
    using assms(8,9) unfolding t1(1) last_map_def by (simp_all split: if_splits)
  note pp = proposePartition_spec [OF FM t1s(1,2,4,3,6), unfolded t1s(5), of checked now]
  obtain r t2 atm recv c where pr: "proposePartition checked now ?t1 = Inr (r, t2)" "DecodeAccountTransferMsg (rq_Content r) = Inr atm"
    "atm_ModifiedMap atm = mm" "atm_Addrs atm = map fst recv" "atm_AccountState atm = map snd recv" "distinct (map fst recv)"
    "\<forall>a. map_of recv a = (if \<exists>m \<in> set ?ms. a \<in> set (ast_Addrs m) then Some (F a) else None)"
    "t2 = add_to_pool now (concat (map ast_Txs ?ms)) (?t1\<lparr>p_cdm := c\<rparr>)"
    using pp chk by blast
  have t2: "chain_ok L (p_CurChain t2)" "current_state L (p_CurChain t2) = Some (st t)" "p_ShardID t2 = ?t"
    "?t = cc_ShardID (bc_ChainConfig (p_CurChain t2))" "\<And>a. Get_PartitionMap P (p_CurChain t2) a = place a"
    "TxQueue (bc_Txpool (p_CurChain t2)) = TxQueue (bc_Txpool (p_CurChain t)) @ map (stamp now) (concat (map ast_Txs ?ms))"
    using assms(2) st(1) unfolding pr(8) t1(1)
    by (simp_all add: transfer_ready_def add_to_pool_def SendTx2Pool_def Get_PartitionMap_def AddTxs2Pool_TxQueue)
  have rc: "map_of recv a = (if map_of mm a = Some ?t \<and> place a \<in> Inr ` p_ShardID ` set ps then Some (F a) else None)" for a
    using spec [OF pr(7), of a] msg by auto
  have "\<forall>a \<in> fst ` set recv. map_of mm a = Some ?t" using rc map_of_eq_None_iff [of recv] by (metis option.distinct(1))
  from accountTransfer_spec [OF assms(1) t2(1,2) _ t2(5) assms(6) pr(6) _ pr(3-5)] this t2(3,4)
  obtain t3 st' where t3: "accountTransfer_do L P atm t2 = Inr t3" "chain_ok L (p_CurChain t3)"
    "\<forall>a. Get_PartitionMap P (p_CurChain t3) a = moved place mm a" "bc_Txpool (p_CurChain t3) = bc_Txpool (p_CurChain t2)"
    "current_state L (p_CurChain t3) = Some st'"
    "\<forall>a. account_at st' a = (case map_of recv a of None \<Rightarrow> account_at (st t) a | Some s \<Rightarrow> newState (as_Nonce s) (as_Balance s))" by auto
  have tok: "trie_ok st'" using t3(2,5) by (auto simp: chain_ok_def)
  have fetch: "FetchAccounts L [a] (p_CurChain t3) = Inr [account_at st' a]" for a using FetchAccounts_spec [OF t3(5) tok, of "[a]"] by simp
  have old: "FetchAccounts L [a] (p_CurChain p) = Inr [account_at (st p) a]" if "p \<in> set (t # ps)" for a p
    using FetchAccounts_spec [OF st [OF that], of "[a]"] by simp
  have came: "FetchAccounts L [a] (p_CurChain t3) = Inr [newState (as_Nonce s) (as_Balance s)]"
    if "p \<in> set ps" "place a = Inr (p_ShardID p)" "map_of mm a = Some ?t" "FetchAccounts L [a] (p_CurChain p) = Inr [s]" for p a s
    using that F [OF that(1,2)] old [of p a] fetch [of a] spec [OF t3(6), of a] rc [of a] by auto
  have kept: "FetchAccounts L [a] (p_CurChain t3) = FetchAccounts L [a] (p_CurChain t)"
    if "map_of mm a \<noteq> Some ?t \<or> place a \<notin> Inr ` p_ShardID ` set ps" for a
    using that old [of t a] fetch [of a] spec [OF t3(6), of a] rc [of a] by auto
  have queues: "\<exists>a. transfer_all L P v p = Inr a \<and> keeps_queue a p" if "p \<in> set ps" for p
    using msg [OF that] transfer_all_keeps_queue [of L P v p] by (cases "transfer_all L P v p") (auto simp: message_to_def)
  have over: "int (length ps) = uint (cc_ShardNums (p_pbftChainConfig t)) - 1 \<longrightarrow> getCollectOver ?t1"
    using t1 by (simp add: getCollectOver_def)
  show ?thesis
    using ms queues over pr(1,2) t3(1-4) t2(6) came kept by (intro exI conjI) (assumption | simp | blast)+
qed

text \<open>Two shards with the chains of \<open>Demo_Lib\<close>; the partition moves account \<open>a\<close> from shard 0 to shard 1.\<close>

definition demo_leader :: "u64 \<Rightarrow> PbftNode" where
  "demo_leader k = demo_node\<lparr>p_CurChain := demo_chain k, p_ShardID := k, p_pbftChainConfig := demo_config k,
     p_cdm := NewCLPADataSupport\<lparr>cd_ModifiedMap := [[(''a'', 1)]]\<rparr>\<rparr>"

lemma demo_leader_fields [simp]:
  "p_CurChain (demo_leader k) = demo_chain k" "p_ShardID (demo_leader k) = k" "p_pbftChainConfig (demo_leader k) = demo_config k"
  "p_cdm (demo_leader k) = NewCLPADataSupport\<lparr>cd_ModifiedMap := [[(''a'', 1)]]\<rparr>"
  by (simp_all add: demo_leader_def)

lemma demo_leader_ready:
  "transfer_ready demo_lib defaultParams (Get_PartitionMap defaultParams (demo_chain 0)) [(''a'', 1)] (demo_leader k)"
  by (simp add: transfer_ready_def Get_PartitionMap_def last_map_def)

theorem accounts_survive_a_repartition_witness:
  "\<exists>m r t2 atm t3 s. message_to demo_lib defaultParams relay_verdict 1 (demo_leader 0) = Some m \<and>
     getCollectOver (handleAccountStateAndTxMsg m (demo_leader 1)) \<and>
     proposePartition True 5 (handleAccountStateAndTxMsg m (demo_leader 1)) = Inr (r, t2) \<and>
     DecodeAccountTransferMsg (rq_Content r) = Inr atm \<and> accountTransfer_do demo_lib defaultParams atm t2 = Inr t3 \<and>
     FetchAccounts demo_lib [''a''] (demo_chain 0) = Inr [s] \<and>
     FetchAccounts demo_lib [''a''] (p_CurChain t3) = Inr [newState (as_Nonce s) (as_Balance s)]"
proof -
  let ?place = "Get_PartitionMap defaultParams (demo_chain 0)"
  have a: "?place ''a'' = Inr 0" by (simp add: Get_PartitionMap_def)
  have fetched: "\<exists>s. FetchAccounts demo_lib [''a''] (demo_chain 0) = Inr [s]"
    using demo_chain_ok [of 0] FetchAccounts_spec [of demo_lib "demo_chain 0" _ "[''a'']"] by (fastforce simp: chain_ok_def)
  have ids: "(1 :: u64) \<in> word_of_nat ` {0..<2}" by (rule image_eqI [of _ _ 1]) simp_all
  have p: "\<forall>p \<in> set (demo_leader 1 # [demo_leader 0]). transfer_ready demo_lib defaultParams ?place [(''a'', 1)] p"
    "\<forall>p \<in> set [demo_leader 0]. p_ShardID (demo_leader 1) \<in> set (shard_ids p)"
    "distinct (map p_ShardID (demo_leader 1 # [demo_leader 0]))" "[demo_leader 0] \<noteq> []" "distinct (map fst [(''a'', 1 :: u64)])"
    "\<forall>(a, v) \<in> set [(''a'', 1 :: u64)]. \<exists>s. ?place a = Inr s"
    "cd_AccountStateTx (p_cdm (demo_leader 1)) = [] \<and> cd_ReceivedNewAccountState (p_cdm (demo_leader 1)) = [] \<and>
       cd_ReceivedNewTx (p_cdm (demo_leader 1)) = []"
    "unat (cd_AccountTransferRound (p_cdm (demo_leader 1))) + 1 = length (cd_ModifiedMap (p_cdm (demo_leader 1)))"
    "relay_verdict = relay_verdict \<and> True \<or> relay_verdict = broker_verdict \<and> \<not> True"
    using demo_leader_ready a ids by (simp_all add: shard_ids_def demo_config_def NewCLPADataSupport_def)
  obtain ms r t2 atm t3 where "map (message_to demo_lib defaultParams relay_verdict (p_ShardID (demo_leader 1))) [demo_leader 0] = map Some ms"
    "int (length [demo_leader 0]) = uint (cc_ShardNums (p_pbftChainConfig (demo_leader 1))) - 1 \<longrightarrow>
       getCollectOver (fold handleAccountStateAndTxMsg ms (demo_leader 1))"
    "proposePartition True 5 (fold handleAccountStateAndTxMsg ms (demo_leader 1)) = Inr (r, t2)"
    "DecodeAccountTransferMsg (rq_Content r) = Inr atm" "accountTransfer_do demo_lib defaultParams atm t2 = Inr t3"
    "\<forall>p \<in> set [demo_leader 0]. \<forall>x s. ?place x = Inr (p_ShardID p) \<and> map_of [(''a'', 1)] x = Some (p_ShardID (demo_leader 1)) \<and>
       FetchAccounts demo_lib [x] (p_CurChain p) = Inr [s] \<longrightarrow>
       FetchAccounts demo_lib [x] (p_CurChain t3) = Inr [newState (as_Nonce s) (as_Balance s)]"
    using accounts_survive_a_repartition [OF demo_lib_laws p(1-9), of 5] by blast
  then show ?thesis using fetched a by (cases ms) (auto simp: demo_config_def)
qed

end
