(* ===== verification/Committee.thy ===== *)
theory Committee
  imports Message Demo_Lib
begin

text \<open>
  What the committees of the supervisor share (\<open>supervisor/committee/committee_relay.go\<close>,
  \<open>supervisor/signal/supervisorStopModule.go\<close>): the signal that ends the run, the reading of the
  transaction file, the injection of transactions into the shards, and the relay committee itself.

  \<^item> Sending appends to the outbox \<open>co_out\<close>, as it does for a consensus node.
  \<^item> A file is its list of records, each with the time at which it is read, an unreadable record
    being \<open>None\<close>. Sleeping has no effect on the state.
  \<^item> A map of addresses is a function to lists of entries, in the order of a range over it.
\<close>

section \<open>The stop signal\<close>

record StopSignal =
  ss_stopGap :: int
  ss_stopThreshold :: int

definition NewStopSignal :: "int \<Rightarrow> StopSignal" where
  "NewStopSignal stop_Threshold = \<lparr>ss_stopGap = 0, ss_stopThreshold = stop_Threshold\<rparr>"

definition StopGap_Inc :: "StopSignal \<Rightarrow> StopSignal" where
  "StopGap_Inc ss = ss\<lparr>ss_stopGap := ss_stopGap ss + 1\<rparr>"

definition StopGap_Reset :: "StopSignal \<Rightarrow> StopSignal" where
  "StopGap_Reset ss = ss\<lparr>ss_stopGap := 0\<rparr>"

definition GapEnough :: "StopSignal \<Rightarrow> bool" where
  "GapEnough ss \<longleftrightarrow> ss_stopGap ss \<ge> ss_stopThreshold ss"

section \<open>State common to the committees\<close>

type_synonym ip_table = "u64 \<Rightarrow> (u64 \<times> string) list"

record Committee =
  co_dataTotalNum :: int
  co_nowDataNum :: int
  co_batchDataNum :: int
  co_IpNodeTable :: ip_table
  co_Ss :: StopSignal
  co_out :: "(string \<times> wire) list"

definition ip_at :: "ip_table \<Rightarrow> u64 \<Rightarrow> u64 \<Rightarrow> string" where
  "ip_at tbl sid nid = (case map_of (tbl sid) nid of None \<Rightarrow> '''' | Some ip \<Rightarrow> ip)"

definition send_to :: "string \<Rightarrow> wire \<Rightarrow> 'z Committee_scheme \<Rightarrow> 'z Committee_scheme" where
  "send_to ip m c = c\<lparr>co_out := co_out c @ [(ip, m)]\<rparr>"

definition reset_gap :: "'z Committee_scheme \<Rightarrow> 'z Committee_scheme" where
  "reset_gap c = c\<lparr>co_Ss := StopGap_Reset (co_Ss c)\<rparr>"

section \<open>Reading transactions\<close>

definition field :: "string list \<Rightarrow> nat \<Rightarrow> string res" where
  "field data i = (if i < length data then Inr (data ! i) else Inl IndexOutOfRange)"

text \<open>\<open>big.Int.SetString\<close> in base 10: an optional sign and at least one digit.\<close>

definition decval :: "char \<Rightarrow> nat option" where
  "decval c = (let n = (of_char c :: nat) in if 48 \<le> n \<and> n \<le> 57 then Some (n - 48) else None)"

fun parse_dec :: "string \<Rightarrow> nat \<Rightarrow> nat option" where
  "parse_dec [] acc = Some acc"
| "parse_dec (c # cs) acc = (case decval c of None \<Rightarrow> None | Some d \<Rightarrow> parse_dec cs (10 * acc + d))"

definition SetString :: "string \<Rightarrow> int option" where
  "SetString s =
     (let neg = (s \<noteq> [] \<and> hd s = CHR ''-'');
          body = (if s \<noteq> [] \<and> (hd s = CHR ''-'' \<or> hd s = CHR ''+'') then tl s else s)
      in if body = [] then None
         else map_option (\<lambda>n. if neg then - int n else int n) (parse_dec body 0))"

definition data2tx :: "lib \<Rightarrow> time \<Rightarrow> string list \<Rightarrow> u64 \<Rightarrow> Transaction option res" where
  "data2tx L now data nonce =
     bindR (field data 6) (\<lambda>d6. if d6 \<noteq> ''0'' then Inr None else
     bindR (field data 7) (\<lambda>d7. if d7 \<noteq> ''0'' then Inr None else
     bindR (field data 3) (\<lambda>d3. if length d3 \<le> 16 then Inr None else
     bindR (field data 4) (\<lambda>d4. if length d4 \<le> 16 \<or> d3 = d4 then Inr None else
     bindR (field data 8) (\<lambda>d8.
       case SetString d8 of
         None \<Rightarrow> Inl (LogPanic ''new int failed'')
       | Some val \<Rightarrow> Inr (Some (NewTransaction L (drop 2 d3) (drop 2 d4) val nonce now)))))))"

type_synonym csv = "(string list option \<times> time) list"

text \<open>
  The loop of \<open>MsgSendingControl\<close>: \<open>skip\<close> tells whether it goes on with the next record when the
  record is not a legal transaction, \<open>batch\<close> is what is done with the transactions read so far.
\<close>

fun csv_loop ::
  "lib \<Rightarrow> bool \<Rightarrow> (Transaction list \<Rightarrow> 'z Committee_scheme \<Rightarrow> 'z Committee_scheme res) \<Rightarrow>
     csv \<Rightarrow> Transaction list \<Rightarrow> 'z Committee_scheme \<Rightarrow> 'z Committee_scheme res" where
  "csv_loop L skip batch [] txlist c = Inr c"
| "csv_loop L skip batch ((None, now) # rows) txlist c = Inl (LogPanic ''csv'')"
| "csv_loop L skip batch ((Some data, now) # rows) txlist c =
     bindR (data2tx L now data (of_int (co_nowDataNum c))) (\<lambda>otx.
       if otx = None \<and> skip then csv_loop L skip batch rows txlist c
       else
         let txlist1 = (case otx of None \<Rightarrow> txlist | Some tx \<Rightarrow> txlist @ [tx]);
             c1 = (case otx of None \<Rightarrow> c | Some tx \<Rightarrow> c\<lparr>co_nowDataNum := co_nowDataNum c + 1\<rparr>);
             full = (int (length txlist1) = co_batchDataNum c1 \<or> co_nowDataNum c1 = co_dataTotalNum c1)
         in bindR (if full then batch txlist1 c1 else Inr c1) (\<lambda>c2.
              if co_nowDataNum c2 = co_dataTotalNum c2 then Inr c2
              else csv_loop L skip batch rows (if full then [] else txlist1) c2))"

section \<open>Injecting transactions\<close>

definition flush_now :: "int \<Rightarrow> nat \<Rightarrow> bool \<Rightarrow> bool res" where
  "flush_now speed i atEnd =
     (if i = 0 then Inr False
      else if speed = 0 then Inl IntegerDivideByZero
      else Inr (go_mod (int i) speed = 0 \<or> atEnd))"

text \<open>
  The loop of \<open>txSending\<close>: the transactions are collected per shard by \<open>place\<close>, and handed over by
  \<open>flush\<close> after each \<open>InjectSpeed\<close> transactions and at the end.
\<close>

fun send_loop ::
  "int \<Rightarrow> (Transaction \<Rightarrow> u64 res) \<Rightarrow> ((u64 \<Rightarrow> Transaction list) \<Rightarrow> 'c \<Rightarrow> 'c) \<Rightarrow>
     nat \<Rightarrow> Transaction list \<Rightarrow> (u64 \<Rightarrow> Transaction list) \<Rightarrow> 'c \<Rightarrow> 'c res" where
  "send_loop speed place flush i [] buf c =
     bindR (flush_now speed i True) (\<lambda>f. Inr (if f then flush buf c else c))"
| "send_loop speed place flush i (tx # txs) buf c =
     bindR (flush_now speed i False) (\<lambda>f.
     bindR (place tx) (\<lambda>sid.
       let buf1 = (if f then (\<lambda>_. []) else buf); c1 = (if f then flush buf c else c)
       in send_loop speed place flush (i + 1) txs (buf1(sid := buf1 sid @ [tx])) c1))"

definition params_shards :: "params \<Rightarrow> u64 list" where
  "params_shards P = map of_nat [0..<unat (of_int (ShardNum P) :: u64)]"

definition inject_leaders :: "params \<Rightarrow> (u64 \<Rightarrow> Transaction list) \<Rightarrow> 'z Committee_scheme \<Rightarrow> 'z Committee_scheme" where
  "inject_leaders P buf c =
     fold (\<lambda>sid. send_to (ip_at (co_IpNodeTable c) sid 0) (WInject \<lparr>it_Txs = buf sid, it_ToShardID = sid\<rparr>))
       (params_shards P) c"

definition place_by_addr :: "params \<Rightarrow> Address \<Rightarrow> u64 res" where
  "place_by_addr P a = bindR (Addr2Shard (ShardNum P) a) (\<lambda>s. Inr (of_int s))"

section \<open>The relay committee\<close>

record RelayCommitteeModule = Committee +
  rc_normalCommitNum :: int
  rc_relay1CommitNum :: int
  rc_relay2CommitNum :: int

definition NewRelayCommitteeModule :: "ip_table \<Rightarrow> StopSignal \<Rightarrow> int \<Rightarrow> int \<Rightarrow> RelayCommitteeModule" where
  "NewRelayCommitteeModule tbl Ss dataNum batchNum =
     \<lparr>co_dataTotalNum = dataNum, co_nowDataNum = 0, co_batchDataNum = batchNum, co_IpNodeTable = tbl,
      co_Ss = Ss, co_out = [], rc_normalCommitNum = 0, rc_relay1CommitNum = 0, rc_relay2CommitNum = 0\<rparr>"

definition relay_txSending ::
  "params \<Rightarrow> Transaction list \<Rightarrow> 'z Committee_scheme \<Rightarrow> 'z Committee_scheme res" where
  "relay_txSending P txlist c =
     send_loop (InjectSpeed P) (\<lambda>tx. place_by_addr P (tx_Sender tx)) (inject_leaders P) 0 txlist (\<lambda>_. []) c"

definition relay_batch ::
  "params \<Rightarrow> Transaction list \<Rightarrow> 'z Committee_scheme \<Rightarrow> 'z Committee_scheme res" where
  "relay_batch P txlist c = bindR (relay_txSending P txlist c) (\<lambda>c1. Inr (reset_gap c1))"

definition relay_MsgSendingControl ::
  "lib \<Rightarrow> params \<Rightarrow> csv option \<Rightarrow> RelayCommitteeModule \<Rightarrow> RelayCommitteeModule res" where
  "relay_MsgSendingControl L P txfile c =
     (case txfile of
        None \<Rightarrow> Inl (LogPanic ''open'')
      | Some rows \<Rightarrow> csv_loop L False (relay_batch P) rows [] c)"

definition relay_HandleBlockInfo :: "BlockInfoMsg \<Rightarrow> RelayCommitteeModule \<Rightarrow> RelayCommitteeModule" where
  "relay_HandleBlockInfo b c =
     (if bi_BlockBodyLength b = 0 then c
      else c\<lparr>rc_normalCommitNum := rc_normalCommitNum c + int (length (bi_InnerShardTxs b)),
             rc_relay1CommitNum := rc_relay1CommitNum c + int (length (bi_Relay1Txs b)),
             rc_relay2CommitNum := rc_relay2CommitNum c + int (length (bi_Relay2Txs b))\<rparr>)"

definition relay_ExecutionDrained :: "RelayCommitteeModule \<Rightarrow> bool" where
  "relay_ExecutionDrained c \<longleftrightarrow>
     rc_normalCommitNum c + rc_relay1CommitNum c \<ge> co_dataTotalNum c \<and>
     rc_relay2CommitNum c \<ge> rc_relay1CommitNum c"

section \<open>What has been injected\<close>

text \<open>The transactions sent to an address for a shard, in order.\<close>

definition injected :: "string \<Rightarrow> u64 \<Rightarrow> 'z Committee_scheme \<Rightarrow> Transaction list" where
  "injected ip sid c =
     concat (map (\<lambda>(a, m). case m of WInject it \<Rightarrow> if a = ip \<and> it_ToShardID it = sid then it_Txs it else [] | _ \<Rightarrow> [])
       (co_out c))"

text \<open>
  An injector hands the collected transactions over so that a receiver \<open>got\<close> of a shard gets
  exactly the transactions collected for it.
\<close>

locale injector =
  fixes flush :: "(u64 \<Rightarrow> Transaction list) \<Rightarrow> 'c \<Rightarrow> 'c"
    and got :: "u64 \<Rightarrow> 'c \<Rightarrow> Transaction list"
    and good :: "'c \<Rightarrow> bool"
    and shards :: "u64 set"
  assumes flush_got: "good c \<Longrightarrow> sid \<in> shards \<Longrightarrow> got sid (flush buf c) = got sid c @ buf sid"
    and flush_good: "good c \<Longrightarrow> good (flush buf c)"
begin

lemma send_loop_got:
  assumes "good c" and "speed \<noteq> 0" and "\<forall>tx \<in> set txs. \<exists>s. place tx = Inr s"
    and "i = 0 \<Longrightarrow> buf = (\<lambda>_. [])"
  shows "\<exists>c'. send_loop speed place flush i txs buf c = Inr c' \<and> good c' \<and>
    (\<forall>sid \<in> shards. got sid c' = got sid c @ buf sid @ filter (\<lambda>tx. place tx = Inr sid) txs)"
  using assms
proof (induction txs arbitrary: i buf c)
  case Nil
  then show ?case by (auto simp: flush_now_def flush_got flush_good)
next
  case (Cons tx txs)
  obtain s where s: "place tx = Inr s" using Cons.prems(3) by auto
  have "\<exists>f. flush_now speed i False = Inr f" using Cons.prems(2) by (auto simp: flush_now_def)
  then obtain f where f: "flush_now speed i False = Inr f" ..
  define buf1 where "buf1 = (if f then (\<lambda>_. []) else buf)"
  define c1 where "c1 = (if f then flush buf c else c)"
  have good1: "good c1" using Cons.prems(1) by (simp add: c1_def flush_good)
  have got1: "got sid c1 @ buf1 sid = got sid c @ buf sid" if "sid \<in> shards" for sid
    using Cons.prems(1) that by (simp add: c1_def buf1_def flush_got)
  obtain c' where c': "send_loop speed place flush (i + 1) txs (buf1(s := buf1 s @ [tx])) c1 = Inr c'" "good c'"
    "\<forall>sid \<in> shards. got sid c' = got sid c1 @ (buf1(s := buf1 s @ [tx])) sid @ filter (\<lambda>tx. place tx = Inr sid) txs"
    using Cons.IH [OF good1 Cons.prems(2), of "i + 1" "buf1(s := buf1 s @ [tx])"] Cons.prems(3)
    by (force simp del: fun_upd_apply)
  have "got sid c' = got sid c @ buf sid @ filter (\<lambda>tx. place tx = Inr sid) (tx # txs)" if sid: "sid \<in> shards" for sid
    using c'(3) [rule_format, OF sid] got1 [OF sid] s
    by (cases "s = sid") (simp_all flip: append_assoc)
  then show ?case using c'(1,2) by (auto simp: f s buf1_def c1_def Let_def)
qed

end

lemma send_to_simps [simp]:
  "co_out (send_to ip m c) = co_out c @ [(ip, m)]"
  "co_IpNodeTable (send_to ip m c) = co_IpNodeTable c"
  "co_nowDataNum (send_to ip m c) = co_nowDataNum c"
  "co_dataTotalNum (send_to ip m c) = co_dataTotalNum c"
  "co_batchDataNum (send_to ip m c) = co_batchDataNum c"
  by (simp_all add: send_to_def)

lemma injected_send_inject [simp]:
  "injected ip sid (send_to a (WInject it) c) =
     injected ip sid c @ (if a = ip \<and> it_ToShardID it = sid then it_Txs it else [])"
  by (simp add: injected_def)

lemma injected_reset [simp]: "injected ip sid (reset_gap c) = injected ip sid c"
  by (simp add: injected_def reset_gap_def)

lemma reset_gap_simps [simp]:
  "co_IpNodeTable (reset_gap c) = co_IpNodeTable c"
  "co_nowDataNum (reset_gap c) = co_nowDataNum c"
  "co_dataTotalNum (reset_gap c) = co_dataTotalNum c"
  "co_batchDataNum (reset_gap c) = co_batchDataNum c"
  by (simp_all add: reset_gap_def)

lemma distinct_params_shards: "distinct (params_shards P)"
  unfolding params_shards_def distinct_map
proof (intro conjI inj_onI)
  fix x y
  assume "x \<in> set [0..<unat (of_int (ShardNum P) :: u64)]" "y \<in> set [0..<unat (of_int (ShardNum P) :: u64)]"
  moreover have "unat (of_int (ShardNum P) :: u64) < 2 ^ 64"
    using unsigned_less [of "of_int (ShardNum P) :: u64", where ?'a = nat] by simp
  ultimately have "x < 2 ^ 64" "y < 2 ^ 64" by auto
  moreover assume "of_nat x = (of_nat y :: u64)"
  then have "unat (of_nat x :: u64) = unat (of_nat y :: u64)" by simp
  ultimately show "x = y" by (simp add: unat_of_nat)
qed simp

lemma inject_fold:
  assumes "distinct sids"
  shows "injected (ip_at tbl sid 0) sid
      (fold (\<lambda>sid. send_to (ip_at tbl sid 0) (WInject \<lparr>it_Txs = buf sid, it_ToShardID = sid\<rparr>)) sids c) =
    injected (ip_at tbl sid 0) sid c @ (if sid \<in> set sids then buf sid else [])"
  using assms by (induction sids arbitrary: c) auto

lemma inject_leaders_frame:
  "co_IpNodeTable (inject_leaders P buf c) = co_IpNodeTable c"
  "co_nowDataNum (inject_leaders P buf c) = co_nowDataNum c"
  "co_dataTotalNum (inject_leaders P buf c) = co_dataTotalNum c"
  "co_batchDataNum (inject_leaders P buf c) = co_batchDataNum c"
proof -
  have "co_IpNodeTable (fold (\<lambda>sid. send_to (f sid) (g sid)) sids c) = co_IpNodeTable c \<and>
      co_nowDataNum (fold (\<lambda>sid. send_to (f sid) (g sid)) sids c) = co_nowDataNum c \<and>
      co_dataTotalNum (fold (\<lambda>sid. send_to (f sid) (g sid)) sids c) = co_dataTotalNum c \<and>
      co_batchDataNum (fold (\<lambda>sid. send_to (f sid) (g sid)) sids c) = co_batchDataNum c" for f g and sids :: "u64 list"
    by (induction sids arbitrary: c) simp_all
  then show "co_IpNodeTable (inject_leaders P buf c) = co_IpNodeTable c"
    "co_nowDataNum (inject_leaders P buf c) = co_nowDataNum c"
    "co_dataTotalNum (inject_leaders P buf c) = co_dataTotalNum c"
    "co_batchDataNum (inject_leaders P buf c) = co_batchDataNum c"
    by (simp_all add: inject_leaders_def)
qed

text \<open>The committee's numbers and addresses do not change while it sends.\<close>

definition same_numbers :: "'z Committee_scheme \<Rightarrow> 'z Committee_scheme \<Rightarrow> bool" where
  "same_numbers c c' \<longleftrightarrow> co_IpNodeTable c' = co_IpNodeTable c \<and> co_nowDataNum c' = co_nowDataNum c \<and>
     co_dataTotalNum c' = co_dataTotalNum c \<and> co_batchDataNum c' = co_batchDataNum c"

interpretation leaders: injector "inject_leaders P" "\<lambda>sid c. injected (ip_at (co_IpNodeTable c0) sid 0) sid c"
  "same_numbers c0" "set (params_shards P)" for P and c0 :: "'z Committee_scheme"
proof
  fix c :: "'z Committee_scheme" and sid buf
  assume "same_numbers c0 c"
  then have "co_IpNodeTable c = co_IpNodeTable c0" by (simp add: same_numbers_def)
  moreover assume "sid \<in> set (params_shards P)"
  ultimately show "injected (ip_at (co_IpNodeTable c0) sid 0) sid (inject_leaders P buf c) =
      injected (ip_at (co_IpNodeTable c0) sid 0) sid c @ buf sid"
    by (simp add: inject_leaders_def inject_fold [OF distinct_params_shards])
next
  fix c :: "'z Committee_scheme" and buf
  assume "same_numbers c0 c"
  then show "same_numbers c0 (inject_leaders P buf c)"
    by (simp add: same_numbers_def inject_leaders_frame)
qed

section \<open>Reading the file in batches\<close>

text \<open>The legal transactions of a file, numbered from \<open>n\<close>.\<close>

fun legal :: "lib \<Rightarrow> int \<Rightarrow> csv \<Rightarrow> Transaction list" where
  "legal L n [] = []"
| "legal L n ((None, now) # rows) = legal L n rows"
| "legal L n ((Some data, now) # rows) =
     (case data2tx L now data (of_int n) of
        Inr (Some tx) \<Rightarrow> tx # legal L (n + 1) rows
      | _ \<Rightarrow> legal L n rows)"

definition readable :: "lib \<Rightarrow> (Transaction \<Rightarrow> bool) \<Rightarrow> csv \<Rightarrow> bool" where
  "readable L fine rows \<longleftrightarrow> (\<forall>(d, now) \<in> set rows. \<exists>data. d = Some data \<and>
     (\<forall>nonce. case data2tx L now data nonce of Inl e \<Rightarrow> False | Inr None \<Rightarrow> True | Inr (Some tx) \<Rightarrow> fine tx))"

text \<open>How many of the transactions read are handed over, when \<open>m\<close> are kept and \<open>k\<close> follow.\<close>

definition handed :: "int \<Rightarrow> int \<Rightarrow> nat \<Rightarrow> nat \<Rightarrow> nat" where
  "handed missing batchNum m k =
     (if int k \<ge> missing then m + nat missing else (m + k) div nat batchNum * nat batchNum)"

locale batch_sender =
  fixes batch :: "Transaction list \<Rightarrow> 'z Committee_scheme \<Rightarrow> 'z Committee_scheme res"
    and seen :: "'z Committee_scheme \<Rightarrow> 'o list"
    and view :: "Transaction list \<Rightarrow> 'o list"
    and ok :: "'z Committee_scheme \<Rightarrow> bool"
    and fine :: "Transaction \<Rightarrow> bool"
  assumes view_append: "view (xs @ ys) = view xs @ view ys"
    and batch_sends: "ok c \<Longrightarrow> \<forall>tx \<in> set txs. fine tx \<Longrightarrow>
      \<exists>c'. batch txs c = Inr c' \<and> ok c' \<and> seen c' = seen c @ view txs \<and> same_numbers c c'"
    and counting: "ok c \<Longrightarrow> ok (c\<lparr>co_nowDataNum := n\<rparr>) \<and> seen (c\<lparr>co_nowDataNum := n\<rparr>) = seen c"
begin

lemma csv_loop_hands_over:
  assumes "readable L fine rows" and "ok c" and "\<forall>tx \<in> set txlist. fine tx"
    and "int (length txlist) < co_batchDataNum c" and "co_nowDataNum c < co_dataTotalNum c"
  shows "\<exists>c'. csv_loop L skip batch rows txlist c = Inr c' \<and> ok c' \<and>
    (let new = legal L (co_nowDataNum c) rows
     in seen c' = seen c @ view (take (handed (co_dataTotalNum c - co_nowDataNum c) (co_batchDataNum c)
          (length txlist) (length new)) (txlist @ new)))"
  using assms
proof (induction rows arbitrary: txlist c)
  case Nil
  have "view [] = []" using view_append [of "[]" "[]"] by simp
  moreover have "handed (co_dataTotalNum c - co_nowDataNum c) (co_batchDataNum c) (length txlist) 0 = 0"
    using Nil.prems(4,5) by (auto simp: handed_def)
  ultimately show ?case using Nil.prems(2) by simp
next
  case (Cons row rows)
  let ?n = "co_nowDataNum c" and ?T = "co_dataTotalNum c" and ?B = "co_batchDataNum c"
  have rows: "readable L fine rows" using Cons.prems(1) by (auto simp: readable_def)
  obtain data now where row: "row = (Some data, now)"
    and r: "\<And>nonce. case data2tx L now data nonce of Inl e \<Rightarrow> False | Inr None \<Rightarrow> True | Inr (Some tx) \<Rightarrow> fine tx"
    using Cons.prems(1) by (cases row) (auto simp: readable_def)
  from r [of "of_int ?n"] obtain otx where otx: "data2tx L now data (of_int ?n) = Inr otx"
    "case otx of None \<Rightarrow> True | Some tx \<Rightarrow> fine tx"
    by (auto split: sum.splits)
  show ?case
  proof (cases otx)
    case None
    then have leg: "legal L ?n (row # rows) = legal L ?n rows" using otx by (simp add: row)
    have "csv_loop L skip batch (row # rows) txlist c = csv_loop L skip batch rows txlist c"
      using Cons.prems(4,5) otx None by (auto simp: row Let_def)
    then show ?thesis unfolding leg using Cons.IH [OF rows Cons.prems(2-5)] by simp
  next
    case (Some tx)
    define txlist1 where "txlist1 = txlist @ [tx]"
    define c1 where "c1 = c\<lparr>co_nowDataNum := ?n + 1\<rparr>"
    have leg: "legal L ?n (row # rows) = tx # legal L (?n + 1) rows" using otx Some by (simp add: row)
    have fine1: "\<forall>tx \<in> set txlist1. fine tx" using Cons.prems(3) otx(2) Some by (auto simp: txlist1_def)
    have c1: "ok c1" "seen c1 = seen c" using counting [OF Cons.prems(2)] by (simp_all add: c1_def)
    let ?full = "int (length txlist1) = ?B \<or> ?n + 1 = ?T"
    have step: "csv_loop L skip batch (row # rows) txlist c =
        bindR (if ?full then batch txlist1 c1 else Inr c1) (\<lambda>c2.
          if co_nowDataNum c2 = co_dataTotalNum c2 then Inr c2
          else csv_loop L skip batch rows (if ?full then [] else txlist1) c2)"
      using otx Some by (simp add: row Let_def txlist1_def c1_def)
    show ?thesis
    proof (cases ?full)
      case False
      have l1: "int (length txlist1) < co_batchDataNum c1" "co_nowDataNum c1 < co_dataTotalNum c1"
        using False Cons.prems(4,5) by (auto simp: txlist1_def c1_def)
      have "csv_loop L skip batch (row # rows) txlist c = csv_loop L skip batch rows txlist1 c1"
        using step False l1(2) by simp
      moreover have "handed (?T - ?n) ?B (length txlist) (Suc k) = handed (?T - (?n + 1)) ?B (length txlist1) k" for k
        using Cons.prems(5) by (auto simp: handed_def txlist1_def nat_diff_distrib)
      ultimately show ?thesis
        using Cons.IH [OF rows c1(1) fine1 l1] c1(2)
        by (simp add: leg Let_def c1_def txlist1_def)
    next
      case True
      obtain c2 where c2: "batch txlist1 c1 = Inr c2" "ok c2" "seen c2 = seen c @ view txlist1" "same_numbers c1 c2"
        using batch_sends [OF c1(1) fine1] c1(2) by auto
      have n2: "co_nowDataNum c2 = ?n + 1" "co_dataTotalNum c2 = ?T" "co_batchDataNum c2 = ?B"
        using c2(4) by (simp_all add: same_numbers_def c1_def)
      show ?thesis
      proof (cases "?n + 1 = ?T")
        case eq: True
        then have "handed (?T - ?n) ?B (length txlist) (Suc k) = Suc (length txlist)" for k
          by (auto simp: handed_def)
        then show ?thesis
          using step eq c2 n2 by (simp add: leg Let_def txlist1_def)
      next
        case neq: False
        then have B: "int (length txlist1) = ?B" using True by simp
        have l2: "int (length []) < co_batchDataNum c2" "co_nowDataNum c2 < co_dataTotalNum c2"
          using B neq Cons.prems(5) n2 by (auto simp: txlist1_def)
        have run: "csv_loop L skip batch (row # rows) txlist c = csv_loop L skip batch rows [] c2"
          using step True c2(1) n2 neq by simp
        have h: "handed (?T - ?n) ?B (length txlist) (Suc k) = length txlist1 + handed (?T - (?n + 1)) ?B 0 k" for k
        proof -
          have b: "nat ?B = length txlist1" using B by linarith
          have "(length txlist1 + k) div length txlist1 * length txlist1 =
              length txlist1 + k div length txlist1 * length txlist1"
            by (subst div_add_self1) (simp_all add: txlist1_def)
          then show ?thesis
            unfolding handed_def b using Cons.prems(5) by (auto simp: txlist1_def nat_diff_distrib)
        qed
        obtain c' where c': "csv_loop L skip batch rows [] c2 = Inr c'" "ok c'"
          "seen c' = seen c2 @ view (take (handed (?T - (?n + 1)) ?B 0 (length (legal L (?n + 1) rows))) (legal L (?n + 1) rows))"
          using Cons.IH [OF rows c2(2) _ l2] n2 by (auto simp: Let_def)
        have "view txlist1 @ view (take k xs) = view (take (length txlist1 + k) (txlist @ tx # xs))" for k xs
          by (simp add: txlist1_def flip: view_append)
        then show ?thesis using run c' c2(3) h by (simp add: leg Let_def)
      qed
    qed
  qed
qed

end

lemma same_numbers_trans: "same_numbers a b \<Longrightarrow> same_numbers b c \<Longrightarrow> same_numbers a c"
  by (simp add: same_numbers_def)

lemma relay_batch_injects:
  assumes "InjectSpeed P \<noteq> 0" and "sid \<in> set (params_shards P)"
    and "\<forall>tx \<in> set txs. \<exists>s. place_by_addr P (tx_Sender tx) = Inr s"
  shows "\<exists>c'. relay_batch P txs c = Inr c' \<and> same_numbers c c' \<and>
    injected (ip_at (co_IpNodeTable c) sid 0) sid c' =
      injected (ip_at (co_IpNodeTable c) sid 0) sid c @ filter (\<lambda>tx. place_by_addr P (tx_Sender tx) = Inr sid) txs"
proof -
  have "same_numbers c c" by (simp add: same_numbers_def)
  then obtain c1 where "relay_txSending P txs c = Inr c1" "same_numbers c c1"
    "injected (ip_at (co_IpNodeTable c) sid 0) sid c1 =
      injected (ip_at (co_IpNodeTable c) sid 0) sid c @ filter (\<lambda>tx. place_by_addr P (tx_Sender tx) = Inr sid) txs"
    using leaders.send_loop_got [of c c "InjectSpeed P" txs "\<lambda>tx. place_by_addr P (tx_Sender tx)" 0 "\<lambda>_. []" P] assms
    by (auto simp: relay_txSending_def)
  then show ?thesis by (auto simp: relay_batch_def same_numbers_def)
qed

interpretation relay_sender: batch_sender "relay_batch P"
  "injected (ip_at tbl sid 0) sid" "filter (\<lambda>tx. place_by_addr P (tx_Sender tx) = Inr sid)"
  "\<lambda>c. co_IpNodeTable c = tbl \<and> InjectSpeed P \<noteq> 0 \<and> sid \<in> set (params_shards P)"
  "\<lambda>tx. \<exists>s. place_by_addr P (tx_Sender tx) = Inr s" for P tbl sid
proof (unfold_locales, goal_cases)
  case (2 c txs)
  then show ?case using relay_batch_injects [of P sid txs c] by (auto simp: same_numbers_def)
qed (auto simp: injected_def)

section \<open>Properties\<close>

text \<open>
  (C22) What the relay committee injects. For a readable file, a positive batch size and a positive
  number of transactions to send, the leader of each shard receives, in the order of the file,
  exactly the legal transactions whose sender is placed in that shard, numbered from 0: the first
  \<open>dataTotalNum\<close> of them when the file has as many, and otherwise those of the full batches; the
  transactions of the last, incomplete batch are never sent.
\<close>

theorem relay_injects_the_file:
  assumes "readable L (\<lambda>tx. \<exists>s. place_by_addr P (tx_Sender tx) = Inr s) rows"
    and "0 < dataNum" and "0 < batchNum" and "InjectSpeed P \<noteq> 0" and "sid \<in> set (params_shards P)"
  shows "\<exists>c. relay_MsgSendingControl L P (Some rows) (NewRelayCommitteeModule tbl Ss dataNum batchNum) = Inr c \<and>
    injected (ip_at tbl sid 0) sid c =
      filter (\<lambda>tx. place_by_addr P (tx_Sender tx) = Inr sid)
        (take (if int (length (legal L 0 rows)) \<ge> dataNum then nat dataNum
               else length (legal L 0 rows) div nat batchNum * nat batchNum) (legal L 0 rows))"
  using relay_sender.csv_loop_hands_over [OF assms(1), of "NewRelayCommitteeModule tbl Ss dataNum batchNum" tbl sid "[]" False] assms
  by (auto simp: relay_MsgSendingControl_def NewRelayCommitteeModule_def Let_def injected_def handed_def)

text \<open>A file of three records, the second of which is not a legal transaction.\<close>

definition demo_rows :: csv where
  "demo_rows =
     [(Some ['''', '''', '''', ''0x0000000000000002'', ''0x0000000000000005'', '''', ''0'', ''0'', ''17''], 1),
      (Some ['''', '''', '''', ''None'', ''0x0000000000000005'', '''', ''0'', ''0'', ''1''], 2),
      (Some ['''', '''', '''', ''0x0000000000000003'', ''0x0000000000000005'', '''', ''0'', ''0'', ''4''], 3)]"

definition demo_sup_P :: params where "demo_sup_P = defaultParams\<lparr>ShardNum := 2\<rparr>"

lemma demo_rows_read:
  "data2tx L 1 ['''', '''', '''', ''0x0000000000000002'', ''0x0000000000000005'', '''', ''0'', ''0'', ''17''] n =
     Inr (Some (NewTransaction L ''0000000000000002'' ''0000000000000005'' 17 n 1))"
  "data2tx L 2 ['''', '''', '''', ''None'', ''0x0000000000000005'', '''', ''0'', ''0'', ''1''] n = Inr None"
  "data2tx L 3 ['''', '''', '''', ''0x0000000000000003'', ''0x0000000000000005'', '''', ''0'', ''0'', ''4''] n =
     Inr (Some (NewTransaction L ''0000000000000003'' ''0000000000000005'' 4 n 3))"
  by (simp_all add: data2tx_def field_def SetString_def decval_def)

lemma demo_places:
  "place_by_addr demo_sup_P ''0000000000000002'' = Inr 0"
  "place_by_addr demo_sup_P ''0000000000000003'' = Inr 1"
  by (simp_all add: place_by_addr_def demo_sup_P_def Addr2Shard_eq last8_def hexval_def)

theorem relay_injects_the_file_witness:
  "\<exists>c. relay_MsgSendingControl demo_lib demo_sup_P (Some demo_rows)
      (NewRelayCommitteeModule (\<lambda>sid. [(0, ''ip'')]) (NewStopSignal 6) 2 1) = Inr c \<and>
    injected ''ip'' 0 c = [NewTransaction demo_lib ''0000000000000002'' ''0000000000000005'' 17 0 1]"
proof -
  have rd: "readable demo_lib (\<lambda>tx. \<exists>s. place_by_addr demo_sup_P (tx_Sender tx) = Inr s) demo_rows"
    by (simp add: readable_def demo_rows_def demo_rows_read demo_places)
  have lg: "legal demo_lib 0 demo_rows =
      [NewTransaction demo_lib ''0000000000000002'' ''0000000000000005'' 17 0 1,
       NewTransaction demo_lib ''0000000000000003'' ''0000000000000005'' 4 1 3]"
    by (simp add: demo_rows_def demo_rows_read)
  have sid: "0 \<in> set (params_shards demo_sup_P)" "InjectSpeed demo_sup_P = 6000"
    by (auto simp: params_shards_def demo_sup_P_def defaultParams_def intro!: image_eqI [of _ _ 0])
  have ip: "ip_at (\<lambda>sid. [(0, ''ip'')]) 0 0 = ''ip''" by (simp add: ip_at_def)
  show ?thesis
    using relay_injects_the_file [OF rd, of 2 1 0 "\<lambda>sid. [(0, ''ip'')]" "NewStopSignal 6"] sid
    by (simp add: lg ip demo_places)
qed

end
