(* ===== verification/Committee_Bridge.thy ===== *)
theory Committee_Bridge
  imports Committee Pbft_Bridge Overlay_Build
begin

text \<open>
  The bridge committee (\<open>supervisor/committee/committee_bridge.go\<close>): a transfer between two shards
  becomes a transfer to the bridge account of the sender's shard, with the route over the overlay
  network along which the shards pass it on. The committee builds the overlay anew after each batch
  from the traffic it has seen.

  The draws of \<open>math/rand\<close> are a parameter; an overlay construction that would not return makes the
  committee not return either, hence the results in \<open>run\<close>.
\<close>

section \<open>State\<close>

text \<open>The fields of a message that the program never sets are left out.\<close>

record BridgeRawMeg =
  gm_Tx :: Transaction
  gm_ShardID :: int
  gm_Route :: "u64 list"
  gm_BridgeOverlayEpoch :: int

record BridgeType1Meg =
  g1_RawMeg :: BridgeRawMeg
  g1_Hcurrent :: u64
  g1_ShardID :: int

record BridgeCommitteeMod = Committee +
  gc_bridges :: Bridges
  gc_BridgeRawMegs :: "bytes \<rightharpoonup> BridgeRawMeg"  \<comment> \<open>the field of \<open>bridges\<close> that only the committee uses\<close>
  gc_rawCrossTxNum :: int
  gc_normalCommitNum :: int
  gc_bridge1CommitNum :: int
  gc_bridge2CommitNum :: int
  gc_overlayEnabled :: bool
  gc_overlayEpoch :: int
  gc_overlay :: "Overlay option"
  gc_degreeLimits :: "int list"
  gc_nextTraffic :: "int list list"

record bridge_env =
  ge_lib :: lib
  ge_params :: params
  ge_digest :: "BridgeRawMeg \<Rightarrow> bytes"  \<comment> \<open>\<open>getBridgeRawMagDigest\<close>: \<open>sha256\<close> of the JSON text\<close>
  ge_now :: "nat \<Rightarrow> time"  \<comment> \<open>the time at which the \<open>i\<close>-th transaction of a call is made\<close>
  ge_Intn :: "nat \<Rightarrow> int \<Rightarrow> int"  \<comment> \<open>the \<open>i\<close>-th draw of \<open>rng.Intn\<close> with a bound\<close>

definition Intn_laws :: "bridge_env \<Rightarrow> bool" where
  "Intn_laws E \<longleftrightarrow> (\<forall>i n. 0 < n \<longrightarrow> 0 \<le> ge_Intn E i n \<and> ge_Intn E i n < n)"

definition makeBridgeTrafficMatrix :: "int \<Rightarrow> int list list res" where
  "makeBridgeTrafficMatrix shardNum =
     (if shardNum < 0 then Inl IndexOutOfRange
      else Inr (replicate (nat shardNum) (replicate (nat shardNum) 0)))"

text \<open>The bounds on the degrees, and the limit drawn for each shard.\<close>

definition degree_bounds :: "params \<Rightarrow> int \<times> int" where
  "degree_bounds P =
     (let shardNum = ShardNum P;
          maxDegree = (if shardNum > 1 \<and> BridgeOverlayMaxDegree P > shardNum - 1 then shardNum - 1
                       else BridgeOverlayMaxDegree P);
          minDegree = (if BridgeOverlayMinDegree P > maxDegree then maxDegree else BridgeOverlayMinDegree P)
      in (if minDegree < 1 then 1 else minDegree, maxDegree))"

definition degree_limit :: "bridge_env \<Rightarrow> nat \<Rightarrow> int res" where
  "degree_limit E sid =
     (let (minDegree, maxDegree) = degree_bounds (ge_params E) in
      if maxDegree = minDegree then Inr minDegree
      else if maxDegree - minDegree + 1 \<le> 0 then Inl (LogPanic ''invalid argument to Intn'')
      else Inr (minDegree + ge_Intn E sid (maxDegree - minDegree + 1)))"

fun degree_limits :: "bridge_env \<Rightarrow> nat list \<Rightarrow> int list res" where
  "degree_limits E [] = Inr []"
| "degree_limits E (sid # sids) =
     bindR (degree_limit E sid) (\<lambda>l. bindR (degree_limits E sids) (\<lambda>ls. Inr (l # ls)))"

definition initBridgeOverlay :: "bridge_env \<Rightarrow> BridgeCommitteeMod \<Rightarrow> BridgeCommitteeMod run" where
  "initBridgeOverlay E c =
     (let c1 = c\<lparr>gc_overlayEnabled := (BridgeOverlayEnabled (ge_params E) \<noteq> 0)\<rparr>; shardNum = ShardNum (ge_params E) in
      if \<not> gc_overlayEnabled c1 then Some (Inr c1)
      else if shardNum < 0 then Some (Inl IndexOutOfRange)
      else bindO (ret (degree_limits E [0..<nat shardNum])) (\<lambda>limits.
           bindO (NewCompleteOverlay (nat shardNum)) (\<lambda>ov.
           bindO (ret (makeBridgeTrafficMatrix shardNum)) (\<lambda>m.
             Some (Inr (c1\<lparr>gc_degreeLimits := limits, gc_overlayEpoch := 0, gc_overlay := ov, gc_nextTraffic := m\<rparr>))))))"

definition NewBridgeCommitteeMod ::
  "bridge_env \<Rightarrow> ip_table \<Rightarrow> StopSignal \<Rightarrow> int \<Rightarrow> int \<Rightarrow> BridgeCommitteeMod run" where
  "NewBridgeCommitteeMod E tbl Ss dataNum batchNum =
     initBridgeOverlay E \<lparr>co_dataTotalNum = dataNum, co_nowDataNum = 0, co_batchDataNum = batchNum,
       co_IpNodeTable = tbl, co_Ss = Ss, co_out = [],
       gc_bridges = NewBridges (NewBridgeAddresses (nat (ShardNum (ge_params E)))), gc_BridgeRawMegs = Map.empty,
       gc_rawCrossTxNum = 0, gc_normalCommitNum = 0, gc_bridge1CommitNum = 0, gc_bridge2CommitNum = 0,
       gc_overlayEnabled = False, gc_overlayEpoch = 0, gc_overlay = None, gc_degreeLimits = [], gc_nextTraffic = []\<rparr>"

section \<open>Sending\<close>

definition inject_nodes :: "params \<Rightarrow> (u64 \<Rightarrow> Transaction list) \<Rightarrow> 'z Committee_scheme \<Rightarrow> 'z Committee_scheme" where
  "inject_nodes P buf c =
     fold (\<lambda>sid d. if buf sid = [] then d
             else fold (\<lambda>(nid, addr). send_to addr (WInject \<lparr>it_Txs = buf sid, it_ToShardID = sid\<rparr>))
                    (co_IpNodeTable c sid) d)
       (params_shards P) c"

definition bridge_place :: "params \<Rightarrow> Bridges \<Rightarrow> Transaction \<Rightarrow> u64 res" where
  "bridge_place P b tx =
     bindR (place_by_addr P (tx_Sender tx)) (\<lambda>senderSID.
       if IsBridgeAccount b (tx_Sender tx) then place_by_addr P (tx_Recipient tx) else Inr senderSID)"

definition bridge_txSending ::
  "params \<Rightarrow> Transaction list \<Rightarrow> BridgeCommitteeMod \<Rightarrow> BridgeCommitteeMod res" where
  "bridge_txSending P txlist c =
     send_loop (InjectSpeed P) (bridge_place P (gc_bridges c)) (inject_nodes P) 0 txlist (\<lambda>_. []) c"

section \<open>Routes and traffic\<close>

definition committee_route :: "u64 \<Rightarrow> u64 \<Rightarrow> BridgeCommitteeMod \<Rightarrow> u64 list" where
  "committee_route sourceSID destSID c =
     (let route = map of_nat (Route (gc_overlay c) (unat sourceSID) (unat destSID))
      in if gc_overlay c = None \<or> route = [] then [sourceSID, destSID] else route)"

definition bump :: "u64 \<Rightarrow> u64 \<Rightarrow> int list list \<Rightarrow> int list list res" where
  "bump i j m =
     bindR (idx2 m (unat i) (unat j)) (\<lambda>x. Inr (m[unat i := (m ! unat i)[unat j := wrap64 (x + 1)]]))"

definition recordBridgeTraffic :: "u64 \<Rightarrow> u64 \<Rightarrow> BridgeCommitteeMod \<Rightarrow> BridgeCommitteeMod res" where
  "recordBridgeTraffic sourceSID destSID c =
     (if sint sourceSID \<ge> int (length (gc_nextTraffic c)) \<or> sint destSID \<ge> int (length (gc_nextTraffic c)) then Inr c
      else bindR (bump sourceSID destSID (gc_nextTraffic c)) (\<lambda>m.
           bindR (bump destSID sourceSID m) (\<lambda>m'. Inr (c\<lparr>gc_nextTraffic := m'\<rparr>))))"

definition bridgeOverlayBuildMode :: "params \<Rightarrow> OverlayBuildMode" where
  "bridgeOverlayBuildMode P =
     (if BridgeOverlayBuildMode P = OverlayBuildTreeOnly then OverlayBuildTreeOnly
      else if BridgeOverlayBuildMode P = OverlayBuildBinaryTree then OverlayBuildBinaryTree
      else OverlayBuildFull)"

definition overlayEdgesForMessage :: "OverlayEdge list \<Rightarrow> (u64 \<times> u64) list" where
  "overlayEdgesForMessage edges = map (\<lambda>e. (of_nat (oe_U e), of_nat (oe_V e))) edges"

definition broadcastBridgeOverlay :: "params \<Rightarrow> BridgeCommitteeMod \<Rightarrow> BridgeCommitteeMod" where
  "broadcastBridgeOverlay P c =
     (case gc_overlay c of
        None \<Rightarrow> c
      | Some ov \<Rightarrow>
          let msg = WBridgeOverlay \<lparr>om_Epoch = gc_overlayEpoch c, om_DegreeLimits = gc_degreeLimits c,
                      om_Edges = overlayEdgesForMessage (ov_Edges ov),
                      om_Routes = map (map (map of_nat)) (ov_Routes ov)\<rparr>;
              nids = map of_nat [0..<unat (of_int (NodesInShard P) :: u64)]
          in fold (\<lambda>sid. fold (\<lambda>nid d. send_to (ip_at (co_IpNodeTable c) sid nid) msg d) nids) (params_shards P) c)"

definition rotateBridgeOverlay :: "params \<Rightarrow> BridgeCommitteeMod \<Rightarrow> BridgeCommitteeMod run" where
  "rotateBridgeOverlay P c =
     bindO (BuildOverlayWithMode (gc_nextTraffic c) (gc_degreeLimits c) (bridgeOverlayBuildMode P)) (\<lambda>r.
     bindO (case r of Inr ov \<Rightarrow> Some (Inr (Some ov)) | Inl e \<Rightarrow> NewCompleteOverlay (nat (ShardNum P))) (\<lambda>nextOverlay.
     bindO (ret (makeBridgeTrafficMatrix (ShardNum P))) (\<lambda>m.
       case nextOverlay of
         None \<Rightarrow> Some (Inl NilDereference)
       | Some ov \<Rightarrow> Some (Inr (broadcastBridgeOverlay P
           (c\<lparr>gc_overlayEpoch := gc_overlayEpoch c + 1, gc_overlay := Some ov, gc_nextTraffic := m\<rparr>))))))"

section \<open>Transfers between shards\<close>

definition make_bridge_tx1 :: "bridge_env \<Rightarrow> Bridges \<Rightarrow> nat \<Rightarrow> BridgeType1Meg \<Rightarrow> Transaction" where
  "make_bridge_tx1 E b i m =
     (let ctx = gm_Tx (g1_RawMeg m) in
      (NewTransaction (ge_lib E) (tx_Sender ctx) (br_Addrs b ! nat (g1_ShardID m)) (tx_Value ctx) (tx_Nonce ctx) (ge_now E i))
        \<lparr>tx_HasBridge := True, tx_OriginalSender := tx_Sender ctx, tx_FinalRecipient := tx_Recipient ctx,
         tx_RawTxHash := tx_TxHash ctx, tx_BridgeRoute := gm_Route (g1_RawMeg m), tx_BridgeRouteIndex := 0,
         tx_BridgeOverlayEpoch := gm_BridgeOverlayEpoch (g1_RawMeg m)\<rparr>)"

fun bridge_tx1s :: "bridge_env \<Rightarrow> Bridges \<Rightarrow> nat \<Rightarrow> BridgeType1Meg list \<Rightarrow> Transaction list" where
  "bridge_tx1s E b i [] = []"
| "bridge_tx1s E b i (m # ms) =
     (if g1_ShardID m < 0 \<or> g1_ShardID m \<ge> int (length (br_Addrs b)) then bridge_tx1s E b i ms
      else make_bridge_tx1 E b i m # bridge_tx1s E b (i + 1) ms)"

definition handleBridgeType1Mes ::
  "bridge_env \<Rightarrow> BridgeType1Meg list \<Rightarrow> BridgeCommitteeMod \<Rightarrow> BridgeCommitteeMod res" where
  "handleBridgeType1Mes E ms c = bridge_txSending (ge_params E) (bridge_tx1s E (gc_bridges c) 0 ms) c"

definition handleBridgeRawMag ::
  "bridge_env \<Rightarrow> BridgeRawMeg list \<Rightarrow> BridgeCommitteeMod \<Rightarrow> BridgeCommitteeMod res" where
  "handleBridgeRawMag E megs c =
     handleBridgeType1Mes E (map (\<lambda>m. \<lparr>g1_RawMeg = m, g1_Hcurrent = 0, g1_ShardID = gm_ShardID m\<rparr>) megs)
       (c\<lparr>gc_rawCrossTxNum := gc_rawCrossTxNum c + int (length megs),
          gc_BridgeRawMegs := fold (\<lambda>m f. f(ge_digest E m \<mapsto> m)) megs (gc_BridgeRawMegs c)\<rparr>)"

definition raw_bridge_meg ::
  "u64 \<Rightarrow> u64 \<Rightarrow> Transaction \<Rightarrow> BridgeCommitteeMod \<Rightarrow> BridgeRawMeg" where
  "raw_bridge_meg sSID rSID tx c =
     \<lparr>gm_Tx = tx, gm_ShardID = sint sSID,
      gm_Route = (if gc_overlayEnabled c then committee_route sSID rSID c else [sSID, rSID]),
      gm_BridgeOverlayEpoch = (if gc_overlayEnabled c then gc_overlayEpoch c else 0)\<rparr>"

fun bridge_deal_loop ::
  "params \<Rightarrow> Transaction list \<Rightarrow> BridgeCommitteeMod \<Rightarrow> (Transaction list \<times> BridgeRawMeg list \<times> BridgeCommitteeMod) res" where
  "bridge_deal_loop P [] c = Inr ([], [], c)"
| "bridge_deal_loop P (tx # txs) c =
     bindR (place_by_addr P (tx_Recipient tx)) (\<lambda>rSID.
     bindR (place_by_addr P (tx_Sender tx)) (\<lambda>sSID.
       let rB = IsBridgeAccount (gc_bridges c) (tx_Recipient tx); sB = IsBridgeAccount (gc_bridges c) (tx_Sender tx)
       in if rSID \<noteq> sSID \<and> \<not> rB \<and> \<not> sB
          then bindR (if gc_overlayEnabled c then recordBridgeTraffic sSID rSID c else Inr c) (\<lambda>c1.
               bindR (bridge_deal_loop P txs c1) (\<lambda>(itxs, raws, c2).
                 Inr (itxs, raw_bridge_meg sSID rSID tx c # raws, c2)))
          else bindR (bridge_deal_loop P txs c) (\<lambda>(itxs, raws, c2).
                 Inr ((if rB \<or> sB then tx\<lparr>tx_HasBridge := True, tx_SenderIsBridge := sB\<rparr> else tx) # itxs, raws, c2))))"

definition dealTxByBridge ::
  "bridge_env \<Rightarrow> Transaction list \<Rightarrow> BridgeCommitteeMod \<Rightarrow> (Transaction list \<times> BridgeCommitteeMod) res" where
  "dealTxByBridge E txs c =
     bindR (bridge_deal_loop (ge_params E) txs c) (\<lambda>(itxs, raws, c1).
       if raws \<noteq> [] then bindR (handleBridgeRawMag E raws c1) (\<lambda>c2. Inr (itxs, c2)) else Inr (itxs, c1))"

section \<open>The committee\<close>

definition bridge_batch :: "bridge_env \<Rightarrow> Transaction list \<Rightarrow> BridgeCommitteeMod \<Rightarrow> BridgeCommitteeMod run" where
  "bridge_batch E txlist c =
     bindO (ret (bindR (dealTxByBridge E txlist c) (\<lambda>(itx, c1). bridge_txSending (ge_params E) itx c1))) (\<lambda>c2.
       let c3 = reset_gap c2 in
       if gc_overlayEnabled c3 \<and> co_nowDataNum c3 < co_dataTotalNum c3 then rotateBridgeOverlay (ge_params E) c3
       else Some (Inr c3))"

fun bridge_rows :: "bridge_env \<Rightarrow> csv \<Rightarrow> Transaction list \<Rightarrow> BridgeCommitteeMod \<Rightarrow> BridgeCommitteeMod run" where
  "bridge_rows E [] txlist c = Some (Inr c)"
| "bridge_rows E ((None, now) # rows) txlist c = Some (Inl (LogPanic ''csv''))"
| "bridge_rows E ((Some data, now) # rows) txlist c =
     bindO (ret (data2tx (ge_lib E) now data (of_int (co_nowDataNum c)))) (\<lambda>otx.
       case otx of
         None \<Rightarrow> bridge_rows E rows txlist c
       | Some tx \<Rightarrow>
           let txlist1 = txlist @ [tx];
               c1 = c\<lparr>co_nowDataNum := co_nowDataNum c + 1\<rparr>;
               full = (int (length txlist1) = co_batchDataNum c1 \<or> co_nowDataNum c1 = co_dataTotalNum c1)
           in bindO (if full then bridge_batch E txlist1 c1 else Some (Inr c1)) (\<lambda>c2.
                if co_nowDataNum c2 = co_dataTotalNum c2 then Some (Inr c2)
                else bridge_rows E rows (if full then [] else txlist1) c2))"

definition bridge_MsgSendingControl ::
  "bridge_env \<Rightarrow> csv option \<Rightarrow> BridgeCommitteeMod \<Rightarrow> BridgeCommitteeMod run" where
  "bridge_MsgSendingControl E txfile c =
     (case txfile of
        None \<Rightarrow> Some (Inl (LogPanic ''open''))
      | Some rows \<Rightarrow> bridge_rows E rows []
          (if gc_overlayEnabled c then broadcastBridgeOverlay (ge_params E) c else c))"

definition bridge_HandleBlockInfo :: "BlockInfoMsg \<Rightarrow> BridgeCommitteeMod \<Rightarrow> BridgeCommitteeMod" where
  "bridge_HandleBlockInfo b c =
     (if bi_BlockBodyLength b = 0 then c
      else c\<lparr>gc_normalCommitNum := gc_normalCommitNum c + int (length (bi_InnerShardTxs b)),
             gc_bridge1CommitNum := gc_bridge1CommitNum c + int (length (bi_Bridge1Txs b)),
             gc_bridge2CommitNum := gc_bridge2CommitNum c + int (length (bi_Bridge2Txs b))\<rparr>)"

definition bridge_ExecutionDrained :: "BridgeCommitteeMod \<Rightarrow> bool" where
  "bridge_ExecutionDrained c \<longleftrightarrow>
     gc_normalCommitNum c \<ge> max 0 (co_dataTotalNum c - gc_rawCrossTxNum c) \<and>
     gc_bridge1CommitNum c \<ge> gc_rawCrossTxNum c \<and> gc_bridge2CommitNum c \<ge> gc_rawCrossTxNum c"

end
