(* ===== verification/Bridge_Routes.thy ===== *)
theory Bridge_Routes
  imports Committee_Bridge
begin

text \<open>
  The routes the bridge committee gives to transfers: the overlay it keeps is always one whose
  routes are shortest paths between shards, whatever traffic has been seen and whichever way of
  building it is configured, and a transfer gets the route of the overlay in force.
\<close>

section \<open>Overlays the committee may get\<close>

lemma check_rows_refuses:
  assumes "\<exists>i \<in> set is. limits ! i < 2" and "n > 2"
  shows "\<exists>e. check_rows weights limits n is = Some e"
  using assms by (induction "is") auto

lemma binary_overlay_total:
  assumes "0 < n"
  shows "\<exists>ov. BuildBinaryTreeOverlay (int n) = Some (Inr (Inr ov)) \<and> overlay_ok n (ov_Edges ov) ov"
proof -
  have "connects n (binary_edges n)" by (rule connects_via [OF binary_to_root])
  then obtain ov where "newOverlay n (binary_edges n) = Some (Inr (Inr ov))" "overlay_ok n (binary_edges n) ov"
    using newOverlay_total [OF binary_edges_ok, of n] by auto
  then show ?thesis using assms by (auto simp: BuildBinaryTreeOverlay_def binary_edges_def overlay_ok_def)
qed

lemma BuildOverlayWithMode_answers:
  assumes sq: "square (length limits) weights" and n: "2 < length limits"
    and mode: "mode \<in> {OverlayBuildFull, OverlayBuildTreeOnly, OverlayBuildBinaryTree}"
  shows "(\<exists>e. BuildOverlayWithMode weights limits mode = Some (Inr (Inl e))) \<or>
    (\<exists>ov. BuildOverlayWithMode weights limits mode = Some (Inr (Inr ov)) \<and> overlay_ok (length limits) (ov_Edges ov) ov)"
proof (cases "mode = OverlayBuildBinaryTree")
  case True
  have "limits \<noteq> []" using n by auto
  then have "BuildOverlayWithMode weights limits mode = BuildBinaryTreeOverlay (int (length limits))"
    using True by (simp add: BuildOverlayWithMode_def Let_def)
  moreover have "0 < length limits" using n by linarith
  ultimately show ?thesis using binary_overlay_total by metis
next
  case False
  then have m: "mode = OverlayBuildFull \<or> mode = OverlayBuildTreeOnly" using mode by auto
  show ?thesis
  proof (cases "\<forall>l \<in> set limits. 2 \<le> l")
    case True
    moreover have "limits \<noteq> []" using n by auto
    ultimately show ?thesis using BuildOverlayWithMode_total [OF sq _ _ m] by (auto simp: grow_inv_def)
  next
    case small: False
    then obtain i where "i < length limits" "limits ! i < 2" by (auto simp: in_set_conv_nth not_le)
    then have "\<exists>i \<in> set [0..<length limits]. limits ! i < 2" by auto
    then obtain e where "check_rows weights limits (length limits) [0..<length limits] = Some e"
      using check_rows_refuses n by blast
    moreover have "length weights = length limits" using sq by (simp add: square_def)
    ultimately show ?thesis using False n by (auto simp: BuildOverlayWithMode_def Let_def)
  qed
qed

section \<open>The invariant of the committee\<close>

definition bridge_ok :: "params \<Rightarrow> BridgeCommitteeMod \<Rightarrow> bool" where
  "bridge_ok P c \<longleftrightarrow> gc_overlayEnabled c \<and> (\<exists>ov. gc_overlay c = Some ov \<and> overlay_ok (nat (ShardNum P)) (ov_Edges ov) ov) \<and>
     square (nat (ShardNum P)) (gc_nextTraffic c) \<and> length (gc_degreeLimits c) = nat (ShardNum P)"

lemma fold_send_frame:
  fixes c :: BridgeCommitteeMod
  shows "gc_overlay (fold (\<lambda>x. send_to (f x) m) xs c) = gc_overlay c"
    "gc_overlayEnabled (fold (\<lambda>x. send_to (f x) m) xs c) = gc_overlayEnabled c"
    "gc_nextTraffic (fold (\<lambda>x. send_to (f x) m) xs c) = gc_nextTraffic c"
    "gc_degreeLimits (fold (\<lambda>x. send_to (f x) m) xs c) = gc_degreeLimits c"
    "gc_overlayEpoch (fold (\<lambda>x. send_to (f x) m) xs c) = gc_overlayEpoch c"
  by (induction xs arbitrary: c) (simp_all add: send_to_def)

lemma broadcast_frame:
  "gc_overlay (broadcastBridgeOverlay P c) = gc_overlay c"
  "gc_overlayEnabled (broadcastBridgeOverlay P c) = gc_overlayEnabled c"
  "gc_nextTraffic (broadcastBridgeOverlay P c) = gc_nextTraffic c"
  "gc_degreeLimits (broadcastBridgeOverlay P c) = gc_degreeLimits c"
  "gc_overlayEpoch (broadcastBridgeOverlay P c) = gc_overlayEpoch c"
proof -
  have "gc_overlay (fold (\<lambda>s. fold (\<lambda>n. send_to (f s n) m) ns) ss d) = gc_overlay d \<and>
      gc_overlayEnabled (fold (\<lambda>s. fold (\<lambda>n. send_to (f s n) m) ns) ss d) = gc_overlayEnabled d \<and>
      gc_nextTraffic (fold (\<lambda>s. fold (\<lambda>n. send_to (f s n) m) ns) ss d) = gc_nextTraffic d \<and>
      gc_degreeLimits (fold (\<lambda>s. fold (\<lambda>n. send_to (f s n) m) ns) ss d) = gc_degreeLimits d \<and>
      gc_overlayEpoch (fold (\<lambda>s. fold (\<lambda>n. send_to (f s n) m) ns) ss d) = gc_overlayEpoch d"
    for f m and ns ss :: "u64 list" and d :: BridgeCommitteeMod
    by (induction ss arbitrary: d) (simp_all add: fold_send_frame)
  then show "gc_overlay (broadcastBridgeOverlay P c) = gc_overlay c"
    "gc_overlayEnabled (broadcastBridgeOverlay P c) = gc_overlayEnabled c"
    "gc_nextTraffic (broadcastBridgeOverlay P c) = gc_nextTraffic c"
    "gc_degreeLimits (broadcastBridgeOverlay P c) = gc_degreeLimits c"
    "gc_overlayEpoch (broadcastBridgeOverlay P c) = gc_overlayEpoch c"
    by (simp_all add: broadcastBridgeOverlay_def Let_def split: option.splits)
qed

lemma bridge_ok_broadcast [simp]: "bridge_ok P (broadcastBridgeOverlay Q c) = bridge_ok P c"
  by (simp add: bridge_ok_def broadcast_frame)

lemma fresh_traffic:
  "0 \<le> n \<Longrightarrow> makeBridgeTrafficMatrix n = Inr (replicate (nat n) (replicate (nat n) 0))"
  "square k (replicate k (replicate k (0 :: int)))"
  by (simp_all add: makeBridgeTrafficMatrix_def square_def)

lemma rotate_ok:
  assumes ok: "bridge_ok P c" and n: "2 < ShardNum P"
  shows "\<exists>c'. rotateBridgeOverlay P c = Some (Inr c') \<and> bridge_ok P c' \<and> gc_overlayEpoch c' = gc_overlayEpoch c + 1"
proof -
  let ?m = "replicate (nat (ShardNum P)) (replicate (nat (ShardNum P)) (0 :: int))"
  have len: "length (gc_degreeLimits c) = nat (ShardNum P)" and sq: "square (length (gc_degreeLimits c)) (gc_nextTraffic c)"
    using ok by (simp_all add: bridge_ok_def)
  have mode: "bridgeOverlayBuildMode P \<in> {OverlayBuildFull, OverlayBuildTreeOnly, OverlayBuildBinaryTree}"
    by (simp add: bridgeOverlayBuildMode_def)
  have step: "\<exists>c'. rotateBridgeOverlay P c = Some (Inr c') \<and> bridge_ok P c' \<and> gc_overlayEpoch c' = gc_overlayEpoch c + 1"
    if "BuildOverlayWithMode (gc_nextTraffic c) (gc_degreeLimits c) (bridgeOverlayBuildMode P) = Some (Inr r)"
      "(case r of Inr ov \<Rightarrow> Some (Inr (Some ov)) | Inl e \<Rightarrow> NewCompleteOverlay (nat (ShardNum P))) = Some (Inr (Some ov))"
      "overlay_ok (nat (ShardNum P)) (ov_Edges ov) ov" for r ov
  proof -
    let ?c = "c\<lparr>gc_overlayEpoch := gc_overlayEpoch c + 1, gc_overlay := Some ov, gc_nextTraffic := ?m\<rparr>"
    have "rotateBridgeOverlay P c = Some (Inr (broadcastBridgeOverlay P ?c))"
      using that(1,2) n by (simp add: rotateBridgeOverlay_def ret_def fresh_traffic)
    moreover have "bridge_ok P ?c" using ok that(3) by (simp add: bridge_ok_def fresh_traffic)
    ultimately show ?thesis by (simp add: broadcast_frame)
  qed
  obtain ov0 where ov0: "NewCompleteOverlay (nat (ShardNum P)) = Some (Inr (Some ov0))"
    "overlay_ok (nat (ShardNum P)) (ov_Edges ov0) ov0"
    using NewCompleteOverlay_direct by blast
  have "2 < length (gc_degreeLimits c)" using n len by linarith
  from BuildOverlayWithMode_answers [OF sq this mode] show ?thesis
  proof (elim disjE exE conjE)
    fix e assume "BuildOverlayWithMode (gc_nextTraffic c) (gc_degreeLimits c) (bridgeOverlayBuildMode P) = Some (Inr (Inl e))"
    then show ?thesis using step [of "Inl e" ov0] ov0 by simp
  next
    fix ov assume "BuildOverlayWithMode (gc_nextTraffic c) (gc_degreeLimits c) (bridgeOverlayBuildMode P) = Some (Inr (Inr ov))"
      "overlay_ok (length (gc_degreeLimits c)) (ov_Edges ov) ov"
    then show ?thesis using step [of "Inr ov" ov] len by simp
  qed
qed

section \<open>Starting\<close>

lemma degree_limits_total:
  assumes "Intn_laws E" and "1 \<le> snd (degree_bounds (ge_params E))"
  shows "\<exists>ls. degree_limits E sids = Inr ls \<and> length ls = length sids \<and>
    (\<forall>l \<in> set ls. fst (degree_bounds (ge_params E)) \<le> l \<and> l \<le> snd (degree_bounds (ge_params E)))"
proof (induction sids)
  case Nil
  then show ?case by simp
next
  case (Cons sid sids)
  let ?b = "degree_bounds (ge_params E)"
  have le: "fst ?b \<le> snd ?b" using assms(2) by (auto simp: degree_bounds_def Let_def)
  have "\<exists>l. degree_limit E sid = Inr l \<and> fst ?b \<le> l \<and> l \<le> snd ?b"
  proof (cases "snd ?b = fst ?b")
    case False
    then have "0 < snd ?b - fst ?b + 1" using le by simp
    then have "0 \<le> ge_Intn E sid (snd ?b - fst ?b + 1) \<and> ge_Intn E sid (snd ?b - fst ?b + 1) < snd ?b - fst ?b + 1"
      using assms(1) unfolding Intn_laws_def by blast
    then show ?thesis using False le by (simp add: degree_limit_def split_def Let_def)
  qed (simp add: degree_limit_def split_def Let_def)
  then show ?case using Cons by auto
qed

lemma new_committee_ok:
  assumes "Intn_laws E" and "2 < ShardNum (ge_params E)" and "1 \<le> BridgeOverlayMaxDegree (ge_params E)"
    and "BridgeOverlayEnabled (ge_params E) \<noteq> 0"
  shows "\<exists>c. NewBridgeCommitteeMod E tbl Ss dataNum batchNum = Some (Inr c) \<and> bridge_ok (ge_params E) c"
proof -
  let ?n = "nat (ShardNum (ge_params E))"
  have "1 \<le> snd (degree_bounds (ge_params E))" using assms(2,3) by (simp add: degree_bounds_def Let_def)
  then obtain ls where ls: "degree_limits E [0..<?n] = Inr ls" "length ls = ?n"
    using degree_limits_total [OF assms(1), of "[0..<?n]"] by auto
  obtain ov where ov: "NewCompleteOverlay ?n = Some (Inr (Some ov))" "overlay_ok ?n (ov_Edges ov) ov"
    using NewCompleteOverlay_direct by blast
  show ?thesis
    using assms(2,4) ls ov
    by (simp add: NewBridgeCommitteeMod_def initBridgeOverlay_def Let_def ret_def fresh_traffic bridge_ok_def)
qed

section \<open>Routes of transfers\<close>

lemma bump_square:
  assumes "square n m" and "unat i < n" and "unat j < n"
  shows "\<exists>m'. bump i j m = Inr m' \<and> square n m'"
  using assms by (auto simp: bump_def idx2_square square_def nth_list_update)

lemma record_ok:
  assumes ok: "bridge_ok P c" and "unat s < nat (ShardNum P)" "unat r < nat (ShardNum P)"
  shows "\<exists>c'. recordBridgeTraffic s r c = Inr c' \<and> bridge_ok P c' \<and> gc_overlay c' = gc_overlay c \<and>
    gc_bridges c' = gc_bridges c \<and> gc_overlayEpoch c' = gc_overlayEpoch c"
proof -
  have sq: "square (nat (ShardNum P)) (gc_nextTraffic c)" using ok by (simp add: bridge_ok_def)
  obtain m where m: "bump s r (gc_nextTraffic c) = Inr m" "square (nat (ShardNum P)) m"
    using bump_square [OF sq assms(2,3)] by blast
  obtain m' where m': "bump r s m = Inr m'" "square (nat (ShardNum P)) m'"
    using bump_square [OF m(2) assms(3,2)] by blast
  show ?thesis using ok m m' by (auto simp: recordBridgeTraffic_def bridge_ok_def)
qed

definition overlay_route :: "Overlay option \<Rightarrow> u64 \<Rightarrow> u64 \<Rightarrow> u64 list \<Rightarrow> bool" where
  "overlay_route ov s r route \<longleftrightarrow>
     (\<exists>o' p. ov = Some o' \<and> route = map of_nat p \<and> path_ok (ov_Edges o') (unat s) (unat r) p \<and>
        (\<forall>q. path_ok (ov_Edges o') (unat s) (unat r) q \<longrightarrow> length route \<le> length q))"

lemma committee_route_ok:
  assumes "bridge_ok P c" and "unat s < nat (ShardNum P)" "unat r < nat (ShardNum P)"
  shows "overlay_route (gc_overlay c) s r (committee_route s r c)"
proof -
  obtain ov where ov: "gc_overlay c = Some ov" "overlay_ok (nat (ShardNum P)) (ov_Edges ov) ov"
    using assms(1) by (auto simp: bridge_ok_def)
  then have p: "path_ok (ov_Edges ov) (unat s) (unat r) (Route (Some ov) (unat s) (unat r))"
    "\<forall>q. path_ok (ov_Edges ov) (unat s) (unat r) q \<longrightarrow> length (Route (Some ov) (unat s) (unat r)) \<le> length q"
    using assms(2,3) by (auto simp: overlay_ok_def)
  then have "Route (Some ov) (unat s) (unat r) \<noteq> []" by (simp add: path_ok_def)
  then show ?thesis using ov(1) p by (auto simp: overlay_route_def committee_route_def Let_def)
qed

definition is_cross :: "params \<Rightarrow> Bridges \<Rightarrow> Transaction \<Rightarrow> bool" where
  "is_cross P b tx \<longleftrightarrow> place_by_addr P (tx_Sender tx) \<noteq> place_by_addr P (tx_Recipient tx) \<and>
     \<not> IsBridgeAccount b (tx_Sender tx) \<and> \<not> IsBridgeAccount b (tx_Recipient tx)"

lemma place_in_range:
  assumes "place_by_addr P a = Inr s" and "0 < ShardNum P" and "ShardNum P < 2 ^ 63"
  shows "unat s < nat (ShardNum P)"
proof -
  obtain k where k: "Addr2Shard (ShardNum P) a = Inr k" "s = of_int k"
    using assms(1) by (auto simp: place_by_addr_def bindR_Inr_iff)
  have b: "0 \<le> k" "k < ShardNum P" using Addr2Shard_bounds [OF assms(2) k(1)] by auto
  then have "uint s = k" using assms(3) k(2) by (simp add: uint_word_of_int_eq take_bit_int_eq_self)
  then show ?thesis using b by (simp add: unat_eq_nat_uint nat_less_iff)
qed

lemma bridge_deal_ok:
  assumes "bridge_ok P c" and n: "0 < ShardNum P" "ShardNum P < 2 ^ 63"
    and "\<forall>tx \<in> set txs. (\<exists>s. place_by_addr P (tx_Sender tx) = Inr s) \<and> (\<exists>r. place_by_addr P (tx_Recipient tx) = Inr r)"
  shows "\<exists>itxs raws c'. bridge_deal_loop P txs c = Inr (itxs, raws, c') \<and> bridge_ok P c' \<and>
    map gm_Tx raws = filter (is_cross P (gc_bridges c)) txs \<and>
    length itxs = length (filter (\<lambda>tx. \<not> is_cross P (gc_bridges c) tx) txs) \<and>
    (\<forall>m \<in> set raws. \<exists>s r. place_by_addr P (tx_Sender (gm_Tx m)) = Inr s \<and> place_by_addr P (tx_Recipient (gm_Tx m)) = Inr r \<and>
       gm_ShardID m = sint s \<and> overlay_route (gc_overlay c) s r (gm_Route m) \<and> gm_BridgeOverlayEpoch m = gc_overlayEpoch c)"
  using assms(1,4)
proof (induction txs arbitrary: c)
  case Nil
  then show ?case by simp
next
  case (Cons tx txs)
  obtain s r where sr: "place_by_addr P (tx_Sender tx) = Inr s" "place_by_addr P (tx_Recipient tx) = Inr r"
    using Cons.prems(2) by auto
  have rest: "\<forall>tx \<in> set txs. (\<exists>s. place_by_addr P (tx_Sender tx) = Inr s) \<and> (\<exists>r. place_by_addr P (tx_Recipient tx) = Inr r)"
    using Cons.prems(2) by simp
  show ?case
  proof (cases "is_cross P (gc_bridges c) tx")
    case False
    then have "\<not> (r \<noteq> s \<and> \<not> IsBridgeAccount (gc_bridges c) (tx_Recipient tx) \<and> \<not> IsBridgeAccount (gc_bridges c) (tx_Sender tx))"
      using sr by (auto simp: is_cross_def)
    then show ?thesis using Cons.IH [OF Cons.prems(1) rest] sr False by (auto simp: Let_def)
  next
    case True
    have range: "unat s < nat (ShardNum P)" "unat r < nat (ShardNum P)" using place_in_range sr n by auto
    obtain c1 where c1: "recordBridgeTraffic s r c = Inr c1" "bridge_ok P c1" "gc_overlay c1 = gc_overlay c"
      "gc_bridges c1 = gc_bridges c" "gc_overlayEpoch c1 = gc_overlayEpoch c"
      using record_ok [OF Cons.prems(1) range] by blast
    have on: "gc_overlayEnabled c" using Cons.prems(1) by (simp add: bridge_ok_def)
    have "r \<noteq> s" using True sr by (auto simp: is_cross_def)
    then have "bridge_deal_loop P (tx # txs) c = bindR (bridge_deal_loop P txs c1) (\<lambda>(itxs, raws, c2).
        Inr (itxs, raw_bridge_meg s r tx c # raws, c2))"
      using True sr c1(1) on by (simp add: is_cross_def Let_def)
    moreover have "overlay_route (gc_overlay c) s r (gm_Route (raw_bridge_meg s r tx c))"
      using committee_route_ok [OF Cons.prems(1) range] on by (simp add: raw_bridge_meg_def)
    moreover have "gm_Tx (raw_bridge_meg s r tx c) = tx" "gm_ShardID (raw_bridge_meg s r tx c) = sint s"
      "gm_BridgeOverlayEpoch (raw_bridge_meg s r tx c) = gc_overlayEpoch c"
      using on by (simp_all add: raw_bridge_meg_def)
    ultimately show ?thesis using Cons.IH [OF c1(2) rest] sr c1(3-5) True by auto
  qed
qed

section \<open>Properties\<close>

text \<open>
  (C25) The overlay in force. With more than two shards and the overlay enabled, the committee starts
  with a valid overlay, and from every state with a valid overlay \<open>rotateBridgeOverlay\<close> returns a
  state with a valid overlay and the next epoch, for any recorded traffic, degree limits and build
  mode; where no overlay can be built within the limits it is the complete one. Valid means that
  the routes are shortest paths along the overlay's edges between all pairs of shards.
\<close>

theorem bridge_overlay_always_valid:
  assumes "2 < ShardNum (ge_params E)" and "Intn_laws E" and "1 \<le> BridgeOverlayMaxDegree (ge_params E)"
    and "BridgeOverlayEnabled (ge_params E) \<noteq> 0"
  shows "(\<exists>c. NewBridgeCommitteeMod E tbl Ss dataNum batchNum = Some (Inr c) \<and> bridge_ok (ge_params E) c) \<and>
    (\<forall>c. bridge_ok (ge_params E) c \<longrightarrow>
      (\<exists>c'. rotateBridgeOverlay (ge_params E) c = Some (Inr c') \<and> bridge_ok (ge_params E) c' \<and>
         gc_overlayEpoch c' = gc_overlayEpoch c + 1))"
  using new_committee_ok [OF assms(2,1,3,4)] rotate_ok [OF _ assms(1)] by blast

text \<open>
  (C26) Routes of transfers. With a valid overlay and parsable addresses, dealing with a batch
  separates exactly the transfers between different shards without bridge accounts at either end,
  and gives each of them a shortest route along the overlay from the shard of its sender to the
  shard of its recipient, with the epoch of that overlay; the overlay stays valid.
\<close>

theorem bridge_routes_follow_the_overlay:
  assumes "bridge_ok P c" and "0 < ShardNum P" and "ShardNum P < 2 ^ 63"
    and "\<forall>tx \<in> set txs. (\<exists>s. place_by_addr P (tx_Sender tx) = Inr s) \<and> (\<exists>r. place_by_addr P (tx_Recipient tx) = Inr r)"
  shows "\<exists>itxs raws c'. bridge_deal_loop P txs c = Inr (itxs, raws, c') \<and> bridge_ok P c' \<and>
    map gm_Tx raws = filter (is_cross P (gc_bridges c)) txs \<and>
    length itxs = length (filter (\<lambda>tx. \<not> is_cross P (gc_bridges c) tx) txs) \<and>
    (\<forall>m \<in> set raws. \<exists>s r. place_by_addr P (tx_Sender (gm_Tx m)) = Inr s \<and> place_by_addr P (tx_Recipient (gm_Tx m)) = Inr r \<and>
       gm_ShardID m = sint s \<and> overlay_route (gc_overlay c) s r (gm_Route m) \<and> gm_BridgeOverlayEpoch m = gc_overlayEpoch c)"
  by (rule bridge_deal_ok [OF assms])

text \<open>Four shards, with a limit of two to three neighbours.\<close>

definition demo_bridge_env :: bridge_env where
  "demo_bridge_env = \<lparr>ge_lib = demo_lib,
     ge_params = defaultParams\<lparr>ShardNum := 4, BridgeOverlayEnabled := 1\<rparr>, ge_digest = (\<lambda>m. []),
     ge_now = (\<lambda>i. 0), ge_Intn = (\<lambda>i n. 0)\<rparr>"

lemma demo_bridge_env:
  "ShardNum (ge_params demo_bridge_env) = 4" "BridgeOverlayEnabled (ge_params demo_bridge_env) = 1"
  "BridgeOverlayMaxDegree (ge_params demo_bridge_env) = 10" "Intn_laws demo_bridge_env"
  by (simp_all add: demo_bridge_env_def defaultParams_def Intn_laws_def)

theorem bridge_overlay_always_valid_witness:
  "\<exists>c c'. NewBridgeCommitteeMod demo_bridge_env (\<lambda>sid. []) (NewStopSignal 12) 10 5 = Some (Inr c) \<and>
     rotateBridgeOverlay (ge_params demo_bridge_env) c = Some (Inr c') \<and> bridge_ok (ge_params demo_bridge_env) c' \<and>
     gc_overlayEpoch c' = gc_overlayEpoch c + 1"
  using bridge_overlay_always_valid [of demo_bridge_env "\<lambda>sid. []" "NewStopSignal 12" 10 5] demo_bridge_env
  by simp blast

theorem bridge_routes_follow_the_overlay_witness:
  "\<exists>c itxs m c' s r. NewBridgeCommitteeMod demo_bridge_env (\<lambda>sid. []) (NewStopSignal 12) 10 5 = Some (Inr c) \<and>
     bridge_deal_loop (ge_params demo_bridge_env) [NewTransaction demo_lib ''0000000000000002'' ''0000000000000011'' 17 0 1] c =
       Inr (itxs, [m], c') \<and> overlay_route (gc_overlay c) s r (gm_Route m)"
proof -
  let ?P = "ge_params demo_bridge_env" and ?tx = "NewTransaction demo_lib ''0000000000000002'' ''0000000000000011'' 17 0 1"
  obtain c where c: "NewBridgeCommitteeMod demo_bridge_env (\<lambda>sid. []) (NewStopSignal 12) 10 5 = Some (Inr c)" "bridge_ok ?P c"
    using new_committee_ok [of demo_bridge_env] demo_bridge_env by fastforce
  have addrs: "br_Addrs (gc_bridges c) = NewBridgeAddresses 4"
    using c(1) demo_bridge_env
    by (auto simp: NewBridgeCommitteeMod_def initBridgeOverlay_def bindO_Inr_iff NewBridges_def Let_def)
  have places: "place_by_addr ?P ''0000000000000002'' = Inr 2" "place_by_addr ?P ''0000000000000011'' = Inr 1"
    using demo_bridge_env by (simp_all add: place_by_addr_def Addr2Shard_eq last8_def hexval_def)
  have "length a = 40" if a: "a \<in> set (NewBridgeAddresses 4)" for a
  proof -
    obtain sid where sid: "sid < 4" "a = pad40 (hex_digits sid)" using a by (auto simp: NewBridgeAddresses_def)
    then have "length (hex_digits sid) \<le> 1" by (intro length_hex_digits) auto
    then show ?thesis using sid(2) by (simp add: pad40_def)
  qed
  then have "\<not> IsBridgeAccount (gc_bridges c) a" if "length a = 16" for a
  proof -
    have "is_bridge_in as a \<Longrightarrow> a \<in> set as" for as by (induction as) (auto split: if_splits)
    then show ?thesis using that addrs \<open>\<And>a. a \<in> set (NewBridgeAddresses 4) \<Longrightarrow> length a = 40\<close>
      by (fastforce simp: IsBridgeAccount_def)
  qed
  then have x: "is_cross ?P (gc_bridges c) ?tx" using places by (simp add: is_cross_def)
  obtain itxs raws c' where d: "bridge_deal_loop ?P [?tx] c = Inr (itxs, raws, c')" "map gm_Tx raws = [?tx]"
    "\<forall>m \<in> set raws. \<exists>s r. overlay_route (gc_overlay c) s r (gm_Route m)"
    using bridge_routes_follow_the_overlay [OF c(2), of "[?tx]"] places x demo_bridge_env
    by (fastforce simp del: bridge_deal_loop.simps)
  then obtain m where "raws = [m]" by auto
  then show ?thesis using c(1) d by auto
qed

end
