(* ===== verification/Committee_Broker.thy ===== *)
theory Committee_Broker
  imports Committee
begin

text \<open>
  The broker committee (\<open>broker/broker.go\<close>, \<open>supervisor/committee/committee_broker.go\<close>). A transfer
  between two shards is replaced by a transfer from the sender to the broker and, once a shard has
  reported that one, a transfer from the broker to the recipient.

  The operations are written over the part of the state that this committee and the one with
  account partition share; where the two differ (the placement of an address, the counters) they
  take the difference as a record of operations.
\<close>

section \<open>Messages and brokers\<close>

record BrokerRawMeg =
  rm_Tx :: Transaction
  rm_Broker :: Address
  rm_Hlock :: u64
  rm_Snonce :: u64
  rm_Bnonce :: u64
  rm_Signature :: bytes

record BrokerType1Meg =
  t1_RawMeg :: BrokerRawMeg
  t1_Hcurrent :: u64
  t1_Broker :: Address

record Mag1Confirm =
  c1_Tx1Hash :: bytes
  c1_RawMeg :: BrokerRawMeg

record BrokerType2Meg =
  t2_RawMeg :: BrokerRawMeg
  t2_Broker :: Address

record Mag2Confirm =
  c2_Tx2Hash :: bytes
  c2_RawMeg :: BrokerRawMeg

record Broker =
  bk_BrokerRawMegs :: "bytes \<rightharpoonup> BrokerRawMeg"
  bk_BrokerAddress :: "Address list"
  bk_RawTx2BrokerTx :: "bytes \<Rightarrow> bytes list"

text \<open>The addresses are the first lines of a file; a file that cannot be opened has none.\<close>

fun initBrokerAddr :: "int \<Rightarrow> string list \<Rightarrow> Address list" where
  "initBrokerAddr num [] = []"
| "initBrokerAddr num (l # ls) = l # (if num - 1 = 0 then [] else initBrokerAddr (num - 1) ls)"

definition NewBroker :: "params \<Rightarrow> string list \<Rightarrow> Broker" where
  "NewBroker P addr_file =
     \<lparr>bk_BrokerRawMegs = Map.empty, bk_BrokerAddress = initBrokerAddr (BrokerNum P) addr_file,
      bk_RawTx2BrokerTx = (\<lambda>_. [])\<rparr>"

definition IsBroker :: "Broker \<Rightarrow> Address \<Rightarrow> bool" where
  "IsBroker b address \<longleftrightarrow> address \<in> set (bk_BrokerAddress b)"

definition first_broker :: "Broker \<Rightarrow> Address res" where
  "first_broker b = (case bk_BrokerAddress b of [] \<Rightarrow> Inl IndexOutOfRange | a # _ \<Rightarrow> Inr a)"

section \<open>State\<close>

record BrokerCore = Committee +
  bc_broker :: Broker
  bc_brokerConfirm1Pool :: "bytes \<rightharpoonup> Mag1Confirm"
  bc_brokerConfirm2Pool :: "bytes \<rightharpoonup> Mag2Confirm"
  bc_brokerTxPool :: "Transaction list"

record BrokerCommitteeMod = BrokerCore +
  bc_rawCrossTxNum :: int
  bc_normalCommitNum :: int
  bc_broker1CommitNum :: int
  bc_broker2CommitNum :: int

record 'c broker_hooks =
  bo_fetchModifiedMap :: "'c \<Rightarrow> Address \<Rightarrow> u64 res"
  bo_raw :: "nat \<Rightarrow> 'c \<Rightarrow> 'c"
  bo_tx1 :: "'c \<Rightarrow> 'c"
  bo_tx2 :: "'c \<Rightarrow> 'c"

text \<open>What the operations need besides: the library, the digest of a raw message, a clock.\<close>

record broker_env =
  be_lib :: lib
  be_params :: params
  be_digest :: "BrokerRawMeg \<Rightarrow> bytes"  \<comment> \<open>\<open>getBrokerRawMagDigest\<close>: \<open>sha256\<close> of the JSON text\<close>
  be_now :: "nat \<Rightarrow> time"  \<comment> \<open>the time at which the \<open>i\<close>-th transaction of a call is made\<close>

section \<open>Sending\<close>

definition broker_place ::
  "('z BrokerCore_scheme) broker_hooks \<Rightarrow> 'z BrokerCore_scheme \<Rightarrow> Transaction \<Rightarrow> u64 res" where
  "broker_place ops c tx =
     bindR (bo_fetchModifiedMap ops c (tx_Sender tx)) (\<lambda>sendersid.
       if IsBroker (bc_broker c) (tx_Sender tx) then bo_fetchModifiedMap ops c (tx_Recipient tx)
       else Inr sendersid)"

definition broker_txSending ::
  "('z BrokerCore_scheme) broker_hooks \<Rightarrow> broker_env \<Rightarrow> Transaction list \<Rightarrow> 'z BrokerCore_scheme \<Rightarrow>
     'z BrokerCore_scheme res" where
  "broker_txSending ops E txlist c =
     send_loop (InjectSpeed (be_params E)) (broker_place ops c) (inject_leaders (be_params E)) 0 txlist (\<lambda>_. []) c"

section \<open>First half: from the sender to the broker\<close>

definition broker_tx :: "lib \<Rightarrow> Address \<Rightarrow> Address \<Rightarrow> Transaction \<Rightarrow> time \<Rightarrow> Transaction" where
  "broker_tx L sender recipient ctx now =
     (NewTransaction L sender recipient (tx_Value ctx) (tx_Nonce ctx) now)
       \<lparr>tx_OriginalSender := tx_Sender ctx, tx_FinalRecipient := tx_Recipient ctx, tx_RawTxHash := tx_TxHash ctx\<rparr>"

definition make_tx1 :: "broker_env \<Rightarrow> nat \<Rightarrow> BrokerType1Meg \<Rightarrow> Transaction" where
  "make_tx1 E i m = broker_tx (be_lib E) (tx_Sender (rm_Tx (t1_RawMeg m))) (t1_Broker m) (rm_Tx (t1_RawMeg m)) (be_now E i)"

fun type1_loop ::
  "broker_env \<Rightarrow> nat \<Rightarrow> BrokerType1Meg list \<Rightarrow> 'z BrokerCore_scheme \<Rightarrow> Transaction list \<times> 'z BrokerCore_scheme" where
  "type1_loop E i [] c = ([], c)"
| "type1_loop E i (m # ms) c =
     (let tx1 = make_tx1 E i m;
          c1 = c\<lparr>bc_brokerConfirm1Pool :=
                  (bc_brokerConfirm1Pool c)(tx_TxHash tx1 \<mapsto> \<lparr>c1_Tx1Hash = tx_TxHash tx1, c1_RawMeg = t1_RawMeg m\<rparr>)\<rparr>;
          (tx1s, c2) = type1_loop E (i + 1) ms c1
      in (tx1 # tx1s, c2))"

definition handleBrokerType1Mes ::
  "('z BrokerCore_scheme) broker_hooks \<Rightarrow> broker_env \<Rightarrow> BrokerType1Meg list \<Rightarrow> 'z BrokerCore_scheme \<Rightarrow>
     'z BrokerCore_scheme res" where
  "handleBrokerType1Mes ops E ms c =
     (let (tx1s, c1) = type1_loop E 0 ms c in broker_txSending ops E tx1s c1)"

definition handleBrokerRawMag ::
  "('z BrokerCore_scheme) broker_hooks \<Rightarrow> broker_env \<Rightarrow> BrokerRawMeg list \<Rightarrow> 'z BrokerCore_scheme \<Rightarrow>
     'z BrokerCore_scheme res" where
  "handleBrokerRawMag ops E megs c =
     (let c1 = bo_raw ops (length megs) c;
          b = (bc_broker c1)\<lparr>bk_BrokerRawMegs := fold (\<lambda>m f. f(be_digest E m \<mapsto> m)) megs (bk_BrokerRawMegs (bc_broker c1))\<rparr>
      in handleBrokerType1Mes ops E (map (\<lambda>m. \<lparr>t1_RawMeg = m, t1_Hcurrent = 0, t1_Broker = rm_Broker m\<rparr>) megs)
           (c1\<lparr>bc_broker := b\<rparr>))"

text \<open>The transactions to send as they are, and the raw messages of the others.\<close>

fun deal_loop ::
  "('z BrokerCore_scheme) broker_hooks \<Rightarrow> 'z BrokerCore_scheme \<Rightarrow> Transaction list \<Rightarrow>
     (Transaction list \<times> BrokerRawMeg list) res" where
  "deal_loop ops c [] = Inr ([], [])"
| "deal_loop ops c (tx # txs) =
     bindR (bo_fetchModifiedMap ops c (tx_Recipient tx)) (\<lambda>rSid.
     bindR (bo_fetchModifiedMap ops c (tx_Sender tx)) (\<lambda>sSid.
       let rB = IsBroker (bc_broker c) (tx_Recipient tx); sB = IsBroker (bc_broker c) (tx_Sender tx)
       in if rSid \<noteq> sSid \<and> \<not> rB \<and> \<not> sB
          then bindR (first_broker (bc_broker c)) (\<lambda>a.
               bindR (deal_loop ops c txs) (\<lambda>(itxs, raws).
                 Inr (itxs, \<lparr>rm_Tx = tx, rm_Broker = a, rm_Hlock = 0, rm_Snonce = 0, rm_Bnonce = 0, rm_Signature = []\<rparr> # raws)))
          else bindR (deal_loop ops c txs) (\<lambda>(itxs, raws).
                 Inr ((if rB \<or> sB then tx\<lparr>tx_HasBroker := True, tx_SenderIsBroker := sB\<rparr> else tx) # itxs, raws))))"

definition dealTxByBroker ::
  "('z BrokerCore_scheme) broker_hooks \<Rightarrow> broker_env \<Rightarrow> Transaction list \<Rightarrow> 'z BrokerCore_scheme \<Rightarrow>
     (Transaction list \<times> 'z BrokerCore_scheme) res" where
  "dealTxByBroker ops E txs c =
     bindR (deal_loop ops c txs) (\<lambda>(itxs, raws).
       if raws \<noteq> [] then bindR (handleBrokerRawMag ops E raws c) (\<lambda>c1. Inr (itxs, c1)) else Inr (itxs, c))"

section \<open>Second half: from the broker to the recipient\<close>

definition make_tx2 :: "broker_env \<Rightarrow> nat \<Rightarrow> BrokerType2Meg \<Rightarrow> Transaction" where
  "make_tx2 E i m = broker_tx (be_lib E) (t2_Broker m) (tx_Recipient (rm_Tx (t2_RawMeg m))) (rm_Tx (t2_RawMeg m)) (be_now E i)"

fun type2_loop ::
  "broker_env \<Rightarrow> nat \<Rightarrow> BrokerType2Meg list \<Rightarrow> 'z BrokerCore_scheme \<Rightarrow> Transaction list \<times> 'z BrokerCore_scheme" where
  "type2_loop E i [] c = ([], c)"
| "type2_loop E i (m # ms) c =
     (let tx2 = make_tx2 E i m;
          c1 = c\<lparr>bc_brokerConfirm2Pool :=
                  (bc_brokerConfirm2Pool c)(tx_TxHash tx2 \<mapsto> \<lparr>c2_Tx2Hash = tx_TxHash tx2, c2_RawMeg = t2_RawMeg m\<rparr>)\<rparr>;
          (tx2s, c2) = type2_loop E (i + 1) ms c1
      in (tx2 # tx2s, c2))"

definition handleBrokerType2Mes ::
  "('z BrokerCore_scheme) broker_hooks \<Rightarrow> broker_env \<Rightarrow> BrokerType2Meg list \<Rightarrow> 'z BrokerCore_scheme \<Rightarrow>
     'z BrokerCore_scheme res" where
  "handleBrokerType2Mes ops E ms c =
     (let (tx2s, c1) = type2_loop E 0 ms c in broker_txSending ops E tx2s c1)"

definition record_broker_tx :: "bytes \<Rightarrow> bytes \<Rightarrow> 'z BrokerCore_scheme \<Rightarrow> 'z BrokerCore_scheme" where
  "record_broker_tx raw h c =
     c\<lparr>bc_broker := (bc_broker c)\<lparr>bk_RawTx2BrokerTx :=
        (bk_RawTx2BrokerTx (bc_broker c))(raw := bk_RawTx2BrokerTx (bc_broker c) raw @ [h])\<rparr>\<rparr>"

fun confirm1_loop ::
  "('z BrokerCore_scheme) broker_hooks \<Rightarrow> broker_env \<Rightarrow> Mag1Confirm list \<Rightarrow> 'z BrokerCore_scheme \<Rightarrow>
     (BrokerType2Meg list \<times> 'z BrokerCore_scheme) res" where
  "confirm1_loop ops E [] c = Inr ([], c)"
| "confirm1_loop ops E (m # ms) c =
     (case bk_BrokerRawMegs (bc_broker c) (be_digest E (c1_RawMeg m)) of
        None \<Rightarrow> confirm1_loop ops E ms c
      | Some _ \<Rightarrow>
          let c1 = bo_tx1 ops (record_broker_tx (tx_TxHash (rm_Tx (c1_RawMeg m))) (c1_Tx1Hash m) c)
          in bindR (first_broker (bc_broker c1)) (\<lambda>a.
             bindR (confirm1_loop ops E ms c1) (\<lambda>(t2s, c2).
               Inr (\<lparr>t2_RawMeg = c1_RawMeg m, t2_Broker = a\<rparr> # t2s, c2))))"

definition handleTx1ConfirmMag ::
  "('z BrokerCore_scheme) broker_hooks \<Rightarrow> broker_env \<Rightarrow> Mag1Confirm list \<Rightarrow> 'z BrokerCore_scheme \<Rightarrow>
     'z BrokerCore_scheme res" where
  "handleTx1ConfirmMag ops E ms c =
     bindR (confirm1_loop ops E ms c) (\<lambda>(t2s, c1). handleBrokerType2Mes ops E t2s c1)"

definition confirm2 ::
  "('z BrokerCore_scheme) broker_hooks \<Rightarrow> Mag2Confirm \<Rightarrow> 'z BrokerCore_scheme \<Rightarrow> 'z BrokerCore_scheme" where
  "confirm2 ops m c =
     (let raw = tx_TxHash (rm_Tx (c2_RawMeg m));
          c1 = record_broker_tx raw (c2_Tx2Hash m) c
      in if length (bk_RawTx2BrokerTx (bc_broker c1) raw) = 2 then bo_tx2 ops c1 else c1)"

definition handleTx2ConfirmMag ::
  "('z BrokerCore_scheme) broker_hooks \<Rightarrow> Mag2Confirm list \<Rightarrow> 'z BrokerCore_scheme \<Rightarrow> 'z BrokerCore_scheme" where
  "handleTx2ConfirmMag ops ms c = fold (confirm2 ops) ms c"

definition createConfirm ::
  "('z BrokerCore_scheme) broker_hooks \<Rightarrow> broker_env \<Rightarrow> Transaction list \<Rightarrow> 'z BrokerCore_scheme \<Rightarrow>
     'z BrokerCore_scheme res" where
  "createConfirm ops E txs c =
     (let confirm1s = List.map_filter (\<lambda>tx. bc_brokerConfirm1Pool c (tx_TxHash tx)) txs;
          confirm2s = List.map_filter (\<lambda>tx. bc_brokerConfirm2Pool c (tx_TxHash tx)) txs
      in bindR (if confirm1s \<noteq> [] then handleTx1ConfirmMag ops E confirm1s c else Inr c) (\<lambda>c1.
           Inr (if confirm2s \<noteq> [] then handleTx2ConfirmMag ops confirm2s c1 else c1)))"

section \<open>The committee\<close>

definition broker_mod_ops :: "params \<Rightarrow> BrokerCommitteeMod broker_hooks" where
  "broker_mod_ops P =
     \<lparr>bo_fetchModifiedMap = (\<lambda>c key. place_by_addr P key),
      bo_raw = (\<lambda>n c. c\<lparr>bc_rawCrossTxNum := bc_rawCrossTxNum c + int n\<rparr>),
      bo_tx1 = (\<lambda>c. c\<lparr>bc_broker1CommitNum := bc_broker1CommitNum c + 1\<rparr>),
      bo_tx2 = (\<lambda>c. c\<lparr>bc_broker2CommitNum := bc_broker2CommitNum c + 1\<rparr>)\<rparr>"

definition NewBrokerCommitteeMod ::
  "params \<Rightarrow> string list \<Rightarrow> ip_table \<Rightarrow> StopSignal \<Rightarrow> int \<Rightarrow> int \<Rightarrow> BrokerCommitteeMod" where
  "NewBrokerCommitteeMod P addr_file tbl Ss dataNum batchNum =
     \<lparr>co_dataTotalNum = dataNum, co_nowDataNum = 0, co_batchDataNum = batchNum, co_IpNodeTable = tbl,
      co_Ss = Ss, co_out = [], bc_broker = NewBroker P addr_file, bc_brokerConfirm1Pool = Map.empty,
      bc_brokerConfirm2Pool = Map.empty, bc_brokerTxPool = [], bc_rawCrossTxNum = 0,
      bc_normalCommitNum = 0, bc_broker1CommitNum = 0, bc_broker2CommitNum = 0\<rparr>"

definition broker_batch ::
  "broker_env \<Rightarrow> Transaction list \<Rightarrow> BrokerCommitteeMod \<Rightarrow> BrokerCommitteeMod res" where
  "broker_batch E txlist c =
     bindR (dealTxByBroker (broker_mod_ops (be_params E)) E txlist c) (\<lambda>(itx, c1).
     bindR (broker_txSending (broker_mod_ops (be_params E)) E itx c1) (\<lambda>c2. Inr (reset_gap c2)))"

definition broker_MsgSendingControl ::
  "broker_env \<Rightarrow> csv option \<Rightarrow> BrokerCommitteeMod \<Rightarrow> BrokerCommitteeMod res" where
  "broker_MsgSendingControl E txfile c =
     (case txfile of
        None \<Rightarrow> Inl (LogPanic ''open'')
      | Some rows \<Rightarrow> csv_loop (be_lib E) True (broker_batch E) rows [] c)"

definition broker_HandleBlockInfo ::
  "broker_env \<Rightarrow> BlockInfoMsg \<Rightarrow> BrokerCommitteeMod \<Rightarrow> BrokerCommitteeMod res" where
  "broker_HandleBlockInfo E b c =
     (if bi_BlockBodyLength b = 0 then Inr c
      else createConfirm (broker_mod_ops (be_params E)) E (bi_Broker1Txs b @ bi_Broker2Txs b)
             (c\<lparr>bc_normalCommitNum := bc_normalCommitNum c + int (length (bi_InnerShardTxs b))\<rparr>))"

definition broker_ExecutionDrained :: "BrokerCommitteeMod \<Rightarrow> bool" where
  "broker_ExecutionDrained c \<longleftrightarrow>
     bc_normalCommitNum c \<ge> max 0 (co_dataTotalNum c - bc_rawCrossTxNum c) \<and>
     bc_broker1CommitNum c \<ge> bc_rawCrossTxNum c \<and> bc_broker2CommitNum c \<ge> bc_rawCrossTxNum c"

end
