(* ===== verification/Broker_Transfer.thy ===== *)
theory Broker_Transfer
  imports Committee_Broker
begin

text \<open>
  The two halves of a transfer between shards in the broker committee: what is sent to which shard
  at each stage, and what the committee counts.
\<close>

section \<open>Sending only appends to the outbox\<close>

definition appended :: "(string \<times> wire) list \<Rightarrow> 'z Committee_scheme \<Rightarrow> 'z Committee_scheme" where
  "appended os c = c\<lparr>co_out := co_out c @ os\<rparr>"

lemma appended_append [simp]: "appended ys (appended xs c) = appended (xs @ ys) c"
  by (simp add: appended_def)

lemma appended_Nil [simp]: "appended [] c = c"
  by (simp add: appended_def)

lemma send_to_appended: "send_to ip m c = appended [(ip, m)] c"
  by (simp add: send_to_def appended_def)

text \<open>Messages that only inject transactions.\<close>

definition injections :: "(string \<times> wire) list \<Rightarrow> bool" where
  "injections os \<longleftrightarrow> (\<forall>p \<in> set os. \<exists>it. snd p = WInject it)"

lemma injections_simps [simp]:
  "injections []" "injections (xs @ ys) \<longleftrightarrow> injections xs \<and> injections ys"
  "injections ((ip, m) # xs) \<longleftrightarrow> (\<exists>it. m = WInject it) \<and> injections xs"
  by (auto simp: injections_def)

lemma inject_leaders_appends: "\<exists>os. inject_leaders P buf c = appended os c \<and> injections os"
proof -
  have "\<exists>os. fold (\<lambda>sid. send_to (f sid) (WInject (g sid))) sids c = appended os c \<and> injections os" for f g c and sids :: "u64 list"
  proof (induction sids arbitrary: c)
    case Nil
    show ?case by (rule exI [of _ "[]"]) simp
  next
    case (Cons sid sids)
    obtain os where "fold (\<lambda>sid. send_to (f sid) (WInject (g sid))) sids (send_to (f sid) (WInject (g sid)) c) =
        appended os (send_to (f sid) (WInject (g sid)) c)" "injections os" using Cons.IH by blast
    moreover have "appended os (send_to (f sid) (WInject (g sid)) c) = appended ((f sid, WInject (g sid)) # os) c"
      by (simp add: send_to_appended)
    ultimately show ?case by (intro exI [of _ "(f sid, WInject (g sid)) # os"]) simp
  qed
  then show ?thesis by (simp add: inject_leaders_def)
qed

lemma send_loop_appends:
  "send_loop speed place (inject_leaders P) i txs buf c = Inr c' \<Longrightarrow> \<exists>os. c' = appended os c \<and> injections os"
proof (induction txs arbitrary: i buf c)
  case Nil
  then obtain f where "c' = (if f then inject_leaders P buf c else c)" by (auto simp: bindR_Inr_iff)
  then show ?case
    using inject_leaders_appends [of P buf c] appended_Nil [of c] injections_simps(1) by metis
next
  case (Cons tx txs)
  then obtain f sid where step: "send_loop speed place (inject_leaders P) (i + 1) txs
      ((if f then (\<lambda>_. []) else buf)(sid := (if f then (\<lambda>_. []) else buf) sid @ [tx]))
      (if f then inject_leaders P buf c else c) = Inr c'"
    by (auto simp: bindR_Inr_iff Let_def)
  obtain os where "c' = appended os (if f then inject_leaders P buf c else c)" "injections os"
    using Cons.IH [OF step] by blast
  moreover obtain os' where "inject_leaders P buf c = appended os' c" "injections os'" using inject_leaders_appends by blast
  ultimately show ?case by (cases f) auto
qed

text \<open>Sending returns, changes nothing but the outbox, and gives each leader its transactions.\<close>

lemma send_loop_spec:
  assumes "InjectSpeed P \<noteq> 0" and "\<forall>tx \<in> set txs. \<exists>s. place tx = Inr s"
  shows "\<exists>os. send_loop (InjectSpeed P) place (inject_leaders P) 0 txs (\<lambda>_. []) c = Inr (appended os c) \<and> injections os \<and>
    (\<forall>sid \<in> set (params_shards P). injected (ip_at (co_IpNodeTable c) sid 0) sid (appended os c) =
       injected (ip_at (co_IpNodeTable c) sid 0) sid c @ filter (\<lambda>tx. place tx = Inr sid) txs)"
proof -
  have "same_numbers c c" by (simp add: same_numbers_def)
  then obtain c' where c': "send_loop (InjectSpeed P) place (inject_leaders P) 0 txs (\<lambda>_. []) c = Inr c'"
    "\<forall>sid \<in> set (params_shards P). injected (ip_at (co_IpNodeTable c) sid 0) sid c' =
       injected (ip_at (co_IpNodeTable c) sid 0) sid c @ filter (\<lambda>tx. place tx = Inr sid) txs"
    using leaders.send_loop_got [of c c "InjectSpeed P" txs place 0 "\<lambda>_. []" P] assms by auto
  moreover obtain os where "c' = appended os c" "injections os" using send_loop_appends c'(1) by blast
  ultimately show ?thesis by blast
qed

lemma broker_txSending_spec:
  assumes "InjectSpeed (be_params E) \<noteq> 0" and "\<forall>tx \<in> set txs. \<exists>s. broker_place ops c tx = Inr s"
  shows "\<exists>os. broker_txSending ops E txs c = Inr (appended os c) \<and> injections os \<and>
    (\<forall>sid \<in> set (params_shards (be_params E)). injected (ip_at (co_IpNodeTable c) sid 0) sid (appended os c) =
       injected (ip_at (co_IpNodeTable c) sid 0) sid c @ filter (\<lambda>tx. broker_place ops c tx = Inr sid) txs)"
  unfolding broker_txSending_def by (rule send_loop_spec [OF assms])

lemma appended_broker [simp]:
  "bc_broker (appended os c) = bc_broker c"
  "bc_brokerConfirm1Pool (appended os c) = bc_brokerConfirm1Pool c"
  "bc_brokerConfirm2Pool (appended os c) = bc_brokerConfirm2Pool c"
  by (simp_all add: appended_def)

lemma appended_counts [simp]:
  "bc_rawCrossTxNum (appended os c) = bc_rawCrossTxNum c"
  "bc_broker1CommitNum (appended os c) = bc_broker1CommitNum c"
  "bc_broker2CommitNum (appended os c) = bc_broker2CommitNum c"
  "bc_normalCommitNum (appended os c) = bc_normalCommitNum c"
  "co_IpNodeTable (appended os c) = co_IpNodeTable c"
  by (simp_all add: appended_def)

lemma broker_tx_fields [simp]:
  "tx_Sender (broker_tx L s r ctx now) = s"
  "tx_Recipient (broker_tx L s r ctx now) = r"
  "tx_Value (broker_tx L s r ctx now) = tx_Value ctx"
  "tx_RawTxHash (broker_tx L s r ctx now) = tx_TxHash ctx"
  by (simp_all add: broker_tx_def)

lemma bindR_Inr: "bindR m (\<lambda>x. Inr x) = m"
  by (simp add: bindR_def split: sum.splits)

section \<open>One transfer\<close>

text \<open>A transfer between two shards, neither end of which is a broker.\<close>

definition crosses :: "params \<Rightarrow> Broker \<Rightarrow> Transaction \<Rightarrow> u64 \<Rightarrow> u64 \<Rightarrow> bool" where
  "crosses P b tx s r \<longleftrightarrow> place_by_addr P (tx_Sender tx) = Inr s \<and> place_by_addr P (tx_Recipient tx) = Inr r \<and>
     s \<noteq> r \<and> s \<in> set (params_shards P) \<and> r \<in> set (params_shards P) \<and>
     \<not> IsBroker b (tx_Sender tx) \<and> \<not> IsBroker b (tx_Recipient tx)"

abbreviation raw_meg :: "Transaction \<Rightarrow> Address \<Rightarrow> BrokerRawMeg" where
  "raw_meg tx a \<equiv> \<lparr>rm_Tx = tx, rm_Broker = a, rm_Hlock = 0, rm_Snonce = 0, rm_Bnonce = 0, rm_Signature = []\<rparr>"

abbreviation leader_got :: "u64 \<Rightarrow> 'z Committee_scheme \<Rightarrow> Transaction list" where
  "leader_got sid c \<equiv> injected (ip_at (co_IpNodeTable c) sid 0) sid c"

lemma first_half:
  assumes "crosses P (bc_broker c) tx s r" and "first_broker (bc_broker c) = Inr a"
    and "InjectSpeed P \<noteq> 0" and "be_params E = P"
  defines "tx1 \<equiv> broker_tx (be_lib E) (tx_Sender tx) a tx (be_now E 0)"
  shows "\<exists>os. broker_batch E [tx] c = Inr (reset_gap (appended os (c
      \<lparr>bc_rawCrossTxNum := bc_rawCrossTxNum c + 1,
       bc_broker := (bc_broker c)\<lparr>bk_BrokerRawMegs := (bk_BrokerRawMegs (bc_broker c))(be_digest E (raw_meg tx a) \<mapsto> raw_meg tx a)\<rparr>,
       bc_brokerConfirm1Pool := (bc_brokerConfirm1Pool c)(tx_TxHash tx1 \<mapsto> \<lparr>c1_Tx1Hash = tx_TxHash tx1, c1_RawMeg = raw_meg tx a\<rparr>)\<rparr>))) \<and>
    (\<forall>sid \<in> set (params_shards P). injected (ip_at (co_IpNodeTable c) sid 0) sid (appended os c) =
       leader_got sid c @ (if sid = s then [tx1] else []))"
proof -
  let ?ops = "broker_mod_ops P" and ?b = "bc_broker c"
  let ?c = "c\<lparr>bc_rawCrossTxNum := bc_rawCrossTxNum c + 1,
       bc_broker := ?b\<lparr>bk_BrokerRawMegs := (bk_BrokerRawMegs ?b)(be_digest E (raw_meg tx a) \<mapsto> raw_meg tx a)\<rparr>,
       bc_brokerConfirm1Pool := (bc_brokerConfirm1Pool c)(tx_TxHash tx1 \<mapsto> \<lparr>c1_Tx1Hash = tx_TxHash tx1, c1_RawMeg = raw_meg tx a\<rparr>)\<rparr>"
  have loop: "deal_loop ?ops c [tx] = Inr ([], [raw_meg tx a])"
    using assms(1,2) by (auto simp: crosses_def broker_mod_ops_def)
  have tx1: "make_tx1 E 0 \<lparr>t1_RawMeg = raw_meg tx a, t1_Hcurrent = 0, t1_Broker = a\<rparr> = tx1"
    by (simp add: make_tx1_def tx1_def)
  have hand: "handleBrokerRawMag ?ops E [raw_meg tx a] c = broker_txSending ?ops E [tx1] ?c"
    by (simp add: handleBrokerRawMag_def handleBrokerType1Mes_def tx1 broker_mod_ops_def)
  have place: "broker_place ?ops ?c tx1 = Inr s"
    using assms(1) by (simp add: broker_place_def broker_mod_ops_def crosses_def IsBroker_def tx1_def)
  obtain os where os: "broker_txSending ?ops E [tx1] ?c = Inr (appended os ?c)"
    "\<forall>sid \<in> set (params_shards P). injected (ip_at (co_IpNodeTable ?c) sid 0) sid (appended os ?c) =
       injected (ip_at (co_IpNodeTable ?c) sid 0) sid ?c @ filter (\<lambda>tx. broker_place ?ops ?c tx = Inr sid) [tx1]"
    using broker_txSending_spec [of E "[tx1]" ?ops ?c] place assms(3,4) by auto
  have "broker_txSending ?ops E [] c' = Inr c'" for c'
    by (simp add: broker_txSending_def flush_now_def)
  then have "broker_batch E [tx] c = Inr (reset_gap (appended os ?c))"
    using os(1) by (simp add: broker_batch_def dealTxByBroker_def loop hand assms(4) del: deal_loop.simps)
  moreover have "injected ip sid (appended os ?c) = injected ip sid (appended os c)" "injected ip sid ?c = injected ip sid c"
    for ip sid by (simp_all add: injected_def appended_def)
  ultimately show ?thesis using os(2) place by (intro exI [of _ os]) auto
qed

lemma second_half:
  assumes raw: "bk_BrokerRawMegs (bc_broker c) (be_digest E (raw_meg tx a)) \<noteq> None"
    and pool: "bc_brokerConfirm1Pool c (tx_TxHash tx1) = Some \<lparr>c1_Tx1Hash = tx_TxHash tx1, c1_RawMeg = raw_meg tx a\<rparr>"
    and new: "bc_brokerConfirm2Pool c (tx_TxHash tx1) = None"
    and a: "first_broker (bc_broker c) = Inr a" and pa: "\<exists>s. place_by_addr P a = Inr s"
    and r: "place_by_addr P (tx_Recipient tx) = Inr r"
    and b: "bi_BlockBodyLength b \<noteq> 0" "bi_Broker1Txs b = [tx1]" "bi_Broker2Txs b = []" "bi_InnerShardTxs b = []"
    and P: "InjectSpeed P \<noteq> 0" "be_params E = P"
  defines "tx2 \<equiv> broker_tx (be_lib E) a (tx_Recipient tx) tx (be_now E 0)"
  shows "\<exists>os. broker_HandleBlockInfo E b c = Inr (appended os ((record_broker_tx (tx_TxHash tx) (tx_TxHash tx1) c)
      \<lparr>bc_broker1CommitNum := bc_broker1CommitNum c + 1,
       bc_brokerConfirm2Pool := (bc_brokerConfirm2Pool c)(tx_TxHash tx2 \<mapsto> \<lparr>c2_Tx2Hash = tx_TxHash tx2, c2_RawMeg = raw_meg tx a\<rparr>)\<rparr>)) \<and>
    (\<forall>sid \<in> set (params_shards P). injected (ip_at (co_IpNodeTable c) sid 0) sid (appended os c) =
       leader_got sid c @ (if sid = r then [tx2] else []))"
proof -
  let ?ops = "broker_mod_ops P"
  let ?c1 = "(record_broker_tx (tx_TxHash tx) (tx_TxHash tx1) c)\<lparr>bc_broker1CommitNum := bc_broker1CommitNum c + 1\<rparr>"
  let ?c2 = "?c1\<lparr>bc_brokerConfirm2Pool := (bc_brokerConfirm2Pool c)(tx_TxHash tx2 \<mapsto> \<lparr>c2_Tx2Hash = tx_TxHash tx2, c2_RawMeg = raw_meg tx a\<rparr>)\<rparr>"
  have c0: "c\<lparr>bc_normalCommitNum := bc_normalCommitNum c + int (length (bi_InnerShardTxs b))\<rparr> = c"
    using b(4) by simp
  have fb: "first_broker (bc_broker ?c1) = Inr a" using a by (simp add: first_broker_def record_broker_tx_def)
  have conf: "confirm1_loop ?ops E [\<lparr>c1_Tx1Hash = tx_TxHash tx1, c1_RawMeg = raw_meg tx a\<rparr>] c =
      Inr ([\<lparr>t2_RawMeg = raw_meg tx a, t2_Broker = a\<rparr>], ?c1)"
    using raw fb by (auto simp: broker_mod_ops_def record_broker_tx_def Let_def)
  have tx2: "make_tx2 E 0 \<lparr>t2_RawMeg = raw_meg tx a, t2_Broker = a\<rparr> = tx2"
    by (simp add: make_tx2_def tx2_def)
  have type2: "handleBrokerType2Mes ?ops E [\<lparr>t2_RawMeg = raw_meg tx a, t2_Broker = a\<rparr>] ?c1 = broker_txSending ?ops E [tx2] ?c2"
    by (simp add: handleBrokerType2Mes_def tx2 record_broker_tx_def Let_def)
  have handle: "broker_HandleBlockInfo E b c = broker_txSending ?ops E [tx2] ?c2"
    using b pool new unfolding broker_HandleBlockInfo_def c0 createConfirm_def P(2)
    by (simp add: List.map_filter_simps handleTx1ConfirmMag_def conf type2 bindR_Inr del: confirm1_loop.simps)
  have "IsBroker (bc_broker ?c2) a"
    using a by (auto simp: IsBroker_def first_broker_def record_broker_tx_def split: list.splits)
  then have place: "broker_place ?ops ?c2 tx2 = Inr r"
    using pa r by (auto simp: broker_place_def broker_mod_ops_def tx2_def)
  obtain os where os: "broker_txSending ?ops E [tx2] ?c2 = Inr (appended os ?c2)"
    "\<forall>sid \<in> set (params_shards P). injected (ip_at (co_IpNodeTable ?c2) sid 0) sid (appended os ?c2) =
       injected (ip_at (co_IpNodeTable ?c2) sid 0) sid ?c2 @ filter (\<lambda>tx. broker_place ?ops ?c2 tx = Inr sid) [tx2]"
    using broker_txSending_spec [of E "[tx2]" ?ops ?c2] place P by auto
  have "injected ip sid (appended os ?c2) = injected ip sid (appended os c)" "injected ip sid ?c2 = injected ip sid c"
    "co_IpNodeTable ?c2 = co_IpNodeTable c"
    for ip sid by (simp_all add: injected_def appended_def record_broker_tx_def)
  then show ?thesis using os place handle by (intro exI [of _ os]) auto
qed

lemma record_broker_tx_simps [simp]:
  "bk_RawTx2BrokerTx (bc_broker (record_broker_tx raw h c)) =
     (bk_RawTx2BrokerTx (bc_broker c))(raw := bk_RawTx2BrokerTx (bc_broker c) raw @ [h])"
  "bc_brokerConfirm1Pool (record_broker_tx raw h c) = bc_brokerConfirm1Pool c"
  "bc_brokerConfirm2Pool (record_broker_tx raw h c) = bc_brokerConfirm2Pool c"
  "co_IpNodeTable (record_broker_tx raw h c) = co_IpNodeTable c"
  "co_out (record_broker_tx raw h c) = co_out c"
  by (simp_all add: record_broker_tx_def)

lemma last_part:
  assumes pool: "bc_brokerConfirm2Pool c (tx_TxHash tx2) = Some \<lparr>c2_Tx2Hash = tx_TxHash tx2, c2_RawMeg = raw_meg tx a\<rparr>"
    and new: "bc_brokerConfirm1Pool c (tx_TxHash tx2) = None"
    and one: "length (bk_RawTx2BrokerTx (bc_broker c) (tx_TxHash tx)) = 1"
    and b: "bi_BlockBodyLength b \<noteq> 0" "bi_Broker1Txs b = []" "bi_Broker2Txs b = [tx2]" "bi_InnerShardTxs b = []"
  shows "broker_HandleBlockInfo E b c = Inr ((record_broker_tx (tx_TxHash tx) (tx_TxHash tx2) c)
    \<lparr>bc_broker2CommitNum := bc_broker2CommitNum c + 1\<rparr>)"
proof -
  have "c\<lparr>bc_normalCommitNum := bc_normalCommitNum c + int (length (bi_InnerShardTxs b))\<rparr> = c" using b(4) by simp
  then show ?thesis
    using assms unfolding broker_HandleBlockInfo_def createConfirm_def
    by (simp add: List.map_filter_simps handleTx2ConfirmMag_def confirm2_def broker_mod_ops_def Let_def)
       (simp add: record_broker_tx_def)
qed

section \<open>Properties\<close>

text \<open>
  (C14) A transfer between two shards through a broker. In any state of the committee, for a transfer
  whose ends are in different shards and are no brokers, and whose two new transactions have
  hashes of their own: dealing with it injects one transaction, from the sender to the broker, into
  the sender's shard and nothing anywhere else; the report of that transaction injects one
  transaction, from the broker to the recipient, into the recipient's shard and nothing anywhere
  else; both carry the value of the transfer and its hash; and the report of the second one
  completes the transfer: raw, first and second transactions have each been counted once.
\<close>

theorem broker_transfer_cycle:
  assumes x: "crosses P (bc_broker c) tx s r" and a: "first_broker (bc_broker c) = Inr a"
    and pa: "\<exists>s. place_by_addr P a = Inr s" and P: "InjectSpeed P \<noteq> 0" "be_params E = P" "be_params E' = P"
      "be_digest E' = be_digest E"
    and tx1: "tx1 = broker_tx (be_lib E) (tx_Sender tx) a tx (be_now E 0)"
    and tx2: "tx2 = broker_tx (be_lib E') a (tx_Recipient tx) tx (be_now E' 0)"
    and fresh: "bc_brokerConfirm2Pool c (tx_TxHash tx1) = None" "bc_brokerConfirm1Pool c (tx_TxHash tx2) = None"
      "tx_TxHash tx1 \<noteq> tx_TxHash tx2" "bk_RawTx2BrokerTx (bc_broker c) (tx_TxHash tx) = []"
    and b: "bi_BlockBodyLength b \<noteq> 0" "bi_Broker1Txs b = [tx1]" "bi_Broker2Txs b = []" "bi_InnerShardTxs b = []"
    and b': "bi_BlockBodyLength b' \<noteq> 0" "bi_Broker1Txs b' = []" "bi_Broker2Txs b' = [tx2]" "bi_InnerShardTxs b' = []"
  shows "\<exists>c1 c2 c3. broker_batch E [tx] c = Inr c1 \<and> broker_HandleBlockInfo E' b c1 = Inr c2 \<and>
    broker_HandleBlockInfo E' b' c2 = Inr c3 \<and> tx_Value tx1 = tx_Value tx \<and> tx_Value tx2 = tx_Value tx \<and>
    (\<forall>sid \<in> set (params_shards P). leader_got sid c1 = leader_got sid c @ (if sid = s then [tx1] else []) \<and>
       leader_got sid c2 = leader_got sid c1 @ (if sid = r then [tx2] else []) \<and> leader_got sid c3 = leader_got sid c2) \<and>
    bc_rawCrossTxNum c3 = bc_rawCrossTxNum c + 1 \<and> bc_broker1CommitNum c3 = bc_broker1CommitNum c + 1 \<and>
    bc_broker2CommitNum c3 = bc_broker2CommitNum c + 1"
proof -
  let ?m1 = "\<lparr>c1_Tx1Hash = tx_TxHash tx1, c1_RawMeg = raw_meg tx a\<rparr>"
  obtain os where os: "broker_batch E [tx] c = Inr (reset_gap (appended os (c
      \<lparr>bc_rawCrossTxNum := bc_rawCrossTxNum c + 1,
       bc_broker := (bc_broker c)\<lparr>bk_BrokerRawMegs := (bk_BrokerRawMegs (bc_broker c))(be_digest E (raw_meg tx a) \<mapsto> raw_meg tx a)\<rparr>,
       bc_brokerConfirm1Pool := (bc_brokerConfirm1Pool c)(tx_TxHash tx1 \<mapsto> ?m1)\<rparr>)))"
    "\<forall>sid \<in> set (params_shards P). injected (ip_at (co_IpNodeTable c) sid 0) sid (appended os c) =
       leader_got sid c @ (if sid = s then [tx1] else [])"
    using first_half [OF x a P(1,2)] unfolding tx1 by blast
  define c1 where "c1 = reset_gap (appended os (c
      \<lparr>bc_rawCrossTxNum := bc_rawCrossTxNum c + 1,
       bc_broker := (bc_broker c)\<lparr>bk_BrokerRawMegs := (bk_BrokerRawMegs (bc_broker c))(be_digest E (raw_meg tx a) \<mapsto> raw_meg tx a)\<rparr>,
       bc_brokerConfirm1Pool := (bc_brokerConfirm1Pool c)(tx_TxHash tx1 \<mapsto> ?m1)\<rparr>))"
  have r: "place_by_addr P (tx_Recipient tx) = Inr r" using x by (simp add: crosses_def)
  have raw1: "bk_BrokerRawMegs (bc_broker c1) (be_digest E' (raw_meg tx a)) \<noteq> None"
    using P(4) by (simp add: c1_def reset_gap_def)
  have pool1: "bc_brokerConfirm1Pool c1 (tx_TxHash tx1) = Some ?m1" "bc_brokerConfirm2Pool c1 (tx_TxHash tx1) = None"
    "bc_brokerConfirm1Pool c1 (tx_TxHash tx2) = None" "bk_RawTx2BrokerTx (bc_broker c1) (tx_TxHash tx) = []"
    using fresh by (simp_all add: c1_def reset_gap_def)
  have a1: "first_broker (bc_broker c1) = Inr a" using a by (simp add: c1_def reset_gap_def first_broker_def)
  obtain os' where os': "broker_HandleBlockInfo E' b c1 = Inr (appended os' ((record_broker_tx (tx_TxHash tx) (tx_TxHash tx1) c1)
      \<lparr>bc_broker1CommitNum := bc_broker1CommitNum c1 + 1,
       bc_brokerConfirm2Pool := (bc_brokerConfirm2Pool c1)(tx_TxHash tx2 \<mapsto> \<lparr>c2_Tx2Hash = tx_TxHash tx2, c2_RawMeg = raw_meg tx a\<rparr>)\<rparr>))"
    "\<forall>sid \<in> set (params_shards P). injected (ip_at (co_IpNodeTable c1) sid 0) sid (appended os' c1) =
       leader_got sid c1 @ (if sid = r then [tx2] else [])"
    using second_half [OF raw1 pool1(1,2) a1 pa r b P(1,3)] unfolding tx2 by blast
  define c2 where "c2 = appended os' ((record_broker_tx (tx_TxHash tx) (tx_TxHash tx1) c1)
      \<lparr>bc_broker1CommitNum := bc_broker1CommitNum c1 + 1,
       bc_brokerConfirm2Pool := (bc_brokerConfirm2Pool c1)(tx_TxHash tx2 \<mapsto> \<lparr>c2_Tx2Hash = tx_TxHash tx2, c2_RawMeg = raw_meg tx a\<rparr>)\<rparr>)"
  have pool2: "bc_brokerConfirm2Pool c2 (tx_TxHash tx2) = Some \<lparr>c2_Tx2Hash = tx_TxHash tx2, c2_RawMeg = raw_meg tx a\<rparr>"
    "bc_brokerConfirm1Pool c2 (tx_TxHash tx2) = None" "length (bk_RawTx2BrokerTx (bc_broker c2) (tx_TxHash tx)) = 1"
    using pool1 by (simp_all add: c2_def)
  define c3 where "c3 = (record_broker_tx (tx_TxHash tx) (tx_TxHash tx2) c2)\<lparr>bc_broker2CommitNum := bc_broker2CommitNum c2 + 1\<rparr>"
  have got1: "leader_got sid c1 = leader_got sid c @ (if sid = s then [tx1] else [])" if "sid \<in> set (params_shards P)" for sid
    using os(2) [rule_format, OF that] by (simp add: c1_def injected_def reset_gap_def appended_def)
  have got2: "leader_got sid c2 = leader_got sid c1 @ (if sid = r then [tx2] else [])" if "sid \<in> set (params_shards P)" for sid
    using os'(2) [rule_format, OF that] by (simp add: c2_def injected_def appended_def)
  have got3: "leader_got sid c3 = leader_got sid c2" for sid by (simp add: c3_def injected_def)
  have counts: "bc_rawCrossTxNum c3 = bc_rawCrossTxNum c + 1" "bc_broker1CommitNum c3 = bc_broker1CommitNum c + 1"
    "bc_broker2CommitNum c3 = bc_broker2CommitNum c + 1"
    by (simp_all add: c3_def c2_def c1_def reset_gap_def record_broker_tx_def)
  have runs: "broker_batch E [tx] c = Inr c1" "broker_HandleBlockInfo E' b c1 = Inr c2" "broker_HandleBlockInfo E' b' c2 = Inr c3"
    using os(1) os'(1) last_part [OF pool2 b'] by (simp_all only: c1_def c2_def c3_def)
  show ?thesis using runs got1 got2 got3 counts tx1 tx2 by (intro exI [of _ c1] exI [of _ c2] exI [of _ c3]) simp
qed

text \<open>A transfer from shard 0 to shard 1; the hash of a transaction is the time it was made at.\<close>

definition demo_broker_env :: "time \<Rightarrow> broker_env" where
  "demo_broker_env t = \<lparr>be_lib = demo_lib\<lparr>sha256 := (\<lambda>g. case g of GobTx t \<Rightarrow> [of_int (tx_Time t)] | _ \<Rightarrow> [])\<rparr>,
     be_params = demo_sup_P, be_digest = (\<lambda>m. tx_TxHash (rm_Tx m)), be_now = (\<lambda>i. t)\<rparr>"

definition demo_committee :: BrokerCommitteeMod where
  "demo_committee = NewBrokerCommitteeMod demo_sup_P [''000000000000000b''] (\<lambda>sid. [(0, ''ip'')]) (NewStopSignal 6) 1 1"

definition demo_transfer :: Transaction where
  "demo_transfer = NewTransaction demo_lib ''0000000000000002'' ''0000000000000003'' 17 0 0"

definition demo_info :: "Transaction list \<Rightarrow> Transaction list \<Rightarrow> BlockInfoMsg" where
  "demo_info b1 b2 = \<lparr>bi_BlockBodyLength = 1, bi_InnerShardTxs = [], bi_Epoch = 0, bi_ProposeTime = 0,
     bi_CommitTime = 0, bi_SenderShardID = 0, bi_Relay1Txs = [], bi_Relay2Txs = [], bi_Broker1Txs = b1,
     bi_Broker2Txs = b2, bi_Bridge1Txs = [], bi_Bridge2Txs = [], bi_BridgeForwardTxs = [], bi_JointSig = []\<rparr>"

theorem broker_transfer_cycle_witness:
  "\<exists>c1 c2 c3. broker_batch (demo_broker_env 1) [demo_transfer] demo_committee = Inr c1 \<and>
    broker_HandleBlockInfo (demo_broker_env 2)
      (demo_info [broker_tx (be_lib (demo_broker_env 1)) ''0000000000000002'' ''000000000000000b'' demo_transfer 1] []) c1 = Inr c2 \<and>
    broker_HandleBlockInfo (demo_broker_env 2)
      (demo_info [] [broker_tx (be_lib (demo_broker_env 2)) ''000000000000000b'' ''0000000000000003'' demo_transfer 2]) c2 = Inr c3 \<and>
    bc_rawCrossTxNum c3 = 1 \<and> bc_broker1CommitNum c3 = 1 \<and> bc_broker2CommitNum c3 = 1"
proof -
  have places: "place_by_addr demo_sup_P ''000000000000000b'' = Inr 1"
    by (simp add: place_by_addr_def demo_sup_P_def Addr2Shard_eq last8_def hexval_def)
  have shards: "{0, 1} \<subseteq> set (params_shards demo_sup_P)" "InjectSpeed demo_sup_P = 6000"
    by (auto simp: params_shards_def demo_sup_P_def defaultParams_def intro: image_eqI [of _ _ 0] image_eqI [of _ _ 1])
  have broker: "bc_broker demo_committee = \<lparr>bk_BrokerRawMegs = Map.empty, bk_BrokerAddress = [''000000000000000b''],
      bk_RawTx2BrokerTx = (\<lambda>_. [])\<rparr>"
    by (simp add: demo_committee_def NewBrokerCommitteeMod_def NewBroker_def)
  have x: "crosses demo_sup_P (bc_broker demo_committee) demo_transfer 0 1"
    using shards demo_places by (simp add: crosses_def broker IsBroker_def demo_transfer_def)
  have first: "first_broker (bc_broker demo_committee) = Inr ''000000000000000b''"
    by (simp add: broker first_broker_def)
  have pools: "bc_brokerConfirm1Pool demo_committee = Map.empty" "bc_brokerConfirm2Pool demo_committee = Map.empty"
    "bc_rawCrossTxNum demo_committee = 0" "bc_broker1CommitNum demo_committee = 0" "bc_broker2CommitNum demo_committee = 0"
    by (simp_all add: demo_committee_def NewBrokerCommitteeMod_def)
  have hash: "tx_TxHash (broker_tx (be_lib (demo_broker_env t)) s r demo_transfer t') = [of_int t']" for t s r t'
    by (simp add: broker_tx_def demo_broker_env_def NewTransaction_def Tx_Encode_def Let_def)
  let ?E1 = "demo_broker_env 1" and ?E2 = "demo_broker_env 2"
  let ?tx1 = "broker_tx (be_lib ?E1) ''0000000000000002'' ''000000000000000b'' demo_transfer 1"
  let ?tx2 = "broker_tx (be_lib ?E2) ''000000000000000b'' ''0000000000000003'' demo_transfer 2"
  have env: "be_params (demo_broker_env t) = demo_sup_P" "be_now (demo_broker_env t) 0 = t"
    "be_digest ?E2 = be_digest ?E1" for t by (simp_all add: demo_broker_env_def)
  have ends: "tx_Sender demo_transfer = ''0000000000000002''" "tx_Recipient demo_transfer = ''0000000000000003''"
    by (simp_all add: demo_transfer_def)
  have info: "bi_BlockBodyLength (demo_info b1 b2) \<noteq> 0" "bi_Broker1Txs (demo_info b1 b2) = b1"
    "bi_Broker2Txs (demo_info b1 b2) = b2" "bi_InnerShardTxs (demo_info b1 b2) = []" for b1 b2
    by (simp_all add: demo_info_def)
  have "\<exists>c1 c2 c3. broker_batch ?E1 [demo_transfer] demo_committee = Inr c1 \<and>
      broker_HandleBlockInfo ?E2 (demo_info [?tx1] []) c1 = Inr c2 \<and>
      broker_HandleBlockInfo ?E2 (demo_info [] [?tx2]) c2 = Inr c3 \<and>
      tx_Value ?tx1 = tx_Value demo_transfer \<and> tx_Value ?tx2 = tx_Value demo_transfer \<and>
      (\<forall>sid \<in> set (params_shards demo_sup_P). leader_got sid c1 = leader_got sid demo_committee @ (if sid = 0 then [?tx1] else []) \<and>
         leader_got sid c2 = leader_got sid c1 @ (if sid = 1 then [?tx2] else []) \<and> leader_got sid c3 = leader_got sid c2) \<and>
      bc_rawCrossTxNum c3 = bc_rawCrossTxNum demo_committee + 1 \<and>
      bc_broker1CommitNum c3 = bc_broker1CommitNum demo_committee + 1 \<and>
      bc_broker2CommitNum c3 = bc_broker2CommitNum demo_committee + 1"
    using places shards(2) by (intro broker_transfer_cycle [OF x first]) (simp_all add: env ends info hash pools broker)
  then show ?thesis using pools by auto
qed

end
