(* ===== verification/Numbers.thy ===== *)
theory Numbers
  imports Prelude
begin

text \<open>
  Numbers of the supervisor's statistics: the arithmetic of \<open>float64\<close> as a parameter (the carrier
  and the operations the code uses; no theorem depends on how they round), durations in seconds,
  decimal printing (\<open>strconv\<close>), and slices of counters.
\<close>

section \<open>Floating point\<close>

record 'f float_ops =
  fl_int :: "int \<Rightarrow> 'f"  \<comment> \<open>conversion of an integer\<close>
  fl_add :: "'f \<Rightarrow> 'f \<Rightarrow> 'f"
  fl_mul :: "'f \<Rightarrow> 'f \<Rightarrow> 'f"
  fl_div :: "'f \<Rightarrow> 'f \<Rightarrow> 'f"
  fl_sub :: "'f \<Rightarrow> 'f \<Rightarrow> 'f"
  fl_less :: "'f \<Rightarrow> 'f \<Rightarrow> bool"
  fl_format :: "'f \<Rightarrow> string"  \<comment> \<open>\<open>strconv.FormatFloat(x, 'f', '8', 64)\<close>\<close>

text \<open>\<open>Duration.Seconds\<close> adds the whole seconds and the fraction.\<close>

definition Seconds :: "'f float_ops \<Rightarrow> duration \<Rightarrow> 'f" where
  "Seconds F d = fl_add F (fl_int F (go_div d 1000000000))
     (fl_div F (fl_int F (go_mod d 1000000000)) (fl_int F 1000000000))"

section \<open>Printing\<close>

fun dec_digits :: "nat \<Rightarrow> string" where
  "dec_digits n = (if n < 10 then [char_of (n + 48)] else dec_digits (n div 10) @ [char_of (n mod 10 + 48)])"

declare dec_digits.simps [simp del]

definition Itoa :: "int \<Rightarrow> string" where
  "Itoa i = (if i < 0 then ''-'' @ dec_digits (nat (- i)) else dec_digits (nat i))"

section \<open>Slices of counters\<close>

definition add_at :: "int \<Rightarrow> int \<Rightarrow> int list \<Rightarrow> int list res" where
  "add_at i d xs =
     (if 0 \<le> i \<and> i < int (length xs) then Inr (xs[nat i := xs ! nat i + d]) else Inl IndexOutOfRange)"

definition get_at :: "int \<Rightarrow> 'a list \<Rightarrow> 'a res" where
  "get_at i xs = (if 0 \<le> i \<and> i < int (length xs) then Inr (xs ! nat i) else Inl IndexOutOfRange)"

definition set_at :: "int \<Rightarrow> 'a \<Rightarrow> 'a list \<Rightarrow> 'a list res" where
  "set_at i v xs = (if 0 \<le> i \<and> i < int (length xs) then Inr (xs[nat i := v]) else Inl IndexOutOfRange)"

definition make_ints :: "int \<Rightarrow> int list res" where
  "make_ints n = (if n < 0 then Inl IndexOutOfRange else Inr (replicate (nat n) 0))"

lemma add_at_map:
  assumes "0 \<le> s" and "s < int n"
  shows "add_at s d (map f [0..<n]) = Inr (map (\<lambda>k. f k + (if int k = s then d else 0)) [0..<n])"
  using assms by (auto simp: add_at_def intro!: nth_equalityI simp: nth_list_update)

lemma add_at_ok:
  "0 \<le> i \<Longrightarrow> i < int (length xs) \<Longrightarrow> add_at i d xs = Inr (xs[nat i := xs ! nat i + d])"
  by (simp add: add_at_def)

lemma get_at_ok: "0 \<le> i \<Longrightarrow> i < int (length xs) \<Longrightarrow> get_at i xs = Inr (xs ! nat i)"
  by (simp add: get_at_def)

lemma set_at_ok: "0 \<le> i \<Longrightarrow> i < int (length xs) \<Longrightarrow> set_at i v xs = Inr (xs[nat i := v])"
  by (simp add: set_at_def)

text \<open>The counter of an index, 0 beyond the end.\<close>

definition count_at :: "int list \<Rightarrow> nat \<Rightarrow> int" where
  "count_at xs e = (if e < length xs then xs ! e else 0)"

lemma count_at_append_zeros [simp]: "count_at (xs @ replicate k 0) e = count_at xs e"
  by (auto simp: count_at_def nth_append)

lemma count_at_update:
  "i < length xs \<Longrightarrow> count_at (xs[i := xs ! i + d]) e = count_at xs e + (if e = i then d else 0)"
  by (auto simp: count_at_def)

lemma dec_digits_nonempty [simp]: "dec_digits n \<noteq> []"
  by (subst dec_digits.simps) simp

text \<open>An instance of the floating-point operations, on integers.\<close>

definition demo_F :: "int float_ops" where
  "demo_F = \<lparr>fl_int = (\<lambda>i. i), fl_add = (+), fl_mul = (*), fl_div = (div), fl_sub = (-), fl_less = (<), fl_format = Itoa\<rparr>"

end
