(* ===== verification/Clpa.thy ===== *)
theory Clpa
  imports Params Utils Numbers "HOL-Library.AList"
begin

text \<open>
  The partition of accounts into shards by constrained label propagation
  (\<open>partition/graph.go\<close>, \<open>partition/partition_CLPA.go\<close>).

  \<^item> A graph keeps its vertices and the adjacency lists of its edges as lists of entries without
    repeated keys; an edge is stored with both of its ends, and an edge added twice twice.
  \<^item> The order in which Go's range visits the vertices is an argument of the operations where it
    matters; the counts do not depend on it.
  \<^item> The arithmetic of \<open>float64\<close>, which only ranks shards, is a parameter. No theorem depends on how
    it rounds.
  \<^item> Counters are unbounded integers: a graph with \<open>2 ^ 63\<close> edges does not fit the memory.
\<close>

section \<open>Graphs\<close>

record Vertex =
  vx_Addr :: Address

definition ConstructVertex :: "string \<Rightarrow> Vertex" where
  "ConstructVertex s = \<lparr>vx_Addr = s\<rparr>"

record Graph =
  gr_VertexSet :: "Vertex list"
  gr_EdgeSet :: "(Vertex \<times> Vertex list) list option"

text \<open>A nil map of edges reads as an empty one, and a vertex without an entry has no edges.\<close>

definition edge_list :: "Graph \<Rightarrow> (Vertex \<times> Vertex list) list" where
  "edge_list g = (case gr_EdgeSet g of None \<Rightarrow> [] | Some es \<Rightarrow> es)"

definition edges_of :: "Graph \<Rightarrow> Vertex \<Rightarrow> Vertex list" where
  "edges_of g v = (case map_of (edge_list g) v of None \<Rightarrow> [] | Some lst \<Rightarrow> lst)"

definition Graph_AddVertex :: "Vertex \<Rightarrow> Graph \<Rightarrow> Graph" where
  "Graph_AddVertex v g = g\<lparr>gr_VertexSet := List.insert v (gr_VertexSet g)\<rparr>"

definition append_edge :: "Vertex \<Rightarrow> Vertex \<Rightarrow> Graph \<Rightarrow> Graph" where
  "append_edge u v g = g\<lparr>gr_EdgeSet := Some (AList.update u (edges_of g u @ [v]) (edge_list g))\<rparr>"

definition Graph_AddEdge :: "Vertex \<Rightarrow> Vertex \<Rightarrow> Graph \<Rightarrow> Graph" where
  "Graph_AddEdge u v g =
     (let g1 = (if u \<notin> set (gr_VertexSet g) then Graph_AddVertex u g else g);
          g2 = (if v \<notin> set (gr_VertexSet g1) then Graph_AddVertex v g1 else g1)
      in append_edge v u (append_edge u v g2))"

definition CopyGraph :: "Graph \<Rightarrow> Graph \<Rightarrow> Graph" where
  "CopyGraph src dst = \<lparr>gr_VertexSet = gr_VertexSet src,
     gr_EdgeSet = (if gr_EdgeSet src = None then gr_EdgeSet dst
                   else Some (map (\<lambda>v. (v, edges_of src v)) (gr_VertexSet src)))\<rparr>"

section \<open>The state of the algorithm\<close>

record 'f CLPAState =
  cs_NetGraph :: Graph
  cs_PartitionMap :: "Vertex \<rightharpoonup> int"
  cs_Edges2Shard :: "int list"
  cs_VertexsNumInShard :: "int list"
  cs_WeightPenalty :: 'f
  cs_MinEdges2Shard :: int
  cs_MaxIterations :: int
  cs_CrossShardEdgeNum :: int
  cs_ShardNum :: int

definition MaxInt :: int where "MaxInt = 2 ^ 63 - 1"

text \<open>A vertex without an entry reads as shard 0.\<close>

definition shard_of :: "('f, 'z) CLPAState_scheme \<Rightarrow> Vertex \<Rightarrow> int" where
  "shard_of cs v = (case cs_PartitionMap cs v of None \<Rightarrow> 0 | Some s \<Rightarrow> s)"

definition CLPA_AddVertex :: "params \<Rightarrow> Vertex \<Rightarrow> 'f CLPAState \<Rightarrow> 'f CLPAState res" where
  "CLPA_AddVertex P v cs =
     bindR (case cs_PartitionMap cs v of
              None \<Rightarrow> Addr2Shard (ShardNum P) (vx_Addr v)
            | Some val \<Rightarrow> Inr val) (\<lambda>s.
     bindR (add_at s 1 (cs_VertexsNumInShard cs)) (\<lambda>ns.
       Inr (cs\<lparr>cs_NetGraph := Graph_AddVertex v (cs_NetGraph cs),
               cs_PartitionMap := (cs_PartitionMap cs)(v \<mapsto> s), cs_VertexsNumInShard := ns\<rparr>)))"

definition add_if_missing :: "params \<Rightarrow> Vertex \<Rightarrow> 'f CLPAState \<Rightarrow> 'f CLPAState res" where
  "add_if_missing P v cs =
     (if v \<notin> set (gr_VertexSet (cs_NetGraph cs)) then CLPA_AddVertex P v cs else Inr cs)"

definition CLPA_AddEdge :: "params \<Rightarrow> Vertex \<Rightarrow> Vertex \<Rightarrow> 'f CLPAState \<Rightarrow> 'f CLPAState res" where
  "CLPA_AddEdge P u v cs =
     bindR (add_if_missing P u cs) (\<lambda>cs1.
     bindR (add_if_missing P v cs1) (\<lambda>cs2.
       Inr (cs2\<lparr>cs_NetGraph := Graph_AddEdge u v (cs_NetGraph cs2)\<rparr>)))"

text \<open>
  The copy has the fields of the source but the number of cross-shard edges, which stays that of
  the destination. The slice of vertex counts is shared with the source, not copied.
\<close>

definition CopyCLPA :: "'f CLPAState \<Rightarrow> 'f CLPAState \<Rightarrow> 'f CLPAState res" where
  "CopyCLPA src dst =
     bindR (make_ints (cs_ShardNum src)) (\<lambda>z.
       Inr (dst\<lparr>cs_NetGraph := CopyGraph (cs_NetGraph src) (cs_NetGraph dst), cs_PartitionMap := cs_PartitionMap src,
                cs_Edges2Shard := take (length z) (cs_Edges2Shard src) @ drop (length (cs_Edges2Shard src)) z,
                cs_VertexsNumInShard := cs_VertexsNumInShard src, cs_WeightPenalty := cs_WeightPenalty src,
                cs_MinEdges2Shard := cs_MinEdges2Shard src, cs_MaxIterations := cs_MaxIterations src,
                cs_ShardNum := cs_ShardNum src\<rparr>))"

section \<open>Counting edges\<close>

text \<open>One adjacency list: edges that enter a shard from another, and edges inside a shard.\<close>

fun count_list_edges ::
  "('f, 'z) CLPAState_scheme \<Rightarrow> int \<Rightarrow> Vertex list \<Rightarrow> int list \<times> int list \<Rightarrow> (int list \<times> int list) res" where
  "count_list_edges cs vShard [] acc = Inr acc"
| "count_list_edges cs vShard (u # lst) (edges, within) =
     (let uShard = shard_of cs u in
      if vShard \<noteq> uShard
      then bindR (add_at uShard 1 edges) (\<lambda>edges'. count_list_edges cs vShard lst (edges', within))
      else bindR (add_at uShard 1 within) (\<lambda>within'. count_list_edges cs vShard lst (edges, within')))"

fun count_edges ::
  "('f, 'z) CLPAState_scheme \<Rightarrow> (Vertex \<times> Vertex list) list \<Rightarrow> int list \<times> int list \<Rightarrow> (int list \<times> int list) res" where
  "count_edges cs [] acc = Inr acc"
| "count_edges cs ((v, lst) # es) acc =
     bindR (count_list_edges cs (shard_of cs v) lst acc) (count_edges cs es)"

definition min_edges :: "int list \<Rightarrow> int" where
  "min_edges xs = fold (\<lambda>val m. if m > val then val else m) xs MaxInt"

definition ComputeEdges2Shard :: "'f CLPAState \<Rightarrow> 'f CLPAState res" where
  "ComputeEdges2Shard cs =
     bindR (make_ints (cs_ShardNum cs)) (\<lambda>z.
     bindR (count_edges cs (edge_list (cs_NetGraph cs)) (z, z)) (\<lambda>(edges, interEdge).
       let e2s = map2 (\<lambda>e i. e + go_div i 2) edges interEdge
       in Inr (cs\<lparr>cs_CrossShardEdgeNum := go_div (sum_list edges) 2, cs_Edges2Shard := e2s,
                  cs_MinEdges2Shard := min_edges e2s\<rparr>)))"

text \<open>The update of the counts when a vertex has moved from shard \<open>old\<close> to the one it now has.\<close>

fun recompute_loop ::
  "('f, 'z) CLPAState_scheme \<Rightarrow> int \<Rightarrow> int \<Rightarrow> Vertex list \<Rightarrow> int list \<times> int \<Rightarrow> (int list \<times> int) res" where
  "recompute_loop cs new old [] acc = Inr acc"
| "recompute_loop cs new old (u # lst) (edges, cross) =
     (let neighborShard = shard_of cs u in
      if neighborShard \<noteq> new \<and> neighborShard \<noteq> old
      then bindR (add_at new 1 edges) (\<lambda>e1. bindR (add_at old (-1) e1) (\<lambda>e2.
             recompute_loop cs new old lst (e2, cross)))
      else if neighborShard = new
      then bindR (add_at old (-1) edges) (\<lambda>e1. recompute_loop cs new old lst (e1, cross - 1))
      else bindR (add_at new 1 edges) (\<lambda>e1. recompute_loop cs new old lst (e1, cross + 1)))"

definition changeShardRecompute :: "Vertex \<Rightarrow> int \<Rightarrow> 'f CLPAState \<Rightarrow> 'f CLPAState res" where
  "changeShardRecompute v old cs =
     bindR (recompute_loop cs (shard_of cs v) old (edges_of (cs_NetGraph cs) v)
              (cs_Edges2Shard cs, cs_CrossShardEdgeNum cs)) (\<lambda>(edges, cross).
       Inr (cs\<lparr>cs_Edges2Shard := edges, cs_CrossShardEdgeNum := cross, cs_MinEdges2Shard := min_edges edges\<rparr>))"

section \<open>Initial partitions\<close>

definition Init_CLPAState :: "'f \<Rightarrow> int \<Rightarrow> int \<Rightarrow> 'f CLPAState \<Rightarrow> 'f CLPAState res" where
  "Init_CLPAState wp mIter sn cs =
     bindR (make_ints sn) (\<lambda>z.
       Inr (cs\<lparr>cs_WeightPenalty := wp, cs_MaxIterations := mIter, cs_ShardNum := sn,
               cs_VertexsNumInShard := z, cs_PartitionMap := Map.empty\<rparr>))"

text \<open>Placing the vertices one after the other, \<open>place\<close> giving the shard of the \<open>i\<close>-th.\<close>

fun place_all ::
  "(nat \<Rightarrow> Vertex \<Rightarrow> int res) \<Rightarrow> nat \<Rightarrow> Vertex list \<Rightarrow> 'f CLPAState \<Rightarrow> 'f CLPAState res" where
  "place_all place i [] cs = Inr cs"
| "place_all place i (v # vs) cs =
     bindR (place i v) (\<lambda>s.
     bindR (add_at s 1 (cs_VertexsNumInShard cs)) (\<lambda>ns.
       place_all place (i + 1) vs
         (cs\<lparr>cs_PartitionMap := (cs_PartitionMap cs)(v \<mapsto> s), cs_VertexsNumInShard := ns\<rparr>)))"

definition addr_place :: "int \<Rightarrow> Vertex \<Rightarrow> int res" where
  "addr_place shardNum v =
     (if length (vx_Addr v) < 8 then Inl IndexOutOfRange
      else case ParseInt (last8 (vx_Addr v)) of
        None \<Rightarrow> Inl (LogPanic '''')
      | Some num \<Rightarrow> if shardNum = 0 then Inl IntegerDivideByZero else Inr (go_mod num shardNum))"

definition Init_Partition :: "'f CLPAState \<Rightarrow> 'f CLPAState res" where
  "Init_Partition cs =
     bindR (make_ints (cs_ShardNum cs)) (\<lambda>z.
     bindR (place_all (\<lambda>i v. addr_place (cs_ShardNum cs) v) 0 (gr_VertexSet (cs_NetGraph cs))
              (cs\<lparr>cs_VertexsNumInShard := z, cs_PartitionMap := Map.empty\<rparr>)) ComputeEdges2Shard)"

definition round_robin :: "int \<Rightarrow> nat \<Rightarrow> int res" where
  "round_robin n i = (if n = 0 then Inl IntegerDivideByZero else Inr (go_mod (int i) n))"

text \<open>The inner result is the error of \<open>Stable_Init_Partition\<close>, if any.\<close>

definition Stable_Init_Partition :: "'f CLPAState \<Rightarrow> (string + 'f CLPAState) res" where
  "Stable_Init_Partition cs =
     (if cs_ShardNum cs > int (length (gr_VertexSet (cs_NetGraph cs)))
      then Inr (Inl ''too many shards, number of shards should be less than nodes. '')
      else bindR (make_ints (cs_ShardNum cs)) (\<lambda>z.
           bindR (place_all (\<lambda>i v. round_robin (cs_ShardNum cs) i) 0 (gr_VertexSet (cs_NetGraph cs))
              (cs\<lparr>cs_VertexsNumInShard := z, cs_PartitionMap := Map.empty\<rparr>)) (\<lambda>cs1.
           bindR (ComputeEdges2Shard cs1) (\<lambda>cs2. Inr (Inr cs2)))))"

section \<open>Label propagation\<close>

definition getShard_score :: "'f float_ops \<Rightarrow> Vertex \<Rightarrow> int \<Rightarrow> 'f CLPAState \<Rightarrow> 'f res" where
  "getShard_score F v uShard cs =
     (let lst = edges_of (cs_NetGraph cs) v;
          v_outdegree = int (length lst);
          Edgesto_uShard = int (length (filter (\<lambda>item. shard_of cs item = uShard) lst))
      in bindR (get_at uShard (cs_Edges2Shard cs)) (\<lambda>e.
        Inr (fl_mul F (fl_div F (fl_int F Edgesto_uShard) (fl_int F v_outdegree))
               (fl_sub F (fl_int F 1)
                  (fl_div F (fl_mul F (cs_WeightPenalty cs) (fl_int F e)) (fl_int F (cs_MinEdges2Shard cs)))))))"

text \<open>The best shard among those of the neighbours; each is scored once.\<close>

fun best_shard ::
  "'f float_ops \<Rightarrow> Vertex \<Rightarrow> 'f CLPAState \<Rightarrow> Vertex list \<Rightarrow> int set \<Rightarrow> 'f \<Rightarrow> int \<Rightarrow> int res" where
  "best_shard F v cs [] computed max_score max_scoreShard = Inr max_scoreShard"
| "best_shard F v cs (u # lst) computed max_score max_scoreShard =
     (let uShard = shard_of cs u in
      if uShard \<in> computed then best_shard F v cs lst computed max_score max_scoreShard
      else bindR (getShard_score F v uShard cs) (\<lambda>score.
        if fl_less F max_score score then best_shard F v cs lst (insert uShard computed) score uShard
        else best_shard F v cs lst (insert uShard computed) max_score max_scoreShard))"

text \<open>The result map, the number of moves of each account, and the state.\<close>

record 'f clpa_run =
  cr_res :: "Address \<rightharpoonup> u64"
  cr_updates :: "Address \<Rightarrow> nat"
  cr_cs :: "'f CLPAState"

definition move_vertex :: "Vertex \<Rightarrow> int \<Rightarrow> 'f clpa_run \<Rightarrow> 'f clpa_run res" where
  "move_vertex v new r =
     (let cs = cr_cs r; old = shard_of cs v in
      bindR (add_at old (-1) (cs_VertexsNumInShard cs)) (\<lambda>n1.
      bindR (add_at new 1 n1) (\<lambda>n2.
      bindR (changeShardRecompute v old
               (cs\<lparr>cs_PartitionMap := (cs_PartitionMap cs)(v \<mapsto> new), cs_VertexsNumInShard := n2\<rparr>)) (\<lambda>cs'.
        Inr \<lparr>cr_res = (cr_res r)(vx_Addr v \<mapsto> of_int new),
             cr_updates = (cr_updates r)(vx_Addr v := cr_updates r (vx_Addr v) + 1), cr_cs = cs'\<rparr>))))"

definition visit_vertex :: "'f float_ops \<Rightarrow> Vertex \<Rightarrow> 'f clpa_run \<Rightarrow> 'f clpa_run res" where
  "visit_vertex F v r =
     (if cr_updates r (vx_Addr v) \<ge> 50 then Inr r
      else let cs = cr_cs r; vNowShard = shard_of cs v in
        bindR (best_shard F v cs (edges_of (cs_NetGraph cs) v) {} (fl_int F (-9999)) vNowShard) (\<lambda>max_scoreShard.
          if vNowShard \<noteq> max_scoreShard
          then bindR (get_at vNowShard (cs_VertexsNumInShard cs)) (\<lambda>n.
            if n > 1 then move_vertex v max_scoreShard r else Inr r)
          else Inr r))"

text \<open>\<open>ord iter\<close> is the order in which iteration \<open>iter\<close> visits the vertices.\<close>

fun clpa_iterations :: "'f float_ops \<Rightarrow> (nat \<Rightarrow> Vertex list) \<Rightarrow> nat \<Rightarrow> nat \<Rightarrow> 'f clpa_run \<Rightarrow> 'f clpa_run res" where
  "clpa_iterations F ord iter 0 r = Inr r"
| "clpa_iterations F ord iter (Suc n) r =
     bindR (foldR (visit_vertex F) (ord iter) r) (clpa_iterations F ord (iter + 1) n)"

definition CLPA_Partition ::
  "'f float_ops \<Rightarrow> (nat \<Rightarrow> Vertex list) \<Rightarrow> 'f CLPAState \<Rightarrow> ((Address \<rightharpoonup> u64) \<times> int \<times> 'f CLPAState) res" where
  "CLPA_Partition F ord cs =
     bindR (ComputeEdges2Shard cs) (\<lambda>cs1.
     bindR (clpa_iterations F ord 0 (nat (cs_MaxIterations cs1))
              \<lparr>cr_res = Map.empty, cr_updates = (\<lambda>_. 0), cr_cs = cs1\<rparr>) (\<lambda>r.
     bindR (ComputeEdges2Shard (cr_cs r)) (\<lambda>cs2.
       Inr (cr_res r, cs_CrossShardEdgeNum cs2, cs2))))"

definition EraseEdges :: "'f CLPAState \<Rightarrow> 'f CLPAState" where
  "EraseEdges cs = cs\<lparr>cs_NetGraph := (cs_NetGraph cs)\<lparr>gr_EdgeSet := Some []\<rparr>\<rparr>"

end
