(* ===== verification/Clpa_Counts.thy ===== *)
theory Clpa_Counts
  imports Clpa
begin

text \<open>
  What the counters of the partition mean. A graph built by \<open>AddEdge\<close> represents a list of
  undirected edges; \<open>Edges2Shard\<close> counts, for each shard, the edges that touch it, and
  \<open>CrossShardEdgeNum\<close> the edges whose ends are in two shards. The incremental update after the
  move of one vertex gives the same counters as counting all edges again, provided the vertex has
  no edge to itself.
\<close>

section \<open>Undirected edges of a graph\<close>

definition directed :: "(Vertex \<times> Vertex list) list \<Rightarrow> (Vertex \<times> Vertex) list" where
  "directed es = concat (map (\<lambda>(v, lst). map (Pair v) lst) es)"

definition represents :: "Graph \<Rightarrow> (Vertex \<times> Vertex) list \<Rightarrow> bool" where
  "represents g us \<longleftrightarrow> distinct (map fst (edge_list g)) \<and>
     mset (directed (edge_list g)) = mset us + mset (map prod.swap us)"

definition touching :: "(Vertex \<Rightarrow> int) \<Rightarrow> int \<Rightarrow> (Vertex \<times> Vertex) list \<Rightarrow> nat" where
  "touching sh k us = length (filter (\<lambda>(a, b). sh a = k \<or> sh b = k) us)"

definition crossing :: "(Vertex \<Rightarrow> int) \<Rightarrow> (Vertex \<times> Vertex) list \<Rightarrow> nat" where
  "crossing sh us = length (filter (\<lambda>(a, b). sh a \<noteq> sh b) us)"

lemma directed_simps [simp]:
  "directed [] = []"
  "directed ((v, lst) # es) = map (Pair v) lst @ directed es"
  by (simp_all add: directed_def)

lemma directed_append [simp]: "directed (xs @ ys) = directed xs @ directed ys"
  by (simp add: directed_def)

lemma fst_directed: "p \<in> set (directed es) \<Longrightarrow> fst p \<in> fst ` set es"
  by (induction es) (auto simp: image_iff)

lemma length_filter_mset: "mset xs = mset ys \<Longrightarrow> length (filter Q xs) = length (filter Q ys)"
  by (metis mset_filter size_mset)

lemma sum_list_mset:
  fixes f :: "'a \<Rightarrow> int"
  shows "mset xs = mset ys \<Longrightarrow> sum_list (map f xs) = sum_list (map f ys)"
  by (metis mset_map sum_mset_sum_list)

lemma represents_mset:
  "represents g us \<Longrightarrow> mset (directed (edge_list g)) = mset (us @ map prod.swap us)"
  by (simp add: represents_def)

lemma edges_of_directed:
  assumes "distinct (map fst (edge_list g))"
  shows "edges_of g v = map snd (filter (\<lambda>p. fst p = v) (directed (edge_list g)))"
proof -
  have none: "filter (\<lambda>p. fst p = v) (directed es) = []" if "v \<notin> fst ` set es" for es
    using that fst_directed by (auto simp: filter_empty_conv)
  have "(case map_of es v of None \<Rightarrow> [] | Some lst \<Rightarrow> lst) =
      map snd (filter (\<lambda>p. fst p = v) (directed es))" if "distinct (map fst es)" for es
    using that
  proof (induction es)
    case Nil
    then show ?case by simp
  next
    case (Cons e es)
    obtain w lst where e: "e = (w, lst)" by (cases e)
    show ?case
    proof (cases "w = v")
      case True
      then have "v \<notin> fst ` set es" using Cons.prems e by auto
      then show ?thesis using True by (simp add: e none filter_map comp_def)
    next
      case False
      then show ?thesis using Cons by (simp add: e filter_map comp_def)
    qed
  qed
  then show ?thesis using assms by (simp add: edges_of_def)
qed

lemma length_filter_represents:
  assumes "represents g us"
  shows "length (filter Q (directed (edge_list g))) =
    length (filter Q us) + length (filter (\<lambda>(a, b). Q (b, a)) us)"
proof -
  have "length (filter Q (directed (edge_list g))) = length (filter Q us) + length (filter Q (map prod.swap us))"
    using length_filter_mset [OF represents_mset [OF assms], of Q] by simp
  also have "filter Q (map prod.swap us) = map prod.swap (filter (\<lambda>(a, b). Q (b, a)) us)"
    by (induction us) auto
  finally show ?thesis by simp
qed

lemma sum_neighbours:
  fixes h :: "Vertex \<Rightarrow> int"
  assumes "represents g us"
  shows "sum_list (map h (edges_of g v)) =
    (\<Sum>(a, b)\<leftarrow>us. (if a = v then h b else 0) + (if b = v then h a else 0))"
proof -
  let ?f = "\<lambda>(a, b). if a = v then h b else 0"
  have "sum_list (map h (map snd (filter (\<lambda>p. fst p = v) ps))) = sum_list (map ?f ps)" for ps
    by (induction ps) auto
  then have "sum_list (map h (edges_of g v)) = sum_list (map ?f (directed (edge_list g)))"
    using assms by (simp add: edges_of_directed represents_def)
  also have "\<dots> = sum_list (map ?f us) + sum_list (map ?f (map prod.swap us))"
    using sum_list_mset [OF represents_mset [OF assms], of ?f] by simp
  also have "\<dots> = (\<Sum>(a, b)\<leftarrow>us. (if a = v then h b else 0) + (if b = v then h a else 0))"
    by (induction us) auto
  finally show ?thesis .
qed

section \<open>Counting all edges\<close>

lemma map_upt_nth: "length xs = n \<Longrightarrow> xs = map (\<lambda>k. xs ! k) [0..<n]"
  by (simp add: list_eq_iff_nth_eq)

definition count_pair ::
  "('f, 'z) CLPAState_scheme \<Rightarrow> Vertex \<times> Vertex \<Rightarrow> int list \<times> int list \<Rightarrow> (int list \<times> int list) res" where
  "count_pair cs p acc =
     (if shard_of cs (fst p) \<noteq> shard_of cs (snd p)
      then bindR (add_at (shard_of cs (snd p)) 1 (fst acc)) (\<lambda>e. Inr (e, snd acc))
      else bindR (add_at (shard_of cs (snd p)) 1 (snd acc)) (\<lambda>w. Inr (fst acc, w)))"

lemma count_list_edges_fold:
  "count_list_edges cs (shard_of cs v) lst acc = foldR (count_pair cs) (map (Pair v) lst) acc"
proof (induction lst arbitrary: acc)
  case Nil
  then show ?case by simp
next
  case (Cons u lst)
  then show ?case
    by (cases acc) (auto simp: count_pair_def Let_def bindR_def split: sum.splits)
qed

lemma count_edges_fold: "count_edges cs es acc = foldR (count_pair cs) (directed es) acc"
proof (induction es arbitrary: acc)
  case Nil
  then show ?case by simp
next
  case (Cons e es)
  have "count_edges cs es = foldR (count_pair cs) (directed es)" using Cons.IH by (rule ext)
  then show ?case by (cases e) (simp add: count_list_edges_fold foldR_append)
qed

abbreviation tally :: "(nat \<Rightarrow> 'p \<Rightarrow> bool) \<Rightarrow> 'p list \<Rightarrow> nat \<Rightarrow> int" where
  "tally Q ps k \<equiv> int (length (filter (Q k) ps))"

lemma count_pairs:
  assumes "\<forall>p \<in> set ps. 0 \<le> shard_of cs (snd p) \<and> shard_of cs (snd p) < int n"
  shows "foldR (count_pair cs) ps (map f [0..<n], map g [0..<n]) =
    Inr (map (\<lambda>k. f k + tally (\<lambda>k (a, b). shard_of cs a \<noteq> shard_of cs b \<and> shard_of cs b = int k) ps k) [0..<n],
         map (\<lambda>k. g k + tally (\<lambda>k (a, b). shard_of cs a = shard_of cs b \<and> shard_of cs b = int k) ps k) [0..<n])"
  using assms
proof (induction ps arbitrary: f g)
  case Nil
  then show ?case by simp
next
  case (Cons p ps)
  then show ?case by (cases p) (auto simp: count_pair_def add_at_map)
qed

lemma go_div_2: "0 \<le> a \<Longrightarrow> go_div (2 * a) 2 = a"
  by (cases "a = 0") (auto simp: go_div_def sgn_if)

lemma sum_tally:
  assumes "\<forall>p \<in> set ps. 0 \<le> h p \<and> h p < int n"
  shows "(\<Sum>k\<leftarrow>[0..<n]. tally (\<lambda>k p. Q p \<and> h p = int k) ps k) = int (length (filter Q ps))"
  using assms
proof (induction ps)
  case Nil
  then show ?case by (simp add: sum_list_triv)
next
  case (Cons p ps)
  have one: "(\<Sum>k\<leftarrow>[0..<n]. if h p = int k then 1 else 0) = (1 :: int)"
  proof -
    obtain j where j: "h p = int j" "j < n"
      using Cons.prems zero_le_imp_eq_int [of "h p"] by auto
    have "(\<Sum>k\<leftarrow>[0..<n]. if j = k then 1 else 0) = (\<Sum>k = 0..<n. if j = k then 1 else (0 :: int))"
      by (simp add: sum_list_distinct_conv_sum_set)
    then show ?thesis using j by simp
  qed
  have "(\<Sum>k\<leftarrow>[0..<n]. tally (\<lambda>k p. Q p \<and> h p = int k) (p # ps) k) =
      (\<Sum>k\<leftarrow>[0..<n]. tally (\<lambda>k p. Q p \<and> h p = int k) ps k) +
      (\<Sum>k\<leftarrow>[0..<n]. if Q p then (if h p = int k then 1 else 0) else 0)"
    by (subst sum_list_addf [symmetric]) (rule arg_cong [where f = sum_list], auto)
  also have "(\<Sum>k\<leftarrow>[0..<n]. if Q p then (if h p = int k then 1 else 0) else 0) = (if Q p then 1 else (0 :: int))"
    using one by (simp add: sum_list_triv)
  finally show ?case using Cons by simp
qed

text \<open>The ends of the edges are placed in a shard.\<close>

definition ends_placed :: "(Vertex \<times> Vertex) list \<Rightarrow> ('f, 'z) CLPAState_scheme \<Rightarrow> bool" where
  "ends_placed us cs \<longleftrightarrow> 0 \<le> cs_ShardNum cs \<and> represents (cs_NetGraph cs) us \<and>
     (\<forall>(a, b) \<in> set us. 0 \<le> shard_of cs a \<and> shard_of cs a < cs_ShardNum cs \<and>
        0 \<le> shard_of cs b \<and> shard_of cs b < cs_ShardNum cs)"

lemma set_directed:
  assumes "represents g us"
  shows "set (directed (edge_list g)) = set us \<union> prod.swap ` set us"
  using assms unfolding represents_def
  by (metis set_map set_mset_mset set_mset_union)

lemma ComputeEdges2Shard_eq:
  assumes "ends_placed us cs"
  shows "ComputeEdges2Shard cs = Inr (cs\<lparr>
    cs_CrossShardEdgeNum := int (crossing (shard_of cs) us),
    cs_Edges2Shard := map (\<lambda>k. int (touching (shard_of cs) (int k) us)) [0..<nat (cs_ShardNum cs)],
    cs_MinEdges2Shard := min_edges (map (\<lambda>k. int (touching (shard_of cs) (int k) us)) [0..<nat (cs_ShardNum cs)])\<rparr>)"
proof -
  let ?sh = "shard_of cs" and ?n = "nat (cs_ShardNum cs)" and ?ps = "directed (edge_list (cs_NetGraph cs))"
  let ?E = "\<lambda>k (a, b). ?sh a \<noteq> ?sh b \<and> ?sh b = int k"
  let ?I = "\<lambda>k (a, b). ?sh a = ?sh b \<and> ?sh b = int k"
  have rep: "represents (cs_NetGraph cs) us" and n: "0 \<le> cs_ShardNum cs"
    using assms by (simp_all add: ends_placed_def)
  have range: "\<forall>p \<in> set ?ps. 0 \<le> ?sh (snd p) \<and> ?sh (snd p) < int ?n"
    using assms n by (auto simp: set_directed [OF rep] ends_placed_def)
  have zeros: "make_ints (cs_ShardNum cs) = Inr (map (\<lambda>k. 0) [0..<?n])"
    using n by (simp add: make_ints_def map_replicate_const)
  have count: "count_edges cs (edge_list (cs_NetGraph cs)) (map (\<lambda>k. 0) [0..<?n], map (\<lambda>k. 0) [0..<?n]) =
      Inr (map (tally ?E ?ps) [0..<?n], map (tally ?I ?ps) [0..<?n])"
    using count_pairs [OF range, of "\<lambda>k. 0" "\<lambda>k. 0"] by (simp add: count_edges_fold)
  have "sum_list (map (tally ?E ?ps) [0..<?n]) = int (length (filter (\<lambda>(a, b). ?sh a \<noteq> ?sh b) ?ps))"
    using sum_tally [OF range, of "\<lambda>(a, b). ?sh a \<noteq> ?sh b"] by (simp add: case_prod_unfold)
  also have "\<dots> = 2 * int (crossing ?sh us)"
  proof -
    have "filter (\<lambda>(a, b). ?sh b \<noteq> ?sh a) us = filter (\<lambda>(a, b). ?sh a \<noteq> ?sh b) us"
      by (rule filter_cong) auto
    then show ?thesis by (simp add: length_filter_represents [OF rep] crossing_def)
  qed
  finally have cross: "go_div (sum_list (map (tally ?E ?ps) [0..<?n])) 2 = int (crossing ?sh us)"
    by (simp add: go_div_2)
  have "tally ?E ?ps k + go_div (tally ?I ?ps k) 2 = int (touching ?sh (int k) us)" for k
  proof -
    have "filter (\<lambda>(a, b). ?sh b = ?sh a \<and> ?sh a = int k) us = filter (?I k) us"
      by (rule filter_cong) auto
    then have "tally ?I ?ps k = 2 * tally ?I us k"
      by (simp add: length_filter_represents [OF rep])
    then have "go_div (tally ?I ?ps k) 2 = tally ?I us k" by (simp add: go_div_2)
    moreover have "length (filter (?E k) us) + length (filter (\<lambda>(a, b). ?sh b \<noteq> ?sh a \<and> ?sh a = int k) us) +
        length (filter (?I k) us) = touching ?sh (int k) us" for us
      unfolding touching_def by (induction us) auto
    ultimately show ?thesis by (simp add: length_filter_represents [OF rep] flip: of_nat_add)
  qed
  then have e2s: "map2 (\<lambda>e i. e + go_div i 2) (map (tally ?E ?ps) [0..<?n]) (map (tally ?I ?ps) [0..<?n]) =
      map (\<lambda>k. int (touching ?sh (int k) us)) [0..<?n]"
    by (simp add: list_eq_iff_nth_eq)
  show ?thesis
    unfolding ComputeEdges2Shard_def zeros bindR_simps count prod.case e2s cross Let_def ..
qed

section \<open>Counting after a move\<close>

definition edge_delta :: "int \<Rightarrow> int \<Rightarrow> int \<Rightarrow> int \<Rightarrow> int" where
  "edge_delta new old k s =
     (if s \<noteq> new \<and> k = new then 1 else 0) - (if s \<noteq> old \<and> k = old then 1 else 0)"

definition cross_delta :: "int \<Rightarrow> int \<Rightarrow> int \<Rightarrow> int" where
  "cross_delta new old s = (if s \<noteq> new then 1 else 0) - (if s \<noteq> old then 1 else 0)"

lemma recompute_loop_eq:
  assumes "0 \<le> new" "new < int n" "0 \<le> old" "old < int n" "new \<noteq> old"
  shows "recompute_loop cs new old lst (map f [0..<n], c) =
    Inr (map (\<lambda>k. f k + (\<Sum>u\<leftarrow>lst. edge_delta new old (int k) (shard_of cs u))) [0..<n],
         c + (\<Sum>u\<leftarrow>lst. cross_delta new old (shard_of cs u)))"
proof (induction lst arbitrary: f c)
  case Nil
  then show ?case by simp
next
  case (Cons u lst)
  then show ?case
    using assms by (auto simp: Let_def add_at_map edge_delta_def cross_delta_def)
qed

lemma touching_move:
  assumes "(v, v) \<notin> set us" and "sh v = old" and "new \<noteq> old"
  shows "int (touching (sh(v := new)) k us) = int (touching sh k us) +
    (\<Sum>(a, b)\<leftarrow>us. (if a = v then edge_delta new old k ((sh(v := new)) b) else 0) +
       (if b = v then edge_delta new old k ((sh(v := new)) a) else 0))"
  using assms(1)
proof (induction us)
  case Nil
  then show ?case by (simp add: touching_def)
next
  case (Cons p us)
  then show ?case using assms(2,3)
    by (cases p) (auto simp: touching_def edge_delta_def)
qed

lemma crossing_move:
  assumes "(v, v) \<notin> set us" and "sh v = old" and "new \<noteq> old"
  shows "int (crossing (sh(v := new)) us) = int (crossing sh us) +
    (\<Sum>(a, b)\<leftarrow>us. (if a = v then cross_delta new old ((sh(v := new)) b) else 0) +
       (if b = v then cross_delta new old ((sh(v := new)) a) else 0))"
  using assms(1)
proof (induction us)
  case Nil
  then show ?case by (simp add: crossing_def)
next
  case (Cons p us)
  then show ?case using assms(2,3)
    by (cases p) (auto simp: crossing_def cross_delta_def)
qed

text \<open>The counters are those of a full count.\<close>

definition up_to_date :: "'f CLPAState \<Rightarrow> bool" where
  "up_to_date cs \<longleftrightarrow> ComputeEdges2Shard cs = Inr cs"

definition place_vertex :: "Vertex \<Rightarrow> int \<Rightarrow> 'f CLPAState \<Rightarrow> 'f CLPAState" where
  "place_vertex v s cs = cs\<lparr>cs_PartitionMap := (cs_PartitionMap cs)(v \<mapsto> s)\<rparr>"

lemma shard_of_place [simp]: "shard_of (place_vertex v s cs) = (shard_of cs)(v := s)"
  by (auto simp: place_vertex_def shard_of_def)

lemma place_vertex_simps [simp]:
  "cs_NetGraph (place_vertex v s cs) = cs_NetGraph cs"
  "cs_ShardNum (place_vertex v s cs) = cs_ShardNum cs"
  "cs_Edges2Shard (place_vertex v s cs) = cs_Edges2Shard cs"
  "cs_CrossShardEdgeNum (place_vertex v s cs) = cs_CrossShardEdgeNum cs"
  "cs_VertexsNumInShard (place_vertex v s cs) = cs_VertexsNumInShard cs"
  "cs_MaxIterations (place_vertex v s cs) = cs_MaxIterations cs"
  by (simp_all add: place_vertex_def)

lemma ends_placed_place:
  assumes "ends_placed us cs" and "0 \<le> s" and "s < cs_ShardNum cs"
  shows "ends_placed us (place_vertex v s cs)"
  using assms by (auto simp: ends_placed_def)

lemma up_to_date_counts:
  assumes "ends_placed us cs" and "up_to_date cs"
  shows "cs_CrossShardEdgeNum cs = int (crossing (shard_of cs) us)"
    and "cs_Edges2Shard cs = map (\<lambda>k. int (touching (shard_of cs) (int k) us)) [0..<nat (cs_ShardNum cs)]"
proof -
  have "Inr cs = ComputeEdges2Shard cs" using assms(2) by (simp add: up_to_date_def)
  then have eq: "cs = cs\<lparr>cs_CrossShardEdgeNum := int (crossing (shard_of cs) us),
    cs_Edges2Shard := map (\<lambda>k. int (touching (shard_of cs) (int k) us)) [0..<nat (cs_ShardNum cs)],
    cs_MinEdges2Shard := min_edges (map (\<lambda>k. int (touching (shard_of cs) (int k) us)) [0..<nat (cs_ShardNum cs)])\<rparr>"
    by (simp only: ComputeEdges2Shard_eq [OF assms(1)] sum.inject)
  show "cs_CrossShardEdgeNum cs = int (crossing (shard_of cs) us)"
    using arg_cong [OF eq, of cs_CrossShardEdgeNum] by simp
  show "cs_Edges2Shard cs = map (\<lambda>k. int (touching (shard_of cs) (int k) us)) [0..<nat (cs_ShardNum cs)]"
    using arg_cong [OF eq, of cs_Edges2Shard] by simp
qed

lemma min_edges_min: "x \<in> set xs \<Longrightarrow> min_edges xs \<le> x"
proof -
  have mono: "fold (\<lambda>val m. if m > val then val else m) ys m \<le> m" for ys and m :: int
  proof (induction ys arbitrary: m)
    case Nil
    then show ?case by simp
  next
    case (Cons y ys)
    from Cons.IH [of y] Cons.IH [of m] show ?case by auto
  qed
  have "x \<in> set ys \<Longrightarrow> fold (\<lambda>val m. if m > val then val else m) ys m \<le> x" for ys and m :: int
  proof (induction ys arbitrary: m)
    case Nil
    then show ?case by simp
  next
    case (Cons y ys)
    then show ?case using mono [of ys y] mono [of ys m] by (auto intro: order_trans)
  qed
  then show "x \<in> set xs \<Longrightarrow> min_edges xs \<le> x" by (simp add: min_edges_def)
qed

end
