(* ===== verification/Clpa_Partition.thy ===== *)
theory Clpa_Partition
  imports Clpa_Counts
begin

text \<open>
  Correctness of the account partition: the invariant of the state of \<open>partition_CLPA.go\<close> and that
  adding edges keeps it, the equality of the fast and the full count after a move, that label
  propagation always returns with a placement of every account and empties no shard, and the
  initial partition that leaves no shard empty.
\<close>

section \<open>The invariant\<close>

definition population :: "(Vertex \<Rightarrow> int) \<Rightarrow> int \<Rightarrow> Vertex list \<Rightarrow> int" where
  "population sh k V = int (length (filter (\<lambda>w. sh w = k) V))"

lemma population_Cons: "population sh k (w # V) = (if sh w = k then 1 else 0) + population sh k V"
  by (simp add: population_def)

lemma population_other:
  assumes "v \<notin> set V"
  shows "population (sh(v := s)) k V = population sh k V"
proof -
  have "filter (\<lambda>w. (sh(v := s)) w = k) V = filter (\<lambda>w. sh w = k) V"
    using assms by (intro filter_cong) auto
  then show ?thesis by (simp only: population_def)
qed

lemma population_move:
  assumes "distinct V" and "v \<in> set V"
  shows "population (sh(v := new)) k V =
    population sh k V + (if k = sh v then - 1 else 0) + (if k = new then 1 else 0)"
  using assms
proof (induction V)
  case Nil
  then show ?case by simp
next
  case (Cons w V)
  show ?case
  proof (cases "w = v")
    case True
    then have "population (sh(v := new)) k V = population sh k V"
      using Cons.prems by (intro population_other) simp
    then show ?thesis using True by (auto simp: population_Cons fun_upd_def)
  next
    case False
    then show ?thesis using Cons by (simp add: population_Cons)
  qed
qed

definition numbered :: "('f, 'z) CLPAState_scheme \<Rightarrow> bool" where
  "numbered cs \<longleftrightarrow> cs_VertexsNumInShard cs =
     map (\<lambda>k. population (shard_of cs) (int k) (gr_VertexSet (cs_NetGraph cs))) [0..<nat (cs_ShardNum cs)]"

definition clpa_ok :: "(Vertex \<times> Vertex) list \<Rightarrow> 'f CLPAState \<Rightarrow> bool" where
  "clpa_ok us cs \<longleftrightarrow> represents (cs_NetGraph cs) us \<and> distinct (gr_VertexSet (cs_NetGraph cs)) \<and>
     fst ` set us \<union> snd ` set us \<subseteq> set (gr_VertexSet (cs_NetGraph cs)) \<and>
     set (gr_VertexSet (cs_NetGraph cs)) \<subseteq> dom (cs_PartitionMap cs) \<and>
     ran (cs_PartitionMap cs) \<subseteq> {0..<cs_ShardNum cs} \<and> 0 < cs_ShardNum cs \<and> numbered cs"

lemma clpa_ok_shard:
  assumes "clpa_ok us cs" and "v \<in> set (gr_VertexSet (cs_NetGraph cs))"
  shows "0 \<le> shard_of cs v \<and> shard_of cs v < cs_ShardNum cs"
proof -
  have "v \<in> dom (cs_PartitionMap cs)" using assms by (auto simp: clpa_ok_def)
  then obtain s where s: "cs_PartitionMap cs v = Some s" by blast
  then have "s \<in> ran (cs_PartitionMap cs)" by (rule ranI)
  then show ?thesis using assms s by (auto simp: clpa_ok_def shard_of_def)
qed

lemma clpa_ok_ends:
  assumes "clpa_ok us cs"
  shows "ends_placed us cs"
proof -
  have "a \<in> set (gr_VertexSet (cs_NetGraph cs)) \<and> b \<in> set (gr_VertexSet (cs_NetGraph cs))"
    if "(a, b) \<in> set us" for a b
    using assms that by (force simp: clpa_ok_def)
  then show ?thesis
    using assms clpa_ok_shard [OF assms] by (auto simp: ends_placed_def clpa_ok_def)
qed

lemma clpa_ok_neighbours:
  assumes "clpa_ok us cs" and "u \<in> set (edges_of (cs_NetGraph cs) v)"
  shows "u \<in> set (gr_VertexSet (cs_NetGraph cs))"
proof -
  have rep: "represents (cs_NetGraph cs) us" using assms(1) by (simp add: clpa_ok_def)
  then have "u \<in> snd ` set (directed (edge_list (cs_NetGraph cs)))"
    using assms(2) by (auto simp: edges_of_directed represents_def)
  then have "u \<in> fst ` set us \<union> snd ` set us" by (force simp: set_directed [OF rep])
  then show ?thesis using assms(1) by (auto simp: clpa_ok_def)
qed

section \<open>Adding edges\<close>

lemma directed_update:
  assumes "distinct (map fst es)"
  shows "mset (directed (AList.update u ((case map_of es u of None \<Rightarrow> [] | Some l \<Rightarrow> l) @ [v]) es)) =
    add_mset (u, v) (mset (directed es))"
  using assms by (induction es) auto

lemma append_edge_directed:
  assumes "distinct (map fst (edge_list g))"
  shows "distinct (map fst (edge_list (append_edge u v g)))"
    and "mset (directed (edge_list (append_edge u v g))) = add_mset (u, v) (mset (directed (edge_list g)))"
  using assms directed_update [OF assms, of u v] distinct_update [OF assms]
  by (simp_all add: append_edge_def edge_list_def edges_of_def)

lemma Graph_AddEdge_represents:
  assumes "represents g us"
  shows "represents (Graph_AddEdge u v g) (us @ [(u, v)])"
proof -
  define g0 where "g0 = (let g1 = (if u \<notin> set (gr_VertexSet g) then Graph_AddVertex u g else g)
    in if v \<notin> set (gr_VertexSet g1) then Graph_AddVertex v g1 else g1)"
  have e: "edge_list g0 = edge_list g" by (simp add: g0_def edge_list_def Let_def Graph_AddVertex_def)
  have g: "Graph_AddEdge u v g = append_edge v u (append_edge u v g0)"
    by (simp add: Graph_AddEdge_def g0_def Let_def)
  have d: "distinct (map fst (edge_list g0))" using assms by (simp add: e represents_def)
  show ?thesis
    using assms append_edge_directed [OF d, of u v]
      append_edge_directed [OF append_edge_directed(1) [OF d], of v u u v]
    by (simp add: represents_def g e)
qed

lemma Graph_AddEdge_vertices:
  assumes "u \<in> set (gr_VertexSet g)" and "v \<in> set (gr_VertexSet g)"
  shows "gr_VertexSet (Graph_AddEdge u v g) = gr_VertexSet g"
  using assms by (simp add: Graph_AddEdge_def append_edge_def Let_def)

lemma add_if_missing_ok:
  assumes ok: "clpa_ok us cs" and n: "ShardNum P = cs_ShardNum cs"
    and addr: "\<exists>s. Addr2Shard (ShardNum P) (vx_Addr v) = Inr s"
  shows "\<exists>cs'. add_if_missing P v cs = Inr cs' \<and> clpa_ok us cs' \<and> cs_ShardNum cs' = cs_ShardNum cs \<and>
    set (gr_VertexSet (cs_NetGraph cs')) = insert v (set (gr_VertexSet (cs_NetGraph cs)))"
proof (cases "v \<in> set (gr_VertexSet (cs_NetGraph cs))")
  case True
  then show ?thesis using ok by (auto simp: add_if_missing_def)
next
  case False
  let ?V = "gr_VertexSet (cs_NetGraph cs)"
  have pos: "0 < cs_ShardNum cs" using ok by (simp add: clpa_ok_def)
  obtain s where s: "(case cs_PartitionMap cs v of None \<Rightarrow> Addr2Shard (ShardNum P) (vx_Addr v)
      | Some val \<Rightarrow> Inr val) = Inr s" and bound: "0 \<le> s" "s < cs_ShardNum cs"
  proof (cases "cs_PartitionMap cs v")
    case None
    from addr obtain s where "Addr2Shard (ShardNum P) (vx_Addr v) = Inr s" ..
    then show thesis using None that Addr2Shard_bounds [of "ShardNum P"] n pos by auto
  next
    case (Some s)
    then have "s \<in> ran (cs_PartitionMap cs)" by (auto simp: ran_def)
    then show thesis using Some that ok by (auto simp: clpa_ok_def)
  qed
  let ?num = "\<lambda>k. population (shard_of cs) (int k) ?V"
  define cs' where "cs' = cs\<lparr>cs_NetGraph := Graph_AddVertex v (cs_NetGraph cs),
    cs_PartitionMap := (cs_PartitionMap cs)(v \<mapsto> s),
    cs_VertexsNumInShard := map (\<lambda>k. ?num k + (if int k = s then 1 else 0)) [0..<nat (cs_ShardNum cs)]\<rparr>"
  have "add_at s 1 (cs_VertexsNumInShard cs) = Inr (cs_VertexsNumInShard cs')"
    using ok bound by (simp add: clpa_ok_def numbered_def add_at_map cs'_def)
  then have step: "add_if_missing P v cs = Inr cs'"
    using False by (simp add: add_if_missing_def CLPA_AddVertex_def s cs'_def)
  have V: "gr_VertexSet (cs_NetGraph cs') = v # ?V"
    using False by (simp add: cs'_def Graph_AddVertex_def)
  have sh: "shard_of cs' = (shard_of cs)(v := s)"
    by (auto simp: cs'_def shard_of_def)
  have "numbered cs'"
    unfolding numbered_def V sh using False by (auto simp: population_Cons population_other) (simp_all add: cs'_def)
  moreover have "represents (cs_NetGraph cs') us"
    using ok by (simp add: clpa_ok_def represents_def cs'_def Graph_AddVertex_def edge_list_def)
  ultimately have "clpa_ok us cs'"
    using ok bound False V by (auto simp: clpa_ok_def cs'_def ran_def split: if_splits)
  then show ?thesis using step V by (auto simp: cs'_def)
qed

lemma CLPA_AddEdge_keeps:
  assumes "clpa_ok us cs" and "ShardNum P = cs_ShardNum cs"
    and "\<exists>s. Addr2Shard (ShardNum P) (vx_Addr u) = Inr s" and "\<exists>s. Addr2Shard (ShardNum P) (vx_Addr v) = Inr s"
  shows "\<exists>cs'. CLPA_AddEdge P u v cs = Inr cs' \<and> clpa_ok (us @ [(u, v)]) cs' \<and> cs_ShardNum cs' = cs_ShardNum cs"
proof -
  obtain cs1 where 1: "add_if_missing P u cs = Inr cs1" "clpa_ok us cs1" "cs_ShardNum cs1 = cs_ShardNum cs"
    "set (gr_VertexSet (cs_NetGraph cs1)) = insert u (set (gr_VertexSet (cs_NetGraph cs)))"
    using add_if_missing_ok [OF assms(1,2,3)] by blast
  obtain cs2 where 2: "add_if_missing P v cs1 = Inr cs2" "clpa_ok us cs2" "cs_ShardNum cs2 = cs_ShardNum cs1"
    "set (gr_VertexSet (cs_NetGraph cs2)) = insert v (set (gr_VertexSet (cs_NetGraph cs1)))"
    using add_if_missing_ok [OF 1(2), of P v] assms(2,4) 1(3) by auto
  let ?cs = "cs2\<lparr>cs_NetGraph := Graph_AddEdge u v (cs_NetGraph cs2)\<rparr>"
  have uv: "u \<in> set (gr_VertexSet (cs_NetGraph cs2))" "v \<in> set (gr_VertexSet (cs_NetGraph cs2))"
    using 1(4) 2(4) by auto
  have sh: "shard_of ?cs = shard_of cs2" by (simp add: shard_of_def fun_eq_iff)
  have "numbered ?cs"
    using 2(2) Graph_AddEdge_vertices [OF uv] by (simp add: clpa_ok_def numbered_def sh)
  then have "clpa_ok (us @ [(u, v)]) ?cs"
    using 2(2) Graph_AddEdge_represents [of "cs_NetGraph cs2" us u v] uv Graph_AddEdge_vertices [OF uv]
    by (simp add: clpa_ok_def)
  then show ?thesis using 1(1,3) 2(1,3) by (simp add: CLPA_AddEdge_def)
qed

text \<open>The transfers of a batch, added one after the other.\<close>

definition add_transfers :: "params \<Rightarrow> (Vertex \<times> Vertex) list \<Rightarrow> 'f CLPAState \<Rightarrow> 'f CLPAState res" where
  "add_transfers P us cs = foldR (\<lambda>(u, v). CLPA_AddEdge P u v) us cs"

lemma add_transfers_keeps:
  assumes "clpa_ok us0 cs" and "ShardNum P = cs_ShardNum cs"
    and "\<forall>(u, v) \<in> set us. (\<exists>s. Addr2Shard (ShardNum P) (vx_Addr u) = Inr s) \<and>
       (\<exists>s. Addr2Shard (ShardNum P) (vx_Addr v) = Inr s)"
  shows "\<exists>cs'. add_transfers P us cs = Inr cs' \<and> clpa_ok (us0 @ us) cs' \<and> cs_ShardNum cs' = cs_ShardNum cs"
  using assms
proof (induction us arbitrary: us0 cs)
  case Nil
  then show ?case by (simp add: add_transfers_def)
next
  case (Cons p us)
  obtain u v where p: "p = (u, v)" by (cases p)
  obtain cs1 where 1: "CLPA_AddEdge P u v cs = Inr cs1" "clpa_ok (us0 @ [(u, v)]) cs1"
    "cs_ShardNum cs1 = cs_ShardNum cs"
    using CLPA_AddEdge_keeps [OF Cons.prems(1,2), of u v] Cons.prems(3) p by auto
  have "\<exists>cs'. add_transfers P us cs1 = Inr cs' \<and> clpa_ok ((us0 @ [(u, v)]) @ us) cs' \<and>
      cs_ShardNum cs' = cs_ShardNum cs1"
    using Cons.prems(2,3) 1 by (intro Cons.IH) auto
  then show ?case using 1 p by (simp add: add_transfers_def)
qed

lemma Init_CLPAState_ok:
  assumes "0 < sn" and "gr_VertexSet (cs_NetGraph cs) = []" and "edge_list (cs_NetGraph cs) = []"
  shows "\<exists>cs0. Init_CLPAState wp mIter sn cs = Inr cs0 \<and> clpa_ok [] cs0 \<and> cs_ShardNum cs0 = sn"
proof -
  have "make_ints sn = Inr (map (\<lambda>k. 0) [0..<nat sn])"
    using assms(1) by (simp add: make_ints_def map_replicate_const)
  then show ?thesis
    using assms by (simp add: Init_CLPAState_def clpa_ok_def represents_def numbered_def population_def)
qed

section \<open>Moving a vertex\<close>

lemma best_shard_range:
  assumes "\<forall>u \<in> set lst. 0 \<le> shard_of cs u \<and> shard_of cs u < n" and "0 \<le> d" "d < n"
    and "length (cs_Edges2Shard cs) = nat n"
  shows "\<exists>s. best_shard F v cs lst computed score d = Inr s \<and> 0 \<le> s \<and> s < n"
  using assms(1-3)
proof (induction lst arbitrary: computed score d)
  case Nil
  then show ?case by simp
next
  case (Cons u lst)
  have IH: "0 \<le> d \<Longrightarrow> d < n \<Longrightarrow> \<exists>s. best_shard F v cs lst c x d = Inr s \<and> 0 \<le> s \<and> s < n" for c x d
    using Cons.prems(1) by (intro Cons.IH) auto
  obtain x where "getShard_score F v (shard_of cs u) cs = Inr x"
    using Cons.prems(1) assms(4) by (auto simp: getShard_score_def Let_def get_at_def)
  then show ?case using IH Cons.prems by (simp add: Let_def)
qed

text \<open>The run invariant, relative to the state label propagation started from.\<close>

definition run_ok :: "(Vertex \<times> Vertex) list \<Rightarrow> 'f CLPAState \<Rightarrow> 'f clpa_run \<Rightarrow> bool" where
  "run_ok us cs0 r \<longleftrightarrow> clpa_ok us (cr_cs r) \<and> cs_NetGraph (cr_cs r) = cs_NetGraph cs0 \<and>
     cs_ShardNum (cr_cs r) = cs_ShardNum cs0 \<and> length (cs_Edges2Shard (cr_cs r)) = nat (cs_ShardNum cs0) \<and>
     (\<forall>k < nat (cs_ShardNum cs0). 1 \<le> cs_VertexsNumInShard cs0 ! k \<longrightarrow> 1 \<le> cs_VertexsNumInShard (cr_cs r) ! k) \<and>
     (\<forall>v \<in> set (gr_VertexSet (cs_NetGraph cs0)). shard_of (cr_cs r) v =
        (case cr_res r (vx_Addr v) of None \<Rightarrow> shard_of cs0 v | Some s \<Rightarrow> uint s)) \<and>
     (\<forall>a s. cr_res r a = Some s \<longrightarrow> a \<in> vx_Addr ` set (gr_VertexSet (cs_NetGraph cs0)) \<and> uint s < cs_ShardNum cs0)"

lemma vx_Addr_eq [simp]: "vx_Addr v = vx_Addr w \<longleftrightarrow> v = (w :: Vertex)"
  by auto

lemma clpa_ok_numbers:
  "clpa_ok us cs \<Longrightarrow> cs_VertexsNumInShard cs =
     map (\<lambda>k. population (shard_of cs) (int k) (gr_VertexSet (cs_NetGraph cs))) [0..<nat (cs_ShardNum cs)]"
  by (simp add: clpa_ok_def numbered_def)

lemma move_vertex_ok:
  assumes ok: "clpa_ok us (cr_cs r)" and v: "v \<in> set (gr_VertexSet (cs_NetGraph (cr_cs r)))"
    and new: "0 \<le> new" "new < cs_ShardNum (cr_cs r)" "new \<noteq> shard_of (cr_cs r) v"
    and len: "length (cs_Edges2Shard (cr_cs r)) = nat (cs_ShardNum (cr_cs r))"
  shows "\<exists>r'. move_vertex v new r = Inr r' \<and> clpa_ok us (cr_cs r') \<and>
    cs_NetGraph (cr_cs r') = cs_NetGraph (cr_cs r) \<and> cs_ShardNum (cr_cs r') = cs_ShardNum (cr_cs r) \<and>
    length (cs_Edges2Shard (cr_cs r')) = length (cs_Edges2Shard (cr_cs r)) \<and>
    shard_of (cr_cs r') = (shard_of (cr_cs r))(v := new) \<and>
    cr_res r' = (cr_res r)(vx_Addr v \<mapsto> of_int new) \<and>
    cr_updates r' = (cr_updates r)(vx_Addr v := cr_updates r (vx_Addr v) + 1)"
proof -
  let ?cs = "cr_cs r" and ?V = "gr_VertexSet (cs_NetGraph (cr_cs r))" and ?n = "nat (cs_ShardNum (cr_cs r))"
  let ?old = "shard_of ?cs v"
  let ?num = "map (\<lambda>k. population ((shard_of ?cs)(v := new)) (int k) ?V) [0..<?n]"
  have old: "0 \<le> ?old" "?old < cs_ShardNum ?cs" using clpa_ok_shard [OF ok v] by auto
  have d: "distinct ?V" using ok by (simp add: clpa_ok_def)
  have nums: "bindR (add_at ?old (-1) (cs_VertexsNumInShard ?cs)) (add_at new 1) = Inr ?num"
    using old new
    by (simp add: clpa_ok_numbers [OF ok] add_at_map population_move [OF d v] del: fun_upd_apply)
  define cs1 where "cs1 = place_vertex v new ?cs\<lparr>cs_VertexsNumInShard := ?num\<rparr>"
  obtain f where "cs_Edges2Shard ?cs = map f [0..<?n]"
    using map_upt_nth [OF len] by blast
  then have f: "cs_Edges2Shard cs1 = map f [0..<?n]" by (simp add: cs1_def)
  have sh: "shard_of cs1 = (shard_of ?cs)(v := new)" by (auto simp: cs1_def place_vertex_def shard_of_def)
  have newv: "shard_of cs1 v = new" by (simp add: sh)
  define cs2 where "cs2 = cs1\<lparr>cs_Edges2Shard :=
      map (\<lambda>k. f k + (\<Sum>u\<leftarrow>edges_of (cs_NetGraph cs1) v. edge_delta new ?old (int k) (shard_of cs1 u))) [0..<?n],
    cs_CrossShardEdgeNum := cs_CrossShardEdgeNum cs1 + (\<Sum>u\<leftarrow>edges_of (cs_NetGraph cs1) v. cross_delta new ?old (shard_of cs1 u)),
    cs_MinEdges2Shard := min_edges (map (\<lambda>k. f k + (\<Sum>u\<leftarrow>edges_of (cs_NetGraph cs1) v. edge_delta new ?old (int k) (shard_of cs1 u))) [0..<?n])\<rparr>"
  have re: "changeShardRecompute v ?old cs1 = Inr cs2"
    using old new by (simp add: changeShardRecompute_def f newv recompute_loop_eq cs2_def)
  have sh2: "shard_of cs2 = (shard_of ?cs)(v := new)"
    unfolding sh [symmetric] by (simp add: cs2_def shard_of_def fun_eq_iff)
  have keep: "cs_NetGraph cs2 = cs_NetGraph ?cs" "cs_ShardNum cs2 = cs_ShardNum ?cs"
    "cs_PartitionMap cs2 = (cs_PartitionMap ?cs)(v \<mapsto> new)" "cs_VertexsNumInShard cs2 = ?num"
    "length (cs_Edges2Shard cs2) = length (cs_Edges2Shard ?cs)"
    using len by (simp_all add: cs2_def cs1_def place_vertex_def)
  have "ran (cs_PartitionMap cs2) \<subseteq> {0..<cs_ShardNum ?cs}"
    using ok new by (auto simp: keep clpa_ok_def ran_def split: if_splits)
  then have "clpa_ok us cs2"
    using ok by (auto simp: clpa_ok_def keep numbered_def sh2)
  moreover have "move_vertex v new r = Inr \<lparr>cr_res = (cr_res r)(vx_Addr v \<mapsto> of_int new),
      cr_updates = (cr_updates r)(vx_Addr v := cr_updates r (vx_Addr v) + 1), cr_cs = cs2\<rparr>"
  proof -
    obtain n1 where n1: "add_at ?old (-1) (cs_VertexsNumInShard ?cs) = Inr n1" "add_at new 1 n1 = Inr ?num"
      using nums by (auto simp: bindR_Inr_iff)
    have "?cs\<lparr>cs_PartitionMap := (cs_PartitionMap ?cs)(v \<mapsto> new), cs_VertexsNumInShard := ?num\<rparr> = cs1"
      by (simp add: cs1_def place_vertex_def)
    then show ?thesis by (simp add: move_vertex_def Let_def n1 re del: fun_upd_apply)
  qed
  ultimately show ?thesis using keep sh2 by simp
qed

text \<open>A visit leaves everything as it is, or moves the visited vertex to another shard and records the move.\<close>

definition moved_to :: "Vertex \<Rightarrow> int \<Rightarrow> 'f clpa_run \<Rightarrow> 'f clpa_run \<Rightarrow> bool" where
  "moved_to v s r r' \<longleftrightarrow> s \<noteq> shard_of (cr_cs r) v \<and> cr_updates r (vx_Addr v) < 50 \<and>
     shard_of (cr_cs r') = (shard_of (cr_cs r))(v := s) \<and> cr_res r' = (cr_res r)(vx_Addr v \<mapsto> of_int s) \<and>
     cr_updates r' = (cr_updates r)(vx_Addr v := cr_updates r (vx_Addr v) + 1)"

lemma visit_vertex_ok:
  assumes r: "run_ok us cs0 r" and v: "v \<in> set (gr_VertexSet (cs_NetGraph cs0))" and n: "cs_ShardNum cs0 < 2 ^ 63"
  shows "\<exists>r'. visit_vertex F v r = Inr r' \<and> run_ok us cs0 r' \<and> (r' = r \<or> (\<exists>s. moved_to v s r r'))"
proof -
  let ?cs = "cr_cs r"
  have ok: "clpa_ok us ?cs" and g: "cs_NetGraph ?cs = cs_NetGraph cs0" and sn: "cs_ShardNum ?cs = cs_ShardNum cs0"
    and len: "length (cs_Edges2Shard ?cs) = nat (cs_ShardNum cs0)"
    using r by (simp_all add: run_ok_def)
  have vv: "v \<in> set (gr_VertexSet (cs_NetGraph ?cs))" using v g by simp
  note old = clpa_ok_shard [OF ok vv]
  obtain s where s: "best_shard F v ?cs (edges_of (cs_NetGraph ?cs) v) {} (fl_int F (-9999)) (shard_of ?cs v) = Inr s"
      "0 \<le> s" "s < cs_ShardNum ?cs"
    using best_shard_range [of "edges_of (cs_NetGraph ?cs) v" ?cs "cs_ShardNum ?cs" "shard_of ?cs v" F v "{}" "fl_int F (-9999)"]
      clpa_ok_shard [OF ok clpa_ok_neighbours [OF ok]] old len sn by auto
  let ?c = "cs_VertexsNumInShard ?cs ! nat (shard_of ?cs v)"
  have get: "get_at (shard_of ?cs v) (cs_VertexsNumInShard ?cs) = Inr ?c"
    using old by (simp add: get_at_def clpa_ok_numbers [OF ok])
  show ?thesis
  proof (cases "cr_updates r (vx_Addr v) < 50 \<and> shard_of ?cs v \<noteq> s \<and> ?c > 1")
    case False
    then have "visit_vertex F v r = Inr r" by (auto simp: visit_vertex_def Let_def s(1) get)
    then show ?thesis using r by blast
  next
    case True
    obtain r' where m: "move_vertex v s r = Inr r'" "clpa_ok us (cr_cs r')"
      "cs_NetGraph (cr_cs r') = cs_NetGraph ?cs" "cs_ShardNum (cr_cs r') = cs_ShardNum ?cs"
      "length (cs_Edges2Shard (cr_cs r')) = length (cs_Edges2Shard ?cs)"
      "shard_of (cr_cs r') = (shard_of ?cs)(v := s)" "cr_res r' = (cr_res r)(vx_Addr v \<mapsto> of_int s)"
      "cr_updates r' = (cr_updates r)(vx_Addr v := cr_updates r (vx_Addr v) + 1)"
      using move_vertex_ok [OF ok vv s(2,3)] True len sn by auto
    have d: "distinct (gr_VertexSet (cs_NetGraph ?cs))" using ok by (simp add: clpa_ok_def)
    have "1 \<le> cs_VertexsNumInShard (cr_cs r') ! k"
      if k: "k < nat (cs_ShardNum cs0)" "1 \<le> cs_VertexsNumInShard ?cs ! k" for k
    proof -
      have "cs_VertexsNumInShard (cr_cs r') ! k = cs_VertexsNumInShard ?cs ! k +
          (if int k = shard_of ?cs v then - 1 else 0) + (if int k = s then 1 else 0)"
        using k sn by (simp add: clpa_ok_numbers [OF ok] clpa_ok_numbers [OF m(2)] m(3,4,6)
          population_move [OF d vv] del: fun_upd_apply)
      moreover have "1 < cs_VertexsNumInShard ?cs ! k" if "int k = shard_of ?cs v"
        using True that by (metis nat_int)
      ultimately show ?thesis using k(2) by auto
    qed
    moreover have "uint (of_int s :: u64) = s"
      using s n sn by (simp add: uint_word_of_int_eq take_bit_int_eq_self)
    ultimately have "run_ok us cs0 r'"
      using r m v s sn by (auto simp: run_ok_def)
    moreover have "visit_vertex F v r = Inr r'"
      using True by (simp add: visit_vertex_def Let_def s(1) get m(1))
    moreover have "moved_to v s r r'" using True m(6-8) by (simp add: moved_to_def)
    ultimately show ?thesis by blast
  qed
qed

text \<open>
  The accounts whose shard changed at their visit, in the order of the visits: an account moved twice is
  in the list twice, one that was visited and stayed is not.
\<close>

fun moves :: "'f float_ops \<Rightarrow> Vertex list \<Rightarrow> 'f clpa_run \<Rightarrow> Vertex list" where
  "moves F [] r = []"
| "moves F (v # vs) r =
     (case visit_vertex F v r of
        Inl _ \<Rightarrow> []
      | Inr r' \<Rightarrow> (if shard_of (cr_cs r') v \<noteq> shard_of (cr_cs r) v then [v] else []) @ moves F vs r')"

definition partition_moves :: "'f float_ops \<Rightarrow> (nat \<Rightarrow> Vertex list) \<Rightarrow> 'f CLPAState \<Rightarrow> Vertex list" where
  "partition_moves F ord cs =
     (case ComputeEdges2Shard cs of
        Inl _ \<Rightarrow> []
      | Inr cs1 \<Rightarrow> moves F (concat (map ord [0..<nat (cs_MaxIterations cs1)]))
                     \<lparr>cr_res = Map.empty, cr_updates = (\<lambda>_. 0), cr_cs = cs1\<rparr>)"

text \<open>What a sequence of visits does to the placement, to the result and to the number of moves.\<close>

definition recorded :: "Vertex list \<Rightarrow> 'f clpa_run \<Rightarrow> 'f clpa_run \<Rightarrow> bool" where
  "recorded ms r r' \<longleftrightarrow> (\<forall>v.
     (v \<notin> set ms \<longrightarrow> shard_of (cr_cs r') v = shard_of (cr_cs r) v) \<and>
     cr_res r' (vx_Addr v) = (if v \<in> set ms then Some (of_int (shard_of (cr_cs r') v)) else cr_res r (vx_Addr v)) \<and>
     cr_updates r' (vx_Addr v) = cr_updates r (vx_Addr v) + count_list ms v \<and>
     (cr_updates r (vx_Addr v) \<le> 50 \<longrightarrow> cr_updates r' (vx_Addr v) \<le> 50))"

lemma recorded_moved: "moved_to v s r r' \<Longrightarrow> recorded [v] r r'"
  by (auto simp: recorded_def moved_to_def)

lemma recorded_append: "recorded ms r r1 \<Longrightarrow> recorded ms' r1 r' \<Longrightarrow> recorded (ms @ ms') r r'"
  unfolding recorded_def by (simp add: count_list_append) (metis (no_types, lifting))

lemma visits_ok:
  assumes "run_ok us cs0 r" and "set vs \<subseteq> set (gr_VertexSet (cs_NetGraph cs0))" and "cs_ShardNum cs0 < 2 ^ 63"
  shows "\<exists>r'. foldR (visit_vertex F) vs r = Inr r' \<and> run_ok us cs0 r' \<and> recorded (moves F vs r) r r'"
  using assms(1,2)
proof (induction vs arbitrary: r)
  case Nil
  then show ?case by (simp add: recorded_def)
next
  case (Cons v vs)
  obtain r1 where 1: "visit_vertex F v r = Inr r1" "run_ok us cs0 r1" "r1 = r \<or> (\<exists>s. moved_to v s r r1)"
    using visit_vertex_ok [OF Cons.prems(1) _ assms(3), of v F] Cons.prems(2) by auto
  obtain r' where 2: "foldR (visit_vertex F) vs r1 = Inr r'" "run_ok us cs0 r'" "recorded (moves F vs r1) r1 r'"
    using Cons.IH [OF 1(2)] Cons.prems(2) by auto
  have "recorded (if shard_of (cr_cs r1) v \<noteq> shard_of (cr_cs r) v then [v] else []) r r1"
    using 1(3) by (auto intro: recorded_moved simp: moved_to_def) (simp_all add: recorded_def)
  from recorded_append [OF this 2(3)] 1(1) 2(1,2) show ?case by auto
qed

lemma clpa_iterations_visits:
  "clpa_iterations F ord iter n r = foldR (visit_vertex F) (concat (map ord [iter..<iter + n])) r"
proof (induction n arbitrary: iter r)
  case (Suc n)
  have "[iter..<iter + Suc n] = iter # [Suc iter..<Suc iter + n]" by (simp add: upt_conv_Cons)
  then have v: "concat (map ord [iter..<iter + Suc n]) = ord iter @ concat (map ord [Suc iter..<Suc iter + n])" by simp
  have "clpa_iterations F ord (Suc iter) n = foldR (visit_vertex F) (concat (map ord [Suc iter..<Suc iter + n]))"
    using Suc by blast
  then show ?case unfolding v foldR_append clpa_iterations.simps by simp
qed simp

section \<open>Initial placement\<close>

lemma place_all_eq:
  assumes "\<And>j. j < length vs \<Longrightarrow> place (i + j) (vs ! j) = Inr (f (vs ! j))"
    and "\<And>v. v \<in> set vs \<Longrightarrow> 0 \<le> f v \<and> f v < int n"
    and "cs_VertexsNumInShard cs = map c [0..<n]"
  shows "place_all place i vs cs = Inr (cs\<lparr>
    cs_PartitionMap := (\<lambda>v. if v \<in> set vs then Some (f v) else cs_PartitionMap cs v),
    cs_VertexsNumInShard := map (\<lambda>k. c k + population f (int k) vs) [0..<n]\<rparr>)"
  using assms
proof (induction vs arbitrary: i cs c)
  case Nil
  then show ?case by (simp add: population_def)
next
  case (Cons v vs)
  have p: "place i v = Inr (f v)" using Cons.prems(1) [of 0] by simp
  have a: "add_at (f v) 1 (cs_VertexsNumInShard cs) = Inr (map (\<lambda>k. c k + (if int k = f v then 1 else 0)) [0..<n])"
    using Cons.prems(2,3) by (simp add: add_at_map)
  let ?cs = "cs\<lparr>cs_PartitionMap := (cs_PartitionMap cs)(v \<mapsto> f v),
    cs_VertexsNumInShard := map (\<lambda>k. c k + (if int k = f v then 1 else 0)) [0..<n]\<rparr>"
  have "place_all place (i + 1) vs ?cs = Inr (?cs\<lparr>
    cs_PartitionMap := (\<lambda>v. if v \<in> set vs then Some (f v) else cs_PartitionMap ?cs v),
    cs_VertexsNumInShard := map (\<lambda>k. (c k + (if int k = f v then 1 else 0)) + population f (int k) vs) [0..<n]\<rparr>)"
    using Cons.prems(1) [of "Suc j" for j] Cons.prems(2) by (intro Cons.IH) auto
  moreover have "(\<lambda>w. if w \<in> set vs then Some (f w) else cs_PartitionMap ?cs w) =
      (\<lambda>w. if w \<in> set (v # vs) then Some (f w) else cs_PartitionMap cs w)" by auto
  moreover have "map (\<lambda>k. (c k + (if int k = f v then 1 else 0)) + population f (int k) vs) [0..<n] =
      map (\<lambda>k. c k + population f (int k) (v # vs)) [0..<n]" by (auto simp: population_Cons)
  ultimately show ?case by (simp add: p a)
qed

lemma population_pos: "v \<in> set V \<Longrightarrow> sh v = k \<Longrightarrow> 1 \<le> population sh k V"
  by (auto simp: population_def Suc_le_eq filter_empty_conv simp flip: of_nat_Suc)

lemma shard_of_cong: "cs_PartitionMap a = cs_PartitionMap b \<Longrightarrow> shard_of a = shard_of b"
  by (simp add: shard_of_def fun_eq_iff)

lemma full_count_ok:
  fixes cs :: "'f CLPAState"
  assumes ok: "clpa_ok us cs"
  shows "\<exists>cs1. ComputeEdges2Shard cs = Inr cs1 \<and> clpa_ok us cs1 \<and> up_to_date cs1 \<and>
    cs_NetGraph cs1 = cs_NetGraph cs \<and> cs_ShardNum cs1 = cs_ShardNum cs \<and>
    cs_VertexsNumInShard cs1 = cs_VertexsNumInShard cs \<and> shard_of cs1 = shard_of cs \<and>
    length (cs_Edges2Shard cs1) = nat (cs_ShardNum cs) \<and>
    cs_CrossShardEdgeNum cs1 = int (crossing (shard_of cs) us)"
proof -
  let ?t = "\<lambda>c :: 'f CLPAState. map (\<lambda>k. int (touching (shard_of c) (int k) us)) [0..<nat (cs_ShardNum c)]"
  define cs1 where "cs1 = cs\<lparr>cs_CrossShardEdgeNum := int (crossing (shard_of cs) us),
    cs_Edges2Shard := ?t cs, cs_MinEdges2Shard := min_edges (?t cs)\<rparr>"
  have c1: "ComputeEdges2Shard cs = Inr cs1"
    by (simp add: ComputeEdges2Shard_eq [OF clpa_ok_ends [OF ok]] cs1_def)
  have sh: "shard_of cs1 = shard_of cs" by (rule shard_of_cong) (simp add: cs1_def)
  have ok1: "clpa_ok us cs1" using ok by (simp add: clpa_ok_def numbered_def sh) (simp add: cs1_def)
  have "up_to_date cs1"
    using ComputeEdges2Shard_eq [OF clpa_ok_ends [OF ok1]] by (simp add: up_to_date_def sh) (simp add: cs1_def)
  then show ?thesis using c1 ok1 sh by (simp add: cs1_def)
qed

section \<open>A small graph\<close>

text \<open>Three accounts and two transfers, in two shards.\<close>

definition demo_a :: Vertex where "demo_a = \<lparr>vx_Addr = ''00000001''\<rparr>"
definition demo_b :: Vertex where "demo_b = \<lparr>vx_Addr = ''00000002''\<rparr>"
definition demo_c :: Vertex where "demo_c = \<lparr>vx_Addr = ''00000003''\<rparr>"

definition demo_us :: "(Vertex \<times> Vertex) list" where
  "demo_us = [(demo_a, demo_b), (demo_c, demo_b)]"

definition demo_P :: params where "demo_P = defaultParams\<lparr>ShardNum := 2\<rparr>"

definition demo_cs0 :: "int CLPAState" where
  "demo_cs0 = \<lparr>cs_NetGraph = \<lparr>gr_VertexSet = [], gr_EdgeSet = None\<rparr>, cs_PartitionMap = Map.empty,
     cs_Edges2Shard = [], cs_VertexsNumInShard = [], cs_WeightPenalty = 1, cs_MinEdges2Shard = 0,
     cs_MaxIterations = 3, cs_CrossShardEdgeNum = 0, cs_ShardNum = 2\<rparr>"

definition demo_cs :: "int CLPAState" where
  "demo_cs = \<lparr>cs_NetGraph = \<lparr>gr_VertexSet = [demo_c, demo_b, demo_a],
       gr_EdgeSet = Some [(demo_a, [demo_b]), (demo_b, [demo_a, demo_c]), (demo_c, [demo_b])]\<rparr>,
     cs_PartitionMap = [demo_a \<mapsto> 1, demo_b \<mapsto> 0, demo_c \<mapsto> 1],
     cs_Edges2Shard = [2, 2], cs_VertexsNumInShard = [1, 2], cs_WeightPenalty = 1, cs_MinEdges2Shard = 2,
     cs_MaxIterations = 3, cs_CrossShardEdgeNum = 2, cs_ShardNum = 2\<rparr>"

lemma demo_vertices [simp]:
  "demo_a \<noteq> demo_b" "demo_a \<noteq> demo_c" "demo_b \<noteq> demo_c" "demo_b \<noteq> demo_a" "demo_c \<noteq> demo_a" "demo_c \<noteq> demo_b"
  by (simp_all add: demo_a_def demo_b_def demo_c_def)

lemma demo_shards [simp]:
  "shard_of demo_cs demo_a = 1" "shard_of demo_cs demo_b = 0" "shard_of demo_cs demo_c = 1"
  by (simp_all add: shard_of_def demo_cs_def)

lemma demo_fields [simp]:
  "gr_VertexSet (cs_NetGraph demo_cs) = [demo_c, demo_b, demo_a]"
  "cs_VertexsNumInShard demo_cs = [1, 2]" "cs_ShardNum demo_cs = 2"
  "cs_PartitionMap demo_cs = [demo_a \<mapsto> 1, demo_b \<mapsto> 0, demo_c \<mapsto> 1]"
  by (simp_all add: demo_cs_def)

lemma upt_2 [simp]: "[0..<2] = [0, Suc 0]"
  by (simp add: numeral_2_eq_2)

lemma demo_represents: "represents (cs_NetGraph demo_cs) demo_us"
  by (simp add: represents_def demo_us_def) (simp add: demo_cs_def edge_list_def)

lemma demo_ok: "clpa_ok demo_us demo_cs"
  using demo_represents by (auto simp: clpa_ok_def demo_us_def numbered_def population_def)

lemma demo_fresh: "up_to_date demo_cs"
  using ComputeEdges2Shard_eq [OF clpa_ok_ends [OF demo_ok]]
  by (simp add: up_to_date_def demo_us_def crossing_def touching_def min_edges_def MaxInt_def)
     (simp add: demo_cs_def)

section \<open>Properties\<close>

text \<open>
  (C40) Building the transfer graph. From an empty graph initialised with the number of shards of the
  configuration, adding any batch of transfers between parsable addresses succeeds, and the result
  is well formed: the adjacency lists hold every transfer once from each end, every account of a
  transfer is placed in exactly one shard, and the number of accounts of each shard is exact.
\<close>

theorem transfer_graph_well_formed:
  assumes "0 < ShardNum P" and "gr_VertexSet (cs_NetGraph cs) = []" and "edge_list (cs_NetGraph cs) = []"
    and "\<forall>(u, v) \<in> set us. (\<exists>s. Addr2Shard (ShardNum P) (vx_Addr u) = Inr s) \<and>
       (\<exists>s. Addr2Shard (ShardNum P) (vx_Addr v) = Inr s)"
  shows "\<exists>cs'. bindR (Init_CLPAState wp mIter (ShardNum P) cs) (add_transfers P us) = Inr cs' \<and> clpa_ok us cs'"
  using Init_CLPAState_ok [OF assms(1-3), of wp mIter] add_transfers_keeps [OF _ _ assms(4), of "[]"]
  by (metis append_Nil bindR_simps(2))

theorem transfer_graph_well_formed_witness:
  "\<exists>cs'. bindR (Init_CLPAState 1 3 2 demo_cs0) (add_transfers demo_P demo_us) = Inr cs' \<and> clpa_ok demo_us cs'"
  using transfer_graph_well_formed [of demo_P demo_cs0 demo_us 1 3]
  by (simp add: demo_P_def defaultParams_def demo_cs0_def edge_list_def demo_us_def demo_a_def demo_b_def demo_c_def
    Addr2Shard_eq last8_def hexval_def)

text \<open>
  (C13) The fast update of the counters. When the counters of a state are those of a full count and
  a vertex without an edge to itself moves to another shard, \<open>changeShardRecompute\<close> gives exactly
  the state in which all edges are counted again by \<open>ComputeEdges2Shard\<close>: the edges of each shard,
  their minimum, and the number of cross-shard edges.
\<close>

theorem changeShardRecompute_equals_full:
  assumes placed: "ends_placed us cs" and fresh: "up_to_date cs" and loop: "(v, v) \<notin> set us"
    and old: "0 \<le> shard_of cs v" "shard_of cs v < cs_ShardNum cs"
    and new: "0 \<le> new" "new < cs_ShardNum cs" "new \<noteq> shard_of cs v"
  shows "changeShardRecompute v (shard_of cs v) (place_vertex v new cs) = ComputeEdges2Shard (place_vertex v new cs)"
proof -
  let ?cs = "place_vertex v new cs" and ?n = "nat (cs_ShardNum cs)"
  have rep: "represents (cs_NetGraph cs) us" using placed by (simp add: ends_placed_def)
  note counts = up_to_date_counts [OF placed fresh]
  have edges: "map (\<lambda>k. int (touching (shard_of cs) (int k) us) +
        (\<Sum>u\<leftarrow>edges_of (cs_NetGraph cs) v. edge_delta new (shard_of cs v) (int k) (shard_of ?cs u))) [0..<?n] =
      map (\<lambda>k. int (touching (shard_of ?cs) (int k) us)) [0..<?n]"
    using touching_move [where sh = "shard_of cs", OF loop refl new(3)] by (simp add: sum_neighbours [OF rep] del: fun_upd_apply)
  have cross: "int (crossing (shard_of cs) us) +
        (\<Sum>u\<leftarrow>edges_of (cs_NetGraph cs) v. cross_delta new (shard_of cs v) (shard_of ?cs u)) =
      int (crossing (shard_of ?cs) us)"
    using crossing_move [where sh = "shard_of cs", OF loop refl new(3)] by (simp add: sum_neighbours [OF rep] del: fun_upd_apply)
  have newv: "shard_of ?cs v = new" by simp
  have loop: "recompute_loop ?cs new (shard_of cs v) (edges_of (cs_NetGraph cs) v)
      (cs_Edges2Shard cs, cs_CrossShardEdgeNum cs) =
      Inr (map (\<lambda>k. int (touching (shard_of ?cs) (int k) us)) [0..<?n], int (crossing (shard_of ?cs) us))"
    unfolding counts edges [symmetric] cross [symmetric] using old new by (intro recompute_loop_eq) auto
  show ?thesis
    unfolding changeShardRecompute_def ComputeEdges2Shard_eq [OF ends_placed_place [OF placed new(1,2)]]
      newv place_vertex_simps loop
    by simp
qed

theorem changeShardRecompute_equals_full_witness:
  "changeShardRecompute demo_a 1 (place_vertex demo_a 0 demo_cs) = ComputeEdges2Shard (place_vertex demo_a 0 demo_cs)"
  using changeShardRecompute_equals_full [OF clpa_ok_ends [OF demo_ok] demo_fresh, of demo_a 0]
  by (simp add: demo_us_def)

lemma CLPA_Partition_spec:
  assumes ok: "clpa_ok us cs" and n: "cs_ShardNum cs < 2 ^ 63"
    and ord: "\<forall>i. set (ord i) \<subseteq> set (gr_VertexSet (cs_NetGraph cs))"
  shows "\<exists>res cross cs'. CLPA_Partition F ord cs = Inr (res, cross, cs') \<and> clpa_ok us cs' \<and>
    cs_NetGraph cs' = cs_NetGraph cs \<and> cross = int (crossing (shard_of cs') us) \<and>
    (\<forall>k < nat (cs_ShardNum cs). 1 \<le> cs_VertexsNumInShard cs ! k \<longrightarrow> 1 \<le> cs_VertexsNumInShard cs' ! k) \<and>
    (\<forall>v \<in> set (gr_VertexSet (cs_NetGraph cs)). shard_of cs' v =
       (case res (vx_Addr v) of None \<Rightarrow> shard_of cs v | Some s \<Rightarrow> uint s)) \<and>
    (\<forall>a s. res a = Some s \<longrightarrow> a \<in> vx_Addr ` set (gr_VertexSet (cs_NetGraph cs)) \<and> uint s < cs_ShardNum cs) \<and>
    res = (\<lambda>a. if \<lparr>vx_Addr = a\<rparr> \<in> set (partition_moves F ord cs) then Some (of_int (shard_of cs' \<lparr>vx_Addr = a\<rparr>)) else None) \<and>
    (\<forall>v. count_list (partition_moves F ord cs) v \<le> 50)"
proof -
  obtain cs1 where c1: "ComputeEdges2Shard cs = Inr cs1" "clpa_ok us cs1" "cs_NetGraph cs1 = cs_NetGraph cs"
    "cs_ShardNum cs1 = cs_ShardNum cs" "cs_VertexsNumInShard cs1 = cs_VertexsNumInShard cs"
    "shard_of cs1 = shard_of cs" "length (cs_Edges2Shard cs1) = nat (cs_ShardNum cs)"
    using full_count_ok [OF ok] by blast
  let ?r = "\<lparr>cr_res = Map.empty, cr_updates = (\<lambda>_. 0), cr_cs = cs1\<rparr>"
  have "run_ok us cs ?r" using c1 by (simp add: run_ok_def)
  moreover have "set (concat (map ord [0..<nat (cs_MaxIterations cs1)])) \<subseteq> set (gr_VertexSet (cs_NetGraph cs))"
    using ord by auto
  ultimately obtain r where r: "clpa_iterations F ord 0 (nat (cs_MaxIterations cs1)) ?r = Inr r" "run_ok us cs r"
    "recorded (partition_moves F ord cs) ?r r"
    using visits_ok [of us cs ?r "concat (map ord [0..<nat (cs_MaxIterations cs1)])" F] n c1(1)
    by (auto simp: clpa_iterations_visits partition_moves_def simp del: set_concat)
  from r(2) have rok: "clpa_ok us (cr_cs r)" by (simp add: run_ok_def)
  obtain cs2 where c2: "ComputeEdges2Shard (cr_cs r) = Inr cs2" "clpa_ok us cs2"
    "cs_NetGraph cs2 = cs_NetGraph (cr_cs r)" "cs_VertexsNumInShard cs2 = cs_VertexsNumInShard (cr_cs r)"
    "shard_of cs2 = shard_of (cr_cs r)" "cs_CrossShardEdgeNum cs2 = int (crossing (shard_of (cr_cs r)) us)"
    using full_count_ok [OF rok] by blast
  have "CLPA_Partition F ord cs = Inr (cr_res r, cs_CrossShardEdgeNum cs2, cs2)"
    by (simp add: CLPA_Partition_def c1(1) r(1) c2(1))
  moreover have "cr_res r = (\<lambda>a. if \<lparr>vx_Addr = a\<rparr> \<in> set (partition_moves F ord cs)
      then Some (of_int (shard_of cs2 \<lparr>vx_Addr = a\<rparr>)) else None)"
  proof
    fix a
    show "cr_res r a = (if \<lparr>vx_Addr = a\<rparr> \<in> set (partition_moves F ord cs)
      then Some (of_int (shard_of cs2 \<lparr>vx_Addr = a\<rparr>)) else None)"
      using r(3) [unfolded recorded_def, rule_format, of "\<lparr>vx_Addr = a\<rparr>"] c2(5) by simp
  qed
  moreover have "\<forall>v. count_list (partition_moves F ord cs) v \<le> 50"
    using r(3) unfolding recorded_def by (metis add_0 clpa_run.select_convs(2) le0)
  ultimately show ?thesis using r(2) c2 by (auto simp: run_ok_def)
qed

text \<open>
  (C12) Label propagation. From a well-formed state (edges that represent a list of transfers between
  known accounts, every account in one of the shards, exact vertex counts), \<open>CLPA_Partition\<close>
  returns, whatever the floating-point scores and the order of the visits are. Afterwards the state
  is well formed again, the reported number is that of the transfers whose two accounts lie in
  different shards, no shard that had an account has lost its last one, and no account was moved more
  than 50 times. The returned map is exactly the moves: it holds the accounts whose shard changed at one of
  the visits, each with the shard it is in at the end, also when that is the shard it came from, and no
  account that was only visited. So an account in the map is in the shard the map names, every other
  account is where it was.
\<close>

theorem CLPA_Partition_ok:
  assumes ok: "clpa_ok us cs" and n: "cs_ShardNum cs < 2 ^ 63"
    and ord: "\<forall>i. set (ord i) \<subseteq> set (gr_VertexSet (cs_NetGraph cs))"
  shows "\<exists>res cross cs'. CLPA_Partition F ord cs = Inr (res, cross, cs') \<and> clpa_ok us cs' \<and>
    cs_NetGraph cs' = cs_NetGraph cs \<and> cross = int (crossing (shard_of cs') us) \<and>
    (\<forall>k < nat (cs_ShardNum cs). 1 \<le> cs_VertexsNumInShard cs ! k \<longrightarrow> 1 \<le> cs_VertexsNumInShard cs' ! k) \<and>
    (\<forall>v \<in> set (gr_VertexSet (cs_NetGraph cs)). shard_of cs' v =
       (case res (vx_Addr v) of None \<Rightarrow> shard_of cs v | Some s \<Rightarrow> uint s)) \<and>
    res = (\<lambda>a. if \<lparr>vx_Addr = a\<rparr> \<in> set (partition_moves F ord cs) then Some (of_int (shard_of cs' \<lparr>vx_Addr = a\<rparr>)) else None) \<and>
    (\<forall>v. count_list (partition_moves F ord cs) v \<le> 50)"
  using CLPA_Partition_spec [OF assms, of F] by blast

lemma demo_moves: "partition_moves demo_F (\<lambda>i. [demo_c, demo_a, demo_b]) demo_cs = [demo_c, demo_b]"
  by code_simp

theorem CLPA_Partition_ok_witness:
  "\<exists>res cross cs'. CLPA_Partition demo_F (\<lambda>i. [demo_c, demo_a, demo_b]) demo_cs = Inr (res, cross, cs') \<and>
     clpa_ok demo_us cs' \<and> cross = int (crossing (shard_of cs') demo_us) \<and>
     1 \<le> cs_VertexsNumInShard cs' ! 0 \<and> 1 \<le> cs_VertexsNumInShard cs' ! 1 \<and>
     res ''00000001'' = None \<and> res ''00000002'' \<noteq> None \<and> res ''00000003'' \<noteq> None"
proof -
  have nums: "cs_ShardNum demo_cs = 2" "cs_VertexsNumInShard demo_cs = [1, 2]"
    "gr_VertexSet (cs_NetGraph demo_cs) = [demo_c, demo_b, demo_a]"
    by (simp_all add: demo_cs_def)
  obtain res cross cs' where "CLPA_Partition demo_F (\<lambda>i. [demo_c, demo_a, demo_b]) demo_cs = Inr (res, cross, cs')"
    "clpa_ok demo_us cs'" "cross = int (crossing (shard_of cs') demo_us)"
    and ne: "\<forall>k < 2. 1 \<le> [1, 2 :: int] ! k \<longrightarrow> 1 \<le> cs_VertexsNumInShard cs' ! k"
    and "res = (\<lambda>a. if \<lparr>vx_Addr = a\<rparr> \<in> {demo_c, demo_b} then Some (of_int (shard_of cs' \<lparr>vx_Addr = a\<rparr>)) else None)"
    using CLPA_Partition_ok [OF demo_ok, of "\<lambda>i. [demo_c, demo_a, demo_b]" demo_F] nums demo_moves by auto
  moreover from this(5) have "res ''00000001'' = None \<and> res ''00000002'' \<noteq> None \<and> res ''00000003'' \<noteq> None"
    by (simp add: demo_b_def demo_c_def)
  ultimately show ?thesis using ne [rule_format, of 0] ne [rule_format, of 1] by auto
qed

text \<open>
  The initial partition without empty shards. \<open>Stable_Init_Partition\<close> refuses exactly when there
  are more shards than accounts; otherwise it returns a well-formed state in which every shard has
  at least one account and whose counters are those of a full count.
\<close>

theorem Stable_Init_no_empty_shard:
  assumes rep: "represents (cs_NetGraph cs) us" and d: "distinct (gr_VertexSet (cs_NetGraph cs))"
    and ends: "fst ` set us \<union> snd ` set us \<subseteq> set (gr_VertexSet (cs_NetGraph cs))" and n: "0 < cs_ShardNum cs"
  shows "if cs_ShardNum cs > int (length (gr_VertexSet (cs_NetGraph cs)))
    then \<exists>msg. Stable_Init_Partition cs = Inr (Inl msg)
    else \<exists>cs'. Stable_Init_Partition cs = Inr (Inr cs') \<and> clpa_ok us cs' \<and> up_to_date cs' \<and>
      (\<forall>k < nat (cs_ShardNum cs). 1 \<le> cs_VertexsNumInShard cs' ! k)"
proof (cases "cs_ShardNum cs > int (length (gr_VertexSet (cs_NetGraph cs)))")
  case True
  then show ?thesis by (simp add: Stable_Init_Partition_def)
next
  case False
  let ?V = "gr_VertexSet (cs_NetGraph cs)" and ?n = "nat (cs_ShardNum cs)"
  define f where "f v = the (map_of (zip ?V (map (\<lambda>j. int j mod cs_ShardNum cs) [0..<length ?V])) v)" for v
  have f: "f (?V ! j) = int j mod cs_ShardNum cs" if "j < length ?V" for j
    using that d by (simp add: f_def map_of_zip_nth)
  have range: "0 \<le> f v \<and> f v < int ?n" if v: "v \<in> set ?V" for v
  proof -
    obtain j where "j < length ?V" "v = ?V ! j" using v by (auto simp: in_set_conv_nth)
    then show ?thesis using f n by simp
  qed
  let ?cs = "cs\<lparr>cs_VertexsNumInShard := map (\<lambda>k. 0) [0..<?n], cs_PartitionMap := Map.empty\<rparr>"
  define cs1 where "cs1 = ?cs\<lparr>
    cs_PartitionMap := (\<lambda>v. if v \<in> set ?V then Some (f v) else None),
    cs_VertexsNumInShard := map (\<lambda>k. population f (int k) ?V) [0..<?n]\<rparr>"
  have "place_all (\<lambda>i v. round_robin (cs_ShardNum cs) i) 0 ?V ?cs = Inr cs1"
    using place_all_eq [of ?V "\<lambda>i v. round_robin (cs_ShardNum cs) i" 0 f ?n ?cs "\<lambda>k. 0"] n range f
    by (simp add: round_robin_def go_mod_nonneg cs1_def cong: if_cong)
  moreover have "make_ints (cs_ShardNum cs) = Inr (map (\<lambda>k. 0) [0..<?n])"
    using n by (simp add: make_ints_def map_replicate_const)
  ultimately have init: "Stable_Init_Partition cs = bindR (ComputeEdges2Shard cs1) (\<lambda>cs2. Inr (Inr cs2))"
    using False by (simp add: Stable_Init_Partition_def)
  have sh: "shard_of cs1 v = f v" if "v \<in> set ?V" for v using that by (simp add: cs1_def shard_of_def)
  have "population (shard_of cs1) k ?V = population f k ?V" for k
  proof -
    have "filter (\<lambda>w. shard_of cs1 w = k) ?V = filter (\<lambda>w. f w = k) ?V" by (rule filter_cong) (auto simp: sh)
    then show ?thesis by (simp add: population_def)
  qed
  then have num: "numbered cs1" by (simp add: numbered_def) (simp add: cs1_def)
  have ran: "ran (cs_PartitionMap cs1) \<subseteq> {0..<cs_ShardNum cs}"
    using range n by (auto simp: cs1_def ran_def split: if_splits)
  have ok: "clpa_ok us cs1"
    using rep d ends n num ran by (auto simp: clpa_ok_def) (auto simp: cs1_def split: if_splits)
  obtain cs2 where c2: "ComputeEdges2Shard cs1 = Inr cs2" "clpa_ok us cs2" "up_to_date cs2"
    "cs_VertexsNumInShard cs2 = cs_VertexsNumInShard cs1"
    using full_count_ok [OF ok] by blast
  have "1 \<le> cs_VertexsNumInShard cs2 ! k" if k: "k < ?n" for k
  proof -
    have "k < length ?V" using False k by linarith
    then have "f (?V ! k) = int k" "?V ! k \<in> set ?V" using f k by auto
    then have "1 \<le> population f (int k) ?V" by (intro population_pos)
    then show ?thesis using k by (simp add: c2(4) cs1_def)
  qed
  then show ?thesis using False init c2 by simp
qed

end
