(* ===== verification/Committee_Clpa.thy ===== *)
theory Committee_Clpa
  imports Broker_Transfer Clpa_Partition
begin

text \<open>
  The committees that partition the accounts anew while the transactions run
  (\<open>supervisor/committee/committee_clpa.go\<close>, \<open>committee_clpa_broker.go\<close>). One thread reads the file,
  sends batches, and from time to time computes a partition, sends it to the shards and waits until
  a shard has reported a block of the next epoch; another thread handles the reports of the shards.

  \<^item> The thread that sends is a machine: \<open>clpa_pc\<close> is the place it has reached in
    \<open>MsgSendingControl\<close>, \<open>control_step\<close> its next step. A wait that is not over is a step that changes
    nothing. What stands between \<open>clpaLock.Lock\<close> and \<open>Unlock\<close> is within one step. Two steps hold more than
    one such section: the sending of a batch, for which \<open>txSending\<close> takes the lock once for each transaction,
    to read the placement, which no report changes; and the handling of a report, which compares the
    epoch before it takes the lock (see \<open>Clpa_Runs\<close>).
  \<^item> The two committees have the same fields and the same loop for the partition; they differ in
    what they do with a batch. The loop takes the difference as a record of operations.
  \<^item> The clock, the orders of the range loops and the arithmetic of \<open>float64\<close> are parameters.
\<close>

section \<open>State\<close>

record 'f ClpaPart =
  cl_curEpoch :: "32 word"
  cl_clpaGraph :: "'f CLPAState"
  cl_modifiedMap :: "Address \<rightharpoonup> u64"
  cl_clpaLastRunningTime :: time
  cl_clpaFreq :: int

record 'f CLPACommitteeModule = Committee +
  ccm_clpa :: "'f ClpaPart"

record 'f CLPACommitteeMod_Broker = BrokerCore +
  ccb_clpa :: "'f ClpaPart"

record 'f clpa_env =
  ce_lib :: lib
  ce_params :: params
  ce_F :: "'f float_ops"
  ce_ord :: "int \<Rightarrow> nat \<Rightarrow> Vertex list \<Rightarrow> Vertex list"
    \<comment> \<open>the order in which iteration \<open>i\<close> of the \<open>k\<close>-th partition ranges over the vertices\<close>
  ce_entries :: "(Address \<rightharpoonup> u64) \<Rightarrow> (Address \<times> u64) list"  \<comment> \<open>the entries of a map, in the order of a range\<close>

text \<open>A range visits each entry of a map once.\<close>

definition range_laws :: "'f clpa_env \<Rightarrow> bool" where
  "range_laws E \<longleftrightarrow> (\<forall>m. finite (dom m) \<longrightarrow> map_of (ce_entries E m) = m) \<and> (\<forall>k i V. mset (ce_ord E k i V) = mset V)"

definition zero_CLPAState :: "'f float_ops \<Rightarrow> 'f CLPAState" where
  "zero_CLPAState F = \<lparr>cs_NetGraph = \<lparr>gr_VertexSet = [], gr_EdgeSet = None\<rparr>, cs_PartitionMap = Map.empty,
     cs_Edges2Shard = [], cs_VertexsNumInShard = [], cs_WeightPenalty = fl_int F 0, cs_MinEdges2Shard = 0,
     cs_MaxIterations = 0, cs_CrossShardEdgeNum = 0, cs_ShardNum = 0\<rparr>"

definition new_graph :: "'f clpa_env \<Rightarrow> 'f CLPAState res" where
  "new_graph E = Init_CLPAState (fl_div (ce_F E) (fl_int (ce_F E) 1) (fl_int (ce_F E) 2)) 100
     (ShardNum (ce_params E)) (zero_CLPAState (ce_F E))"

definition new_ClpaPart :: "'f CLPAState \<Rightarrow> int \<Rightarrow> 'f ClpaPart" where
  "new_ClpaPart cg clpaFrequency = \<lparr>cl_curEpoch = 0, cl_clpaGraph = cg, cl_modifiedMap = Map.empty,
     cl_clpaLastRunningTime = 0, cl_clpaFreq = clpaFrequency\<rparr>"

definition NewCLPACommitteeModule ::
  "'f clpa_env \<Rightarrow> ip_table \<Rightarrow> StopSignal \<Rightarrow> int \<Rightarrow> int \<Rightarrow> int \<Rightarrow> 'f CLPACommitteeModule res" where
  "NewCLPACommitteeModule E tbl Ss dataNum batchNum clpaFrequency =
     bindR (new_graph E) (\<lambda>cg.
       Inr \<lparr>co_dataTotalNum = dataNum, co_nowDataNum = 0, co_batchDataNum = batchNum, co_IpNodeTable = tbl,
            co_Ss = Ss, co_out = [], ccm_clpa = new_ClpaPart cg clpaFrequency\<rparr>)"

definition NewCLPACommitteeMod_Broker ::
  "'f clpa_env \<Rightarrow> string list \<Rightarrow> ip_table \<Rightarrow> StopSignal \<Rightarrow> int \<Rightarrow> int \<Rightarrow> int \<Rightarrow> 'f CLPACommitteeMod_Broker res" where
  "NewCLPACommitteeMod_Broker E addr_file tbl Ss dataNum batchNum clpaFrequency =
     bindR (new_graph E) (\<lambda>cg.
       Inr \<lparr>co_dataTotalNum = dataNum, co_nowDataNum = 0, co_batchDataNum = batchNum, co_IpNodeTable = tbl,
            co_Ss = Ss, co_out = [], bc_broker = NewBroker (ce_params E) addr_file, bc_brokerConfirm1Pool = Map.empty,
            bc_brokerConfirm2Pool = Map.empty, bc_brokerTxPool = [], ccb_clpa = new_ClpaPart cg clpaFrequency\<rparr>)"

section \<open>Placement and partition\<close>

definition clpa_fetchModifiedMap :: "params \<Rightarrow> 'f ClpaPart \<Rightarrow> Address \<Rightarrow> u64 res" where
  "clpa_fetchModifiedMap P cl key =
     (case cl_modifiedMap cl key of None \<Rightarrow> place_by_addr P key | Some val \<Rightarrow> Inr val)"

definition clpaMapSend :: "'f clpa_env \<Rightarrow> (Address \<rightharpoonup> u64) \<Rightarrow> 'z Committee_scheme \<Rightarrow> 'z Committee_scheme" where
  "clpaMapSend E m c =
     fold (\<lambda>sid. send_to (ip_at (co_IpNodeTable c) sid 0) (WPartition \<lparr>pmm_PartitionModified = ce_entries E m\<rparr>))
       (params_shards (ce_params E)) c"

definition clpaReset :: "'f clpa_env \<Rightarrow> (Address \<rightharpoonup> u64) \<Rightarrow> 'f CLPAState res" where
  "clpaReset E modifiedMap =
     bindR (new_graph E) (\<lambda>cg. Inr (cg\<lparr>cs_PartitionMap := (\<lambda>v. map_option sint (modifiedMap (vx_Addr v)))\<rparr>))"

definition repartition :: "'f clpa_env \<Rightarrow> int \<Rightarrow> 'f ClpaPart \<Rightarrow> ((Address \<rightharpoonup> u64) \<times> 'f ClpaPart) res" where
  "repartition E clpaCnt cl =
     bindR (CLPA_Partition (ce_F E) (\<lambda>i. ce_ord E clpaCnt i (gr_VertexSet (cs_NetGraph (cl_clpaGraph cl))))
              (cl_clpaGraph cl)) (\<lambda>(mmap, _, _).
     bindR (clpaReset E (cl_modifiedMap cl ++ mmap)) (\<lambda>cg.
       Inr (mmap, cl\<lparr>cl_modifiedMap := cl_modifiedMap cl ++ mmap, cl_clpaGraph := cg\<rparr>)))"

text \<open>The product of the frequency and a second is that of 64-bit integers.\<close>

definition clpa_due :: "params \<Rightarrow> time \<Rightarrow> 'f ClpaPart \<Rightarrow> bool" where
  "clpa_due P now cl \<longleftrightarrow> ShardNum P > 1 \<and>
     time_Sub now (cl_clpaLastRunningTime cl) \<ge> sint (of_int (cl_clpaFreq cl * 1000000000) :: 64 word)"

section \<open>The thread that sends\<close>

text \<open>
  \<open>Reading\<close>: at the loop over the file, with the records left, the collected transactions and the
  number of partitions; \<open>Recorded\<close>: before the test whether a partition is due; \<open>AwaitEpoch\<close>: waiting
  for the epoch inside that loop; \<open>Draining\<close>: at the condition of the loop after it; \<open>Slept\<close> and
  \<open>AwaitEpochEnd\<close>: the test and the wait in that loop; \<open>Sent\<close>: returned.
\<close>

datatype clpa_pc =
    Reading csv "Transaction list" int
  | Recorded csv "Transaction list" int
  | AwaitEpoch csv "Transaction list" int
  | Draining int
  | Slept int
  | AwaitEpochEnd int
  | Sent int

record ('c, 'f) clpa_hooks =
  ho_clpa :: "'c \<Rightarrow> 'f ClpaPart"
  ho_upd :: "('f ClpaPart \<Rightarrow> 'f ClpaPart) \<Rightarrow> 'c \<Rightarrow> 'c"
  ho_batch :: "Transaction list \<Rightarrow> 'c \<Rightarrow> 'c res"

definition set_last :: "time \<Rightarrow> 'f ClpaPart \<Rightarrow> 'f ClpaPart" where
  "set_last now cl = cl\<lparr>cl_clpaLastRunningTime := now\<rparr>"

definition send_batch ::
  "('z Committee_scheme, 'f) clpa_hooks \<Rightarrow> time \<Rightarrow> Transaction list \<Rightarrow> 'z Committee_scheme \<Rightarrow> 'z Committee_scheme res" where
  "send_batch H now txlist c =
     bindR (ho_batch H txlist (ho_upd H (\<lambda>cl. if IsZero (cl_clpaLastRunningTime cl) then set_last now cl else cl) c))
       (\<lambda>c1. Inr (reset_gap c1))"

definition partition_epoch ::
  "('z Committee_scheme, 'f) clpa_hooks \<Rightarrow> 'f clpa_env \<Rightarrow> int \<Rightarrow> 'z Committee_scheme \<Rightarrow> 'z Committee_scheme res" where
  "partition_epoch H E clpaCnt c =
     bindR (repartition E clpaCnt (ho_clpa H c)) (\<lambda>(mmap, cl). Inr (ho_upd H (\<lambda>_. cl) (clpaMapSend E mmap c)))"

definition after_record :: "csv \<Rightarrow> Transaction list \<Rightarrow> int \<Rightarrow> 'z Committee_scheme \<Rightarrow> clpa_pc" where
  "after_record rows txlist clpaCnt c =
     (if co_nowDataNum c = co_dataTotalNum c then Draining clpaCnt else Reading rows txlist clpaCnt)"

text \<open>\<open>now\<close> is the time at the step.\<close>

fun control_step ::
  "('z Committee_scheme, 'f) clpa_hooks \<Rightarrow> 'f clpa_env \<Rightarrow> time \<Rightarrow> clpa_pc \<Rightarrow> 'z Committee_scheme \<Rightarrow>
     (clpa_pc \<times> 'z Committee_scheme) res" where
  "control_step H E now (Reading [] txlist clpaCnt) c = Inr (Draining clpaCnt, c)"
| "control_step H E now (Reading ((None, t) # rows) txlist clpaCnt) c = Inl (LogPanic ''csv'')"
| "control_step H E now (Reading ((Some data, t) # rows) txlist clpaCnt) c =
     bindR (data2tx (ce_lib E) t data (of_int (co_nowDataNum c))) (\<lambda>otx.
       case otx of
         None \<Rightarrow> Inr (Reading rows txlist clpaCnt, c)
       | Some tx \<Rightarrow>
           let txlist1 = txlist @ [tx];
               c1 = c\<lparr>co_nowDataNum := co_nowDataNum c + 1\<rparr>
           in if int (length txlist1) = co_batchDataNum c1 \<or> co_nowDataNum c1 = co_dataTotalNum c1
              then bindR (send_batch H now txlist1 c1) (\<lambda>c2. Inr (Recorded rows [] clpaCnt, c2))
              else Inr (Recorded rows txlist1 clpaCnt, c1))"
| "control_step H E now (Recorded rows txlist clpaCnt) c =
     (if \<not> IsZero (cl_clpaLastRunningTime (ho_clpa H c)) \<and> clpa_due (ce_params E) now (ho_clpa H c)
      then bindR (partition_epoch H E (clpaCnt + 1) c) (\<lambda>c1. Inr (AwaitEpoch rows txlist (clpaCnt + 1), c1))
      else Inr (after_record rows txlist clpaCnt c, c))"
| "control_step H E now (AwaitEpoch rows txlist clpaCnt) c =
     Inr (if cl_curEpoch (ho_clpa H c) = of_int clpaCnt
          then (after_record rows txlist clpaCnt c, ho_upd H (set_last now) c)
          else (AwaitEpoch rows txlist clpaCnt, c))"
| "control_step H E now (Draining clpaCnt) c =
     Inr (if GapEnough (co_Ss c) then Sent clpaCnt else Slept clpaCnt, c)"
| "control_step H E now (Slept clpaCnt) c =
     (if clpa_due (ce_params E) now (ho_clpa H c)
      then bindR (partition_epoch H E (clpaCnt + 1) c) (\<lambda>c1. Inr (AwaitEpochEnd (clpaCnt + 1), c1))
      else Inr (Draining clpaCnt, c))"
| "control_step H E now (AwaitEpochEnd clpaCnt) c =
     Inr (if cl_curEpoch (ho_clpa H c) = of_int clpaCnt
          then (Draining clpaCnt, ho_upd H (set_last now) c)
          else (AwaitEpochEnd clpaCnt, c))"
| "control_step H E now (Sent clpaCnt) c = Inr (Sent clpaCnt, c)"

section \<open>Reports of the shards\<close>

definition swap_epoch :: "BlockInfoMsg \<Rightarrow> 'f ClpaPart \<Rightarrow> 'f ClpaPart" where
  "swap_epoch b cl =
     (if cl_curEpoch cl = of_int (bi_Epoch b - 1) then cl\<lparr>cl_curEpoch := of_int (bi_Epoch b)\<rparr> else cl)"

definition add_edges :: "params \<Rightarrow> (Address \<times> Address) list \<Rightarrow> 'f ClpaPart \<Rightarrow> 'f ClpaPart res" where
  "add_edges P ps cl =
     bindR (add_transfers P (map (\<lambda>(a, b). (ConstructVertex a, ConstructVertex b)) ps) (cl_clpaGraph cl)) (\<lambda>g.
       Inr (cl\<lparr>cl_clpaGraph := g\<rparr>))"

definition parties :: "Transaction \<Rightarrow> Address \<times> Address" where
  "parties tx = (tx_Sender tx, tx_Recipient tx)"

definition clpa_HandleBlockInfo ::
  "'f clpa_env \<Rightarrow> BlockInfoMsg \<Rightarrow> 'f CLPACommitteeModule \<Rightarrow> 'f CLPACommitteeModule res" where
  "clpa_HandleBlockInfo E b c =
     (let cl = swap_epoch b (ccm_clpa c) in
      if bi_BlockBodyLength b = 0 then Inr (c\<lparr>ccm_clpa := cl\<rparr>)
      else bindR (add_edges (ce_params E) (map parties (bi_InnerShardTxs b) @ map parties (bi_Relay2Txs b)) cl) (\<lambda>cl1.
             Inr (c\<lparr>ccm_clpa := cl1\<rparr>)))"

section \<open>The committee without brokers\<close>

definition clpa_txSending :: "'f clpa_env \<Rightarrow> Transaction list \<Rightarrow> 'f CLPACommitteeModule \<Rightarrow> 'f CLPACommitteeModule res" where
  "clpa_txSending E txlist c =
     send_loop (InjectSpeed (ce_params E)) (\<lambda>tx. clpa_fetchModifiedMap (ce_params E) (ccm_clpa c) (tx_Sender tx))
       (inject_leaders (ce_params E)) 0 txlist (\<lambda>_. []) c"

definition clpa_hooks_relay :: "'f clpa_env \<Rightarrow> ('f CLPACommitteeModule, 'f) clpa_hooks" where
  "clpa_hooks_relay E = \<lparr>ho_clpa = ccm_clpa, ho_upd = (\<lambda>f c. c\<lparr>ccm_clpa := f (ccm_clpa c)\<rparr>), ho_batch = clpa_txSending E\<rparr>"

section \<open>The committee with brokers\<close>

text \<open>This committee has no counters.\<close>

definition clpa_broker_mod_ops :: "params \<Rightarrow> 'f CLPACommitteeMod_Broker broker_hooks" where
  "clpa_broker_mod_ops P =
     \<lparr>bo_fetchModifiedMap = (\<lambda>c key. clpa_fetchModifiedMap P (ccb_clpa c) key),
      bo_raw = (\<lambda>n c. c), bo_tx1 = (\<lambda>c. c), bo_tx2 = (\<lambda>c. c)\<rparr>"

definition clpa_broker_batch ::
  "broker_env \<Rightarrow> Transaction list \<Rightarrow> 'f CLPACommitteeMod_Broker \<Rightarrow> 'f CLPACommitteeMod_Broker res" where
  "clpa_broker_batch B txlist c =
     bindR (dealTxByBroker (clpa_broker_mod_ops (be_params B)) B txlist c) (\<lambda>(itx, c1).
       broker_txSending (clpa_broker_mod_ops (be_params B)) B itx c1)"

definition clpa_hooks_broker :: "broker_env \<Rightarrow> ('f CLPACommitteeMod_Broker, 'f) clpa_hooks" where
  "clpa_hooks_broker B = \<lparr>ho_clpa = ccb_clpa, ho_upd = (\<lambda>f c. c\<lparr>ccb_clpa := f (ccb_clpa c)\<rparr>), ho_batch = clpa_broker_batch B\<rparr>"

definition clpa_broker_HandleOtherMessage ::
  "broker_env \<Rightarrow> wire \<Rightarrow> 'f CLPACommitteeMod_Broker \<Rightarrow> 'f CLPACommitteeMod_Broker res" where
  "clpa_broker_HandleOtherMessage B msg c =
     (case msg of WInner2CrossTx itct \<Rightarrow> clpa_broker_batch B (i2c_Txs itct) c | _ \<Rightarrow> Inr c)"

definition clpa_broker_HandleBlockInfo ::
  "broker_env \<Rightarrow> BlockInfoMsg \<Rightarrow> 'f CLPACommitteeMod_Broker \<Rightarrow> 'f CLPACommitteeMod_Broker res" where
  "clpa_broker_HandleBlockInfo B b c =
     (let c1 = c\<lparr>ccb_clpa := swap_epoch b (ccb_clpa c)\<rparr> in
      if bi_BlockBodyLength b = 0 then Inr c1
      else bindR (createConfirm (clpa_broker_mod_ops (be_params B)) B (bi_Broker1Txs b @ bi_Broker2Txs b) c1) (\<lambda>c2.
           bindR (add_edges (be_params B)
                    (map parties (filter (\<lambda>tx. \<not> tx_HasBroker tx) (bi_InnerShardTxs b)) @
                     map (\<lambda>tx. (tx_OriginalSender tx, tx_FinalRecipient tx)) (bi_Broker1Txs b)) (ccb_clpa c2)) (\<lambda>cl.
             Inr (c2\<lparr>ccb_clpa := cl\<rparr>))))"

end
