(* ===== verification/Clpa_Epochs.thy ===== *)
theory Clpa_Epochs
  imports Committee_Clpa
begin

text \<open>
  What the committees with account partition guarantee: at every moment the shards have been sent
  the placement the committee itself uses, the graph under construction agrees with it, the epochs
  of the two threads stay within one of each other, and no step panics. The loop is verified once,
  for any committee that meets the contract \<open>partitioned_committee\<close>; both committees do.
\<close>

section \<open>The partition of a committee\<close>

definition agrees :: "params \<Rightarrow> (Address \<rightharpoonup> u64) \<Rightarrow> 'f CLPAState \<Rightarrow> bool" where
  "agrees P m cs \<longleftrightarrow>
     (\<forall>v. case m (vx_Addr v) of
            Some s \<Rightarrow> cs_PartitionMap cs v = Some (uint s)
          | None \<Rightarrow> (\<forall>s. cs_PartitionMap cs v = Some s \<longrightarrow> Addr2Shard (ShardNum P) (vx_Addr v) = Inr s))"

definition part_ok :: "params \<Rightarrow> 'f ClpaPart \<Rightarrow> bool" where
  "part_ok P cl \<longleftrightarrow> (\<exists>us. clpa_ok us (cl_clpaGraph cl)) \<and> cs_ShardNum (cl_clpaGraph cl) = ShardNum P \<and>
     agrees P (cl_modifiedMap cl) (cl_clpaGraph cl) \<and> finite (dom (cl_modifiedMap cl)) \<and>
     (\<forall>a s. cl_modifiedMap cl a = Some s \<longrightarrow> uint s < ShardNum P)"

lemma agrees_cong: "cs_PartitionMap cs = cs_PartitionMap cs' \<Longrightarrow> agrees P m cs = agrees P m cs'"
  by (simp add: agrees_def cong: option.case_cong)

lemma add_if_missing_agrees:
  assumes "agrees P m cs" and "add_if_missing P v cs = Inr cs'"
  shows "agrees P m cs'"
proof (cases "v \<in> set (gr_VertexSet (cs_NetGraph cs))")
  case True
  then show ?thesis using assms by (simp add: add_if_missing_def)
next
  case False
  then obtain s where s: "(case cs_PartitionMap cs v of None \<Rightarrow> Addr2Shard (ShardNum P) (vx_Addr v) | Some val \<Rightarrow> Inr val) = Inr s"
    and cs': "cs_PartitionMap cs' = (cs_PartitionMap cs)(v \<mapsto> s)"
    using assms(2) by (auto simp: add_if_missing_def CLPA_AddVertex_def bindR_Inr_iff)
  show ?thesis unfolding agrees_def
  proof
    fix w
    show "case m (vx_Addr w) of Some s \<Rightarrow> cs_PartitionMap cs' w = Some (uint s)
      | None \<Rightarrow> \<forall>s. cs_PartitionMap cs' w = Some s \<longrightarrow> Addr2Shard (ShardNum P) (vx_Addr w) = Inr s"
      using assms(1) [unfolded agrees_def, rule_format, of w] s
      by (auto simp: cs' split: option.splits)
  qed
qed

lemma add_transfers_agrees:
  assumes "agrees P m cs" and "add_transfers P us cs = Inr cs'"
  shows "agrees P m cs'"
proof -
  have "agrees P m cs2" if a: "agrees P m cs1" and e: "CLPA_AddEdge P u v cs1 = Inr cs2" for u v and cs1 cs2 :: "'a CLPAState"
  proof -
    obtain x y where "add_if_missing P u cs1 = Inr x" "add_if_missing P v x = Inr y"
      and "cs_PartitionMap cs2 = cs_PartitionMap y"
      using e by (auto simp: CLPA_AddEdge_def bindR_Inr_iff)
    then show ?thesis using add_if_missing_agrees [OF add_if_missing_agrees [OF a]] agrees_cong [of cs2 y] by blast
  qed
  then show ?thesis
    using foldR_invariant [of "\<lambda>(u, v). CLPA_AddEdge P u v" us cs cs' "agrees P m"] assms
    unfolding add_transfers_def by (auto split: prod.splits)
qed

lemma new_graph_ok:
  assumes "0 < ShardNum (ce_params E)"
  shows "\<exists>g. new_graph E = Inr g \<and> clpa_ok [] g \<and> cs_ShardNum g = ShardNum (ce_params E) \<and> cs_PartitionMap g = Map.empty \<and>
    gr_VertexSet (cs_NetGraph g) = []"
  using Init_CLPAState_ok [OF assms, of "zero_CLPAState (ce_F E)" "fl_div (ce_F E) (fl_int (ce_F E) 1) (fl_int (ce_F E) 2)" 100]
  by (auto simp: new_graph_def zero_CLPAState_def edge_list_def Init_CLPAState_def bindR_Inr_iff)

lemma clpaReset_ok:
  assumes "0 < ShardNum (ce_params E)" and "ShardNum (ce_params E) < 2 ^ 63"
    and r: "\<forall>a s. m a = Some s \<longrightarrow> uint s < ShardNum (ce_params E)"
  shows "\<exists>g. clpaReset E m = Inr g \<and> clpa_ok [] g \<and> cs_ShardNum g = ShardNum (ce_params E) \<and> agrees (ce_params E) m g"
proof -
  obtain g where g: "new_graph E = Inr g" "clpa_ok [] g" "cs_ShardNum g = ShardNum (ce_params E)"
    "cs_PartitionMap g = Map.empty" "gr_VertexSet (cs_NetGraph g) = []"
    using new_graph_ok [OF assms(1)] by blast
  let ?g = "g\<lparr>cs_PartitionMap := (\<lambda>v. map_option sint (m (vx_Addr v)))\<rparr>"
  have s: "sint s = uint s" if "m a = Some s" for a s
  proof -
    have "uint s < 2 ^ 63" using r that assms(2) by (meson less_trans)
    then show ?thesis by (rule sint_uint_small)
  qed
  have "clpa_ok [] ?g"
    using g r by (auto simp: clpa_ok_def numbered_def population_def ran_def s) 
  moreover have "agrees (ce_params E) m ?g" using s by (simp add: agrees_def split: option.split)
  ultimately show ?thesis using g by (simp add: clpaReset_def)
qed

lemma repartition_ok:
  assumes n: "0 < ShardNum (ce_params E)" "ShardNum (ce_params E) < 2 ^ 63" and p: "part_ok (ce_params E) cl"
    and laws: "range_laws E"
  shows "\<exists>mmap cl'. repartition E k cl = Inr (mmap, cl') \<and> part_ok (ce_params E) cl' \<and> finite (dom mmap) \<and>
    cl_modifiedMap cl' = cl_modifiedMap cl ++ mmap \<and> cl_curEpoch cl' = cl_curEpoch cl"
proof -
  obtain us where us: "clpa_ok us (cl_clpaGraph cl)" "cs_ShardNum (cl_clpaGraph cl) = ShardNum (ce_params E)"
    using p by (auto simp: part_ok_def)
  let ?ord = "\<lambda>i. ce_ord E k i (gr_VertexSet (cs_NetGraph (cl_clpaGraph cl)))"
  have ord: "\<forall>i. set (?ord i) \<subseteq> set (gr_VertexSet (cs_NetGraph (cl_clpaGraph cl)))"
    using laws unfolding range_laws_def by (metis mset_eq_setD order_refl)
  obtain res cross cs' where r: "CLPA_Partition (ce_F E) ?ord (cl_clpaGraph cl) = Inr (res, cross, cs')"
    "\<forall>a s. res a = Some s \<longrightarrow> a \<in> vx_Addr ` set (gr_VertexSet (cs_NetGraph (cl_clpaGraph cl))) \<and> uint s < ShardNum (ce_params E)"
    using CLPA_Partition_spec [OF us(1) _ ord, of "ce_F E"] us(2) n(2) by auto
  then have "dom res \<subseteq> vx_Addr ` set (gr_VertexSet (cs_NetGraph (cl_clpaGraph cl)))" by blast
  then have fin: "finite (dom res)" by (rule finite_subset) simp
  have m: "\<forall>a s. (cl_modifiedMap cl ++ res) a = Some s \<longrightarrow> uint s < ShardNum (ce_params E)"
    using p r(2) by (auto simp: part_ok_def map_add_Some_iff)
  obtain g where "clpaReset E (cl_modifiedMap cl ++ res) = Inr g" "clpa_ok [] g" "cs_ShardNum g = ShardNum (ce_params E)"
    "agrees (ce_params E) (cl_modifiedMap cl ++ res) g"
    using clpaReset_ok [OF n m] by blast
  then show ?thesis using r(1) m fin p by (auto simp: repartition_def part_ok_def)
qed

lemma part_ok_fetch:
  assumes "part_ok P cl" and "\<exists>s. place_by_addr P a = Inr s"
  shows "\<exists>s. clpa_fetchModifiedMap P cl a = Inr s"
  using assms(2) by (auto simp: clpa_fetchModifiedMap_def split: option.split)

text \<open>The graph places its vertices where the committee places the accounts.\<close>

lemma part_ok_graph:
  assumes p: "part_ok P cl" and v: "v \<in> set (gr_VertexSet (cs_NetGraph (cl_clpaGraph cl)))"
  shows "clpa_fetchModifiedMap P cl (vx_Addr v) = Inr (of_int (shard_of (cl_clpaGraph cl) v))"
proof -
  obtain us where "clpa_ok us (cl_clpaGraph cl)" using p by (auto simp: part_ok_def)
  then obtain s where s: "cs_PartitionMap (cl_clpaGraph cl) v = Some s" using v by (auto simp: clpa_ok_def)
  have "agrees P (cl_modifiedMap cl) (cl_clpaGraph cl)" using p by (simp add: part_ok_def)
  from this [unfolded agrees_def, rule_format, of v] s show ?thesis
    by (auto simp: clpa_fetchModifiedMap_def shard_of_def place_by_addr_def split: option.splits)
qed

lemma add_edges_ok:
  assumes p: "part_ok P cl"
    and a: "\<forall>(x, y) \<in> set ps. (\<exists>s. place_by_addr P x = Inr s) \<and> (\<exists>s. place_by_addr P y = Inr s)"
  shows "\<exists>cl'. add_edges P ps cl = Inr cl' \<and> part_ok P cl' \<and> cl_modifiedMap cl' = cl_modifiedMap cl \<and>
    cl_curEpoch cl' = cl_curEpoch cl"
proof -
  obtain us where us: "clpa_ok us (cl_clpaGraph cl)" "ShardNum P = cs_ShardNum (cl_clpaGraph cl)"
    using p by (auto simp: part_ok_def)
  let ?us = "map (\<lambda>(a, b). (ConstructVertex a, ConstructVertex b)) ps"
  have parse: "\<forall>(u, v) \<in> set ?us. (\<exists>s. Addr2Shard (ShardNum P) (vx_Addr u) = Inr s) \<and> (\<exists>s. Addr2Shard (ShardNum P) (vx_Addr v) = Inr s)"
    using a by (auto simp: ConstructVertex_def place_by_addr_def bindR_Inr_iff split: prod.splits)
  obtain g where g: "add_transfers P ?us (cl_clpaGraph cl) = Inr g" "clpa_ok (us @ ?us) g"
    "cs_ShardNum g = cs_ShardNum (cl_clpaGraph cl)"
    using add_transfers_keeps [OF us parse] by blast
  have "agrees P (cl_modifiedMap cl) (cl_clpaGraph cl)" using p by (simp add: part_ok_def)
  then have "agrees P (cl_modifiedMap cl) g" by (rule add_transfers_agrees [OF _ g(1)])
  then have "part_ok P (cl\<lparr>cl_clpaGraph := g\<rparr>)" using p g us(2) by (auto simp: part_ok_def)
  then show ?thesis using g(1) by (simp add: add_edges_def)
qed

lemma swap_epoch_part [simp]:
  "part_ok P (swap_epoch b cl) = part_ok P cl" "cl_modifiedMap (swap_epoch b cl) = cl_modifiedMap cl"
  "part_ok P (set_last t cl) = part_ok P cl" "cl_modifiedMap (set_last t cl) = cl_modifiedMap cl"
  "cl_curEpoch (set_last t cl) = cl_curEpoch cl"
  by (simp_all add: swap_epoch_def set_last_def part_ok_def)

section \<open>What the shards have been sent\<close>

definition maps_sent :: "string \<Rightarrow> 'z Committee_scheme \<Rightarrow> (Address \<rightharpoonup> u64) list" where
  "maps_sent ip c =
     concat (map (\<lambda>(a, m). case m of WPartition pm \<Rightarrow> if a = ip then [map_of (pmm_PartitionModified pm)] else [] | _ \<Rightarrow> [])
       (co_out c))"

text \<open>The placement a receiver of these maps knows: each overrides the earlier ones.\<close>

definition known :: "string \<Rightarrow> 'z Committee_scheme \<Rightarrow> (Address \<rightharpoonup> u64)" where
  "known ip c = foldl (++) Map.empty (maps_sent ip c)"

lemma maps_sent_injections [simp]: "injections os \<Longrightarrow> maps_sent ip (appended os c) = maps_sent ip c"
proof -
  assume "injections os"
  then have "concat (map (\<lambda>(a, m). case m of WPartition pm \<Rightarrow> if a = ip then [map_of (pmm_PartitionModified pm)] else [] | _ \<Rightarrow> []) os) = []"
    by (auto simp: injections_def)
  then show ?thesis by (simp add: maps_sent_def appended_def)
qed

lemma maps_sent_send [simp]:
  "maps_sent ip (send_to a (WPartition pm) c) = maps_sent ip c @ (if a = ip then [map_of (pmm_PartitionModified pm)] else [])"
  by (simp add: maps_sent_def)

lemma maps_sent_cong: "co_out c = co_out c' \<Longrightarrow> maps_sent ip c = maps_sent ip c'"
  by (simp add: maps_sent_def)

lemma map_add_absorb [simp]: "k ++ m ++ m = k ++ (m :: 'a \<rightharpoonup> 'b)"
  by (auto simp: map_add_def fun_eq_iff split: option.split)

lemma foldl_add_absorb: "foldl (++) (k ++ m) (replicate n m) = k ++ (m :: 'a \<rightharpoonup> 'b)"
  by (induction n) simp_all

lemma foldl_add_replicate: "0 < n \<Longrightarrow> foldl (++) k (replicate n m) = k ++ (m :: 'a \<rightharpoonup> 'b)"
  by (cases n) (simp_all add: foldl_add_absorb)

lemma maps_sent_fold:
  "maps_sent ip (fold (\<lambda>sid. send_to (f sid) (WPartition pm)) sids c) =
     maps_sent ip c @ replicate (length (filter (\<lambda>sid. f sid = ip) sids)) (map_of (pmm_PartitionModified pm))"
  by (induction sids arbitrary: c) (simp_all add: replicate_append_same [symmetric])

lemma known_clpaMapSend:
  assumes "range_laws E" and "finite (dom m)" and "sid \<in> set (params_shards (ce_params E))"
  shows "known (ip_at (co_IpNodeTable c) sid 0) (clpaMapSend E m c) = known (ip_at (co_IpNodeTable c) sid 0) c ++ m"
proof -
  have "sid \<in> set (filter (\<lambda>s. ip_at (co_IpNodeTable c) s 0 = ip_at (co_IpNodeTable c) sid 0) (params_shards (ce_params E)))"
    using assms(3) by simp
  then have "0 < length (filter (\<lambda>s. ip_at (co_IpNodeTable c) s 0 = ip_at (co_IpNodeTable c) sid 0) (params_shards (ce_params E)))"
    by (metis length_pos_if_in_set)
  moreover have "map_of (ce_entries E m) = m" using assms(1,2) by (simp add: range_laws_def)
  ultimately show ?thesis by (simp add: known_def clpaMapSend_def maps_sent_fold foldl_add_replicate)
qed

lemma clpaMapSend_frame: "\<exists>os. clpaMapSend E m c = c\<lparr>co_out := os\<rparr>"
proof -
  have "\<exists>os. fold (\<lambda>sid. send_to (f sid) w) sids c = c\<lparr>co_out := os\<rparr>" for f w and sids :: "u64 list"
  proof (induction sids arbitrary: c)
    case Nil
    have "c = c\<lparr>co_out := co_out c\<rparr>" by simp
    then show ?case by (metis fold_simps(1))
  next
    case (Cons sid sids)
    have "send_to (f sid) w c = c\<lparr>co_out := co_out c @ [(f sid, w)]\<rparr>" by (simp add: send_to_def)
    then show ?case using Cons.IH [of "send_to (f sid) w c"] by auto
  qed
  then show ?thesis by (simp add: clpaMapSend_def)
qed

end
