(* ===== verification/Clpa_Runs.thy ===== *)
theory Clpa_Runs
  imports Clpa_Epochs
begin

text \<open>
  Runs of the committees with account partition: any interleaving of the steps of the thread that
  sends and of reports of the shards. The loop is verified once, for any committee that meets the
  contract \<open>partitioned_committee\<close>; both committees meet it.
\<close>

section \<open>Reachable states\<close>

fun pc_cnt :: "clpa_pc \<Rightarrow> int" where
  "pc_cnt (Reading rows txlist n) = n"
| "pc_cnt (Recorded rows txlist n) = n"
| "pc_cnt (AwaitEpoch rows txlist n) = n"
| "pc_cnt (Draining n) = n"
| "pc_cnt (Slept n) = n"
| "pc_cnt (AwaitEpochEnd n) = n"
| "pc_cnt (Sent n) = n"

fun waiting :: "clpa_pc \<Rightarrow> bool" where
  "waiting (AwaitEpoch rows txlist n) = True"
| "waiting (AwaitEpochEnd n) = True"
| "waiting _ = False"

text \<open>
  The shards report blocks of epochs for which they have been sent a partition, 0 being the one
  they start with.
\<close>

inductive clpa_reach ::
  "('z Committee_scheme, 'f) clpa_hooks \<Rightarrow> 'f clpa_env \<Rightarrow> (BlockInfoMsg \<Rightarrow> 'z Committee_scheme \<Rightarrow> 'z Committee_scheme res) \<Rightarrow>
     (BlockInfoMsg \<Rightarrow> bool) \<Rightarrow> clpa_pc \<Rightarrow> 'z Committee_scheme \<Rightarrow> clpa_pc \<Rightarrow> 'z Committee_scheme \<Rightarrow> bool"
  for H E rep fine_rep pc0 c0 where
  start: "clpa_reach H E rep fine_rep pc0 c0 pc0 c0"
| control: "clpa_reach H E rep fine_rep pc0 c0 pc c \<Longrightarrow> control_step H E now pc c = Inr (pc', c') \<Longrightarrow>
    clpa_reach H E rep fine_rep pc0 c0 pc' c'"
| report: "clpa_reach H E rep fine_rep pc0 c0 pc c \<Longrightarrow> fine_rep b \<Longrightarrow> 0 \<le> bi_Epoch b \<Longrightarrow> bi_Epoch b \<le> pc_cnt pc \<Longrightarrow>
    pc_cnt pc < 2 ^ 31 \<Longrightarrow> rep b c = Inr c' \<Longrightarrow> clpa_reach H E rep fine_rep pc0 c0 pc c'"

definition epochs :: "clpa_pc \<Rightarrow> 32 word \<Rightarrow> bool" where
  "epochs pc cur \<longleftrightarrow> 0 \<le> pc_cnt pc \<and>
     (cur = of_int (pc_cnt pc) \<or> waiting pc \<and> 1 \<le> pc_cnt pc \<and> cur = of_int (pc_cnt pc - 1))"

lemma word32_of_int_eq:
  assumes "- 1 \<le> a" and "a < 2 ^ 31" and "0 \<le> b" and "b < 2 ^ 31" and "(of_int a :: 32 word) = of_int b"
  shows "a = b"
proof -
  have "a mod 2 ^ 32 = b mod 2 ^ 32"
    using assms(5) by (simp add: word_of_int_eq_iff take_bit_eq_mod)
  then show ?thesis using assms(1-4) by (cases "a = -1") auto
qed

lemma epochs_report:
  assumes "epochs pc (cl_curEpoch cl)" and "0 \<le> bi_Epoch b" and "bi_Epoch b \<le> pc_cnt pc" and "pc_cnt pc < 2 ^ 31"
  shows "epochs pc (cl_curEpoch (swap_epoch b cl))"
proof (cases "cl_curEpoch cl = of_int (bi_Epoch b - 1)")
  case False
  then show ?thesis using assms(1) by (simp add: swap_epoch_def)
next
  case True
  have n: "0 \<le> pc_cnt pc" using assms(1) by (simp add: epochs_def)
  consider "cl_curEpoch cl = of_int (pc_cnt pc)" | "waiting pc" "1 \<le> pc_cnt pc" "cl_curEpoch cl = of_int (pc_cnt pc - 1)"
    using assms(1) by (auto simp: epochs_def)
  then show ?thesis
  proof cases
    case 1
    then have "bi_Epoch b - 1 = pc_cnt pc"
      using word32_of_int_eq [of "bi_Epoch b - 1" "pc_cnt pc"] True assms(2-4) n by simp
    then show ?thesis using assms(3) by simp
  next
    case 2
    then have "bi_Epoch b - 1 = pc_cnt pc - 1"
      using word32_of_int_eq [of "bi_Epoch b - 1" "pc_cnt pc - 1"] True assms(2-4) by simp
    then show ?thesis using True n by (simp add: swap_epoch_def epochs_def)
  qed
qed

definition pc_fine :: "lib \<Rightarrow> (Transaction \<Rightarrow> bool) \<Rightarrow> clpa_pc \<Rightarrow> bool" where
  "pc_fine L fine pc = (case pc of
      Reading rows txlist n \<Rightarrow> readable L fine rows \<and> (\<forall>tx \<in> set txlist. fine tx)
    | Recorded rows txlist n \<Rightarrow> readable L fine rows \<and> (\<forall>tx \<in> set txlist. fine tx)
    | AwaitEpoch rows txlist n \<Rightarrow> readable L fine rows \<and> (\<forall>tx \<in> set txlist. fine tx)
    | _ \<Rightarrow> True)"

lemma readable_Cons:
  "readable L fine ((d, t) # rows) \<longleftrightarrow> readable L fine rows \<and> (\<exists>data. d = Some data \<and>
     (\<forall>nonce. case data2tx L t data nonce of Inl e \<Rightarrow> False | Inr None \<Rightarrow> True | Inr (Some tx) \<Rightarrow> fine tx))"
  by (auto simp: readable_def)

text \<open>The report of an empty block.\<close>

definition empty_report :: "int \<Rightarrow> BlockInfoMsg" where
  "empty_report e = \<lparr>bi_BlockBodyLength = 0, bi_InnerShardTxs = [], bi_Epoch = e, bi_ProposeTime = 0,
     bi_CommitTime = 0, bi_SenderShardID = 0, bi_Relay1Txs = [], bi_Relay2Txs = [], bi_Broker1Txs = [],
     bi_Broker2Txs = [], bi_Bridge1Txs = [], bi_Bridge2Txs = [], bi_BridgeForwardTxs = [], bi_JointSig = []\<rparr>"

lemma empty_report_simps [simp]: "bi_Epoch (empty_report e) = e" "bi_BlockBodyLength (empty_report e) = 0"
  by (simp_all add: empty_report_def)

text \<open>
  A report is one step here. The source compares the epoch before it takes the lock for the edges, so steps
  of the other thread may come between the two. Such a report is in a run the report of an empty block of the
  same epoch, which only compares, followed later by the report itself, whose comparison has no
  further effect.
\<close>

lemma swap_epoch_twice: "swap_epoch b (swap_epoch (empty_report (bi_Epoch b)) cl) = swap_epoch b cl"
proof -
  have "(of_int (bi_Epoch b) :: 32 word) \<noteq> of_int (bi_Epoch b - 1)" by simp
  then show ?thesis by (simp add: swap_epoch_def)
qed

lemma clpa_report_in_two_steps:
  "bindR (clpa_HandleBlockInfo E (empty_report (bi_Epoch b)) c) (clpa_HandleBlockInfo E b) = clpa_HandleBlockInfo E b c"
  by (simp add: clpa_HandleBlockInfo_def Let_def swap_epoch_twice)

lemma clpa_broker_report_in_two_steps:
  "bindR (clpa_broker_HandleBlockInfo B (empty_report (bi_Epoch b)) c) (clpa_broker_HandleBlockInfo B b) =
     clpa_broker_HandleBlockInfo B b c"
  by (simp add: clpa_broker_HandleBlockInfo_def Let_def swap_epoch_twice)

text \<open>
  A run in which the committee gets the least it needs: a step of the thread that sends, at each step with
  the time the clock shows; and if the thread waits for an epoch, before its step one report, of an empty block
  of that epoch. There are no other reports.
\<close>

definition served_step ::
  "('z Committee_scheme, 'f) clpa_hooks \<Rightarrow> 'f clpa_env \<Rightarrow> (BlockInfoMsg \<Rightarrow> 'z Committee_scheme \<Rightarrow> 'z Committee_scheme res) \<Rightarrow>
     time \<Rightarrow> clpa_pc \<times> 'z Committee_scheme \<Rightarrow> (clpa_pc \<times> 'z Committee_scheme) res" where
  "served_step H E rep now s =
     bindR (if waiting (fst s) then rep (empty_report (pc_cnt (fst s))) (snd s) else Inr (snd s)) (control_step H E now (fst s))"

fun served_run ::
  "('z Committee_scheme, 'f) clpa_hooks \<Rightarrow> 'f clpa_env \<Rightarrow> (BlockInfoMsg \<Rightarrow> 'z Committee_scheme \<Rightarrow> 'z Committee_scheme res) \<Rightarrow>
     time list \<Rightarrow> clpa_pc \<times> 'z Committee_scheme \<Rightarrow> (clpa_pc \<times> 'z Committee_scheme) res" where
  "served_run H E rep [] s = Inr s"
| "served_run H E rep (now # clock) s = bindR (served_step H E rep now s) (served_run H E rep clock)"

lemma served_run_append:
  "served_run H E rep (ts @ us) s = bindR (served_run H E rep ts s) (served_run H E rep us)"
proof (induction ts arbitrary: s)
  case (Cons t ts)
  then show ?case by (cases "served_step H E rep t s") simp_all
qed simp

lemma control_step_mono: "control_step H E now pc c = Inr (pc', c') \<Longrightarrow> pc_cnt pc \<le> pc_cnt pc'"
  by (induction H E now pc c rule: control_step.induct)
    (auto simp: bindR_Inr_iff after_record_def Let_def split: if_splits option.splits)

lemma served_run_mono: "served_run H E rep ts s = Inr s' \<Longrightarrow> pc_cnt (fst s) \<le> pc_cnt (fst s')"
proof (induction ts arbitrary: s)
  case (Cons t ts)
  obtain s1 where s1: "served_step H E rep t s = Inr s1" "served_run H E rep ts s1 = Inr s'"
    using Cons.prems by (auto simp: bindR_Inr_iff)
  have "pc_cnt (fst s) \<le> pc_cnt (fst s1)"
    using s1(1) control_step_mono [where pc' = "fst s1" and c' = "snd s1"] by (force simp: served_step_def bindR_Inr_iff split: if_splits)
  then show ?case using Cons.IH [OF s1(2)] by simp
qed simp

section \<open>The contract of a committee\<close>

text \<open>
  A committee gives access to its partition state, sends the transactions of a batch without
  touching it, and handles a report by adding edges to the graph and comparing the epoch.
\<close>

definition env_ok :: "'f clpa_env \<Rightarrow> bool" where
  "env_ok E \<longleftrightarrow> 0 < ShardNum (ce_params E) \<and> ShardNum (ce_params E) < 2 ^ 63 \<and> InjectSpeed (ce_params E) \<noteq> 0 \<and> range_laws E"

locale partitioned_committee =
  fixes H :: "('z Committee_scheme, 'f) clpa_hooks"
    and E :: "'f clpa_env"
    and rep :: "BlockInfoMsg \<Rightarrow> 'z Committee_scheme \<Rightarrow> 'z Committee_scheme res"
    and good :: "'z Committee_scheme \<Rightarrow> bool"
    and fine :: "Transaction \<Rightarrow> bool"
    and fine_rep :: "BlockInfoMsg \<Rightarrow> bool"
  assumes get_upd: "ho_clpa H (ho_upd H f c) = f (ho_clpa H c)"
    and upd_frame: "co_out (ho_upd H f c) = co_out c" "co_IpNodeTable (ho_upd H f c) = co_IpNodeTable c"
    and get_frame: "ho_clpa H (c\<lparr>co_out := os\<rparr>) = ho_clpa H c" "ho_clpa H (c\<lparr>co_nowDataNum := n\<rparr>) = ho_clpa H c"
      "ho_clpa H (c\<lparr>co_Ss := ss\<rparr>) = ho_clpa H c"
    and good_frame: "good (ho_upd H f c) = good c" "good (c\<lparr>co_out := os\<rparr>) = good c" "good (c\<lparr>co_nowDataNum := n\<rparr>) = good c"
      "good (c\<lparr>co_Ss := ss\<rparr>) = good c"
    and batch: "part_ok (ce_params E) (ho_clpa H c) \<Longrightarrow> good c \<Longrightarrow> \<forall>tx \<in> set txs. fine tx \<Longrightarrow>
      \<exists>c'. ho_batch H txs c = Inr c' \<and> good c' \<and> ho_clpa H c' = ho_clpa H c \<and>
        co_IpNodeTable c' = co_IpNodeTable c \<and> (\<forall>ip. maps_sent ip c' = maps_sent ip c)"
    and reports: "part_ok (ce_params E) (ho_clpa H c) \<Longrightarrow> good c \<Longrightarrow> fine_rep b \<Longrightarrow>
      \<exists>c'. rep b c = Inr c' \<and> good c' \<and> part_ok (ce_params E) (ho_clpa H c') \<and>
        cl_modifiedMap (ho_clpa H c') = cl_modifiedMap (ho_clpa H c) \<and>
        cl_curEpoch (ho_clpa H c') = cl_curEpoch (swap_epoch b (ho_clpa H c)) \<and>
        co_IpNodeTable c' = co_IpNodeTable c \<and> (\<forall>ip. maps_sent ip c' = maps_sent ip c)"
    and env: "good c \<Longrightarrow> env_ok E"
begin

definition synced :: "ip_table \<Rightarrow> 'z Committee_scheme \<Rightarrow> bool" where
  "synced tbl c \<longleftrightarrow> part_ok (ce_params E) (ho_clpa H c) \<and> good c \<and> co_IpNodeTable c = tbl \<and>
     (\<forall>sid \<in> set (params_shards (ce_params E)). known (ip_at tbl sid 0) c = cl_modifiedMap (ho_clpa H c))"

definition inv :: "ip_table \<Rightarrow> clpa_pc \<Rightarrow> 'z Committee_scheme \<Rightarrow> bool" where
  "inv tbl pc c \<longleftrightarrow> synced tbl c \<and> epochs pc (cl_curEpoch (ho_clpa H c)) \<and> pc_fine (ce_lib E) fine pc"

lemma known_same: "(\<And>ip. maps_sent ip c' = maps_sent ip c) \<Longrightarrow> known ip c' = known ip c"
  by (simp add: known_def)

lemma synced_upd:
  assumes "synced tbl c" and "\<And>cl. part_ok (ce_params E) cl \<Longrightarrow> part_ok (ce_params E) (f cl)"
    and "\<And>cl. cl_modifiedMap (f cl) = cl_modifiedMap cl"
  shows "synced tbl (ho_upd H f c)"
  using assms known_same [of "ho_upd H f c" c] maps_sent_cong [of "ho_upd H f c" c]
  by (simp add: synced_def get_upd upd_frame good_frame)

lemma synced_frame:
  "synced tbl (c\<lparr>co_nowDataNum := n\<rparr>) = synced tbl c" "synced tbl (reset_gap c) = synced tbl c"
  "ho_clpa H (reset_gap c) = ho_clpa H c"
  by (simp_all add: synced_def get_frame good_frame known_def maps_sent_def reset_gap_def)

lemma send_batch_ok:
  assumes "synced tbl c" and "\<forall>tx \<in> set txs. fine tx"
  shows "\<exists>c'. send_batch H now txs c = Inr c' \<and> synced tbl c' \<and> cl_curEpoch (ho_clpa H c') = cl_curEpoch (ho_clpa H c)"
proof -
  let ?f = "\<lambda>cl. if IsZero (cl_clpaLastRunningTime cl) then set_last now cl else cl"
  have s: "synced tbl (ho_upd H ?f c)" by (rule synced_upd [OF assms(1)]) simp_all
  then obtain c' where c': "ho_batch H txs (ho_upd H ?f c) = Inr c'" "good c'" "ho_clpa H c' = ?f (ho_clpa H c)"
    "co_IpNodeTable c' = tbl" "\<And>ip. maps_sent ip c' = maps_sent ip (ho_upd H ?f c)"
    using batch [of "ho_upd H ?f c" txs] assms(2) by (auto simp: synced_def get_upd)
  then have "synced tbl c'" using s known_same [OF c'(5)] by (simp add: synced_def get_upd)
  then show ?thesis using c'(1,3) by (simp add: send_batch_def synced_frame)
qed

lemma partition_epoch_ok:
  assumes "synced tbl c"
  shows "\<exists>c'. partition_epoch H E k c = Inr c' \<and> synced tbl c' \<and> cl_curEpoch (ho_clpa H c') = cl_curEpoch (ho_clpa H c)"
proof -
  have p: "part_ok (ce_params E) (ho_clpa H c)" using assms by (simp add: synced_def)
  have shards: "0 < ShardNum (ce_params E)" "ShardNum (ce_params E) < 2 ^ 63" and laws: "range_laws E"
    using env [of c] assms by (simp_all add: synced_def env_ok_def)
  obtain m cl where r: "repartition E k (ho_clpa H c) = Inr (m, cl)" "part_ok (ce_params E) cl" "finite (dom m)"
    "cl_modifiedMap cl = cl_modifiedMap (ho_clpa H c) ++ m" "cl_curEpoch cl = cl_curEpoch (ho_clpa H c)"
    using repartition_ok [OF shards p laws] by blast
  let ?c = "ho_upd H (\<lambda>_. cl) (clpaMapSend E m c)"
  have ip: "co_IpNodeTable c = tbl" and g: "good c"
    and k: "\<And>sid. sid \<in> set (params_shards (ce_params E)) \<Longrightarrow> known (ip_at tbl sid 0) c = cl_modifiedMap (ho_clpa H c)"
    using assms by (auto simp: synced_def)
  obtain os where os: "clpaMapSend E m c = c\<lparr>co_out := os\<rparr>" using clpaMapSend_frame by blast
  have "known (ip_at tbl sid 0) ?c = cl_modifiedMap cl" if "sid \<in> set (params_shards (ce_params E))" for sid
  proof -
    have "known (ip_at tbl sid 0) ?c = known (ip_at tbl sid 0) (clpaMapSend E m c)"
      using maps_sent_cong [of ?c "clpaMapSend E m c"] by (simp add: known_def upd_frame)
    then show ?thesis using known_clpaMapSend [OF laws r(3) that, of c] k [OF that] r(4) ip by simp
  qed
  then have "synced tbl ?c"
    using r(2) ip g by (simp add: synced_def get_upd upd_frame good_frame os)
  then show ?thesis using r(1,5) by (simp add: partition_epoch_def get_upd)
qed

lemma after_record_fine:
  "pc_cnt (after_record rows txs n c) = n" "\<not> waiting (after_record rows txs n c)"
  "readable L Q rows \<Longrightarrow> \<forall>tx \<in> set txs. Q tx \<Longrightarrow> pc_fine L Q (after_record rows txs n c)"
  by (simp_all add: after_record_def pc_fine_def)

lemma set_last_synced: "synced tbl c \<Longrightarrow> synced tbl (ho_upd H (set_last t) c)"
  by (rule synced_upd) simp_all

lemma read_step:
  assumes "inv tbl (Reading ((d, t) # rows) txlist n) c"
  shows "\<exists>txs pc' c'. control_step H E now (Reading ((d, t) # rows) txlist n) c = Inr (pc', c') \<and> inv tbl pc' c' \<and>
    (pc' = Reading rows txs n \<or> pc' = Recorded rows txs n)"
proof -
  have s: "synced tbl c" and n: "0 \<le> n" and cur: "cl_curEpoch (ho_clpa H c) = of_int n"
    and rd: "readable (ce_lib E) fine rows" and txl: "\<forall>tx \<in> set txlist. fine tx"
    using assms by (auto simp: inv_def epochs_def pc_fine_def readable_Cons)
  obtain data where d: "d = Some data" and ok: "\<And>nonce. case data2tx (ce_lib E) t data nonce of
      Inl e \<Rightarrow> False | Inr None \<Rightarrow> True | Inr (Some tx) \<Rightarrow> fine tx"
    using assms by (auto simp: inv_def pc_fine_def readable_Cons)
  obtain otx where otx: "data2tx (ce_lib E) t data (of_int (co_nowDataNum c)) = Inr otx"
    using ok [of "of_int (co_nowDataNum c)"] by (auto split: sum.splits)
  show ?thesis
  proof (cases otx)
    case None
    then show ?thesis using otx d s n cur rd txl by (simp add: inv_def epochs_def pc_fine_def)
  next
    case (Some tx)
    have tx: "fine tx" using ok [of "of_int (co_nowDataNum c)"] otx Some by simp
    let ?c1 = "c\<lparr>co_nowDataNum := co_nowDataNum c + 1\<rparr>"
    have s1: "synced tbl ?c1" and cur1: "cl_curEpoch (ho_clpa H ?c1) = of_int n"
      using s cur by (simp_all add: synced_frame get_frame)
    have txs: "\<forall>tx \<in> set (txlist @ [tx]). fine tx" using txl tx by auto
    obtain c2 where c2: "send_batch H now (txlist @ [tx]) ?c1 = Inr c2" "synced tbl c2" "cl_curEpoch (ho_clpa H c2) = of_int n"
      using send_batch_ok [OF s1 txs, of now] cur1 by auto
    have "inv tbl (Recorded rows [] n) c2" "inv tbl (Recorded rows (txlist @ [tx]) n) ?c1"
      using c2(2,3) s1 cur1 n rd txs by (simp_all add: inv_def epochs_def pc_fine_def)
    then show ?thesis unfolding d using c2(1) by (simp add: otx Some Let_def)
  qed
qed

lemma record_step:
  assumes "inv tbl (Recorded rows txs n) c"
  shows "\<exists>pc' c'. control_step H E now (Recorded rows txs n) c = Inr (pc', c') \<and> inv tbl pc' c' \<and>
    (pc' = Draining n \<or> pc' = Reading rows txs n \<or> pc' = AwaitEpoch rows txs (n + 1))"
proof (cases "\<not> IsZero (cl_clpaLastRunningTime (ho_clpa H c)) \<and> clpa_due (ce_params E) now (ho_clpa H c)")
  case True
  have "synced tbl c" "cl_curEpoch (ho_clpa H c) = of_int n" using assms by (simp_all add: inv_def epochs_def)
  then obtain c1 where "partition_epoch H E (n + 1) c = Inr c1" "synced tbl c1" "cl_curEpoch (ho_clpa H c1) = of_int n"
    using partition_epoch_ok [of tbl c "n + 1"] by auto
  then show ?thesis using True assms by (simp add: inv_def epochs_def pc_fine_def)
next
  case False
  have "inv tbl (after_record rows txs n c) c"
    using assms after_record_fine(3) [of "ce_lib E" fine rows txs n c] by (simp add: inv_def epochs_def after_record_fine pc_fine_def)
  moreover have "control_step H E now (Recorded rows txs n) c = Inr (after_record rows txs n c, c)"
    using False by (simp only: control_step.simps if_False)
  ultimately show ?thesis by (auto simp: after_record_def split: if_splits)
qed

lemma step_ok:
  assumes "inv tbl pc c"
  shows "\<exists>pc' c'. control_step H E now pc c = Inr (pc', c') \<and> inv tbl pc' c'"
proof (cases pc)
  case (Reading rows txlist n)
  then show ?thesis
    using assms read_step by (cases rows) (fastforce simp: inv_def epochs_def pc_fine_def)+
next
  case (Recorded rows txlist n)
  then show ?thesis using assms record_step by blast
next
  case (AwaitEpoch rows txlist n)
  then show ?thesis using assms set_last_synced
    by (auto simp: inv_def epochs_def pc_fine_def get_upd after_record_def)
next
  case (Draining n)
  then show ?thesis using assms by (simp add: inv_def epochs_def pc_fine_def)
next
  case (Slept n)
  show ?thesis
  proof (cases "clpa_due (ce_params E) now (ho_clpa H c)")
    case True
    obtain c1 where "partition_epoch H E (n + 1) c = Inr c1" "synced tbl c1" "cl_curEpoch (ho_clpa H c1) = of_int n"
      using partition_epoch_ok [of tbl c "n + 1"] assms Slept by (auto simp: inv_def epochs_def)
    then show ?thesis using True assms Slept by (simp add: inv_def epochs_def pc_fine_def)
  qed (use assms Slept in \<open>auto simp: inv_def epochs_def pc_fine_def\<close>)
next
  case (AwaitEpochEnd n)
  then show ?thesis using assms set_last_synced by (auto simp: inv_def epochs_def pc_fine_def get_upd)
qed (use assms in simp)

lemma report_ok:
  assumes "inv tbl pc c" and "fine_rep b" and "0 \<le> bi_Epoch b" and "bi_Epoch b \<le> pc_cnt pc" and "pc_cnt pc < 2 ^ 31"
  shows "\<exists>c'. rep b c = Inr c' \<and> inv tbl pc c' \<and> cl_curEpoch (ho_clpa H c') = cl_curEpoch (swap_epoch b (ho_clpa H c))"
proof -
  have "part_ok (ce_params E) (ho_clpa H c)" "good c" using assms(1) by (auto simp: inv_def synced_def)
  from reports [OF this assms(2)] obtain c' where c': "rep b c = Inr c'" "good c'" "part_ok (ce_params E) (ho_clpa H c')"
    "cl_modifiedMap (ho_clpa H c') = cl_modifiedMap (ho_clpa H c)"
    "cl_curEpoch (ho_clpa H c') = cl_curEpoch (swap_epoch b (ho_clpa H c))"
    "co_IpNodeTable c' = co_IpNodeTable c" "\<And>ip. maps_sent ip c' = maps_sent ip c" by blast
  have "epochs pc (cl_curEpoch (ho_clpa H c'))"
    unfolding c'(5) using assms by (intro epochs_report) (simp_all add: inv_def)
  then show ?thesis using c' assms(1) known_same [OF c'(7)] by (simp add: inv_def synced_def)
qed

lemma reach_inv:
  assumes "clpa_reach H E rep fine_rep pc0 c0 pc c" and "inv tbl pc0 c0"
  shows "inv tbl pc c"
  using assms
proof (induction rule: clpa_reach.induct)
  case (control pc c now pc' c')
  then show ?case using step_ok [of tbl pc c now] by simp
next
  case (report pc c b c')
  then show ?case using report_ok [of tbl pc c b] by simp
qed

text \<open>A wait ends with the first report of the awaited epoch.\<close>

lemma served_step_ok:
  assumes "inv tbl pc c" and "waiting pc \<Longrightarrow> pc_cnt pc < 2 ^ 31" and "\<And>e. fine_rep (empty_report e)"
  shows "\<exists>pc' c'. served_step H E rep now (pc, c) = Inr (pc', c') \<and> inv tbl pc' c' \<and>
    (waiting pc \<longrightarrow> \<not> waiting pc' \<and> (\<forall>rows txs n. pc = AwaitEpoch rows txs n \<longrightarrow> pc' = Draining n \<or> pc' = Reading rows txs n))"
proof (cases "waiting pc")
  case False
  then show ?thesis using step_ok [OF assms(1), of now] by (simp add: served_step_def)
next
  case True
  have n: "0 \<le> pc_cnt pc" using assms(1) by (simp add: inv_def epochs_def)
  obtain c1 where c1: "rep (empty_report (pc_cnt pc)) c = Inr c1" "inv tbl pc c1"
    "cl_curEpoch (ho_clpa H c1) = cl_curEpoch (swap_epoch (empty_report (pc_cnt pc)) (ho_clpa H c))"
    using report_ok [OF assms(1,3), of "pc_cnt pc"] n assms(2) True by auto
  have "epochs pc (cl_curEpoch (ho_clpa H c))" using assms(1) by (simp add: inv_def)
  then have cur: "cl_curEpoch (ho_clpa H c1) = of_int (pc_cnt pc)"
    unfolding c1(3) by (auto simp: epochs_def swap_epoch_def)
  obtain pc' c' where st: "control_step H E now pc c1 = Inr (pc', c')" "inv tbl pc' c'"
    using step_ok [OF c1(2)] by blast
  have "\<not> waiting pc' \<and> (\<forall>rows txs n. pc = AwaitEpoch rows txs n \<longrightarrow> pc' = Draining n \<or> pc' = Reading rows txs n)"
    using st(1) True cur by (cases pc) (auto simp: after_record_def split: if_splits)
  then show ?thesis using True c1(1) st by (simp add: served_step_def)
qed

lemma served_record:
  assumes "inv tbl (Reading (row # rows) txs0 n) c" and "n + 1 < 2 ^ 31" and "\<And>e. fine_rep (empty_report e)"
  shows "\<exists>k txs n' pc' c'. 0 < k \<and> k \<le> 3 \<and> n \<le> n' \<and> n' \<le> n + 1 \<and> (pc' = Reading rows txs n' \<or> pc' = Draining n') \<and> inv tbl pc' c' \<and>
    served_run H E rep (map clock [i..<i + k]) (Reading (row # rows) txs0 n, c) = Inr (pc', c')"
proof -
  obtain d t where row: "row = (d, t)" by (cases row)
  have upt: "[i..<i + 1] = [i]" "[i..<i + 2] = [i, i + 1]" "[i..<i + 3] = [i, i + 1, i + 2]"
    by (simp_all add: upt_rec [of i] upt_rec [of "Suc i"] upt_rec [of "Suc (Suc i)"])
  obtain txs pc1 c1 where 1: "served_step H E rep (clock i) (Reading (row # rows) txs0 n, c) = Inr (pc1, c1)" "inv tbl pc1 c1"
    "pc1 = Reading rows txs n \<or> pc1 = Recorded rows txs n"
    using read_step [of tbl d t rows txs0 n c "clock i"] assms(1) row by (auto simp: served_step_def)
  show ?thesis
  proof (cases "pc1 = Reading rows txs n")
    case True
    then show ?thesis using 1 upt(1) by (intro exI [of _ 1] exI [of _ txs] exI [of _ n] exI [of _ pc1] exI [of _ c1]) simp
  next
    case False
    then obtain pc2 c2 where 2: "served_step H E rep (clock (i + 1)) (pc1, c1) = Inr (pc2, c2)" "inv tbl pc2 c2"
      "pc2 = Draining n \<or> pc2 = Reading rows txs n \<or> pc2 = AwaitEpoch rows txs (n + 1)"
      using record_step [of tbl rows txs n c1 "clock (i + 1)"] 1(2,3) by (auto simp: served_step_def)
    show ?thesis
    proof (cases "pc2 = AwaitEpoch rows txs (n + 1)")
      case False
      then show ?thesis using 1(1) 2 upt(2) by (intro exI [of _ 2] exI [of _ txs] exI [of _ n] exI [of _ pc2] exI [of _ c2]) auto
    next
      case True
      obtain pc3 c3 where "served_step H E rep (clock (i + 2)) (pc2, c2) = Inr (pc3, c3)" "inv tbl pc3 c3"
        "pc3 = Draining (n + 1) \<or> pc3 = Reading rows txs (n + 1)"
        using served_step_ok [OF 2(2) _ assms(3), of "clock (i + 2)"] True assms(2) by auto
      then show ?thesis using 1(1) 2(1) upt(3)
        by (intro exI [of _ 3] exI [of _ txs] exI [of _ "n + 1"] exI [of _ pc3] exI [of _ c3]) auto
    qed
  qed
qed

lemma served_to_the_end:
  assumes "inv tbl (Reading rows txs n) c" and "n + int (length rows) < 2 ^ 31" and "\<And>e. fine_rep (empty_report e)"
  shows "\<exists>k n' c'. k \<le> 3 * length rows + 1 \<and> n \<le> n' \<and> n' \<le> n + int (length rows) \<and> inv tbl (Draining n') c' \<and>
    served_run H E rep (map clock [i..<i + k]) (Reading rows txs n, c) = Inr (Draining n', c')"
  using assms(1,2)
proof (induction rows arbitrary: i txs n c)
  case Nil
  have "[i..<i + 1] = [i]" by simp
  then show ?case using Nil.prems(1)
    by (intro exI [of _ 1] exI [of _ n] exI [of _ c]) (simp add: served_step_def inv_def epochs_def pc_fine_def)
next
  case (Cons row rows)
  obtain k txs1 n1 pc1 c1 where 1: "k \<le> 3" "n \<le> n1" "n1 \<le> n + 1" "pc1 = Reading rows txs1 n1 \<or> pc1 = Draining n1" "inv tbl pc1 c1"
    "served_run H E rep (map clock [i..<i + k]) (Reading (row # rows) txs n, c) = Inr (pc1, c1)"
    using served_record [OF Cons.prems(1) _ assms(3), of clock i] Cons.prems(2) by fastforce
  show ?case
  proof (cases "pc1 = Draining n1")
    case True
    then show ?thesis using 1 by (intro exI [of _ k] exI [of _ n1] exI [of _ c1]) auto
  next
    case False
    then have pc1: "pc1 = Reading rows txs1 n1" using 1(4) by blast
    obtain j n' c' where 2: "j \<le> 3 * length rows + 1" "n1 \<le> n'" "n' \<le> n1 + int (length rows)" "inv tbl (Draining n') c'"
      "served_run H E rep (map clock [i + k..<i + k + j]) (pc1, c1) = Inr (Draining n', c')"
      using Cons.IH [of txs1 n1 c1 "i + k"] 1(2,3,5) pc1 Cons.prems(2) by auto
    have "[i..<i + (k + j)] = [i..<i + k] @ [i + k..<i + k + j]" using upt_add_eq_append [of i "i + k" j] by (simp add: add.assoc)
    then have "served_run H E rep (map clock [i..<i + (k + j)]) (Reading (row # rows) txs n, c) = Inr (Draining n', c')"
      using 1(6) 2(5) by (simp add: served_run_append)
    then show ?thesis using 1(1-3) 2(1-4) by (intro exI [of _ "k + j"] exI [of _ n'] exI [of _ c']) auto
  qed
qed

end

section \<open>Both committees meet the contract\<close>

definition parses :: "params \<Rightarrow> Address \<Rightarrow> bool" where
  "parses P a \<longleftrightarrow> (\<exists>s. place_by_addr P a = Inr s)"

definition clpa_fine_report :: "params \<Rightarrow> BlockInfoMsg \<Rightarrow> bool" where
  "clpa_fine_report P b \<longleftrightarrow> (\<forall>tx \<in> set (bi_InnerShardTxs b) \<union> set (bi_Relay2Txs b). parses P (tx_Sender tx) \<and> parses P (tx_Recipient tx))"

lemma clpa_txSending_ok:
  assumes "env_ok E" and "\<forall>tx \<in> set txs. parses (ce_params E) (tx_Sender tx)"
  shows "\<exists>os. clpa_txSending E txs c = Inr (appended os c) \<and> injections os"
proof -
  have "\<forall>tx \<in> set txs. \<exists>s. clpa_fetchModifiedMap (ce_params E) (ccm_clpa c) (tx_Sender tx) = Inr s"
    using assms(2) by (auto simp: parses_def clpa_fetchModifiedMap_def split: option.split)
  then show ?thesis
    using send_loop_spec [of "ce_params E" txs "\<lambda>tx. clpa_fetchModifiedMap (ce_params E) (ccm_clpa c) (tx_Sender tx)" c] assms(1)
    unfolding clpa_txSending_def env_ok_def by blast
qed

interpretation ccm: partitioned_committee "clpa_hooks_relay E" E "clpa_HandleBlockInfo E" "\<lambda>c. env_ok E"
  "\<lambda>tx. parses (ce_params E) (tx_Sender tx)" "clpa_fine_report (ce_params E)" for E :: "'f clpa_env"
proof
  fix c :: "'f CLPACommitteeModule" and txs :: "Transaction list"
  assume "env_ok E" "\<forall>tx \<in> set txs. parses (ce_params E) (tx_Sender tx)"
  then obtain os where "clpa_txSending E txs c = Inr (appended os c)" "injections os" using clpa_txSending_ok by blast
  then show "\<exists>c'. ho_batch (clpa_hooks_relay E) txs c = Inr c' \<and> env_ok E \<and>
      ho_clpa (clpa_hooks_relay E) c' = ho_clpa (clpa_hooks_relay E) c \<and> co_IpNodeTable c' = co_IpNodeTable c \<and>
      (\<forall>ip. maps_sent ip c' = maps_sent ip c)"
    using \<open>env_ok E\<close> by (simp add: clpa_hooks_relay_def) (simp add: appended_def)
next
  fix c :: "'f CLPACommitteeModule" and b :: BlockInfoMsg
  assume p: "part_ok (ce_params E) (ho_clpa (clpa_hooks_relay E) c)" and e: "env_ok E" and b: "clpa_fine_report (ce_params E) b"
  let ?cl = "swap_epoch b (ccm_clpa c)"
  let ?ps = "map parties (bi_InnerShardTxs b) @ map parties (bi_Relay2Txs b)"
  have "\<forall>(x, y) \<in> set ?ps. (\<exists>s. place_by_addr (ce_params E) x = Inr s) \<and> (\<exists>s. place_by_addr (ce_params E) y = Inr s)"
    using b by (auto simp: clpa_fine_report_def parses_def parties_def)
  moreover have "part_ok (ce_params E) ?cl" using p by (simp add: clpa_hooks_relay_def)
  ultimately obtain cl' where "add_edges (ce_params E) ?ps ?cl = Inr cl'" "part_ok (ce_params E) cl'"
    "cl_modifiedMap cl' = cl_modifiedMap ?cl" "cl_curEpoch cl' = cl_curEpoch ?cl" using add_edges_ok by blast
  then show "\<exists>c'. clpa_HandleBlockInfo E b c = Inr c' \<and> env_ok E \<and> part_ok (ce_params E) (ho_clpa (clpa_hooks_relay E) c') \<and>
      cl_modifiedMap (ho_clpa (clpa_hooks_relay E) c') = cl_modifiedMap (ho_clpa (clpa_hooks_relay E) c) \<and>
      cl_curEpoch (ho_clpa (clpa_hooks_relay E) c') = cl_curEpoch (swap_epoch b (ho_clpa (clpa_hooks_relay E) c)) \<and>
      co_IpNodeTable c' = co_IpNodeTable c \<and> (\<forall>ip. maps_sent ip c' = maps_sent ip c)"
    using e p by (simp add: clpa_HandleBlockInfo_def Let_def clpa_hooks_relay_def maps_sent_def)
qed (simp_all add: clpa_hooks_relay_def)

end
