(* ===== verification/Clpa_Broker_Runs.thy ===== *)
theory Clpa_Broker_Runs
  imports Clpa_Runs "HOL-Library.List_Lexorder" "HOL-Library.Char_ord"
begin

text \<open>
  The committee with brokers and account partition meets the contract \<open>partitioned_committee\<close>: none
  of its broker operations panics when all addresses parse, and none touches the partition.
\<close>

section \<open>What the broker operations keep\<close>

definition tx_parses :: "params \<Rightarrow> Transaction \<Rightarrow> bool" where
  "tx_parses P tx \<longleftrightarrow> parses P (tx_Sender tx) \<and> parses P (tx_Recipient tx)"

definition brokers_ok :: "params \<Rightarrow> 'f CLPACommitteeMod_Broker \<Rightarrow> bool" where
  "brokers_ok P c \<longleftrightarrow> bk_BrokerAddress (bc_broker c) \<noteq> [] \<and> (\<forall>a \<in> set (bk_BrokerAddress (bc_broker c)). parses P a) \<and>
     (\<forall>h m. bc_brokerConfirm1Pool c h = Some m \<longrightarrow> tx_parses P (rm_Tx (c1_RawMeg m)))"

definition kept :: "params \<Rightarrow> 'f CLPACommitteeMod_Broker \<Rightarrow> 'f CLPACommitteeMod_Broker \<Rightarrow> bool" where
  "kept P c0 c \<longleftrightarrow> brokers_ok P c \<and> ccb_clpa c = ccb_clpa c0 \<and> co_IpNodeTable c = co_IpNodeTable c0 \<and>
     (\<forall>ip. maps_sent ip c = maps_sent ip c0)"

abbreviation cops where "cops P \<equiv> clpa_broker_mod_ops P"

lemma ops_simps [simp]:
  "bo_fetchModifiedMap (cops P) c a = clpa_fetchModifiedMap P (ccb_clpa c) a" "bo_raw (cops P) n c = c"
  "bo_tx1 (cops P) c = c" "bo_tx2 (cops P) c = c"
  by (simp_all add: clpa_broker_mod_ops_def)

lemma fetch_parses: "parses P a \<Longrightarrow> \<exists>s. clpa_fetchModifiedMap P cl a = Inr s"
  by (auto simp: parses_def clpa_fetchModifiedMap_def split: option.split)

lemma fetch_tx:
  "tx_parses P tx \<Longrightarrow> (\<exists>s. clpa_fetchModifiedMap P cl (tx_Sender tx) = Inr s) \<and> (\<exists>r. clpa_fetchModifiedMap P cl (tx_Recipient tx) = Inr r)"
  by (simp add: tx_parses_def fetch_parses)

lemma kept_first: "kept P c0 c \<Longrightarrow> \<exists>a. first_broker (bc_broker c) = Inr a \<and> parses P a"
  by (auto simp: kept_def brokers_ok_def first_broker_def neq_Nil_conv)

lemma kept_append: "kept P c0 c \<Longrightarrow> injections os \<Longrightarrow> kept P c0 (appended os c)"
  by (auto simp: kept_def brokers_ok_def) (simp_all add: appended_def)

lemma sending_ok:
  assumes "kept P c0 c" and "\<forall>tx \<in> set txs. tx_parses P tx" and "InjectSpeed P \<noteq> 0" and "be_params B = P"
  shows "\<exists>c'. broker_txSending (cops P) B txs c = Inr c' \<and> kept P c0 c'"
proof -
  have "\<exists>s. broker_place (cops P) c tx = Inr s" if tx: "tx \<in> set txs" for tx
  proof -
    obtain s r where "clpa_fetchModifiedMap P (ccb_clpa c) (tx_Sender tx) = Inr s" "clpa_fetchModifiedMap P (ccb_clpa c) (tx_Recipient tx) = Inr r"
      using fetch_tx [of P tx "ccb_clpa c"] assms(2) tx by blast
    then show ?thesis by (simp add: broker_place_def)
  qed
  then obtain os where "broker_txSending (cops P) B txs c = Inr (appended os c)" "injections os"
    using broker_txSending_spec [of B txs "cops P" c] assms(3,4) by blast
  then show ?thesis using kept_append [OF assms(1)] by blast
qed

lemma kept_pools:
  assumes "kept P c0 c"
  shows "tx_parses P (rm_Tx (c1_RawMeg m)) \<Longrightarrow> kept P c0 (c\<lparr>bc_brokerConfirm1Pool := (bc_brokerConfirm1Pool c)(h \<mapsto> m)\<rparr>)"
    and "kept P c0 (c\<lparr>bc_brokerConfirm2Pool := q\<rparr>)"
    and "bk_BrokerAddress b = bk_BrokerAddress (bc_broker c) \<Longrightarrow> kept P c0 (c\<lparr>bc_broker := b\<rparr>)"
    and "kept P c0 (record_broker_tx raw hh c)"
  using assms by (auto simp: kept_def brokers_ok_def maps_sent_def record_broker_tx_def)

section \<open>First halves\<close>

lemma type1_ok:
  assumes "kept P c0 c" and "\<forall>m \<in> set ms. tx_parses P (rm_Tx (t1_RawMeg m)) \<and> parses P (t1_Broker m)"
  shows "kept P c0 (snd (type1_loop B i ms c)) \<and> (\<forall>tx \<in> set (fst (type1_loop B i ms c)). tx_parses P tx)"
  using assms
proof (induction ms arbitrary: i c)
  case Nil
  then show ?case by simp
next
  case (Cons m ms)
  let ?tx = "make_tx1 B i m"
  let ?c = "c\<lparr>bc_brokerConfirm1Pool := (bc_brokerConfirm1Pool c)(tx_TxHash ?tx \<mapsto> \<lparr>c1_Tx1Hash = tx_TxHash ?tx, c1_RawMeg = t1_RawMeg m\<rparr>)\<rparr>"
  have "kept P c0 ?c" using Cons.prems by (intro kept_pools(1)) auto
  moreover have "tx_parses P ?tx" using Cons.prems(2) by (simp add: make_tx1_def tx_parses_def)
  ultimately show ?case using Cons.IH [of ?c "i + 1"] Cons.prems(2)
    by (simp add: Let_def case_prod_beta)
qed

lemma raw_ok:
  assumes "kept P c0 c" and "\<forall>m \<in> set megs. tx_parses P (rm_Tx m) \<and> parses P (rm_Broker m)"
    and "InjectSpeed P \<noteq> 0" and "be_params B = P"
  shows "\<exists>c'. handleBrokerRawMag (cops P) B megs c = Inr c' \<and> kept P c0 c'"
proof -
  let ?b = "(bc_broker c)\<lparr>bk_BrokerRawMegs := fold (\<lambda>m f. f(be_digest B m \<mapsto> m)) megs (bk_BrokerRawMegs (bc_broker c))\<rparr>"
  let ?ms = "map (\<lambda>m. \<lparr>t1_RawMeg = m, t1_Hcurrent = 0, t1_Broker = rm_Broker m\<rparr>) megs"
  have k: "kept P c0 (c\<lparr>bc_broker := ?b\<rparr>)" using assms(1) by (intro kept_pools(3)) auto
  obtain txs c1 where l: "type1_loop B 0 ?ms (c\<lparr>bc_broker := ?b\<rparr>) = (txs, c1)" by fastforce
  have "kept P c0 c1 \<and> (\<forall>tx \<in> set txs. tx_parses P tx)"
    using type1_ok [OF k, of ?ms B 0] assms(2) l by simp
  then show ?thesis using sending_ok [of P c0 c1 txs B] assms(3,4)
    by (simp add: handleBrokerRawMag_def handleBrokerType1Mes_def l del: fun_upd_apply)
qed

lemma deal_loop_ok:
  assumes "kept P c0 c" and "\<forall>tx \<in> set txs. tx_parses P tx"
  shows "\<exists>itxs raws. deal_loop (cops P) c txs = Inr (itxs, raws) \<and> (\<forall>tx \<in> set itxs. tx_parses P tx) \<and>
    (\<forall>m \<in> set raws. tx_parses P (rm_Tx m) \<and> parses P (rm_Broker m))"
  using assms(2)
proof (induction txs)
  case Nil
  then show ?case by simp
next
  case (Cons tx txs)
  obtain itxs raws where ih: "deal_loop (cops P) c txs = Inr (itxs, raws)" "\<forall>tx \<in> set itxs. tx_parses P tx"
    "\<forall>m \<in> set raws. tx_parses P (rm_Tx m) \<and> parses P (rm_Broker m)" using Cons by auto
  obtain a where a: "first_broker (bc_broker c) = Inr a" "parses P a" using kept_first [OF assms(1)] by blast
  have tx: "tx_parses P tx" using Cons.prems by simp
  obtain s r where sr: "clpa_fetchModifiedMap P (ccb_clpa c) (tx_Sender tx) = Inr s" "clpa_fetchModifiedMap P (ccb_clpa c) (tx_Recipient tx) = Inr r"
    using fetch_tx [OF tx, of "ccb_clpa c"] by blast
  have tx': "tx_parses P (tx\<lparr>tx_HasBroker := h, tx_SenderIsBroker := b\<rparr>)" for h b using tx by (simp add: tx_parses_def)
  show ?case using ih a tx tx' by (simp add: sr Let_def)
qed

lemma batch_ok:
  assumes "kept P c0 c" and "\<forall>tx \<in> set txs. tx_parses P tx" and "InjectSpeed P \<noteq> 0" and "be_params B = P"
  shows "\<exists>c'. clpa_broker_batch B txs c = Inr c' \<and> kept P c0 c'"
proof -
  obtain itxs raws where d: "deal_loop (cops P) c txs = Inr (itxs, raws)" "\<forall>tx \<in> set itxs. tx_parses P tx"
    "\<forall>m \<in> set raws. tx_parses P (rm_Tx m) \<and> parses P (rm_Broker m)" using deal_loop_ok [OF assms(1,2)] by blast
  obtain c1 where "dealTxByBroker (cops P) B txs c = Inr (itxs, c1)" "kept P c0 c1"
    using raw_ok [OF assms(1) d(3) assms(3,4)] assms(1) d(1) by (cases "raws = []") (auto simp: dealTxByBroker_def)
  then show ?thesis using sending_ok [OF _ d(2) assms(3,4)] assms(4) by (simp add: clpa_broker_batch_def)
qed

section \<open>Second halves\<close>

lemma type2_ok:
  assumes "kept P c0 c" and "\<forall>m \<in> set ms. tx_parses P (rm_Tx (t2_RawMeg m)) \<and> parses P (t2_Broker m)"
  shows "kept P c0 (snd (type2_loop B i ms c)) \<and> (\<forall>tx \<in> set (fst (type2_loop B i ms c)). tx_parses P tx)"
  using assms
proof (induction ms arbitrary: i c)
  case Nil
  then show ?case by simp
next
  case (Cons m ms)
  let ?tx = "make_tx2 B i m"
  let ?c = "c\<lparr>bc_brokerConfirm2Pool := (bc_brokerConfirm2Pool c)(tx_TxHash ?tx \<mapsto> \<lparr>c2_Tx2Hash = tx_TxHash ?tx, c2_RawMeg = t2_RawMeg m\<rparr>)\<rparr>"
  have "kept P c0 ?c" using Cons.prems by (intro kept_pools(2))
  moreover have "tx_parses P ?tx" using Cons.prems(2) by (simp add: make_tx2_def tx_parses_def)
  ultimately show ?case using Cons.IH [of ?c "i + 1"] Cons.prems(2)
    by (simp add: Let_def case_prod_beta)
qed

lemma confirm1_ok:
  assumes "kept P c0 c" and "\<forall>m \<in> set ms. tx_parses P (rm_Tx (c1_RawMeg m))"
  shows "\<exists>t2s c'. confirm1_loop (cops P) B ms c = Inr (t2s, c') \<and> kept P c0 c' \<and>
    (\<forall>m \<in> set t2s. tx_parses P (rm_Tx (t2_RawMeg m)) \<and> parses P (t2_Broker m))"
  using assms
proof (induction ms arbitrary: c)
  case Nil
  then show ?case by simp
next
  case (Cons m ms)
  let ?c = "record_broker_tx (tx_TxHash (rm_Tx (c1_RawMeg m))) (c1_Tx1Hash m) c"
  have k: "kept P c0 ?c" using Cons.prems(1) by (rule kept_pools(4))
  obtain a where a: "first_broker (bc_broker ?c) = Inr a" "parses P a" using kept_first [OF k] by blast
  obtain t2s c' where "confirm1_loop (cops P) B ms ?c = Inr (t2s, c')" "kept P c0 c'"
    "\<forall>m \<in> set t2s. tx_parses P (rm_Tx (t2_RawMeg m)) \<and> parses P (t2_Broker m)"
    using Cons.IH [OF k] Cons.prems(2) by auto
  then show ?case using a Cons.prems Cons.IH [OF Cons.prems(1)]
    by (cases "bk_BrokerRawMegs (bc_broker c) (be_digest B (c1_RawMeg m))") (simp_all add: Let_def)
qed

lemma confirm2_ok: "kept P c0 c \<Longrightarrow> kept P c0 (handleTx2ConfirmMag (cops P) ms c)"
  unfolding handleTx2ConfirmMag_def
  by (induction ms arbitrary: c) (simp_all add: confirm2_def Let_def kept_pools(4))

lemma createConfirm_ok:
  assumes k: "kept P c0 c" and P: "InjectSpeed P \<noteq> 0" "be_params B = P"
  shows "\<exists>c'. createConfirm (cops P) B txs c = Inr c' \<and> kept P c0 c'"
proof -
  let ?ms = "List.map_filter (\<lambda>tx. bc_brokerConfirm1Pool c (tx_TxHash tx)) txs"
  have "\<forall>m \<in> set ?ms. tx_parses P (rm_Tx (c1_RawMeg m))"
    using k by (auto simp: List.map_filter_def kept_def brokers_ok_def)
  then obtain t2s c1 where l: "confirm1_loop (cops P) B ?ms c = Inr (t2s, c1)" "kept P c0 c1"
    "\<forall>m \<in> set t2s. tx_parses P (rm_Tx (t2_RawMeg m)) \<and> parses P (t2_Broker m)" using confirm1_ok [OF k] by blast
  obtain txs2 c2 where t: "type2_loop B 0 t2s c1 = (txs2, c2)" by fastforce
  have "kept P c0 c2 \<and> (\<forall>tx \<in> set txs2. tx_parses P tx)" using type2_ok [OF l(2,3), of B 0] t by simp
  then obtain c3 where "handleTx1ConfirmMag (cops P) B ?ms c = Inr c3" "kept P c0 c3"
    using sending_ok [of P c0 c2 txs2 B] P l(1) t by (auto simp: handleTx1ConfirmMag_def handleBrokerType2Mes_def)
  then show ?thesis using k confirm2_ok by (auto simp: createConfirm_def Let_def)
qed

section \<open>The contract\<close>

definition clpa_broker_fine_report :: "params \<Rightarrow> BlockInfoMsg \<Rightarrow> bool" where
  "clpa_broker_fine_report P b \<longleftrightarrow> (\<forall>tx \<in> set (bi_InnerShardTxs b). tx_parses P tx) \<and>
     (\<forall>tx \<in> set (bi_Broker1Txs b). parses P (tx_OriginalSender tx) \<and> parses P (tx_FinalRecipient tx))"

definition broker_good :: "'f clpa_env \<Rightarrow> broker_env \<Rightarrow> 'f CLPACommitteeMod_Broker \<Rightarrow> bool" where
  "broker_good E B c \<longleftrightarrow> env_ok E \<and> be_params B = ce_params E \<and> brokers_ok (ce_params E) c"

lemma kept_refl: "brokers_ok P c \<Longrightarrow> kept P c c"
  by (simp add: kept_def)

interpretation ccb: partitioned_committee "clpa_hooks_broker B" E "clpa_broker_HandleBlockInfo B" "broker_good E B"
  "tx_parses (ce_params E)" "clpa_broker_fine_report (ce_params E)" for E :: "'f clpa_env" and B
proof
  fix c :: "'f CLPACommitteeMod_Broker" and txs
  assume g: "broker_good E B c" and txs: "\<forall>tx \<in> set txs. tx_parses (ce_params E) tx"
  obtain c' where "clpa_broker_batch B txs c = Inr c'" "kept (ce_params E) c c'"
    using batch_ok [OF kept_refl txs] g by (auto simp: broker_good_def env_ok_def)
  then show "\<exists>c'. ho_batch (clpa_hooks_broker B) txs c = Inr c' \<and> broker_good E B c' \<and>
      ho_clpa (clpa_hooks_broker B) c' = ho_clpa (clpa_hooks_broker B) c \<and> co_IpNodeTable c' = co_IpNodeTable c \<and>
      (\<forall>ip. maps_sent ip c' = maps_sent ip c)"
    using g by (simp add: clpa_hooks_broker_def kept_def broker_good_def)
next
  fix c :: "'f CLPACommitteeMod_Broker" and b
  assume p: "part_ok (ce_params E) (ho_clpa (clpa_hooks_broker B) c)" and g: "broker_good E B c"
    and b: "clpa_broker_fine_report (ce_params E) b"
  let ?c1 = "c\<lparr>ccb_clpa := swap_epoch b (ccb_clpa c)\<rparr>"
  let ?ps = "map parties (filter (\<lambda>tx. \<not> tx_HasBroker tx) (bi_InnerShardTxs b)) @
    map (\<lambda>tx. (tx_OriginalSender tx, tx_FinalRecipient tx)) (bi_Broker1Txs b)"
  have g1: "brokers_ok (ce_params E) ?c1" "InjectSpeed (ce_params E) \<noteq> 0" "be_params B = ce_params E"
    using g by (simp_all add: broker_good_def env_ok_def brokers_ok_def)
  obtain c2 where c2: "createConfirm (cops (ce_params E)) B (bi_Broker1Txs b @ bi_Broker2Txs b) ?c1 = Inr c2" "kept (ce_params E) ?c1 c2"
    using createConfirm_ok [OF kept_refl [OF g1(1)] g1(2,3)] by blast
  have cl: "ccb_clpa c2 = swap_epoch b (ccb_clpa c)" using c2(2) by (simp add: kept_def)
  have "\<forall>(x, y) \<in> set ?ps. (\<exists>s. place_by_addr (ce_params E) x = Inr s) \<and> (\<exists>s. place_by_addr (ce_params E) y = Inr s)"
    using b by (auto simp: clpa_broker_fine_report_def tx_parses_def parses_def parties_def)
  moreover have "part_ok (ce_params E) (ccb_clpa c2)" using p cl by (simp add: clpa_hooks_broker_def)
  ultimately obtain cl' where "add_edges (ce_params E) ?ps (ccb_clpa c2) = Inr cl'" "part_ok (ce_params E) cl'"
    "cl_modifiedMap cl' = cl_modifiedMap (ccb_clpa c2)" "cl_curEpoch cl' = cl_curEpoch (ccb_clpa c2)" using add_edges_ok by blast
  then show "\<exists>c'. clpa_broker_HandleBlockInfo B b c = Inr c' \<and> broker_good E B c' \<and>
      part_ok (ce_params E) (ho_clpa (clpa_hooks_broker B) c') \<and>
      cl_modifiedMap (ho_clpa (clpa_hooks_broker B) c') = cl_modifiedMap (ho_clpa (clpa_hooks_broker B) c) \<and>
      cl_curEpoch (ho_clpa (clpa_hooks_broker B) c') = cl_curEpoch (swap_epoch b (ho_clpa (clpa_hooks_broker B) c)) \<and>
      co_IpNodeTable c' = co_IpNodeTable c \<and> (\<forall>ip. maps_sent ip c' = maps_sent ip c)"
    using g g1 p c2 cl
    by (cases "bi_BlockBodyLength b = 0")
       (simp_all add: clpa_broker_HandleBlockInfo_def Let_def clpa_hooks_broker_def kept_def broker_good_def brokers_ok_def maps_sent_def)
qed (simp_all add: clpa_hooks_broker_def broker_good_def brokers_ok_def)

section \<open>Properties\<close>

lemma new_part_ok:
  assumes "0 < ShardNum (ce_params E)" and "new_graph E = Inr cg"
  shows "part_ok (ce_params E) (new_ClpaPart cg freq)"
  using new_graph_ok [OF assms(1)] assms(2) by (auto simp: part_ok_def new_ClpaPart_def agrees_def)

lemma clpa_start:
  assumes "env_ok E" and "NewCLPACommitteeModule E tbl Ss dataNum batchNum freq = Inr c0"
    and "readable (ce_lib E) (\<lambda>tx. parses (ce_params E) (tx_Sender tx)) rows"
  shows "ccm.inv E tbl (Reading rows [] 0) c0"
proof -
  obtain cg where cg: "new_graph E = Inr cg" and c0: "ccm_clpa c0 = new_ClpaPart cg freq" "co_IpNodeTable c0 = tbl" "co_out c0 = []"
    using assms(2) by (auto simp: NewCLPACommitteeModule_def bindR_Inr_iff)
  have "part_ok (ce_params E) (ccm_clpa c0)"
    unfolding c0 by (rule new_part_ok [OF _ cg]) (use assms(1) in \<open>simp add: env_ok_def\<close>)
  then show ?thesis
    unfolding ccm.inv_def ccm.synced_def using assms(1,3) c0
    by (simp add: clpa_hooks_relay_def known_def maps_sent_def epochs_def pc_fine_def)
       (simp add: new_ClpaPart_def)
qed

lemma clpa_broker_start:
  assumes "env_ok E" and "be_params B = ce_params E" and "NewCLPACommitteeMod_Broker E addrs tbl Ss dataNum batchNum freq = Inr c0"
    and "readable (ce_lib E) (tx_parses (ce_params E)) rows"
    and "initBrokerAddr (BrokerNum (ce_params E)) addrs \<noteq> []" and "\<forall>a \<in> set addrs. parses (ce_params E) a"
  shows "ccb.inv B E tbl (Reading rows [] 0) c0"
proof -
  have sub: "set (initBrokerAddr n as) \<subseteq> set as" for n as
    by (induction n as rule: initBrokerAddr.induct) auto
  obtain cg where cg: "new_graph E = Inr cg" and c0: "ccb_clpa c0 = new_ClpaPart cg freq" "co_IpNodeTable c0 = tbl" "co_out c0 = []"
    "bc_broker c0 = NewBroker (ce_params E) addrs" "bc_brokerConfirm1Pool c0 = Map.empty"
    using assms(3) by (auto simp: NewCLPACommitteeMod_Broker_def bindR_Inr_iff)
  have "part_ok (ce_params E) (ccb_clpa c0)"
    unfolding c0 by (rule new_part_ok [OF _ cg]) (use assms(1) in \<open>simp add: env_ok_def\<close>)
  moreover have "brokers_ok (ce_params E) c0"
    using assms(5,6) sub by (auto simp: brokers_ok_def c0 NewBroker_def)
  ultimately show ?thesis
    unfolding ccb.inv_def ccb.synced_def using assms(1,2,4) c0
    by (simp add: clpa_hooks_broker_def known_def maps_sent_def epochs_def pc_fine_def broker_good_def)
       (simp add: new_ClpaPart_def)
qed

text \<open>
  (C8) The placement the shards know. In every state of a run of the committee, under any
  interleaving of the thread that sends and of reports with parsable addresses, and for any clock,
  visiting order and rounding: the partition maps sent to each leader, one overriding the other,
  give exactly the map by which the committee itself places the accounts; every shard in it exists;
  the graph for the next partition places its accounts as the committee does; the epoch is that of
  the last partition or, while the thread waits, the one before; and neither the next step of the
  thread nor a further report panics.
\<close>

theorem clpa_shards_know_the_placement:
  assumes "env_ok E" and "NewCLPACommitteeModule E tbl Ss dataNum batchNum freq = Inr c0"
    and "readable (ce_lib E) (\<lambda>tx. parses (ce_params E) (tx_Sender tx)) rows"
    and "clpa_reach (clpa_hooks_relay E) E (clpa_HandleBlockInfo E) (clpa_fine_report (ce_params E)) (Reading rows [] 0) c0 pc c"
  shows "(\<forall>sid \<in> set (params_shards (ce_params E)). known (ip_at tbl sid 0) c = cl_modifiedMap (ccm_clpa c)) \<and>
    (\<forall>a s. cl_modifiedMap (ccm_clpa c) a = Some s \<longrightarrow> uint s < ShardNum (ce_params E)) \<and>
    (\<forall>v \<in> set (gr_VertexSet (cs_NetGraph (cl_clpaGraph (ccm_clpa c)))).
       clpa_fetchModifiedMap (ce_params E) (ccm_clpa c) (vx_Addr v) = Inr (of_int (shard_of (cl_clpaGraph (ccm_clpa c)) v))) \<and>
    epochs pc (cl_curEpoch (ccm_clpa c)) \<and>
    (\<forall>now. \<exists>pc' c'. control_step (clpa_hooks_relay E) E now pc c = Inr (pc', c')) \<and>
    (\<forall>b. clpa_fine_report (ce_params E) b \<longrightarrow> (\<exists>c'. clpa_HandleBlockInfo E b c = Inr c'))"
proof -
  have i: "ccm.inv E tbl pc c" by (rule ccm.reach_inv [OF assms(4) clpa_start [OF assms(1-3)]])
  then have s: "ccm.synced E tbl c" "epochs pc (cl_curEpoch (ccm_clpa c))"
    by (simp_all add: ccm.inv_def) (simp add: clpa_hooks_relay_def)
  then have p: "part_ok (ce_params E) (ccm_clpa c)" by (simp add: ccm.synced_def) (simp add: clpa_hooks_relay_def)
  have "\<exists>c'. clpa_HandleBlockInfo E b c = Inr c'" if "clpa_fine_report (ce_params E) b" for b
    using ccm.reports [of E c b] p assms(1) that by (auto simp: clpa_hooks_relay_def)
  moreover have "\<exists>pc' c'. control_step (clpa_hooks_relay E) E now pc c = Inr (pc', c')" for now
    using ccm.step_ok [OF i] by blast
  moreover have "\<forall>sid \<in> set (params_shards (ce_params E)). known (ip_at tbl sid 0) c = cl_modifiedMap (ccm_clpa c)"
    using s(1) by (simp add: ccm.synced_def) (simp add: clpa_hooks_relay_def)
  ultimately show ?thesis using p s(2) part_ok_graph [OF p] by (simp add: part_ok_def)
qed

text \<open>
  (C35) The same holds for the committee with brokers, whose reports also make it create the second
  halves of transfers, when there is a broker and the addresses of the brokers parse.
\<close>

theorem clpa_broker_shards_know_the_placement:
  assumes "env_ok E" and "be_params B = ce_params E" and "NewCLPACommitteeMod_Broker E addrs tbl Ss dataNum batchNum freq = Inr c0"
    and "readable (ce_lib E) (tx_parses (ce_params E)) rows"
    and "initBrokerAddr (BrokerNum (ce_params E)) addrs \<noteq> []" and "\<forall>a \<in> set addrs. parses (ce_params E) a"
    and "clpa_reach (clpa_hooks_broker B) E (clpa_broker_HandleBlockInfo B) (clpa_broker_fine_report (ce_params E)) (Reading rows [] 0) c0 pc c"
  shows "(\<forall>sid \<in> set (params_shards (ce_params E)). known (ip_at tbl sid 0) c = cl_modifiedMap (ccb_clpa c)) \<and>
    (\<forall>v \<in> set (gr_VertexSet (cs_NetGraph (cl_clpaGraph (ccb_clpa c)))).
       clpa_fetchModifiedMap (ce_params E) (ccb_clpa c) (vx_Addr v) = Inr (of_int (shard_of (cl_clpaGraph (ccb_clpa c)) v))) \<and>
    epochs pc (cl_curEpoch (ccb_clpa c)) \<and>
    (\<forall>now. \<exists>pc' c'. control_step (clpa_hooks_broker B) E now pc c = Inr (pc', c')) \<and>
    (\<forall>b. clpa_broker_fine_report (ce_params E) b \<longrightarrow> (\<exists>c'. clpa_broker_HandleBlockInfo B b c = Inr c'))"
proof -
  have i: "ccb.inv B E tbl pc c" by (rule ccb.reach_inv [OF assms(7) clpa_broker_start [OF assms(1-6)]])
  then have s: "ccb.synced B E tbl c" "epochs pc (cl_curEpoch (ccb_clpa c))"
    by (simp_all add: ccb.inv_def) (simp add: clpa_hooks_broker_def)
  then have p: "part_ok (ce_params E) (ccb_clpa c)" and g: "broker_good E B c"
    by (simp_all add: ccb.synced_def) (simp add: clpa_hooks_broker_def)
  have "\<exists>c'. clpa_broker_HandleBlockInfo B b c = Inr c'" if "clpa_broker_fine_report (ce_params E) b" for b
    using ccb.reports [of E B c b] p g that by (auto simp: clpa_hooks_broker_def)
  moreover have "\<exists>pc' c'. control_step (clpa_hooks_broker B) E now pc c = Inr (pc', c')" for now
    using ccb.step_ok [OF i] by blast
  moreover have "\<forall>sid \<in> set (params_shards (ce_params E)). known (ip_at tbl sid 0) c = cl_modifiedMap (ccb_clpa c)"
    using s(1) by (simp add: ccb.synced_def) (simp add: clpa_hooks_broker_def)
  ultimately show ?thesis using s(2) part_ok_graph [OF p] by simp
qed


section \<open>An instance\<close>

definition demo_clpa_env :: "int clpa_env" where
  "demo_clpa_env = \<lparr>ce_lib = demo_lib, ce_params = demo_sup_P, ce_F = demo_F, ce_ord = (\<lambda>k i V. V),
     ce_entries = (\<lambda>m. map (\<lambda>k. (k, the (m k))) (sorted_list_of_set (dom m)))\<rparr>"

lemma demo_clpa_env_ok: "env_ok demo_clpa_env"
proof -
  have "map_of (map (\<lambda>k. (k, the (m k))) (sorted_list_of_set (dom m))) = m" if "finite (dom m)" for m :: "Address \<rightharpoonup> u64"
    using that by (auto simp: map_of_map_restrict restrict_map_def fun_eq_iff domIff)
  then show ?thesis
    by (simp add: env_ok_def range_laws_def demo_clpa_env_def demo_sup_P_def defaultParams_def)
qed

lemma demo_clpa_rows:
  "readable (ce_lib demo_clpa_env) (\<lambda>tx. parses (ce_params demo_clpa_env) (tx_Sender tx)) demo_rows"
  by (simp add: readable_def demo_rows_def demo_rows_read demo_clpa_env_def parses_def demo_places)

lemma demo_clpa_new: "\<exists>c0. NewCLPACommitteeModule demo_clpa_env (\<lambda>sid. [(0, ''ip'')]) (NewStopSignal 6) 2 1 5 = Inr c0"
  using new_graph_ok [of demo_clpa_env] demo_clpa_env_ok by (auto simp: NewCLPACommitteeModule_def env_ok_def)

text \<open>With a clock that moves on by ten seconds at each step and a partition due after five, the second step makes one.\<close>

definition demo_clock :: "nat \<Rightarrow> time" where
  "demo_clock i = 10000000000 * (int i + 1)"

lemma demo_first_partition:
  assumes "NewCLPACommitteeModule demo_clpa_env (\<lambda>sid. [(0, ''ip'')]) (NewStopSignal 6) 2 1 5 = Inr c0"
  shows "\<exists>rows c1 c2. served_step (clpa_hooks_relay demo_clpa_env) demo_clpa_env (clpa_HandleBlockInfo demo_clpa_env)
      (demo_clock 0) (Reading demo_rows [] 0, c0) = Inr (Recorded rows [] 0, c1) \<and>
    served_step (clpa_hooks_relay demo_clpa_env) demo_clpa_env (clpa_HandleBlockInfo demo_clpa_env)
      (demo_clock 1) (Recorded rows [] 0, c1) = Inr (AwaitEpoch rows [] 1, c2)"
proof -
  let ?H = "clpa_hooks_relay demo_clpa_env" and ?tx = "NewTransaction demo_lib ''0000000000000002'' ''0000000000000005'' 17 0 1"
  have i0: "ccm.inv demo_clpa_env (\<lambda>sid. [(0, ''ip'')]) (Reading demo_rows [] 0) c0"
    by (rule clpa_start [OF demo_clpa_env_ok assms demo_clpa_rows])
  have c0: "co_nowDataNum c0 = 0" "co_batchDataNum c0 = 1" "cl_clpaLastRunningTime (ccm_clpa c0) = 0" "cl_clpaFreq (ccm_clpa c0) = 5"
    using assms by (auto simp: NewCLPACommitteeModule_def new_ClpaPart_def bindR_Inr_iff)
  obtain d rows where rows: "demo_rows = (Some d, 1) # rows" "data2tx demo_lib 1 d 0 = Inr (Some ?tx)"
    by (simp add: demo_rows_def demo_rows_read)
  let ?c = "c0\<lparr>co_nowDataNum := 1, ccm_clpa := set_last (demo_clock 0) (ccm_clpa c0)\<rparr>"
  have "\<forall>tx \<in> set [?tx]. parses (ce_params demo_clpa_env) (tx_Sender tx)"
    by (simp add: NewTransaction_def Let_def parses_def demo_clpa_env_def demo_places)
  then obtain os where os: "clpa_txSending demo_clpa_env [?tx] ?c = Inr (appended os ?c)"
    using clpa_txSending_ok [OF demo_clpa_env_ok] by blast
  let ?c1 = "reset_gap (appended os ?c)"
  have "ho_upd ?H (\<lambda>cl. if IsZero (cl_clpaLastRunningTime cl) then set_last (demo_clock 0) cl else cl) (c0\<lparr>co_nowDataNum := 1\<rparr>) = ?c"
    using c0 by (simp add: clpa_hooks_relay_def IsZero_def)
  then have 1: "control_step ?H demo_clpa_env (demo_clock 0) (Reading demo_rows [] 0) c0 = Inr (Recorded rows [] 0, ?c1)"
    using c0(1,2) os by (simp add: rows demo_clpa_env_def send_batch_def Let_def)
      (simp add: clpa_hooks_relay_def)
  then have i1: "ccm.inv demo_clpa_env (\<lambda>sid. [(0, ''ip'')]) (Recorded rows [] 0) ?c1"
    using ccm.step_ok [OF i0, of "demo_clock 0"] by simp
  have "\<not> IsZero (cl_clpaLastRunningTime (ho_clpa ?H ?c1)) \<and> clpa_due (ce_params demo_clpa_env) (demo_clock 1) (ho_clpa ?H ?c1)"
    using c0(4) by (simp add: clpa_hooks_relay_def reset_gap_def appended_def set_last_def clpa_due_def IsZero_def demo_clock_def
        demo_clpa_env_def demo_sup_P_def defaultParams_def time_Sub_def)
  then have "\<exists>c2. control_step ?H demo_clpa_env (demo_clock 1) (Recorded rows [] 0) ?c1 = Inr (AwaitEpoch rows [] 1, c2)"
    using ccm.step_ok [OF i1, of "demo_clock 1"] by (auto simp: bindR_Inr_iff)
  then show ?thesis using 1 by (auto simp: served_step_def)
qed

theorem clpa_shards_know_the_placement_witness:
  "\<exists>c0 rows c1 c2. NewCLPACommitteeModule demo_clpa_env (\<lambda>sid. [(0, ''ip'')]) (NewStopSignal 6) 2 1 5 = Inr c0 \<and>
     control_step (clpa_hooks_relay demo_clpa_env) demo_clpa_env (demo_clock 0) (Reading demo_rows [] 0) c0 = Inr (Recorded rows [] 0, c1) \<and>
     control_step (clpa_hooks_relay demo_clpa_env) demo_clpa_env (demo_clock 1) (Recorded rows [] 0) c1 = Inr (AwaitEpoch rows [] 1, c2) \<and>
     (\<forall>sid \<in> set (params_shards demo_sup_P). known ''ip'' c2 = cl_modifiedMap (ccm_clpa c2)) \<and>
     epochs (AwaitEpoch rows [] 1) (cl_curEpoch (ccm_clpa c2))"
proof -
  obtain c0 where c0: "NewCLPACommitteeModule demo_clpa_env (\<lambda>sid. [(0, ''ip'')]) (NewStopSignal 6) 2 1 5 = Inr c0"
    using demo_clpa_new by blast
  obtain rows c1 c2 where st:
    "control_step (clpa_hooks_relay demo_clpa_env) demo_clpa_env (demo_clock 0) (Reading demo_rows [] 0) c0 = Inr (Recorded rows [] 0, c1)"
    "control_step (clpa_hooks_relay demo_clpa_env) demo_clpa_env (demo_clock 1) (Recorded rows [] 0) c1 = Inr (AwaitEpoch rows [] 1, c2)"
    using demo_first_partition [OF c0] unfolding served_step_def by auto
  note reached = clpa_reach.control [OF clpa_reach.control [OF clpa_reach.start st(1)] st(2)]
  have "(\<forall>sid \<in> set (params_shards demo_sup_P). known ''ip'' c2 = cl_modifiedMap (ccm_clpa c2)) \<and>
      epochs (AwaitEpoch rows [] 1) (cl_curEpoch (ccm_clpa c2))"
    using clpa_shards_know_the_placement [OF demo_clpa_env_ok c0 demo_clpa_rows reached]
    by (simp add: ip_at_def) (simp add: demo_clpa_env_def)
  with c0 st show ?thesis by blast
qed


definition demo_clpa_broker_env :: broker_env where
  "demo_clpa_broker_env = \<lparr>be_lib = demo_lib, be_params = demo_sup_P, be_digest = (\<lambda>m. tx_TxHash (rm_Tx m)), be_now = (\<lambda>i. 0)\<rparr>"

theorem clpa_broker_shards_know_the_placement_witness:
  "\<exists>c0 pc c. NewCLPACommitteeMod_Broker demo_clpa_env [''0000000000000003''] (\<lambda>sid. [(0, ''ip'')]) (NewStopSignal 6) 2 1 5 = Inr c0 \<and>
     control_step (clpa_hooks_broker demo_clpa_broker_env) demo_clpa_env 1 (Reading demo_rows [] 0) c0 = Inr (pc, c) \<and>
     (\<forall>sid \<in> set (params_shards demo_sup_P). known ''ip'' c = cl_modifiedMap (ccb_clpa c))"
proof -
  let ?R = "clpa_reach (clpa_hooks_broker demo_clpa_broker_env) demo_clpa_env (clpa_broker_HandleBlockInfo demo_clpa_broker_env)
    (clpa_broker_fine_report (ce_params demo_clpa_env)) (Reading demo_rows [] 0)"
  have new: "\<exists>c0. NewCLPACommitteeMod_Broker demo_clpa_env [''0000000000000003''] (\<lambda>sid. [(0, ''ip'')]) (NewStopSignal 6) 2 1 5 = Inr c0"
    using new_graph_ok [of demo_clpa_env] demo_clpa_env_ok by (auto simp: NewCLPACommitteeMod_Broker_def env_ok_def)
  then obtain c0 where c0: "NewCLPACommitteeMod_Broker demo_clpa_env [''0000000000000003''] (\<lambda>sid. [(0, ''ip'')]) (NewStopSignal 6) 2 1 5 = Inr c0" ..
  have "place_by_addr demo_sup_P ''0000000000000005'' = Inr 1"
    by (simp add: place_by_addr_def demo_sup_P_def Addr2Shard_eq last8_def hexval_def)
  then have rd: "readable (ce_lib demo_clpa_env) (tx_parses (ce_params demo_clpa_env)) demo_rows"
    by (simp add: readable_def demo_rows_def demo_rows_read demo_clpa_env_def tx_parses_def parses_def demo_places)
  have B: "be_params demo_clpa_broker_env = ce_params demo_clpa_env" "\<forall>a \<in> set [''0000000000000003'']. parses (ce_params demo_clpa_env) a"
    "initBrokerAddr (BrokerNum (ce_params demo_clpa_env)) [''0000000000000003''] \<noteq> []"
    by (simp_all add: demo_clpa_broker_env_def demo_clpa_env_def parses_def demo_places)
  note holds = clpa_broker_shards_know_the_placement [OF demo_clpa_env_ok B(1) c0 rd B(3,2)]
  have r: "?R c0 (Reading demo_rows [] 0) c0" by (rule clpa_reach.start)
  obtain pc c where st: "control_step (clpa_hooks_broker demo_clpa_broker_env) demo_clpa_env 1 (Reading demo_rows [] 0) c0 = Inr (pc, c)"
    using holds [OF r] by blast
  have "?R c0 pc c" by (rule clpa_reach.control [OF r st])
  from holds [OF this] have "\<forall>sid \<in> set (params_shards demo_sup_P). known ''ip'' c = cl_modifiedMap (ccb_clpa c)"
    by (simp add: ip_at_def) (simp add: demo_clpa_env_def)
  with c0 st show ?thesis by blast
qed

end
