(* ===== verification/Measure.thy ===== *)
theory Measure
  imports Message Numbers
begin

text \<open>
  The statistics of the supervisor (\<open>supervisor/measure\<close>). Each module is fed the reports of
  committed blocks and keeps one entry per epoch. The modules for the relay and for the broker
  protocol differ in the lists of cross-shard transactions they read and in the order of the
  floating-point additions; the operations here take the two lists and the addition as arguments.

  Sums of milliseconds are unbounded integers; a CSV file is its list of rows.
\<close>

section \<open>Writing a table (measureTool.go)\<close>

definition WriteMetricsToCSV :: "string list \<Rightarrow> string list list \<Rightarrow> string list list \<Rightarrow> string list list" where
  "WriteMetricsToCSV colName colVals csvFile = (if csvFile = [] then [colName] else csvFile) @ colVals"

section \<open>Entries per epoch\<close>

record 'f epoch_table =
  et_epochID :: int
  et_txNum :: "'f list"
  et_normalTxNum :: "int list"
  et_cross1TxNum :: "int list"
  et_cross2TxNum :: "int list"

definition extend_to :: "int \<Rightarrow> int \<Rightarrow> 'a \<Rightarrow> 'a list \<Rightarrow> 'a list" where
  "extend_to epochid epochID z xs = xs @ replicate (nat (epochid - epochID)) z"

type_synonym 'f addition = "'f float_ops \<Rightarrow> int \<Rightarrow> int \<Rightarrow> int \<Rightarrow> 'f \<Rightarrow> 'f"
type_synonym txs_of = "BlockInfoMsg \<Rightarrow> Transaction list"

text \<open>The additions of \<open>n\<close> inner and \<open>a\<close>, \<open>b\<close> cross-shard transactions, a pair counting as one.\<close>

definition half :: "'f float_ops \<Rightarrow> int \<Rightarrow> 'f" where
  "half F k = fl_div F (fl_int F k) (fl_int F 2)"

definition inc_sum :: "'f addition" where
  "inc_sum F n a b x = fl_add F x (fl_add F (fl_int F n) (half F (a + b)))"

definition inc_two :: "'f addition" where
  "inc_two F n a b x = fl_add F (fl_add F x (half F (a + b))) (fl_int F n)"

definition inc_cross_first :: "'f addition" where
  "inc_cross_first F n a b x = fl_add F x (fl_add F (half F (a + b)) (fl_int F n))"

definition inc_split :: "'f addition" where
  "inc_split F n a b x =
     fl_add F x (fl_add F (fl_int F n) (fl_div F (fl_add F (fl_int F a) (fl_int F b)) (fl_int F 2)))"

definition count_block ::
  "'f float_ops \<Rightarrow> 'f addition \<Rightarrow> txs_of \<Rightarrow> txs_of \<Rightarrow> BlockInfoMsg \<Rightarrow> ('f, 'z) epoch_table_scheme \<Rightarrow>
     ('f, 'z) epoch_table_scheme res" where
  "count_block F inc x1 x2 b t =
     (let e = bi_Epoch b; old = et_epochID t;
          n = int (length (bi_InnerShardTxs b)); k1 = int (length (x1 b)); k2 = int (length (x2 b))
      in bindR (add_at e n (extend_to e old 0 (et_normalTxNum t))) (\<lambda>ns.
         bindR (add_at e k1 (extend_to e old 0 (et_cross1TxNum t))) (\<lambda>c1.
         bindR (add_at e k2 (extend_to e old 0 (et_cross2TxNum t))) (\<lambda>c2.
         bindR (get_at e (extend_to e old (fl_int F 0) (et_txNum t))) (\<lambda>x.
         bindR (set_at e (inc F n k1 k2 x) (extend_to e old (fl_int F 0) (et_txNum t))) (\<lambda>xs.
           Inr (t\<lparr>et_epochID := max old e, et_txNum := xs, et_normalTxNum := ns,
                  et_cross1TxNum := c1, et_cross2TxNum := c2\<rparr>)))))))"

section \<open>Number of transactions\<close>

definition NewTestTxNumCount :: "'f epoch_table" where
  "NewTestTxNumCount = \<lparr>et_epochID = -1, et_txNum = [], et_normalTxNum = [], et_cross1TxNum = [], et_cross2TxNum = []\<rparr>"

definition TxNumCount_Update ::
  "'f float_ops \<Rightarrow> 'f addition \<Rightarrow> txs_of \<Rightarrow> txs_of \<Rightarrow> BlockInfoMsg \<Rightarrow> 'f epoch_table \<Rightarrow> 'f epoch_table res" where
  "TxNumCount_Update F inc x1 x2 b t =
     (if bi_BlockBodyLength b = 0 then Inr t else count_block F inc x1 x2 b t)"

definition TxNumCount_Relay_Update :: "'f float_ops \<Rightarrow> BlockInfoMsg \<Rightarrow> 'f epoch_table \<Rightarrow> 'f epoch_table res" where
  "TxNumCount_Relay_Update F = TxNumCount_Update F inc_sum bi_Relay1Txs bi_Relay2Txs"

definition TxNumCount_Broker_Update :: "'f float_ops \<Rightarrow> BlockInfoMsg \<Rightarrow> 'f epoch_table \<Rightarrow> 'f epoch_table res" where
  "TxNumCount_Broker_Update F = TxNumCount_Update F inc_split bi_Broker1Txs bi_Broker2Txs"

definition TxNumCount_OutputRecord :: "'f float_ops \<Rightarrow> 'f epoch_table \<Rightarrow> 'f list \<times> 'f" where
  "TxNumCount_OutputRecord F t = (et_txNum t, foldl (fl_add F) (fl_int F 0) (et_txNum t))"

definition TxNumCount_rows :: "'f float_ops \<Rightarrow> 'f epoch_table \<Rightarrow> string list list" where
  "TxNumCount_rows F t =
     map (\<lambda>eid. [Itoa (int eid), fl_format F (et_txNum t ! eid), Itoa (et_normalTxNum t ! eid),
                 Itoa (et_cross1TxNum t ! eid), Itoa (et_cross2TxNum t ! eid)]) [0..<length (et_txNum t)]"

section \<open>Ratio of cross-shard transactions\<close>

record 'f CrossTxRate = "'f epoch_table" +
  cr_totCrossTxNum :: "'f list"

definition NewTestCrossTxRate :: "'f CrossTxRate" where
  "NewTestCrossTxRate = \<lparr>et_epochID = -1, et_txNum = [], et_normalTxNum = [], et_cross1TxNum = [],
     et_cross2TxNum = [], cr_totCrossTxNum = []\<rparr>"

definition CrossTxRate_Update ::
  "'f float_ops \<Rightarrow> 'f addition \<Rightarrow> txs_of \<Rightarrow> txs_of \<Rightarrow> BlockInfoMsg \<Rightarrow> 'f CrossTxRate \<Rightarrow> 'f CrossTxRate res" where
  "CrossTxRate_Update F inc x1 x2 b t =
     (if bi_BlockBodyLength b = 0 then Inr t
      else let e = bi_Epoch b; cross = extend_to e (et_epochID t) (fl_int F 0) (cr_totCrossTxNum t) in
        bindR (get_at e cross) (\<lambda>x.
        bindR (set_at e (fl_add F x (half F (int (length (x1 b)) + int (length (x2 b))))) cross) (\<lambda>cross'.
        bindR (count_block F inc x1 x2 b t) (\<lambda>t1. Inr (t1\<lparr>cr_totCrossTxNum := cross'\<rparr>)))))"

definition CrossTxRate_Relay_Update :: "'f float_ops \<Rightarrow> BlockInfoMsg \<Rightarrow> 'f CrossTxRate \<Rightarrow> 'f CrossTxRate res" where
  "CrossTxRate_Relay_Update F = CrossTxRate_Update F inc_cross_first bi_Relay1Txs bi_Relay2Txs"

definition CrossTxRate_Broker_Update :: "'f float_ops \<Rightarrow> BlockInfoMsg \<Rightarrow> 'f CrossTxRate \<Rightarrow> 'f CrossTxRate res" where
  "CrossTxRate_Broker_Update F = CrossTxRate_Update F inc_sum bi_Broker1Txs bi_Broker2Txs"

definition CrossTxRate_OutputRecord :: "'f float_ops \<Rightarrow> 'f CrossTxRate \<Rightarrow> 'f list \<times> 'f" where
  "CrossTxRate_OutputRecord F t =
     (let tot = foldl (fl_add F) (fl_int F 0) (et_txNum t); ctx = foldl (fl_add F) (fl_int F 0) (cr_totCrossTxNum t)
      in (map2 (fl_div F) (cr_totCrossTxNum t) (et_txNum t) @ [tot, ctx], fl_div F ctx tot))"

definition CrossTxRate_rows :: "'f float_ops \<Rightarrow> 'f CrossTxRate \<Rightarrow> string list list" where
  "CrossTxRate_rows F t =
     map (\<lambda>eid. [Itoa (int eid), fl_format F (et_txNum t ! eid), fl_format F (cr_totCrossTxNum t ! eid),
                 Itoa (et_normalTxNum t ! eid), Itoa (et_cross1TxNum t ! eid), Itoa (et_cross2TxNum t ! eid),
                 fl_format F (fl_div F (cr_totCrossTxNum t ! eid) (et_txNum t ! eid))]) [0..<length (et_txNum t)]"

section \<open>Transactions per second\<close>

record 'f avgTPS = "'f epoch_table" +
  tp_startTime :: "time list"
  tp_endTime :: "time list"

definition NewTestModule_avgTPS :: "'f avgTPS" where
  "NewTestModule_avgTPS = \<lparr>et_epochID = -1, et_txNum = [], et_normalTxNum = [], et_cross1TxNum = [],
     et_cross2TxNum = [], tp_startTime = [], tp_endTime = []\<rparr>"

definition avgTPS_Update ::
  "'f float_ops \<Rightarrow> 'f addition \<Rightarrow> txs_of \<Rightarrow> txs_of \<Rightarrow> BlockInfoMsg \<Rightarrow> 'f avgTPS \<Rightarrow> 'f avgTPS res" where
  "avgTPS_Update F inc x1 x2 b t =
     (if bi_BlockBodyLength b = 0 then Inr t
      else let e = bi_Epoch b; earliest = bi_ProposeTime b; latest = bi_CommitTime b;
               starts = extend_to e (et_epochID t) 0 (tp_startTime t); ends = extend_to e (et_epochID t) 0 (tp_endTime t) in
        bindR (count_block F inc x1 x2 b t) (\<lambda>t1.
        bindR (get_at e starts) (\<lambda>s.
        bindR (set_at e (if IsZero s \<or> s > earliest then earliest else s) starts) (\<lambda>starts'.
        bindR (get_at e ends) (\<lambda>l.
        bindR (set_at e (if IsZero l \<or> latest > l then latest else l) ends) (\<lambda>ends'.
          Inr (t1\<lparr>tp_startTime := starts', tp_endTime := ends'\<rparr>)))))))"

definition avgTPS_Relay_Update :: "'f float_ops \<Rightarrow> BlockInfoMsg \<Rightarrow> 'f avgTPS \<Rightarrow> 'f avgTPS res" where
  "avgTPS_Relay_Update F = avgTPS_Update F inc_two bi_Relay1Txs bi_Relay2Txs"

definition avgTPS_Broker_Update :: "'f float_ops \<Rightarrow> BlockInfoMsg \<Rightarrow> 'f avgTPS \<Rightarrow> 'f avgTPS res" where
  "avgTPS_Broker_Update F = avgTPS_Update F inc_sum bi_Broker1Txs bi_Broker2Txs"

definition avgTPS_OutputRecord :: "'f float_ops \<Rightarrow> time \<Rightarrow> 'f avgTPS \<Rightarrow> 'f list \<times> 'f" where
  "avgTPS_OutputRecord F now t =
     (let rows = zip (et_txNum t) (zip (tp_startTime t) (tp_endTime t));
          perEpoch = map (\<lambda>(n, s, e). fl_div F n (Seconds F (time_Sub e s))) rows;
          tot = foldl (fl_add F) (fl_int F 0) (et_txNum t);
          eTime = foldl (\<lambda>t s. if t > s then s else t) now (tp_startTime t);
          lTime = foldl (\<lambda>t e. if e > t then e else t) 0 (tp_endTime t)
      in (perEpoch, fl_div F tot (Seconds F (time_Sub lTime eTime))))"

definition avgTPS_rows :: "'f float_ops \<Rightarrow> 'f avgTPS \<Rightarrow> string list list" where
  "avgTPS_rows F t =
     map (\<lambda>eid. [Itoa (int eid), fl_format F (et_txNum t ! eid), Itoa (et_normalTxNum t ! eid),
                 Itoa (et_cross1TxNum t ! eid), Itoa (et_cross2TxNum t ! eid),
                 Itoa (UnixMilli (tp_startTime t ! eid)), Itoa (UnixMilli (tp_endTime t ! eid)),
                 fl_format F (fl_div F (et_txNum t ! eid) (Seconds F (time_Sub (tp_endTime t ! eid) (tp_startTime t ! eid))))])
       [0..<length (et_txNum t)]"

section \<open>Latency of transactions\<close>

record 'f TCL = "'f epoch_table" +
  tl_totTxLatencyEpoch :: "'f list"
  tl_cross1CommitLatency :: "int list"
  tl_cross2CommitLatency :: "int list"
  tl_ctxCommitLatency :: "int list"
  tl_normalTxCommitLatency :: "int list"

record 'f TCL_Relay = "'f TCL" +
  tr_relay1CommitTS :: "bytes \<rightharpoonup> time"

definition NewTestModule_TCL_Relay :: "'f TCL_Relay" where
  "NewTestModule_TCL_Relay = \<lparr>et_epochID = -1, et_txNum = [], et_normalTxNum = [], et_cross1TxNum = [],
     et_cross2TxNum = [], tl_totTxLatencyEpoch = [], tl_cross1CommitLatency = [], tl_cross2CommitLatency = [],
     tl_ctxCommitLatency = [], tl_normalTxCommitLatency = [], tr_relay1CommitTS = Map.empty\<rparr>"

definition extend_TCL :: "'f float_ops \<Rightarrow> int \<Rightarrow> ('f, 'z) TCL_scheme \<Rightarrow> ('f, 'z) TCL_scheme" where
  "extend_TCL F e t =
     (let old = et_epochID t in
      t\<lparr>tl_totTxLatencyEpoch := extend_to e old (fl_int F 0) (tl_totTxLatencyEpoch t),
        tl_cross1CommitLatency := extend_to e old 0 (tl_cross1CommitLatency t),
        tl_cross2CommitLatency := extend_to e old 0 (tl_cross2CommitLatency t),
        tl_ctxCommitLatency := extend_to e old 0 (tl_ctxCommitLatency t),
        tl_normalTxCommitLatency := extend_to e old 0 (tl_normalTxCommitLatency t)\<rparr>)"

definition add_seconds :: "'f float_ops \<Rightarrow> int \<Rightarrow> duration \<Rightarrow> ('f, 'z) TCL_scheme \<Rightarrow> ('f, 'z) TCL_scheme res" where
  "add_seconds F e d t =
     bindR (get_at e (tl_totTxLatencyEpoch t)) (\<lambda>x.
     bindR (set_at e (fl_add F x (Seconds F d)) (tl_totTxLatencyEpoch t)) (\<lambda>xs.
       Inr (t\<lparr>tl_totTxLatencyEpoch := xs\<rparr>)))"

definition add_cross1 :: "int \<Rightarrow> duration \<Rightarrow> ('f, 'z) TCL_scheme \<Rightarrow> ('f, 'z) TCL_scheme res" where
  "add_cross1 e d t = bindR (add_at e (Milliseconds d) (tl_cross1CommitLatency t)) (\<lambda>xs. Inr (t\<lparr>tl_cross1CommitLatency := xs\<rparr>))"

definition add_cross2 :: "int \<Rightarrow> duration \<Rightarrow> ('f, 'z) TCL_scheme \<Rightarrow> ('f, 'z) TCL_scheme res" where
  "add_cross2 e d t = bindR (add_at e (Milliseconds d) (tl_cross2CommitLatency t)) (\<lambda>xs. Inr (t\<lparr>tl_cross2CommitLatency := xs\<rparr>))"

definition add_ctx :: "int \<Rightarrow> duration \<Rightarrow> ('f, 'z) TCL_scheme \<Rightarrow> ('f, 'z) TCL_scheme res" where
  "add_ctx e d t = bindR (add_at e (Milliseconds d) (tl_ctxCommitLatency t)) (\<lambda>xs. Inr (t\<lparr>tl_ctxCommitLatency := xs\<rparr>))"

definition add_normal :: "int \<Rightarrow> duration \<Rightarrow> ('f, 'z) TCL_scheme \<Rightarrow> ('f, 'z) TCL_scheme res" where
  "add_normal e d t = bindR (add_at e (Milliseconds d) (tl_normalTxCommitLatency t)) (\<lambda>xs. Inr (t\<lparr>tl_normalTxCommitLatency := xs\<rparr>))"

definition relay1_latency :: "int \<Rightarrow> time \<Rightarrow> Transaction \<Rightarrow> 'f TCL_Relay \<Rightarrow> 'f TCL_Relay res" where
  "relay1_latency e mTime tx t =
     add_cross1 e (time_Sub mTime (tx_Time tx))
       (t\<lparr>tr_relay1CommitTS := (tr_relay1CommitTS t)(tx_TxHash tx \<mapsto> mTime)\<rparr>)"

definition relay2_latency :: "'f float_ops \<Rightarrow> int \<Rightarrow> time \<Rightarrow> Transaction \<Rightarrow> 'f TCL_Relay \<Rightarrow> 'f TCL_Relay res" where
  "relay2_latency F e mTime tx t =
     bindR (add_seconds F e (time_Sub mTime (tx_Time tx)) t) (\<lambda>t1.
       case tr_relay1CommitTS t1 (tx_TxHash tx) of
         None \<Rightarrow> Inr t1
       | Some r1CommitTime \<Rightarrow>
           bindR (add_cross2 e (time_Sub mTime r1CommitTime) t1) (add_ctx e (time_Sub mTime (tx_Time tx))))"

definition normal_latency ::
  "'f float_ops \<Rightarrow> int \<Rightarrow> time \<Rightarrow> Transaction \<Rightarrow> ('f, 'z) TCL_scheme \<Rightarrow> ('f, 'z) TCL_scheme res" where
  "normal_latency F e mTime tx t =
     bindR (add_seconds F e (time_Sub mTime (tx_Time tx)) t) (add_normal e (time_Sub mTime (tx_Time tx)))"

definition TCL_Relay_Update :: "'f float_ops \<Rightarrow> BlockInfoMsg \<Rightarrow> 'f TCL_Relay \<Rightarrow> 'f TCL_Relay res" where
  "TCL_Relay_Update F b t =
     (if bi_BlockBodyLength b = 0 then Inr t
      else let e = bi_Epoch b; mTime = bi_CommitTime b in
        bindR (count_block F inc_sum bi_Relay1Txs bi_Relay2Txs b (extend_TCL F e t)) (\<lambda>t1.
        bindR (foldR (relay1_latency e mTime) (bi_Relay1Txs b) t1) (\<lambda>t2.
        bindR (foldR (relay2_latency F e mTime) (bi_Relay2Txs b) t2)
          (foldR (normal_latency F e mTime) (bi_InnerShardTxs b)))))"

record 'f TCL_Broker = "'f TCL" +
  tb_brokerTxMap :: "bytes \<rightharpoonup> time"
  tb_pendingBroker2Txs :: "bytes \<rightharpoonup> (int \<times> time) list"

definition NewTestModule_TCL_Broker :: "'f TCL_Broker" where
  "NewTestModule_TCL_Broker = \<lparr>et_epochID = -1, et_txNum = [], et_normalTxNum = [], et_cross1TxNum = [],
     et_cross2TxNum = [], tl_totTxLatencyEpoch = [], tl_cross1CommitLatency = [], tl_cross2CommitLatency = [],
     tl_ctxCommitLatency = [], tl_normalTxCommitLatency = [], tb_brokerTxMap = Map.empty,
     tb_pendingBroker2Txs = Map.empty\<rparr>"

definition pending_latency :: "'f float_ops \<Rightarrow> time \<Rightarrow> int \<times> time \<Rightarrow> 'f TCL_Broker \<Rightarrow> 'f TCL_Broker res" where
  "pending_latency F t1Time p t =
     bindR (add_seconds F (fst p) (time_Sub (snd p) t1Time) t) (add_ctx (fst p) (time_Sub (snd p) t1Time))"

definition broker1_latency :: "'f float_ops \<Rightarrow> int \<Rightarrow> time \<Rightarrow> Transaction \<Rightarrow> 'f TCL_Broker \<Rightarrow> 'f TCL_Broker res" where
  "broker1_latency F e mTime tx t =
     (let rawHash = tx_RawTxHash tx; t1 = t\<lparr>tb_brokerTxMap := (tb_brokerTxMap t)(rawHash \<mapsto> tx_Time tx)\<rparr> in
      bindR (case tb_pendingBroker2Txs t1 rawHash of
               None \<Rightarrow> Inr t1
             | Some pendingTxs \<Rightarrow> bindR (foldR (pending_latency F (tx_Time tx)) pendingTxs t1) (\<lambda>t2.
                 Inr (t2\<lparr>tb_pendingBroker2Txs := (tb_pendingBroker2Txs t2)(rawHash := None)\<rparr>)))
        (add_cross1 e (time_Sub mTime (tx_Time tx))))"

definition broker2_latency :: "'f float_ops \<Rightarrow> int \<Rightarrow> time \<Rightarrow> Transaction \<Rightarrow> 'f TCL_Broker \<Rightarrow> 'f TCL_Broker res" where
  "broker2_latency F e mTime tx t =
     (let rawHash = tx_RawTxHash tx in
      bindR (case tb_brokerTxMap t rawHash of
               Some b1Time \<Rightarrow> bindR (add_seconds F e (time_Sub mTime b1Time) t) (add_ctx e (time_Sub mTime b1Time))
             | None \<Rightarrow> Inr (t\<lparr>tb_pendingBroker2Txs := (tb_pendingBroker2Txs t)(rawHash \<mapsto>
                 (case tb_pendingBroker2Txs t rawHash of None \<Rightarrow> [] | Some ps \<Rightarrow> ps) @ [(e, mTime)])\<rparr>))
        (add_cross2 e (time_Sub mTime (tx_Time tx))))"

definition TCL_Broker_Update :: "'f float_ops \<Rightarrow> BlockInfoMsg \<Rightarrow> 'f TCL_Broker \<Rightarrow> 'f TCL_Broker res" where
  "TCL_Broker_Update F b t =
     (if bi_BlockBodyLength b = 0 then Inr t
      else let e = bi_Epoch b; mTime = bi_CommitTime b in
        bindR (count_block F inc_sum bi_Broker1Txs bi_Broker2Txs b (extend_TCL F e t)) (\<lambda>t1.
        bindR (foldR (normal_latency F e mTime) (bi_InnerShardTxs b) t1) (\<lambda>t2.
        bindR (foldR (broker1_latency F e mTime) (bi_Broker1Txs b) t2)
          (foldR (broker2_latency F e mTime) (bi_Broker2Txs b)))))"

definition TCL_OutputRecord :: "'f float_ops \<Rightarrow> ('f, 'z) TCL_scheme \<Rightarrow> 'f list \<times> 'f" where
  "TCL_OutputRecord F t =
     (map2 (fl_div F) (tl_totTxLatencyEpoch t) (et_txNum t),
      fl_div F (foldl (fl_add F) (fl_int F 0) (tl_totTxLatencyEpoch t)) (foldl (fl_add F) (fl_int F 0) (et_txNum t)))"

definition TCL_rows :: "'f float_ops \<Rightarrow> ('f, 'z) TCL_scheme \<Rightarrow> string list list" where
  "TCL_rows F t =
     map (\<lambda>eid. [Itoa (int eid), fl_format F (et_txNum t ! eid), Itoa (et_normalTxNum t ! eid),
                 Itoa (et_cross1TxNum t ! eid), Itoa (et_cross2TxNum t ! eid),
                 Itoa (tl_cross1CommitLatency t ! eid), Itoa (tl_cross2CommitLatency t ! eid),
                 Itoa (tl_normalTxCommitLatency t ! eid), Itoa (tl_ctxCommitLatency t ! eid),
                 fl_format F (tl_totTxLatencyEpoch t ! eid)]) [0..<length (et_txNum t)]"

section \<open>Details of each transaction (measure\_TxDetail.go)\<close>

record txMetricDetailTime =
  td_TxProposeTimestamp :: time
  td_BlockProposeTimestamp :: time
  td_TxCommitTimestamp :: time
  td_Relay1CommitTimestamp :: time
  td_Relay2CommitTimestamp :: time
  td_Broker1CommitTimestamp :: time
  td_Broker2CommitTimestamp :: time

definition zeroDetail :: txMetricDetailTime where
  "zeroDetail = \<lparr>td_TxProposeTimestamp = 0, td_BlockProposeTimestamp = 0, td_TxCommitTimestamp = 0,
     td_Relay1CommitTimestamp = 0, td_Relay2CommitTimestamp = 0, td_Broker1CommitTimestamp = 0,
     td_Broker2CommitTimestamp = 0\<rparr>"

type_synonym TestTxDetail = "bytes \<rightharpoonup> txMetricDetailTime"

definition upd_detail :: "(txMetricDetailTime \<Rightarrow> txMetricDetailTime) \<Rightarrow> bytes \<Rightarrow> TestTxDetail \<Rightarrow> TestTxDetail" where
  "upd_detail f h m = m(h \<mapsto> f (case m h of None \<Rightarrow> zeroDetail | Some d \<Rightarrow> d))"

definition TxDetail_Update :: "BlockInfoMsg \<Rightarrow> TestTxDetail \<Rightarrow> TestTxDetail" where
  "TxDetail_Update b m =
     (if bi_BlockBodyLength b = 0 then m
      else let p = bi_ProposeTime b; c = bi_CommitTime b in
        fold (\<lambda>tx. upd_detail (\<lambda>d. d\<lparr>td_Broker2CommitTimestamp := c, td_TxCommitTimestamp := c\<rparr>) (tx_RawTxHash tx)) (bi_Broker2Txs b)
        (fold (\<lambda>tx. upd_detail (\<lambda>d. d\<lparr>td_TxProposeTimestamp := tx_Time tx, td_BlockProposeTimestamp := p,
                 td_Broker1CommitTimestamp := c\<rparr>) (tx_RawTxHash tx)) (bi_Broker1Txs b)
        (fold (\<lambda>tx. upd_detail (\<lambda>d. d\<lparr>td_Relay2CommitTimestamp := c, td_TxCommitTimestamp := c\<rparr>) (tx_TxHash tx)) (bi_Relay2Txs b)
        (fold (\<lambda>tx. upd_detail (\<lambda>d. d\<lparr>td_TxProposeTimestamp := tx_Time tx, td_BlockProposeTimestamp := p,
                 td_Relay1CommitTimestamp := c\<rparr>) (tx_TxHash tx)) (bi_Relay1Txs b)
        (fold (\<lambda>tx. upd_detail (\<lambda>d. d\<lparr>td_TxProposeTimestamp := tx_Time tx, td_BlockProposeTimestamp := p,
                 td_TxCommitTimestamp := c\<rparr>) (tx_TxHash tx)) (bi_InnerShardTxs b) m)))))"

definition timestampToString :: "time \<Rightarrow> string" where
  "timestampToString thisTime = (if IsZero thisTime then '''' else Itoa (UnixMilli thisTime))"

text \<open>One row per entry; \<open>keys\<close> is the order of the range over the map.\<close>

definition TxDetail_rows :: "bytes list \<Rightarrow> TestTxDetail \<Rightarrow> string list list" where
  "TxDetail_rows keys m =
     List.map_filter (\<lambda>h. case m h of None \<Rightarrow> None | Some d \<Rightarrow>
       Some [Itoa (int (SetBytes h)), timestampToString (td_TxProposeTimestamp d),
             timestampToString (td_BlockProposeTimestamp d), timestampToString (td_TxCommitTimestamp d),
             timestampToString (td_Relay1CommitTimestamp d), timestampToString (td_Relay2CommitTimestamp d),
             timestampToString (td_Broker1CommitTimestamp d), timestampToString (td_Broker2CommitTimestamp d),
             Itoa (Milliseconds (time_Sub (td_TxCommitTimestamp d) (td_TxProposeTimestamp d)))]) keys"

end
