(* ===== verification/Measure_Counts.thy ===== *)
theory Measure_Counts
  imports Measure
begin

text \<open>
  The statistics count what the shards report: no module panics on any sequence of reports with
  non-negative epochs, and the counters of an epoch are the sums over the non-empty blocks
  reported for it. The latency of a transfer through a broker does not depend on which of its two
  halves is reported first.
\<close>

section \<open>Runs of a module\<close>

locale epoch_metric =
  fixes upd :: "BlockInfoMsg \<Rightarrow> 's \<Rightarrow> 's res"
    and num :: "nat \<Rightarrow> 's \<Rightarrow> nat \<Rightarrow> int"
    and w :: "nat \<Rightarrow> BlockInfoMsg \<Rightarrow> int"
    and ok :: "'s \<Rightarrow> bool"
  assumes step: "ok s \<Longrightarrow> 0 \<le> bi_Epoch b \<Longrightarrow> \<exists>s'. upd b s = Inr s' \<and> ok s' \<and>
    (\<forall>k e. num k s' e = num k s e + (if bi_BlockBodyLength b \<noteq> 0 \<and> bi_Epoch b = int e then w k b else 0))"
begin

lemma run_counts:
  assumes "ok s" and "\<forall>b \<in> set bs. 0 \<le> bi_Epoch b"
  shows "\<exists>s'. foldR upd bs s = Inr s' \<and> ok s' \<and>
    (\<forall>k e. num k s' e = num k s e + (\<Sum>b\<leftarrow>filter (\<lambda>b. bi_BlockBodyLength b \<noteq> 0 \<and> bi_Epoch b = int e) bs. w k b))"
  using assms
proof (induction bs arbitrary: s)
  case Nil
  then show ?case by simp
next
  case (Cons b bs)
  obtain s1 where s1: "upd b s = Inr s1" "ok s1"
    "\<And>k e. num k s1 e = num k s e + (if bi_BlockBodyLength b \<noteq> 0 \<and> bi_Epoch b = int e then w k b else 0)"
    using step [of s b] Cons.prems by auto
  obtain s' where "foldR upd bs s1 = Inr s'" "ok s'"
    "\<And>k e. num k s' e = num k s1 e + (\<Sum>b\<leftarrow>filter (\<lambda>b. bi_BlockBodyLength b \<noteq> 0 \<and> bi_Epoch b = int e) bs. w k b)"
    using Cons.IH [OF s1(2)] Cons.prems(2) by auto
  then show ?case using s1 by (intro exI [of _ s']) auto
qed

end

section \<open>Tables\<close>

definition table_ok :: "('f, 'z) epoch_table_scheme \<Rightarrow> bool" where
  "table_ok t \<longleftrightarrow> -1 \<le> et_epochID t \<and> length (et_txNum t) = nat (et_epochID t + 1) \<and>
     length (et_normalTxNum t) = nat (et_epochID t + 1) \<and> length (et_cross1TxNum t) = nat (et_epochID t + 1) \<and>
     length (et_cross2TxNum t) = nat (et_epochID t + 1)"

definition table_num :: "nat \<Rightarrow> ('f, 'z) epoch_table_scheme \<Rightarrow> nat \<Rightarrow> int" where
  "table_num k t e = count_at (if k = 0 then et_normalTxNum t else if k = 1 then et_cross1TxNum t else et_cross2TxNum t) e"

definition weight :: "txs_of \<Rightarrow> txs_of \<Rightarrow> nat \<Rightarrow> BlockInfoMsg \<Rightarrow> int" where
  "weight x1 x2 k b = int (length (if k = 0 then bi_InnerShardTxs b else if k = 1 then x1 b else x2 b))"

lemma length_extend_to:
  "-1 \<le> old \<Longrightarrow> length xs = nat (old + 1) \<Longrightarrow> 0 \<le> e \<Longrightarrow> length (extend_to e old z xs) = nat (max old e + 1)"
  by (simp add: extend_to_def nat_add_distrib max_def) linarith

lemma in_extended:
  assumes "-1 \<le> old" and "length xs = nat (old + 1)" and "0 \<le> e"
  shows "e < int (length (extend_to e old z xs))"
  using length_extend_to [OF assms, of z] assms by (simp add: max_def)

lemma count_extended:
  assumes "-1 \<le> old" and "length xs = nat (old + 1)" and "0 \<le> e"
  shows "\<exists>ys. add_at e d (extend_to e old 0 xs) = Inr ys \<and> length ys = nat (max old e + 1) \<and>
    (\<forall>k. count_at ys k = count_at xs k + (if int k = e then d else 0))"
proof -
  let ?xs = "extend_to e old 0 xs"
  have e: "e < int (length ?xs)" by (rule in_extended [OF assms])
  then have "add_at e d ?xs = Inr (?xs[nat e := ?xs ! nat e + d])" using assms(3) by (simp add: add_at_ok)
  moreover have "count_at (?xs[nat e := ?xs ! nat e + d]) k = count_at xs k + (if int k = e then d else 0)" for k
    using e assms(3) by (auto simp: count_at_update) (simp_all add: extend_to_def)
  ultimately show ?thesis using length_extend_to [OF assms, of 0] by simp
qed

lemma set_extended:
  assumes "-1 \<le> old" and "length xs = nat (old + 1)" and "0 \<le> e"
  shows "\<exists>x ys. get_at e (extend_to e old z xs) = Inr x \<and> set_at e (f x) (extend_to e old z xs) = Inr ys \<and>
    length ys = nat (max old e + 1)"
  using in_extended [OF assms, of z] length_extend_to [OF assms, of z] assms(3)
  by (simp add: get_at_ok set_at_ok)

lemma count_block_spec:
  assumes ok: "table_ok t" and e: "0 \<le> bi_Epoch b"
  shows "\<exists>xs ns c1 c2. count_block F inc x1 x2 b t = Inr (t\<lparr>et_epochID := max (et_epochID t) (bi_Epoch b), et_txNum := xs,
      et_normalTxNum := ns, et_cross1TxNum := c1, et_cross2TxNum := c2\<rparr>) \<and>
    table_ok (t\<lparr>et_epochID := max (et_epochID t) (bi_Epoch b), et_txNum := xs,
      et_normalTxNum := ns, et_cross1TxNum := c1, et_cross2TxNum := c2\<rparr>) \<and>
    (\<forall>k e. table_num k (t\<lparr>et_epochID := max (et_epochID t) (bi_Epoch b), et_txNum := xs,
      et_normalTxNum := ns, et_cross1TxNum := c1, et_cross2TxNum := c2\<rparr>) e =
      table_num k t e + (if bi_Epoch b = int e then weight x1 x2 k b else 0))"
proof -
  let ?e = "bi_Epoch b" and ?old = "et_epochID t"
  note len = ok [unfolded table_ok_def]
  obtain ns where ns: "add_at ?e (int (length (bi_InnerShardTxs b))) (extend_to ?e ?old 0 (et_normalTxNum t)) = Inr ns"
    "length ns = nat (max ?old ?e + 1)" "\<And>k. count_at ns k = count_at (et_normalTxNum t) k + (if int k = ?e then int (length (bi_InnerShardTxs b)) else 0)"
    using count_extended [OF _ _ e] len by blast
  obtain c1 where c1: "add_at ?e (int (length (x1 b))) (extend_to ?e ?old 0 (et_cross1TxNum t)) = Inr c1"
    "length c1 = nat (max ?old ?e + 1)" "\<And>k. count_at c1 k = count_at (et_cross1TxNum t) k + (if int k = ?e then int (length (x1 b)) else 0)"
    using count_extended [OF _ _ e] len by blast
  obtain c2 where c2: "add_at ?e (int (length (x2 b))) (extend_to ?e ?old 0 (et_cross2TxNum t)) = Inr c2"
    "length c2 = nat (max ?old ?e + 1)" "\<And>k. count_at c2 k = count_at (et_cross2TxNum t) k + (if int k = ?e then int (length (x2 b)) else 0)"
    using count_extended [OF _ _ e] len by blast
  obtain x xs where xs: "get_at ?e (extend_to ?e ?old (fl_int F 0) (et_txNum t)) = Inr x"
    "set_at ?e (inc F (int (length (bi_InnerShardTxs b))) (int (length (x1 b))) (int (length (x2 b))) x)
       (extend_to ?e ?old (fl_int F 0) (et_txNum t)) = Inr xs" "length xs = nat (max ?old ?e + 1)"
    using set_extended [OF _ _ e, of ?old "et_txNum t"] len by blast
  show ?thesis
    using ns c1 c2 xs len
    by (intro exI [of _ xs] exI [of _ ns] exI [of _ c1] exI [of _ c2])
       (auto simp: count_block_def Let_def table_ok_def table_num_def weight_def max_def)
qed

interpretation txnum: epoch_metric "TxNumCount_Update F inc x1 x2" table_num "weight x1 x2" table_ok for F inc x1 x2
proof
  fix s :: "'a epoch_table" and b :: BlockInfoMsg
  assume "table_ok s" "0 \<le> bi_Epoch b"
  then show "\<exists>s'. TxNumCount_Update F inc x1 x2 b s = Inr s' \<and> table_ok s' \<and>
    (\<forall>k e. table_num k s' e = table_num k s e + (if bi_BlockBodyLength b \<noteq> 0 \<and> bi_Epoch b = int e then weight x1 x2 k b else 0))"
    using count_block_spec [of s b F inc x1 x2] by (auto simp: TxNumCount_Update_def)
qed

section \<open>Ratios and rates\<close>

lemma table_more:
  "table_ok (t\<lparr>cr_totCrossTxNum := a\<rparr>) = table_ok t" "table_num k (t\<lparr>cr_totCrossTxNum := a\<rparr>) = table_num k t"
  "table_ok (u\<lparr>tp_startTime := s, tp_endTime := l\<rparr>) = table_ok u" "table_num k (u\<lparr>tp_startTime := s, tp_endTime := l\<rparr>) = table_num k u"
  by (simp_all add: table_ok_def table_num_def fun_eq_iff)

interpretation ctxrate: epoch_metric "CrossTxRate_Update F inc x1 x2" table_num "weight x1 x2"
  "\<lambda>t. table_ok t \<and> length (cr_totCrossTxNum t) = nat (et_epochID t + 1)" for F inc x1 x2
proof
  fix s :: "'a CrossTxRate" and b :: BlockInfoMsg
  let ?c = "extend_to (bi_Epoch b) (et_epochID s) (fl_int F 0) (cr_totCrossTxNum s)"
  assume ok: "table_ok s \<and> length (cr_totCrossTxNum s) = nat (et_epochID s + 1)" and e: "0 \<le> bi_Epoch b"
  then have old: "-1 \<le> et_epochID s" by (simp add: table_ok_def)
  obtain x ys where ys: "get_at (bi_Epoch b) ?c = Inr x"
    "set_at (bi_Epoch b) (fl_add F x (half F (int (length (x1 b)) + int (length (x2 b))))) ?c = Inr ys"
    "length ys = nat (max (et_epochID s) (bi_Epoch b) + 1)"
    using set_extended [OF old _ e, of "cr_totCrossTxNum s" "fl_int F 0"
      "\<lambda>x. fl_add F x (half F (int (length (x1 b)) + int (length (x2 b))))"] ok by blast
  show "\<exists>s'. CrossTxRate_Update F inc x1 x2 b s = Inr s' \<and> (table_ok s' \<and> length (cr_totCrossTxNum s') = nat (et_epochID s' + 1)) \<and>
    (\<forall>k e. table_num k s' e = table_num k s e + (if bi_BlockBodyLength b \<noteq> 0 \<and> bi_Epoch b = int e then weight x1 x2 k b else 0))"
    using count_block_spec [of s b F inc x1 x2] ok e ys by (auto simp: CrossTxRate_Update_def Let_def table_more)
qed

interpretation tps: epoch_metric "avgTPS_Update F inc x1 x2" table_num "weight x1 x2"
  "\<lambda>t. table_ok t \<and> length (tp_startTime t) = nat (et_epochID t + 1) \<and> length (tp_endTime t) = nat (et_epochID t + 1)"
  for F inc x1 x2
proof
  fix s :: "'a avgTPS" and b :: BlockInfoMsg
  let ?s = "extend_to (bi_Epoch b) (et_epochID s) 0 (tp_startTime s)" and ?l = "extend_to (bi_Epoch b) (et_epochID s) 0 (tp_endTime s)"
  assume ok: "table_ok s \<and> length (tp_startTime s) = nat (et_epochID s + 1) \<and> length (tp_endTime s) = nat (et_epochID s + 1)"
    and e: "0 \<le> bi_Epoch b"
  then have old: "-1 \<le> et_epochID s" by (simp add: table_ok_def)
  obtain x xs where xs: "get_at (bi_Epoch b) ?s = Inr x"
    "set_at (bi_Epoch b) (if IsZero x \<or> x > bi_ProposeTime b then bi_ProposeTime b else x) ?s = Inr xs"
    "length xs = nat (max (et_epochID s) (bi_Epoch b) + 1)"
    using set_extended [OF old _ e, of "tp_startTime s" 0
      "\<lambda>x. if IsZero x \<or> x > bi_ProposeTime b then bi_ProposeTime b else x"] ok by blast
  obtain y ys where ys: "get_at (bi_Epoch b) ?l = Inr y"
    "set_at (bi_Epoch b) (if IsZero y \<or> bi_CommitTime b > y then bi_CommitTime b else y) ?l = Inr ys"
    "length ys = nat (max (et_epochID s) (bi_Epoch b) + 1)"
    using set_extended [OF old _ e, of "tp_endTime s" 0
      "\<lambda>y. if IsZero y \<or> bi_CommitTime b > y then bi_CommitTime b else y"] ok by blast
  show "\<exists>s'. avgTPS_Update F inc x1 x2 b s = Inr s' \<and> (table_ok s' \<and> length (tp_startTime s') = nat (et_epochID s' + 1) \<and>
      length (tp_endTime s') = nat (et_epochID s' + 1)) \<and>
    (\<forall>k e. table_num k s' e = table_num k s e + (if bi_BlockBodyLength b \<noteq> 0 \<and> bi_Epoch b = int e then weight x1 x2 k b else 0))"
    using count_block_spec [of s b F inc x1 x2] ok e xs ys by (auto simp: avgTPS_Update_def Let_def table_more)
qed

section \<open>Latencies\<close>

definition latency_ok :: "('f, 'z) TCL_scheme \<Rightarrow> bool" where
  "latency_ok t \<longleftrightarrow> table_ok t \<and> length (tl_totTxLatencyEpoch t) = nat (et_epochID t + 1) \<and>
     length (tl_cross1CommitLatency t) = nat (et_epochID t + 1) \<and> length (tl_cross2CommitLatency t) = nat (et_epochID t + 1) \<and>
     length (tl_ctxCommitLatency t) = nat (et_epochID t + 1) \<and> length (tl_normalTxCommitLatency t) = nat (et_epochID t + 1)"

definition same_table :: "('f, 'z) TCL_scheme \<Rightarrow> ('f, 'z) TCL_scheme \<Rightarrow> bool" where
  "same_table t0 t \<longleftrightarrow> et_epochID t = et_epochID t0 \<and> (\<forall>k. table_num k t = table_num k t0)"

text \<open>While the latencies of one block are added, the table stays as it is.\<close>

definition adding :: "('f, 'z) TCL_scheme \<Rightarrow> ('f, 'z) TCL_scheme \<Rightarrow> bool" where
  "adding t0 t \<longleftrightarrow> latency_ok t \<and> same_table t0 t"

lemma epoch_in_range:
  assumes "adding t0 t" and "0 \<le> e" and "e \<le> et_epochID t0"
  shows "e < int (length (tl_totTxLatencyEpoch t))" "e < int (length (tl_cross1CommitLatency t))"
    "e < int (length (tl_cross2CommitLatency t))" "e < int (length (tl_ctxCommitLatency t))"
    "e < int (length (tl_normalTxCommitLatency t))"
  using assms by (simp_all add: adding_def latency_ok_def same_table_def)

lemma adding_field [simp]:
  "adding t0 (t\<lparr>tl_totTxLatencyEpoch := xs\<rparr>) \<longleftrightarrow> adding t0 t"
    if "length xs = length (tl_totTxLatencyEpoch t)"
  using that by (simp add: adding_def latency_ok_def same_table_def table_ok_def table_num_def fun_eq_iff)

lemma adding_fields [simp]:
  "length ys = length (tl_cross1CommitLatency t) \<Longrightarrow> adding t0 (t\<lparr>tl_cross1CommitLatency := ys\<rparr>) \<longleftrightarrow> adding t0 t"
  "length ys = length (tl_cross2CommitLatency t) \<Longrightarrow> adding t0 (t\<lparr>tl_cross2CommitLatency := ys\<rparr>) \<longleftrightarrow> adding t0 t"
  "length ys = length (tl_ctxCommitLatency t) \<Longrightarrow> adding t0 (t\<lparr>tl_ctxCommitLatency := ys\<rparr>) \<longleftrightarrow> adding t0 t"
  "length ys = length (tl_normalTxCommitLatency t) \<Longrightarrow> adding t0 (t\<lparr>tl_normalTxCommitLatency := ys\<rparr>) \<longleftrightarrow> adding t0 t"
  by (simp_all add: adding_def latency_ok_def same_table_def table_ok_def table_num_def fun_eq_iff)

lemma additions:
  assumes "adding t0 t" and "0 \<le> e" and "e \<le> et_epochID t0"
  shows "\<exists>xs. add_seconds F e d t = Inr (t\<lparr>tl_totTxLatencyEpoch := xs\<rparr>) \<and> length xs = length (tl_totTxLatencyEpoch t)"
    and "\<exists>xs. add_cross1 e d t = Inr (t\<lparr>tl_cross1CommitLatency := xs\<rparr>) \<and> length xs = length (tl_cross1CommitLatency t)"
    and "\<exists>xs. add_cross2 e d t = Inr (t\<lparr>tl_cross2CommitLatency := xs\<rparr>) \<and> length xs = length (tl_cross2CommitLatency t)"
    and "\<exists>xs. add_ctx e d t = Inr (t\<lparr>tl_ctxCommitLatency := xs\<rparr>) \<and> length xs = length (tl_ctxCommitLatency t)"
    and "\<exists>xs. add_normal e d t = Inr (t\<lparr>tl_normalTxCommitLatency := xs\<rparr>) \<and> length xs = length (tl_normalTxCommitLatency t)"
  using epoch_in_range [OF assms] assms(2)
  by (auto simp: add_seconds_def add_cross1_def add_cross2_def add_ctx_def add_normal_def get_at_ok set_at_ok add_at_ok)

lemma adds:
  assumes "adding t0 t" and "0 \<le> e" and "e \<le> et_epochID t0"
  shows "\<exists>t'. add_seconds F e d t = Inr t' \<and> adding t0 t' \<and> TCL.more t' = TCL.more t"
    and "\<exists>t'. add_cross1 e d t = Inr t' \<and> adding t0 t' \<and> TCL.more t' = TCL.more t"
    and "\<exists>t'. add_cross2 e d t = Inr t' \<and> adding t0 t' \<and> TCL.more t' = TCL.more t"
    and "\<exists>t'. add_ctx e d t = Inr t' \<and> adding t0 t' \<and> TCL.more t' = TCL.more t"
    and "\<exists>t'. add_normal e d t = Inr t' \<and> adding t0 t' \<and> TCL.more t' = TCL.more t"
  using additions [OF assms] assms(1) by fastforce+

lemma adds_two:
  assumes "adding t0 t" and "0 \<le> e" and "e \<le> et_epochID t0"
  shows "\<exists>t'. bindR (add_seconds F e d t) (add_normal e d') = Inr t' \<and> adding t0 t' \<and> TCL.more t' = TCL.more t"
    and "\<exists>t'. bindR (add_seconds F e d t) (add_ctx e d') = Inr t' \<and> adding t0 t' \<and> TCL.more t' = TCL.more t"
    and "\<exists>t'. bindR (add_cross2 e d t) (add_ctx e d') = Inr t' \<and> adding t0 t' \<and> TCL.more t' = TCL.more t"
proof -
  obtain t1 where t1: "add_seconds F e d t = Inr t1" "adding t0 t1" "TCL.more t1 = TCL.more t"
    using adds(1) [OF assms] by blast
  obtain t2 where t2: "add_cross2 e d t = Inr t2" "adding t0 t2" "TCL.more t2 = TCL.more t"
    using adds(3) [OF assms] by blast
  show "\<exists>t'. bindR (add_seconds F e d t) (add_normal e d') = Inr t' \<and> adding t0 t' \<and> TCL.more t' = TCL.more t"
    using adds(5) [OF t1(2) assms(2,3), of d'] t1 by simp
  show "\<exists>t'. bindR (add_seconds F e d t) (add_ctx e d') = Inr t' \<and> adding t0 t' \<and> TCL.more t' = TCL.more t"
    using adds(4) [OF t1(2) assms(2,3), of d'] t1 by simp
  show "\<exists>t'. bindR (add_cross2 e d t) (add_ctx e d') = Inr t' \<and> adding t0 t' \<and> TCL.more t' = TCL.more t"
    using adds(4) [OF t2(2) assms(2,3), of d'] t2 by simp
qed

lemma length_extend_TCL:
  assumes "latency_ok t" and e: "0 \<le> e"
  shows "et_epochID (extend_TCL F e t) = et_epochID t"
    "length (tl_totTxLatencyEpoch (extend_TCL F e t)) = nat (max (et_epochID t) e + 1)"
    "length (tl_cross1CommitLatency (extend_TCL F e t)) = nat (max (et_epochID t) e + 1)"
    "length (tl_cross2CommitLatency (extend_TCL F e t)) = nat (max (et_epochID t) e + 1)"
    "length (tl_ctxCommitLatency (extend_TCL F e t)) = nat (max (et_epochID t) e + 1)"
    "length (tl_normalTxCommitLatency (extend_TCL F e t)) = nat (max (et_epochID t) e + 1)"
  using assms by (simp_all add: extend_TCL_def Let_def latency_ok_def table_ok_def length_extend_to)

lemma start_block:
  fixes t :: "('f, 'z) TCL_scheme"
  assumes ok: "latency_ok t" and e: "0 \<le> bi_Epoch b"
  shows "\<exists>t1. count_block F inc x1 x2 b (extend_TCL F (bi_Epoch b) t) = Inr t1 \<and> latency_ok t1 \<and>
    et_epochID t1 = max (et_epochID t) (bi_Epoch b) \<and> TCL.more t1 = TCL.more t \<and>
    (\<forall>k e. table_num k t1 e = table_num k t e + (if bi_Epoch b = int e then weight x1 x2 k b else 0))"
proof -
  let ?t = "extend_TCL F (bi_Epoch b) t"
  have "table_ok ?t" and num: "table_num k ?t = table_num k t" for k
    using ok by (simp_all add: latency_ok_def table_ok_def extend_TCL_def table_num_def Let_def fun_eq_iff)
  then obtain xs ns c1 c2 where c: "count_block F inc x1 x2 b ?t = Inr (?t\<lparr>et_epochID := max (et_epochID ?t) (bi_Epoch b), et_txNum := xs,
      et_normalTxNum := ns, et_cross1TxNum := c1, et_cross2TxNum := c2\<rparr>)"
    "table_ok (?t\<lparr>et_epochID := max (et_epochID ?t) (bi_Epoch b), et_txNum := xs,
      et_normalTxNum := ns, et_cross1TxNum := c1, et_cross2TxNum := c2\<rparr>)"
    "\<forall>k e. table_num k (?t\<lparr>et_epochID := max (et_epochID ?t) (bi_Epoch b), et_txNum := xs,
      et_normalTxNum := ns, et_cross1TxNum := c1, et_cross2TxNum := c2\<rparr>) e =
      table_num k ?t e + (if bi_Epoch b = int e then weight x1 x2 k b else 0)"
    using count_block_spec [of ?t b F inc x1 x2] e by blast
  let ?t1 = "?t\<lparr>et_epochID := max (et_epochID ?t) (bi_Epoch b), et_txNum := xs,
      et_normalTxNum := ns, et_cross1TxNum := c1, et_cross2TxNum := c2\<rparr>"
  have "latency_ok ?t1"
    unfolding latency_ok_def using c(2) length_extend_TCL [OF ok e, of F] by simp
  moreover have "et_epochID ?t1 = max (et_epochID t) (bi_Epoch b)" "TCL.more ?t1 = TCL.more t"
    by (simp_all add: extend_TCL_def Let_def)
  ultimately show ?thesis using c(1,3) num by (intro exI [of _ ?t1]) simp
qed

lemma normal_run:
  assumes "adding t0 t" and "0 \<le> e" and "e \<le> et_epochID t0"
  shows "\<exists>t'. foldR (normal_latency F e m) txs t = Inr t' \<and> adding t0 t' \<and> TCL.more t' = TCL.more t"
proof -
  have "\<exists>t'. foldR (normal_latency F e m) txs t = Inr t' \<and> (adding t0 t' \<and> TCL.more t' = TCL.more t)"
  proof (rule foldR_total)
    fix tx s assume "adding t0 s \<and> TCL.more s = TCL.more t"
    then show "\<exists>s'. normal_latency F e m tx s = Inr s' \<and> (adding t0 s' \<and> TCL.more s' = TCL.more t)"
      using adds_two(1) [of t0 s e] assms(2,3) by (simp add: normal_latency_def)
  qed (use assms in simp)
  then show ?thesis .
qed

subsection \<open>Relay\<close>

lemma adding_relay [simp]: "adding t0 (t\<lparr>tr_relay1CommitTS := m\<rparr>) = adding t0 t"
  by (simp add: adding_def latency_ok_def same_table_def table_ok_def table_num_def fun_eq_iff)

lemma relay1_total:
  assumes "adding t0 t" and "0 \<le> e" and "e \<le> et_epochID t0"
  shows "\<exists>t'. relay1_latency e m tx t = Inr t' \<and> adding t0 t'"
  using adds(2) [of t0 "t\<lparr>tr_relay1CommitTS := (tr_relay1CommitTS t)(tx_TxHash tx \<mapsto> m)\<rparr>" e "time_Sub m (tx_Time tx)"] assms
  by (auto simp: relay1_latency_def)

lemma relay2_total:
  assumes "adding t0 t" and "0 \<le> e" and "e \<le> et_epochID t0"
  shows "\<exists>t'. relay2_latency F e m tx t = Inr t' \<and> adding t0 t'"
proof -
  obtain t1 where t1: "add_seconds F e (time_Sub m (tx_Time tx)) t = Inr t1" "adding t0 t1"
    using adds(1) [OF assms] by blast
  then show ?thesis using adds_two(3) [OF t1(2) assms(2,3)]
    by (auto simp: relay2_latency_def split: option.split)
qed

lemma same_table_relay:
  "adding t1 t \<Longrightarrow> latency_ok t \<and> (\<forall>k. table_num k t = table_num k t1)"
  by (simp add: adding_def same_table_def)

lemma adding_refl: "latency_ok t \<Longrightarrow> adding t t"
  by (simp add: adding_def same_table_def)

interpretation tcl_relay: epoch_metric "TCL_Relay_Update F" table_num "weight bi_Relay1Txs bi_Relay2Txs" latency_ok for F
proof
  fix s :: "'a TCL_Relay" and b :: BlockInfoMsg
  assume ok: "latency_ok s" and e: "0 \<le> bi_Epoch b"
  let ?e = "bi_Epoch b" and ?m = "bi_CommitTime b"
  obtain t1 where t1: "count_block F inc_sum bi_Relay1Txs bi_Relay2Txs b (extend_TCL F ?e s) = Inr t1" "latency_ok t1"
    "et_epochID t1 = max (et_epochID s) ?e"
    "\<And>k e. table_num k t1 e = table_num k s e + (if ?e = int e then weight bi_Relay1Txs bi_Relay2Txs k b else 0)"
    using start_block [OF ok e, of F inc_sum bi_Relay1Txs bi_Relay2Txs] by blast
  then have a: "adding t1 t1" and le: "?e \<le> et_epochID t1" by (simp_all add: adding_refl)
  obtain t2 where t2: "foldR (relay1_latency ?e ?m) (bi_Relay1Txs b) t1 = Inr t2" "adding t1 t2"
    using foldR_total [of "adding t1" t1 "bi_Relay1Txs b" "relay1_latency ?e ?m"] relay1_total [OF _ e le] a by blast
  obtain t3 where t3: "foldR (relay2_latency F ?e ?m) (bi_Relay2Txs b) t2 = Inr t3" "adding t1 t3"
    using foldR_total [of "adding t1" t2 "bi_Relay2Txs b" "relay2_latency F ?e ?m"] relay2_total [OF _ e le] t2(2) by blast
  obtain t4 where t4: "foldR (normal_latency F ?e ?m) (bi_InnerShardTxs b) t3 = Inr t4" "adding t1 t4"
    using normal_run [OF t3(2) e le] by blast
  show "\<exists>s'. TCL_Relay_Update F b s = Inr s' \<and> latency_ok s' \<and>
    (\<forall>k e. table_num k s' e = table_num k s e + (if bi_BlockBodyLength b \<noteq> 0 \<and> bi_Epoch b = int e then weight bi_Relay1Txs bi_Relay2Txs k b else 0))"
    using ok t1 t2 t3 t4 same_table_relay [OF t4(2)] by (simp add: TCL_Relay_Update_def Let_def)
qed

subsection \<open>Broker\<close>

definition pend_ok :: "int \<Rightarrow> (bytes \<rightharpoonup> (int \<times> time) list) \<Rightarrow> bool" where
  "pend_ok E m \<longleftrightarrow> (\<forall>h ps. m h = Some ps \<longrightarrow> (\<forall>p \<in> set ps. 0 \<le> fst p \<and> fst p \<le> E))"

lemma pend_ok_add:
  "pend_ok E m \<Longrightarrow> 0 \<le> e \<Longrightarrow> e \<le> E \<Longrightarrow>
     pend_ok E (m(h \<mapsto> (case m h of None \<Rightarrow> [] | Some ps \<Rightarrow> ps) @ [(e, c)]))"
  by (cases "m h") (auto simp: pend_ok_def)

lemma adding_broker [simp]:
  "adding t0 (t\<lparr>tb_brokerTxMap := m\<rparr>) = adding t0 t" "adding t0 (t\<lparr>tb_pendingBroker2Txs := q\<rparr>) = adding t0 t"
  by (simp_all add: adding_def latency_ok_def same_table_def table_ok_def table_num_def fun_eq_iff)

lemma more_broker:
  fixes t t' :: "'f TCL_Broker"
  shows "TCL.more t' = TCL.more t \<Longrightarrow> tb_pendingBroker2Txs t' = tb_pendingBroker2Txs t \<and> tb_brokerTxMap t' = tb_brokerTxMap t"
  by (cases t; cases t') simp

definition broker_adding :: "'f TCL_Broker \<Rightarrow> 'f TCL_Broker \<Rightarrow> bool" where
  "broker_adding t0 t \<longleftrightarrow> adding t0 t \<and> pend_ok (et_epochID t0) (tb_pendingBroker2Txs t)"

lemma pending_total:
  assumes "broker_adding t0 t" and "0 \<le> fst p \<and> fst p \<le> et_epochID t0"
  shows "\<exists>t'. pending_latency F t1Time p t = Inr t' \<and> broker_adding t0 t'"
  using adds_two(2) [of t0 t "fst p" F "time_Sub (snd p) t1Time" "time_Sub (snd p) t1Time"] assms
  by (auto simp: pending_latency_def broker_adding_def dest: more_broker)

lemma broker1_total:
  assumes a: "broker_adding t0 t" and e: "0 \<le> e" "e \<le> et_epochID t0"
  shows "\<exists>t'. broker1_latency F e m tx t = Inr t' \<and> broker_adding t0 t'"
proof -
  let ?t1 = "t\<lparr>tb_brokerTxMap := (tb_brokerTxMap t)(tx_RawTxHash tx \<mapsto> tx_Time tx)\<rparr>"
  let ?p = "case tb_pendingBroker2Txs ?t1 (tx_RawTxHash tx) of None \<Rightarrow> Inr ?t1
    | Some pendingTxs \<Rightarrow> bindR (foldR (pending_latency F (tx_Time tx)) pendingTxs ?t1) (\<lambda>t2.
        Inr (t2\<lparr>tb_pendingBroker2Txs := (tb_pendingBroker2Txs t2)(tx_RawTxHash tx := None)\<rparr>))"
  have a1: "broker_adding t0 ?t1" using a by (simp add: broker_adding_def)
  have "\<exists>t2. ?p = Inr t2 \<and> broker_adding t0 t2"
  proof (cases "tb_pendingBroker2Txs ?t1 (tx_RawTxHash tx)")
    case (Some ps)
    then have "\<And>p. p \<in> set ps \<Longrightarrow> 0 \<le> fst p \<and> fst p \<le> et_epochID t0"
      using a by (auto simp: broker_adding_def pend_ok_def)
    then obtain t2 where "foldR (pending_latency F (tx_Time tx)) ps ?t1 = Inr t2" "broker_adding t0 t2"
      using foldR_total [of "broker_adding t0" ?t1 ps "pending_latency F (tx_Time tx)"] a1 pending_total by blast
    then show ?thesis using Some by (simp add: broker_adding_def pend_ok_def)
  qed (use a1 in simp)
  then obtain t2 where t2: "?p = Inr t2" "adding t0 t2" "pend_ok (et_epochID t0) (tb_pendingBroker2Txs t2)"
    by (auto simp: broker_adding_def)
  show ?thesis using adds(2) [OF t2(2) e, of "time_Sub m (tx_Time tx)"] t2
    by (auto simp: broker1_latency_def Let_def broker_adding_def dest: more_broker)
qed

lemma broker2_total:
  assumes a: "broker_adding t0 t" and e: "0 \<le> e" "e \<le> et_epochID t0"
  shows "\<exists>t'. broker2_latency F e m tx t = Inr t' \<and> broker_adding t0 t'"
proof -
  have at: "adding t0 t" using a by (simp add: broker_adding_def)
  have fin: "\<exists>t'. add_cross2 e d u = Inr t' \<and> broker_adding t0 t'" if "broker_adding t0 u" for u d
    using adds(3) [of t0 u e d] that e by (auto simp: broker_adding_def dest: more_broker)
  show ?thesis
  proof (cases "tb_brokerTxMap t (tx_RawTxHash tx)")
    case None
    let ?u = "t\<lparr>tb_pendingBroker2Txs := (tb_pendingBroker2Txs t)(tx_RawTxHash tx \<mapsto>
      (case tb_pendingBroker2Txs t (tx_RawTxHash tx) of None \<Rightarrow> [] | Some ps \<Rightarrow> ps) @ [(e, m)])\<rparr>"
    have "broker_adding t0 ?u" using a e by (simp add: broker_adding_def pend_ok_add)
    from fin [OF this] None show ?thesis by (simp add: broker2_latency_def Let_def)
  next
    case (Some b1)
    obtain u where "bindR (add_seconds F e (time_Sub m b1) t) (add_ctx e (time_Sub m b1)) = Inr u" "broker_adding t0 u"
      using adds_two(2) [OF at e, of F "time_Sub m b1" "time_Sub m b1"] a by (auto simp: broker_adding_def dest: more_broker)
    with fin Some show ?thesis by (simp add: broker2_latency_def Let_def)
  qed
qed

interpretation tcl_broker: epoch_metric "TCL_Broker_Update F" table_num "weight bi_Broker1Txs bi_Broker2Txs"
  "\<lambda>t. latency_ok t \<and> pend_ok (et_epochID t) (tb_pendingBroker2Txs t)" for F
proof
  fix s :: "'a TCL_Broker" and b :: BlockInfoMsg
  assume ok: "latency_ok s \<and> pend_ok (et_epochID s) (tb_pendingBroker2Txs s)" and e: "0 \<le> bi_Epoch b"
  let ?e = "bi_Epoch b" and ?m = "bi_CommitTime b"
  obtain t1 where t1: "count_block F inc_sum bi_Broker1Txs bi_Broker2Txs b (extend_TCL F ?e s) = Inr t1" "latency_ok t1"
    "et_epochID t1 = max (et_epochID s) ?e" "TCL.more t1 = TCL.more s"
    "\<And>k e. table_num k t1 e = table_num k s e + (if ?e = int e then weight bi_Broker1Txs bi_Broker2Txs k b else 0)"
    using start_block [OF conjunct1 [OF ok] e, of F inc_sum bi_Broker1Txs bi_Broker2Txs] by blast
  then have a: "adding t1 t1" and le: "?e \<le> et_epochID t1" by (simp_all add: adding_refl)
  obtain t2 where t2: "foldR (normal_latency F ?e ?m) (bi_InnerShardTxs b) t1 = Inr t2" "adding t1 t2" "TCL.more t2 = TCL.more t1"
    using normal_run [OF a e le] by blast
  have b2: "broker_adding t1 t2"
    using t2 t1(3,4) ok more_broker [of t2 s] by (auto simp: broker_adding_def pend_ok_def) fastforce
  obtain t3 where t3: "foldR (broker1_latency F ?e ?m) (bi_Broker1Txs b) t2 = Inr t3" "broker_adding t1 t3"
    using foldR_total [of "broker_adding t1" t2 "bi_Broker1Txs b" "broker1_latency F ?e ?m"] broker1_total [OF _ e le] b2 by blast
  obtain t4 where t4: "foldR (broker2_latency F ?e ?m) (bi_Broker2Txs b) t3 = Inr t4" "broker_adding t1 t4"
    using foldR_total [of "broker_adding t1" t3 "bi_Broker2Txs b" "broker2_latency F ?e ?m"] broker2_total [OF _ e le] t3(2) by blast
  have "latency_ok t4 \<and> pend_ok (et_epochID t4) (tb_pendingBroker2Txs t4) \<and> (\<forall>k. table_num k t4 = table_num k t1)"
    using t4(2) by (simp add: broker_adding_def adding_def same_table_def)
  then show "\<exists>s'. TCL_Broker_Update F b s = Inr s' \<and> (latency_ok s' \<and> pend_ok (et_epochID s') (tb_pendingBroker2Txs s')) \<and>
    (\<forall>k e. table_num k s' e = table_num k s e + (if bi_BlockBodyLength b \<noteq> 0 \<and> bi_Epoch b = int e then weight bi_Broker1Txs bi_Broker2Txs k b else 0))"
    using ok t1(1,5) t2(1) t3(1) t4(1) by (simp add: TCL_Broker_Update_def Let_def)
qed

section \<open>What is counted\<close>

text \<open>The reports with transactions of an epoch, and what a module has counted of them.\<close>

definition reported_in :: "nat \<Rightarrow> BlockInfoMsg list \<Rightarrow> BlockInfoMsg list" where
  "reported_in e bs = filter (\<lambda>b. bi_BlockBodyLength b \<noteq> 0 \<and> bi_Epoch b = int e) bs"

definition tallies :: "txs_of \<Rightarrow> txs_of \<Rightarrow> BlockInfoMsg list \<Rightarrow> ('f, 'z) epoch_table_scheme \<Rightarrow> bool" where
  "tallies x1 x2 bs t \<longleftrightarrow> (\<forall>e.
     count_at (et_normalTxNum t) e = (\<Sum>b\<leftarrow>reported_in e bs. int (length (bi_InnerShardTxs b))) \<and>
     count_at (et_cross1TxNum t) e = (\<Sum>b\<leftarrow>reported_in e bs. int (length (x1 b))) \<and>
     count_at (et_cross2TxNum t) e = (\<Sum>b\<leftarrow>reported_in e bs. int (length (x2 b))))"

lemma talliesI:
  assumes "\<And>k e. table_num k t e = (\<Sum>b\<leftarrow>filter (\<lambda>b. bi_BlockBodyLength b \<noteq> 0 \<and> bi_Epoch b = int e) bs. weight x1 x2 k b)"
  shows "tallies x1 x2 bs t"
  using assms [of 0] assms [of 1] assms [of 2] by (simp add: tallies_def reported_in_def table_num_def weight_def)

lemma new_ok [simp]:
  "table_ok NewTestTxNumCount" "table_num k NewTestTxNumCount e = 0"
  "table_ok NewTestCrossTxRate" "table_num k NewTestCrossTxRate e = 0"
  "table_ok NewTestModule_avgTPS" "table_num k NewTestModule_avgTPS e = 0"
  "latency_ok NewTestModule_TCL_Relay" "table_num k NewTestModule_TCL_Relay e = 0"
  "latency_ok NewTestModule_TCL_Broker" "table_num k NewTestModule_TCL_Broker e = 0"
  by (simp_all add: table_ok_def latency_ok_def table_num_def count_at_def NewTestTxNumCount_def NewTestCrossTxRate_def
      NewTestModule_avgTPS_def NewTestModule_TCL_Relay_def NewTestModule_TCL_Broker_def)

lemma TxNumCount_tallies:
  assumes "\<forall>b \<in> set bs. 0 \<le> bi_Epoch b"
  shows "\<exists>t. foldR (TxNumCount_Update F inc x1 x2) bs NewTestTxNumCount = Inr t \<and> tallies x1 x2 bs t"
  using txnum.run_counts [OF new_ok(1) assms, of F inc x1 x2] by (fastforce intro: talliesI)

lemma CrossTxRate_tallies:
  assumes "\<forall>b \<in> set bs. 0 \<le> bi_Epoch b"
  shows "\<exists>t. foldR (CrossTxRate_Update F inc x1 x2) bs NewTestCrossTxRate = Inr t \<and> tallies x1 x2 bs t"
  using ctxrate.run_counts [of NewTestCrossTxRate bs F inc x1 x2] assms
  by (fastforce intro: talliesI simp: NewTestCrossTxRate_def [THEN arg_cong, of cr_totCrossTxNum] NewTestCrossTxRate_def [THEN arg_cong, of et_epochID])

lemma avgTPS_tallies:
  assumes "\<forall>b \<in> set bs. 0 \<le> bi_Epoch b"
  shows "\<exists>t. foldR (avgTPS_Update F inc x1 x2) bs NewTestModule_avgTPS = Inr t \<and> tallies x1 x2 bs t"
  using tps.run_counts [of NewTestModule_avgTPS bs F inc x1 x2] assms
  by (fastforce intro: talliesI simp: NewTestModule_avgTPS_def [THEN arg_cong, of tp_startTime] NewTestModule_avgTPS_def [THEN arg_cong, of tp_endTime] NewTestModule_avgTPS_def [THEN arg_cong, of et_epochID])

lemma TCL_tallies:
  assumes "\<forall>b \<in> set bs. 0 \<le> bi_Epoch b"
  shows "\<exists>t. foldR (TCL_Relay_Update F) bs NewTestModule_TCL_Relay = Inr t \<and> tallies bi_Relay1Txs bi_Relay2Txs bs t"
    and "\<exists>t. foldR (TCL_Broker_Update F) bs NewTestModule_TCL_Broker = Inr t \<and> tallies bi_Broker1Txs bi_Broker2Txs bs t"
proof -
  show "\<exists>t. foldR (TCL_Relay_Update F) bs NewTestModule_TCL_Relay = Inr t \<and> tallies bi_Relay1Txs bi_Relay2Txs bs t"
    using tcl_relay.run_counts [OF new_ok(7) assms, of F] by (fastforce intro: talliesI)
  have "pend_ok (et_epochID NewTestModule_TCL_Broker) (tb_pendingBroker2Txs NewTestModule_TCL_Broker)"
    by (simp add: pend_ok_def NewTestModule_TCL_Broker_def)
  then show "\<exists>t. foldR (TCL_Broker_Update F) bs NewTestModule_TCL_Broker = Inr t \<and> tallies bi_Broker1Txs bi_Broker2Txs bs t"
    using tcl_broker.run_counts [OF _ assms, of NewTestModule_TCL_Broker F] by (fastforce intro: talliesI)
qed

text \<open>
  (C37) Whatever reports with non-negative epochs the shards send, none of the eight counting
  modules panics, and for every epoch the inner-shard and the two cross-shard columns of its table
  are the numbers of such transactions in the non-empty blocks reported for that epoch, in
  whatever order the epochs arrive.
\<close>

theorem reports_are_tallied:
  assumes "\<forall>b \<in> set bs. 0 \<le> bi_Epoch b"
  shows "(\<exists>t. foldR (TxNumCount_Relay_Update F) bs NewTestTxNumCount = Inr t \<and> tallies bi_Relay1Txs bi_Relay2Txs bs t) \<and>
    (\<exists>t. foldR (TxNumCount_Broker_Update F) bs NewTestTxNumCount = Inr t \<and> tallies bi_Broker1Txs bi_Broker2Txs bs t) \<and>
    (\<exists>t. foldR (CrossTxRate_Relay_Update F) bs NewTestCrossTxRate = Inr t \<and> tallies bi_Relay1Txs bi_Relay2Txs bs t) \<and>
    (\<exists>t. foldR (CrossTxRate_Broker_Update F) bs NewTestCrossTxRate = Inr t \<and> tallies bi_Broker1Txs bi_Broker2Txs bs t) \<and>
    (\<exists>t. foldR (avgTPS_Relay_Update F) bs NewTestModule_avgTPS = Inr t \<and> tallies bi_Relay1Txs bi_Relay2Txs bs t) \<and>
    (\<exists>t. foldR (avgTPS_Broker_Update F) bs NewTestModule_avgTPS = Inr t \<and> tallies bi_Broker1Txs bi_Broker2Txs bs t) \<and>
    (\<exists>t. foldR (TCL_Relay_Update F) bs NewTestModule_TCL_Relay = Inr t \<and> tallies bi_Relay1Txs bi_Relay2Txs bs t) \<and>
    (\<exists>t. foldR (TCL_Broker_Update F) bs NewTestModule_TCL_Broker = Inr t \<and> tallies bi_Broker1Txs bi_Broker2Txs bs t)"
  unfolding TxNumCount_Relay_Update_def TxNumCount_Broker_Update_def CrossTxRate_Relay_Update_def
    CrossTxRate_Broker_Update_def avgTPS_Relay_Update_def avgTPS_Broker_Update_def
  by (intro conjI TxNumCount_tallies CrossTxRate_tallies avgTPS_tallies TCL_tallies assms)

definition demo_report :: "int \<Rightarrow> Transaction list \<Rightarrow> Transaction list \<Rightarrow> BlockInfoMsg" where
  "demo_report e ins b1 = \<lparr>bi_BlockBodyLength = length ins + length b1, bi_InnerShardTxs = ins, bi_Epoch = e, bi_ProposeTime = 1,
     bi_CommitTime = 2, bi_SenderShardID = 0, bi_Relay1Txs = [], bi_Relay2Txs = [], bi_Broker1Txs = b1,
     bi_Broker2Txs = [], bi_Bridge1Txs = [], bi_Bridge2Txs = [], bi_BridgeForwardTxs = [], bi_JointSig = []\<rparr>"

theorem reports_are_tallied_witness:
  "\<exists>t. foldR (TxNumCount_Broker_Update demo_F)
     [demo_report 1 [] [demo_tx ''a'' ''b'' 1], demo_report 0 [demo_tx ''a'' ''b'' 1, demo_tx ''a'' ''c'' 1] []]
     NewTestTxNumCount = Inr t \<and> count_at (et_normalTxNum t) 0 = 2 \<and> count_at (et_cross1TxNum t) 1 = 1"
proof -
  let ?bs = "[demo_report 1 [] [demo_tx ''a'' ''b'' 1], demo_report 0 [demo_tx ''a'' ''b'' 1, demo_tx ''a'' ''c'' 1] []]"
  have "\<forall>b \<in> set ?bs. 0 \<le> bi_Epoch b" by (simp add: demo_report_def)
  from reports_are_tallied [OF this, of demo_F] obtain t
    where t: "foldR (TxNumCount_Broker_Update demo_F) ?bs NewTestTxNumCount = Inr t" "tallies bi_Broker1Txs bi_Broker2Txs ?bs t"
    by blast
  moreover have "count_at (et_normalTxNum t) 0 = 2 \<and> count_at (et_cross1TxNum t) 1 = 1"
    using spec [OF t(2) [unfolded tallies_def], of 0] spec [OF t(2) [unfolded tallies_def], of 1]
    by (simp add: reported_in_def demo_report_def)
  ultimately show ?thesis by blast
qed

section \<open>Late first halves\<close>

text \<open>
  The latency of a transfer through a broker does not depend on which of its two halves is
  reported first: when the second half is reported before the first, it waits, and once the first
  half is reported the whole state of the module (sums, maps, and no entry left waiting) is the
  one of the other order.
\<close>

theorem broker_latency_any_order:
  assumes "latency_ok t" and "0 \<le> e1" "e1 \<le> et_epochID t" and "0 \<le> e2" "e2 \<le> et_epochID t"
    and "tx_RawTxHash tx1 = h" and "tx_RawTxHash tx2 = h"
    and "tb_brokerTxMap t h = None" and "tb_pendingBroker2Txs t h = None"
  shows "bindR (broker2_latency F e2 m2 tx2 t) (broker1_latency F e1 m1 tx1) =
      bindR (broker1_latency F e1 m1 tx1 t) (broker2_latency F e2 m2 tx2) \<and>
    (\<exists>t'. bindR (broker1_latency F e1 m1 tx1 t) (broker2_latency F e2 m2 tx2) = Inr t' \<and>
       tl_ctxCommitLatency t' = (tl_ctxCommitLatency t)[nat e2 := tl_ctxCommitLatency t ! nat e2 + Milliseconds (time_Sub m2 (tx_Time tx1))] \<and>
       tb_pendingBroker2Txs t' h = None)"
proof -
  note r1 = epoch_in_range [OF adding_refl [OF assms(1)] assms(2,3)]
  note r2 = epoch_in_range [OF adding_refl [OF assms(1)] assms(4,5)]
  have p: "(tb_pendingBroker2Txs t)(h := None) = tb_pendingBroker2Txs t" using assms(9) by auto
  show ?thesis using assms r1 r2 p
    by (simp add: broker1_latency_def broker2_latency_def Let_def pending_latency_def add_seconds_def add_cross1_def
        add_cross2_def add_ctx_def get_at_ok set_at_ok add_at_ok fun_upd_same del: fun_upd_apply)
qed

end
