(* ===== verification/Network.thy ===== *)
theory Network
  imports Params "HOL-Library.AList"
begin

text \<open>
  The network layer (\<open>networks/p2pNetwork.go\<close>, \<open>upload_limit.go\<close>, \<open>download_limit.go\<close>): a pool with
  one connection for each address, attempts to send that are repeated, writes that wait for a rate
  limiter, and the reading of messages line by line at the other end.

  \<^item> The limiter (\<open>golang.org/x/time/rate\<close>) is a parameter with the documented laws \<open>limiter_laws\<close>.
  \<^item> Whether a system call succeeds depends on the network: it is a function of the number of calls
    made before. A connection is an entry of the list of all connections ever made, with the bytes
    written to it; the pool holds indexes of that list.
  \<^item> \<open>connMaplock\<close> is held during an attempt, so an attempt is one step. \<open>None\<close> is a call that does
    not return.
\<close>

section \<open>Rate limits\<close>

record 'l limiter_ops =
  li_NewLimiter :: "int \<Rightarrow> int \<Rightarrow> 'l"
  li_Burst :: "'l \<Rightarrow> int"
  li_WaitN :: "int \<Rightarrow> 'l \<Rightarrow> bool \<times> 'l"  \<comment> \<open>whether the error is nil\<close>

definition limiter_laws :: "'l limiter_ops \<Rightarrow> bool" where
  "limiter_laws L \<longleftrightarrow> (\<forall>r b. li_Burst L (li_NewLimiter L r b) = b) \<and>
     (\<forall>n l. li_Burst L (snd (li_WaitN L n l)) = li_Burst L l \<and> (fst (li_WaitN L n l) \<longleftrightarrow> n \<le> li_Burst L l))"

definition InitNetworkTools :: "'l limiter_ops \<Rightarrow> params \<Rightarrow> params \<times> 'l \<times> 'l" where
  "InitNetworkTools L P =
     (let P1 = (if Delay P < 0 then P\<lparr>Delay := 0\<rparr> else P);
          P2 = (if JitterRange P1 < 0 then P1\<lparr>JitterRange := 0\<rparr> else P1);
          P3 = (if Bandwidth P2 < 0 then P2\<lparr>Bandwidth := 0x7fffffff\<rparr> else P2)
      in (P3, li_NewLimiter L (Bandwidth P3) (Bandwidth P3), li_NewLimiter L (Bandwidth P3) (Bandwidth P3)))"

text \<open>The waiting loops of \<open>Write\<close> and \<open>Read\<close>; the latter waits for all that is left each time.\<close>

partial_function (option) upload_wait :: "'l limiter_ops \<Rightarrow> int \<Rightarrow> 'l \<Rightarrow> (bool \<times> 'l) option" where
  "upload_wait L n l =
     (if n > 0
      then let writeByteNum = (if li_Burst L l > n then n else li_Burst L l);
               r = li_WaitN L writeByteNum l
           in if fst r then upload_wait L (n - writeByteNum) (snd r) else Some (False, snd r)
      else Some (True, l))"

partial_function (option) download_wait :: "'l limiter_ops \<Rightarrow> int \<Rightarrow> 'l \<Rightarrow> (bool \<times> 'l) option" where
  "download_wait L n l =
     (if n > 0
      then let writeByteNum = (if li_Burst L l > n then n else li_Burst L l);
               r = li_WaitN L n l
           in if fst r then download_wait L (n - writeByteNum) (snd r) else Some (False, snd r)
      else Some (True, l))"

section \<open>Connections\<close>

record conn =
  cn_addr :: string
  cn_bytes :: bytes
  cn_open :: bool

record 'l net =
  nt_pool :: "(string \<times> nat) list"
  nt_conns :: "conn list"
  nt_upload :: 'l
  nt_calls :: nat

record 'l net_env =
  ne_limiter :: "'l limiter_ops"
  ne_SetKeepAlive :: "nat \<Rightarrow> bool"
  ne_Dial :: "nat \<Rightarrow> string \<Rightarrow> bool"
  ne_Write :: "nat \<Rightarrow> bytes \<Rightarrow> nat option"  \<comment> \<open>\<open>Some k\<close>: an error after \<open>k\<close> bytes\<close>

text \<open>A write that fails has written less than all bytes.\<close>

definition net_laws :: "'l net_env \<Rightarrow> bool" where
  "net_laws E \<longleftrightarrow> limiter_laws (ne_limiter E) \<and> (\<forall>t p k. ne_Write E t p = Some k \<longrightarrow> k < length p)"

definition close_conn :: "nat \<Rightarrow> 'l net \<Rightarrow> 'l net" where
  "close_conn c s = s\<lparr>nt_conns := (nt_conns s)[c := (nt_conns s ! c)\<lparr>cn_open := False\<rparr>]\<rparr>"

definition forget :: "string \<Rightarrow> 'l net \<Rightarrow> 'l net" where
  "forget addr s = s\<lparr>nt_pool := AList.delete addr (nt_pool s)\<rparr>"

definition put_bytes :: "nat \<Rightarrow> bytes \<Rightarrow> 'l net \<Rightarrow> 'l net" where
  "put_bytes c p s = s\<lparr>nt_conns := (nt_conns s)[c := (nt_conns s ! c)\<lparr>cn_bytes := cn_bytes (nt_conns s ! c) @ p\<rparr>]\<rparr>"

definition tick :: "'l net \<Rightarrow> 'l net" where
  "tick s = s\<lparr>nt_calls := Suc (nt_calls s)\<rparr>"

definition conn_Write :: "'l net_env \<Rightarrow> bytes \<Rightarrow> nat \<Rightarrow> 'l net \<Rightarrow> bool \<times> 'l net" where
  "conn_Write E p c s =
     (case ne_Write E (nt_calls s) p of
        None \<Rightarrow> (True, put_bytes c p (tick s))
      | Some k \<Rightarrow> (False, put_bytes c (take k p) (tick s)))"

definition limited_Write :: "'l net_env \<Rightarrow> bytes \<Rightarrow> nat \<Rightarrow> 'l net \<Rightarrow> (bool \<times> 'l net) option" where
  "limited_Write E p c s =
     (case upload_wait (ne_limiter E) (int (length p)) (nt_upload s) of
        None \<Rightarrow> None
      | Some (ok, l) \<Rightarrow> Some (if ok then conn_Write E p c (s\<lparr>nt_upload := l\<rparr>) else (False, s\<lparr>nt_upload := l\<rparr>)))"

definition writeToConn :: "'l net_env \<Rightarrow> bytes \<Rightarrow> nat \<Rightarrow> 'l net \<Rightarrow> (bool \<times> 'l net) option" where
  "writeToConn E connMsg conn s = limited_Write E connMsg conn s"

text \<open>\<open>DialTimeout\<close> for \<open>tcp\<close> returns a \<open>TCPConn\<close>, so the type test on a pooled connection succeeds.\<close>

definition pooled_conn :: "'l net_env \<Rightarrow> string \<Rightarrow> 'l net \<Rightarrow> nat option \<times> 'l net" where
  "pooled_conn E addr s =
     (case map_of (nt_pool s) addr of
        None \<Rightarrow> (None, s)
      | Some c \<Rightarrow> if ne_SetKeepAlive E (nt_calls s) then (Some c, tick s)
                 else (None, forget addr (close_conn c (tick s))))"

definition dial_conn :: "'l net_env \<Rightarrow> string \<Rightarrow> 'l net \<Rightarrow> nat option \<times> 'l net" where
  "dial_conn E addr s =
     (if ne_Dial E (nt_calls s) addr
      then (Some (length (nt_conns s)),
            (tick s)\<lparr>nt_conns := nt_conns s @ [\<lparr>cn_addr = addr, cn_bytes = [], cn_open = True\<rparr>],
                     nt_pool := AList.update addr (length (nt_conns s)) (nt_pool s)\<rparr>)
      else (None, tick s))"

definition tcpDialOnce :: "'l net_env \<Rightarrow> bytes \<Rightarrow> string \<Rightarrow> 'l net \<Rightarrow> (string option \<times> 'l net) option" where
  "tcpDialOnce E connMsg addr s =
     (let (pooled, s1) = pooled_conn E addr s;
          (conn, s2) = (case pooled of None \<Rightarrow> dial_conn E addr s1 | Some c \<Rightarrow> (Some c, s1))
      in case conn of
           None \<Rightarrow> Some (Some ''connect'', s2)
         | Some c \<Rightarrow>
             (case writeToConn E connMsg c s2 of
                None \<Rightarrow> None
              | Some (ok, s3) \<Rightarrow> Some (if ok then (None, s3) else (Some ''write'', forget addr (close_conn c s3)))))"

text \<open>The loop over the attempts, with the number of attempts left and the last error.\<close>

fun dial_loop :: "'l net_env \<Rightarrow> bytes \<Rightarrow> string \<Rightarrow> nat \<Rightarrow> string option \<Rightarrow> 'l net \<Rightarrow> (string option \<times> 'l net) option" where
  "dial_loop E connMsg addr 0 lastErr s = Some (lastErr, s)"
| "dial_loop E connMsg addr (Suc n) lastErr s =
     (case tcpDialOnce E connMsg addr s of
        None \<Rightarrow> None
      | Some (None, s1) \<Rightarrow> Some (None, s1)
      | Some (Some err, s1) \<Rightarrow> dial_loop E connMsg addr n (Some err) s1)"

definition newline :: "8 word" where
  "newline = 10"

text \<open>\<open>Intn\<close> panics unless its argument is positive; \<open>r\<close> is the number it draws.\<close>

definition thisDelay :: "params \<Rightarrow> int \<Rightarrow> int res" where
  "thisDelay P r =
     (if JitterRange P = 0 then Inr (Delay P)
      else if JitterRange P < 0 then Inl (LogPanic ''invalid argument to Intn'')
      else Inr (r - go_div (JitterRange P) 2 + Delay P))"

definition TcpDialSync ::
  "'l net_env \<Rightarrow> params \<Rightarrow> int \<Rightarrow> bytes \<Rightarrow> string \<Rightarrow> int \<Rightarrow> 'l net \<Rightarrow> (string option \<times> 'l net) run" where
  "TcpDialSync E P r content addr attempts s =
     (case thisDelay P r of
        Inl e \<Rightarrow> Some (Inl e)
      | Inr _ \<Rightarrow> map_option Inr
          (dial_loop E (content @ [newline]) addr (nat (if attempts < 1 then 1 else attempts)) None s))"

definition CloseAllConnInPool :: "'l net \<Rightarrow> 'l net" where
  "CloseAllConnInPool s = (fold (\<lambda>(addr, c). close_conn c) (nt_pool s) s)\<lparr>nt_pool := []\<rparr>"

section \<open>Reading\<close>

text \<open>
  The receiver of a connection (\<open>handleClientRequest\<close> of the supervisor and of a node) reads up to
  each newline and handles what it read; what comes after the last newline is never handled. Every
  accepted connection is read by a goroutine of its own: the order of the lines is that of one
  connection, and nothing is said about the order in which lines of different connections are handled.
\<close>

fun read_lines :: "bytes \<Rightarrow> bytes \<Rightarrow> bytes list" where
  "read_lines line [] = []"
| "read_lines line (b # bs) =
     (if b = newline then (line @ [b]) # read_lines [] bs else read_lines (line @ [b]) bs)"

text \<open>
  The accounting of the sending side: the complete lines among the bytes written to the connections to an
  address, one connection after the other. It is what the readers get if all bytes arrive, and it does
  not stand for an order between the readers of different connections.
\<close>

definition lines_written :: "string \<Rightarrow> 'l net \<Rightarrow> bytes list" where
  "lines_written addr s = concat (map (\<lambda>cn. if cn_addr cn = addr then read_lines [] (cn_bytes cn) else []) (nt_conns s))"

text \<open>
  \<open>ReadFromConn\<close>, which no other code calls: \<open>reads\<close> are the results of the reads, \<open>None\<close> an error.
  \<open>bytes.Buffer.ReadBytes\<close> returns what there is up to the newline, with \<open>io.EOF\<close> when there is none,
  and \<open>readMessage\<close> passes no error on.
\<close>

definition limited_Read :: "'l limiter_ops \<Rightarrow> int \<Rightarrow> bytes option \<Rightarrow> 'l \<Rightarrow> (bytes option \<times> 'l) option" where
  "limited_Read L n data l = map_option (\<lambda>(ok, l'). (if ok then data else None, l')) (download_wait L n l)"

definition readMessage :: "bytes \<Rightarrow> bytes \<times> bytes" where
  "readMessage buffer =
     (let line = takeWhile (\<lambda>b. b \<noteq> newline) buffer; rest = drop (length line) buffer
      in (line @ take 1 rest, drop 1 rest))"

partial_function (option) handle_messages :: "bytes \<Rightarrow> bytes list \<Rightarrow> (bytes \<times> bytes list) option" where
  "handle_messages buffer logged =
     (let r = readMessage buffer in handle_messages (snd r) (logged @ [fst r]))"

fun ReadFromConn :: "'l limiter_ops \<Rightarrow> bytes option list \<Rightarrow> bytes \<Rightarrow> bytes list \<Rightarrow> 'l \<Rightarrow> bytes list option" where
  "ReadFromConn L [] buffer logged l = Some logged"
| "ReadFromConn L (data # reads) buffer logged l =
     (case limited_Read L 1024 data l of
        None \<Rightarrow> None
      | Some (None, l') \<Rightarrow> Some logged
      | Some (Some p, l') \<Rightarrow>
          (case handle_messages (buffer @ p) logged of
             None \<Rightarrow> None
           | Some (buffer', logged') \<Rightarrow> ReadFromConn L reads buffer' logged' l'))"

end
