(* ===== verification/Supervisor.thy ===== *)
theory Supervisor
  imports Clpa_Broker_Runs Committee_Bridge Measure_Counts Network
begin

text \<open>
  The supervisor (\<open>supervisor/supervisor.go\<close>) and its construction (\<open>build/build.go\<close>, \<open>main.go\<close>):
  it feeds every report of a shard to the committee and to the measuring modules, and stops all
  nodes when enough empty blocks have been reported in a row and the committee has seen all
  transactions executed.

  \<^item> The committee and the modules are values of datatypes with one constructor for each type that
    implements the interface; a method of the interface is a function by cases.
  \<^item> The supervisor and its committee share one stop signal, the field \<open>co_Ss\<close> of the committee.
  \<^item> After \<open>MsgSendingControl\<close> the thread of \<open>SupervisorTxHandling\<close> waits twice: \<open>sup_phase\<close> is where
    it is, \<open>sup_tick\<close> one test of its loop condition.
\<close>

section \<open>Committees\<close>

datatype 'f comMod =
    Com_CLPA_Broker "'f CLPACommitteeMod_Broker"
  | Com_CLPA "'f CLPACommitteeModule"
  | Com_Broker BrokerCommitteeMod
  | Com_Bridge BridgeCommitteeMod
  | Com_Relay RelayCommitteeModule

record 'f sup_env =
  se_params :: params
  se_clpa :: "'f clpa_env"
  se_broker :: broker_env
  se_bridge :: bridge_env
  se_addrs :: "string list"  \<comment> \<open>the lines of the file of broker addresses\<close>

fun com_Ss :: "'f comMod \<Rightarrow> StopSignal" where
  "com_Ss (Com_CLPA_Broker c) = co_Ss c"
| "com_Ss (Com_CLPA c) = co_Ss c"
| "com_Ss (Com_Broker c) = co_Ss c"
| "com_Ss (Com_Bridge c) = co_Ss c"
| "com_Ss (Com_Relay c) = co_Ss c"

fun com_set_Ss :: "(StopSignal \<Rightarrow> StopSignal) \<Rightarrow> 'f comMod \<Rightarrow> 'f comMod" where
  "com_set_Ss f (Com_CLPA_Broker c) = Com_CLPA_Broker (c\<lparr>co_Ss := f (co_Ss c)\<rparr>)"
| "com_set_Ss f (Com_CLPA c) = Com_CLPA (c\<lparr>co_Ss := f (co_Ss c)\<rparr>)"
| "com_set_Ss f (Com_Broker c) = Com_Broker (c\<lparr>co_Ss := f (co_Ss c)\<rparr>)"
| "com_set_Ss f (Com_Bridge c) = Com_Bridge (c\<lparr>co_Ss := f (co_Ss c)\<rparr>)"
| "com_set_Ss f (Com_Relay c) = Com_Relay (c\<lparr>co_Ss := f (co_Ss c)\<rparr>)"

fun com_HandleBlockInfo :: "'f sup_env \<Rightarrow> BlockInfoMsg \<Rightarrow> 'f comMod \<Rightarrow> 'f comMod res" where
  "com_HandleBlockInfo E b (Com_CLPA_Broker c) =
     bindR (clpa_broker_HandleBlockInfo (se_broker E) b c) (\<lambda>d. Inr (Com_CLPA_Broker d))"
| "com_HandleBlockInfo E b (Com_CLPA c) = bindR (clpa_HandleBlockInfo (se_clpa E) b c) (\<lambda>d. Inr (Com_CLPA d))"
| "com_HandleBlockInfo E b (Com_Broker c) = bindR (broker_HandleBlockInfo (se_broker E) b c) (\<lambda>d. Inr (Com_Broker d))"
| "com_HandleBlockInfo E b (Com_Bridge c) = Inr (Com_Bridge (bridge_HandleBlockInfo b c))"
| "com_HandleBlockInfo E b (Com_Relay c) = Inr (Com_Relay (relay_HandleBlockInfo b c))"

fun com_HandleOtherMessage :: "'f sup_env \<Rightarrow> wire \<Rightarrow> 'f comMod \<Rightarrow> 'f comMod res" where
  "com_HandleOtherMessage E msg (Com_CLPA_Broker c) =
     bindR (clpa_broker_HandleOtherMessage (se_broker E) msg c) (\<lambda>d. Inr (Com_CLPA_Broker d))"
| "com_HandleOtherMessage E msg c = Inr c"

text \<open>\<open>None\<close> for a committee that does not implement \<open>DrainableCommitteeModule\<close>.\<close>

fun com_ExecutionDrained :: "'f comMod \<Rightarrow> bool option" where
  "com_ExecutionDrained (Com_Broker c) = Some (broker_ExecutionDrained c)"
| "com_ExecutionDrained (Com_Bridge c) = Some (bridge_ExecutionDrained c)"
| "com_ExecutionDrained (Com_Relay c) = Some (relay_ExecutionDrained c)"
| "com_ExecutionDrained _ = None"

section \<open>Measuring modules\<close>

datatype 'f measureMod =
    M_TPS_Relay "'f avgTPS"
  | M_TPS_Broker "'f avgTPS"
  | M_TCL_Relay "'f TCL_Relay"
  | M_TCL_Broker "'f TCL_Broker"
  | M_CrossTxRate_Relay "'f CrossTxRate"
  | M_CrossTxRate_Broker "'f CrossTxRate"
  | M_TxNumberCount_Relay "'f epoch_table"
  | M_TxNumberCount_Broker "'f epoch_table"
  | M_Tx_Details TestTxDetail

definition new_measureMod :: "string \<Rightarrow> 'f measureMod option" where
  "new_measureMod name =
     (if name = ''TPS_Relay'' then Some (M_TPS_Relay NewTestModule_avgTPS)
      else if name = ''TPS_Broker'' then Some (M_TPS_Broker NewTestModule_avgTPS)
      else if name = ''TCL_Relay'' then Some (M_TCL_Relay NewTestModule_TCL_Relay)
      else if name = ''TCL_Broker'' then Some (M_TCL_Broker NewTestModule_TCL_Broker)
      else if name = ''CrossTxRate_Relay'' then Some (M_CrossTxRate_Relay NewTestCrossTxRate)
      else if name = ''CrossTxRate_Broker'' then Some (M_CrossTxRate_Broker NewTestCrossTxRate)
      else if name = ''TxNumberCount_Relay'' then Some (M_TxNumberCount_Relay NewTestTxNumCount)
      else if name = ''TxNumberCount_Broker'' then Some (M_TxNumberCount_Broker NewTestTxNumCount)
      else if name = ''Tx_Details'' then Some (M_Tx_Details Map.empty)
      else None)"

fun UpdateMeasureRecord :: "'f float_ops \<Rightarrow> BlockInfoMsg \<Rightarrow> 'f measureMod \<Rightarrow> 'f measureMod res" where
  "UpdateMeasureRecord F b (M_TPS_Relay t) = bindR (avgTPS_Relay_Update F b t) (\<lambda>u. Inr (M_TPS_Relay u))"
| "UpdateMeasureRecord F b (M_TPS_Broker t) = bindR (avgTPS_Broker_Update F b t) (\<lambda>u. Inr (M_TPS_Broker u))"
| "UpdateMeasureRecord F b (M_TCL_Relay t) = bindR (TCL_Relay_Update F b t) (\<lambda>u. Inr (M_TCL_Relay u))"
| "UpdateMeasureRecord F b (M_TCL_Broker t) = bindR (TCL_Broker_Update F b t) (\<lambda>u. Inr (M_TCL_Broker u))"
| "UpdateMeasureRecord F b (M_CrossTxRate_Relay t) = bindR (CrossTxRate_Relay_Update F b t) (\<lambda>u. Inr (M_CrossTxRate_Relay u))"
| "UpdateMeasureRecord F b (M_CrossTxRate_Broker t) = bindR (CrossTxRate_Broker_Update F b t) (\<lambda>u. Inr (M_CrossTxRate_Broker u))"
| "UpdateMeasureRecord F b (M_TxNumberCount_Relay t) = bindR (TxNumCount_Relay_Update F b t) (\<lambda>u. Inr (M_TxNumberCount_Relay u))"
| "UpdateMeasureRecord F b (M_TxNumberCount_Broker t) = bindR (TxNumCount_Broker_Update F b t) (\<lambda>u. Inr (M_TxNumberCount_Broker u))"
| "UpdateMeasureRecord F b (M_Tx_Details m) = Inr (M_Tx_Details (TxDetail_Update b m))"

fun OutputMetricName :: "'f measureMod \<Rightarrow> string" where
  "OutputMetricName (M_TPS_Relay t) = ''Average_TPS''"
| "OutputMetricName (M_TPS_Broker t) = ''Average_TPS''"
| "OutputMetricName (M_TCL_Relay t) = ''Transaction_Confirm_Latency''"
| "OutputMetricName (M_TCL_Broker t) = ''Transaction_Confirm_Latency''"
| "OutputMetricName (M_CrossTxRate_Relay t) = ''CrossTransaction_ratio''"
| "OutputMetricName (M_CrossTxRate_Broker t) = ''CrossTransaction_ratio''"
| "OutputMetricName (M_TxNumberCount_Relay t) = ''Tx_number''"
| "OutputMetricName (M_TxNumberCount_Broker t) = ''Tx_number''"
| "OutputMetricName (M_Tx_Details m) = ''Tx_Details''"

fun OutputRecord :: "'f float_ops \<Rightarrow> time \<Rightarrow> 'f measureMod \<Rightarrow> 'f list \<times> 'f" where
  "OutputRecord F now (M_TPS_Relay t) = avgTPS_OutputRecord F now t"
| "OutputRecord F now (M_TPS_Broker t) = avgTPS_OutputRecord F now t"
| "OutputRecord F now (M_TCL_Relay t) = TCL_OutputRecord F t"
| "OutputRecord F now (M_TCL_Broker t) = TCL_OutputRecord F t"
| "OutputRecord F now (M_CrossTxRate_Relay t) = CrossTxRate_OutputRecord F t"
| "OutputRecord F now (M_CrossTxRate_Broker t) = CrossTxRate_OutputRecord F t"
| "OutputRecord F now (M_TxNumberCount_Relay t) = TxNumCount_OutputRecord F t"
| "OutputRecord F now (M_TxNumberCount_Broker t) = TxNumCount_OutputRecord F t"
| "OutputRecord F now (M_Tx_Details m) = ([], fl_int F 0)"

section \<open>The supervisor\<close>

record 'f Supervisor =
  su_IPaddr :: string
  su_ChainConfig :: ChainConfig
  su_Ip_nodeTable :: ip_table
  su_listenStop :: bool
  su_comMod :: "'f comMod"
  su_testMeasureMods :: "'f measureMod list"
  su_out :: "(string \<times> wire) list"  \<comment> \<open>messages of the supervisor itself\<close>
  su_closed :: bool  \<comment> \<open>whether \<open>CloseSupervisor\<close> has closed the listener\<close>

definition new_comMod :: "'f sup_env \<Rightarrow> ip_table \<Rightarrow> StopSignal \<Rightarrow> string \<Rightarrow> 'f comMod run" where
  "new_comMod E tbl Ss committeeMethod =
     (let dataNum = TotalDataSize (se_params E); batchNum = TxBatchSize (se_params E); freq = ReconfigTimeGap (se_params E) in
      if committeeMethod = ''CLPA_Broker''
      then bindO (ret (NewCLPACommitteeMod_Broker (se_clpa E) (se_addrs E) tbl Ss dataNum batchNum freq)) (\<lambda>c. Some (Inr (Com_CLPA_Broker c)))
      else if committeeMethod = ''CLPA''
      then bindO (ret (NewCLPACommitteeModule (se_clpa E) tbl Ss dataNum batchNum freq)) (\<lambda>c. Some (Inr (Com_CLPA c)))
      else if committeeMethod = ''Broker''
      then Some (Inr (Com_Broker (NewBrokerCommitteeMod (se_params E) (se_addrs E) tbl Ss dataNum batchNum)))
      else if committeeMethod = ''Bridge''
      then bindO (NewBridgeCommitteeMod (se_bridge E) tbl Ss dataNum batchNum) (\<lambda>c. Some (Inr (Com_Bridge c)))
      else Some (Inr (Com_Relay (NewRelayCommitteeModule tbl Ss dataNum batchNum))))"

definition NewSupervisor ::
  "'f sup_env \<Rightarrow> ip_table \<Rightarrow> string \<Rightarrow> ChainConfig \<Rightarrow> string \<Rightarrow> string list \<Rightarrow> 'f Supervisor run" where
  "NewSupervisor E tbl ip pcc committeeMethod measureModNames =
     bindO (new_comMod E tbl (NewStopSignal (sint (3 * cc_ShardNums pcc))) committeeMethod) (\<lambda>c.
       Some (Inr \<lparr>su_IPaddr = ip, su_ChainConfig = pcc, su_Ip_nodeTable = tbl, su_listenStop = False, su_comMod = c,
                  su_testMeasureMods = List.map_filter new_measureMod measureModNames, su_out = [], su_closed = False\<rparr>))"

fun update_modules :: "'f float_ops \<Rightarrow> BlockInfoMsg \<Rightarrow> 'f measureMod list \<Rightarrow> 'f measureMod list res" where
  "update_modules F b [] = Inr []"
| "update_modules F b (m # ms) =
     bindR (UpdateMeasureRecord F b m) (\<lambda>m'. bindR (update_modules F b ms) (\<lambda>ms'. Inr (m' # ms')))"

definition handleBlockInfos :: "'f sup_env \<Rightarrow> BlockInfoMsg \<Rightarrow> 'f Supervisor \<Rightarrow> 'f Supervisor res" where
  "handleBlockInfos E bim d =
     bindR (com_HandleBlockInfo E bim
              (com_set_Ss (if bi_BlockBodyLength bim = 0 then StopGap_Inc else StopGap_Reset) (su_comMod d))) (\<lambda>c.
     bindR (update_modules (ce_F (se_clpa E)) bim (su_testMeasureMods d)) (\<lambda>ms.
       Inr (d\<lparr>su_comMod := c, su_testMeasureMods := ms\<rparr>)))"

text \<open>No measuring module does anything with another message.\<close>

definition sup_handleMessage :: "'f sup_env \<Rightarrow> wire \<Rightarrow> 'f Supervisor \<Rightarrow> 'f Supervisor res" where
  "sup_handleMessage E msg d =
     (case msg of
        WBlockInfo bim \<Rightarrow> handleBlockInfos E bim d
      | _ \<Rightarrow> bindR (com_HandleOtherMessage E msg (su_comMod d)) (\<lambda>c. Inr (d\<lparr>su_comMod := c\<rparr>)))"

definition u64_below :: "u64 \<Rightarrow> u64 list" where
  "u64_below n = map of_nat [0..<unat n]"

definition send_stop :: "'f Supervisor \<Rightarrow> 'f Supervisor" where
  "send_stop d =
     d\<lparr>su_out := su_out d @ concat (map (\<lambda>sid. map (\<lambda>nid. (ip_at (su_Ip_nodeTable d) sid nid, WStop))
                    (u64_below (cc_Nodes_perShard (su_ChainConfig d)))) (u64_below (cc_ShardNums (su_ChainConfig d))))\<rparr>"

definition CloseSupervisor :: "'f float_ops \<Rightarrow> time \<Rightarrow> 'f Supervisor \<Rightarrow> (string \<times> 'f list \<times> 'f) list \<times> 'f Supervisor" where
  "CloseSupervisor F now d =
     (map (\<lambda>m. (OutputMetricName m, OutputRecord F now m)) (su_testMeasureMods d), d\<lparr>su_closed := True\<rparr>)"

datatype sup_phase = WaitGap | WaitDrain | Stopped

definition sup_tick :: "'f float_ops \<Rightarrow> time \<Rightarrow> sup_phase \<Rightarrow> 'f Supervisor \<Rightarrow> sup_phase \<times> 'f Supervisor" where
  "sup_tick F now ph d =
     (case ph of
        WaitGap \<Rightarrow> (if GapEnough (com_Ss (su_comMod d)) then WaitDrain else WaitGap, d)
      | WaitDrain \<Rightarrow>
          if com_ExecutionDrained (su_comMod d) = Some False then (WaitDrain, d)
          else (Stopped, snd (CloseSupervisor F now ((send_stop d)\<lparr>su_listenStop := True\<rparr>)))
      | Stopped \<Rightarrow> (Stopped, d))"

section \<open>Start-up\<close>

text \<open>
  The table of addresses is the list of its entries; the one of the supervisor is among them.
  Reading the file is outside.
\<close>

type_synonym ip_map = "(u64 \<times> (u64 \<times> string) list) list"

definition ip_entry :: "ip_map \<Rightarrow> u64 \<Rightarrow> (u64 \<times> string) list" where
  "ip_entry ipMap sid = (case map_of ipMap sid of None \<Rightarrow> [] | Some t \<Rightarrow> t)"

definition initConfig :: "'l limiter_ops \<Rightarrow> params \<Rightarrow> ip_map \<Rightarrow> u64 \<Rightarrow> u64 \<Rightarrow> u64 \<Rightarrow> u64 \<Rightarrow> (params \<times> ChainConfig) res" where
  "initConfig L P ipMap nid nnm sid snm =
     (if int (length ipMap) - 1 < sint snm then Inl (LogPanic ''shards in ipTable'')
      else if \<exists>shardID \<in> set [0..<length ipMap - 1]. int (length (ip_entry ipMap (of_nat shardID))) < sint nnm
      then Inl (LogPanic ''nodes in ipTable'')
      else let P1 = P\<lparr>SupervisorAddr := ip_at (ip_entry ipMap) SupervisorShard 0, NodesInShard := sint nnm, ShardNum := sint snm\<rparr>;
                (P2, down, up) = InitNetworkTools L P1
           in Inr (P2, \<lparr>cc_ChainID = sid, cc_NodeID = nid, cc_ShardID = sid, cc_Nodes_perShard = of_int (NodesInShard P2),
                cc_ShardNums = snm, cc_BlockSize = of_int (MaxBlockSize_global P2), cc_BlockInterval = of_int (Block_Interval P2),
                cc_InjectSpeed = of_int (InjectSpeed P2), cc_MaxRelayBlockSize = 0\<rparr>))"

definition MeasureBrokerMod :: "string list" where
  "MeasureBrokerMod = [''TPS_Broker'', ''TCL_Broker'', ''CrossTxRate_Broker'', ''TxNumberCount_Broker'']"

definition MeasureRelayMod :: "string list" where
  "MeasureRelayMod = [''TPS_Relay'', ''TCL_Relay'', ''CrossTxRate_Relay'', ''TxNumberCount_Relay'']"

definition measure_names :: "int \<Rightarrow> string list" where
  "measure_names methodID = (if methodID = 0 \<or> methodID = 2 \<or> methodID = 4 then MeasureBrokerMod else MeasureRelayMod) @ [''Tx_Details'']"

text \<open>
  The environment is that of the parameters which \<open>initConfig\<close> has set. Go does not fix whether the
  address is read before or after that call in the argument list; here it is read after it.
\<close>

definition BuildSupervisor :: "'l limiter_ops \<Rightarrow> (params \<Rightarrow> 'f sup_env) \<Rightarrow> params \<Rightarrow> ip_map \<Rightarrow> u64 \<Rightarrow> u64 \<Rightarrow> 'f Supervisor run" where
  "BuildSupervisor L env P ipMap nnm snm =
     bindO (ret (initConfig L P ipMap 123 nnm 123 snm)) (\<lambda>(P1, pcc).
       if ConsensusMethod P < 0 \<or> int (length CommitteeMethod) \<le> ConsensusMethod P then Some (Inl IndexOutOfRange)
       else NewSupervisor (env P1) (ip_entry ipMap) (SupervisorAddr P1) pcc (CommitteeMethod ! nat (ConsensusMethod P1))
              (measure_names (ConsensusMethod P1)))"

datatype role = RoleSupervisor u64 u64 | RoleNode u64 u64 u64 u64

text \<open>The checks of \<open>main\<close> on the command line.\<close>

definition main_role :: "params \<Rightarrow> bool \<Rightarrow> int \<Rightarrow> int \<Rightarrow> int \<Rightarrow> int \<Rightarrow> role res" where
  "main_role P isSupervisor shardNum nodeNum shardID nodeID =
     (if ConsensusMethod P < 0 \<or> ConsensusMethod P \<ge> int (length CommitteeMethod) then Inl (LogPanic ''Wrong ConsensusMethod'')
      else if isSupervisor then Inr (RoleSupervisor (of_int nodeNum) (of_int shardNum))
      else if shardID \<ge> shardNum \<or> shardID < 0 then Inl (LogPanic ''Wrong ShardID'')
      else if nodeID \<ge> nodeNum \<or> nodeID < 0 then Inl (LogPanic ''Wrong NodeID'')
      else Inr (RoleNode (of_int nodeID) (of_int nodeNum) (of_int shardID) (of_int shardNum)))"

end
