(* ===== verification/Supervisor_Stop.thy ===== *)
theory Supervisor_Stop
  imports Supervisor Bridge_Routes
begin

text \<open>
  The end of a run: the supervisor stops the nodes only after enough empty blocks in a row and with
  an executed workload, sends each node one stop message, and does stop when both hold.
\<close>

section \<open>The stop signal during reports\<close>

definition keeps_Ss :: "('z BrokerCore_scheme) broker_hooks \<Rightarrow> bool" where
  "keeps_Ss ops \<longleftrightarrow> (\<forall>c. co_Ss (bo_tx1 ops c) = co_Ss c \<and> co_Ss (bo_tx2 ops c) = co_Ss c)"

lemma Ss_appended [simp]: "co_Ss (appended os c) = co_Ss c"
  by (simp add: appended_def)

lemma Ss_sending: "broker_txSending ops E txs c = Inr c' \<Longrightarrow> co_Ss c' = co_Ss c"
  unfolding broker_txSending_def by (drule send_loop_appends) auto

lemma Ss_type2: "co_Ss (snd (type2_loop E i ms c)) = co_Ss c"
  by (induction ms arbitrary: i c) (simp_all add: Let_def case_prod_beta)

lemma Ss_record [simp]: "co_Ss (record_broker_tx raw h c) = co_Ss c"
  by (simp add: record_broker_tx_def)

lemma Ss_confirm1:
  "keeps_Ss ops \<Longrightarrow> confirm1_loop ops E ms c = Inr (t2s, c') \<Longrightarrow> co_Ss c' = co_Ss c"
proof (induction ms arbitrary: c t2s)
  case (Cons m ms)
  show ?case
  proof (cases "bk_BrokerRawMegs (bc_broker c) (be_digest E (c1_RawMeg m))")
    case None
    then show ?thesis using Cons by simp
  next
    case (Some r)
    let ?c1 = "bo_tx1 ops (record_broker_tx (tx_TxHash (rm_Tx (c1_RawMeg m))) (c1_Tx1Hash m) c)"
    obtain ts where "confirm1_loop ops E ms ?c1 = Inr (ts, c')"
      using Cons.prems(2) Some by (auto simp: Let_def bindR_Inr_iff)
    from Cons.IH [OF Cons.prems(1) this] show ?thesis using Cons.prems(1) by (simp add: keeps_Ss_def)
  qed
qed simp

lemma Ss_confirm2: "keeps_Ss ops \<Longrightarrow> co_Ss (handleTx2ConfirmMag ops ms c) = co_Ss c"
  unfolding handleTx2ConfirmMag_def
  by (induction ms arbitrary: c) (simp_all add: confirm2_def Let_def keeps_Ss_def)

lemma Ss_createConfirm:
  assumes "keeps_Ss ops" and "createConfirm ops E txs c = Inr c'"
  shows "co_Ss c' = co_Ss c"
proof -
  let ?ms = "List.map_filter (\<lambda>tx. bc_brokerConfirm1Pool c (tx_TxHash tx)) txs"
  obtain c1 where c1: "(if ?ms \<noteq> [] then handleTx1ConfirmMag ops E ?ms c else Inr c) = Inr c1" "co_Ss c' = co_Ss c1"
    using assms by (auto simp: createConfirm_def Let_def bindR_Inr_iff Ss_confirm2 split: if_splits)
  have "co_Ss c1 = co_Ss c"
  proof (cases "?ms = []")
    case False
    then obtain t2s c2 where l: "confirm1_loop ops E ?ms c = Inr (t2s, c2)" "handleBrokerType2Mes ops E t2s c2 = Inr c1"
      using c1(1) by (auto simp: handleTx1ConfirmMag_def bindR_Inr_iff)
    then have "co_Ss c1 = co_Ss (snd (type2_loop E 0 t2s c2))"
      using Ss_sending by (auto simp: handleBrokerType2Mes_def case_prod_beta)
    then show ?thesis using Ss_confirm1 [OF assms(1) l(1)] by (simp add: Ss_type2)
  qed (use c1(1) in simp)
  then show ?thesis using c1(2) by simp
qed

lemma keeps_Ss_mods: "keeps_Ss (broker_mod_ops P)" "keeps_Ss (clpa_broker_mod_ops P)"
  by (simp_all add: keeps_Ss_def broker_mod_ops_def clpa_broker_mod_ops_def)

lemma com_Ss_set [simp]: "com_Ss (com_set_Ss f c) = f (com_Ss c)"
  by (cases c) simp_all

lemma com_Ss_handle: "com_HandleBlockInfo E b c = Inr c' \<Longrightarrow> com_Ss c' = com_Ss c"
proof (cases c)
  case (Com_CLPA_Broker k)
  assume "com_HandleBlockInfo E b c = Inr c'"
  then show ?thesis using Com_CLPA_Broker
    by (auto simp: clpa_broker_HandleBlockInfo_def Let_def bindR_Inr_iff
      dest!: Ss_createConfirm [OF keeps_Ss_mods(2)] split: if_splits)
next
  case (Com_Broker k)
  assume "com_HandleBlockInfo E b c = Inr c'"
  then show ?thesis using Com_Broker
    by (auto simp: broker_HandleBlockInfo_def bindR_Inr_iff dest!: Ss_createConfirm [OF keeps_Ss_mods(1)] split: if_splits)
qed (auto simp: clpa_HandleBlockInfo_def Let_def bindR_Inr_iff bridge_HandleBlockInfo_def relay_HandleBlockInfo_def split: if_splits)

lemma handleBlockInfos_Ss:
  assumes "handleBlockInfos E b d = Inr d'"
  shows "com_Ss (su_comMod d') = (if bi_BlockBodyLength b = 0 then StopGap_Inc else StopGap_Reset) (com_Ss (su_comMod d))"
    and "su_out d' = su_out d" "su_ChainConfig d' = su_ChainConfig d" "su_Ip_nodeTable d' = su_Ip_nodeTable d"
  using assms by (auto simp: handleBlockInfos_def bindR_Inr_iff dest!: com_Ss_handle)

section \<open>Runs\<close>

datatype sup_event = Report BlockInfoMsg | Tick time

fun sup_step :: "'f sup_env \<Rightarrow> sup_event \<Rightarrow> sup_phase \<times> 'f Supervisor \<Rightarrow> (sup_phase \<times> 'f Supervisor) res" where
  "sup_step E (Report b) (ph, d) = bindR (handleBlockInfos E b d) (\<lambda>d'. Inr (ph, d'))"
| "sup_step E (Tick now) (ph, d) = Inr (sup_tick (ce_F (se_clpa E)) now ph d)"

definition reports_of :: "sup_event list \<Rightarrow> BlockInfoMsg list" where
  "reports_of evs = List.map_filter (\<lambda>e. case e of Report b \<Rightarrow> Some b | Tick t \<Rightarrow> None) evs"

text \<open>The number of empty blocks at the end of a list of reports.\<close>

definition trailing_empty :: "BlockInfoMsg list \<Rightarrow> nat" where
  "trailing_empty bs = length (takeWhile (\<lambda>b. bi_BlockBodyLength b = 0) (rev bs))"

lemma trailing_empty_snoc [simp]:
  "trailing_empty (bs @ [b]) = (if bi_BlockBodyLength b = 0 then trailing_empty bs + 1 else 0)"
  by (simp add: trailing_empty_def)

lemma reports_of_simps [simp]:
  "reports_of [] = []" "reports_of (xs @ ys) = reports_of xs @ reports_of ys"
  "reports_of [Report b] = [b]" "reports_of [Tick t] = []"
  by (simp_all add: reports_of_def map_filter_def)

definition stops :: "'f Supervisor \<Rightarrow> (string \<times> wire) list" where
  "stops d = concat (map (\<lambda>sid. map (\<lambda>nid. (ip_at (su_Ip_nodeTable d) sid nid, WStop))
     (u64_below (cc_Nodes_perShard (su_ChainConfig d)))) (u64_below (cc_ShardNums (su_ChainConfig d))))"

text \<open>
  What a run has done, by its phase: the signal counts the empty blocks since the last block with
  transactions; the waits were left when the signal was up and the workload executed.
\<close>

definition gap_counts :: "sup_event list \<Rightarrow> StopSignal \<Rightarrow> StopSignal \<Rightarrow> bool" where
  "gap_counts evs s s' \<longleftrightarrow> ss_stopThreshold s' = ss_stopThreshold s \<and>
     (ss_stopGap s = 0 \<longrightarrow> ss_stopGap s' = int (trailing_empty (reports_of evs)))"

definition signalled :: "sup_event list \<Rightarrow> StopSignal \<Rightarrow> bool" where
  "signalled evs s \<longleftrightarrow> (\<exists>xs t ys. evs = xs @ Tick t # ys \<and> ss_stopThreshold s \<le> int (trailing_empty (reports_of xs)))"

definition drained_at :: "'f sup_env \<Rightarrow> 'f Supervisor \<Rightarrow> sup_event list \<Rightarrow> bool" where
  "drained_at E d evs \<longleftrightarrow> (\<exists>xs t ys d1. evs = xs @ Tick t # ys \<and> foldR (sup_step E) xs (WaitGap, d) = Inr (WaitDrain, d1) \<and>
     com_ExecutionDrained (su_comMod d1) \<noteq> Some False)"

lemma run_invariant:
  assumes "foldR (sup_step E) evs (WaitGap, d) = Inr (ph, d')" and "ss_stopGap (com_Ss (su_comMod d)) = 0"
  shows "gap_counts evs (com_Ss (su_comMod d)) (com_Ss (su_comMod d')) \<and>
    su_ChainConfig d' = su_ChainConfig d \<and> su_Ip_nodeTable d' = su_Ip_nodeTable d \<and>
    su_out d' = su_out d @ (if ph = Stopped then stops d else []) \<and>
    (ph \<noteq> WaitGap \<longrightarrow> signalled evs (com_Ss (su_comMod d))) \<and> (ph = Stopped \<longrightarrow> drained_at E d evs)"
  using assms(1)
proof (induction evs arbitrary: ph d' rule: rev_induct)
  case Nil
  then show ?case using assms(2) by (simp add: gap_counts_def trailing_empty_def)
next
  case (snoc e evs)
  obtain ph1 d1 where run: "foldR (sup_step E) evs (WaitGap, d) = Inr (ph1, d1)" and st: "sup_step E e (ph1, d1) = Inr (ph, d')"
    using snoc.prems by (auto simp: foldR_append bindR_Inr_iff)
  note IH = snoc.IH [OF run]
  have sig: "signalled evs s \<Longrightarrow> signalled (evs @ [e]) s" for s
    unfolding signalled_def by (metis append.assoc append_Cons)
  have dr: "drained_at E d evs \<Longrightarrow> drained_at E d (evs @ [e])"
    unfolding drained_at_def by (metis append.assoc append_Cons)
  show ?case
  proof (cases e)
    case (Report b)
    then have h: "handleBlockInfos E b d1 = Inr d'" "ph = ph1" using st by (auto simp: bindR_Inr_iff)
    show ?thesis using IH handleBlockInfos_Ss [OF h(1)] h(2) sig dr Report
      by (auto simp: gap_counts_def StopGap_Inc_def StopGap_Reset_def)
  next
    case (Tick t)
    then have tick: "sup_tick (ce_F (se_clpa E)) t ph1 d1 = (ph, d')" using st by simp
    have now: "signalled (evs @ [Tick t]) (com_Ss (su_comMod d))" if "GapEnough (com_Ss (su_comMod d1))"
      unfolding signalled_def
      using IH that assms(2) by (intro exI [of _ evs] exI [of _ t] exI [of _ "[]"]) (simp add: GapEnough_def gap_counts_def)
    have dn: "drained_at E d (evs @ [Tick t])" if "ph1 = WaitDrain" "com_ExecutionDrained (su_comMod d1) \<noteq> Some False"
      unfolding drained_at_def using run that by blast
    show ?thesis
    proof (cases ph1)
      case WaitGap
      then show ?thesis using tick IH now Tick by (auto simp: sup_tick_def gap_counts_def split: if_splits)
    next
      case WaitDrain
      then show ?thesis using tick IH sig dn Tick
        by (auto simp: sup_tick_def gap_counts_def CloseSupervisor_def send_stop_def stops_def split: if_splits)
    next
      case Stopped
      then show ?thesis using tick IH sig dr Tick by (auto simp: sup_tick_def gap_counts_def)
    qed
  qed
qed

section \<open>Reports are handled\<close>

fun mod_ok :: "'f measureMod \<Rightarrow> bool" where
  "mod_ok (M_TPS_Relay t) \<longleftrightarrow> table_ok t \<and> length (tp_startTime t) = nat (et_epochID t + 1) \<and> length (tp_endTime t) = nat (et_epochID t + 1)"
| "mod_ok (M_TPS_Broker t) \<longleftrightarrow> table_ok t \<and> length (tp_startTime t) = nat (et_epochID t + 1) \<and> length (tp_endTime t) = nat (et_epochID t + 1)"
| "mod_ok (M_TCL_Relay t) \<longleftrightarrow> latency_ok t"
| "mod_ok (M_TCL_Broker t) \<longleftrightarrow> latency_ok t \<and> pend_ok (et_epochID t) (tb_pendingBroker2Txs t)"
| "mod_ok (M_CrossTxRate_Relay t) \<longleftrightarrow> table_ok t \<and> length (cr_totCrossTxNum t) = nat (et_epochID t + 1)"
| "mod_ok (M_CrossTxRate_Broker t) \<longleftrightarrow> table_ok t \<and> length (cr_totCrossTxNum t) = nat (et_epochID t + 1)"
| "mod_ok (M_TxNumberCount_Relay t) \<longleftrightarrow> table_ok t"
| "mod_ok (M_TxNumberCount_Broker t) \<longleftrightarrow> table_ok t"
| "mod_ok (M_Tx_Details m) \<longleftrightarrow> True"

lemma UpdateMeasureRecord_ok:
  assumes "mod_ok m" and "0 \<le> bi_Epoch b"
  shows "\<exists>m'. UpdateMeasureRecord F b m = Inr m' \<and> mod_ok m'"
proof (cases m)
  case (M_TPS_Relay t)
  then show ?thesis using tps.step [of t b F inc_two bi_Relay1Txs bi_Relay2Txs] assms by (auto simp: avgTPS_Relay_Update_def)
next
  case (M_TPS_Broker t)
  then show ?thesis using tps.step [of t b F inc_sum bi_Broker1Txs bi_Broker2Txs] assms by (auto simp: avgTPS_Broker_Update_def)
next
  case (M_TCL_Relay t)
  then show ?thesis using tcl_relay.step [of t b F] assms by auto
next
  case (M_TCL_Broker t)
  then show ?thesis using tcl_broker.step [of t b F] assms by auto
next
  case (M_CrossTxRate_Relay t)
  then show ?thesis using ctxrate.step [of t b F inc_cross_first bi_Relay1Txs bi_Relay2Txs] assms by (auto simp: CrossTxRate_Relay_Update_def)
next
  case (M_CrossTxRate_Broker t)
  then show ?thesis using ctxrate.step [of t b F inc_sum bi_Broker1Txs bi_Broker2Txs] assms by (auto simp: CrossTxRate_Broker_Update_def)
next
  case (M_TxNumberCount_Relay t)
  then show ?thesis using txnum.step [of t b F inc_sum bi_Relay1Txs bi_Relay2Txs] assms by (auto simp: TxNumCount_Relay_Update_def)
next
  case (M_TxNumberCount_Broker t)
  then show ?thesis using txnum.step [of t b F inc_split bi_Broker1Txs bi_Broker2Txs] assms by (auto simp: TxNumCount_Broker_Update_def)
qed auto

lemma update_modules_ok:
  assumes "\<forall>m \<in> set ms. mod_ok m" and "0 \<le> bi_Epoch b"
  shows "\<exists>ms'. update_modules F b ms = Inr ms' \<and> (\<forall>m \<in> set ms'. mod_ok m)"
  using assms(1)
proof (induction ms)
  case (Cons m ms)
  then show ?case using UpdateMeasureRecord_ok [OF _ assms(2), of m F] by force
qed simp

lemma new_modules_ok: "\<forall>m \<in> set (List.map_filter new_measureMod names). mod_ok m"
proof -
  have "mod_ok m" if "new_measureMod name = Some m" for name and m :: "'f measureMod"
  proof -
    have "tp_startTime (NewTestModule_avgTPS :: 'f avgTPS) = []" "tp_endTime (NewTestModule_avgTPS :: 'f avgTPS) = []"
      "et_epochID (NewTestModule_avgTPS :: 'f avgTPS) = -1" "cr_totCrossTxNum (NewTestCrossTxRate :: 'f CrossTxRate) = []"
      "et_epochID (NewTestCrossTxRate :: 'f CrossTxRate) = -1" "tb_pendingBroker2Txs (NewTestModule_TCL_Broker :: 'f TCL_Broker) = Map.empty"
      by (simp_all add: NewTestModule_avgTPS_def NewTestCrossTxRate_def NewTestModule_TCL_Broker_def)
    then show ?thesis using that by (auto simp: new_measureMod_def pend_ok_def split: if_splits)
  qed
  then show ?thesis by (auto simp: List.map_filter_def)
qed

definition executed_num :: "(BlockInfoMsg \<Rightarrow> Transaction list) \<Rightarrow> BlockInfoMsg list \<Rightarrow> int" where
  "executed_num f bs = (\<Sum>b\<leftarrow>filter (\<lambda>b. bi_BlockBodyLength b \<noteq> 0) bs. int (length (f b)))"

lemma relay_reports:
  assumes "su_comMod d = Com_Relay c" and "\<forall>m \<in> set (su_testMeasureMods d). mod_ok m" and "\<forall>b \<in> set bs. 0 \<le> bi_Epoch b"
  shows "\<exists>d' c'. foldR (handleBlockInfos E) bs d = Inr d' \<and> su_comMod d' = Com_Relay c' \<and>
    co_dataTotalNum c' = co_dataTotalNum c \<and>
    rc_normalCommitNum c' = rc_normalCommitNum c + executed_num bi_InnerShardTxs bs \<and>
    rc_relay1CommitNum c' = rc_relay1CommitNum c + executed_num bi_Relay1Txs bs \<and>
    rc_relay2CommitNum c' = rc_relay2CommitNum c + executed_num bi_Relay2Txs bs"
  using assms
proof (induction bs arbitrary: d c)
  case Nil
  then show ?case by (simp add: executed_num_def)
next
  case (Cons b bs)
  obtain ms where ms: "update_modules (ce_F (se_clpa E)) b (su_testMeasureMods d) = Inr ms" "\<forall>m \<in> set ms. mod_ok m"
    using update_modules_ok [OF Cons.prems(2), of b "ce_F (se_clpa E)"] Cons.prems(3) by auto
  let ?c = "relay_HandleBlockInfo b (c\<lparr>co_Ss := (if bi_BlockBodyLength b = 0 then StopGap_Inc else StopGap_Reset) (co_Ss c)\<rparr>)"
  let ?d = "d\<lparr>su_comMod := Com_Relay ?c, su_testMeasureMods := ms\<rparr>"
  have h: "handleBlockInfos E b d = Inr ?d" using Cons.prems(1) ms(1) by (simp add: handleBlockInfos_def)
  obtain d' c' where "foldR (handleBlockInfos E) bs ?d = Inr d'" "su_comMod d' = Com_Relay c'"
    "co_dataTotalNum c' = co_dataTotalNum ?c"
    "rc_normalCommitNum c' = rc_normalCommitNum ?c + executed_num bi_InnerShardTxs bs"
    "rc_relay1CommitNum c' = rc_relay1CommitNum ?c + executed_num bi_Relay1Txs bs"
    "rc_relay2CommitNum c' = rc_relay2CommitNum ?c + executed_num bi_Relay2Txs bs"
    using Cons.IH [of ?d ?c] ms(2) Cons.prems(3) by auto
  then show ?case using h by (auto simp: relay_HandleBlockInfo_def executed_num_def split: if_splits)
qed

lemma foldR_reports: "foldR (sup_step E) (map Report bs) (ph, d) = bindR (foldR (handleBlockInfos E) bs d) (\<lambda>d'. Inr (ph, d'))"
proof (induction bs arbitrary: d)
  case (Cons b bs)
  then show ?case by (cases "handleBlockInfos E b d") simp_all
qed simp

lemma relay_stops:
  assumes "su_comMod d = Com_Relay c" and "\<forall>m \<in> set (su_testMeasureMods d). mod_ok m" and "ss_stopGap (co_Ss c) = 0"
    and "\<forall>b \<in> set bs. 0 \<le> bi_Epoch b" and "ss_stopThreshold (co_Ss c) \<le> int (trailing_empty bs)"
    and "co_dataTotalNum c \<le> rc_normalCommitNum c + rc_relay1CommitNum c + executed_num bi_InnerShardTxs bs + executed_num bi_Relay1Txs bs"
    and "rc_relay1CommitNum c + executed_num bi_Relay1Txs bs \<le> rc_relay2CommitNum c + executed_num bi_Relay2Txs bs"
  shows "\<exists>d'. foldR (sup_step E) (map Report bs @ [Tick t1, Tick t2]) (WaitGap, d) = Inr (Stopped, d') \<and>
    su_out d' = su_out d @ stops d \<and> su_closed d'"
proof -
  obtain d1 c1 where h: "foldR (handleBlockInfos E) bs d = Inr d1" "su_comMod d1 = Com_Relay c1"
    "co_dataTotalNum c1 = co_dataTotalNum c"
    "rc_normalCommitNum c1 = rc_normalCommitNum c + executed_num bi_InnerShardTxs bs"
    "rc_relay1CommitNum c1 = rc_relay1CommitNum c + executed_num bi_Relay1Txs bs"
    "rc_relay2CommitNum c1 = rc_relay2CommitNum c + executed_num bi_Relay2Txs bs"
    using relay_reports [OF assms(1,2,4)] by blast
  have r: "foldR (sup_step E) (map Report bs) (WaitGap, d) = Inr (WaitGap, d1)" by (simp add: foldR_reports h(1))
  have rep: "reports_of (map Report bs) = bs" by (simp add: reports_of_def map_filter_def comp_def)
  have g: "GapEnough (com_Ss (su_comMod d1))"
    using run_invariant [OF r] assms(1,3,5) rep by (simp add: gap_counts_def GapEnough_def)
  have dr: "com_ExecutionDrained (su_comMod d1) = Some True" using h assms(6,7) by (simp add: relay_ExecutionDrained_def)
  let ?d = "snd (CloseSupervisor (ce_F (se_clpa E)) t2 ((send_stop d1)\<lparr>su_listenStop := True\<rparr>))"
  have run: "foldR (sup_step E) (map Report bs @ [Tick t1, Tick t2]) (WaitGap, d) = Inr (Stopped, ?d)"
    using g dr by (simp add: foldR_append r sup_tick_def)
  have "su_out ?d = su_out d @ stops d" using run_invariant [OF run] assms(1,3) by simp
  then show ?thesis using run by (simp add: CloseSupervisor_def)
qed

section \<open>Properties\<close>

text \<open>
  (C11) When the supervisor stops. In every run of reports and waiting steps that ends with the nodes
  stopped, starting with the signal reset by the last batch: at some test the last blocks reported
  were at least as many empty ones in a row as the threshold demands; at a later test the committee,
  if it can tell, saw the whole workload executed; and each node of each shard has been sent exactly
  one stop message and nothing else.
\<close>

theorem supervisor_stops_only_when_quiet:
  assumes "foldR (sup_step E) evs (WaitGap, d) = Inr (Stopped, d')" and "ss_stopGap (com_Ss (su_comMod d)) = 0"
  shows "(\<exists>xs t ys. evs = xs @ Tick t # ys \<and> ss_stopThreshold (com_Ss (su_comMod d)) \<le> int (trailing_empty (reports_of xs))) \<and>
    (\<exists>xs t ys d1. evs = xs @ Tick t # ys \<and> foldR (sup_step E) xs (WaitGap, d) = Inr (WaitDrain, d1) \<and>
       com_ExecutionDrained (su_comMod d1) \<noteq> Some False) \<and>
    su_out d' = su_out d @ stops d"
  using run_invariant [OF assms] unfolding signalled_def drained_at_def by simp

text \<open>
  (C34) That the supervisor stops. With the relay committee, whatever modules measure: once blocks
  with all transactions of the workload have been reported, with a second half for each first half,
  and as many empty blocks as the threshold demands have followed, handling these reports returns
  and the next two tests of the waiting thread stop every node.
\<close>

theorem relay_supervisor_stops:
  assumes "su_comMod d = Com_Relay c" and "\<forall>m \<in> set (su_testMeasureMods d). mod_ok m" and "ss_stopGap (co_Ss c) = 0"
    and "\<forall>b \<in> set bs. 0 \<le> bi_Epoch b" and "ss_stopThreshold (co_Ss c) \<le> int (trailing_empty bs)"
    and "co_dataTotalNum c \<le> rc_normalCommitNum c + rc_relay1CommitNum c + executed_num bi_InnerShardTxs bs + executed_num bi_Relay1Txs bs"
    and "rc_relay1CommitNum c + executed_num bi_Relay1Txs bs \<le> rc_relay2CommitNum c + executed_num bi_Relay2Txs bs"
  shows "\<exists>d'. foldR (sup_step E) (map Report bs @ [Tick t1, Tick t2]) (WaitGap, d) = Inr (Stopped, d') \<and>
    su_out d' = su_out d @ stops d \<and> su_closed d'"
  by (rule relay_stops [OF assms])

text \<open>One shard with one node, a workload of one transaction, and the reports of four blocks.\<close>

definition demo_sup :: "int Supervisor" where
  "demo_sup = \<lparr>su_IPaddr = ''s'', su_ChainConfig = (demo_config 0)\<lparr>cc_ShardNums := 1, cc_Nodes_perShard := 1\<rparr>,
     su_Ip_nodeTable = (\<lambda>sid. [(0, ''ip'')]), su_listenStop = False,
     su_comMod = Com_Relay (NewRelayCommitteeModule (\<lambda>sid. [(0, ''ip'')]) (NewStopSignal 3) 1 1),
     su_testMeasureMods = List.map_filter new_measureMod (measure_names 3), su_out = [], su_closed = False\<rparr>"

definition demo_sup_env :: "int sup_env" where
  "demo_sup_env = \<lparr>se_params = demo_sup_P, se_clpa = demo_clpa_env, se_broker = demo_clpa_broker_env,
     se_bridge = demo_bridge_env, se_addrs = []\<rparr>"

definition demo_reports :: "BlockInfoMsg list" where
  "demo_reports = [(empty_report 0)\<lparr>bi_BlockBodyLength := 1, bi_InnerShardTxs := [demo_tx ''a'' ''b'' 1]\<rparr>,
     empty_report 0, empty_report 0, empty_report 0]"

lemma demo_sup_stops:
  "su_comMod demo_sup = Com_Relay (NewRelayCommitteeModule (\<lambda>sid. [(0, ''ip'')]) (NewStopSignal 3) 1 1)"
  "\<forall>m \<in> set (su_testMeasureMods demo_sup). mod_ok m"
  "\<forall>b \<in> set demo_reports. 0 \<le> bi_Epoch b" "trailing_empty demo_reports = 3"
  "executed_num bi_InnerShardTxs demo_reports = 1" "executed_num bi_Relay1Txs demo_reports = 0"
  "executed_num bi_Relay2Txs demo_reports = 0" "su_out demo_sup @ stops demo_sup = [(''ip'', WStop)]"
  using new_modules_ok
  by (simp_all add: demo_sup_def demo_reports_def trailing_empty_def executed_num_def)
     (simp_all add: empty_report_def stops_def u64_below_def ip_at_def demo_config_def)

theorem relay_supervisor_stops_witness:
  "\<exists>d'. foldR (sup_step demo_sup_env) (map Report demo_reports @ [Tick 1, Tick 2]) (WaitGap, demo_sup) = Inr (Stopped, d') \<and>
     su_out d' = [(''ip'', WStop)]"
  using relay_supervisor_stops [OF demo_sup_stops(1,2) _ demo_sup_stops(3), of demo_sup_env 1 2] demo_sup_stops(4-8)
  by (auto simp: NewRelayCommitteeModule_def NewStopSignal_def)

theorem supervisor_stops_only_when_quiet_witness:
  "\<exists>d'. foldR (sup_step demo_sup_env) (map Report demo_reports @ [Tick 1, Tick 2]) (WaitGap, demo_sup) = Inr (Stopped, d') \<and>
     su_out d' = [(''ip'', WStop)]"
proof -
  obtain d' where r: "foldR (sup_step demo_sup_env) (map Report demo_reports @ [Tick 1, Tick 2]) (WaitGap, demo_sup) = Inr (Stopped, d')"
    using relay_stops [OF demo_sup_stops(1,2) _ demo_sup_stops(3), of demo_sup_env 1 2] demo_sup_stops(4-7)
    by (auto simp: NewRelayCommitteeModule_def NewStopSignal_def)
  have "ss_stopGap (com_Ss (su_comMod demo_sup)) = 0"
    by (simp add: demo_sup_stops(1) NewRelayCommitteeModule_def NewStopSignal_def)
  then show ?thesis using supervisor_stops_only_when_quiet [OF r] r demo_sup_stops(8) by auto
qed

end
