(* ===== verification/Network_Delivery.thy ===== *)
theory Network_Delivery
  imports Network "HOL-Library.Sublist"
begin

text \<open>
  What the network layer promises to the code that sends: for which bandwidths a write returns, and
  that over any sequence of attempts and of closings the connections to an address carry exactly the messages
  whose attempts succeeded, each once, and the reader of a connection reads them whole and in order,
  however many of the bytes arrive.
\<close>

section \<open>Waiting for the limiter\<close>

lemma upload_wait_returns:
  assumes "limiter_laws L" and "0 < li_Burst L l"
  shows "\<exists>l'. upload_wait L n l = Some (True, l') \<and> li_Burst L l' = li_Burst L l"
  using assms(2)
proof (induction "nat n" arbitrary: n l rule: less_induct)
  case less
  show ?case
  proof (cases "0 < n")
    case False
    then show ?thesis by (simp add: upload_wait.simps)
  next
    case True
    let ?w = "if li_Burst L l > n then n else li_Burst L l"
    let ?l = "snd (li_WaitN L ?w l)"
    have ok: "fst (li_WaitN L ?w l)" and b: "li_Burst L ?l = li_Burst L l"
      using assms(1) by (auto simp: limiter_laws_def)
    have "nat (n - ?w) < nat n" using True less.prems by auto
    from less.hyps [OF this, of ?l] less.prems b
    obtain l' where "upload_wait L (n - ?w) ?l = Some (True, l')" "li_Burst L l' = li_Burst L l" by auto
    then show ?thesis using True ok by (subst upload_wait.simps) (simp add: Let_def)
  qed
qed

lemma upload_wait_stuck:
  assumes "upload_wait L n l = Some r" and "limiter_laws L" and "li_Burst L l = 0"
  shows "n \<le> 0"
proof -
  have "limiter_laws L \<longrightarrow> li_Burst L l = 0 \<longrightarrow> n \<le> 0"
  proof (rule upload_wait.raw_induct [OF _ assms(1), where P = "\<lambda>L n l r. limiter_laws L \<longrightarrow> li_Burst L l = 0 \<longrightarrow> n \<le> 0"])
    fix f and L :: "'a limiter_ops" and n l r
    assume f: "\<And>L n l r. f L n l = Some r \<Longrightarrow> limiter_laws L \<longrightarrow> li_Burst L l = 0 \<longrightarrow> n \<le> 0"
      and eq: "(if 0 < n then let w = if n < li_Burst L l then n else li_Burst L l; r = li_WaitN L w l
         in if fst r then f L (n - w) (snd r) else Some (False, snd r) else Some (True, l)) = Some r"
    have "n \<le> 0" if "limiter_laws L" "li_Burst L l = 0"
    proof (rule ccontr)
      assume n: "\<not> n \<le> 0"
      have "fst (li_WaitN L 0 l)" "li_Burst L (snd (li_WaitN L 0 l)) = 0"
        using that by (simp_all add: limiter_laws_def)
      then show False using f [of L n "snd (li_WaitN L 0 l)" r] eq n that by (simp add: Let_def)
    qed
    then show "limiter_laws L \<longrightarrow> li_Burst L l = 0 \<longrightarrow> n \<le> 0" by blast
  qed
  then show ?thesis using assms(2,3) by blast
qed

lemma download_wait_returns:
  assumes "limiter_laws L" and "0 < n"
  shows "\<exists>l'. download_wait L n l = Some (n \<le> li_Burst L l, l')"
proof (cases "n \<le> li_Burst L l")
  case True
  then have "fst (li_WaitN L n l)" "(if li_Burst L l > n then n else li_Burst L l) = n"
    using assms(1) by (auto simp: limiter_laws_def)
  then show ?thesis using True assms(2) by (subst download_wait.simps) (simp add: Let_def download_wait.simps [of L 0])
next
  case False
  then have "\<not> fst (li_WaitN L n l)" using assms(1) by (simp add: limiter_laws_def)
  then show ?thesis using False assms(2) by (subst download_wait.simps) (simp add: Let_def)
qed

lemma handle_messages_stuck: "handle_messages buffer logged = None"
proof (cases "handle_messages buffer logged")
  case (Some r)
  have False by (rule handle_messages.raw_induct [OF _ Some, where P = "\<lambda>_ _ _. False"]) (auto simp: Let_def)
  then show ?thesis ..
qed

definition demo_limiter :: "int limiter_ops" where
  "demo_limiter = \<lparr>li_NewLimiter = (\<lambda>r b. b), li_Burst = (\<lambda>l. l), li_WaitN = (\<lambda>n l. (n \<le> l, l))\<rparr>"

lemma demo_limiter_laws: "limiter_laws demo_limiter"
  by (simp add: limiter_laws_def demo_limiter_def)

text \<open>
  (C15) With the limiters that \<open>InitNetworkTools\<close> makes, the write of a non-empty message returns if
  and only if the configured bandwidth is not 0, and then the limiter never refuses it; with
  bandwidth 0, the value when the configuration file gives none, the loop never ends. A read is
  refused if and only if its buffer is larger than the bandwidth, although the loop is written to
  split it.
\<close>

theorem transfers_return_iff_bandwidth:
  assumes "limiter_laws L" and "InitNetworkTools L P = (P', down, up)" and "0 < n"
  shows "(upload_wait L n up \<noteq> None \<longleftrightarrow> Bandwidth P \<noteq> 0) \<and>
    (\<forall>r. upload_wait L n up = Some r \<longrightarrow> fst r) \<and>
    (\<exists>l. download_wait L n down = Some (n \<le> Bandwidth P', l)) \<and> 0 \<le> Bandwidth P' \<and> 0 \<le> JitterRange P' \<and> 0 \<le> Delay P'"
proof -
  have P': "li_Burst L up = Bandwidth P'" "li_Burst L down = Bandwidth P'"
    "0 \<le> Bandwidth P'" "Bandwidth P' = 0 \<longleftrightarrow> Bandwidth P = 0" "0 \<le> JitterRange P'" "0 \<le> Delay P'"
    using assms(1,2) by (auto simp: InitNetworkTools_def Let_def limiter_laws_def split: if_splits)
  have "(upload_wait L n up \<noteq> None \<longleftrightarrow> Bandwidth P \<noteq> 0) \<and> (\<forall>r. upload_wait L n up = Some r \<longrightarrow> fst r)"
  proof (cases "Bandwidth P = 0")
    case True
    then have "upload_wait L n up = None"
      using upload_wait_stuck [OF _ assms(1), of n up] P'(1,4) assms(3) by (cases "upload_wait L n up") auto
    then show ?thesis using True by simp
  next
    case False
    then show ?thesis using upload_wait_returns [OF assms(1), of up n] P'(1,3,4) by auto
  qed
  then show ?thesis unfolding P'(4) [symmetric] using download_wait_returns [OF assms(1,3), of down] P'(2-) by (metis (no_types, lifting))
qed

theorem transfers_return_iff_bandwidth_witness:
  "upload_wait demo_limiter 1 0 = None \<and> upload_wait demo_limiter 5000 2 \<noteq> None"
proof -
  have "InitNetworkTools demo_limiter (defaultParams\<lparr>Bandwidth := b\<rparr>) = (defaultParams\<lparr>Bandwidth := b\<rparr>, b, b)" if "0 \<le> b" for b
    using that by (simp add: InitNetworkTools_def demo_limiter_def defaultParams_def)
  from transfers_return_iff_bandwidth [OF demo_limiter_laws this [of 0], of 1]
    transfers_return_iff_bandwidth [OF demo_limiter_laws this [of 2], of 5000]
  show ?thesis by (simp del: not_None_eq)
qed

section \<open>Lines\<close>

definition framed :: "bytes \<Rightarrow> bool" where
  "framed bs \<longleftrightarrow> bs = [] \<or> last bs = newline"

lemma framed_append: "framed xs \<Longrightarrow> framed ys \<Longrightarrow> framed (xs @ ys)"
  by (auto simp: framed_def last_append)

lemma read_lines_append:
  "xs \<noteq> [] \<Longrightarrow> last xs = newline \<Longrightarrow> read_lines line (xs @ ys) = read_lines line xs @ read_lines [] ys"
  by (induction xs arbitrary: line) (auto split: if_splits)

lemma read_lines_framed: "framed xs \<Longrightarrow> read_lines [] (xs @ ys) = read_lines [] xs @ read_lines [] ys"
  unfolding framed_def using read_lines_append [of xs "[]" ys] by (cases "xs = []") simp_all

lemma read_lines_rest: "newline \<notin> set xs \<Longrightarrow> read_lines line xs = []"
  by (induction xs arbitrary: line) auto

lemma read_lines_message: "newline \<notin> set m \<Longrightarrow> read_lines line (m @ [newline]) = [line @ m @ [newline]]"
  by (induction m arbitrary: line) auto

lemma read_lines_partial:
  assumes "newline \<notin> set m" and "k < length (m @ [newline])"
  shows "read_lines [] (take k (m @ [newline])) = []"
proof -
  have "take k (m @ [newline]) = take k m" using assms(2) by simp
  then show ?thesis using assms(1) by (auto intro!: read_lines_rest dest: in_set_takeD)
qed

section \<open>The pool\<close>

text \<open>
  The pool has exactly the open connections, each under its address, an open connection is the
  latest one to its address, and only complete messages have been written to it.
\<close>

definition pool_ok :: "(string \<rightharpoonup> nat) \<Rightarrow> conn list \<Rightarrow> bool" where
  "pool_ok m cs \<longleftrightarrow>
     (\<forall>a c. m a = Some c \<longleftrightarrow> c < length cs \<and> cn_addr (cs ! c) = a \<and> cn_open (cs ! c)) \<and>
     (\<forall>c < length cs. cn_open (cs ! c) \<longrightarrow> framed (cn_bytes (cs ! c)) \<and>
        (\<forall>d < length cs. cn_addr (cs ! d) = cn_addr (cs ! c) \<longrightarrow> d \<le> c))"

definition net_ok :: "'l net \<Rightarrow> bool" where
  "net_ok s \<longleftrightarrow> distinct (map fst (nt_pool s)) \<and> pool_ok (map_of (nt_pool s)) (nt_conns s)"

lemma pool_okD:
  assumes "pool_ok m cs" and "m a = Some c"
  shows "c < length cs" "cn_addr (cs ! c) = a" "cn_open (cs ! c)" "framed (cn_bytes (cs ! c))"
    "\<And>d. d < length cs \<Longrightarrow> cn_addr (cs ! d) = a \<Longrightarrow> d \<le> c"
  using assms by (auto simp: pool_ok_def)

lemma pool_ok_other:
  assumes "pool_ok m cs" and "d < length cs" and "cn_open (cs ! d)"
  shows "m (cn_addr (cs ! d)) = Some d"
  using assms by (auto simp: pool_ok_def)

lemma pool_ok_closed:
  assumes "pool_ok m cs" and "m a = Some c" and "cn_addr x = a" and "\<not> cn_open x"
  shows "pool_ok (m(a := None)) (cs[c := x])"
proof -
  note c = pool_okD [OF assms(1,2)]
  have upd: "cs[c := x] ! d = (if d = c then x else cs ! d)" for d using c(1) by (simp add: nth_list_update)
  have "(m(a := None)) b = Some d \<longleftrightarrow> d < length cs \<and> cn_addr (cs[c := x] ! d) = b \<and> cn_open (cs[c := x] ! d)" for b d
    unfolding upd using assms pool_ok_other [OF assms(1), of d] pool_okD [OF assms(1), of b d] c by auto
  moreover have "cn_addr (cs[c := x] ! d) = cn_addr (cs ! d)" for d
    using assms(3) c(2) by (simp add: upd)
  moreover have "cn_open (cs ! d) \<and> cn_bytes (cs[c := x] ! d) = cn_bytes (cs ! d)" if "cn_open (cs[c := x] ! d)" for d
    using that assms(4) by (auto simp: upd split: if_splits)
  ultimately show ?thesis using assms(1) unfolding pool_ok_def by simp
qed

lemma pool_ok_written:
  assumes "pool_ok m cs" and "m a = Some c" and "cn_addr x = a" and "cn_open x" and "framed (cn_bytes x)"
  shows "pool_ok m (cs[c := x])"
proof -
  note c = pool_okD [OF assms(1,2)]
  have upd: "cs[c := x] ! d = (if d = c then x else cs ! d)" for d using c(1) by (simp add: nth_list_update)
  have "cn_addr (cs[c := x] ! d) = cn_addr (cs ! d)" "cn_open (cs[c := x] ! d) = cn_open (cs ! d)" for d
    using assms(3,4) c(2,3) by (simp_all add: upd)
  then show ?thesis
    using assms(1,5) unfolding pool_ok_def by (simp add: upd)
qed

lemma pool_ok_dialed:
  assumes "pool_ok m cs" and "m a = None"
  shows "pool_ok (m(a \<mapsto> length cs)) (cs @ [\<lparr>cn_addr = a, cn_bytes = [], cn_open = True\<rparr>])"
proof -
  have no: "\<not> cn_open (cs ! d)" if "d < length cs" "cn_addr (cs ! d) = a" for d
    using pool_ok_other [OF assms(1), of d] assms(2) that by auto
  have "(m(a \<mapsto> length cs)) b = Some d \<longleftrightarrow> d < Suc (length cs) \<and>
      cn_addr ((cs @ [\<lparr>cn_addr = a, cn_bytes = [], cn_open = True\<rparr>]) ! d) = b \<and>
      cn_open ((cs @ [\<lparr>cn_addr = a, cn_bytes = [], cn_open = True\<rparr>]) ! d)" for b d
    using pool_ok_other [OF assms(1), of d] pool_okD [OF assms(1), of b d] no [of d] by (auto simp: nth_append less_Suc_eq)
  moreover have "framed (cn_bytes (cs ! d))" "e < length cs \<Longrightarrow> cn_addr (cs ! e) = cn_addr (cs ! d) \<Longrightarrow> e \<le> d"
    if "d < length cs" "cn_open (cs ! d)" for d e
    using assms(1) that by (auto simp: pool_ok_def)
  ultimately show ?thesis
    using no unfolding pool_ok_def by (auto simp: nth_append framed_def less_Suc_eq)
qed

definition lines_to :: "string \<Rightarrow> conn list \<Rightarrow> bytes list" where
  "lines_to a cs = concat (map (\<lambda>cn. if cn_addr cn = a then read_lines [] (cn_bytes cn) else []) cs)"

lemma lines_written_lines_to: "lines_written a s = lines_to a (nt_conns s)"
  by (simp add: lines_written_def lines_to_def)

lemma lines_to_append: "lines_to a (xs @ ys) = lines_to a xs @ lines_to a ys"
  by (simp add: lines_to_def)

lemma lines_to_none: "(\<And>cn. cn \<in> set cs \<Longrightarrow> cn_addr cn \<noteq> a) \<Longrightarrow> lines_to a cs = []"
  by (simp add: lines_to_def)

text \<open>Writing to the latest connection of an address adds lines at the end.\<close>

lemma lines_to_update:
  assumes "c < length cs" and "\<And>d. d < length cs \<Longrightarrow> cn_addr (cs ! d) = cn_addr (cs ! c) \<Longrightarrow> d \<le> c"
    and "framed (cn_bytes (cs ! c))"
  shows "lines_to a (cs[c := (cs ! c)\<lparr>cn_bytes := cn_bytes (cs ! c) @ p\<rparr>]) =
    lines_to a cs @ (if a = cn_addr (cs ! c) then read_lines [] p else [])"
proof -
  have cs: "cs = take c cs @ cs ! c # drop (Suc c) cs" by (rule id_take_nth_drop [OF assms(1)])
  have "lines_to (cn_addr (cs ! c)) (drop (Suc c) cs) = []"
  proof (rule lines_to_none)
    fix cn assume "cn \<in> set (drop (Suc c) cs)"
    then obtain i where "i < length cs - Suc c" "cn = cs ! (Suc c + i)" using assms(1) by (auto simp: in_set_conv_nth)
    then obtain d where "cn = cs ! d" "d < length cs" "c < d" by (metis less_diff_conv add.commute less_add_Suc1 add_Suc)
    then show "cn_addr cn \<noteq> cn_addr (cs ! c)" using assms(2) [of d] by auto
  qed
  moreover have "lines_to a cs = lines_to a (take c cs) @ lines_to a [cs ! c] @ lines_to a (drop (Suc c) cs)"
    by (subst cs) (simp add: lines_to_append [symmetric])
  moreover have "lines_to a (cs[c := x]) = lines_to a (take c cs) @ lines_to a [x] @ lines_to a (drop (Suc c) cs)" for x
    using assms(1) by (simp add: upd_conv_take_nth_drop lines_to_append [symmetric])
  moreover have "lines_to a [(cs ! c)\<lparr>cn_bytes := cn_bytes (cs ! c) @ p\<rparr>] =
      lines_to a [cs ! c] @ (if a = cn_addr (cs ! c) then read_lines [] p else [])"
    using assms(3) by (simp add: lines_to_def read_lines_framed)
  ultimately show ?thesis by simp
qed

lemma lines_to_close: "c < length cs \<Longrightarrow> lines_to a (cs[c := (cs ! c)\<lparr>cn_open := False\<rparr>]) = lines_to a cs"
proof -
  assume "c < length cs"
  then have "map (\<lambda>cn. if cn_addr cn = a then read_lines [] (cn_bytes cn) else []) (cs[c := (cs ! c)\<lparr>cn_open := False\<rparr>]) =
      map (\<lambda>cn. if cn_addr cn = a then read_lines [] (cn_bytes cn) else []) cs"
    by (intro nth_equalityI) (auto simp: nth_list_update)
  then show ?thesis by (simp add: lines_to_def)
qed

section \<open>An attempt\<close>

lemma net_ok_tick [simp]: "net_ok (tick s) = net_ok s"
  by (simp add: net_ok_def tick_def)

lemma net_ok_upload [simp]: "net_ok (s\<lparr>nt_upload := l\<rparr>) = net_ok s"
  by (simp add: net_ok_def)

lemma net_ok_drop:
  assumes "net_ok s" and "map_of (nt_pool s) a = Some c"
  shows "net_ok (forget a (close_conn c s))" "lines_written b (forget a (close_conn c s)) = lines_written b s"
    "map_of (nt_pool (forget a (close_conn c s))) a = None"
proof -
  have p: "pool_ok (map_of (nt_pool s)) (nt_conns s)" using assms(1) by (simp add: net_ok_def)
  note c = pool_okD [OF p assms(2)]
  show "net_ok (forget a (close_conn c s))"
    using assms(1) pool_ok_closed [OF p assms(2), of "(nt_conns s ! c)\<lparr>cn_open := False\<rparr>"] c(2)
    by (simp add: net_ok_def forget_def close_conn_def distinct_delete delete_conv')
  show "lines_written b (forget a (close_conn c s)) = lines_written b s"
    using lines_to_close [OF c(1)] by (simp add: lines_written_lines_to forget_def close_conn_def)
  show "map_of (nt_pool (forget a (close_conn c s))) a = None" by (simp add: forget_def delete_conv')
qed

lemma net_ok_put:
  assumes "net_ok s" and "map_of (nt_pool s) a = Some c"
  shows "lines_written b (put_bytes c p s) = lines_written b s @ (if b = a then read_lines [] p else [])"
    "framed p \<Longrightarrow> net_ok (put_bytes c p s)"
    "net_ok (forget a (close_conn c (put_bytes c p s)))"
    "lines_written b (forget a (close_conn c (put_bytes c p s))) = lines_written b (put_bytes c p s)"
proof -
  have p: "pool_ok (map_of (nt_pool s)) (nt_conns s)" using assms(1) by (simp add: net_ok_def)
  note c = pool_okD [OF p assms(2)]
  let ?x = "(nt_conns s ! c)\<lparr>cn_bytes := cn_bytes (nt_conns s ! c) @ p\<rparr>"
  show "lines_written b (put_bytes c p s) = lines_written b s @ (if b = a then read_lines [] p else [])"
    using lines_to_update [of c "nt_conns s" b p] c by (simp add: lines_written_lines_to put_bytes_def)
  show "net_ok (put_bytes c p s)" if "framed p"
    using assms(1) pool_ok_written [OF p assms(2), of ?x] c that
    by (simp add: net_ok_def put_bytes_def framed_append)
  show "net_ok (forget a (close_conn c (put_bytes c p s)))"
    using assms(1) pool_ok_closed [OF p assms(2), of "?x\<lparr>cn_open := False\<rparr>"] c(1,2)
    by (simp add: net_ok_def forget_def close_conn_def put_bytes_def distinct_delete delete_conv')
  show "lines_written b (forget a (close_conn c (put_bytes c p s))) = lines_written b (put_bytes c p s)"
    using lines_to_close [of c "nt_conns (put_bytes c p s)" b] c(1)
    by (simp add: lines_written_lines_to forget_def close_conn_def put_bytes_def)
qed

lemma dial_conn_ok:
  assumes "net_ok s" and "map_of (nt_pool s) a = None" and "dial_conn E a s = (conn, s')"
  shows "net_ok s'" "lines_written b s' = lines_written b s" "nt_upload s' = nt_upload s" "map_of (nt_pool s') a = conn"
    "nt_calls s' = Suc (nt_calls s)"
proof -
  have p: "pool_ok (map_of (nt_pool s)) (nt_conns s)" using assms(1) by (simp add: net_ok_def)
  show "net_ok s'" using assms pool_ok_dialed [OF p assms(2)]
    by (auto simp: dial_conn_def net_ok_def tick_def distinct_update update_conv' split: if_splits)
qed (use assms(2,3) in \<open>auto simp: dial_conn_def lines_written_def tick_def update_conv' split: if_splits\<close>)

text \<open>What an attempt to send \<open>m\<close> to \<open>a\<close> may do: deliver it and return no error, or return an error.\<close>

definition sent_or_failed :: "bytes \<Rightarrow> string \<Rightarrow> 'l limiter_ops \<Rightarrow> 'l net \<Rightarrow> string option \<Rightarrow> 'l net \<Rightarrow> bool" where
  "sent_or_failed m a L s err s' \<longleftrightarrow> net_ok s' \<and> li_Burst L (nt_upload s') = li_Burst L (nt_upload s) \<and> nt_calls s < nt_calls s' \<and>
     (\<forall>b. lines_written b s' = lines_written b s @ (if err = None \<and> b = a then [m @ [newline]] else []))"

lemma frames [simp]:
  "nt_upload (tick s) = nt_upload s" "nt_calls (tick s) = Suc (nt_calls s)" "nt_pool (tick s) = nt_pool s"
  "lines_written b (tick s) = lines_written b s" "lines_written b (s\<lparr>nt_upload := l\<rparr>) = lines_written b s"
  "nt_calls (forget a s) = nt_calls s" "nt_calls (close_conn c s) = nt_calls s" "nt_calls (put_bytes c p s) = nt_calls s"
  "nt_upload (forget a s) = nt_upload s" "nt_upload (close_conn c s) = nt_upload s" "nt_upload (put_bytes c p s) = nt_upload s"
  "nt_pool (close_conn c s) = nt_pool s" "nt_pool (put_bytes c p s) = nt_pool s"
  by (simp_all add: tick_def lines_written_def forget_def close_conn_def put_bytes_def)

lemma writeToConn_spec:
  assumes "net_laws E" and "0 < li_Burst (ne_limiter E) (nt_upload s)" and "net_ok s" and "newline \<notin> set m"
    and "map_of (nt_pool s) a = Some c"
  shows "\<exists>ok s'. writeToConn E (m @ [newline]) c s = Some (ok, s') \<and> ok = (ne_Write E (nt_calls s) (m @ [newline]) = None) \<and>
    sent_or_failed m a (ne_limiter E) s (if ok then None else Some ''write'') (if ok then s' else forget a (close_conn c s'))"
proof -
  let ?p = "m @ [newline]"
  obtain l where l: "upload_wait (ne_limiter E) (int (length ?p)) (nt_upload s) = Some (True, l)"
    "li_Burst (ne_limiter E) l = li_Burst (ne_limiter E) (nt_upload s)"
    using upload_wait_returns [of "ne_limiter E" "nt_upload s" "int (length ?p)"] assms(1,2) by (auto simp: net_laws_def)
  let ?s = "tick (s\<lparr>nt_upload := l\<rparr>)"
  have s: "net_ok ?s" "map_of (nt_pool ?s) a = Some c" using assms(3,5) by simp_all
  have w: "writeToConn E ?p c s = Some (case ne_Write E (nt_calls s) ?p of
      None \<Rightarrow> (True, put_bytes c ?p ?s) | Some k \<Rightarrow> (False, put_bytes c (take k ?p) ?s))"
    using l(1) by (simp add: writeToConn_def limited_Write_def conn_Write_def)
  have "framed ?p" by (simp add: framed_def)
  show ?thesis
  proof (cases "ne_Write E (nt_calls s) ?p")
    case None
    then show ?thesis
      using w net_ok_put(1) [OF s, of _ ?p] net_ok_put(2) [OF s, of ?p] \<open>framed ?p\<close> read_lines_message [OF assms(4), of "[]"] l(2)
      by (intro exI [of _ True]) (simp add: sent_or_failed_def)
  next
    case (Some k)
    then have "read_lines [] (take k ?p) = []"
      using assms(1) unfolding net_laws_def by (intro read_lines_partial [OF assms(4)]) blast
    then show ?thesis
      using w Some net_ok_put(1,4) [OF s, of _ "take k ?p"] net_ok_put(3) [OF s, of "take k ?p"] l(2)
      by (intro exI [of _ False]) (simp add: sent_or_failed_def del: take_append)
  qed
qed

lemma pooled_conn_ok:
  assumes "net_ok s" and "pooled_conn E a s = (conn, s')"
  shows "net_ok s' \<and> (\<forall>b. lines_written b s' = lines_written b s) \<and> nt_upload s' = nt_upload s \<and> map_of (nt_pool s') a = conn \<and>
    nt_calls s \<le> nt_calls s'"
proof (cases "map_of (nt_pool s) a")
  case None
  then show ?thesis using assms by (simp add: pooled_conn_def)
next
  case (Some c)
  have t: "net_ok (tick s)" "map_of (nt_pool (tick s)) a = Some c" using assms(1) Some by simp_all
  show ?thesis
  proof (cases "ne_SetKeepAlive E (nt_calls s)")
    case True
    then show ?thesis using assms Some by (auto simp: pooled_conn_def)
  next
    case False
    then have "conn = None" "s' = forget a (close_conn c (tick s))" using assms(2) Some by (simp_all add: pooled_conn_def)
    then show ?thesis using net_ok_drop [OF t] by simp
  qed
qed

lemma tcpDialOnce_spec:
  assumes "net_laws E" and "0 < li_Burst (ne_limiter E) (nt_upload s)" and "net_ok s" and "newline \<notin> set m"
  shows "\<exists>err s'. tcpDialOnce E (m @ [newline]) a s = Some (err, s') \<and> sent_or_failed m a (ne_limiter E) s err s' \<and>
    ((\<forall>t \<ge> nt_calls s. ne_Dial E t a \<and> ne_Write E t (m @ [newline]) = None) \<longrightarrow> err = None)"
proof -
  obtain pooled s1 where s1: "pooled_conn E a s = (pooled, s1)" by force
  have o1: "net_ok s1" "lines_written b s1 = lines_written b s" "nt_upload s1 = nt_upload s" "map_of (nt_pool s1) a = pooled"
    "nt_calls s \<le> nt_calls s1" for b
    using pooled_conn_ok [OF assms(3) s1] by simp_all
  obtain conn s2 where s2: "(case pooled of None \<Rightarrow> dial_conn E a s1 | Some c \<Rightarrow> (Some c, s1)) = (conn, s2)" by force
  have o2: "net_ok s2 \<and> (\<forall>b. lines_written b s2 = lines_written b s) \<and> nt_upload s2 = nt_upload s \<and> map_of (nt_pool s2) a = conn \<and>
    nt_calls s \<le> nt_calls s2 \<and> (conn = None \<longrightarrow> nt_calls s < nt_calls s2 \<and> \<not> ne_Dial E (nt_calls s1) a)"
  proof (cases pooled)
    case None
    then have d: "dial_conn E a s1 = (conn, s2)" using s2 by simp
    have "conn = None \<longrightarrow> \<not> ne_Dial E (nt_calls s1) a" using d by (auto simp: dial_conn_def split: if_splits)
    then show ?thesis using dial_conn_ok [OF o1(1) _ d] o1 None by simp
  next
    case (Some c)
    then show ?thesis using s2 o1 by auto
  qed
  show ?thesis
  proof (cases conn)
    case None
    then show ?thesis using s1 s2 o1(5) o2 by (auto simp: tcpDialOnce_def sent_or_failed_def)
  next
    case (Some c)
    obtain ok s' where w: "writeToConn E (m @ [newline]) c s2 = Some (ok, s')"
      "ok = (ne_Write E (nt_calls s2) (m @ [newline]) = None)"
      "sent_or_failed m a (ne_limiter E) s2 (if ok then None else Some ''write'') (if ok then s' else forget a (close_conn c s'))"
      using writeToConn_spec [OF assms(1) _ _ assms(4), of s2 a c] assms(2) o2 Some by auto
    then have "tcpDialOnce E (m @ [newline]) a s =
        Some (if ok then None else Some ''write'', if ok then s' else forget a (close_conn c s'))"
      using s1 s2 Some by (simp add: tcpDialOnce_def)
    moreover have "sent_or_failed m a (ne_limiter E) s (if ok then None else Some ''write'') (if ok then s' else forget a (close_conn c s'))"
      using w(3) o2 unfolding sent_or_failed_def by auto
    ultimately show ?thesis using w(2) o2 by auto
  qed
qed

section \<open>Sending\<close>

lemma dial_loop_spec:
  assumes "net_laws E" and "0 < li_Burst (ne_limiter E) (nt_upload s)" and "net_ok s" and "newline \<notin> set m"
  shows "\<exists>err s'. dial_loop E (m @ [newline]) a (Suc n) e0 s = Some (err, s') \<and> sent_or_failed m a (ne_limiter E) s err s' \<and>
    ((\<forall>t \<ge> nt_calls s + n. ne_Dial E t a \<and> ne_Write E t (m @ [newline]) = None) \<longrightarrow> err = None)"
  using assms(2,3)
proof (induction n arbitrary: e0 s)
  case 0
  then obtain err s' where "tcpDialOnce E (m @ [newline]) a s = Some (err, s')" "sent_or_failed m a (ne_limiter E) s err s'"
    "(\<forall>t \<ge> nt_calls s. ne_Dial E t a \<and> ne_Write E t (m @ [newline]) = None) \<longrightarrow> err = None"
    using tcpDialOnce_spec [OF assms(1) _ _ assms(4)] by blast
  then show ?case by (cases err) auto
next
  case (Suc n)
  obtain err s1 where d: "tcpDialOnce E (m @ [newline]) a s = Some (err, s1)" "sent_or_failed m a (ne_limiter E) s err s1"
    using tcpDialOnce_spec [OF assms(1) Suc.prems assms(4)] by blast
  show ?case
  proof (cases err)
    case None
    then show ?thesis using d by (auto simp del: dial_loop.simps(1))
  next
    case (Some e)
    from d Some have s1: "net_ok s1" "li_Burst (ne_limiter E) (nt_upload s1) = li_Burst (ne_limiter E) (nt_upload s)"
      "nt_calls s < nt_calls s1" "\<And>b. lines_written b s1 = lines_written b s" by (auto simp: sent_or_failed_def)
    from Suc.IH [of s1 "Some e"] Suc.prems(1) s1(1,2)
    obtain err' s' where r: "dial_loop E (m @ [newline]) a (Suc n) (Some e) s1 = Some (err', s')"
      "sent_or_failed m a (ne_limiter E) s1 err' s'"
      "(\<forall>t \<ge> nt_calls s1 + n. ne_Dial E t a \<and> ne_Write E t (m @ [newline]) = None) \<longrightarrow> err' = None" by (auto simp del: dial_loop.simps)
    have "dial_loop E (m @ [newline]) a (Suc (Suc n)) e0 s = Some (err', s')"
      using d(1) Some r(1) by (simp only: dial_loop.simps option.case prod.case)
    moreover have "sent_or_failed m a (ne_limiter E) s err' s'"
      using r(2) s1 by (simp add: sent_or_failed_def)
    moreover have "err' = None" if "\<forall>t \<ge> nt_calls s + Suc n. ne_Dial E t a \<and> ne_Write E t (m @ [newline]) = None"
      using r(3) that s1(3) by auto
    ultimately show ?thesis by blast
  qed
qed

text \<open>
  Sending a message without a newline, over any network and with a bandwidth that is not 0:
  \<open>TcpDialSync\<close> always returns. If it returns no error the message has been written, as one more line, to a
  connection to the address, and if it returns an error no more complete line has been written; nothing is
  written to any other address. The result is no error when the network works at the latest
  from the last attempt on. The delay is within the jitter.
\<close>

lemma TcpDialSync_sends_once:
  assumes "net_laws E" and "0 < li_Burst (ne_limiter E) (nt_upload s)" and "net_ok s" and "newline \<notin> set m"
    and "0 \<le> JitterRange P" and "0 \<le> r" and "JitterRange P \<noteq> 0 \<longrightarrow> r < JitterRange P"
  shows "\<exists>err s'. TcpDialSync E P r m a attempts s = Some (Inr (err, s')) \<and> net_ok s' \<and>
    (\<forall>b. lines_written b s' = lines_written b s @ (if err = None \<and> b = a then [m @ [newline]] else [])) \<and>
    ((\<forall>t \<ge> nt_calls s + nat (attempts - 1). ne_Dial E t a \<and> ne_Write E t (m @ [newline]) = None) \<longrightarrow> err = None) \<and>
    (\<exists>d. thisDelay P r = Inr d \<and> \<bar>2 * (d - Delay P)\<bar> \<le> JitterRange P + 1)"
proof -
  have n: "nat (if attempts < 1 then 1 else attempts) = Suc (nat (attempts - 1))" by auto
  obtain err s' where d: "dial_loop E (m @ [newline]) a (Suc (nat (attempts - 1))) None s = Some (err, s')"
    "sent_or_failed m a (ne_limiter E) s err s'"
    "(\<forall>t \<ge> nt_calls s + nat (attempts - 1). ne_Dial E t a \<and> ne_Write E t (m @ [newline]) = None) \<longrightarrow> err = None"
    using dial_loop_spec [OF assms(1-4)] by blast
  have j: "go_div (JitterRange P) 2 = JitterRange P div 2" using assms(5) by (cases "JitterRange P = 0") (auto simp: go_div_def)
  have "\<exists>d. thisDelay P r = Inr d \<and> \<bar>2 * (d - Delay P)\<bar> \<le> JitterRange P + 1"
    using assms(5-7) unfolding thisDelay_def j by auto
  then show ?thesis using d(2,3) unfolding TcpDialSync_def n d(1) sent_or_failed_def by auto
qed

text \<open>Closing the pool.\<close>

lemma fold_close:
  "length (nt_conns (fold (\<lambda>(a, c). close_conn c) ps s)) = length (nt_conns s)"
  "nt_upload (fold (\<lambda>(a, c). close_conn c) ps s) = nt_upload s"
  by (induction ps arbitrary: s) (auto simp: close_conn_def)

lemma fold_close_nth:
  "i < length (nt_conns s) \<Longrightarrow> nt_conns (fold (\<lambda>(a, c). close_conn c) ps s) ! i =
     (if i \<in> snd ` set ps then (nt_conns s ! i)\<lparr>cn_open := False\<rparr> else nt_conns s ! i)"
proof (induction ps arbitrary: s)
  case (Cons p ps)
  obtain a c where p: "p = (a, c)" by (cases p)
  have "nt_conns (close_conn c s) ! i = (if i = c then (nt_conns s ! i)\<lparr>cn_open := False\<rparr> else nt_conns s ! i)"
    using Cons.prems by (auto simp: close_conn_def nth_list_update)
  moreover have "i < length (nt_conns (close_conn c s))" using Cons.prems by (simp add: close_conn_def)
  ultimately show ?case using Cons.IH [of "close_conn c s"] p by auto
qed simp

lemma CloseAll_ok:
  assumes "net_ok s"
  shows "net_ok (CloseAllConnInPool s)" "lines_written a (CloseAllConnInPool s) = lines_written a s"
    "cn \<in> set (nt_conns (CloseAllConnInPool s)) \<Longrightarrow> \<not> cn_open cn"
    "nt_upload (CloseAllConnInPool s) = nt_upload s"
proof -
  let ?cs = "nt_conns (CloseAllConnInPool s)"
  have len: "length ?cs = length (nt_conns s)"
    by (simp add: CloseAllConnInPool_def fold_close)
  have nth: "?cs ! i = (if i \<in> snd ` set (nt_pool s) then (nt_conns s ! i)\<lparr>cn_open := False\<rparr> else nt_conns s ! i)"
    if "i < length (nt_conns s)" for i
    using that by (simp add: CloseAllConnInPool_def fold_close_nth)
  have closed: "\<not> cn_open (?cs ! i)" if "i < length ?cs" for i
  proof (cases "cn_open (nt_conns s ! i)")
    case True
    then have "map_of (nt_pool s) (cn_addr (nt_conns s ! i)) = Some i"
      using assms pool_ok_other that len unfolding net_ok_def by metis
    then have "i \<in> snd ` set (nt_pool s)" by (force dest: map_of_SomeD)
    then show ?thesis using that len by (simp add: nth)
  qed (use that len in \<open>simp add: nth\<close>)
  show "net_ok (CloseAllConnInPool s)"
    using closed by (auto simp: net_ok_def pool_ok_def) (auto simp: CloseAllConnInPool_def)
  show "cn \<in> set ?cs \<Longrightarrow> \<not> cn_open cn" using closed by (auto simp: in_set_conv_nth)
  have "map (\<lambda>cn. if cn_addr cn = a then read_lines [] (cn_bytes cn) else []) ?cs =
      map (\<lambda>cn. if cn_addr cn = a then read_lines [] (cn_bytes cn) else []) (nt_conns s)"
    using len by (intro nth_equalityI) (auto simp: nth)
  then show "lines_written a (CloseAllConnInPool s) = lines_written a s" by (simp add: lines_written_def)
  show "nt_upload (CloseAllConnInPool s) = nt_upload s"
    by (simp add: CloseAllConnInPool_def fold_close)
qed

section \<open>Any interleaving of senders\<close>

text \<open>
  All goroutines that send, and the closing of the pool, work on one state; the attempts of
  different \<open>TcpDialSync\<close> may alternate. \<open>net_run\<close> performs a sequence of such operations and collects
  the messages whose attempt returned no error.
\<close>

datatype net_op = Attempt bytes string | CloseAll

fun net_run :: "'l net_env \<Rightarrow> net_op list \<Rightarrow> 'l net \<Rightarrow> ((bytes \<times> string) list \<times> 'l net) option" where
  "net_run E [] s = Some ([], s)"
| "net_run E (Attempt m a # ops) s =
     (case tcpDialOnce E (m @ [newline]) a s of
        None \<Rightarrow> None
      | Some (err, s1) \<Rightarrow> map_option (\<lambda>(ok, s2). ((if err = None then [(m, a)] else []) @ ok, s2)) (net_run E ops s1))"
| "net_run E (CloseAll # ops) s = net_run E ops (CloseAllConnInPool s)"

definition net_init :: "'l \<Rightarrow> 'l net" where
  "net_init l = \<lparr>nt_pool = [], nt_conns = [], nt_upload = l, nt_calls = 0\<rparr>"

lemma net_run_ok:
  assumes "net_laws E" and "0 < li_Burst (ne_limiter E) (nt_upload s)" and "net_ok s"
    and "\<And>m a. Attempt m a \<in> set ops \<Longrightarrow> newline \<notin> set m"
  shows "\<exists>ok s'. net_run E ops s = Some (ok, s') \<and> net_ok s' \<and>
    (\<forall>b. lines_written b s' = lines_written b s @ map (\<lambda>(m, a). m @ [newline]) (filter (\<lambda>(m, a). a = b) ok))"
  using assms(2-)
proof (induction ops arbitrary: s)
  case Nil
  then show ?case by simp
next
  case (Cons op ops)
  show ?case
  proof (cases op)
    case CloseAll
    then show ?thesis using Cons.IH [of "CloseAllConnInPool s"] Cons.prems CloseAll_ok [OF Cons.prems(2)] by simp
  next
    case (Attempt m a)
    obtain err s1 where d: "tcpDialOnce E (m @ [newline]) a s = Some (err, s1)" "sent_or_failed m a (ne_limiter E) s err s1"
      using tcpDialOnce_spec [OF assms(1) Cons.prems(1,2), of m a] Cons.prems(3) [of m a] Attempt by auto
    then obtain ok s' where "net_run E ops s1 = Some (ok, s')" "net_ok s'"
      "\<forall>b. lines_written b s' = lines_written b s1 @ map (\<lambda>(m, a). m @ [newline]) (filter (\<lambda>(m, a). a = b) ok)"
      using Cons.IH [of s1] Cons.prems(1,3) unfolding sent_or_failed_def by auto
    then show ?thesis using d Attempt by (simp add: sent_or_failed_def)
  qed
qed

lemma net_init_ok: "net_ok (net_init l)"
  by (simp add: net_ok_def net_init_def pool_ok_def)

text \<open>What a reader gets from the bytes that have arrived: lines that end with the newline, and a prefix of what it will get.\<close>

lemma read_lines_end: "l \<in> set (read_lines line bs) \<Longrightarrow> butlast l @ [newline] = l"
  by (induction line bs rule: read_lines.induct) (auto split: if_splits)

lemma read_lines_prefix: "prefix (read_lines line (take k bs)) (read_lines line bs)"
proof (induction line bs arbitrary: k rule: read_lines.induct)
  case (2 line b bs)
  then show ?case by (cases k) simp_all
qed simp

lemma read_lines_framing: "map (\<lambda>m. m @ [newline]) (map butlast (read_lines line bs)) = read_lines line bs"
  by (auto simp: comp_def read_lines_end intro: map_idI)

lemma lines_written_segments:
  "concat (map (\<lambda>cn. if cn_addr cn = b then map butlast (read_lines [] (cn_bytes cn)) else []) (nt_conns s)) =
     map butlast (lines_written b s)"
  unfolding lines_written_def map_concat by (simp add: comp_def if_distrib [of "map butlast"] cong: if_cong)

text \<open>
  (C10) For every sequence of attempts and closings from the start, whatever connections fail at
  whatever byte, and a bandwidth that is not 0, every attempt returns. The messages to an address whose
  attempts returned no error are divided, in the order of the attempts, into one segment for each
  connection to the address. The reader of a connection, whatever number of the bytes written to it have arrived,
  has read a prefix of its segment: whole messages of the segment, in order, none twice, nothing of a failed
  attempt; and the whole segment once all bytes have arrived. Nothing is said of the order between
  readers of different connections. The pool holds exactly the connections that are open, so none leaks.
\<close>

theorem connections_carry_messages_in_order:
  assumes "net_laws E" and "InitNetworkTools (ne_limiter E) P = (P', down, up)" and "Bandwidth P \<noteq> 0"
    and "\<forall>m a. Attempt m a \<in> set ops \<longrightarrow> newline \<notin> set m"
  shows "\<exists>ok s segment. net_run E ops (net_init up) = Some (ok, s) \<and>
    (\<forall>b. concat (map (\<lambda>cn. if cn_addr cn = b then segment cn else []) (nt_conns s)) = map fst (filter (\<lambda>(m, a). a = b) ok)) \<and>
    (\<forall>cn \<in> set (nt_conns s). \<forall>k. prefix (read_lines [] (take k (cn_bytes cn))) (map (\<lambda>m. m @ [newline]) (segment cn)) \<and>
       (length (cn_bytes cn) \<le> k \<longrightarrow> read_lines [] (take k (cn_bytes cn)) = map (\<lambda>m. m @ [newline]) (segment cn))) \<and>
    (\<forall>c < length (nt_conns s). cn_open (nt_conns s ! c) \<longleftrightarrow> map_of (nt_pool s) (cn_addr (nt_conns s ! c)) = Some c)"
proof -
  have "0 < li_Burst (ne_limiter E) up"
    using assms(1-3) by (auto simp: net_laws_def limiter_laws_def InitNetworkTools_def Let_def split: if_splits)
  then obtain ok s where r: "net_run E ops (net_init up) = Some (ok, s)" "net_ok s"
    "\<forall>b. lines_written b s = lines_written b (net_init up) @ map (\<lambda>(m, a). m @ [newline]) (filter (\<lambda>(m, a). a = b) ok)"
    using net_run_ok [OF assms(1) _ net_init_ok, of up ops] assms(4) by (auto simp: net_init_def)
  let ?segment = "\<lambda>cn. map butlast (read_lines [] (cn_bytes cn))"
  have "lines_written b (net_init up) = []" for b by (simp add: lines_written_def net_init_def)
  then have "\<forall>b. concat (map (\<lambda>cn. if cn_addr cn = b then ?segment cn else []) (nt_conns s)) = map fst (filter (\<lambda>(m, a). a = b) ok)"
    unfolding lines_written_segments using r(3) by (simp add: comp_def case_prod_beta)
  moreover have "\<forall>c < length (nt_conns s). cn_open (nt_conns s ! c) \<longleftrightarrow> map_of (nt_pool s) (cn_addr (nt_conns s ! c)) = Some c"
    using r(2) unfolding net_ok_def pool_ok_def by metis
  ultimately show ?thesis using r(1) read_lines_prefix read_lines_framing
    by (intro exI [of _ ok] exI [of _ s] exI [of _ ?segment]) simp
qed

text \<open>A network whose second write fails after one byte.\<close>

definition demo_net :: "int net_env" where
  "demo_net = \<lparr>ne_limiter = demo_limiter, ne_SetKeepAlive = (\<lambda>t. True), ne_Dial = (\<lambda>t a. True),
     ne_Write = (\<lambda>t p. if t = 3 \<and> 1 < length p then Some 1 else None)\<rparr>"

lemma demo_net_laws: "net_laws demo_net"
  by (simp add: net_laws_def demo_net_def demo_limiter_laws)

theorem connections_carry_messages_in_order_witness:
  "\<exists>ok s segment. net_run demo_net [Attempt [1] ''a'', Attempt [2] ''a'', Attempt [2] ''a''] (net_init 7) = Some (ok, s) \<and>
     (\<forall>b. concat (map (\<lambda>cn. if cn_addr cn = b then segment cn else []) (nt_conns s)) = map fst (filter (\<lambda>(m, a). a = b) ok)) \<and>
     (\<forall>cn \<in> set (nt_conns s). \<forall>k. prefix (read_lines [] (take k (cn_bytes cn))) (map (\<lambda>m. m @ [newline]) (segment cn)))"
proof -
  have i: "InitNetworkTools (ne_limiter demo_net) (defaultParams\<lparr>Bandwidth := 7\<rparr>) = (defaultParams\<lparr>Bandwidth := 7\<rparr>, 7, 7)"
    by (simp add: InitNetworkTools_def demo_net_def demo_limiter_def defaultParams_def)
  have "\<forall>m a. Attempt m a \<in> set [Attempt [1] ''a'', Attempt [2] ''a'', Attempt [2] ''a''] \<longrightarrow> newline \<notin> set m"
    by (simp add: newline_def)
  from connections_carry_messages_in_order [OF demo_net_laws i _ this] show ?thesis by (simp del: net_run.simps) blast
qed

end
