(* ===== verification/Query.thy ===== *)
theory Query
  imports Chain_Accounts
begin

text \<open>
  The queries on the databases of a node (\<open>query/query_block.go\<close>, \<open>query_accountstate.go\<close>).
  \<open>db\<close> is what is in the file of blocks, \<open>tdb\<close> the database of the account trie. \<open>ForEach\<close> of a bucket
  is a parameter: the pairs it visits, in its order. \<open>None\<close> is Go's \<open>nil\<close>, or the block with a nil
  header that \<open>new(core.Block)\<close> makes.
\<close>

type_synonym for_each = "boltdb \<Rightarrow> string \<Rightarrow> (bytes \<times> dbval) list"

text \<open>\<open>ForEach\<close> visits every key of the bucket once, with its value.\<close>

definition for_each_law :: "lib \<Rightarrow> for_each \<Rightarrow> boltdb \<Rightarrow> bool" where
  "for_each_law L fe db \<longleftrightarrow>
     (\<forall>bucket. distinct (map fst (fe db bucket)) \<and> map_of (fe db bucket) = bolt_Get L db bucket)"

definition initStorage :: "string \<Rightarrow> boltdb \<Rightarrow> Storage" where
  "initStorage dbfp db = NewStorage dbfp db"

definition decode_value :: "dbval \<Rightarrow> Block res" where
  "decode_value v = (case v of DbGob g \<Rightarrow> DecodeB g | DbBytes _ \<Rightarrow> Inl (LogPanic ''gob''))"

definition QueryBlocks :: "for_each \<Rightarrow> string \<Rightarrow> boltdb \<Rightarrow> Block list res" where
  "QueryBlocks fe dbfp db =
     foldR (\<lambda>(k, v) blocks. bindR (decode_value v) (\<lambda>res. Inr (blocks @ [res])))
       (fe (sg_DataBase (initStorage dbfp db)) ''block'') []"

definition QueryBlock :: "for_each \<Rightarrow> string \<Rightarrow> boltdb \<Rightarrow> u64 \<Rightarrow> Block option res" where
  "QueryBlock fe dbfp db Number =
     foldR (\<lambda>(k, v) block. bindR (decode_value v) (\<lambda>res.
         Inr (if bh_Number (b_Header res) = Number then Some res else block)))
       (fe (sg_DataBase (initStorage dbfp db)) ''block'') None"

definition QueryBlockTxs :: "for_each \<Rightarrow> string \<Rightarrow> boltdb \<Rightarrow> u64 \<Rightarrow> Transaction list res" where
  "QueryBlockTxs fe dbfp db Number =
     bindR (foldR (\<lambda>(k, v) block. bindR (decode_value v) (\<lambda>res.
         Inr (if bh_Number (b_Header res) = Number then Some res else block)))
       (fe (sg_DataBase (initStorage dbfp db)) ''block'') None) (\<lambda>block.
       Inr (case block of None \<Rightarrow> [] | Some b \<Rightarrow> b_Body b))"

text \<open>The errors of both lookups are dropped; a missing hash is the empty one.\<close>

definition newest_block :: "lib \<Rightarrow> Storage \<Rightarrow> Block option res" where
  "newest_block L s =
     bindR (GetBlock L (case GetNewestBlockHash L s of Inl _ \<Rightarrow> [] | Inr h \<Rightarrow> h) s) (\<lambda>r.
       Inr (case r of Inl _ \<Rightarrow> None | Inr b \<Rightarrow> Some b))"

definition QueryNewestBlock :: "lib \<Rightarrow> string \<Rightarrow> boltdb \<Rightarrow> Block option res" where
  "QueryNewestBlock L dbfp db = newest_block L (initStorage dbfp db)"

definition open_state :: "lib \<Rightarrow> string \<Rightarrow> boltdb \<Rightarrow> triedb \<Rightarrow> acctTrie res" where
  "open_state L chainDBfp db tdb =
     bindR (newest_block L (initStorage chainDBfp db)) (\<lambda>curb.
       case curb of
         None \<Rightarrow> Inl NilDereference
       | Some b \<Rightarrow> (case tr_Open L tdb (BytesToHash (bh_StateRoot (b_Header b))) of
                     None \<Rightarrow> Inl (LogPanic ''trie.New'')
                   | Some st \<Rightarrow> Inr st))"

definition account_entry :: "acctTrie \<Rightarrow> Address \<Rightarrow> AccountState option res" where
  "account_entry st address =
     (case st address of None \<Rightarrow> Inr None | Some asenc \<Rightarrow> bindR (DecodeAS asenc) (\<lambda>a. Inr (Some a)))"

definition QueryAccountState :: "lib \<Rightarrow> bool \<Rightarrow> string \<Rightarrow> boltdb \<Rightarrow> triedb \<Rightarrow> Address \<Rightarrow> AccountState option res" where
  "QueryAccountState L file_exists chainDBfp db tdb address =
     (if \<not> file_exists then Inl (LogPanic ''No filepath'')
      else bindR (open_state L chainDBfp db tdb) (\<lambda>st. account_entry st address))"

definition QueryAccountStateList ::
  "lib \<Rightarrow> bool \<Rightarrow> string \<Rightarrow> boltdb \<Rightarrow> triedb \<Rightarrow> Address list \<Rightarrow> AccountState option list res" where
  "QueryAccountStateList L file_exists chainDBfp db tdb addresses =
     (if \<not> file_exists then Inl (LogPanic ''No filepath'')
      else bindR (open_state L chainDBfp db tdb) (\<lambda>st.
        foldR (\<lambda>address ret. bindR (account_entry st address) (\<lambda>a. Inr (ret @ [a]))) addresses []))"

section \<open>Stored blocks\<close>

definition stored :: "Block \<Rightarrow> bytes \<times> dbval" where
  "stored b = (b_Hash b, DbGob (B_Encode b))"

lemma stored_inj: "inj stored"
  by (rule injI) (auto simp: stored_def gob_defs)

lemma stored_fst [simp]: "fst (stored b) = b_Hash b"
  by (simp add: stored_def)

lemma decode_stored [simp]: "decode_value (snd (stored b)) = Inr b"
  by (simp add: decode_value_def stored_def)

lemma add_all_block_bucket:
  assumes "foldR (Storage_AddBlock L) bs s = Inr s'" and "storage_ok L s"
    and "\<And>k. bolt_Get L (sg_DataBase s) ''block'' k = None"
  shows "bolt_Get L (sg_DataBase s') ''block'' = map_of (rev (map stored bs)) \<and> storage_ok L s'"
  using assms(1)
proof (induction bs arbitrary: s' rule: rev_induct)
  case Nil
  then show ?case using assms(2,3) by auto
next
  case (snoc b bs)
  then obtain u where u: "foldR (Storage_AddBlock L) bs s = Inr u" "Storage_AddBlock L b u = Inr s'"
    by (auto simp: foldR_append bindR_Inr_iff)
  have IH: "bolt_Get L (sg_DataBase u) ''block'' = map_of (rev (map stored bs))" "storage_ok L u"
    using snoc.IH [OF u(1)] by auto
  then show ?case
    using Storage_AddBlock_effect(2) [OF IH(2) u(2), of "''block''"] store.add_ok [OF IH(2) u(2)]
    by (simp add: fun_eq_iff) (simp add: stored_def)
qed

lemma for_each_stored:
  assumes "for_each_law L fe (sg_DataBase s')" and "foldR (Storage_AddBlock L) bs s = Inr s'" and "storage_ok L s"
    and "\<And>k. bolt_Get L (sg_DataBase s) ''block'' k = None" and "distinct (map b_Hash bs)"
  shows "\<exists>cs. fe (sg_DataBase s') ''block'' = map stored cs \<and> mset cs = mset bs"
proof -
  let ?xs = "fe (sg_DataBase s') ''block''"
  have d: "distinct (map fst ?xs)" and m: "map_of ?xs = map_of (rev (map stored bs))"
    using assms(1) add_all_block_bucket [OF assms(2-4)] by (auto simp: for_each_law_def)
  have fst: "map fst (rev (map stored bs)) = rev (map b_Hash bs)" by (simp add: stored_def rev_map comp_def)
  have d': "distinct (map fst (rev (map stored bs)))" unfolding fst using assms(5) by simp
  have "set ?xs = set (map stored bs)"
    using m map_of_inject_set [OF d d'] by simp
  then have "mset ?xs = mset (map stored bs)"
    using d d' by (intro set_eq_iff_mset_eq_distinct [THEN iffD1]) (auto simp: distinct_map)
  moreover obtain cs where cs: "?xs = map stored cs"
    using ex_map_conv [of ?xs stored] \<open>set ?xs = set (map stored bs)\<close> by auto
  ultimately have "image_mset stored (mset cs) = image_mset stored (mset bs)" by simp
  then have "mset cs = mset bs" using injD [OF multiset.inj_map [OF stored_inj]] by blast
  then show ?thesis using cs by blast
qed

lemma QueryBlocks_loop:
  "foldR (\<lambda>(k, v) blocks. bindR (decode_value v) (\<lambda>res. Inr (blocks @ [res]))) (map stored cs) acc = Inr (acc @ cs)"
  by (induction cs arbitrary: acc) (simp_all add: case_prod_unfold)

definition last_numbered :: "u64 \<Rightarrow> Block list \<Rightarrow> Block option \<Rightarrow> Block option" where
  "last_numbered n cs acc = fold (\<lambda>b r. if bh_Number (b_Header b) = n then Some b else r) cs acc"

lemma QueryBlock_loop:
  "foldR (\<lambda>(k, v) block. bindR (decode_value v) (\<lambda>res. Inr (if bh_Number (b_Header res) = n then Some res else block)))
     (map stored cs) acc = Inr (last_numbered n cs acc)"
  by (induction cs arbitrary: acc) (simp_all add: case_prod_unfold last_numbered_def)

lemma last_numbered_none: "\<forall>b \<in> set cs. bh_Number (b_Header b) \<noteq> n \<Longrightarrow> last_numbered n cs acc = acc"
  by (induction cs arbitrary: acc) (simp_all add: last_numbered_def)

lemma last_numbered_some:
  assumes "b \<in> set cs" and "bh_Number (b_Header b) = n"
    and "\<And>c. c \<in> set cs \<Longrightarrow> bh_Number (b_Header c) = n \<Longrightarrow> c = b"
  shows "last_numbered n cs acc = Some b"
proof -
  obtain xs ys where cs: "cs = xs @ b # ys" "b \<notin> set ys" using split_list_last [OF assms(1)] by blast
  have "last_numbered n cs acc = last_numbered n ys (Some b)" unfolding cs(1) using assms(2) by (simp add: last_numbered_def)
  also have "\<dots> = Some b"
  proof (rule last_numbered_none, rule ballI, rule notI)
    fix c assume "c \<in> set ys" "bh_Number (b_Header c) = n"
    then have "c = b" using assms(3) [of c] by (simp add: cs(1))
    then show False using \<open>c \<in> set ys\<close> cs(2) by simp
  qed
  finally show ?thesis .
qed

text \<open>
  (C38) The queries of blocks return what was stored. After any sequence of blocks with different
  hashes was added to an empty store, \<open>QueryBlocks\<close> returns exactly these blocks, in some order;
  \<open>QueryNewestBlock\<close> the last one; \<open>QueryBlock\<close> and \<open>QueryBlockTxs\<close> the block with the given number
  and its body when one was stored and no other has the number, and the empty block when none has.
\<close>

theorem queries_return_the_stored_blocks:
  assumes "bolt_laws L" and "\<forall>k. bolt_Get L db ''block'' k = None"
    and "foldR (Storage_AddBlock L) bs (NewStorage fp db) = Inr s" and "distinct (map b_Hash bs)"
    and "for_each_law L fe (sg_DataBase s)"
  shows "(\<exists>cs. QueryBlocks fe fp' (sg_DataBase s) = Inr cs \<and> mset cs = mset bs) \<and>
    (bs \<noteq> [] \<longrightarrow> QueryNewestBlock L fp' (sg_DataBase s) = Inr (Some (last bs))) \<and>
    (\<forall>b \<in> set bs. (\<forall>c \<in> set bs. bh_Number (b_Header c) = bh_Number (b_Header b) \<longrightarrow> c = b) \<longrightarrow>
       QueryBlock fe fp' (sg_DataBase s) (bh_Number (b_Header b)) = Inr (Some b) \<and>
       QueryBlockTxs fe fp' (sg_DataBase s) (bh_Number (b_Header b)) = Inr (b_Body b)) \<and>
    (\<forall>n. (\<forall>b \<in> set bs. bh_Number (b_Header b) \<noteq> n) \<longrightarrow>
       QueryBlock fe fp' (sg_DataBase s) n = Inr None \<and> QueryBlockTxs fe fp' (sg_DataBase s) n = Inr [])"
proof -
  have so: "storage_ok L (NewStorage fp db)" by (rule NewStorage_ok [OF assms(1)])
  obtain cs where cs: "fe (sg_DataBase s) ''block'' = map stored cs" "mset cs = mset bs"
    using for_each_stored [OF assms(5,3) so _ assms(4)] assms(2) by (auto simp: NewStorage_def)
  have set: "set cs = set bs" using cs(2) by (rule mset_eq_setD)
  have db: "sg_DataBase (initStorage fp' (sg_DataBase s)) = sg_DataBase s" by (simp add: initStorage_def NewStorage_def)
  note q = QueryBlock_def QueryBlockTxs_def QueryBlocks_def db cs(1) QueryBlock_loop QueryBlocks_loop
  have newest: "QueryNewestBlock L fp' (sg_DataBase s) = Inr (Some (last bs))" if "bs \<noteq> []"
  proof -
    have so': "storage_ok L s" using add_all_block_bucket [OF assms(3) so] assms(2) by (simp add: NewStorage_def)
    have get: "GetBlock L h (initStorage fp' (sg_DataBase s)) = GetBlock L h s"
      "GetNewestBlockHash L (initStorage fp' (sg_DataBase s)) = GetNewestBlockHash L s" for h
      using so' by (simp_all add: GetBlock_def GetNewestBlockHash_def initStorage_def NewStorage_def storage_ok_def buckets_ok_def)
    have "foldR (Storage_AddBlock L) (butlast bs @ [last bs]) (NewStorage fp db) = Inr s" using assms(3) that by simp
    from store.add_all_newest [OF this so] store.add_all_get [OF assms(3) so assms(4), of "last bs"] that
    show ?thesis by (simp add: QueryNewestBlock_def newest_block_def get)
  qed
  have some: "QueryBlock fe fp' (sg_DataBase s) (bh_Number (b_Header b)) = Inr (Some b)"
    "QueryBlockTxs fe fp' (sg_DataBase s) (bh_Number (b_Header b)) = Inr (b_Body b)"
    if "b \<in> set bs" "\<forall>c \<in> set bs. bh_Number (b_Header c) = bh_Number (b_Header b) \<longrightarrow> c = b" for b
    using last_numbered_some [of b cs "bh_Number (b_Header b)" None] that by (simp_all add: q set)
  have none: "QueryBlock fe fp' (sg_DataBase s) n = Inr None" "QueryBlockTxs fe fp' (sg_DataBase s) n = Inr []"
    if "\<forall>b \<in> set bs. bh_Number (b_Header b) \<noteq> n" for n
    using last_numbered_none [of cs n None] that by (simp_all add: q set)
  have "QueryBlocks fe fp' (sg_DataBase s) = Inr cs" by (simp add: q)
  with newest some none cs(2) show ?thesis by blast
qed

definition demo_for_each :: for_each where
  "demo_for_each db bucket = map (\<lambda>((b, k), v). (k, v)) (filter (\<lambda>((b, k), v). b = bucket) db)"

definition demo_stored :: boltdb where
  "demo_stored = [((''newestBlockHash'', OnlyNewestBlock), DbBytes (b_Hash demo_genesis)),
     ((''blockHeader'', b_Hash demo_genesis), DbGob (BH_Encode (b_Header demo_genesis))),
     ((''block'', b_Hash demo_genesis), DbGob (B_Encode demo_genesis))]"

lemma demo_add:
  "foldR (Storage_AddBlock demo_lib) [demo_genesis] (NewStorage ''f'' []) = Inr ((NewStorage ''f'' [])\<lparr>sg_DataBase := demo_stored\<rparr>)"
proof -
  have "b_Hash demo_genesis \<noteq> []" "length (b_Hash demo_genesis) \<le> 32768"
    by (simp_all add: demo_genesis_def BH_Hash_def demo_lib_def demo_sha256_def)
  then show ?thesis
    by (simp add: Storage_AddBlock_def db_put_def AddBlockHeader_def UpdateNewestBlock_def NewStorage_def demo_stored_def)
      (simp add: demo_lib_def OnlyNewestBlock_def)
qed

theorem queries_return_the_stored_blocks_witness:
  "QueryBlock demo_for_each ''g'' demo_stored 0 = Inr (Some demo_genesis) \<and>
   QueryBlock demo_for_each ''g'' demo_stored 1 = Inr None \<and> QueryNewestBlock demo_lib ''g'' demo_stored = Inr (Some demo_genesis)"
proof -
  have "for_each_law demo_lib demo_for_each demo_stored"
    by (auto simp: for_each_law_def demo_for_each_def demo_stored_def demo_lib_def fun_eq_iff)
  then show ?thesis
    using queries_return_the_stored_blocks [OF demo_bolt_laws _ demo_add, of demo_for_each "''g''"]
    by (simp add: demo_lib_def)
qed

section \<open>Accounts\<close>

text \<open>
  On the databases of a chain that satisfies the invariant the queries of accounts do not
  panic, the list query answers as the single one, and the answer is what the chain itself
  fetches, except that an account the trie does not have is \<open>nil\<close> and not the initial balance.
\<close>

theorem account_queries_agree_with_the_chain:
  assumes "chain_ok L bc"
  shows "\<exists>entry. (\<forall>a. QueryAccountState L True fp (sg_DataBase (bc_Storage bc)) (bc_triedb bc) a = Inr (entry a)) \<and>
    QueryAccountStateList L True fp (sg_DataBase (bc_Storage bc)) (bc_triedb bc) addrs = Inr (map entry addrs) \<and>
    FetchAccounts L addrs bc = Inr (map (\<lambda>a. case entry a of None \<Rightarrow> newState 0 Init_Balance | Some s \<Rightarrow> s) addrs)"
proof -
  let ?db = "sg_DataBase (bc_Storage bc)"
  obtain st where st: "current_state L bc = Some st" "trie_ok st" using assms by (auto simp: chain_ok_def)
  have so: "storage_ok L (bc_Storage bc)" using assms by (simp add: chain_ok_def)
  have "GetBlock L h (initStorage fp ?db) = GetBlock L h (bc_Storage bc)"
    "GetNewestBlockHash L (initStorage fp ?db) = GetNewestBlockHash L (bc_Storage bc)" for h
    using so by (simp_all add: GetBlock_def GetNewestBlockHash_def initStorage_def NewStorage_def storage_ok_def buckets_ok_def)
  then have "newest_block L (initStorage fp ?db) = Inr (Some (bc_CurrentBlock bc))"
    using assms by (simp add: newest_block_def chain_ok_def)
  then have o: "open_state L fp ?db (bc_triedb bc) = Inr st"
    using st(1) by (simp add: open_state_def current_state_def)
  define entry where "entry a = map_option (\<lambda>enc. projr (DecodeAS enc)) (st a)" for a
  have e: "account_entry st a = Inr (entry a)" for a
  proof (cases "st a")
    case (Some enc)
    then obtain x where "DecodeAS enc = Inr x" using st(2) by (auto simp: trie_ok_def)
    then show ?thesis using Some by (simp add: account_entry_def entry_def)
  qed (simp add: account_entry_def entry_def)
  have "foldR (\<lambda>address ret. bindR (account_entry st address) (\<lambda>a. Inr (ret @ [a]))) addrs acc = Inr (acc @ map entry addrs)" for acc
    by (induction addrs arbitrary: acc) (simp_all add: e)
  moreover have "account_at st = (\<lambda>a. case entry a of None \<Rightarrow> newState 0 Init_Balance | Some s \<Rightarrow> s)"
    by (auto simp: account_at_def entry_def fun_eq_iff split: option.splits)
  ultimately show ?thesis
    using FetchAccounts_spec [OF st, of addrs] by (intro exI [of _ entry]) (simp add: QueryAccountState_def QueryAccountStateList_def o e)
qed

end
