(* ===== verification/Relay_Money.thy ===== *)
theory Relay_Money
  imports Pbft_Relay
begin

text \<open>
  Where the money of transfers between shards is: a block debits the senders of the transfers that
  leave, the leader's \<open>HandleinCommit\<close> sends them to the shards of their recipients, and the blocks
  there credit them. The theorem accounts for all of it, the transfers included that the execution
  skips because the sender has too little and that are sent to the other shard all the same.
\<close>

definition total :: "Transaction list \<Rightarrow> int" where
  "total txs = sum_list (map tx_Value txs)"

lemma total_simps [simp]: "total [] = 0" "total (tx # txs) = tx_Value tx + total txs" "total (xs @ ys) = total xs + total ys"
  by (simp_all add: total_def)

text \<open>The transactions of a block that the execution skips, in order.\<close>

fun skipped :: "params \<Rightarrow> BlockChain \<Rightarrow> Transaction list \<Rightarrow> (Address \<Rightarrow> int) \<Rightarrow> Transaction list" where
  "skipped P bc [] m = []"
| "skipped P bc (tx # txs) m =
     (if debits P bc tx \<and> m (tx_Sender tx) < tx_Value tx then [tx] else []) @ skipped P bc txs (ledger_tx P bc tx m)"

definition leaves :: "params \<Rightarrow> BlockChain \<Rightarrow> Transaction \<Rightarrow> bool" where
  "leaves P bc tx \<longleftrightarrow> Get_PartitionMap P bc (tx_Recipient tx) \<noteq> Inr (cc_ShardID (bc_ChainConfig bc))"

text \<open>
  A transaction that belongs in a block of the relay protocol: one of an account of this shard, or
  one relayed to an account of this shard.
\<close>

definition relay_fine :: "params \<Rightarrow> BlockChain \<Rightarrow> Transaction \<Rightarrow> bool" where
  "relay_fine P bc tx \<longleftrightarrow> \<not> tx_HasBroker tx \<and> \<not> tx_HasBridge tx \<and>
     (\<exists>s. Get_PartitionMap P bc (tx_Sender tx) = Inr s \<and> (tx_Relayed tx \<or> s = cc_ShardID (bc_ChainConfig bc))) \<and>
     (\<exists>s. Get_PartitionMap P bc (tx_Recipient tx) = Inr s \<and> (tx_Relayed tx \<longrightarrow> s = cc_ShardID (bc_ChainConfig bc)))"

lemma relay_fine_parties:
  assumes "relay_fine P bc tx"
  shows "debits P bc tx \<longleftrightarrow> \<not> tx_Relayed tx" "credits P bc tx \<longleftrightarrow> \<not> leaves P bc tx" "placed P bc tx"
  using assms by (auto simp: relay_fine_def debits_def credits_def sender_here_def recipient_here_def leaves_def placed_def)

lemma relay_step_cases:
  assumes "relay_fine P bc tx" and "RelayPool (ra_pool a) \<noteq> None"
  shows "\<exists>b. relay_step P bc (cc_ShardID (bc_ChainConfig bc)) tx a = Inr b \<and> RelayPool (ra_pool b) \<noteq> None \<and>
    total (ra_relay1 b) = total (ra_relay1 a) + (if leaves P bc tx then tx_Value tx else 0) \<and>
    total (ra_relay2 b) = total (ra_relay2 a) + (if tx_Relayed tx then tx_Value tx else 0) \<and>
    (\<forall>sid. relay_of (ra_pool b) sid = relay_of (ra_pool a) sid @
       (if leaves P bc tx \<and> Get_PartitionMap P bc (tx_Recipient tx) = Inr sid then [tx\<lparr>tx_Relayed := True\<rparr>] else []))"
proof (cases "leaves P bc tx")
  case True
  obtain m where m: "RelayPool (ra_pool a) = Some m" using assms(2) by blast
  obtain s where s: "Get_PartitionMap P bc (tx_Recipient tx) = Inr s" "s \<noteq> cc_ShardID (bc_ChainConfig bc)" "\<not> tx_Relayed tx"
    "Get_PartitionMap P bc (tx_Sender tx) = Inr (cc_ShardID (bc_ChainConfig bc))"
    using assms(1) True by (auto simp: relay_fine_def leaves_def)
  then show ?thesis using True m
    by (simp add: relay_step_def Let_def AddRelayTx_def relay_of_def)
next
  case False
  then have r: "Get_PartitionMap P bc (tx_Recipient tx) = Inr (cc_ShardID (bc_ChainConfig bc))" by (simp add: leaves_def)
  obtain s where "Get_PartitionMap P bc (tx_Sender tx) = Inr s" "tx_Relayed tx \<or> s = cc_ShardID (bc_ChainConfig bc)"
    using assms(1) by (auto simp: relay_fine_def)
  then show ?thesis using False r assms(2) by (auto simp: relay_step_def)
qed

text \<open>One transaction: what leaves, what arrives and what is skipped.\<close>

lemma ledger_tx_accounted:
  assumes "relay_fine P bc tx" and "finite A" and "tx_Sender tx \<in> A" and "tx_Recipient tx \<in> A"
  shows "(\<Sum>a\<in>A. ledger_tx P bc tx m a) + (if leaves P bc tx then tx_Value tx else 0) =
    (\<Sum>a\<in>A. m a) + (if tx_Relayed tx then tx_Value tx else 0) +
    (if leaves P bc tx \<and> debits P bc tx \<and> m (tx_Sender tx) < tx_Value tx then tx_Value tx else 0)"
proof -
  have "tx_Relayed tx \<Longrightarrow> \<not> leaves P bc tx" using assms(1) by (auto simp: relay_fine_def leaves_def)
  then show ?thesis
    using assms(2-4) relay_fine_parties [OF assms(1)]
    by (auto simp: ledger_tx_def Let_def sum_upd simp del: fun_upd_apply)
qed

lemma relay_block_accounted:
  assumes "\<forall>tx \<in> set txs. relay_fine P bc tx \<and> tx_Sender tx \<in> A \<and> tx_Recipient tx \<in> A" and "finite A"
    and "RelayPool (ra_pool a) \<noteq> None"
  shows "\<exists>b. foldR (relay_step P bc (cc_ShardID (bc_ChainConfig bc))) txs a = Inr b \<and>
    (\<Sum>x\<in>A. fold (ledger_tx P bc) txs m x) + (total (ra_relay1 b) - total (ra_relay1 a)) =
    (\<Sum>x\<in>A. m x) + (total (ra_relay2 b) - total (ra_relay2 a)) + total (filter (leaves P bc) (skipped P bc txs m)) \<and>
    (\<forall>sid. relay_of (ra_pool b) sid = relay_of (ra_pool a) sid @ map (\<lambda>tx. tx\<lparr>tx_Relayed := True\<rparr>)
       (filter (\<lambda>tx. leaves P bc tx \<and> Get_PartitionMap P bc (tx_Recipient tx) = Inr sid) txs))"
  using assms(1,3)
proof (induction txs arbitrary: a m)
  case Nil
  then show ?case by simp
next
  case (Cons tx txs)
  let ?shard = "cc_ShardID (bc_ChainConfig bc)"
  obtain a1 where a1: "relay_step P bc ?shard tx a = Inr a1" "RelayPool (ra_pool a1) \<noteq> None"
    "total (ra_relay1 a1) = total (ra_relay1 a) + (if leaves P bc tx then tx_Value tx else 0)"
    "total (ra_relay2 a1) = total (ra_relay2 a) + (if tx_Relayed tx then tx_Value tx else 0)"
    "\<And>sid. relay_of (ra_pool a1) sid = relay_of (ra_pool a) sid @
       (if leaves P bc tx \<and> Get_PartitionMap P bc (tx_Recipient tx) = Inr sid then [tx\<lparr>tx_Relayed := True\<rparr>] else [])"
    using relay_step_cases [of P bc tx a] Cons.prems by auto
  obtain b where b: "foldR (relay_step P bc ?shard) txs a1 = Inr b"
    "(\<Sum>x\<in>A. fold (ledger_tx P bc) txs (ledger_tx P bc tx m) x) + (total (ra_relay1 b) - total (ra_relay1 a1)) =
     (\<Sum>x\<in>A. ledger_tx P bc tx m x) + (total (ra_relay2 b) - total (ra_relay2 a1)) +
       total (filter (leaves P bc) (skipped P bc txs (ledger_tx P bc tx m)))"
    "\<And>sid. relay_of (ra_pool b) sid = relay_of (ra_pool a1) sid @ map (\<lambda>tx. tx\<lparr>tx_Relayed := True\<rparr>)
       (filter (\<lambda>tx. leaves P bc tx \<and> Get_PartitionMap P bc (tx_Recipient tx) = Inr sid) txs)"
    using Cons.IH [of a1 "ledger_tx P bc tx m"] Cons.prems(1) a1(2) by auto
  have one: "(\<Sum>x\<in>A. ledger_tx P bc tx m x) + (if leaves P bc tx then tx_Value tx else 0) =
    (\<Sum>x\<in>A. m x) + (if tx_Relayed tx then tx_Value tx else 0) +
    (if leaves P bc tx \<and> debits P bc tx \<and> m (tx_Sender tx) < tx_Value tx then tx_Value tx else 0)"
    using ledger_tx_accounted [of P bc tx A m] Cons.prems(1) assms(2) by simp
  have sk: "total (filter (leaves P bc) (skipped P bc (tx # txs) m)) =
      (if leaves P bc tx \<and> debits P bc tx \<and> m (tx_Sender tx) < tx_Value tx then tx_Value tx else 0) +
      total (filter (leaves P bc) (skipped P bc txs (ledger_tx P bc tx m)))" by simp
  have "(\<Sum>x\<in>A. fold (ledger_tx P bc) (tx # txs) m x) + (total (ra_relay1 b) - total (ra_relay1 a)) =
    (\<Sum>x\<in>A. m x) + (total (ra_relay2 b) - total (ra_relay2 a)) + total (filter (leaves P bc) (skipped P bc (tx # txs) m))"
    using b(2) one unfolding sk a1(3,4) by simp
  then show ?case using a1(1,5) b(1,3) by simp
qed

text \<open>
  (C3) The money of the relay protocol. For a block whose transactions belong in this shard: the
  execution does not panic, \<open>relay_step\<close> does not panic either, and with any finite set of accounts
  that contains all the parties, the balances after the block and the values of the transfers sent
  to other shards are together the balances before and the values of the transfers that arrived,
  plus the values of the transfers to other shards that the execution skipped. So money is conserved
  if and only if the latter are none or sum up to 0. Each other shard is sent, in order, exactly the
  transfers to its accounts.
\<close>

theorem relay_money_accounted:
  assumes "state_trie_laws L" and "current_state L bc = Some st" and "trie_ok st" and "finite A"
    and "\<forall>tx \<in> set txs. relay_fine P bc tx \<and> tx_Sender tx \<in> A \<and> tx_Recipient tx \<in> A"
  shows "\<exists>rt bc' st' b. GetUpdateStatusTrie L P txs bc = Inr (rt, bc') \<and> tr_Open L (bc_triedb bc') rt = Some st' \<and>
    foldR (relay_step P bc (cc_ShardID (bc_ChainConfig bc))) txs
      \<lparr>ra_body = [], ra_inner = [], ra_relay1 = [], ra_relay2 = [], ra_pool = pool\<lparr>RelayPool := Some Map.empty\<rparr>\<rparr> = Inr b \<and>
    (\<Sum>a\<in>A. balance_of st' a) + total (ra_relay1 b) =
    (\<Sum>a\<in>A. balance_of st a) + total (ra_relay2 b) + total (filter (leaves P bc) (skipped P bc txs (balance_of st))) \<and>
    (\<forall>sid. relay_of (ra_pool b) sid = map (\<lambda>tx. tx\<lparr>tx_Relayed := True\<rparr>)
       (filter (\<lambda>tx. leaves P bc tx \<and> Get_PartitionMap P bc (tx_Recipient tx) = Inr sid) txs))"
proof -
  have "\<forall>tx \<in> set txs. placed P bc tx" using assms(5) relay_fine_parties(3) by blast
  from GetUpdateStatusTrie_total [OF assms(1-3) this] obtain rt bc' st' where
    "GetUpdateStatusTrie L P txs bc = Inr (rt, bc')" "tr_Open L (bc_triedb bc') rt = Some st'"
    "balance_of st' = fold (ledger_tx P bc) txs (balance_of st)" by blast
  then show ?thesis
    using relay_block_accounted [OF assms(5,4), of "\<lparr>ra_body = [], ra_inner = [], ra_relay1 = [], ra_relay2 = [],
      ra_pool = pool\<lparr>RelayPool := Some Map.empty\<rparr>\<rparr>" "balance_of st"]
    by (auto simp: relay_of_def)
qed

text \<open>A transfer of more than the sender has: nothing is debited, and all of it is sent on.\<close>

theorem relay_money_accounted_witness:
  "\<exists>rt bc' st' b. GetUpdateStatusTrie demo_lib defaultParams [demo_tx ''a'' ''c'' (Init_Balance + 1)] (demo_chain 0) = Inr (rt, bc') \<and>
     tr_Open demo_lib (bc_triedb bc') rt = Some st' \<and>
     foldR (relay_step defaultParams (demo_chain 0) 0) [demo_tx ''a'' ''c'' (Init_Balance + 1)]
       \<lparr>ra_body = [], ra_inner = [], ra_relay1 = [], ra_relay2 = [], ra_pool = NewTxPool\<lparr>RelayPool := Some Map.empty\<rparr>\<rparr> = Inr b \<and>
     (\<Sum>a\<in>{''a'', ''c''}. balance_of st' a) + total (ra_relay1 b) =
     (\<Sum>a\<in>{''a'', ''c''}. balance_of Map.empty a) + total (ra_relay2 b) + (Init_Balance + 1)"
proof -
  let ?tx = "demo_tx ''a'' ''c'' (Init_Balance + 1)"
  have f: "relay_fine defaultParams (demo_chain 0) ?tx" by (simp add: relay_fine_def Get_PartitionMap_def)
  have "leaves defaultParams (demo_chain 0) ?tx" by (simp add: leaves_def Get_PartitionMap_def)
  then have sk: "filter (leaves defaultParams (demo_chain 0)) (skipped defaultParams (demo_chain 0) [?tx] (balance_of Map.empty)) = [?tx]"
    by simp
  show ?thesis
    using relay_money_accounted [of demo_lib "demo_chain 0" Map.empty "{''a'', ''c''}" "[?tx]" defaultParams NewTxPool] f
    unfolding sk by auto
qed

end
