(* ===== verification/Pbft_Shard.thy ===== *)
theory Pbft_Shard
  imports Demo_Node
begin

text \<open>
  A whole shard: its nodes run the handlers of \<open>Pbft_Node\<close> and every consensus message that a node
  has ever sent may arrive at any node, at any time, any number of times or not at all. Messages from
  outside the shard are arbitrary. What the operations of a protocol must do for the nodes to agree
  is the locale \<open>replicated_ops\<close>, which extends the contract \<open>consensus_ops\<close>; the relay, the broker
  and the bridge protocol meet it.
\<close>

section \<open>What the nodes agree on\<close>

text \<open>
  A relay leader sets flags in the body of its current block, so two nodes agree on the header and the
  hash of a block.
\<close>

definition same_block :: "Block \<Rightarrow> Block \<Rightarrow> bool" where
  "same_block b c \<longleftrightarrow> b_Header b = b_Header c \<and> b_Hash b = b_Hash c"

lemma same_block_refl [simp]: "same_block b b"
  by (simp add: same_block_def)

definition next_block :: "Block \<Rightarrow> Block \<Rightarrow> bool" where
  "next_block c b \<longleftrightarrow> bh_Number (b_Header b) = bh_Number (b_Header c) + 1 \<and> bh_ParentBlockHash (b_Header b) = b_Hash c"

lemma next_block_cong: "same_block c c' \<Longrightarrow> next_block c b = next_block c' b"
  by (simp add: next_block_def same_block_def)

definition block_request :: "Request \<Rightarrow> Block \<Rightarrow> bool" where
  "block_request r b \<longleftrightarrow> rq_Type r = BlockRequest \<and> DecodeB (rq_Content r) = Inr b"

definition append_next :: "Block \<Rightarrow> Block \<Rightarrow> Block" where
  "append_next b c = (if next_block c b then b else c)"

text \<open>The control state of a node that matters here, and the messages it adds to the outbox.\<close>

definition ctl :: "PbftNode \<Rightarrow> u64 \<times> int \<times> bool \<times> bool \<times> nat \<times> (bytes \<rightharpoonup> Request) \<times> (u64 \<rightharpoonup> bytes)" where
  "ctl p = (p_NodeID p, p_view p, p_sequenceLock p, p_askForLock p, p_proposing p, p_requestPool p, p_height2Digest p)"

fun pbft_wire :: "wire \<Rightarrow> bool" where
  "pbft_wire (WPrePrepare m) = True"
| "pbft_wire (WPrepare m) = True"
| "pbft_wire (WCommit m) = True"
| "pbft_wire (WSendOld m) = True"
| "pbft_wire w = False"

definition adds :: "(wire \<Rightarrow> bool) \<Rightarrow> PbftNode \<Rightarrow> PbftNode \<Rightarrow> bool" where
  "adds Q p q \<longleftrightarrow> (\<exists>ws. p_out q = p_out p @ ws \<and> (\<forall>e \<in> set ws. Q (snd e)))"

definition steady :: "PbftNode \<Rightarrow> PbftNode \<Rightarrow> bool" where
  "steady p q \<longleftrightarrow> ctl q = ctl p \<and> adds (\<lambda>w. \<not> pbft_wire w) p q"

locale replicated_ops = consensus_ops +
  assumes propose_block: "eo_HandleinPropose ops now p = Inr (ro, q) \<Longrightarrow>
      \<exists>r b. ro = Some r \<and> block_request r b \<and> next_block (head p) b \<and> steady p q"
    and preprepare_pool: "eo_HandleinPrePrepare ops ppm p = Inr (flag, q) \<Longrightarrow>
      steady p q \<or> steady (p\<lparr>p_requestPool := (p_requestPool p)(pp_Digest ppm \<mapsto> pp_RequestMsg ppm)\<rparr>) q"
    and prepare_steady: "eo_HandleinPrepare ops pm p = Inr (flag, q) \<Longrightarrow> steady p q"
    and commit_block: "eo_HandleinCommit ops now cm p = Inr (flag, q) \<Longrightarrow> p_requestPool p (cm_Digest cm) = Some r \<Longrightarrow>
      block_request r b \<Longrightarrow> steady p q \<and> same_block (head q) (append_next b (head p))"
    and old_steady: "eo_HandleReqestforOldSeq ops rom p = Inr (flag, q) \<Longrightarrow> steady p q"
    and sequential_blocks: "eo_HandleforSequentialRequest ops som p = Inr (flag, q) \<Longrightarrow>
      \<forall>r \<in> set (som_OldRequest som). \<exists>b. block_request r b \<Longrightarrow>
      steady p q \<and> (\<exists>bs. (\<forall>b \<in> set bs. \<exists>r \<in> set (som_OldRequest som). block_request r b) \<and> head q = fold append_next bs (head p))"
    and out_steady: "out now w p = Inr q \<Longrightarrow> steady p q"

section \<open>Lemmas on the outbox\<close>

lemma adds_refl [simp]: "adds Q p p"
  by (simp add: adds_def)

lemma adds_trans: "adds Q p q \<Longrightarrow> adds Q q r \<Longrightarrow> adds Q p r"
  by (force simp: adds_def)

lemma adds_mono: "adds Q p q \<Longrightarrow> (\<And>w. Q w \<Longrightarrow> R w) \<Longrightarrow> adds R p q"
  by (force simp: adds_def)

lemma adds_updates [simp]:
  "adds Q p (q\<lparr>p_CurChain := x1\<rparr>) = adds Q p q" "adds Q p (q\<lparr>p_requestPool := x2\<rparr>) = adds Q p q"
  "adds Q p (q\<lparr>p_height2Digest := x3\<rparr>) = adds Q p q" "adds Q p (q\<lparr>p_pbftStage := x4\<rparr>) = adds Q p q"
  "adds Q p (q\<lparr>p_csv := x5\<rparr>) = adds Q p q" "adds Q p (q\<lparr>p_seqIDMap := x6\<rparr>) = adds Q p q"
  "adds Q p (q\<lparr>p_sequenceID := x7\<rparr>) = adds Q p q" "adds Q p (q\<lparr>p_isReply := x8\<rparr>) = adds Q p q"
  "adds Q p (q\<lparr>p_askForLock := x9\<rparr>) = adds Q p q" "adds Q p (q\<lparr>p_isCommitBordcast := x10\<rparr>) = adds Q p q"
  "adds Q p (q\<lparr>p_bridgeBalances := x11\<rparr>) = adds Q p q" "adds Q p (q\<lparr>p_bridgeJointSig := x12\<rparr>) = adds Q p q"
  "adds Q p (q\<lparr>p_proposing := x13\<rparr>) = adds Q p q" "adds Q (p\<lparr>p_requestPool := x2\<rparr>) q = adds Q p q"
  "adds Q (p\<lparr>p_CurChain := x1\<rparr>) q = adds Q p q" "adds Q (p\<lparr>p_sequenceID := x7\<rparr>) q = adds Q p q"
  "adds Q p (q\<lparr>p_sequenceLock := x14\<rparr>) = adds Q p q" "adds Q (p\<lparr>p_bridgeBalances := x11\<rparr>) q = adds Q p q"
  by (simp_all add: adds_def)

lemma adds_TcpDial: "adds Q p q \<Longrightarrow> Q w \<Longrightarrow> adds Q p (TcpDial w a q)"
  by (auto simp: adds_def TcpDial_def)

lemma adds_Broadcast: "adds Q p q \<Longrightarrow> Q w \<Longrightarrow> adds Q p (Broadcast me ips w q)"
  by (auto simp: adds_def Broadcast_eq sends_def)

lemma adds_broadcast_all: "adds Q p q \<Longrightarrow> Q w \<Longrightarrow> adds Q p (broadcast_all w q)"
  by (auto simp: adds_def broadcast_all_eq sends_def)

lemma adds_fold:
  assumes "\<And>x q. adds Q p q \<Longrightarrow> adds Q p (f x q)" and "adds Q p q"
  shows "adds Q p (fold f xs q)"
  using assms by (induction xs arbitrary: q) simp_all

lemma keeps_ctl: "keeps_control p q \<Longrightarrow> ctl q = ctl p"
  by (simp add: keeps_control_def ctl_def core_def)

lemma steady_refl [simp]: "steady p p"
  by (simp add: steady_def)

lemma steady_trans: "steady p q \<Longrightarrow> steady q r \<Longrightarrow> steady p r"
  by (auto simp: steady_def intro: adds_trans)

section \<open>What each handler may do\<close>

definition prepare_for :: "bytes \<Rightarrow> u64 \<Rightarrow> wire \<Rightarrow> bool" where
  "prepare_for d s w \<longleftrightarrow> \<not> pbft_wire w \<or> (\<exists>m. w = WPrepare m \<and> pm_Digest m = d \<and> pm_SeqID m = s)"

definition commit_for :: "bytes \<Rightarrow> u64 \<Rightarrow> wire \<Rightarrow> bool" where
  "commit_for d s w \<longleftrightarrow> \<not> pbft_wire w \<or> (\<exists>m. w = WCommit m \<and> cm_Digest m = d \<and> cm_SeqID m = s)"

text \<open>A request stored with its digest under a sequence number.\<close>

definition stored :: "xlib \<Rightarrow> u64 \<Rightarrow> Request \<Rightarrow> PbftNode \<Rightarrow> PbftNode" where
  "stored X s r p = p\<lparr>p_requestPool := (p_requestPool p)(getDigest X r \<mapsto> r), p_height2Digest := (p_height2Digest p)(s \<mapsto> getDigest X r)\<rparr>"

lemma stored_fields [simp]:
  "p_out (stored X s r p) = p_out p" "p_sequenceID (stored X s r p) = p_sequenceID p" "head (stored X s r p) = head p"
  by (simp_all add: stored_def head_def)

lemma stored_ctl: "ctl q = ctl p \<Longrightarrow> ctl (stored X s r q) = ctl (stored X s r p)"
  by (simp add: ctl_def stored_def)

context replicated_ops
begin

lemma PrePrepare_effect:
  assumes "handlePrePrepare X ops cv m p = Inr q"
  shows "q = p \<or> \<not> pp_SeqID m < p_sequenceID p \<and> ctl q = ctl (stored X (pp_SeqID m) (pp_RequestMsg m) p) \<and>
    adds (prepare_for (getDigest X (pp_RequestMsg m)) (pp_SeqID m)) p q"
proof (cases "pp_SeqID m < p_sequenceID p \<or> p_view p \<noteq> cv \<or> getDigest X (pp_RequestMsg m) \<noteq> pp_Digest m")
  case True
  then show ?thesis using assms by (auto simp: handlePrePrepare_def Let_def split: if_splits)
next
  case False
  let ?s = "stored X (pp_SeqID m) (pp_RequestMsg m)"
  have e: "(if p_sequenceID p < pp_SeqID m then Inr (False, ?s p)
      else bindR (eo_HandleinPrePrepare ops m p) (\<lambda>(flag, q). Inr (flag, ?s q))) = Inr x \<Longrightarrow>
      ctl (snd x) = ctl (?s p) \<and> adds (prepare_for (getDigest X (pp_RequestMsg m)) (pp_SeqID m)) p (snd x)" for x
  proof (cases "p_sequenceID p < pp_SeqID m")
    case stored: False
    assume "(if p_sequenceID p < pp_SeqID m then Inr (False, ?s p)
      else bindR (eo_HandleinPrePrepare ops m p) (\<lambda>(flag, q). Inr (flag, ?s q))) = Inr x"
    then obtain flag r where r: "eo_HandleinPrePrepare ops m p = Inr (flag, r)" "x = (flag, ?s r)"
      using stored by (auto simp: bindR_Inr_iff)
    then show ?thesis
      using preprepare_pool [OF r(1)] False
      by (auto simp: steady_def stored_def ctl_def prepare_for_def intro: adds_mono)
  qed (auto simp: stored_def)
  obtain x where x: "(if p_sequenceID p < pp_SeqID m then Inr (False, ?s p)
      else bindR (eo_HandleinPrePrepare ops m p) (\<lambda>(flag, q). Inr (flag, ?s q))) = Inr x"
    "(if fst x then Inr ((broadcast_all (send_prepare m (snd x)) (snd x))\<lparr>p_pbftStage := p_pbftStage (broadcast_all (send_prepare m (snd x)) (snd x)) + 1\<rparr>)
      else Inr (snd x)) = (Inr q :: PbftNode res)"
    using assms False by (auto simp: handlePrePrepare_def Let_def stored_def bindR_Inr_iff split: if_splits)
  have "ctl q = ctl (snd x)" using x(2) by (auto simp: ctl_def broadcast_all_eq split: if_splits)
  moreover have "adds (prepare_for (getDigest X (pp_RequestMsg m)) (pp_SeqID m)) p q"
    using x(2) e [OF x(1)] False by (auto simp: send_prepare_def prepare_for_def intro!: adds_broadcast_all split: if_splits)
  ultimately show ?thesis using e [OF x(1)] False by simp
qed

lemma Prepare_effect:
  assumes "handlePrepare ops cv m p = Inr q"
  shows "ctl q = ctl p \<and> adds (commit_for (pm_Digest m) (pm_SeqID m)) p q"
proof (cases "q = p")
  case False
  then obtain ok r where r: "eo_HandleinPrepare ops m p = Inr (ok, r)"
    using assms by (auto simp: handlePrepare_def Let_def bindR_Inr_iff split: if_splits)
  have s: "ctl r = ctl p" "adds (commit_for (pm_Digest m) (pm_SeqID m)) p r"
    using prepare_steady [OF r] by (auto simp: steady_def commit_for_def intro: adds_mono)
  show ?thesis
    using assms r s(2) s(1) [symmetric]
    by (auto simp: handlePrepare_def Let_def set2DMap_def ctl_def broadcast_all_eq commit_for_def adds_def sends_def split: if_splits)
qed simp

lemma Commit_executes:
  assumes "handleCommit ops now cv c p = Some (Inr q)" and "executes cv c p"
    and "p_requestPool p (cm_Digest c) = Some r" and "block_request r b"
  shows "ctl q = (ctl p) \<or> ctl q = ctl (p\<lparr>p_sequenceLock := False\<rparr>)"
    and "adds (\<lambda>w. \<not> pbft_wire w) p q" and "same_block (head q) (append_next b (head p))"
    and "p_sequenceID q = p_sequenceID p + 1"
proof -
  have "\<not> (cm_SeqID c < p_sequenceID p \<or> p_view p \<noteq> cv)" using assms(2) by (auto simp: executes_def)
  then obtain f s where s: "eo_HandleinCommit ops now c (counted c p) = Inr (f, s)"
    "q = end_round (UnixMilli now) (s\<lparr>p_isReply := (p_isReply s)(cm_Digest c := True), p_sequenceID := p_sequenceID s + 1\<rparr>)"
    using assms(1,2) by (auto simp: handleCommit_cases bindR_Inr_iff)
  have cn: "ctl (counted c p) = ctl p" "p_out (counted c p) = p_out p" "head (counted c p) = head p"
    by (auto simp: ctl_def counted_def set2DMap_def collectBridgeCommitSig_def collectBridgePartialSig_def head_def)
  have k: "steady (counted c p) s" "same_block (head s) (append_next b (head p))"
    using commit_block [OF s(1) _ assms(4)] assms(3) cn(3) by auto
  show "ctl q = ctl p \<or> ctl q = ctl (p\<lparr>p_sequenceLock := False\<rparr>)"
    using k(1) cn(1) s(2) by (auto simp: steady_def ctl_def end_round_def Let_def)
  show "adds (\<lambda>w. \<not> pbft_wire w) p q"
    using k(1) cn(2) s(2) by (auto simp: steady_def adds_def end_round_def Let_def)
  show "same_block (head q) (append_next b (head p))" using k(2) s(2) by (simp add: head_def end_round_def Let_def)
  show "p_sequenceID q = p_sequenceID p + 1"
    using commit_core [OF s(1)] s(2) by (simp add: end_round_def Let_def)
qed

text \<open>The commit handler without an execution: it counts, or it asks for the requests it has not got.\<close>

lemma Commit_counts:
  assumes "handleCommit ops now cv c p = Some (Inr q)" and "\<not> executes cv c p"
  shows "adds (\<lambda>w. \<not> pbft_wire w) p q" and "head q = head p" and "p_sequenceID q = p_sequenceID p"
    and "ctl q = ctl p \<or> \<not> cm_SeqID c < p_sequenceID p \<and> p_requestPool p (cm_Digest c) = None \<and> (\<exists>l a. ctl q = ctl (p\<lparr>p_sequenceLock := l, p_askForLock := a\<rparr>))"
proof -
  have cn: "ctl (counted c p) = ctl p" "p_out (counted c p) = p_out p" "head (counted c p) = head p"
    by (auto simp: ctl_def counted_def set2DMap_def collectBridgeCommitSig_def collectBridgePartialSig_def head_def)
  let ?ask = "end_round (UnixMilli now) (request_old c ((counted c p)\<lparr>p_isReply := (p_isReply p)(cm_Digest c := True), p_askForLock := True\<rparr>))"
  consider "q = p" | "q = counted c p" | "q = ?ask" "\<not> cm_SeqID c < p_sequenceID p" "p_requestPool p (cm_Digest c) = None"
    using assms by (auto simp: handleCommit_cases split: if_splits)
  note cases = this
  show "adds (\<lambda>w. \<not> pbft_wire w) p q"
    using cases cn(2) by cases (auto simp: adds_def end_round_def request_old_def TcpDial_def Let_def)
  show "head q = head p" using cases cn(3) by cases (auto simp: head_def end_round_def request_old_def TcpDial_def Let_def)
  show "p_sequenceID q = p_sequenceID p" using cases by cases (auto simp: end_round_def request_old_def TcpDial_def Let_def)
  show "ctl q = ctl p \<or> \<not> cm_SeqID c < p_sequenceID p \<and> p_requestPool p (cm_Digest c) = None \<and> (\<exists>l a. ctl q = ctl (p\<lparr>p_sequenceLock := l, p_askForLock := a\<rparr>))"
    using cases
  proof cases
    case 3
    then have "ctl q = ctl (p\<lparr>p_sequenceLock := p_sequenceLock q, p_askForLock := p_askForLock q\<rparr>)"
      using cn(1) by (auto simp: ctl_def end_round_def request_old_def TcpDial_def Let_def)
    then show ?thesis using 3 by blast
  qed (use cn(1) in auto)
qed

end

section \<open>The invariant of a node\<close>

text \<open>
  \<open>rs\<close> are the requests that the leader has proposed so far, the first one under the sequence number
  \<open>s\<close>. Everything a node stores or sends is one of them, under its number.
\<close>

definition numbered :: "xlib \<Rightarrow> u64 \<Rightarrow> Request list \<Rightarrow> u64 \<Rightarrow> bytes \<Rightarrow> bool" where
  "numbered X s rs n d \<longleftrightarrow> (\<exists>k < length rs. n = s + of_nat k \<and> d = getDigest X (rs ! k))"

fun wire_ok :: "xlib \<Rightarrow> u64 \<Rightarrow> Request list \<Rightarrow> wire \<Rightarrow> bool" where
  "wire_ok X s rs (WPrePrepare m) = (\<exists>k < length rs. pp_SeqID m = s + of_nat k \<and> pp_RequestMsg m = rs ! k)"
| "wire_ok X s rs (WPrepare m) = numbered X s rs (pm_SeqID m) (pm_Digest m)"
| "wire_ok X s rs (WCommit m) = numbered X s rs (cm_SeqID m) (cm_Digest m)"
| "wire_ok X s rs (WSendOld m) = (\<forall>i < length (som_OldRequest m). som_OldRequest m ! i \<in> set rs \<and>
     numbered X s rs (som_SeqStartHeight m + of_nat i) (getDigest X (som_OldRequest m ! i)))"
| "wire_ok X s rs w = True"

definition stores_ok :: "xlib \<Rightarrow> u64 \<Rightarrow> Request list \<Rightarrow> (bytes \<rightharpoonup> Request) \<Rightarrow> (u64 \<rightharpoonup> bytes) \<Rightarrow> bool" where
  "stores_ok X s rs pool h2d \<longleftrightarrow> (\<forall>d r. pool d = Some r \<longrightarrow> r \<in> set rs \<and> getDigest X r = d) \<and>
     (\<forall>n d. h2d n = Some d \<longrightarrow> numbered X s rs n d)"

definition node_ok :: "xlib \<Rightarrow> u64 \<Rightarrow> Request list \<Rightarrow> PbftNode \<Rightarrow> bool" where
  "node_ok X s rs p \<longleftrightarrow> stores_ok X s rs (p_requestPool p) (p_height2Digest p) \<and> p_proposing p = 0 \<and>
     (\<forall>e \<in> set (p_out p). wire_ok X s rs (snd e))"

text \<open>The log: blocks that follow one another; the current block of a node is one of them.\<close>

definition linked :: "Block \<Rightarrow> Block list \<Rightarrow> bool" where
  "linked g bs \<longleftrightarrow> (\<forall>k < length bs. next_block ((g # bs) ! k) (bs ! k))"

definition head_ok :: "Block \<Rightarrow> Block list \<Rightarrow> PbftNode \<Rightarrow> bool" where
  "head_ok g bs p \<longleftrightarrow> (\<exists>k \<le> length bs. same_block (head p) ((g # bs) ! k))"

lemma wire_ok_harmless [simp]: "\<not> pbft_wire w \<Longrightarrow> wire_ok X s rs w"
  by (cases w) simp_all

lemma vote_ok:
  "numbered X s rs n d \<Longrightarrow> prepare_for d n w \<Longrightarrow> wire_ok X s rs w" "numbered X s rs n d \<Longrightarrow> commit_for d n w \<Longrightarrow> wire_ok X s rs w"
  by (auto simp: prepare_for_def commit_for_def)

lemma numbered_mono: "numbered X s rs n d \<Longrightarrow> numbered X s (rs @ rs') n d"
proof -
  assume "numbered X s rs n d"
  then obtain k where "k < length rs" "n = s + of_nat k" "d = getDigest X (rs ! k)" by (auto simp: numbered_def)
  then show ?thesis by (auto simp: numbered_def nth_append intro!: exI [of _ k])
qed

lemma wire_ok_mono: "wire_ok X s rs w \<Longrightarrow> wire_ok X s (rs @ rs') w"
proof (cases w)
  case (WPrePrepare m)
  assume "wire_ok X s rs w"
  then obtain k where "k < length rs" "pp_SeqID m = s + of_nat k" "pp_RequestMsg m = rs ! k" using WPrePrepare by auto
  then show ?thesis using WPrePrepare by (auto simp: nth_append intro!: exI [of _ k])
qed (auto intro: numbered_mono)

lemma node_ok_mono: "node_ok X s rs p \<Longrightarrow> node_ok X s (rs @ rs') p"
  by (auto simp: node_ok_def stores_ok_def intro: numbered_mono wire_ok_mono)

lemma node_ok_adds:
  assumes "node_ok X s rs p" and "adds Q p q" and "\<And>w. Q w \<Longrightarrow> wire_ok X s rs w"
    and "stores_ok X s rs (p_requestPool q) (p_height2Digest q)" and "p_proposing q = 0"
  shows "node_ok X s rs q"
proof -
  obtain ws where "p_out q = p_out p @ ws" "\<forall>e \<in> set ws. Q (snd e)" using assms(2) unfolding adds_def by blast
  then have "\<forall>e \<in> set (p_out q). wire_ok X s rs (snd e)" using assms(1,3) unfolding node_ok_def by (metis Un_iff set_append)
  then show ?thesis using assms(4,5) by (simp add: node_ok_def)
qed

lemma ctlD:
  assumes "ctl q = ctl p"
  shows "p_NodeID q = p_NodeID p" "p_view q = p_view p" "p_sequenceLock q = p_sequenceLock p" "p_askForLock q = p_askForLock p"
    "p_proposing q = p_proposing p" "p_requestPool q = p_requestPool p" "p_height2Digest q = p_height2Digest p"
  using assms by (simp_all add: ctl_def)

lemma node_ok_steady: "node_ok X s rs p \<Longrightarrow> adds Q p q \<Longrightarrow> (\<And>w. Q w \<Longrightarrow> wire_ok X s rs w) \<Longrightarrow> ctl q = ctl p \<Longrightarrow> node_ok X s rs q"
  using node_ok_adds [of X s rs p Q q] ctlD [of q p] by (simp add: node_ok_def)

lemma stores_ok_stored:
  assumes "stores_ok X s rs pool h2d" and "r \<in> set rs" and "numbered X s rs n (getDigest X r)"
  shows "stores_ok X s rs (pool(getDigest X r \<mapsto> r)) (h2d(n \<mapsto> getDigest X r))"
  using assms by (auto simp: stores_ok_def)

text \<open>Appending blocks of the log to a current block of the log stays in the log.\<close>

lemma linked_number:
  assumes "linked g bs" and "k \<le> length bs"
  shows "bh_Number (b_Header ((g # bs) ! k)) = bh_Number (b_Header g) + of_nat k"
  using assms(2)
proof (induction k)
  case (Suc k)
  then have "next_block ((g # bs) ! k) (bs ! k)" using assms(1) by (simp add: linked_def)
  then show ?case using Suc by (simp add: next_block_def)
qed simp

lemma number_inj:
  assumes "linked g bs" and "k \<le> length bs" and "j \<le> length bs" and "length bs < 2 ^ 64"
    and "bh_Number (b_Header ((g # bs) ! k)) = bh_Number (b_Header ((g # bs) ! j))"
  shows "k = j"
proof -
  have "(of_nat k :: u64) = of_nat j"
    using assms(5) linked_number [OF assms(1,2)] linked_number [OF assms(1,3)] by simp
  then have "unat (of_nat k :: u64) = unat (of_nat j :: u64)" by simp
  then show ?thesis using assms(2-4) by (simp add: unat_of_nat)
qed

lemma append_next_log:
  assumes "linked g bs" and "b \<in> set bs" and "k \<le> length bs" and "same_block h ((g # bs) ! k)"
  shows "\<exists>j \<le> length bs. same_block (append_next b h) ((g # bs) ! j)"
proof (cases "next_block h b")
  case True
  obtain i where i: "i < length bs" "b = bs ! i" using assms(2) by (auto simp: in_set_conv_nth)
  then show ?thesis using True by (intro exI [of _ "Suc i"]) (simp add: append_next_def)
next
  case False
  then show ?thesis using assms(3,4) by (auto simp: append_next_def)
qed

lemma fold_append_next_log:
  assumes "linked g bs" and "set cs \<subseteq> set bs" and "\<exists>k \<le> length bs. same_block h ((g # bs) ! k)"
  shows "\<exists>j \<le> length bs. same_block (fold append_next cs h) ((g # bs) ! j)"
  using assms(2,3)
proof (induction cs arbitrary: h)
  case (Cons c cs)
  then show ?case using append_next_log [OF assms(1), of c _ h] by auto
qed simp

lemma head_ok_same: "head q = head p \<Longrightarrow> head_ok g bs p \<Longrightarrow> head_ok g bs q"
  by (simp add: head_ok_def)

lemma head_ok_append:
  assumes "linked g bs" and "b \<in> set bs" and "head_ok g bs p" and "same_block (head q) (append_next b (head p))"
  shows "head_ok g bs q"
  using append_next_log [OF assms(1,2)] assms(3,4) by (fastforce simp: head_ok_def same_block_def)

lemma request_block:
  assumes "list_all2 block_request rs bs" and "r \<in> set rs"
  shows "\<exists>b. block_request r b" and "block_request r b \<Longrightarrow> b \<in> set bs"
proof -
  obtain k where k: "k < length rs" "r = rs ! k" using assms(2) by (auto simp: in_set_conv_nth)
  have b: "block_request r (bs ! k)" "k < length bs" using assms(1) k by (auto simp: list_all2_conv_all_nth)
  then show "\<exists>b. block_request r b" by blast
  show "block_request r b \<Longrightarrow> b \<in> set bs" using b by (auto simp: block_request_def)
qed

section \<open>Steps of a node\<close>

lemma old_requests_found:
  "old_requests h2d pool height e acc = Some (Inr R) \<Longrightarrow>
     \<exists>new. R = acc @ new \<and> (\<forall>i < length new. \<exists>d. h2d (height + of_nat i) = Some d \<and> pool d = Some (new ! i))"
proof (induction h2d pool height e acc "Inr R :: Request list res" arbitrary: R rule: old_requests.raw_induct [rotated 1, consumes 1])
  case (1 old_requests h2d pool height e acc)
  show ?case
  proof (cases "height > e \<or> h2d height = None \<or> pool (the (h2d height)) = None")
    case True
    then have "R = acc" using 1(2) by (auto split: if_splits option.splits)
    then show ?thesis by simp
  next
    case False
    then obtain d r where d: "h2d height = Some d" "pool d = Some r" by auto
    then have "old_requests h2d pool (height + 1) e (acc @ [r]) = Some (Inr R)" using 1(2) False by simp
    from 1(1) [OF this] obtain new where new: "R = (acc @ [r]) @ new"
      "\<forall>i < length new. \<exists>d. h2d (height + 1 + of_nat i) = Some d \<and> pool d = Some (new ! i)" by blast
    have "\<exists>d. h2d (height + of_nat i) = Some d \<and> pool d = Some ((r # new) ! i)" if "i < length (r # new)" for i
      using that d new(2) by (cases i) (auto simp: ac_simps)
    then show ?thesis using new(1) by (intro exI [of _ "r # new"]) simp
  qed
qed

fun event_ok :: "xlib \<Rightarrow> u64 \<Rightarrow> Request list \<Rightarrow> event \<Rightarrow> bool" where
  "event_ok X s rs (EPrePrepare cv m) = wire_ok X s rs (WPrePrepare m)"
| "event_ok X s rs (EPrepare cv m) = wire_ok X s rs (WPrepare m)"
| "event_ok X s rs (ECommit now cv m) = wire_ok X s rs (WCommit m)"
| "event_ok X s rs (ESendOld m) = wire_ok X s rs (WSendOld m)"
| "event_ok X s rs (ENewView ms m) = False"
| "event_ok X s rs (EPropose now) = False"
| "event_ok X s rs ev = True"

lemma store_old_ok:
  assumes "stores_ok X s rs (p_requestPool p) (p_height2Digest p)"
    and "\<forall>i < length old. old ! i \<in> set rs \<and> numbered X s rs (n + of_nat i) (getDigest X (old ! i))"
  shows "stores_ok X s rs (p_requestPool (store_old X n old p)) (p_height2Digest (store_old X n old p))"
  using assms
proof (induction old arbitrary: n p)
  case (Cons r old)
  let ?p = "p\<lparr>p_requestPool := (p_requestPool p)(getDigest X r \<mapsto> r), p_height2Digest := (p_height2Digest p)(n \<mapsto> getDigest X r),
    p_isReply := (p_isReply p)(getDigest X r := True)\<rparr>"
  have "r \<in> set rs" "numbered X s rs n (getDigest X r)" using Cons.prems(2) by force+
  then have 1: "stores_ok X s rs (p_requestPool ?p) (p_height2Digest ?p)" using stores_ok_stored [OF Cons.prems(1)] by simp
  have 2: "\<forall>i < length old. old ! i \<in> set rs \<and> numbered X s rs (n + 1 + of_nat i) (getDigest X (old ! i))"
  proof (intro allI impI)
    show "old ! i \<in> set rs \<and> numbered X s rs (n + 1 + of_nat i) (getDigest X (old ! i))" if "i < length old" for i
      using Cons.prems(2) [rule_format, of "Suc i"] that by (simp add: add.assoc)
  qed
  show ?case using Cons.IH [OF 1 2] by (simp add: Let_def)
qed simp

lemma store_old_frame:
  "p_NodeID (store_old X n old p) = p_NodeID p" "p_view (store_old X n old p) = p_view p"
  "p_askForLock (store_old X n old p) = p_askForLock p" "p_proposing (store_old X n old p) = p_proposing p"
  "p_out (store_old X n old p) = p_out p" "head (store_old X n old p) = head p"
  by (induction old arbitrary: n p) (simp_all add: Let_def head_def)

context replicated_ops
begin

lemma resume_effect:
  assumes "resume_prepare X ops p = Inr q" and "node_ok X s rs p"
  shows "p_NodeID q = p_NodeID p \<and> p_view q = p_view p \<and> p_askForLock q = p_askForLock p \<and> node_ok X s rs q"
proof (cases "q = p")
  case False
  then obtain d r where d: "p_height2Digest p (p_sequenceID p) = Some d" "p_requestPool p d = Some r"
    using assms(1) by (auto simp: resume_prepare_def split: option.splits)
  have n: "numbered X s rs (p_sequenceID p) d" "getDigest X r = d" "r \<in> set rs"
    using assms(2) d by (auto simp: node_ok_def stores_ok_def)
  let ?m = "\<lparr>pp_RequestMsg = r, pp_Digest = getDigest X r, pp_SeqID = p_sequenceID p, pp_B = [], pp_BlockBPKCS1 = []\<rparr>"
  obtain flag q0 where q0: "eo_HandleinPrePrepare ops ?m p = Inr (flag, q0)"
    "q = (if flag then Broadcast (nd_IPaddr (p_RunningNode q0)) (getNeighborNodes q0) (send_prepare ?m q0) q0 else q0)"
  proof -
    have "bindR (eo_HandleinPrePrepare ops ?m p) (\<lambda>(flag, q). if flag then Inr (Broadcast (nd_IPaddr (p_RunningNode q)) (getNeighborNodes q)
        (send_prepare ?m q) q) else Inr q) = Inr q" using assms(1) d by (simp add: resume_prepare_def Let_def)
    then obtain x where "eo_HandleinPrePrepare ops ?m p = Inr x" "(case x of (flag, q) \<Rightarrow> if flag then Inr (Broadcast (nd_IPaddr (p_RunningNode q))
        (getNeighborNodes q) (send_prepare ?m q) q) else Inr q) = (Inr q :: PbftNode res)" by (rule bindR_InrE)
    then show thesis using that [of "fst x" "snd x"] by (cases x) (auto split: if_splits)
  qed
  have pool: "stores_ok X s rs ((p_requestPool p)(d \<mapsto> r)) (p_height2Digest p)"
    using assms(2) n by (auto simp: node_ok_def stores_ok_def)
  have s0: "steady p q0 \<or> steady (p\<lparr>p_requestPool := (p_requestPool p)(d \<mapsto> r)\<rparr>) q0"
    using preprepare_pool [OF q0(1)] n(2) by simp
  then have c: "p_NodeID q0 = p_NodeID p" "p_view q0 = p_view p" "p_askForLock q0 = p_askForLock p" "p_proposing q0 = 0"
    "stores_ok X s rs (p_requestPool q0) (p_height2Digest q0)"
    using assms(2) pool by (auto simp: steady_def ctl_def node_ok_def)
  have "adds (\<lambda>w. \<not> pbft_wire w) p q0" using s0 by (auto simp: steady_def)
  then have ok: "node_ok X s rs q0" using node_ok_adds [OF assms(2)] c by simp
  have "adds (wire_ok X s rs) q0 q"
    using q0(2) n by (auto simp: send_prepare_def intro!: adds_Broadcast)
  then have "node_ok X s rs q"
    using node_ok_adds [OF ok] q0(2) c by (auto simp: Broadcast_eq)
  then show ?thesis using q0(2) c by (auto simp: Broadcast_eq)
qed (use assms in simp)

lemma SendOld_effect:
  assumes "handleSendOldSeq X ops m p = Inr q" and "node_ok X s rs p" and "wire_ok X s rs (WSendOld m)"
    and "list_all2 block_request rs bs" and "linked g bs" and "head_ok g bs p"
  shows "p_askForLock p" and "p_NodeID q = p_NodeID p \<and> p_view q = p_view p \<and> node_ok X s rs q \<and> head_ok g bs q"
proof -
  let ?st = "\<lambda>p1. (store_old X (som_SeqStartHeight m) (som_OldRequest m) p1)\<lparr>p_sequenceID := som_SeqEndHeight m + 1\<rparr>"
  obtain f p1 p4 where p1: "eo_HandleforSequentialRequest ops m p = Inr (f, p1)" "resume_prepare X ops (?st p1) = Inr p4"
    "p_askForLock p4" "q = p4\<lparr>p_askForLock := False\<rparr>"
    using assms(1) by (auto simp: handleSendOldSeq_def Let_def bindR_Inr_iff split: if_splits)
  have old: "\<forall>i < length (som_OldRequest m). som_OldRequest m ! i \<in> set rs \<and>
      numbered X s rs (som_SeqStartHeight m + of_nat i) (getDigest X (som_OldRequest m ! i))" using assms(3) by simp
  then have "set (som_OldRequest m) \<subseteq> set rs" by (auto simp: in_set_conv_nth)
  then have blocks: "\<forall>r \<in> set (som_OldRequest m). \<exists>b. block_request r b" "r \<in> set (som_OldRequest m) \<Longrightarrow> block_request r b \<Longrightarrow> b \<in> set bs" for r b
    using request_block [OF assms(4)] by blast+
  obtain cs where cs: "steady p p1" "\<forall>b \<in> set cs. \<exists>r \<in> set (som_OldRequest m). block_request r b" "head p1 = fold append_next cs (head p)"
    using sequential_blocks [OF p1(1) blocks(1)] by blast
  have "set cs \<subseteq> set bs" using cs(2) blocks(2) by blast
  then have h: "head_ok g bs p1" using fold_append_next_log [OF assms(5)] assms(6) cs(3) by (simp add: head_ok_def)
  have c: "ctl p1 = ctl p" "adds (\<lambda>w. \<not> pbft_wire w) p p1" using cs(1) by (auto simp: steady_def)
  have ok1: "node_ok X s rs p1" using node_ok_steady [OF assms(2) c(2) _ c(1)] by simp
  then have ok2: "node_ok X s rs (?st p1)"
    using store_old_ok [OF _ old, of p1] by (simp add: node_ok_def store_old_frame)
  note r = resume_effect [OF p1(2) ok2]
  show "p_askForLock p" using r p1(3) ctlD(4) [OF c(1)] by (simp add: store_old_frame)
  have "head p4 = head p1" using resume_quiet [OF p1(2)] by (simp add: quiet_simps store_old_frame [unfolded head_def])
  then show "p_NodeID q = p_NodeID p \<and> p_view q = p_view p \<and> node_ok X s rs q \<and> head_ok g bs q"
    using r h ctlD [OF c(1)] p1(4) by (simp add: store_old_frame node_ok_def head_ok_def head_def)
qed

end

section \<open>The invariant of the leader\<close>

text \<open>
  The leader has executed the first \<open>m\<close> of its proposals. If there is one more, it holds the lock and
  waits for that one to be committed.
\<close>

definition leader_ok :: "xlib \<Rightarrow> u64 \<Rightarrow> Request list \<Rightarrow> Block \<Rightarrow> Block list \<Rightarrow> nat \<Rightarrow> PbftNode \<Rightarrow> bool" where
  "leader_ok X s rs g bs m p \<longleftrightarrow> m \<le> length rs \<and> length rs \<le> m + 1 \<and> p_sequenceID p = s + of_nat m \<and>
     same_block (head p) ((g # bs) ! m) \<and> \<not> p_askForLock p \<and> (\<forall>r \<in> set rs. p_requestPool p (getDigest X r) \<noteq> None) \<and>
     (m < length rs \<longrightarrow> p_sequenceLock p \<and> p_requestPool p (getDigest X (rs ! m)) = Some (rs ! m))"

lemma seq_less:
  assumes "unat (s :: u64) + N < 2 ^ 64" and "j \<le> N" and "k \<le> N"
  shows "s + of_nat j < s + of_nat k \<longleftrightarrow> j < k"
proof -
  have "unat (s + of_nat i) = unat s + i" if "i \<le> N" for i
    using assms(1) that by (simp add: unat_word_ariths unat_of_nat)
  then show ?thesis using assms(2,3) by (simp add: word_less_nat_alt)
qed

lemma pending_only:
  assumes "leader_ok X s rs g bs m p" and "unat s + length rs < 2 ^ 64" and "k < length rs" and "\<not> s + of_nat k < p_sequenceID p"
  shows "k = m"
  using assms seq_less [OF assms(2), of k m] by (simp add: leader_ok_def)

lemma leader_ok_cong:
  assumes "leader_ok X s rs g bs m p" and "ctl q = ctl p" and "head q = head p" and "p_sequenceID q = p_sequenceID p"
  shows "leader_ok X s rs g bs m q"
  using assms(1,3,4) ctlD [OF assms(2)] by (simp add: leader_ok_def)

context replicated_ops
begin

lemma other_steady:
  assumes "pbft_step X P ops out ev p q" and "event_ok X s rs ev"
    and "\<forall>cv m. ev \<noteq> EPrePrepare cv m" and "\<forall>cv m. ev \<noteq> EPrepare cv m" and "\<forall>now cv c. ev \<noteq> ECommit now cv c"
    and "\<forall>m. ev \<noteq> ERequestOld m" and "\<forall>m. ev \<noteq> ESendOld m"
  shows "steady p q"
proof (cases ev)
  case (EViewChange m)
  then show ?thesis using assms(1)
    by (auto simp: pbft_step_def handleViewChangeMsg_def Let_def bindR_Inr_iff steady_def ctl_def broadcast_all_eq adds_def sends_def split: if_splits)
next
  case (ETick ms)
  then show ?thesis using assms(1)
    by (auto simp: pbft_step_def view_change_tick_def viewChangePropose_def Let_def bindR_Inr_iff steady_def ctl_def broadcast_all_eq
        adds_def sends_def split: if_splits)
next
  case EStop
  then show ?thesis using assms(1) by (auto simp: pbft_step_def WaitToStop_def steady_def ctl_def adds_def)
next
  case (EOutside now w)
  then show ?thesis using assms(1) out_steady by (auto simp: pbft_step_def)
qed (use assms in auto)

lemma RequestOld_effect:
  assumes "handleRequestOldSeq ops m p = Some (Inr q)" and "node_ok X s rs p"
  shows "ctl q = ctl p \<and> node_ok X s rs q"
proof (cases "is_leader p")
  case True
  then obtain oldR f r where r: "old_requests (p_height2Digest p) (p_requestPool p) (rom_SeqStartHeight m) (rom_SeqEndHeight m) [] = Some (Inr oldR)"
    "eo_HandleReqestforOldSeq ops m p = Inr (f, r)"
    "q = TcpDial (WSendOld \<lparr>som_SeqStartHeight = rom_SeqStartHeight m, som_SeqEndHeight = rom_SeqEndHeight m,
       som_OldRequest = oldR, som_SenderNode = p_RunningNode r\<rparr>) (nd_IPaddr (rom_SenderNode m)) r"
    using assms(1) by (auto simp: handleRequestOldSeq_def Let_def bindO_Inr_iff)
  have s: "ctl r = ctl p" "adds (\<lambda>w. \<not> pbft_wire w) p r" using old_steady [OF r(2)] by (auto simp: steady_def)
  have "oldR ! i \<in> set rs \<and> numbered X s rs (rom_SeqStartHeight m + of_nat i) (getDigest X (oldR ! i))" if "i < length oldR" for i
    using old_requests_found [OF r(1)] that assms(2) by (fastforce simp: node_ok_def stores_ok_def)
  then have "adds (wire_ok X s rs) p q"
    unfolding r(3) by (intro adds_TcpDial adds_mono [OF s(2)]) auto
  moreover have "ctl q = ctl p" using s(1) r(3) by (simp add: ctl_def TcpDial_def)
  ultimately show ?thesis using node_ok_steady [OF assms(2)] by blast
qed (use assms in \<open>simp add: handleRequestOldSeq_def\<close>)

lemma node_step:
  assumes "pbft_step X P ops out ev p q" and "event_ok X s rs ev" and "node_ok X s rs p" and "head_ok g bs p"
    and "list_all2 block_request rs bs" and "linked g bs"
  shows "p_NodeID q = p_NodeID p \<and> p_view q = p_view p \<and> node_ok X s rs q \<and> head_ok g bs q"
proof -
  have quiet: "head_ok g bs q" if "\<not> loud ev"
    using quiet_step [OF assms(1) that] assms(4) by (simp add: quiet_between_def head_ok_def)
  show ?thesis
  proof (cases ev)
    case (EPrePrepare cv m)
    then obtain k where k: "k < length rs" "pp_SeqID m = s + of_nat k" "pp_RequestMsg m = rs ! k" using assms(2) by auto
    have n: "numbered X s rs (pp_SeqID m) (getDigest X (pp_RequestMsg m))" "pp_RequestMsg m \<in> set rs" using k by (auto simp: numbered_def)
    have "handlePrePrepare X ops cv m p = Inr q" using assms(1) EPrePrepare by (simp add: pbft_step_def)
    from PrePrepare_effect [OF this] show ?thesis
    proof (elim disjE conjE)
      assume c: "ctl q = ctl (stored X (pp_SeqID m) (pp_RequestMsg m) p)"
        and a: "adds (prepare_for (getDigest X (pp_RequestMsg m)) (pp_SeqID m)) p q"
      have "stores_ok X s rs (p_requestPool q) (p_height2Digest q)"
        using stores_ok_stored [OF _ n(2,1)] assms(3) ctlD [OF c] by (simp add: node_ok_def stored_def)
      moreover have "p_proposing q = 0" using assms(3) ctlD [OF c] by (simp add: node_ok_def stored_def)
      ultimately have "node_ok X s rs q"
        using node_ok_adds [OF assms(3) a vote_ok(1) [OF n(1)]] by blast
      then show ?thesis using quiet EPrePrepare ctlD [OF c] by (simp add: stored_def)
    qed (use assms(3,4) in simp)
  next
    case (EPrepare cv m)
    then have h: "handlePrepare ops cv m p = Inr q" and n: "numbered X s rs (pm_SeqID m) (pm_Digest m)"
      using assms(1,2) by (auto simp: pbft_step_def)
    note e = Prepare_effect [OF h]
    have "node_ok X s rs q" using node_ok_steady [OF assms(3) _ vote_ok(2) [OF n]] e by blast
    then show ?thesis using quiet EPrepare e by (auto dest: ctlD)
  next
    case (ECommit now cv c)
    then have h: "handleCommit ops now cv c p = Some (Inr q)" using assms(1) by (simp add: pbft_step_def)
    show ?thesis
    proof (cases "executes cv c p")
      case True
      then obtain r where r: "p_requestPool p (cm_Digest c) = Some r" by (auto simp: executes_def)
      then have "r \<in> set rs" using assms(3) by (auto simp: node_ok_def stores_ok_def)
      then obtain b where b: "block_request r b" "b \<in> set bs" using request_block [OF assms(5)] by blast
      note e = Commit_executes [OF h True r b(1)]
      have "stores_ok X s rs (p_requestPool q) (p_height2Digest q)" "p_proposing q = 0" "p_NodeID q = p_NodeID p" "p_view q = p_view p"
        using e(1) assms(3) by (auto simp: ctl_def node_ok_def)
      then show ?thesis
        using node_ok_adds [OF assms(3) e(2)] head_ok_append [OF assms(6) b(2) assms(4) e(3)] by simp
    next
      case False
      note e = Commit_counts [OF h False]
      have "stores_ok X s rs (p_requestPool q) (p_height2Digest q)" "p_proposing q = 0" "p_NodeID q = p_NodeID p" "p_view q = p_view p"
        using e(4) assms(3) by (auto simp: ctl_def node_ok_def)
      then show ?thesis using node_ok_adds [OF assms(3) e(1)] head_ok_same [OF e(2) assms(4)] by simp
    qed
  next
    case (ERequestOld m)
    then show ?thesis using assms(1,3) RequestOld_effect [of m p q X s rs] quiet by (auto simp: pbft_step_def dest: ctlD)
  next
    case (ESendOld m)
    then show ?thesis
      using assms(1,2) SendOld_effect(2) [of X m p q s rs bs g] assms(3-6) by (simp add: pbft_step_def)
  qed (use other_steady [OF assms(1,2)] node_ok_steady [OF assms(3), of _ q] quiet assms(2) in \<open>auto simp: steady_def dest: ctlD\<close>)
qed

end

context replicated_ops
begin

lemma leader_step:
  assumes "pbft_step X P ops out ev p q" and "event_ok X s rs ev" and "node_ok X s rs p" and "leader_ok X s rs g bs m p"
    and "list_all2 block_request rs bs" and "linked g bs" and "head_ok g bs p" and "unat s + length rs < 2 ^ 64"
  shows "\<exists>m'. leader_ok X s rs g bs m' q"
proof -
  have quiet: "head q = head p \<and> p_sequenceID q = p_sequenceID p" if "\<not> loud ev"
    using quiet_step [OF assms(1) that] by (simp add: quiet_between_def)
  show ?thesis
  proof (cases ev)
    case (EPrePrepare cv msg)
    then obtain k where k: "k < length rs" "pp_SeqID msg = s + of_nat k" "pp_RequestMsg msg = rs ! k" using assms(2) by auto
    have "handlePrePrepare X ops cv msg p = Inr q" using assms(1) EPrePrepare by (simp add: pbft_step_def)
    from PrePrepare_effect [OF this] show ?thesis
    proof (elim disjE conjE)
      assume c: "ctl q = ctl (stored X (pp_SeqID msg) (pp_RequestMsg msg) p)" and "\<not> pp_SeqID msg < p_sequenceID p"
      then have "k = m" using pending_only [OF assms(4,8) k(1)] k(2) by simp
      then show ?thesis
        using assms(4) quiet EPrePrepare k ctlD [OF c] by (intro exI [of _ m]) (auto simp: leader_ok_def stored_def)
    qed (use assms(4) in blast)
  next
    case (EPrepare cv msg)
    then show ?thesis
      using assms(1) Prepare_effect [of cv msg p q] leader_ok_cong [OF assms(4)] quiet by (auto simp: pbft_step_def)
  next
    case (ECommit now cv c)
    then have h: "handleCommit ops now cv c p = Some (Inr q)" using assms(1) by (simp add: pbft_step_def)
    obtain k where k: "k < length rs" "cm_SeqID c = s + of_nat k" "cm_Digest c = getDigest X (rs ! k)"
      using assms(2) ECommit by (auto simp: numbered_def)
    show ?thesis
    proof (cases "executes cv c p")
      case True
      then have "\<not> s + of_nat k < p_sequenceID p" using k(2) by (simp add: executes_def not_less)
      then have km: "k = m" by (rule pending_only [OF assms(4,8) k(1)])
      have l: "p_requestPool p (cm_Digest c) = Some (rs ! m)" "length rs = m + 1" "m < length bs" "block_request (rs ! m) (bs ! m)"
        using assms(4,5) k km by (auto simp: leader_ok_def list_all2_conv_all_nth)
      note e = Commit_executes [OF h True l(1,4)]
      have "next_block (head p) (bs ! m)"
        using assms(4,6) l(3) next_block_cong [of "head p" "(g # bs) ! m"] by (simp add: leader_ok_def linked_def)
      then have "same_block (head q) ((g # bs) ! (m + 1))" using e(3) by (simp add: append_next_def)
      moreover have "p_askForLock q = p_askForLock p" "p_requestPool q = p_requestPool p" using e(1) by (auto simp: ctl_def)
      ultimately show ?thesis using assms(4) e(4) l(2) by (intro exI [of _ "m + 1"]) (simp add: leader_ok_def add.assoc)
    next
      case False
      have "p_requestPool p (cm_Digest c) \<noteq> None" using assms(4) k by (auto simp: leader_ok_def)
      then show ?thesis using Commit_counts [OF h False] leader_ok_cong [OF assms(4)] by auto
    qed
  next
    case (ERequestOld msg)
    then show ?thesis
      using assms(1,3) RequestOld_effect [of msg p q X s rs] leader_ok_cong [OF assms(4)] quiet by (auto simp: pbft_step_def)
  next
    case (ESendOld msg)
    then have "p_askForLock p"
      using assms(1,2) SendOld_effect(1) [of X msg p q s rs bs g] assms(3,5-7) by (simp add: pbft_step_def)
    then show ?thesis using assms(4) by (simp add: leader_ok_def)
  qed (use other_steady [OF assms(1,2)] leader_ok_cong [OF assms(4), of q] quiet assms(2) in \<open>auto simp: steady_def\<close>)
qed

text \<open>A proposal of the leader is a new entry of the log.\<close>

lemma propose_step:
  assumes "Propose X ops now p = Some (Inr q)" and "is_leader p" and "node_ok X s rs p" and "leader_ok X s rs g bs m p"
    and "list_all2 block_request rs bs" and "linked g bs"
  shows "\<exists>r b. list_all2 block_request (rs @ [r]) (bs @ [b]) \<and> linked g (bs @ [b]) \<and> node_ok X s (rs @ [r]) q \<and>
    leader_ok X s (rs @ [r]) g (bs @ [b]) m q \<and> p_NodeID q = p_NodeID p \<and> p_view q = p_view p \<and> head q = head p"
proof -
  let ?p = "p\<lparr>p_sequenceLock := True, p_sequenceLockHeld := True, p_proposing := 1\<rparr>"
  have lock: "\<not> p_sequenceLock p" "propose_round X ops now ?p = Inr q"
    using assms(1-3) by (auto simp: Propose_def node_ok_def split: if_splits)
  have m: "m = length rs" "length bs = length rs" using assms(4,5) lock(1) by (auto simp: leader_ok_def list_all2_lengthD)
  obtain ro q0 where q0: "eo_HandleinPropose ops now ?p = Inr (ro, q0)"
    "(case ro of None \<Rightarrow> Inr q0 | Some r \<Rightarrow> Inr (publish X r q0)) = (Inr q :: PbftNode res)"
    using lock(2) by (auto simp: propose_round_def bindR_Inr_iff)
  obtain r b where r: "ro = Some r" "block_request r b" "next_block (head ?p) b" "steady ?p q0" using propose_block [OF q0(1)] by blast
  have q: "q = publish X r q0" using q0(2) r(1) by simp
  have c: "ctl q0 = ctl ?p" "adds (\<lambda>w. \<not> pbft_wire w) ?p q0" using r(4) by (auto simp: steady_def)
  have qt: "head q0 = head p" "p_sequenceID q0 = s + of_nat m"
    using propose_quiet [OF q0(1)] assms(4) by (auto simp: quiet_simps leader_ok_def)
  have head: "same_block (head p) ((g # bs) ! m)" using assms(4) by (simp add: leader_ok_def)
  have "linked g (bs @ [b])"
    using assms(6) r(3) next_block_cong [OF head, of b] m by (auto simp: linked_def nth_append nth_Cons' head_def less_Suc_eq)
  moreover have "node_ok X s (rs @ [r]) q"
  proof (rule node_ok_adds [OF node_ok_mono [OF assms(3)]])
    have n: "numbered X s (rs @ [r]) (s + of_nat m) (getDigest X r)" by (auto simp: numbered_def m(1) intro!: exI [of _ "length rs"])
    have "stores_ok X s (rs @ [r]) (p_requestPool p) (p_height2Digest p)"
      using node_ok_mono [OF assms(3)] by (simp add: node_ok_def)
    from stores_ok_stored [OF this _ n] show "stores_ok X s (rs @ [r]) (p_requestPool q) (p_height2Digest q)"
      using ctlD [OF c(1)] qt(2) by (simp add: q publish_def Let_def broadcast_all_eq)
    show "p_proposing q = 0" by (simp add: q publish_def Let_def)
    have "adds (wire_ok X s (rs @ [r])) p q0" using c(2) by (auto simp: adds_def)
    then show "adds (wire_ok X s (rs @ [r])) p q"
      using qt(2) m(1) unfolding q publish_def Let_def
      by (auto intro!: adds_broadcast_all exI [of _ "length rs"])
  qed
  moreover have "leader_ok X s (rs @ [r]) g (bs @ [b]) m q"
  proof -
    have "p_sequenceID q = s + of_nat m" "head q = head p" "p_sequenceLock q" "p_askForLock q = p_askForLock p"
      "p_requestPool q = (p_requestPool p)(getDigest X r \<mapsto> r)"
      using ctlD [OF c(1)] qt by (simp_all add: q publish_def Let_def broadcast_all_eq head_def)
    moreover have "(g # bs @ [b]) ! m = (g # bs) ! m" using m by (simp add: nth_append nth_Cons')
    ultimately show ?thesis using assms(4) m(1) by (auto simp: leader_ok_def)
  qed
  moreover have "p_NodeID q = p_NodeID p \<and> p_view q = p_view p \<and> head q = head p"
    using ctlD [OF c(1)] qt by (simp add: q publish_def Let_def broadcast_all_eq head_def)
  ultimately show ?thesis using assms(5) r(2) by (intro exI [of _ r] exI [of _ b]) (simp add: list_all2_appendI)
qed

end

end
