(* ===== verification/Shard_Agreement.thy ===== *)
theory Shard_Agreement
  imports Pbft_Shard
begin

text \<open>
  The relay, the broker and the bridge protocol meet the contract \<open>replicated_ops\<close>, and so the nodes of
  a shard agree on its chain while the first leader leads.
\<close>

section \<open>Blocks made and added\<close>

lemma GenerateBlock_next:
  "GenerateBlock L P now miner bc = Inr (b, bc') \<Longrightarrow> next_block (bc_CurrentBlock bc) b"
  by (auto simp: GenerateBlock_def Let_def bindR_Inr_iff next_block_def NewBlock_def split: prod.splits)

lemma AddBlock_head: "AddBlock L P b bc = Inr bc' \<Longrightarrow> bc_CurrentBlock bc' = append_next b (bc_CurrentBlock bc)"
  by (auto simp: AddBlock_def append_next_def next_block_def bindR_Inr_iff split: if_splits)

lemma accepts_next: "accepts b bc = next_block (bc_CurrentBlock bc) b"
  by (simp add: accepts_def next_block_def)

lemma seq_loop_head:
  assumes "seq_loop X P reqs i n bc = Inr bc'"
  shows "\<exists>bs. (\<forall>b \<in> set bs. \<exists>r \<in> set reqs. block_request r b) \<and> bc_CurrentBlock bc' = fold append_next bs (bc_CurrentBlock bc)"
  using assms
proof (induction n arbitrary: i bc)
  case 0
  then show ?case by (intro exI [of _ "[]"]) simp
next
  case (Suc n)
  then obtain c where c: "i < length reqs" "add_request X P (reqs ! i) bc = Inr c" "seq_loop X P reqs (i + 1) n c = Inr bc'"
    by (auto simp: bindR_Inr_iff split: if_splits)
  obtain bs where bs: "\<forall>b \<in> set bs. \<exists>r \<in> set reqs. block_request r b" "bc_CurrentBlock bc' = fold append_next bs (bc_CurrentBlock c)"
    using Suc.IH [OF c(3)] by blast
  show ?case
  proof (cases "rq_Type (reqs ! i) = BlockRequest")
    case True
    then obtain b where b: "block_request (reqs ! i) b" "bc_CurrentBlock c = append_next b (bc_CurrentBlock bc)"
      using c(2) AddBlock_head by (auto simp: add_request_def bindR_Inr_iff block_request_def)
    then show ?thesis using bs c(1) by (intro exI [of _ "b # bs"]) auto
  next
    case False
    then show ?thesis using bs c(2) by (auto simp: add_request_def)
  qed
qed

lemma seq_heights_head:
  assumes "seq_heights X P som bc = Inr bc'"
  shows "\<exists>bs. (\<forall>b \<in> set bs. \<exists>r \<in> set (som_OldRequest som). block_request r b) \<and> bc_CurrentBlock bc' = fold append_next bs (bc_CurrentBlock bc)"
proof (cases "som_SeqStartHeight som > som_SeqEndHeight som")
  case True
  then show ?thesis using assms by (intro exI [of _ "[]"]) (simp add: seq_heights_def Let_def)
next
  case False
  then have "seq_loop X P (som_OldRequest som) 0 (unat (som_SeqEndHeight som - som_SeqStartHeight som) + 1) bc = Inr bc'"
    using assms by (auto simp: seq_heights_def Let_def bindR_Inr_iff simp del: seq_loop.simps split: if_splits)
  then show ?thesis by (rule seq_loop_head)
qed

lemma sequential_steady:
  "relay_HandleforSequentialRequest X P som p = Inr (f, q) \<Longrightarrow>
     steady p q \<and> (\<exists>bs. (\<forall>b \<in> set bs. \<exists>r \<in> set (som_OldRequest som). block_request r b) \<and> head q = fold append_next bs (head p))"
  "broker_HandleforSequentialRequest X P som p = Inr (f, q) \<Longrightarrow>
     steady p q \<and> (\<exists>bs. (\<forall>b \<in> set bs. \<exists>r \<in> set (som_OldRequest som). block_request r b) \<and> head q = fold append_next bs (head p))"
  using seq_heights_head [of X P som "p_CurChain p"] exI [of _ "[] :: Block list"]
  by (fastforce simp: relay_HandleforSequentialRequest_def broker_HandleforSequentialRequest_def bindR_Inr_iff steady_def ctl_def head_def
      adds_def split: if_splits)+

section \<open>Operations that are steady\<close>

lemma propose_block_steady:
  assumes "propose_block X P now p = Inr (r, q)"
  shows "\<exists>b. block_request r b \<and> next_block (head p) b" and "steady p q"
  using assms GenerateBlock_next
  by (auto simp: propose_block_def bindR_Inr_iff block_request_def head_def steady_def ctl_def adds_def)

lemma proposed_steady:
  assumes "proposed m = Inr (ro, q)" and "\<And>r. m = Inr (r, q) \<Longrightarrow> (\<exists>b. block_request r b \<and> next_block (head p) b) \<and> steady p q"
  shows "\<exists>r b. ro = Some r \<and> block_request r b \<and> next_block (head p) b \<and> steady p q"
  using assms by (fastforce simp: proposed_def bindR_Inr_iff)

lemma check_block_pool:
  assumes "check_block X m p = Inr (b, q)"
  shows "steady p q \<or> steady (p\<lparr>p_requestPool := (p_requestPool p)(pp_Digest m \<mapsto> pp_RequestMsg m)\<rparr>) q"
  using assms unfolding check_block_def by (auto elim!: bindR_InrE split: sum.splits)

lemma no_op_steady: "no_prepare_op m p = Inr (b, q) \<Longrightarrow> steady p q" "no_old_op m' p = Inr (b, q) \<Longrightarrow> steady p q"
  by (simp_all add: no_prepare_op_def no_old_op_def)

text \<open>Sending to other shards and to the supervisor.\<close>

lemma adds_clear_relay [simp]: "adds Q p (clear_relay q) = adds Q p q"
  by (simp add: clear_relay_def)

lemma adds_report: "adds (\<lambda>w. \<not> pbft_wire w) p q \<Longrightarrow> adds (\<lambda>w. \<not> pbft_wire w) p (report_block bim row q)"
  by (simp add: report_block_def Let_def adds_TcpDial)

lemma RelayMsgSend_adds: "RelayMsgSend P p = Inr q \<Longrightarrow> adds (\<lambda>w. \<not> pbft_wire w) p q"
  by (auto simp: RelayMsgSend_def intro!: adds_fold adds_TcpDial split: if_splits)

lemma RelayWithProofSend_adds:
  assumes "RelayWithProofSend X P b p = Inr q"
  shows "adds (\<lambda>w. \<not> pbft_wire w) p q"
proof -
  obtain r where r: "foldR (send_with_proof X b) (shard_ids p) p = Inr r" "q = clear_relay r"
    using assms by (auto simp: RelayWithProofSend_def bindR_Inr_iff split: if_splits)
  have "adds (\<lambda>w. \<not> pbft_wire w) p r"
    by (rule foldR_invariant [OF r(1), where P = "adds (\<lambda>w. \<not> pbft_wire w) p"])
       (auto simp: send_with_proof_def Let_def bindR_Inr_iff intro!: adds_TcpDial split: if_splits)
  then show ?thesis using r(2) by simp
qed

text \<open>Neither changes the current block.\<close>

lemma head_TcpDial [simp]: "head (TcpDial w a p) = head p"
  by (simp add: TcpDial_def head_def)

lemma head_clear_relay [simp]: "head (clear_relay p) = head p"
  by (simp add: clear_relay_def head_def)

lemma head_report [simp]: "head (report_block bim row p) = head p"
  by (simp add: report_block_def Let_def TcpDial_def head_def)

lemma head_fold: "(\<And>x q. head (f x q) = head q) \<Longrightarrow> head (fold f xs p) = head p"
  by (induction xs arbitrary: p) simp_all

lemma RelayMsgSend_head: "RelayMsgSend P p = Inr q \<Longrightarrow> head q = head p"
  by (auto simp: RelayMsgSend_def head_fold split: if_splits)

lemma RelayWithProofSend_head:
  assumes "RelayWithProofSend X P b p = Inr q"
  shows "head q = head p"
proof -
  obtain r where r: "foldR (send_with_proof X b) (shard_ids p) p = Inr r" "q = clear_relay r"
    using assms by (auto simp: RelayWithProofSend_def bindR_Inr_iff split: if_splits)
  have "head r = head p"
    by (rule foldR_invariant [OF r(1), where P = "\<lambda>r. head r = head p"])
       (auto simp: send_with_proof_def Let_def bindR_Inr_iff split: if_splits)
  then show ?thesis using r(2) by simp
qed

section \<open>The commits\<close>

lemma relay_leader_commit_effect:
  assumes "relay_leader_commit X P now epoch r block cur p = Inr q"
  shows "adds (\<lambda>w. \<not> pbft_wire w) p q" and "same_block (head q) (if cur then block else head p)"
proof -
  let ?b = "\<lambda>a :: relay_acc. block\<lparr>b_Body := ra_body a\<rparr>"
  let ?p = "\<lambda>a :: relay_acc. p\<lparr>p_CurChain := (p_CurChain p)\<lparr>bc_Txpool := ra_pool a,
    bc_CurrentBlock := (if cur then ?b a else bc_CurrentBlock (p_CurChain p))\<rparr>\<rparr>"
  let ?send = "\<lambda>a. if RelayWithMerkleProof P = 1 then RelayWithProofSend X P (?b a) (?p a) else RelayMsgSend P (?p a)"
  obtain a p2 where p2: "?send a = Inr p2" "\<exists>bim row. q = report_block bim row p2"
    using assms unfolding relay_leader_commit_def Let_def by (elim bindR_InrE) (simp only: sum.inject, blast)
  then obtain bim row where q: "q = report_block bim row p2" by blast
  have "adds (\<lambda>w. \<not> pbft_wire w) (?p a) p2" "head p2 = head (?p a)"
    using p2(1) by (auto simp del: adds_updates split: if_splits dest: RelayMsgSend_adds RelayWithProofSend_adds RelayMsgSend_head RelayWithProofSend_head)
  then show "adds (\<lambda>w. \<not> pbft_wire w) p q" "same_block (head q) (if cur then block else head p)"
    using q by (auto simp: same_block_def head_def [of "?p a"] head_def [of p] intro: adds_report)
qed

lemma commit_steps:
  assumes "p_requestPool p (cm_Digest c) = Some r" and "block_request r b"
  shows "relay_HandleinCommit X P now c p = Inr (f, q) \<Longrightarrow> steady p q \<and> same_block (head q) (append_next b (head p))"
    and "broker_HandleinCommit X P now c p = Inr (f, q) \<Longrightarrow> steady p q \<and> same_block (head q) (append_next b (head p))"
    and "bridge_HandleinCommit X P now c p = Inr (f, q) \<Longrightarrow> steady p q \<and> same_block (head q) (append_next b (head p))"
proof -
  have b: "DecodeB (rq_Content r) = Inr b" using assms(2) by (simp add: block_request_def)
  {
    assume h: "relay_HandleinCommit X P now c p = Inr (f, q)"
    then obtain bc where bc: "AddBlock (x_lib X) P b (p_CurChain p) = Inr bc"
      "q = p\<lparr>p_CurChain := bc\<rparr> \<or> relay_leader_commit X P now 0 r b (accepts b (p_CurChain p)) (p\<lparr>p_CurChain := bc\<rparr>) = Inr q"
      using assms(1) b by (auto simp: relay_HandleinCommit_def Let_def bindR_Inr_iff split: if_splits)
    have hd: "bc_CurrentBlock bc = append_next b (head p)" using AddBlock_head [OF bc(1)] by (simp add: head_def)
    from bc(2) have "adds (\<lambda>w. \<not> pbft_wire w) p q \<and> same_block (head q) (append_next b (head p))"
    proof
      assume "relay_leader_commit X P now 0 r b (accepts b (p_CurChain p)) (p\<lparr>p_CurChain := bc\<rparr>) = Inr q"
      from relay_leader_commit_effect [OF this] hd show ?thesis
        by (auto simp: accepts_next append_next_def head_def split: if_splits)
    qed (use hd in \<open>auto simp: head_def adds_def\<close>)
    then show "steady p q \<and> same_block (head q) (append_next b (head p))"
      using keeps_ctl [OF relay_commit_keeps [OF h]] by (simp add: steady_def)
  next
    assume h: "broker_HandleinCommit X P now c p = Inr (f, q)"
    then obtain bc where bc: "AddBlock (x_lib X) P b (p_CurChain p) = Inr bc"
      using assms(1) b by (auto simp: broker_HandleinCommit_def Let_def bindR_Inr_iff)
    have hd: "bc_CurrentBlock bc = append_next b (head p)" using AddBlock_head [OF bc(1)] by (simp add: head_def)
    have "adds (\<lambda>w. \<not> pbft_wire w) p q \<and> head q = append_next b (head p)"
      using h assms(1) b bc hd
      by (auto simp: broker_HandleinCommit_def Let_def head_def [of "p\<lparr>p_CurChain := bc\<rparr>"] head_fold intro!: adds_report adds_fold adds_TcpDial
          split: if_splits prod.splits)
    then show "steady p q \<and> same_block (head q) (append_next b (head p))"
      using keeps_ctl [OF broker_commit_keeps [OF h]] by (simp add: steady_def)
  next
    assume h: "bridge_HandleinCommit X P now c p = Inr (f, q)"
    then obtain bc where bc: "AddBlock (x_lib X) P b (p_CurChain p) = Inr bc"
      using assms(1) b by (auto simp: bridge_HandleinCommit_def Let_def bindR_Inr_iff)
    let ?p = "p\<lparr>p_CurChain := bc\<lparr>bc_Txpool := RemoveTxs (b_Body b) (bc_Txpool bc)\<rparr>\<rparr>"
    have hd: "head ?p = append_next b (head p)" using AddBlock_head [OF bc] by (simp add: head_def)
    consider "q = ?p" | bb a where "bridge_finish X P now r b a (?p\<lparr>p_bridgeBalances := bb\<rparr>) = (f, q)"
      using h assms(1) b bc
      by (auto simp: bridge_HandleinCommit_def handleBridgeLeaderCommit_def Let_def bindR_Inr_iff split: if_splits option.splits)
    then have "adds (\<lambda>w. \<not> pbft_wire w) p q \<and> head q = append_next b (head p)"
    proof cases
      case 2
      obtain j p2 where j: "combineBridgeSignature X (?p\<lparr>p_bridgeBalances := bb\<rparr>) = (j, p2)" by fastforce
      have p2: "adds (\<lambda>w. \<not> pbft_wire w) p p2" "head p2 = append_next b (head p)"
        using j hd by (auto simp: combineBridgeSignature_def head_def split: if_splits option.splits)
      have send: "adds (\<lambda>w. \<not> pbft_wire w) p r \<Longrightarrow> adds (\<lambda>w. \<not> pbft_wire w) p (send_bridge a sid r)" "head (send_bridge a sid r) = head r" for sid r
        by (auto simp: send_bridge_def intro!: adds_fold adds_TcpDial head_fold)
      show ?thesis
        using 2 j p2 send by (auto simp: bridge_finish_def Let_def head_fold intro!: adds_report adds_fold split: if_splits)
    qed (use hd in \<open>simp add: adds_def\<close>)
    then show "steady p q \<and> same_block (head q) (append_next b (head p))"
      using keeps_ctl [OF bridge_commit_keeps [OF h]] by (simp add: steady_def)
  }
qed

lemma out_handlers_steady:
  "relay_HandleMessageOutsidePBFT X now w p = Inr q \<Longrightarrow> steady p q" "steady p (broker_HandleMessageOutsidePBFT now w p)"
  "steady p (bridge_HandleMessageOutsidePBFT now w p)"
proof -
  have pool: "steady p (add_to_pool now txs p)" for txs by (simp add: add_to_pool_def steady_def ctl_def adds_def)
  show "relay_HandleMessageOutsidePBFT X now w p = Inr q \<Longrightarrow> steady p q"
    using pool by (cases w) (auto simp: handleRelay_def handleRelayWithProof_def handleInjectTx_def Let_def bindR_Inr_iff
        steady_def ctl_def adds_def split: if_splits)
  show "steady p (broker_HandleMessageOutsidePBFT now w p)"
    using pool by (cases w) (auto simp: broker_handleSeqIDinfos_def handleInjectTx_def steady_def ctl_def adds_def)
  show "steady p (bridge_HandleMessageOutsidePBFT now w p)"
    using pool by (cases w) (auto simp: bridge_handleSeqIDinfos_def handleBridgeOverlay_def handleInjectTx_def Let_def
        steady_def ctl_def adds_def add_to_pool_def split: option.splits)
qed


section \<open>The protocols replicate a chain\<close>

lemma bridge_steady:
  "bridge_HandleinPropose X P now p = Inr (r, q) \<Longrightarrow> (\<exists>b. block_request r b \<and> next_block (head p) b) \<and> steady p q"
  "bridge_HandleinPrepare X pm p = Inr (f, q) \<Longrightarrow> steady p q"
proof -
  assume "bridge_HandleinPropose X P now p = Inr (r, q)"
  then obtain p1 where p1: "propose_block X P now (resetBridgeSignatureRound p) = Inr (r, p1)" "prepareBridgeHash X (rq_Content r) p1 = Inr q"
    by (auto simp: bridge_HandleinPropose_def bindR_Inr_iff)
  have "steady p1 q" using p1(2) by (auto simp: prepareBridgeHash_def Let_def steady_def ctl_def adds_def split: option.splits)
  then show "(\<exists>b. block_request r b \<and> next_block (head p) b) \<and> steady p q"
    using propose_block_steady [OF p1(1)] by (auto simp: steady_def ctl_def adds_def resetBridgeSignatureRound_def head_def)
next
  assume "bridge_HandleinPrepare X pm p = Inr (f, q)"
  then show "steady p q"
    by (auto simp: bridge_HandleinPrepare_def prepareBridgeHashForDigest_def prepareBridgeHash_def partialSignBridge_def Let_def
        bindR_Inr_iff steady_def ctl_def adds_def split: option.splits if_splits)
qed

lemma bridge_preprepare_pool:
  assumes "bridge_HandleinPrePrepare X m p = Inr (f, q)"
  shows "steady p q \<or> steady (p\<lparr>p_requestPool := (p_requestPool p)(pp_Digest m \<mapsto> pp_RequestMsg m)\<rparr>) q"
proof -
  obtain b where d: "DecodeB (rq_Content (pp_RequestMsg m)) = Inr b"
    using assms by (auto simp: bridge_HandleinPrePrepare_def bindR_Inr_iff)
  show ?thesis
    using assms
    by (cases "IsValidBlock (x_lib X) b (p_CurChain p)")
      (auto simp: bridge_HandleinPrePrepare_def d prepareBridgeHash_def bindR_Inr_iff steady_def ctl_def adds_def
        resetBridgeSignatureRound_def Let_def split: option.splits if_splits)
qed

lemma proposed_block:
  "proposed (propose_block X P now p) = Inr (ro, q) \<Longrightarrow> \<exists>r b. ro = Some r \<and> block_request r b \<and> next_block (head p) b \<and> steady p q"
  "proposed (bridge_HandleinPropose X P now p) = Inr (ro, q) \<Longrightarrow> \<exists>r b. ro = Some r \<and> block_request r b \<and> next_block (head p) b \<and> steady p q"
  using propose_block_steady [of X P now p _ q] bridge_steady(1) [of X P now p _ q] by (blast intro: proposed_steady)+

text \<open>
  The interpretations. In the two CLPA protocols a request may be a repartition of the accounts, which
  is no block of \<open>block_request\<close>; they are not covered here.
\<close>

interpretation relay_shard: replicated_ops "relay_ops X P" "relay_HandleMessageOutsidePBFT X" for X P
  by unfold_locales
    (auto simp: relay_ops_def check_block_pool no_op_steady commit_steps sequential_steady out_handlers_steady
      dest!: proposed_block)

interpretation broker_shard: replicated_ops "broker_ops X P" "\<lambda>now w p. Inr (broker_HandleMessageOutsidePBFT now w p)" for X P
  by unfold_locales
    (auto simp: broker_ops_def check_block_pool no_op_steady commit_steps sequential_steady out_handlers_steady
      dest!: proposed_block)

interpretation bridge_shard: replicated_ops "bridge_ops X P" "\<lambda>now w p. Inr (bridge_HandleMessageOutsidePBFT now w p)" for X P
  by unfold_locales
    (auto simp: bridge_ops_def bridge_preprepare_pool bridge_steady no_op_steady commit_steps sequential_steady out_handlers_steady
      dest!: proposed_block)

lemma chosen_replicates:
  assumes "mode \<notin> {''CLPA'', ''CLPA_Broker''}"
  shows "replicated_ops (choose_ihm X P mode) (choose_ohm X mode)"
  using assms relay_shard.replicated_ops_axioms broker_shard.replicated_ops_axioms bridge_shard.replicated_ops_axioms
  by (simp add: choose_ihm_def choose_ohm_def)


section \<open>Runs of a shard\<close>

text \<open>
  \<open>I\<close> are the nodes of the shard, by their numbers, and \<open>S\<close> gives the state of each. A step is a step of
  one node; \<open>W\<close> are the messages sent so far, and \<open>ok W\<close> says which events may happen. The list has the
  events in their order, with the node of each.
\<close>

inductive shard_run ::
  "xlib \<Rightarrow> params \<Rightarrow> ExtraOp \<Rightarrow> outside \<Rightarrow> (wire set \<Rightarrow> event \<Rightarrow> bool) \<Rightarrow> u64 set \<Rightarrow> (u64 \<Rightarrow> PbftNode) \<Rightarrow>
   (u64 \<times> event) list \<Rightarrow> wire set \<Rightarrow> (u64 \<Rightarrow> PbftNode) \<Rightarrow> bool"
  for X P ops out ok I S0 where
  shard_start: "shard_run X P ops out ok I S0 [] {} S0"
| shard_step: "shard_run X P ops out ok I S0 es W S \<Longrightarrow> i \<in> I \<Longrightarrow> ok W ev \<Longrightarrow> pbft_step X P ops out ev (S i) q \<Longrightarrow>
    shard_run X P ops out ok I S0 (es @ [(i, ev)]) (W \<union> snd ` set (p_out q)) (S(i := q))"

text \<open>
  The consensus messages a node handles were sent by a node of the shard; requests for old
  blocks, view changes, ticks, stop signals and everything from outside are arbitrary. A message may arrive any number of times
  and in any order, or never. The first leader leads: no new view is announced.
\<close>

fun may_happen :: "wire set \<Rightarrow> event \<Rightarrow> bool" where
  "may_happen W (EPrePrepare cv m) = (WPrePrepare m \<in> W)"
| "may_happen W (EPrepare cv m) = (WPrepare m \<in> W)"
| "may_happen W (ECommit now cv m) = (WCommit m \<in> W)"
| "may_happen W (ESendOld m) = (WSendOld m \<in> W)"
| "may_happen W (ENewView ms m) = False"
| "may_happen W ev = True"

definition member_ok :: "xlib \<Rightarrow> u64 \<Rightarrow> Request list \<Rightarrow> Block \<Rightarrow> Block list \<Rightarrow> u64 \<Rightarrow> PbftNode \<Rightarrow> bool" where
  "member_ok X s rs g bs i p \<longleftrightarrow> p_NodeID p = i \<and> p_view p = 0 \<and> node_ok X s rs p \<and> head_ok g bs p"

definition shard_ok ::
  "xlib \<Rightarrow> u64 \<Rightarrow> u64 set \<Rightarrow> Block \<Rightarrow> Request list \<Rightarrow> Block list \<Rightarrow> nat \<Rightarrow> wire set \<Rightarrow> (u64 \<Rightarrow> PbftNode) \<Rightarrow> bool" where
  "shard_ok X s I g rs bs m W S \<longleftrightarrow> list_all2 block_request rs bs \<and> linked g bs \<and> (\<forall>w \<in> W. wire_ok X s rs w) \<and>
     (\<forall>i \<in> I. member_ok X s rs g bs i (S i)) \<and> leader_ok X s rs g bs m (S 0)"

lemma head_ok_mono: "head_ok g bs p \<Longrightarrow> head_ok g (bs @ [b]) p"
proof -
  assume "head_ok g bs p"
  then obtain k where "k \<le> length bs" "same_block (head p) ((g # bs) ! k)" by (auto simp: head_ok_def)
  then show ?thesis by (auto simp: head_ok_def nth_append nth_Cons' intro!: exI [of _ k])
qed

lemma member_ok_mono: "member_ok X s rs g bs i p \<Longrightarrow> member_ok X s (rs @ [r]) g (bs @ [b]) i p"
  by (auto simp: member_ok_def intro: node_ok_mono head_ok_mono)

text \<open>A message that a node has sent is one the nodes may handle.\<close>

lemma sent_ok:
  assumes "shard_ok X s I g rs bs m W S" and "may_happen W ev" and "\<And>now. ev \<noteq> EPropose now"
  shows "event_ok X s rs ev"
  using assms by (cases ev) (auto simp: shard_ok_def simp del: wire_ok.simps)

context replicated_ops
begin

lemma shard_step_ok:
  assumes "shard_ok X s I g rs bs m W S" and "i \<in> I" and "0 \<in> I" and "may_happen W ev" and "pbft_step X P ops out ev (S i) q"
    and "unat s + length rs < 2 ^ 64"
  shows "\<exists>rs' bs' m'. shard_ok X s I g rs' bs' m' (W \<union> snd ` set (p_out q)) (S(i := q)) \<and> length rs' \<le> Suc (length rs)"
proof -
  have log: "list_all2 block_request rs bs" "linked g bs" "leader_ok X s rs g bs m (S 0)"
    and W: "\<forall>w \<in> W. wire_ok X s rs w" and ok: "\<And>j. j \<in> I \<Longrightarrow> member_ok X s rs g bs j (S j)" using assms(1) by (auto simp: shard_ok_def)
  have mem: "p_NodeID (S i) = i" "p_view (S i) = 0" "node_ok X s rs (S i)" "head_ok g bs (S i)"
    using ok [OF assms(2)] by (auto simp: member_ok_def)
  show ?thesis
  proof (cases "\<exists>now. ev = EPropose now")
    case False
    then have ev: "event_ok X s rs ev" using sent_ok [OF assms(1,4)] by blast
    have "member_ok X s rs g bs i q" using node_step [OF assms(5) ev mem(3,4) log(1,2)] mem by (simp add: member_ok_def)
    moreover obtain m' where "leader_ok X s rs g bs m' ((S(i := q)) 0)"
      using leader_step [OF assms(5) ev mem(3) _ log(1,2) mem(4) assms(6)] log(3) by (cases "i = 0") auto
    ultimately have "shard_ok X s I g rs bs m' (W \<union> snd ` set (p_out q)) (S(i := q))"
      using log ok W by (auto simp: shard_ok_def member_ok_def node_ok_def)
    then show ?thesis by (intro exI [of _ rs] exI [of _ bs] exI [of _ m']) simp
  next
    case True
    then obtain now where p: "Propose X ops now (S i) = Some (Inr q)" using assms(5) by (auto simp: pbft_step_def)
    show ?thesis
    proof (cases "i = 0")
      case True
      then have "is_leader (S i)" using mem by (simp add: is_leader_def)
      from propose_step [OF p this mem(3) _ log(1,2), of m] log(3) True obtain r b where
        q: "list_all2 block_request (rs @ [r]) (bs @ [b])" "linked g (bs @ [b])" "node_ok X s (rs @ [r]) q"
          "leader_ok X s (rs @ [r]) g (bs @ [b]) m q" "p_NodeID q = i" "p_view q = 0" "head q = head (S i)"
        using mem by (auto simp del: list_all2_append)
      have "member_ok X s (rs @ [r]) g (bs @ [b]) i q"
        using q head_ok_mono [OF mem(4)] by (simp add: member_ok_def head_ok_def)
      then have "shard_ok X s I g (rs @ [r]) (bs @ [b]) m (W \<union> snd ` set (p_out q)) (S(i := q))"
        using q True ok W by (auto simp: shard_ok_def node_ok_def intro: member_ok_mono wire_ok_mono)
      then show ?thesis by fastforce
    next
      case False
      then have "q = S i" using p mem by (auto simp: Propose_def is_leader_def node_ok_def)
      then have "shard_ok X s I g rs bs m (W \<union> snd ` set (p_out q)) (S(i := q))"
        using assms(1) mem(3) by (auto simp: shard_ok_def node_ok_def)
      then show ?thesis by (intro exI [of _ rs] exI [of _ bs] exI [of _ m]) simp
    qed
  qed
qed

lemma shard_invariant:
  assumes "shard_run X P ops out may_happen I S0 es W S" and "shard_ok X s I g [] [] 0 {} S0" and "0 \<in> I" and "unat s + length es < 2 ^ 64"
  shows "\<exists>rs bs m. shard_ok X s I g rs bs m W S \<and> length rs \<le> length es"
  using assms(1,4)
proof (induction es W S rule: shard_run.induct)
  case shard_start
  then show ?case using assms(2) by force
next
  case (shard_step es W S i ev q)
  then obtain rs bs m where ok: "shard_ok X s I g rs bs m W S" "length rs \<le> length es" by auto
  have "unat s + length rs < 2 ^ 64" using ok(2) shard_step.prems by simp
  from shard_step_ok [OF ok(1) shard_step.hyps(2) assms(3) shard_step.hyps(3,4) this] ok(2) show ?case
    using order_trans [of _ "Suc (length rs)" "Suc (length es)"] by (metis Suc_le_mono length_append_singleton)
qed

end

section \<open>Agreement\<close>

lemma NewPbftNode_idle:
  assumes "NewPbftNode X P km tbl fp sdb db now s n pcc mode = Inr p"
  shows "p_out p = []" "p_proposing p = 0" "p_height2Digest p = Map.empty" "\<not> p_askForLock p"
  using assms by (auto simp: NewPbftNode_def Let_def bindR_Inr_iff initBridgeState_def loadBridgeSignatureMaterial_def
      split: if_splits option.splits)

lemma started_ok:
  assumes "\<forall>i \<in> I. NewPbftNode X P km tbl (fp i) (sdb i) (db i) (now i) sid i (pcc i) mode = Inr (S0 i) \<and> same_block (head (S0 i)) g"
    and "0 \<in> I"
  shows "shard_ok X (bh_Number (b_Header g) + 1) I g [] [] 0 {} S0"
proof -
  let ?s = "bh_Number (b_Header g) + 1"
  have m: "member_ok X ?s [] g [] i (S0 i) \<and> leader_ok X ?s [] g [] 0 (S0 i)" if "i \<in> I" for i
  proof -
    have n: "NewPbftNode X P km tbl (fp i) (sdb i) (db i) (now i) sid i (pcc i) mode = Inr (S0 i)" "same_block (head (S0 i)) g"
      using assms(1) that by auto
    then have "p_sequenceID (S0 i) = ?s" using NewPbftNode_fields(11) [OF n(1)] by (simp add: same_block_def head_def)
    then show ?thesis
      using NewPbftNode_fields [OF n(1)] NewPbftNode_idle [OF n(1)] n(2)
      by (simp add: member_ok_def leader_ok_def node_ok_def stores_ok_def head_ok_def)
  qed
  then show ?thesis using assms(2) by (simp add: shard_ok_def linked_def)
qed

text \<open>
  (C2) The nodes of a shard agree on its chain. They are started by \<open>NewPbftNode\<close> with the relay, the broker or the bridge
  protocol at the same block; from there the handlers run at the nodes in any order and number, the consensus
  messages they handle have been sent by nodes of the shard but may be repeated, reordered and lost, and everything else
  they receive is arbitrary. While the first leader leads, there is one chain of blocks, each of them
  numbered and hash-linked to the one before, such that every node's current block is one of them, and two nodes at the same height have
  the same block, with the same hash and state root. The number of steps keeps the 64-bit sequence numbers from wrapping.
\<close>

theorem shard_nodes_agree:
  assumes "mode \<notin> {''CLPA'', ''CLPA_Broker''}"
    and "\<forall>i \<in> I. NewPbftNode X P km tbl (fp i) (sdb i) (db i) (now i) sid i (pcc i) mode = Inr (S0 i) \<and> same_block (head (S0 i)) g"
    and "0 \<in> I"
    and "shard_run X P (choose_ihm X P mode) (choose_ohm X mode) may_happen I S0 es W S"
    and "unat (bh_Number (b_Header g)) + 1 + length es < 2 ^ 64"
  shows "(\<exists>bs. linked g bs \<and> length bs \<le> length es \<and> (\<forall>i \<in> I. \<exists>k \<le> length bs. same_block (head (S i)) ((g # bs) ! k))) \<and>
    (\<forall>i \<in> I. \<forall>j \<in> I. bh_Number (b_Header (head (S i))) = bh_Number (b_Header (head (S j))) \<longrightarrow> same_block (head (S i)) (head (S j)))"
proof -
  let ?s = "bh_Number (b_Header g) + 1"
  have "unat ?s \<le> unat (bh_Number (b_Header g)) + 1" by (simp add: unat_word_ariths)
  then have "unat ?s + length es < 2 ^ 64" using assms(5) by simp
  from replicated_ops.shard_invariant [OF chosen_replicates [OF assms(1)] assms(4) started_ok [OF assms(2,3)] assms(3) this]
  obtain rs bs m where ok: "shard_ok X ?s I g rs bs m W S" "length rs \<le> length es" by blast
  have l: "linked g bs" "length bs \<le> length es" and heads: "\<forall>i \<in> I. head_ok g bs (S i)"
    using ok by (auto simp: shard_ok_def member_ok_def dest: list_all2_lengthD)
  have "same_block (head (S i)) (head (S j))"
    if ij: "i \<in> I" "j \<in> I" "bh_Number (b_Header (head (S i))) = bh_Number (b_Header (head (S j)))" for i j
  proof -
    obtain k k' where k: "k \<le> length bs" "same_block (head (S i)) ((g # bs) ! k)" "k' \<le> length bs" "same_block (head (S j)) ((g # bs) ! k')"
      using heads ij(1,2) unfolding head_ok_def by blast
    have "k = k'" using number_inj [OF l(1) k(1,3)] k(2,4) ij(3) l(2) assms(5) by (simp add: same_block_def)
    then show ?thesis using k(2,4) by (simp add: same_block_def)
  qed
  then show ?thesis using l heads unfolding head_ok_def by blast
qed

text \<open>Two nodes on the chain of \<open>Demo_Lib\<close>; the leader proposes a block and the other one receives it.\<close>

definition demo_peer :: "u64 \<Rightarrow> PbftNode" where
  "demo_peer i = projr (NewPbftNode demo_x defaultParams demo_keys (\<lambda>s n. None) ''x''
     (sg_DataBase (bc_Storage (demo_chain 0))) [] 1 0 i (demo_config 0) ''Relay'')"

lemma demo_peer_started:
  "NewPbftNode demo_x defaultParams demo_keys (\<lambda>s n. None) ''x'' (sg_DataBase (bc_Storage (demo_chain 0))) [] 1 0 i (demo_config 0) ''Relay'' =
     Inr (demo_peer i)"
  and demo_peer_chain: "head (demo_peer i) = demo_genesis" "current_state demo_lib (p_CurChain (demo_peer i)) = Some Map.empty"
    "fst (pack_block defaultParams (p_CurChain (demo_peer i))) = []"
proof -
  obtain bc where bc: "NewBlockChain demo_lib defaultParams (demo_config 0) ''x'' (sg_DataBase (bc_Storage (demo_chain 0))) [] = Inr bc"
    "bc_CurrentBlock bc = demo_genesis" "TxQueue (bc_Txpool bc) = []"
    using restart [OF demo_chain_ok [of 0], of defaultParams "demo_config 0" "''x''"] by auto
  then show "NewPbftNode demo_x defaultParams demo_keys (\<lambda>s n. None) ''x'' (sg_DataBase (bc_Storage (demo_chain 0))) [] 1 0 i (demo_config 0) ''Relay'' =
      Inr (demo_peer i)" "head (demo_peer i) = demo_genesis"
    "current_state demo_lib (p_CurChain (demo_peer i)) = Some Map.empty" "fst (pack_block defaultParams (p_CurChain (demo_peer i))) = []"
    by (simp_all add: demo_peer_def NewPbftNode_def head_def current_state_def pack_block_def PackTxs_def defaultParams_def)
qed

lemmas demo_peer_fields = NewPbftNode_fields [OF demo_peer_started] NewPbftNode_idle [OF demo_peer_started]


lemma demo_leader_proposes:
  "\<exists>q m. pbft_step demo_x defaultParams (relay_ops demo_x defaultParams) (relay_HandleMessageOutsidePBFT demo_x) (EPropose 9) (demo_peer 0) q \<and>
     WPrePrepare m \<in> snd ` set (p_out q) \<and> pp_SeqID m = 1 \<and> pp_Digest m = [3] \<and> (\<exists>b. block_request (pp_RequestMsg m) b) \<and>
     p_requestPool q [3] = Some (pp_RequestMsg m)"
proof -
  let ?p = "(demo_peer 0)\<lparr>p_sequenceLock := True, p_sequenceLockHeld := True, p_proposing := 1\<rparr>"
  obtain b bc where g: "GenerateBlock demo_lib defaultParams 9 0 (p_CurChain (demo_peer 0)) = Inr (b, bc)"
    by (rule GenerateBlock_spec [OF demo_lib_laws demo_peer_chain(2) trie_ok_empty, of defaultParams 0 9 0]) (simp_all add: demo_peer_chain(3))
  let ?r = "\<lparr>rq_Type = BlockRequest, rq_Content = B_Encode b, rq_ReqTime = 9\<rparr>"
  let ?q = "publish demo_x ?r (?p\<lparr>p_CurChain := bc\<rparr>)"
  let ?m = "\<lparr>pp_RequestMsg = ?r, pp_Digest = [3], pp_SeqID = 1, pp_B = p_bridgePreparedHash ?p, pp_BlockBPKCS1 = p_bridgePreparedPKCS1 ?p\<rparr>"
  have "Propose demo_x (relay_ops demo_x defaultParams) 9 (demo_peer 0) = Some (Inr ?q)"
    using g by (simp add: Propose_def propose_round_def relay_ops_def proposed_def propose_block_def is_leader_def demo_peer_fields)
  moreover have "p_sequenceID (demo_peer 0) = 1"
    using demo_peer_chain(1) [of 0] by (simp add: demo_peer_fields head_def)
  then have "WPrePrepare ?m \<in> snd ` set (p_out ?q)"
    by (simp add: publish_def Let_def broadcast_all_eq sends_def)
  ultimately show ?thesis
    by (intro exI [of _ ?q] exI [of _ ?m]) (simp add: pbft_step_def block_request_def publish_def Let_def broadcast_all_eq)
qed

theorem shard_nodes_agree_witness:
  "\<exists>es W S r. shard_run demo_x defaultParams (choose_ihm demo_x defaultParams ''Relay'') (choose_ohm demo_x ''Relay'') may_happen {0, 1}
       demo_peer es W S \<and> length es = 2 \<and>
     p_requestPool (S 0) [3] = Some r \<and> p_requestPool (S 1) [3] = Some r \<and>
     (\<exists>bs. linked demo_genesis bs \<and> length bs \<le> 2 \<and> (\<forall>i \<in> {0, 1}. \<exists>k \<le> length bs. same_block (head (S i)) ((demo_genesis # bs) ! k))) \<and>
     (\<forall>i \<in> {0, 1}. \<forall>j \<in> {0, 1}. bh_Number (b_Header (head (S i))) = bh_Number (b_Header (head (S j))) \<longrightarrow> same_block (head (S i)) (head (S j)))"
proof -
  let ?X = demo_x and ?P = defaultParams and ?I = "{0, 1} :: u64 set"
  let ?o = "choose_ihm demo_x defaultParams ''Relay''" and ?h = "choose_ohm demo_x ''Relay''"
  have o: "?o = relay_ops ?X ?P" "?h = relay_HandleMessageOutsidePBFT ?X" by (simp_all add: choose_ihm_def choose_ohm_def)
  obtain q m b where q: "pbft_step ?X ?P ?o ?h (EPropose 9) (demo_peer 0) q" "WPrePrepare m \<in> snd ` set (p_out q)" "pp_SeqID m = 1"
      "pp_Digest m = [3]" "block_request (pp_RequestMsg m) b" "p_requestPool q [3] = Some (pp_RequestMsg m)" using demo_leader_proposes unfolding o by blast
  let ?S1 = "demo_peer(0 := q)" and ?es = "[(0, EPropose 9), (1, EPrePrepare 0 m)]"
  have run1: "shard_run ?X ?P ?o ?h may_happen ?I demo_peer ([] @ [(0, EPropose 9)]) ({} \<union> snd ` set (p_out q)) ?S1"
    by (rule shard_step [OF shard_start]) (use q(1) in simp_all)
  obtain q' where q': "handlePrePrepare ?X ?o 0 m (demo_peer 1) = Inr q'" "p_requestPool q' [3] = Some (pp_RequestMsg m)"
  proof (cases "IsValidBlock demo_lib b (p_CurChain (demo_peer 1))")
  qed (use q(3-5) demo_peer_chain(1) [of 1] in \<open>auto simp: handlePrePrepare_def o relay_ops_def check_block_def block_request_def Let_def demo_peer_fields
    head_def broadcast_all_eq\<close>)
  have "pbft_step ?X ?P ?o ?h (EPrePrepare 0 m) (?S1 1) q'"
    using q'(1) by (simp add: pbft_step_def waits_PrePrepare_def demo_peer_fields)
  then have "shard_run ?X ?P ?o ?h may_happen ?I demo_peer (([] @ [(0, EPropose 9)]) @ [(1, EPrePrepare 0 m)])
      (({} \<union> snd ` set (p_out q)) \<union> snd ` set (p_out q')) (?S1(1 := q'))"
    using q(2) by (intro shard_step [OF run1]) simp_all
  then obtain W where run: "shard_run ?X ?P ?o ?h may_happen ?I demo_peer ?es W (?S1(1 := q'))" by auto
  have start: "\<forall>i \<in> ?I. NewPbftNode ?X ?P demo_keys (\<lambda>s n. None) ''x'' (sg_DataBase (bc_Storage (demo_chain 0))) [] 1 0 i (demo_config 0) ''Relay'' =
      Inr (demo_peer i) \<and> same_block (head (demo_peer i)) demo_genesis"
    by (simp add: demo_peer_started demo_peer_chain)
  have "''Relay'' \<notin> {''CLPA'', ''CLPA_Broker''}" "0 \<in> ?I" "unat (bh_Number (b_Header demo_genesis)) + 1 + length ?es < 2 ^ 64" by simp_all
  from shard_nodes_agree [OF this(1) start this(2) run this(3)] show ?thesis
    using run q'(2) q(6)
    by (intro exI [of _ ?es] exI [of _ W] exI [of _ "?S1(1 := q')"] exI [of _ "pp_RequestMsg m"]) (simp add: numeral_2_eq_2)
qed


section \<open>What the commit handler does not check\<close>

text \<open>
  (C32) The commit handler does not ask whether the request is the next one. A replica of the relay protocol that has stored the request of
  a later block and gets the last commit it needs for it counts it as executed: the chain refuses the block, because it does not
  follow the current one, but the sequence number goes up, the request is marked as done, and from then on the replica
  ignores every commit and every pre-prepare of the block it is still missing.
\<close>

theorem skipped_block_is_counted:
  assumes "executed (ECommit now (p_view p) c) p = [cm_Digest c]" and "p_sequenceID p < cm_SeqID c" and "\<not> is_leader p"
    and "p_requestPool p (cm_Digest c) = Some r" and "DecodeB (rq_Content r) = Inr b"
    and "bh_Number (b_Header b) \<noteq> bh_Number (b_Header (head p)) + 1"
  shows "\<exists>q. handleCommit (relay_ops X P) now (p_view p) c p = Some (Inr q) \<and> head q = head p \<and> p_sequenceID q = p_sequenceID p + 1 \<and>
    p_isReply q (cm_Digest c) \<and>
    (\<forall>now' c'. cm_SeqID c' = p_sequenceID p \<longrightarrow> handleCommit (relay_ops X P) now' (p_view q) c' q = Some (Inr q)) \<and>
    (\<forall>m. pp_SeqID m = p_sequenceID p \<longrightarrow> handlePrePrepare X (relay_ops X P) (p_view q) m q = Inr q)"
proof -
  let ?s = "counted c p"
  let ?q = "end_round (UnixMilli now) (?s\<lparr>p_isReply := (p_isReply ?s)(cm_Digest c := True), p_sequenceID := p_sequenceID ?s + 1\<rparr>)"
  have "AddBlock (x_lib X) P b (p_CurChain ?s) = Inr (p_CurChain ?s)" using assms(6) by (simp add: AddBlock_def head_def)
  from relay_commit_replica [OF _ assms(5) this] have "relay_HandleinCommit X P now c ?s = Inr (True, ?s)"
    using assms(3,4) by simp
  then have q: "handleCommit (relay_ops X P) now (p_view p) c p = Some (Inr ?q)"
    using assms(1,2) by (simp add: handleCommit_cases relay_ops_def not_less order.strict_implies_order split: if_splits)
  have seq: "p_sequenceID ?q = p_sequenceID p + 1" by simp
  have "unat (p_sequenceID p) + 1 < 2 ^ 64"
    using assms(2) unsigned_less [of "cm_SeqID c", where ?'a = nat] by (simp add: word_less_nat_alt)
  then have less: "p_sequenceID p < p_sequenceID ?q" unfolding seq by (simp add: word_less_nat_alt unat_word_ariths)
  then have "\<forall>now' c'. cm_SeqID c' = p_sequenceID p \<longrightarrow> handleCommit (relay_ops X P) now' (p_view ?q) c' ?q = Some (Inr ?q)"
    by (simp add: handleCommit_cases)
  moreover have "\<forall>m. pp_SeqID m = p_sequenceID p \<longrightarrow> handlePrePrepare X (relay_ops X P) (p_view ?q) m ?q = Inr ?q"
    using less by (simp add: handlePrePrepare_def)
  moreover have "head ?q = head p" by (simp add: head_def end_round_def Let_def)
  ultimately show ?thesis using q seq by (intro exI [of _ ?q]) simp
qed

text \<open>The node of \<open>Demo_Node\<close>, at height 0, with two of the three commits for a block of height 2.\<close>

definition demo_ahead :: PbftNode where
  "demo_ahead = demo_waiting\<lparr>p_cntCommitConfirm := (\<lambda>_. replicate 2 (cm_SenderNode demo_commit)),
     p_requestPool := [[3] \<mapsto> demo_request\<lparr>rq_Content := B_Encode (demo_block\<lparr>b_Header := (b_Header demo_block)\<lparr>bh_Number := 2\<rparr>\<rparr>)\<rparr>]\<rparr>"

theorem skipped_block_is_counted_witness:
  "\<exists>q. handleCommit (relay_ops demo_x defaultParams) 9 0 (demo_commit\<lparr>cm_SeqID := 2\<rparr>) demo_ahead = Some (Inr q) \<and>
     bh_Number (b_Header (head q)) = 0 \<and> p_sequenceID q = 2"
proof -
  let ?c = "demo_commit\<lparr>cm_SeqID := 2\<rparr>"
  have f: "p_sequenceID demo_ahead = 1" "p_view demo_ahead = 0" "\<not> is_leader demo_ahead" "quorum demo_ahead = 3"
    "bh_Number (b_Header (head demo_ahead)) = 0" "p_bridges demo_ahead = None"
    using demo_waiting_fields demo_node_chain(2) by (simp_all add: demo_ahead_def is_leader_def quorum_def head_def)
  have "executed (ECommit 9 0 ?c) demo_ahead = [cm_Digest ?c]"
    using f demo_waiting_fields by (simp add: executes_def isBridgeMode_def) (simp add: demo_ahead_def)
  moreover have "p_requestPool demo_ahead (cm_Digest ?c) =
      Some (demo_request\<lparr>rq_Content := B_Encode (demo_block\<lparr>b_Header := (b_Header demo_block)\<lparr>bh_Number := 2\<rparr>\<rparr>)\<rparr>)"
    by (simp add: demo_ahead_def)
  ultimately have "\<exists>q. handleCommit (relay_ops demo_x defaultParams) 9 (p_view demo_ahead) ?c demo_ahead = Some (Inr q) \<and> head q = head demo_ahead \<and>
      p_sequenceID q = p_sequenceID demo_ahead + 1"
    using skipped_block_is_counted [of 9 demo_ahead ?c _ "demo_block\<lparr>b_Header := (b_Header demo_block)\<lparr>bh_Number := 2\<rparr>\<rparr>" demo_x defaultParams] f by fastforce
  then show ?thesis using f by auto
qed

end
