(* ===== verification/Shard_Fork.thy ===== *)
theory Shard_Fork
  imports Shard_Agreement
begin

text \<open>
  A change of the leader can split a shard. The view-change and new-view messages carry no requests that
  nodes have prepared, so a vote of one view does not bind in the next one. Here every message is one that a node
  has sent, each node handles a message at most once, and all nodes follow the code.
\<close>

section \<open>Runs in which messages are only delayed\<close>

fun delivered :: "wire set \<Rightarrow> event \<Rightarrow> bool" where
  "delivered W (EPrePrepare cv m) = (WPrePrepare m \<in> W)"
| "delivered W (EPrepare cv m) = (WPrepare m \<in> W)"
| "delivered W (ECommit now cv m) = (WCommit m \<in> W)"
| "delivered W (ERequestOld m) = (WRequestOld m \<in> W)"
| "delivered W (ESendOld m) = (WSendOld m \<in> W)"
| "delivered W (EViewChange m) = (WViewChange m \<in> W)"
| "delivered W (ENewView ms m) = (WNewView m \<in> W)"
| "delivered W (EPropose now) = True"
| "delivered W (ETick ms) = True"
| "delivered W (EOutside now w) = False"
| "delivered W EStop = False"

lemma delivered_mono: "delivered W ev \<Longrightarrow> W \<subseteq> W' \<Longrightarrow> delivered W' ev"
  by (cases ev) auto

text \<open>A run of one node, and of the nodes of a group one after the other, is a run of the shard.\<close>

lemma node_run:
  assumes "pbft_run X P ops out (S i) evs ds q" and "shard_run X P ops out delivered I S0 es W S" and "i \<in> I"
    and "\<forall>ev \<in> set evs. delivered W ev"
  shows "\<exists>W'. shard_run X P ops out delivered I S0 (es @ map (Pair i) evs) W' (S(i := q)) \<and> W \<subseteq> W' \<and>
    (evs \<noteq> [] \<longrightarrow> snd ` set (p_out q) \<subseteq> W')"
  using assms(1,4)
proof (induction rule: pbft_run.induct)
  case run_nil
  then show ?case using assms(2) by (intro exI [of _ W]) simp
next
  case (run_step evs ds r ev r')
  then obtain W' where W': "shard_run X P ops out delivered I S0 (es @ map (Pair i) evs) W' (S(i := r))" "W \<subseteq> W'"
    by (auto simp del: fun_upd_apply)
  have "delivered W' ev" using run_step.prems W'(2) delivered_mono by auto
  moreover have "pbft_step X P ops out ev ((S(i := r)) i) r'" using run_step.hyps(2) by simp
  ultimately show ?case using shard_step [OF W'(1) assms(3)] W'(2)
    by (intro exI [of _ "W' \<union> snd ` set (p_out r')"]) (auto simp del: fun_upd_apply)
qed

lemma group_run:
  assumes "distinct xs" and "set xs \<subseteq> I" and "shard_run X P ops out delivered I S0 es W S"
    and "\<forall>i \<in> set xs. evs i \<noteq> [] \<and> (\<forall>ev \<in> set (evs i). delivered W ev) \<and> (\<exists>q ds. pbft_run X P ops out (S i) (evs i) ds q \<and> Q i q)"
  shows "\<exists>W' S'. shard_run X P ops out delivered I S0 (es @ concat (map (\<lambda>i. map (Pair i) (evs i)) xs)) W' S' \<and> W \<subseteq> W' \<and>
    (\<forall>i. i \<notin> set xs \<longrightarrow> S' i = S i) \<and> (\<forall>i \<in> set xs. Q i (S' i) \<and> snd ` set (p_out (S' i)) \<subseteq> W')"
  using assms
proof (induction xs rule: rev_induct)
  case Nil
  then show ?case by (intro exI [of _ W] exI [of _ S]) simp
next
  case (snoc x xs)
  obtain W' S' where W': "shard_run X P ops out delivered I S0 (es @ concat (map (\<lambda>i. map (Pair i) (evs i)) xs)) W' S'"
    "W \<subseteq> W'" "\<forall>i. i \<notin> set xs \<longrightarrow> S' i = S i" "\<forall>i \<in> set xs. Q i (S' i) \<and> snd ` set (p_out (S' i)) \<subseteq> W'" using snoc by auto
  obtain q ds where q: "pbft_run X P ops out (S' x) (evs x) ds q" "evs x \<noteq> []" "\<forall>ev \<in> set (evs x). delivered W' ev" "Q x q"
    using snoc.prems W'(2,3) delivered_mono by fastforce
  from node_run [OF q(1) W'(1) _ q(3)] q(2) snoc.prems(2) obtain W2 where
    W2: "shard_run X P ops out delivered I S0 ((es @ concat (map (\<lambda>i. map (Pair i) (evs i)) xs)) @ map (Pair x) (evs x)) W2 (S'(x := q))"
    "W' \<subseteq> W2" "snd ` set (p_out q) \<subseteq> W2" by auto
  have "\<forall>i \<in> set (xs @ [x]). Q i ((S'(x := q)) i) \<and> snd ` set (p_out ((S'(x := q)) i)) \<subseteq> W2"
    using W'(4) W2(2,3) q(4) by auto
  then show ?case using W'(2,3) W2(1,2) by (intro exI [of _ W2] exI [of _ "S'(x := q)"]) (simp del: fun_upd_apply, simp)
qed

section \<open>The phases of a node\<close>

text \<open>A node with its number, its address and its view, at a sequence number, in a shard of four; and that it has no votes on a digest.\<close>

definition seat :: "u64 \<Rightarrow> Node \<Rightarrow> u64 \<Rightarrow> int \<Rightarrow> PbftNode \<Rightarrow> bool" where
  "seat i n s v p \<longleftrightarrow> p_NodeID p = i \<and> p_RunningNode p = n \<and> p_sequenceID p = s \<and> p_view p = v \<and> p_node_nums p = 4 \<and>
     p_malicious_nums p = 1 \<and> p_bridges p = None \<and> \<not> p_stopSignal p \<and> 1 \<le> p_pbftStage p"

definition fresh_for :: "bytes \<Rightarrow> PbftNode \<Rightarrow> bool" where
  "fresh_for d p \<longleftrightarrow> p_cntPrepareConfirm p d = [] \<and> \<not> p_isCommitBordcast p d \<and> p_cntCommitConfirm p d = [] \<and> \<not> p_isReply p d"

text \<open>
  What voting on one digest keeps: the votes on others, the chain, the lock, and what was received about views; and what a
  change of the view keeps.
\<close>

definition kept :: "bytes \<Rightarrow> PbftNode \<Rightarrow> PbftNode \<Rightarrow> bool" where
  "kept d p q \<longleftrightarrow> p_CurChain q = p_CurChain p \<and> p_sequenceLock q = p_sequenceLock p \<and> p_proposing q = p_proposing p \<and>
     p_viewChangeMap q = p_viewChangeMap p \<and> p_newViewMap q = p_newViewMap p \<and> p_cntCommitConfirm q = p_cntCommitConfirm p \<and>
     p_isReply q = p_isReply p \<and> (\<forall>d'. d' \<noteq> d \<longrightarrow> fresh_for d' p \<longrightarrow> fresh_for d' q)"

definition unmoved :: "PbftNode \<Rightarrow> PbftNode \<Rightarrow> bool" where
  "unmoved p q \<longleftrightarrow> p_CurChain q = p_CurChain p \<and> p_sequenceLock q = p_sequenceLock p \<and> p_proposing q = p_proposing p \<and>
     (\<forall>d. fresh_for d p \<longrightarrow> fresh_for d q)"

definition prepare_msg :: "bytes \<Rightarrow> u64 \<Rightarrow> Node \<Rightarrow> Prepare" where
  "prepare_msg d s n = \<lparr>pm_Digest = d, pm_SeqID = s, pm_SenderNode = n\<rparr>"

definition vote_msg :: "bytes \<Rightarrow> u64 \<Rightarrow> Node \<Rightarrow> Commit" where
  "vote_msg d s n = \<lparr>cm_Digest = d, cm_SeqID = s, cm_SenderNode = n, cm_PartialSig = []\<rparr>"

definition change_msg :: "u64 \<Rightarrow> u64 \<Rightarrow> ViewChangeMsg" where
  "change_msg s i = \<lparr>vc_CurView = 0, vc_NextView = 1, vc_SeqID = sint s, vc_FromNode = i\<rparr>"

definition new_msg :: "u64 \<Rightarrow> u64 \<Rightarrow> NewViewMsg" where
  "new_msg s i = \<lparr>nv_CurView = 0, nv_NextView = 1, nv_NewSeqID = sint s, nv_FromNode = i\<rparr>"

lemma seat_quorum: "seat i n s v p \<Longrightarrow> unat (quorum p) = 3" "seat i n s v p \<Longrightarrow> view_quorum p = 3"
  by (simp_all add: seat_def quorum_def view_quorum_def)

text \<open>A node accepts a valid proposal, whatever it has voted for before.\<close>

lemma accept_phase:
  assumes "seat i n s v p" and "pp_Digest m = getDigest X (pp_RequestMsg m)" and "pp_SeqID m = s"
    and "DecodeB (rq_Content (pp_RequestMsg m)) = Inr b" and "IsValidBlock (x_lib X) b (p_CurChain p) = Inr ()"
  shows "\<exists>q. pbft_run X P (relay_ops X P) out p [EPrePrepare v m] [] q \<and> seat i n s v q \<and> 2 \<le> p_pbftStage q \<and>
    kept (pp_Digest m) p q \<and> (fresh_for (pp_Digest m) p \<longrightarrow> fresh_for (pp_Digest m) q) \<and> p_requestPool q (pp_Digest m) = Some (pp_RequestMsg m) \<and>
    WPrepare (prepare_msg (pp_Digest m) s n) \<in> snd ` set (p_out q)"
proof -
  let ?d = "pp_Digest m" and ?r = "pp_RequestMsg m"
  let ?q = "\<lambda>w. p\<lparr>p_requestPool := (p_requestPool p)(?d \<mapsto> ?r), p_height2Digest := (p_height2Digest p)(p_sequenceID p \<mapsto> ?d),
       p_out := w, p_pbftStage := p_pbftStage p + 1\<rparr>"
  obtain w where w: "pbft_run X P (relay_ops X P) out p [EPrePrepare (p_view p) m] [] (?q w)" "send_prepare m p \<in> snd ` set w"
    using preprepare_step [OF refl assms(2), of p b P out] assms by (auto simp: seat_def)
  then show ?thesis
    using assms(1,3) by (intro exI [of _ "?q w"]) (auto simp: seat_def kept_def fresh_for_def send_prepare_def prepare_msg_def)
qed

lemma prepare_phase:
  assumes "seat i n s v p" and "2 \<le> p_pbftStage p" and "fresh_for d p" and "p_requestPool p d \<noteq> None" and "length ns = 3"
  shows "\<exists>q. pbft_run X P (relay_ops X P) out p (map (\<lambda>n'. EPrepare v (prepare_msg d s n')) ns) [] q \<and> seat i n s v q \<and> 3 \<le> p_pbftStage q \<and>
    kept d p q \<and> p_requestPool q = p_requestPool p \<and> WCommit (vote_msg d s n) \<in> snd ` set (p_out q)"
proof -
  let ?pms = "map (prepare_msg d s) ns"
  have "\<exists>w. pbft_run X P (relay_ops X P) out p (map (EPrepare (p_view p)) ?pms) []
    (prep d (map pm_SenderNode ?pms) (if length ?pms = unat (quorum p) then p_pbftStage p + 1 else p_pbftStage p)
      (length ?pms = unat (quorum p)) w p) \<and>
    (length ?pms = unat (quorum p) \<longrightarrow> commit_msg d (p_sequenceID p) (p_RunningNode p) \<in> snd ` set w)"
    by (rule prepares_run) (use assms seat_quorum [OF assms(1)] in \<open>auto simp: relay_ops_def seat_def fresh_for_def prepare_msg_def\<close>)
  then obtain w where w: "pbft_run X P (relay_ops X P) out p (map (EPrepare (p_view p)) ?pms) []
      (prep d (map pm_SenderNode ?pms) (p_pbftStage p + 1) True w p)" "commit_msg d (p_sequenceID p) (p_RunningNode p) \<in> snd ` set w"
    using assms(5) seat_quorum(1) [OF assms(1)] by auto
  then show ?thesis
    using assms(1,2)
    by (intro exI [of _ "prep d (map pm_SenderNode ?pms) (p_pbftStage p + 1) True w p"])
      (auto simp: seat_def kept_def fresh_for_def prep_def commit_msg_def vote_msg_def o_def)
qed

lemma commit_phase:
  assumes "seat i n s v p" and "3 \<le> p_pbftStage p" and "p_cntCommitConfirm p d = []" and "\<not> p_isReply p d" and "p_requestPool p d = Some r"
    and "DecodeB (rq_Content r) = Inr b" and "AddBlock (x_lib X) P b (p_CurChain p) = Inr bc" and "length ns = 3" and "of_int v \<noteq> i"
  shows "\<exists>q. pbft_run X P (relay_ops X P) out p (map (\<lambda>n'. ECommit now v (vote_msg d s n')) ns) [d] q \<and> p_CurChain q = bc"
proof -
  have "\<exists>q. pbft_run X P (relay_ops X P) out p (map (ECommit now (p_view p)) (map (vote_msg d s) ns)) [d] q \<and>
    p_CurChain q = bc \<and> p_sequenceID q = p_sequenceID p + 1 \<and> p_pbftStage q = 1 \<and> p_isReply q d"
    by (rule relay_commits [where r = r and b = b])
      (use assms seat_quorum [OF assms(1)] in \<open>auto simp: seat_def vote_msg_def is_leader_def\<close>)
  then show ?thesis using assms(1) by (auto simp: seat_def o_def)
qed


text \<open>The change of the view: the timer, the messages of three nodes, and their answers.\<close>

lemma tick_phase:
  assumes "seat i n s 0 p"
  shows "\<exists>ms q. pbft_run X P ops out p [ETick ms] [] q \<and> seat i n s 0 q \<and> unmoved p q \<and> p_viewChangeMap q = p_viewChangeMap p \<and>
    p_newViewMap q = p_newViewMap p \<and> WViewChange (change_msg s i) \<in> snd ` set (p_out q)"
proof -
  let ?ms = "p_lastCommitTime p + PbftViewChangeTimeOut P + 1"
  let ?p = "p\<lparr>p_lastCommitTime := ?ms, p_pbftStage := 5\<rparr>"
  let ?q = "broadcast_all (WViewChange (change_msg s i)) ?p"
  have "next_view ?p = Inr 1" using assms by (simp add: seat_def next_view_def go_mod_def go_div_def)
  then have "pbft_step X P ops out (ETick ?ms) p ?q"
    using assms by (simp add: pbft_step_def view_change_tick_def viewChangePropose_def seat_def change_msg_def)
  then have "pbft_run X P ops out p [ETick ?ms] [] ?q" by (rule run_one) simp
  then show ?thesis
    using assms by (intro exI [of _ ?ms] exI [of _ ?q]) (auto simp: seat_def unmoved_def fresh_for_def broadcast_all_eq image_Un)
qed

lemma change_phase:
  assumes "seat i n s 0 p" and "p_viewChangeMap p (1, sint s) = {}" and "distinct [a, b, c]"
  shows "\<exists>q. pbft_run X P ops out p (map (\<lambda>j. EViewChange (change_msg s j)) [a, b, c]) [] q \<and> seat i n s 0 q \<and>
    unmoved p q \<and> p_newViewMap q = p_newViewMap p \<and> WNewView (new_msg s i) \<in> snd ` set (p_out q)"
proof -
  let ?g = "\<lambda>A. p\<lparr>p_viewChangeMap := (p_viewChangeMap p)((1, sint s) := A)\<rparr>"
  let ?q = "broadcast_all (WNewView (new_msg s i)) (?g {a, b, c})"
  have nv: "next_view (?g {a, b, c}) = Inr 1" using assms(1) by (simp add: seat_def next_view_def go_mod_def go_div_def)
  have vq: "view_quorum (?g A) = 3" for A using seat_quorum(2) [OF assms(1)] by (simp add: view_quorum_def)
  have p: "p = ?g {}" using assms(2) by (simp add: fun_upd_idem)
  have count: "handleViewChangeMsg (change_msg s j) (?g A) = Inr (?g (insert j A))" if "card (insert j A) < 3" for j A
    using that vq [of "insert j A"] by (simp add: handleViewChangeMsg_def change_msg_def Let_def)
  have 1: "handleViewChangeMsg (change_msg s a) p = Inr (?g {a})" using count [of a "{}"] p by simp
  have 2: "handleViewChangeMsg (change_msg s b) (?g {a}) = Inr (?g {a, b})" using count [of b "{a}"] assms(3) by (simp add: insert_commute)
  have "insert c {a, b} = {a, b, c}" by auto
  then have 3: "handleViewChangeMsg (change_msg s c) (?g {a, b}) = Inr ?q"
    using nv vq [of "{a, b, c}"] assms(1,3) by (simp add: handleViewChangeMsg_def change_msg_def Let_def new_msg_def seat_def)
  have "pbft_run X P ops out p ((([] @ [EViewChange (change_msg s a)]) @ [EViewChange (change_msg s b)]) @ [EViewChange (change_msg s c)])
      ((([] @ executed (EViewChange (change_msg s a)) p) @ executed (EViewChange (change_msg s b)) (?g {a})) @
        executed (EViewChange (change_msg s c)) (?g {a, b})) ?q"
    using 1 2 3 by (intro run_step run_nil) (simp_all add: pbft_step_def)
  then show ?thesis
    using assms(1) by (intro exI [of _ ?q]) (auto simp: seat_def unmoved_def fresh_for_def broadcast_all_eq image_Un)
qed

lemma new_phase:
  assumes "seat i n s 0 p" and "p_newViewMap p (1, sint s) = {}" and "distinct [a, b, c]"
  shows "\<exists>q. pbft_run X P ops out p (map (\<lambda>j. ENewView ms (new_msg s j)) [a, b, c]) [] q \<and> seat i n s 1 q \<and> p_pbftStage q = 1 \<and> unmoved p q"
proof -
  let ?g = "\<lambda>A. p\<lparr>p_newViewMap := (p_newViewMap p)((1, sint s) := A)\<rparr>"
  let ?q = "(?g {a, b, c})\<lparr>p_view := 1, p_sequenceID := s, p_pbftStage := 1, p_lastCommitTime := ms\<rparr>"
  have vq: "view_quorum (?g A) = 3" for A using seat_quorum(2) [OF assms(1)] by (simp add: view_quorum_def)
  have p: "p = ?g {}" using assms(2) by (simp add: fun_upd_idem)
  have count: "handleNewViewMsg ms (new_msg s j) (?g A) = ?g (insert j A)" if "card (insert j A) < 3" for j A
    using that vq [of "insert j A"] by (simp add: handleNewViewMsg_def new_msg_def Let_def)
  have 1: "handleNewViewMsg ms (new_msg s a) p = ?g {a}" using count [of a "{}"] p by simp
  have 2: "handleNewViewMsg ms (new_msg s b) (?g {a}) = ?g {a, b}" using count [of b "{a}"] assms(3) by (simp add: insert_commute)
  have "insert c {a, b} = {a, b, c}" by auto
  then have 3: "handleNewViewMsg ms (new_msg s c) (?g {a, b}) = ?q"
    using vq [of "{a, b, c}"] assms(1,3) by (simp add: handleNewViewMsg_def new_msg_def Let_def seat_def)
  have "pbft_run X P ops out p ((([] @ [ENewView ms (new_msg s a)]) @ [ENewView ms (new_msg s b)]) @ [ENewView ms (new_msg s c)])
      ((([] @ executed (ENewView ms (new_msg s a)) p) @ executed (ENewView ms (new_msg s b)) (?g {a})) @
        executed (ENewView ms (new_msg s c)) (?g {a, b})) ?q"
    using 1 2 3 by (intro run_step run_nil) (simp_all add: pbft_step_def)
  then show ?thesis
    using assms(1) by (intro exI [of _ ?q]) (auto simp: seat_def unmoved_def fresh_for_def)
qed


section \<open>The phases of the shard\<close>

text \<open>The nodes \<open>xs\<close> vote on a proposal, and change the view.\<close>

definition vote_events :: "u64 list \<Rightarrow> (u64 \<Rightarrow> Node) \<Rightarrow> u64 \<Rightarrow> int \<Rightarrow> PrePrepare \<Rightarrow> (u64 \<times> event) list" where
  "vote_events xs n s v m = concat (map (\<lambda>i. map (Pair i) [EPrePrepare v m]) xs) @
     concat (map (\<lambda>i. map (Pair i) (map (\<lambda>n'. EPrepare v (prepare_msg (pp_Digest m) s n')) (map n xs))) xs)"

definition view_events :: "u64 list \<Rightarrow> (u64 \<Rightarrow> int) \<Rightarrow> u64 \<Rightarrow> (u64 \<times> event) list" where
  "view_events xs tm s = concat (map (\<lambda>i. map (Pair i) [ETick (tm i)]) xs) @
     concat (map (\<lambda>i. map (Pair i) (map (\<lambda>j. EViewChange (change_msg s j)) xs)) xs) @
     concat (map (\<lambda>i. map (Pair i) (map (\<lambda>j. ENewView 0 (new_msg s j)) xs)) xs)"

lemma unmoved_trans: "unmoved p q \<Longrightarrow> unmoved q r \<Longrightarrow> unmoved p r"
  by (simp add: unmoved_def)

lemma kept_trans: "kept d p q \<Longrightarrow> kept d q r \<Longrightarrow> kept d p r"
  by (simp add: kept_def)

lemma votes:
  assumes "shard_run X P (relay_ops X P) out delivered I S0 es W S" and "distinct xs" and "length xs = 3" and "set xs \<subseteq> I"
    and "WPrePrepare m \<in> W" and "pp_Digest m = getDigest X (pp_RequestMsg m)" and "pp_SeqID m = s"
    and "DecodeB (rq_Content (pp_RequestMsg m)) = Inr b"
    and "\<forall>i \<in> set xs. seat i (n i) s v (S i) \<and> fresh_for (pp_Digest m) (S i) \<and> IsValidBlock (x_lib X) b (p_CurChain (S i)) = Inr ()"
  shows "\<exists>W' S'. shard_run X P (relay_ops X P) out delivered I S0 (es @ vote_events xs n s v m) W' S' \<and> W \<subseteq> W' \<and> (\<forall>i. i \<notin> set xs \<longrightarrow> S' i = S i) \<and>
    (\<forall>i \<in> set xs. seat i (n i) s v (S' i) \<and> 3 \<le> p_pbftStage (S' i) \<and> kept (pp_Digest m) (S i) (S' i) \<and>
      p_requestPool (S' i) (pp_Digest m) = Some (pp_RequestMsg m) \<and> WCommit (vote_msg (pp_Digest m) s (n i)) \<in> W')"
proof -
  let ?d = "pp_Digest m"
  define Q where "Q i q \<longleftrightarrow> seat i (n i) s v q \<and> 2 \<le> p_pbftStage q \<and> kept ?d (S i) q \<and> fresh_for ?d q \<and>
    p_requestPool q ?d = Some (pp_RequestMsg m) \<and> WPrepare (prepare_msg ?d s (n i)) \<in> snd ` set (p_out q)" for i q
  have "\<exists>q. pbft_run X P (relay_ops X P) out (S i) [EPrePrepare v m] [] q \<and> Q i q" if "i \<in> set xs" for i
    using accept_phase [OF _ assms(6-8), of i "n i" v "S i" P out] assms(9) that unfolding Q_def by blast
  then have "\<forall>i \<in> set xs. [EPrePrepare v m] \<noteq> [] \<and> (\<forall>ev \<in> set [EPrePrepare v m]. delivered W ev) \<and>
      (\<exists>q ds. pbft_run X P (relay_ops X P) out (S i) [EPrePrepare v m] ds q \<and> Q i q)" using assms(5) by simp blast
  from group_run [OF assms(2,4,1) this] obtain W1 S1 where S1: "shard_run X P (relay_ops X P) out delivered I S0 (es @ concat (map (\<lambda>i. map (Pair i) [EPrePrepare v m]) xs)) W1 S1"
    "W \<subseteq> W1" "\<forall>i. i \<notin> set xs \<longrightarrow> S1 i = S i" "\<forall>i \<in> set xs. Q i (S1 i) \<and> snd ` set (p_out (S1 i)) \<subseteq> W1" by blast
  let ?evs = "map (\<lambda>n'. EPrepare v (prepare_msg ?d s n')) (map n xs)"
  define R where "R i q \<longleftrightarrow> seat i (n i) s v q \<and> 3 \<le> p_pbftStage q \<and> kept ?d (S1 i) q \<and> p_requestPool q = p_requestPool (S1 i) \<and>
    WCommit (vote_msg ?d s (n i)) \<in> snd ` set (p_out q)" for i q
  have ne: "?evs \<noteq> []" "length (map n xs) = 3" using assms(3) by auto
  have dl: "\<forall>ev \<in> set ?evs. delivered W1 ev" using S1(4) by (auto simp: Q_def)
  have "\<exists>q. pbft_run X P (relay_ops X P) out (S1 i) ?evs [] q \<and> R i q" if "i \<in> set xs" for i
    using prepare_phase [OF _ _ _ _ ne(2), of i "n i" s v "S1 i" ?d X P out] S1(4) that unfolding Q_def R_def by auto
  then have "\<forall>i \<in> set xs. ?evs \<noteq> [] \<and> (\<forall>ev \<in> set ?evs. delivered W1 ev) \<and>
      (\<exists>q ds. pbft_run X P (relay_ops X P) out (S1 i) ?evs ds q \<and> R i q)" using ne(1) dl by blast
  from group_run [OF assms(2,4) S1(1) this] obtain W2 S2 where S2: "shard_run X P (relay_ops X P) out delivered I S0 ((es @ concat (map (\<lambda>i. map (Pair i) [EPrePrepare v m]) xs)) @
      concat (map (\<lambda>i. map (Pair i) ?evs) xs)) W2 S2"
    "W1 \<subseteq> W2" "\<forall>i. i \<notin> set xs \<longrightarrow> S2 i = S1 i" "\<forall>i \<in> set xs. R i (S2 i) \<and> snd ` set (p_out (S2 i)) \<subseteq> W2" by blast
  have "seat i (n i) s v (S2 i) \<and> 3 \<le> p_pbftStage (S2 i) \<and> kept ?d (S i) (S2 i) \<and> p_requestPool (S2 i) ?d = Some (pp_RequestMsg m) \<and>
      WCommit (vote_msg ?d s (n i)) \<in> W2" if "i \<in> set xs" for i
    using S1(4) S2(4) that kept_trans [of ?d "S i" "S1 i" "S2 i"] by (simp add: Q_def R_def) blast
  then show ?thesis
    using S1(2,3) S2(1-3) unfolding vote_events_def append_assoc by (intro exI [of _ W2] exI [of _ S2]) simp
qed


lemma views:
  assumes "shard_run X P ops out delivered I S0 es W S" and "distinct [a, b, c]" and "set [a, b, c] \<subseteq> I"
    and "\<forall>i \<in> set [a, b, c]. seat i (n i) s 0 (S i) \<and> p_viewChangeMap (S i) (1, sint s) = {} \<and> p_newViewMap (S i) (1, sint s) = {}"
  shows "\<exists>tm W' S'. shard_run X P ops out delivered I S0 (es @ view_events [a, b, c] tm s) W' S' \<and> W \<subseteq> W' \<and>
    (\<forall>i. i \<notin> set [a, b, c] \<longrightarrow> S' i = S i) \<and> (\<forall>i \<in> set [a, b, c]. seat i (n i) s 1 (S' i) \<and> p_pbftStage (S' i) = 1 \<and> unmoved (S i) (S' i))"
proof -
  let ?xs = "[a, b, c]"
  define Q where "Q i q \<longleftrightarrow> seat i (n i) s 0 q \<and> unmoved (S i) q \<and> p_viewChangeMap q = p_viewChangeMap (S i) \<and>
    p_newViewMap q = p_newViewMap (S i) \<and> WViewChange (change_msg s i) \<in> snd ` set (p_out q)" for i q
  have "\<exists>ms q. pbft_run X P ops out (S i) [ETick ms] [] q \<and> Q i q" if "i \<in> set ?xs" for i
    using tick_phase [of i "n i" s "S i" X P ops out] assms(4) that unfolding Q_def by blast
  then obtain tm where "\<forall>i \<in> set ?xs. \<exists>q. pbft_run X P ops out (S i) [ETick (tm i)] [] q \<and> Q i q" by metis
  then have "\<forall>i \<in> set ?xs. [ETick (tm i)] \<noteq> [] \<and> (\<forall>ev \<in> set [ETick (tm i)]. delivered W ev) \<and>
      (\<exists>q ds. pbft_run X P ops out (S i) [ETick (tm i)] ds q \<and> Q i q)" by simp blast
  from group_run [OF assms(2,3,1) this] obtain W1 S1 where
    S1: "shard_run X P ops out delivered I S0 (es @ concat (map (\<lambda>i. map (Pair i) [ETick (tm i)]) ?xs)) W1 S1"
      "W \<subseteq> W1" "\<forall>i. i \<notin> set ?xs \<longrightarrow> S1 i = S i" "\<forall>i \<in> set ?xs. Q i (S1 i) \<and> snd ` set (p_out (S1 i)) \<subseteq> W1" by blast
  let ?evs = "map (\<lambda>j. EViewChange (change_msg s j)) ?xs" and ?evs' = "map (\<lambda>j. ENewView 0 (new_msg s j)) ?xs"
  define R where "R i q \<longleftrightarrow> seat i (n i) s 0 q \<and> unmoved (S1 i) q \<and> p_newViewMap q = p_newViewMap (S1 i) \<and>
    WNewView (new_msg s i) \<in> snd ` set (p_out q)" for i q
  have dl: "\<forall>ev \<in> set ?evs. delivered W1 ev" using S1(4) by (auto simp: Q_def)
  have "\<exists>q. pbft_run X P ops out (S1 i) ?evs [] q \<and> R i q" if "i \<in> set ?xs" for i
    using change_phase [OF _ _ assms(2), of i "n i" s "S1 i" X P ops out] assms(4) S1(4) that unfolding Q_def R_def by metis
  then have "\<forall>i \<in> set ?xs. ?evs \<noteq> [] \<and> (\<forall>ev \<in> set ?evs. delivered W1 ev) \<and> (\<exists>q ds. pbft_run X P ops out (S1 i) ?evs ds q \<and> R i q)"
    using dl by blast
  from group_run [OF assms(2,3) S1(1) this] obtain W2 S2 where
    S2: "shard_run X P ops out delivered I S0 ((es @ concat (map (\<lambda>i. map (Pair i) [ETick (tm i)]) ?xs)) @
        concat (map (\<lambda>i. map (Pair i) ?evs) ?xs)) W2 S2"
      "W1 \<subseteq> W2" "\<forall>i. i \<notin> set ?xs \<longrightarrow> S2 i = S1 i" "\<forall>i \<in> set ?xs. R i (S2 i) \<and> snd ` set (p_out (S2 i)) \<subseteq> W2" by blast
  have dl: "\<forall>ev \<in> set ?evs'. delivered W2 ev" using S2(4) by (auto simp: R_def)
  have "\<exists>q. pbft_run X P ops out (S2 i) ?evs' [] q \<and> seat i (n i) s 1 q \<and> p_pbftStage q = 1 \<and> unmoved (S2 i) q" if "i \<in> set ?xs" for i
    using new_phase [OF _ _ assms(2), of i "n i" s "S2 i" X P ops out 0] assms(4) S1(4) S2(4) that unfolding Q_def R_def by metis
  then have "\<forall>i \<in> set ?xs. ?evs' \<noteq> [] \<and> (\<forall>ev \<in> set ?evs'. delivered W2 ev) \<and>
      (\<exists>q ds. pbft_run X P ops out (S2 i) ?evs' ds q \<and> (seat i (n i) s 1 q \<and> p_pbftStage q = 1 \<and> unmoved (S2 i) q))"
    using dl by blast
  from group_run [OF assms(2,3) S2(1) this] obtain W3 S3 where
    S3: "shard_run X P ops out delivered I S0 (((es @ concat (map (\<lambda>i. map (Pair i) [ETick (tm i)]) ?xs)) @
        concat (map (\<lambda>i. map (Pair i) ?evs) ?xs)) @ concat (map (\<lambda>i. map (Pair i) ?evs') ?xs)) W3 S3" "W2 \<subseteq> W3"
      "\<forall>i. i \<notin> set ?xs \<longrightarrow> S3 i = S2 i"
      "\<forall>i \<in> set ?xs. (seat i (n i) s 1 (S3 i) \<and> p_pbftStage (S3 i) = 1 \<and> unmoved (S2 i) (S3 i)) \<and> snd ` set (p_out (S3 i)) \<subseteq> W3" by blast
  have "unmoved (S i) (S3 i)" if "i \<in> set ?xs" for i
    using S1(4) S2(4) S3(4) that unfolding Q_def R_def by (meson unmoved_trans)
  moreover have "W \<subseteq> W3" "\<forall>i. i \<notin> set ?xs \<longrightarrow> S3 i = S i" using S1(2,3) S2(2,3) S3(2,3) by auto
  ultimately show ?thesis
    using S3(1,4) unfolding view_events_def append_assoc by (intro exI [of _ tm] exI [of _ W3] exI [of _ S3]) blast
qed


section \<open>The split\<close>

lemma propose_phase:
  assumes "seat i n s v p" and "of_int v = i" and "\<not> p_sequenceLock p" and "p_proposing p = 0"
    and "GenerateBlock (x_lib X) P t (ucast i) (p_CurChain p) = Inr (b, bc)"
    and "r = \<lparr>rq_Type = BlockRequest, rq_Content = B_Encode b, rq_ReqTime = t\<rparr>"
  shows "\<exists>q m. pbft_run X P (relay_ops X P) out p [EPropose t] [] q \<and> seat i n s v q \<and> p_CurChain q = bc \<and> (\<forall>d. fresh_for d p \<longrightarrow> fresh_for d q) \<and>
    p_viewChangeMap q = p_viewChangeMap p \<and> p_newViewMap q = p_newViewMap p \<and>
    pp_RequestMsg m = r \<and> pp_Digest m = getDigest X r \<and> pp_SeqID m = s \<and> WPrePrepare m \<in> snd ` set (p_out q)"
proof -
  let ?p = "p\<lparr>p_sequenceLock := True, p_sequenceLockHeld := True, p_proposing := 1, p_CurChain := bc\<rparr>"
  let ?m = "\<lparr>pp_RequestMsg = r, pp_Digest = getDigest X r, pp_SeqID = s, pp_B = p_bridgePreparedHash p, pp_BlockBPKCS1 = p_bridgePreparedPKCS1 p\<rparr>"
  let ?q = "publish X r ?p"
  have "Propose X (relay_ops X P) t p = Some (Inr ?q)"
    using assms by (simp add: Propose_def propose_round_def relay_ops_def proposed_def propose_block_def is_leader_def seat_def)
  then have "pbft_run X P (relay_ops X P) out p [EPropose t] [] ?q" by (intro run_one) (simp_all add: pbft_step_def)
  then show ?thesis
    using assms(1) by (intro exI [of _ ?q] exI [of _ ?m])
      (auto simp: publish_def Let_def broadcast_all_eq seat_def fresh_for_def image_Un)
qed

lemma GenerateBlock_fields:
  assumes "GenerateBlock L P t k bc = Inr (b, bc')"
  shows "bh_Miner (b_Header b) = k" and "b_Hash (bc_CurrentBlock c) = b_Hash (bc_CurrentBlock bc) \<Longrightarrow> IsValidBlock L b c = Inr ()"
  using assms by (auto simp: GenerateBlock_def Let_def bindR_Inr_iff NewBlock_def IsValidBlock_def split: prod.splits)

lemma started_seat:
  assumes "NewPbftNode X P km tbl fp sdb db now sid i pcc ''Relay'' = Inr p" and "cc_Nodes_perShard pcc = 4"
  shows "seat i (p_RunningNode p) (bh_Number (b_Header (head p)) + 1) 0 p" and "fresh_for d p" and "\<not> p_sequenceLock p" and "p_proposing p = 0"
    and "p_viewChangeMap p = (\<lambda>_. {})" and "p_newViewMap p = (\<lambda>_. {})" and "nd_NodeID (p_RunningNode p) = i"
  using assms by (auto simp: NewPbftNode_def Let_def bindR_Inr_iff seat_def fresh_for_def head_def)

lemma added_head:
  assumes "AddBlock L P b bc = Inr bc'" and "next_block g b" and "same_block (bc_CurrentBlock bc) g"
  shows "bc_CurrentBlock bc' = b"
  using AddBlock_head [OF assms(1)] assms(2) next_block_cong [OF assms(3)] by (simp add: append_next_def)


text \<open>The nodes at the start, at the same block.\<close>

definition start_ok :: "Block \<Rightarrow> (u64 \<Rightarrow> Node) \<Rightarrow> u64 \<Rightarrow> u64 \<Rightarrow> PbftNode \<Rightarrow> bool" where
  "start_ok g n s i p \<longleftrightarrow> seat i (n i) s 0 p \<and> (\<forall>d. fresh_for d p) \<and> \<not> p_sequenceLock p \<and> p_proposing p = 0 \<and>
     p_viewChangeMap p = (\<lambda>_. {}) \<and> p_newViewMap p = (\<lambda>_. {}) \<and> same_block (head p) g"

text \<open>
  In the first view node 0 leads. Nodes 1, 2 and 3 prepare its block, and node 3 receives their commits. What is left of the
  others: their view, and no votes on another digest.
\<close>

definition first_events :: "(u64 \<Rightarrow> Node) \<Rightarrow> u64 \<Rightarrow> time \<Rightarrow> PrePrepare \<Rightarrow> (u64 \<times> event) list" where
  "first_events n s t m = (0, EPropose t) # vote_events [1, 2, 3] n s 0 m @
     map (Pair 3) (map (\<lambda>n'. ECommit 0 0 (vote_msg (pp_Digest m) s n')) (map n [1, 2, 3]))"

definition voted_once :: "bytes \<Rightarrow> (u64 \<Rightarrow> Node) \<Rightarrow> u64 \<Rightarrow> u64 \<Rightarrow> PbftNode \<Rightarrow> bool" where
  "voted_once d n s i p \<longleftrightarrow> seat i (n i) s 0 p \<and> p_viewChangeMap p = (\<lambda>_. {}) \<and> p_newViewMap p = (\<lambda>_. {}) \<and> (\<forall>d'. d' \<noteq> d \<longrightarrow> fresh_for d' p)"

lemma first_view:
  assumes "\<forall>i \<in> {0, 1, 2, 3}. start_ok g n s i (S0 i)" and "GenerateBlock (x_lib X) P t 0 (p_CurChain (S0 0)) = Inr (b, c0)"
    and "AddBlock (x_lib X) P b (p_CurChain (S0 3)) = Inr c3" and "r = \<lparr>rq_Type = BlockRequest, rq_Content = B_Encode b, rq_ReqTime = t\<rparr>"
  shows "\<exists>m W S. shard_run X P (relay_ops X P) out delivered {0, 1, 2, 3} S0 (first_events n s t m) W S \<and> pp_Digest m = getDigest X r \<and>
    p_CurChain (S 3) = c3 \<and> p_CurChain (S 0) = c0 \<and> (\<forall>i \<in> {0, 1, 2}. voted_once (getDigest X r) n s i (S i)) \<and>
    (\<forall>i \<in> {1, 2}. p_CurChain (S i) = p_CurChain (S0 i) \<and> \<not> p_sequenceLock (S i) \<and> p_proposing (S i) = 0)"
proof -
  let ?I = "{0, 1, 2, 3} :: u64 set" and ?ops = "relay_ops X P" and ?d = "getDigest X r"
  have st: "start_ok g n s i (S0 i)" if "i \<in> ?I" for i using assms(1) that by blast
  obtain q m where q: "pbft_run X P ?ops out (S0 0) [EPropose t] [] q" "seat 0 (n 0) s 0 q" "p_CurChain q = c0" "\<forall>d. fresh_for d q"
      "p_viewChangeMap q = (\<lambda>_. {})" "p_newViewMap q = (\<lambda>_. {})"
      "pp_RequestMsg m = r" "pp_Digest m = ?d" "pp_SeqID m = s" "WPrePrepare m \<in> snd ` set (p_out q)"
    using propose_phase [of 0 "n 0" s 0 "S0 0" X P t b c0 r out] assms(2,4) st [of 0] by (auto simp: start_ok_def)
  obtain W1 where W1: "shard_run X P ?ops out delivered ?I S0 ([] @ map (Pair 0) [EPropose t]) W1 (S0(0 := q))" "WPrePrepare m \<in> W1"
    using node_run [OF q(1) shard_start [of X P ?ops out delivered ?I S0]] q(10) by auto
  have hash: "b_Hash (bc_CurrentBlock (p_CurChain (S0 i))) = b_Hash (bc_CurrentBlock (p_CurChain (S0 0)))" if "i \<in> ?I" for i
    using st [OF that] st [of 0] by (simp add: start_ok_def same_block_def head_def)
  have "\<forall>i \<in> set [1, 2, 3]. seat i (n i) s 0 ((S0(0 := q)) i) \<and> fresh_for (pp_Digest m) ((S0(0 := q)) i) \<and>
      IsValidBlock (x_lib X) b (p_CurChain ((S0(0 := q)) i)) = Inr ()"
    using st GenerateBlock_fields(2) [OF assms(2) hash] by (auto simp: start_ok_def)
  from votes [OF W1(1) _ _ _ W1(2) _ q(9) _ this] obtain W2 S2 where
    S2: "shard_run X P ?ops out delivered ?I S0 (([] @ map (Pair 0) [EPropose t]) @ vote_events [1, 2, 3] n s 0 m) W2 S2"
      "\<forall>i. i \<notin> set [1, 2, 3] \<longrightarrow> S2 i = (S0(0 := q)) i"
      "\<forall>i \<in> set [1, 2, 3]. seat i (n i) s 0 (S2 i) \<and> 3 \<le> p_pbftStage (S2 i) \<and> kept (pp_Digest m) ((S0(0 := q)) i) (S2 i) \<and>
        p_requestPool (S2 i) (pp_Digest m) = Some (pp_RequestMsg m) \<and> WCommit (vote_msg (pp_Digest m) s (n i)) \<in> W2"
    using q(7,8) assms(4) by auto
  have k: "seat i (n i) s 0 (S2 i)" "kept ?d (S0 i) (S2 i)" "WCommit (vote_msg ?d s (n i)) \<in> W2" if "i \<in> {1, 2, 3}" for i
    using S2(3) that q(8) by auto
  obtain q3 where q3: "pbft_run X P ?ops out (S2 3) (map (\<lambda>n'. ECommit 0 0 (vote_msg ?d s n')) (map n [1, 2, 3])) [?d] q3" "p_CurChain q3 = c3"
    using commit_phase [of 3 "n 3" s 0 "S2 3" ?d r b X P c3 "map n [1, 2, 3]" out 0] k(1,2) [of 3] S2(3) st [of 3] assms(3,4) q(7,8)
    by (auto simp: start_ok_def fresh_for_def kept_def)
  have "\<forall>ev \<in> set (map (\<lambda>n'. ECommit 0 0 (vote_msg ?d s n')) (map n [1, 2, 3])). delivered W2 ev" using k(3) by auto
  from node_run [OF q3(1) S2(1) _ this] obtain W3 where
    W3: "shard_run X P ?ops out delivered ?I S0 ((([] @ map (Pair 0) [EPropose t]) @ vote_events [1, 2, 3] n s 0 m) @
      map (Pair 3) (map (\<lambda>n'. ECommit 0 0 (vote_msg ?d s n')) (map n [1, 2, 3]))) W3 (S2(3 := q3))" by auto
  have "\<forall>i \<in> {0, 1, 2}. voted_once ?d n s i ((S2(3 := q3)) i)"
    using k(1,2) [of 1] k(1,2) [of 2] st [of 1] st [of 2] S2(2) q(2,4-6) by (auto simp: voted_once_def start_ok_def kept_def)
  moreover have "\<forall>i \<in> {1, 2}. p_CurChain (S2 i) = p_CurChain (S0 i) \<and> \<not> p_sequenceLock (S2 i) \<and> p_proposing (S2 i) = 0"
    using k(2) [of 1] k(2) [of 2] st [of 1] st [of 2] by (auto simp: start_ok_def kept_def)
  ultimately show ?thesis
    using W3 q3(2) q(3,8) S2(2) by (intro exI [of _ m] exI [of _ W3] exI [of _ "S2(3 := q3)"]) (auto simp: first_events_def)
qed


text \<open>
  Nodes 0, 1 and 2 time out and change the view. Node 1 leads now; the three prepare its block, although two of them have
  prepared the other one, and node 2 receives their commits. Node 3 takes no part.
\<close>

definition second_events :: "(u64 \<Rightarrow> Node) \<Rightarrow> u64 \<Rightarrow> (u64 \<Rightarrow> int) \<Rightarrow> time \<Rightarrow> PrePrepare \<Rightarrow> (u64 \<times> event) list" where
  "second_events n s tm t m = view_events [0, 1, 2] tm s @ (1, EPropose t) # vote_events [0, 1, 2] n s 1 m @
     map (Pair 2) (map (\<lambda>n'. ECommit 0 1 (vote_msg (pp_Digest m) s n')) (map n [0, 1, 2]))"

lemma second_view:
  assumes "shard_run X P (relay_ops X P) out delivered {0, 1, 2, 3} S0 es W S" and "\<forall>i \<in> {0, 1, 2}. voted_once d n s i (S i)"
    and "\<not> p_sequenceLock (S 1)" and "p_proposing (S 1) = 0" and "GenerateBlock (x_lib X) P t 1 (p_CurChain (S 1)) = Inr (b, c1)"
    and "AddBlock (x_lib X) P b (p_CurChain (S 2)) = Inr c2" and "r = \<lparr>rq_Type = BlockRequest, rq_Content = B_Encode b, rq_ReqTime = t\<rparr>"
    and "getDigest X r \<noteq> d" and "\<forall>i \<in> {0, 1, 2}. b_Hash (head (S i)) = h"
  shows "\<exists>tm m W' S'. shard_run X P (relay_ops X P) out delivered {0, 1, 2, 3} S0 (es @ second_events n s tm t m) W' S' \<and>
    p_CurChain (S' 2) = c2 \<and> S' 3 = S 3"
proof -
  let ?I = "{0, 1, 2, 3} :: u64 set" and ?ops = "relay_ops X P" and ?d = "getDigest X r"
  have "\<forall>i \<in> set [0, 1, 2]. seat i (n i) s 0 (S i) \<and> p_viewChangeMap (S i) (1, sint s) = {} \<and> p_newViewMap (S i) (1, sint s) = {}"
    using assms(2) by (auto simp: voted_once_def)
  from views [OF assms(1) _ _ this] obtain tm W1 S1 where
    S1: "shard_run X P ?ops out delivered ?I S0 (es @ view_events [0, 1, 2] tm s) W1 S1" "\<forall>i. i \<notin> set [0, 1, 2] \<longrightarrow> S1 i = S i"
      "\<forall>i \<in> set [0, 1, 2]. seat i (n i) s 1 (S1 i) \<and> p_pbftStage (S1 i) = 1 \<and> unmoved (S i) (S1 i)" by auto
  have u: "seat i (n i) s 1 (S1 i)" "unmoved (S i) (S1 i)" "fresh_for ?d (S1 i)" if "i \<in> {0, 1, 2}" for i
    using S1(3) that assms(2,8) by (auto simp: unmoved_def voted_once_def)
  obtain q m where q: "pbft_run X P ?ops out (S1 1) [EPropose t] [] q" "seat 1 (n 1) s 1 q" "p_CurChain q = c1" "fresh_for ?d q"
      "pp_RequestMsg m = r" "pp_Digest m = ?d" "pp_SeqID m = s" "WPrePrepare m \<in> snd ` set (p_out q)"
    using propose_phase [of 1 "n 1" s 1 "S1 1" X P t b c1 r out] assms(3-5,7) u [of 1] by (auto simp: unmoved_def)
  obtain W2 where W2: "shard_run X P ?ops out delivered ?I S0 ((es @ view_events [0, 1, 2] tm s) @ map (Pair 1) [EPropose t]) W2 (S1(1 := q))"
      "WPrePrepare m \<in> W2"
    using node_run [OF q(1) S1(1)] q(8) by auto
  have "b_Hash (bc_CurrentBlock (p_CurChain ((S1(1 := q)) i))) = b_Hash (bc_CurrentBlock (p_CurChain (S 1)))" if "i \<in> {0, 1, 2}" for i
    using u(2) [OF that] assms(9) that GenerateBlock_head [OF assms(5)] q(3) by (auto simp: unmoved_def head_def)
  then have "\<forall>i \<in> set [0, 1, 2]. seat i (n i) s 1 ((S1(1 := q)) i) \<and> fresh_for (pp_Digest m) ((S1(1 := q)) i) \<and>
      IsValidBlock (x_lib X) b (p_CurChain ((S1(1 := q)) i)) = Inr ()"
    using u q(2,4,6) GenerateBlock_fields(2) [OF assms(5)] by simp
  from votes [OF W2(1) _ _ _ W2(2) _ q(7) _ this] obtain W3 S3 where
    S3: "shard_run X P ?ops out delivered ?I S0 (((es @ view_events [0, 1, 2] tm s) @ map (Pair 1) [EPropose t]) @ vote_events [0, 1, 2] n s 1 m) W3 S3"
      "\<forall>i. i \<notin> set [0, 1, 2] \<longrightarrow> S3 i = (S1(1 := q)) i"
      "\<forall>i \<in> set [0, 1, 2]. seat i (n i) s 1 (S3 i) \<and> 3 \<le> p_pbftStage (S3 i) \<and> kept (pp_Digest m) ((S1(1 := q)) i) (S3 i) \<and>
        p_requestPool (S3 i) (pp_Digest m) = Some (pp_RequestMsg m) \<and> WCommit (vote_msg (pp_Digest m) s (n i)) \<in> W3"
    using q(5,6) assms(7) by auto
  obtain q2 where q2: "pbft_run X P ?ops out (S3 2) (map (\<lambda>n'. ECommit 0 1 (vote_msg ?d s n')) (map n [0, 1, 2])) [?d] q2" "p_CurChain q2 = c2"
    using commit_phase [of 2 "n 2" s 1 "S3 2" ?d r b X P c2 "map n [0, 1, 2]" out 0] S3(3) u [of 2] assms(6,7) q(5,6)
    by (auto simp: fresh_for_def kept_def unmoved_def)
  have "\<forall>ev \<in> set (map (\<lambda>n'. ECommit 0 1 (vote_msg ?d s n')) (map n [0, 1, 2])). delivered W3 ev" using S3(3) q(6) by auto
  from node_run [OF q2(1) S3(1) _ this] obtain W4 where
    "shard_run X P ?ops out delivered ?I S0 ((((es @ view_events [0, 1, 2] tm s) @ map (Pair 1) [EPropose t]) @ vote_events [0, 1, 2] n s 1 m) @
      map (Pair 2) (map (\<lambda>n'. ECommit 0 1 (vote_msg ?d s n')) (map n [0, 1, 2]))) W4 (S3(2 := q2))" by auto
  then show ?thesis
    using q2(2) q(6) S1(2) S3(2) by (intro exI [of _ tm] exI [of _ m] exI [of _ W4] exI [of _ "S3(2 := q2)"]) (auto simp: second_events_def)
qed

text \<open>No node handles a message twice.\<close>

lemma events_distinct:
  assumes "\<forall>i \<in> {0, 1, 2, 3}. nd_NodeID (n i) = i"
  shows "distinct (first_events n s t m @ second_events n s tm t' m')"
proof -
  have n: "nd_NodeID (n 0) = 0" "nd_NodeID (n 1) = 1" "nd_NodeID (n 2) = 2" "nd_NodeID (n 3) = 3" using assms by auto
  have "n i \<noteq> n j" if "nd_NodeID (n i) \<noteq> nd_NodeID (n j)" for i j using that by auto
  with n show ?thesis
    by (simp add: first_events_def second_events_def vote_events_def view_events_def prepare_msg_def vote_msg_def change_msg_def new_msg_def)
qed

lemma all_started:
  assumes "\<forall>i \<in> I. NewPbftNode X P km tbl (fp i) (sdb i) (db i) (now i) sid i (pcc i) ''Relay'' = Inr (S0 i) \<and>
      cc_Nodes_perShard (pcc i) = 4 \<and> same_block (head (S0 i)) g"
  shows "\<forall>i \<in> I. start_ok g (\<lambda>i. p_RunningNode (S0 i)) (bh_Number (b_Header g) + 1) i (S0 i) \<and> nd_NodeID (p_RunningNode (S0 i)) = i"
proof
  fix i assume "i \<in> I"
  then have i: "NewPbftNode X P km tbl (fp i) (sdb i) (db i) (now i) sid i (pcc i) ''Relay'' = Inr (S0 i)" "cc_Nodes_perShard (pcc i) = 4"
    "same_block (head (S0 i)) g" using assms by blast+
  from started_seat [OF i(1,2)] i(3)
  show "start_ok g (\<lambda>i. p_RunningNode (S0 i)) (bh_Number (b_Header g) + 1) i (S0 i) \<and> nd_NodeID (p_RunningNode (S0 i)) = i"
    by (simp add: start_ok_def same_block_def)
qed

text \<open>
  (C6) A change of the leader can split a shard. Four nodes start at the same block and run the relay protocol; every node follows
  the code, every message that is handled was sent by one of them and is handled at most once by each node, and messages are only
  delayed. There is a run after which two nodes have committed different blocks at the same height: three nodes prepare the
  block of the first leader, but only one of them receives their commits in time; the other three change the view, and
  because view changes do not carry what was prepared, they prepare and commit a different block of the second leader.
\<close>

theorem view_change_can_split_a_shard:
  assumes "\<forall>i \<in> {0, 1, 2, 3}. NewPbftNode X P km tbl (fp i) (sdb i) (db i) (now i) sid i (pcc i) ''Relay'' = Inr (S0 i) \<and>
      cc_Nodes_perShard (pcc i) = 4 \<and> same_block (head (S0 i)) g"
    and "GenerateBlock (x_lib X) P t 0 (p_CurChain (S0 0)) = Inr (b, c0)" and "AddBlock (x_lib X) P b (p_CurChain (S0 3)) = Inr c3"
    and "GenerateBlock (x_lib X) P t' 1 (p_CurChain (S0 1)) = Inr (b', c1)" and "AddBlock (x_lib X) P b' (p_CurChain (S0 2)) = Inr c2"
    and "getDigest X \<lparr>rq_Type = BlockRequest, rq_Content = B_Encode b, rq_ReqTime = t\<rparr> \<noteq>
      getDigest X \<lparr>rq_Type = BlockRequest, rq_Content = B_Encode b', rq_ReqTime = t'\<rparr>"
  shows "\<exists>es W S. shard_run X P (choose_ihm X P ''Relay'') (choose_ohm X ''Relay'') delivered {0, 1, 2, 3} S0 es W S \<and> distinct es \<and>
    bh_Number (b_Header (head (S 2))) = bh_Number (b_Header (head (S 3))) \<and> \<not> same_block (head (S 2)) (head (S 3))"
proof -
  let ?r = "\<lparr>rq_Type = BlockRequest, rq_Content = B_Encode b, rq_ReqTime = t\<rparr>"
  let ?r' = "\<lparr>rq_Type = BlockRequest, rq_Content = B_Encode b', rq_ReqTime = t'\<rparr>"
  let ?s = "bh_Number (b_Header g) + 1"
  let ?n = "\<lambda>i. p_RunningNode (S0 i)"
  have st: "\<forall>i \<in> {0, 1, 2, 3}. start_ok g ?n ?s i (S0 i)" and n: "\<forall>i \<in> {0, 1, 2, 3}. nd_NodeID (?n i) = i"
    using all_started [OF assms(1)] by blast+
  have g: "same_block (bc_CurrentBlock (p_CurChain (S0 i))) g" if "i \<in> {0, 1, 2, 3}" for i
    using st that by (simp add: start_ok_def head_def) blast
  from first_view [OF st assms(2,3) refl, of "choose_ohm X ''Relay''"] obtain m W S where
    S: "shard_run X P (relay_ops X P) (choose_ohm X ''Relay'') delivered {0, 1, 2, 3} S0 (first_events ?n ?s t m) W S"
    "p_CurChain (S 3) = c3" "p_CurChain (S 0) = c0" "\<forall>i \<in> {0, 1, 2}. voted_once (getDigest X ?r) ?n ?s i (S i)"
    "\<forall>i \<in> {1, 2}. p_CurChain (S i) = p_CurChain (S0 i) \<and> \<not> p_sequenceLock (S i) \<and> p_proposing (S i) = 0"
    by blast
  have hash: "\<forall>i \<in> {0, 1, 2}. b_Hash (head (S i)) = b_Hash g"
    using S(3,5) g [of 0] g [of 1] g [of 2] GenerateBlock_head [OF assms(2)] by (auto simp: head_def same_block_def)
  obtain tm m' W' S' where S': "shard_run X P (relay_ops X P) (choose_ohm X ''Relay'') delivered {0, 1, 2, 3} S0
      (first_events ?n ?s t m @ second_events ?n ?s tm t' m') W' S'" "p_CurChain (S' 2) = c2" "S' 3 = S 3"
    using second_view [OF S(1,4) _ _ _ _ refl _ hash, of t' b' c1 c2] S(5) assms(4-6) by auto
  have blocks: "next_block g b" "next_block g b'"
    using GenerateBlock_next [OF assms(2)] GenerateBlock_next [OF assms(4)] next_block_cong [OF g [of 0]] next_block_cong [OF g [of 1]] by auto
  have "head (S' 3) = b" "head (S' 2) = b'"
    using added_head [OF assms(3) blocks(1)] added_head [OF assms(5) blocks(2)] g [of 3] g [of 2] S(2) S'(2,3) by (auto simp: head_def)
  moreover have "\<not> same_block b' b"
    using GenerateBlock_fields(1) [OF assms(2)] GenerateBlock_fields(1) [OF assms(4)] by (auto simp: same_block_def)
  moreover have "bh_Number (b_Header b') = bh_Number (b_Header b)" using blocks by (simp add: next_block_def)
  moreover have "choose_ihm X P ''Relay'' = relay_ops X P" by (simp add: choose_ihm_def)
  ultimately show ?thesis using S'(1) events_distinct [OF n, of ?s t m tm t' m'] by metis
qed


text \<open>The nodes of \<open>Shard_Agreement\<close>, with a digest that tells requests of different times apart.\<close>

definition demo_timed :: xlib where
  "demo_timed = demo_x\<lparr>x_digest := (\<lambda>r. [of_int (rq_ReqTime r)])\<rparr>"

lemma demo_timed_fields [simp]: "x_lib demo_timed = demo_lib" "getDigest demo_timed r = [of_int (rq_ReqTime r)]"
  by (simp_all add: demo_timed_def getDigest_def demo_x_def)

lemma demo_timed_started:
  "NewPbftNode demo_timed defaultParams demo_keys (\<lambda>s n. None) ''x'' (sg_DataBase (bc_Storage (demo_chain 0))) [] 1 0 i (demo_config 0) ''Relay'' =
     Inr (demo_peer i)"
  using demo_peer_started [of i] by (simp add: NewPbftNode_def)

lemma demo_peers_append:
  "\<exists>b c c'. GenerateBlock demo_lib defaultParams t k (p_CurChain (demo_peer i)) = Inr (b, c) \<and> AddBlock demo_lib defaultParams b (p_CurChain (demo_peer j)) = Inr c'"
proof -
  obtain bc where bc: "NewBlockChain demo_lib defaultParams (demo_config 0) ''x'' (sg_DataBase (bc_Storage (demo_chain 0))) [] = Inr bc" "chain_ok demo_lib bc"
    "bc_CurrentBlock bc = demo_genesis" using demo_restart by blast
  have c: "p_CurChain (demo_peer i) = bc" for i using bc(1) by (simp add: demo_peer_def NewPbftNode_def)
  have e: "fst (pack_block defaultParams bc) = []" "current_state demo_lib bc = Some Map.empty" using demo_peer_chain [of 0] c by simp_all
  obtain b db st' k' where b: "GenerateBlock demo_lib defaultParams t k bc = Inr (b, bc\<lparr>bc_Txpool := snd (pack_block defaultParams bc), bc_triedb := db\<rparr>)"
    "block_on demo_lib (bc_CurrentBlock bc) [] (result_root demo_lib bc st' k') b" "exec_txs defaultParams bc [] (Map.empty, 0) = Inr (st', k')"
    by (rule GenerateBlock_spec [OF demo_lib_laws e(2) trie_ok_empty, where P = defaultParams and now = t and miner = k]) (simp_all add: e(1))
  have "storage_ok demo_lib (bc_Storage bc)" using bc(2) by (simp add: chain_ok_def)
  moreover have "db_key (b_Hash b)" using b(2) db_key_BH_Hash [OF demo_lib_laws] by (simp add: block_on_def)
  ultimately have "\<exists>c'. AddBlock demo_lib defaultParams b bc = Inr c'"
    using AddBlock_known_state [of demo_lib bc b Map.empty defaultParams] b(2,3) bc(3) by (auto simp: block_on_def result_root_def exec_txs_def)
  then show ?thesis using b(1) c by auto
qed

theorem view_change_can_split_a_shard_witness:
  "\<exists>es W S. shard_run demo_timed defaultParams (choose_ihm demo_timed defaultParams ''Relay'') (choose_ohm demo_timed ''Relay'') delivered
     {0, 1, 2, 3} demo_peer es W S \<and> distinct es \<and>
     bh_Number (b_Header (head (S 2))) = bh_Number (b_Header (head (S 3))) \<and> \<not> same_block (head (S 2)) (head (S 3))"
proof -
  obtain b c0 c3 where 1: "GenerateBlock demo_lib defaultParams 1 0 (p_CurChain (demo_peer 0)) = Inr (b, c0)"
    "AddBlock demo_lib defaultParams b (p_CurChain (demo_peer 3)) = Inr c3" using demo_peers_append by blast
  obtain b' c1 c2 where 2: "GenerateBlock demo_lib defaultParams 2 1 (p_CurChain (demo_peer 1)) = Inr (b', c1)"
    "AddBlock demo_lib defaultParams b' (p_CurChain (demo_peer 2)) = Inr c2" using demo_peers_append by blast
  have "\<forall>i \<in> {0, 1, 2, 3}. NewPbftNode demo_timed defaultParams demo_keys (\<lambda>s n. None) ''x'' (sg_DataBase (bc_Storage (demo_chain 0))) [] 1 0 i
      (demo_config 0) ''Relay'' = Inr (demo_peer i) \<and> cc_Nodes_perShard (demo_config 0) = 4 \<and> same_block (head (demo_peer i)) demo_genesis"
    by (auto simp: demo_timed_started demo_peer_chain) (simp_all add: demo_config_def)
  from view_change_can_split_a_shard [OF this, of 1 b c0 c3 2 b' c1 c2] 1 2 show ?thesis by simp
qed

end
