(* ===== verification/Scripts.thy ===== *)
theory Scripts
  imports Supervisor Pbft_Start
begin

text \<open>
  The scripts that start the system (\<open>build/tool.go\<close>, \<open>build/io_file_helper.go\<close>) and the entry point
  that the commands in them call (\<open>main.go\<close>). The files of the working directory are a map from names
  to contents. Every system call may fail: \<open>fs_env\<close> says for the number of a call of
  \<open>attachLineToFile\<close> which of its three calls fail. Decoding of the table of addresses and the
  library that reads the command line are outside.
\<close>

section \<open>Files (io_file_helper.go)\<close>

record fs_env =
  fe_Remove :: "nat \<Rightarrow> string \<Rightarrow> bool"
    \<comment> \<open>\<open>os.Remove\<close> fails, and not because there is no such file\<close>
  fe_Open :: "nat \<Rightarrow> string \<Rightarrow> string option"
    \<comment> \<open>the error of \<open>os.OpenFile\<close>\<close>
  fe_Write :: "nat \<Rightarrow> string \<Rightarrow> (nat \<times> string) option"
    \<comment> \<open>how much \<open>WriteString\<close> has written when it fails, and its error\<close>

record script_state =
  ss_files :: "string \<rightharpoonup> string"
  ss_upToDate :: "string set"
  ss_calls :: nat

definition nl :: string where
  "nl = [CHR 0x0A]"

definition file_text :: "script_state \<Rightarrow> string \<Rightarrow> string" where
  "file_text s path = (case ss_files s path of None \<Rightarrow> '''' | Some t \<Rightarrow> t)"

definition attachLineToFile :: "fs_env \<Rightarrow> string \<Rightarrow> string \<Rightarrow> script_state \<Rightarrow> (string option \<times> script_state) res" where
  "attachLineToFile E filePath line s0 =
     (let k = ss_calls s0; s = s0\<lparr>ss_calls := k + 1\<rparr> in
      bindR (if filePath \<in> ss_upToDate s then Inr s
             else if fe_Remove E k filePath then Inl (LogPanic '''')
             else Inr (s\<lparr>ss_files := (ss_files s)(filePath := None), ss_upToDate := insert filePath (ss_upToDate s)\<rparr>)) (\<lambda>s1.
        case fe_Open E k filePath of
          Some err \<Rightarrow> Inr (Some err, s1)
        | None \<Rightarrow>
            (case fe_Write E k filePath of
               Some (n, err) \<Rightarrow>
                 Inr (Some err, s1\<lparr>ss_files := (ss_files s1)(filePath \<mapsto> file_text s1 filePath @ take n (line @ nl))\<rparr>)
             | None \<Rightarrow> Inr (None, s1\<lparr>ss_files := (ss_files s1)(filePath \<mapsto> file_text s1 filePath @ line @ nl)\<rparr>))))"

section \<open>Commands (tool.go)\<close>

record script_format =
  sf_prefix :: string
  sf_suffix :: string
  sf_command :: string

definition go_run_format :: "string \<Rightarrow> script_format" where
  "go_run_format os =
     (if os = ''windows''
      then \<lparr>sf_prefix = ''complie_run_IpAddr='', sf_suffix = ''.bat'', sf_command = ''start cmd /k go run main.go''\<rparr>
      else \<lparr>sf_prefix = ''complie_run_IpAddr='', sf_suffix = ''.sh'', sf_command = ''go run main.go''\<rparr>)"

definition exe_format :: "string \<Rightarrow> script_format" where
  "exe_format os =
     (if os = ''windows''
      then \<lparr>sf_prefix = os @ ''_exe_run_IpAddr='', sf_suffix = ''.bat'',
             sf_command = ''start cmd /k blockEmulator_Windows_Precompile.exe''\<rparr>
      else \<lparr>sf_prefix = os @ ''_exe_run_IpAddr='', sf_suffix = ''.sh'',
             sf_command = ''./blockEmulator_'' @ os @ ''_Precompile''\<rparr>)"

text \<open>The text before the first colon, with dots replaced.\<close>

definition batFilePath :: "script_format \<Rightarrow> string \<Rightarrow> string" where
  "batFilePath fmt nodeIp =
     sf_prefix fmt @ map (\<lambda>c. if c = CHR ''.'' then CHR ''_'' else c) (takeWhile (\<lambda>c. c \<noteq> CHR '':'') nodeIp) @ sf_suffix fmt"

definition node_command :: "script_format \<Rightarrow> int \<Rightarrow> int \<Rightarrow> int \<Rightarrow> int \<Rightarrow> string" where
  "node_command fmt j nodenum i shardnum =
     sf_command fmt @ '' -n '' @ Itoa j @ '' -N '' @ Itoa nodenum @ '' -s '' @ Itoa i @ '' -S '' @ Itoa shardnum @ '' & '' @ nl"

definition supervisor_command :: "script_format \<Rightarrow> int \<Rightarrow> int \<Rightarrow> string" where
  "supervisor_command fmt nodenum shardnum =
     sf_command fmt @ '' -c -N '' @ Itoa nodenum @ '' -S '' @ Itoa shardnum @ '' & '' @ nl"

definition no_shard :: "int \<Rightarrow> string" where
  "no_shard i = ''the shard (shardID = '' @ Itoa i @ '') is not existed in the IP Table file''"

definition no_node :: "int \<Rightarrow> int \<Rightarrow> string" where
  "no_node i j = ''the node (shardID = '' @ Itoa i @ '', nodeID = '' @ Itoa j @ '') is not existed in the IP Table file''"

definition no_supervisor :: string where
  "no_supervisor = ''the supervisor (shardID = 2147483647, nodeID = 0) is not existed in the IP Table file''"

fun node_loop :: "fs_env \<Rightarrow> script_format \<Rightarrow> (u64 \<times> string) list \<Rightarrow> int \<Rightarrow> int \<Rightarrow> int \<Rightarrow> int list \<Rightarrow> script_state \<Rightarrow>
    (string option \<times> script_state) res" where
  "node_loop E fmt tbl nodenum shardnum i [] s = Inr (None, s)"
| "node_loop E fmt tbl nodenum shardnum i (j # js) s =
     (case map_of tbl (of_int j) of
        None \<Rightarrow> Inr (Some (no_node i j), s)
      | Some nodeIp \<Rightarrow>
          bindR (attachLineToFile E (batFilePath fmt nodeIp) (node_command fmt j nodenum i shardnum) s) (\<lambda>(err, s1).
            if err \<noteq> None then Inr (err, s1) else node_loop E fmt tbl nodenum shardnum i js s1))"

fun shard_loop :: "fs_env \<Rightarrow> script_format \<Rightarrow> ip_map \<Rightarrow> int \<Rightarrow> int \<Rightarrow> int list \<Rightarrow> script_state \<Rightarrow>
    (string option \<times> script_state) res" where
  "shard_loop E fmt ipMap nodenum shardnum [] s = Inr (None, s)"
| "shard_loop E fmt ipMap nodenum shardnum (i # is) s =
     (case map_of ipMap (of_int i) of
        None \<Rightarrow> Inr (Some (no_shard i), s)
      | Some tbl \<Rightarrow>
          bindR (node_loop E fmt tbl nodenum shardnum i [0..nodenum - 1] s) (\<lambda>(err, s1).
            if err \<noteq> None then Inr (err, s1) else shard_loop E fmt ipMap nodenum shardnum is s1))"

definition supervisor_ip :: "ip_map \<Rightarrow> string option" where
  "supervisor_ip ipMap = (case map_of ipMap 2147483647 of None \<Rightarrow> None | Some tbl \<Rightarrow> map_of tbl 0)"

text \<open>The two generators differ in the texts only.\<close>

definition generate_scripts :: "fs_env \<Rightarrow> script_format \<Rightarrow> ip_map \<Rightarrow> int \<Rightarrow> int \<Rightarrow> script_state \<Rightarrow>
    (string option \<times> script_state) res" where
  "generate_scripts E fmt ipMap nodenum shardnum s =
     bindR (shard_loop E fmt ipMap nodenum shardnum [0..shardnum - 1] s) (\<lambda>(err, s1).
       if err \<noteq> None then Inr (err, s1)
       else case supervisor_ip ipMap of
         None \<Rightarrow> Inr (Some no_supervisor, s1)
       | Some nodeIp \<Rightarrow> attachLineToFile E (batFilePath fmt nodeIp) (supervisor_command fmt nodenum shardnum) s1)"

definition GenerateBatchByIpTable :: "fs_env \<Rightarrow> string \<Rightarrow> ip_map \<Rightarrow> int \<Rightarrow> int \<Rightarrow> script_state \<Rightarrow>
    (string option \<times> script_state) res" where
  "GenerateBatchByIpTable E os = generate_scripts E (go_run_format os)"

definition GenerateExeBatchByIpTable :: "fs_env \<Rightarrow> string \<Rightarrow> ip_map \<Rightarrow> int \<Rightarrow> int \<Rightarrow> script_state \<Rightarrow>
    (string option \<times> script_state) res" where
  "GenerateExeBatchByIpTable E os = generate_scripts E (exe_format os)"

section \<open>The entry point (main.go)\<close>

record flags =
  fg_shardNum :: int
  fg_nodeNum :: int
  fg_shardID :: int
  fg_nodeID :: int
  fg_isSupervisor :: bool
  fg_isGen :: bool
  fg_isGenerateForExeFile :: bool

definition default_flags :: "params \<Rightarrow> flags" where
  "default_flags P = \<lparr>fg_shardNum = ShardNum P, fg_nodeNum = NodesInShard P, fg_shardID = -1, fg_nodeID = -1,
     fg_isSupervisor = False, fg_isGen = False, fg_isGenerateForExeFile = False\<rparr>"

datatype main_result =
    Generated "string option" script_state
  | Starts params role

text \<open>\<open>parse\<close> stands for \<open>pflag.Parse\<close>: the defaults and the arguments of the command give the flags.\<close>

definition main_run :: "(flags \<Rightarrow> string list \<Rightarrow> flags) \<Rightarrow> fs_env \<Rightarrow> string \<Rightarrow> ip_map \<Rightarrow> params \<Rightarrow> string list \<Rightarrow> script_state \<Rightarrow>
    main_result res" where
  "main_run parse E os ipMap P args s =
     (let f = parse (default_flags P) args; P1 = P\<lparr>ShardNum := fg_shardNum f, NodesInShard := fg_nodeNum f\<rparr> in
      if fg_isGen f
      then bindR ((if fg_isGenerateForExeFile f then GenerateExeBatchByIpTable else GenerateBatchByIpTable)
                    E os ipMap (fg_nodeNum f) (fg_shardNum f) s) (\<lambda>(err, s1). Inr (Generated err s1))
      else bindR (main_role P1 (fg_isSupervisor f) (fg_shardNum f) (fg_nodeNum f) (fg_shardID f) (fg_nodeID f))
             (\<lambda>r. Inr (Starts P1 r)))"

text \<open>The node that the role starts: the configuration first, which also sets parameters, then the node.\<close>

definition BuildNewPbftNode :: "'l limiter_ops \<Rightarrow> xlib \<Rightarrow> key_material \<Rightarrow> string \<Rightarrow> boltdb \<Rightarrow> triedb \<Rightarrow> time \<Rightarrow> params \<Rightarrow> ip_map \<Rightarrow>
    u64 \<Rightarrow> u64 \<Rightarrow> u64 \<Rightarrow> u64 \<Rightarrow> PbftNode res" where
  "BuildNewPbftNode L X km fp sdb db now P ipMap nid nnm sid snm =
     bindR (initConfig L P ipMap nid nnm sid snm) (\<lambda>(P1, pcc).
       if ConsensusMethod P < 0 \<or> int (length CommitteeMethod) \<le> ConsensusMethod P then Inl IndexOutOfRange
       else NewPbftNode X P1 km (\<lambda>s n. map_of (ip_entry ipMap s) n) fp sdb db now sid nid pcc
              (CommitteeMethod ! nat (ConsensusMethod P)))"

section \<open>The contents of the scripts\<close>

definition fs_works :: "fs_env \<Rightarrow> bool" where
  "fs_works E \<longleftrightarrow> (\<forall>k p. \<not> fe_Remove E k p \<and> fe_Open E k p = None \<and> fe_Write E k p = None)"

fun add_line :: "string \<times> string \<Rightarrow> script_state \<Rightarrow> script_state" where
  "add_line (path, line) s =
     \<lparr>ss_files = (ss_files s)(path \<mapsto> (if path \<in> ss_upToDate s then file_text s path else '''') @ line @ nl),
      ss_upToDate = insert path (ss_upToDate s), ss_calls = ss_calls s + 1\<rparr>"

lemma attach_works: "fs_works E \<Longrightarrow> attachLineToFile E path line s = Inr (None, add_line (path, line) s)"
  by (auto simp: fs_works_def attachLineToFile_def Let_def file_text_def intro!: script_state.equality)

definition lines_for :: "string \<Rightarrow> (string \<times> string) list \<Rightarrow> string list" where
  "lines_for path jobs = map snd (filter (\<lambda>job. fst job = path) jobs)"

lemma fold_add_line:
  "ss_files (fold add_line jobs s) path =
     (if lines_for path jobs = [] then ss_files s path
      else Some ((if path \<in> ss_upToDate s then file_text s path else '''') @ concat (map (\<lambda>l. l @ nl) (lines_for path jobs))))"
proof (induction jobs arbitrary: s)
  case (Cons job jobs)
  obtain p l where job: "job = (p, l)" by fastforce
  then show ?case using Cons.IH [of "add_line job s"] by (auto simp: lines_for_def file_text_def)
qed (simp add: lines_for_def)

definition node_job :: "script_format \<Rightarrow> (u64 \<times> string) list \<Rightarrow> int \<Rightarrow> int \<Rightarrow> int \<Rightarrow> int \<Rightarrow> string \<times> string" where
  "node_job fmt tbl nodenum shardnum i j =
     (batFilePath fmt (the (map_of tbl (of_int j))), node_command fmt j nodenum i shardnum)"

text \<open>The loops write the commands of the nodes that are in the table, up to the first that is not.\<close>

lemma node_loop_jobs:
  assumes "fs_works E" and "\<forall>j \<in> set js. map_of tbl (of_int j) \<noteq> None"
  shows "node_loop E fmt tbl nodenum shardnum i (js @ rest) s =
    node_loop E fmt tbl nodenum shardnum i rest (fold add_line (map (node_job fmt tbl nodenum shardnum i) js) s)"
  using assms(2)
proof (induction js arbitrary: s)
  case (Cons j js)
  then obtain ip where "map_of tbl (of_int j) = Some ip" by auto
  then show ?case using Cons by (simp add: attach_works [OF assms(1)] node_job_def del: add_line.simps)
qed simp

definition shard_jobs :: "script_format \<Rightarrow> ip_map \<Rightarrow> int \<Rightarrow> int \<Rightarrow> int \<Rightarrow> (string \<times> string) list" where
  "shard_jobs fmt ipMap nodenum shardnum i =
     map (node_job fmt (ip_entry ipMap (of_int i)) nodenum shardnum i) [0..nodenum - 1]"

definition shard_listed :: "ip_map \<Rightarrow> int \<Rightarrow> int \<Rightarrow> bool" where
  "shard_listed ipMap nodenum i \<longleftrightarrow>
     (\<exists>tbl. map_of ipMap (of_int i) = Some tbl \<and> (\<forall>j \<in> {0..<nodenum}. map_of tbl (of_int j) \<noteq> None))"

lemma shard_loop_jobs:
  assumes "fs_works E" and "\<forall>i \<in> set is. shard_listed ipMap nodenum i"
  shows "shard_loop E fmt ipMap nodenum shardnum (is @ rest) s =
    shard_loop E fmt ipMap nodenum shardnum rest (fold add_line (concat (map (shard_jobs fmt ipMap nodenum shardnum) is)) s)"
  using assms(2)
proof (induction "is" arbitrary: s)
  case (Cons i "is")
  then obtain tbl where t: "map_of ipMap (of_int i) = Some tbl" "\<forall>j \<in> set [0..nodenum - 1]. map_of tbl (of_int j) \<noteq> None"
    by (auto simp: shard_listed_def)
  have "node_loop E fmt tbl nodenum shardnum i [0..nodenum - 1] s = Inr (None, fold add_line (shard_jobs fmt ipMap nodenum shardnum i) s)"
    using node_loop_jobs [OF assms(1) t(2), of fmt nodenum shardnum i "[]" s] t(1) by (simp add: shard_jobs_def ip_entry_def)
  then show ?case using Cons t(1) by simp
qed simp

section \<open>Reading the commands\<close>

fun split_words :: "string \<Rightarrow> string \<Rightarrow> string list" where
  "split_words w [] = (if w = [] then [] else [w])"
| "split_words w (c # cs) =
     (if c \<in> {CHR '' '', CHR 0x0A} then (if w = [] then [] else [w]) @ split_words [] cs else split_words (w @ [c]) cs)"

text \<open>The arguments that the shell gives to the program of a command: the words up to the ampersand.\<close>

definition args_of :: "script_format \<Rightarrow> string \<Rightarrow> string list" where
  "args_of fmt line = takeWhile (\<lambda>w. w \<noteq> ''&'') (split_words [] (drop (length (sf_command fmt)) line))"

lemma split_words_append:
  "CHR '' '' \<notin> set u \<Longrightarrow> CHR 0x0A \<notin> set u \<Longrightarrow> split_words w (u @ rest) = split_words (w @ u) rest"
  by (induction u arbitrary: w) auto

lemma digit_chars: "c \<in> set (dec_digits n) \<Longrightarrow> 48 \<le> (of_char c :: nat)"
proof (induction n rule: dec_digits.induct)
  case (1 n)
  have *: "48 \<le> (of_char (char_of (k + 48 :: nat)) :: nat)" if "k < 10" for k :: nat
    using that by simp
  show ?case
  proof (cases "n < 10")
    case True
    then show ?thesis using "1.prems" * [of n] by (subst (asm) dec_digits.simps) (simp del: of_char_of)
  next
    case False
    then show ?thesis using "1.prems" "1.IH" * [of "n mod 10"] by (subst (asm) dec_digits.simps) (auto simp del: of_char_of)
  qed
qed

lemma Itoa_chars: "c \<in> set (Itoa n) \<Longrightarrow> 45 \<le> (of_char c :: nat)"
  using digit_chars [of c "nat n"] digit_chars [of c "nat (- n)"] by (cases "n < 0") (auto simp: Itoa_def)

lemma Itoa_word: "CHR '' '' \<notin> set (Itoa n)" "CHR 0x0A \<notin> set (Itoa n)" "Itoa n \<noteq> ''&''" "Itoa n \<noteq> []"
proof -
  show "CHR '' '' \<notin> set (Itoa n)" using Itoa_chars [of "CHR '' ''" n] by auto
  show "CHR 0x0A \<notin> set (Itoa n)" using Itoa_chars [of "CHR 0x0A" n] by auto
  show "Itoa n \<noteq> ''&''" using Itoa_chars [of "CHR ''&''" n] by auto
  show "Itoa n \<noteq> []" by (simp add: Itoa_def)
qed

lemma args_of_commands:
  "args_of fmt (node_command fmt j nodenum i shardnum) =
     [''-n'', Itoa j, ''-N'', Itoa nodenum, ''-s'', Itoa i, ''-S'', Itoa shardnum]"
  "args_of fmt (supervisor_command fmt nodenum shardnum) = [''-c'', ''-N'', Itoa nodenum, ''-S'', Itoa shardnum]"
  by (simp_all add: args_of_def node_command_def supervisor_command_def split_words_append Itoa_word nl_def)

text \<open>What the library documents of short flags with separate values, for non-negative numbers.\<close>

definition flag_laws :: "(flags \<Rightarrow> string list \<Rightarrow> flags) \<Rightarrow> bool" where
  "flag_laws parse \<longleftrightarrow>
     (\<forall>d n N s S. {n, N, s, S} \<subseteq> {0..<2 ^ 63} \<longrightarrow>
        parse d [''-n'', Itoa n, ''-N'', Itoa N, ''-s'', Itoa s, ''-S'', Itoa S] =
          d\<lparr>fg_nodeID := n, fg_nodeNum := N, fg_shardID := s, fg_shardNum := S\<rparr>) \<and>
     (\<forall>d N S. {N, S} \<subseteq> {0..<2 ^ 63} \<longrightarrow>
        parse d [''-c'', ''-N'', Itoa N, ''-S'', Itoa S] = d\<lparr>fg_isSupervisor := True, fg_nodeNum := N, fg_shardNum := S\<rparr>)"

section \<open>The scripts start the system\<close>

definition script_jobs :: "script_format \<Rightarrow> ip_map \<Rightarrow> int \<Rightarrow> int \<Rightarrow> (string \<times> string) list" where
  "script_jobs fmt ipMap nodenum shardnum =
     [(batFilePath fmt (the (map_of (ip_entry ipMap (of_int i)) (of_int j))), node_command fmt j nodenum i shardnum).
        i \<leftarrow> [0..shardnum - 1], j \<leftarrow> [0..nodenum - 1]] @
     [(batFilePath fmt (the (supervisor_ip ipMap)), supervisor_command fmt nodenum shardnum)]"

lemma script_jobs_eq:
  "script_jobs fmt ipMap nodenum shardnum = concat (map (shard_jobs fmt ipMap nodenum shardnum) [0..shardnum - 1]) @
     [(batFilePath fmt (the (supervisor_ip ipMap)), supervisor_command fmt nodenum shardnum)]"
  by (simp add: script_jobs_def shard_jobs_def [abs_def] node_job_def [abs_def])

lemma generate_scripts_jobs:
  assumes "fs_works E" and "\<forall>i \<in> {0..<shardnum}. shard_listed ipMap nodenum i" and "supervisor_ip ipMap = Some ip"
  shows "generate_scripts E fmt ipMap nodenum shardnum s = Inr (None, fold add_line (script_jobs fmt ipMap nodenum shardnum) s)"
proof -
  have "\<forall>i \<in> set [0..shardnum - 1]. shard_listed ipMap nodenum i" using assms(2) by simp
  from shard_loop_jobs [OF assms(1) this, of fmt shardnum "[]" s] show ?thesis
    by (simp add: generate_scripts_def attach_works [OF assms(1)] script_jobs_eq assms(3) del: add_line.simps)
qed

text \<open>A node that is not in the table stops the generation; the commands before it have been written.\<close>

theorem missing_node_is_reported:
  assumes "fs_works E" and "i \<in> {0..<shardnum}" and "\<forall>k \<in> {0..<i}. shard_listed ipMap nodenum k"
    and "map_of ipMap (of_int i) = Some tbl" and "j \<in> {0..<nodenum}" and "\<forall>k \<in> {0..<j}. map_of tbl (of_int k) \<noteq> None"
    and "map_of tbl (of_int j) = None"
  shows "generate_scripts E fmt ipMap nodenum shardnum s = Inr (Some (no_node i j),
    fold add_line (concat (map (shard_jobs fmt ipMap nodenum shardnum) [0..i - 1]) @
      map (node_job fmt tbl nodenum shardnum i) [0..j - 1]) s)"
proof -
  have up: "[0..n - 1] = [0..k - 1] @ k # [k + 1..n - 1]" if "k \<in> {0..<n}" for k n :: int
    using that upto_split2 [of 0 k "n - 1"] upto_rec1 [of k "n - 1"] upto_rec2 [of 0 k] by simp
  have shards: "\<forall>k \<in> set [0..i - 1]. shard_listed ipMap nodenum k" using assms(3) by simp
  have nodes: "\<forall>k \<in> set [0..j - 1]. map_of tbl (of_int k) \<noteq> None" using assms(6) by simp
  have n: "node_loop E fmt tbl nodenum shardnum i [0..nodenum - 1] s' =
      Inr (Some (no_node i j), fold add_line (map (node_job fmt tbl nodenum shardnum i) [0..j - 1]) s')" for s'
    using node_loop_jobs [OF assms(1) nodes, of fmt nodenum shardnum i "j # [j + 1..nodenum - 1]" s'] assms(7)
    unfolding up [OF assms(5)] by simp
  have "shard_loop E fmt ipMap nodenum shardnum [0..shardnum - 1] s = Inr (Some (no_node i j),
      fold add_line (map (node_job fmt tbl nodenum shardnum i) [0..j - 1])
        (fold add_line (concat (map (shard_jobs fmt ipMap nodenum shardnum) [0..i - 1])) s))"
    using shard_loop_jobs [OF assms(1) shards, of fmt shardnum "i # [i + 1..shardnum - 1]" s] n assms(4)
    unfolding up [OF assms(2)] by simp
  then show ?thesis by (simp add: generate_scripts_def)
qed

text \<open>
  (C24) The generated scripts start the system. When the file system works and the table of
  addresses lists all nodes of all shards and the supervisor, both generators succeed. A file that is
  named after an address contains, whatever it contained before, exactly the commands of the nodes
  with this address, in the order of shards and nodes, and of the supervisor; no other file is
  touched. Every such command, given to \<open>main\<close>, starts the node of its shard and number, or the
  supervisor, with the numbers of nodes and shards for which the scripts were made.
\<close>

theorem scripts_start_the_system:
  assumes "fs_works E" and "{nodenum, shardnum} \<subseteq> {0..<2 ^ 63}" and "\<forall>i \<in> {0..<shardnum}. shard_listed ipMap nodenum i"
    and "supervisor_ip ipMap = Some ip" and "ss_upToDate s = {}" and "flag_laws parse"
    and "0 \<le> ConsensusMethod P" and "ConsensusMethod P < int (length CommitteeMethod)"
    and "fmt = go_run_format os \<and> gen = GenerateBatchByIpTable \<or> fmt = exe_format os \<and> gen = GenerateExeBatchByIpTable"
    and "jobs = script_jobs fmt ipMap nodenum shardnum" and "P1 = P\<lparr>ShardNum := shardnum, NodesInShard := nodenum\<rparr>"
  shows "\<exists>s'. gen E os ipMap nodenum shardnum s = Inr (None, s') \<and>
    (\<forall>path. ss_files s' path = (if lines_for path jobs = [] then ss_files s path
       else Some (concat (map (\<lambda>l. l @ nl) (lines_for path jobs))))) \<and>
    (\<forall>i \<in> {0..<shardnum}. \<forall>j \<in> {0..<nodenum}.
       main_run parse E os ipMap P (args_of fmt (node_command fmt j nodenum i shardnum)) s' =
         Inr (Starts P1 (RoleNode (of_int j) (of_int nodenum) (of_int i) (of_int shardnum)))) \<and>
    main_run parse E os ipMap P (args_of fmt (supervisor_command fmt nodenum shardnum)) s' =
      Inr (Starts P1 (RoleSupervisor (of_int nodenum) (of_int shardnum)))"
proof (intro exI conjI allI ballI)
  let ?s = "fold add_line jobs s"
  have "gen E os = generate_scripts E fmt"
    using assms(9) by (auto simp: GenerateBatchByIpTable_def [abs_def] GenerateExeBatchByIpTable_def [abs_def])
  then show "gen E os ipMap nodenum shardnum s = Inr (None, ?s)"
    using generate_scripts_jobs [OF assms(1,3,4)] assms(10) by simp
  show "ss_files ?s path = (if lines_for path jobs = [] then ss_files s path
      else Some (concat (map (\<lambda>l. l @ nl) (lines_for path jobs))))" for path
    using fold_add_line [of jobs s path] assms(5) by simp
  have nums: "{nodenum, shardnum} \<subseteq> {0..<2 ^ 63}" by (rule assms(2))
  show "main_run parse E os ipMap P (args_of fmt (node_command fmt j nodenum i shardnum)) ?s =
      Inr (Starts P1 (RoleNode (of_int j) (of_int nodenum) (of_int i) (of_int shardnum)))"
    if "i \<in> {0..<shardnum}" "j \<in> {0..<nodenum}" for i j
  proof -
    have "{j, nodenum, i, shardnum} \<subseteq> {0..<2 ^ 63}" using nums that by auto
    then have "parse (default_flags P) [''-n'', Itoa j, ''-N'', Itoa nodenum, ''-s'', Itoa i, ''-S'', Itoa shardnum] =
        (default_flags P)\<lparr>fg_nodeID := j, fg_nodeNum := nodenum, fg_shardID := i, fg_shardNum := shardnum\<rparr>"
      using assms(6) unfolding flag_laws_def by blast
    then show ?thesis
      using that assms(7,8) by (simp add: args_of_commands main_run_def main_role_def Let_def default_flags_def assms(11))
  qed
  have "parse (default_flags P) [''-c'', ''-N'', Itoa nodenum, ''-S'', Itoa shardnum] =
      (default_flags P)\<lparr>fg_isSupervisor := True, fg_nodeNum := nodenum, fg_shardNum := shardnum\<rparr>"
    using assms(6) nums unfolding flag_laws_def by blast
  then show "main_run parse E os ipMap P (args_of fmt (supervisor_command fmt nodenum shardnum)) ?s =
      Inr (Starts P1 (RoleSupervisor (of_int nodenum) (of_int shardnum)))"
    using assms(7,8) by (simp add: args_of_commands main_run_def main_role_def Let_def default_flags_def assms(11))
qed

text \<open>A reader of the two kinds of argument lists, and a table with one shard of one node.\<close>

definition digits_value :: "string \<Rightarrow> int" where
  "digits_value ds = foldl (\<lambda>v c. 10 * v + (int (of_char c) - 48)) 0 ds"

fun demo_parse :: "flags \<Rightarrow> string list \<Rightarrow> flags" where
  "demo_parse d [f1, n, f2, N, f3, s, f4, S] =
     d\<lparr>fg_nodeID := digits_value n, fg_nodeNum := digits_value N, fg_shardID := digits_value s, fg_shardNum := digits_value S\<rparr>"
| "demo_parse d [f1, f2, N, f3, S] = d\<lparr>fg_isSupervisor := True, fg_nodeNum := digits_value N, fg_shardNum := digits_value S\<rparr>"
| "demo_parse d args = d"

lemma digits_value_dec: "digits_value (dec_digits n) = int n"
proof (induction n rule: dec_digits.induct)
  case (1 n)
  have c: "int (of_char (char_of (k + 48 :: nat))) = int k + 48" if "k < 10" for k :: nat using that by simp
  show ?case
    by (subst dec_digits.simps) (use "1.IH" c [of n] c [of "n mod 10"] in \<open>auto simp: digits_value_def zmod_int zdiv_int simp del: of_char_of\<close>)
qed

lemma demo_parse_laws: "flag_laws demo_parse"
  by (simp add: flag_laws_def Itoa_def digits_value_dec)

definition demo_ips :: ip_map where
  "demo_ips = [(0, [(0, ''1.2:3'')]), (2147483647, [(0, ''1.2:4'')])]"

theorem scripts_start_the_system_witness:
  "\<exists>s'. GenerateBatchByIpTable \<lparr>fe_Remove = \<lambda>k p. False, fe_Open = \<lambda>k p. None, fe_Write = \<lambda>k p. None\<rparr> ''linux'' demo_ips 1 1
      \<lparr>ss_files = [''x'' \<mapsto> ''y''], ss_upToDate = {}, ss_calls = 0\<rparr> = Inr (None, s') \<and>
    ss_files s' ''complie_run_IpAddr=1_2.sh'' = Some (''go run main.go -n 0 -N 1 -s 0 -S 1 & '' @ nl @ nl @ ''go run main.go -c -N 1 -S 1 & '' @ nl @ nl) \<and>
    ss_files s' ''x'' = Some ''y''"
proof -
  let ?E = "\<lparr>fe_Remove = \<lambda>k p. False, fe_Open = \<lambda>k p. None, fe_Write = \<lambda>k p. None\<rparr>"
  let ?s = "\<lparr>ss_files = [''x'' \<mapsto> ''y''], ss_upToDate = {}, ss_calls = 0\<rparr>"
  have digits: "Itoa 0 = ''0''" "Itoa 1 = ''1''" by code_simp+
  let ?node = "''go run main.go -n 0 -N 1 -s 0 -S 1 & '' @ nl" and ?sup = "''go run main.go -c -N 1 -S 1 & '' @ nl"
  have jobs: "script_jobs (go_run_format ''linux'') demo_ips 1 1 =
      [(''complie_run_IpAddr=1_2.sh'', ?node), (''complie_run_IpAddr=1_2.sh'', ?sup)]"
    by (simp add: script_jobs_def go_run_format_def batFilePath_def demo_ips_def ip_entry_def supervisor_ip_def node_command_def
        supervisor_command_def digits)
  have zero: "{0..<1 :: int} = {0}" by auto
  have listed: "\<forall>i \<in> {0..<1}. shard_listed demo_ips 1 i" by (simp add: zero shard_listed_def demo_ips_def)
  obtain s' where s': "GenerateBatchByIpTable ?E ''linux'' demo_ips 1 1 ?s = Inr (None, s')"
    "\<forall>path. ss_files s' path = (if lines_for path (script_jobs (go_run_format ''linux'') demo_ips 1 1) = [] then ss_files ?s path
       else Some (concat (map (\<lambda>l. l @ nl) (lines_for path (script_jobs (go_run_format ''linux'') demo_ips 1 1)))))"
    using scripts_start_the_system [of ?E 1 1 demo_ips "''1.2:4''" ?s demo_parse defaultParams "go_run_format ''linux''" "''linux''"
        GenerateBatchByIpTable, OF _ _ listed _ _ demo_parse_laws _ _ _ refl refl]
    by (auto simp: fs_works_def supervisor_ip_def demo_ips_def defaultParams_def CommitteeMethod_def)
  have "lines_for ''complie_run_IpAddr=1_2.sh'' (script_jobs (go_run_format ''linux'') demo_ips 1 1) = [?node, ?sup]"
    "lines_for ''x'' (script_jobs (go_run_format ''linux'') demo_ips 1 1) = []" by (simp_all add: jobs lines_for_def)
  then show ?thesis using s' by simp
qed

end
