(* ===== verification/Vrf.thy ===== *)
theory Vrf
  imports Prelude
begin

text \<open>
  The random values of sortition (\<open>shard/vrf/vrf.go\<close>, \<open>shard/vrf/vrf_account.go\<close>). The elliptic-curve
  packages, the encoder and the hash are outside; they are the fields of \<open>ec_lib\<close>. A slice for which
  it matters whether it is nil is a \<open>bytes option\<close>. A function that logs an error of a library and
  goes on does so here too.
\<close>

section \<open>Libraries\<close>

record 'x ec_lib =
  ec_Valid :: "bytes \<Rightarrow> bool"
    \<comment> \<open>the private keys that \<open>GeneratePrivateKey\<close> can return\<close>
  ec_Pub :: "bytes \<Rightarrow> bytes"
    \<comment> \<open>the public key of a private key\<close>
  ec_PubkeyToAddress :: "bytes \<Rightarrow> bytes"
  ec_Sign :: "bytes \<Rightarrow> bytes \<Rightarrow> bytes option"
    \<comment> \<open>of a hash and a private key\<close>
  ec_Ecrecover :: "bytes \<Rightarrow> bytes \<Rightarrow> bytes option"
    \<comment> \<open>the encoded public key, of a hash and a signature\<close>
  ec_UnmarshalPubkey :: "bytes \<Rightarrow> bytes option"
  ec_Prove :: "bytes \<Rightarrow> bytes \<Rightarrow> bytes option \<times> bytes option \<times> string option"
    \<comment> \<open>\<open>ecvrf\<close>: output, proof and error\<close>
  ec_Verify :: "bytes \<Rightarrow> bytes \<Rightarrow> bytes option \<Rightarrow> bytes option \<times> string option"
    \<comment> \<open>\<open>ecvrf\<close>: output and error\<close>
  ec_Rlp :: "'x \<Rightarrow> bytes + string"
  ec_Keccak :: "bytes \<Rightarrow> bytes"

text \<open>
  What the packages document: only hashes of 32 bytes are signed, the key that signed is recovered
  from the signature, nothing is recovered from a signature that does not have 65 bytes and no key is
  decoded from no bytes; addresses have 20 bytes; a proof verifies with the output it was made with,
  and there is no output together with an error.
\<close>

definition signs :: "'x ec_lib \<Rightarrow> bytes \<Rightarrow> bytes \<Rightarrow> bool" where
  "signs L h k \<longleftrightarrow> (\<exists>s b. ec_Sign L h k = Some s \<and> ec_Ecrecover L h s = Some b \<and> ec_UnmarshalPubkey L b = Some (ec_Pub L k))"

definition ec_laws :: "'x ec_lib \<Rightarrow> bool" where
  "ec_laws L \<longleftrightarrow>
     (\<forall>h k. ec_Valid L k \<and> length h = 32 \<longrightarrow> signs L h k) \<and>
     (\<forall>h k. length h \<noteq> 32 \<longrightarrow> ec_Sign L h k = None) \<and>
     (\<forall>h s. length s \<noteq> 65 \<longrightarrow> ec_Ecrecover L h s = None) \<and> ec_UnmarshalPubkey L [] = None \<and>
     (\<forall>p. length (ec_PubkeyToAddress L p) = 20) \<and>
     (\<forall>k a out pf. ec_Prove L k a = (out, pf, None) \<longrightarrow> ec_Verify L (ec_Pub L k) a pf = (out, None)) \<and>
     (\<forall>k a out pf e. ec_Prove L k a = (out, pf, Some e) \<longrightarrow> out = None) \<and>
     (\<forall>p a pf out e. ec_Verify L p a pf = (out, Some e) \<longrightarrow> out = None)"

section \<open>Verifiable random functions (vrf.go)\<close>

record VRFResult =
  vr_Proof :: "bytes option"
  vr_RandomValue :: "bytes option"

definition GenerateVRF :: "'x ec_lib \<Rightarrow> bytes \<Rightarrow> bytes \<Rightarrow> VRFResult" where
  "GenerateVRF L privateKey input =
     (case ec_Prove L privateKey input of (output, proof, err) \<Rightarrow> \<lparr>vr_Proof = proof, vr_RandomValue = output\<rparr>)"

text \<open>\<open>reflect.DeepEqual\<close> of two byte slices tells a nil slice from an empty one.\<close>

definition VerifyVRF :: "'x ec_lib \<Rightarrow> bytes \<Rightarrow> bytes \<Rightarrow> VRFResult \<Rightarrow> bool" where
  "VerifyVRF L publicKey input vrfResult =
     (case ec_Verify L publicKey input (vr_Proof vrfResult) of (output, err) \<Rightarrow> output = vr_RandomValue vrfResult)"

section \<open>Accounts (vrf_account.go)\<close>

record VrfAccount =
  va_privateKey :: bytes
  va_pubKey :: bytes
  va_accountAddr :: bytes
  va_keyDir :: string

text \<open>\<open>gen\<close> is what \<open>GeneratePrivateKey\<close> returns, nothing if it fails.\<close>

definition newPrivateKey :: "bytes option \<Rightarrow> bytes res" where
  "newPrivateKey gen = (case gen of None \<Rightarrow> Inl NilDereference | Some s \<Rightarrow> Inr s)"

text \<open>\<open>keyDir\<close> is what \<open>filepath.Join\<close> makes of the argument and the name of the directory.\<close>

definition NewVrfAccount :: "'x ec_lib \<Rightarrow> bytes option \<Rightarrow> string \<Rightarrow> VrfAccount res" where
  "NewVrfAccount L gen keyDir =
     bindR (newPrivateKey gen) (\<lambda>k.
       Inr \<lparr>va_privateKey = k, va_pubKey = ec_Pub L k, va_accountAddr = ec_PubkeyToAddress L (ec_Pub L k), va_keyDir = keyDir\<rparr>)"

definition SignHash :: "'x ec_lib \<Rightarrow> VrfAccount \<Rightarrow> bytes \<Rightarrow> bytes" where
  "SignHash L a hash = (case ec_Sign L hash (va_privateKey a) of None \<Rightarrow> [] | Some sig \<Rightarrow> sig)"

definition VerifySignature :: "'x ec_lib \<Rightarrow> bytes \<Rightarrow> bytes \<Rightarrow> bytes \<Rightarrow> bool res" where
  "VerifySignature L msgHash sig expected_addr =
     (let pubKeyBytes = (case ec_Ecrecover L msgHash sig of None \<Rightarrow> [] | Some b \<Rightarrow> b) in
      case ec_UnmarshalPubkey L pubKeyBytes of
        None \<Rightarrow> Inl NilDereference
      | Some pubkey \<Rightarrow> Inr (ec_PubkeyToAddress L pubkey = expected_addr))"

text \<open>\<open>common.BytesToAddress\<close>: the last 20 bytes, padded with zeros on the left.\<close>

definition BytesToAddress :: "bytes \<Rightarrow> bytes" where
  "BytesToAddress b = (if length b > 20 then drop (length b - 20) b else replicate (20 - length b) 0 @ b)"

definition GenerateVRFOutput :: "'x ec_lib \<Rightarrow> VrfAccount \<Rightarrow> bytes \<Rightarrow> VRFResult" where
  "GenerateVRFOutput L a randSeed =
     \<lparr>vr_Proof = Some (va_accountAddr a), vr_RandomValue = Some (SignHash L a randSeed)\<rparr>"

definition nil_bytes :: "bytes option \<Rightarrow> bytes" where
  "nil_bytes b = (case b of None \<Rightarrow> [] | Some x \<Rightarrow> x)"

definition VerifyVRFOutput :: "'x ec_lib \<Rightarrow> VrfAccount \<Rightarrow> VRFResult \<Rightarrow> bytes \<Rightarrow> bool res" where
  "VerifyVRFOutput L a vrfResult randSeed =
     VerifySignature L randSeed (nil_bytes (vr_RandomValue vrfResult)) (BytesToAddress (nil_bytes (vr_Proof vrfResult)))"

definition GetAccountAddress :: "VrfAccount \<Rightarrow> bytes" where
  "GetAccountAddress a = va_accountAddr a"

text \<open>The hash and the error; the hasher is reset before it is used.\<close>

definition rlpHash :: "'x ec_lib \<Rightarrow> 'x \<Rightarrow> bytes \<times> string option" where
  "rlpHash L x = (case ec_Rlp L x of Inr err \<Rightarrow> (replicate 32 0, Some err) | Inl b \<Rightarrow> (ec_Keccak L b, None))"

section \<open>What is accepted\<close>

lemma BytesToAddress_20: "length b = 20 \<Longrightarrow> BytesToAddress b = b"
  by (simp add: BytesToAddress_def)

lemma account_fields:
  assumes "NewVrfAccount L gen dir = Inr a"
  shows "gen = Some (va_privateKey a)" "va_pubKey a = ec_Pub L (va_privateKey a)"
    "va_accountAddr a = ec_PubkeyToAddress L (va_pubKey a)"
  using assms by (auto simp: NewVrfAccount_def newPrivateKey_def split: option.splits)

text \<open>A signature of an account verifies for the address of this account and no other one.\<close>

lemma signature_verifies:
  assumes "ec_laws L" and "NewVrfAccount L (Some k) dir = Inr a" and "ec_Valid L k" and "length h = 32"
  shows "VerifySignature L h (SignHash L a h) addr = Inr (addr = GetAccountAddress a)"
proof -
  have k: "va_privateKey a = k" using account_fields(1) [OF assms(2)] by simp
  have "signs L h k" using assms(1,3,4) by (simp add: ec_laws_def)
  then obtain s b where "ec_Sign L h k = Some s" "ec_Ecrecover L h s = Some b" "ec_UnmarshalPubkey L b = Some (ec_Pub L k)"
    unfolding signs_def by blast
  then show ?thesis
    using account_fields(2,3) [OF assms(2)] k by (auto simp: VerifySignature_def SignHash_def GetAccountAddress_def)
qed

lemma unsigned_panics:
  assumes "ec_laws L" and "length h \<noteq> 32"
  shows "SignHash L a h = []" "VerifySignature L h [] addr = Inl NilDereference"
  using assms by (simp_all add: ec_laws_def SignHash_def VerifySignature_def)

text \<open>
  (C33) What the checks of sortition accept. An output that an account generates for a seed of 32
  bytes passes the check of every account whatsoever, because \<open>VerifyVRFOutput\<close> compares the
  recovered address with the one in the output and uses nothing of the account it is called on;
  for a seed of another length generating logs an error and the check of the output panics. The
  check \<open>VerifyVRF\<close> accepts what \<open>GenerateVRF\<close> returns, and it accepts as well, for every proof
  that the library rejects, the result with no random value: so also when generating failed and the
  proof that is left does not verify.
\<close>

theorem sortition_accepts_any_account:
  assumes "ec_laws L" and "NewVrfAccount L (Some k) dir = Inr a" and "ec_Valid L k"
  shows "(length seed = 32 \<longrightarrow> VerifyVRFOutput L other (GenerateVRFOutput L a seed) seed = Inr True) \<and>
    (length seed \<noteq> 32 \<longrightarrow> VerifyVRFOutput L other (GenerateVRFOutput L a seed) seed = Inl NilDereference) \<and>
    (snd (snd (ec_Prove L k input)) = None \<longrightarrow> VerifyVRF L (va_pubKey a) input (GenerateVRF L k input)) \<and>
    (snd (ec_Verify L p input pf) \<noteq> None \<longrightarrow> VerifyVRF L p input \<lparr>vr_Proof = pf, vr_RandomValue = None\<rparr>)"
proof (intro conjI impI)
  have len: "length (va_accountAddr a) = 20"
    using assms(1) account_fields(3) [OF assms(2)] by (simp add: ec_laws_def)
  note defs = VerifyVRFOutput_def GenerateVRFOutput_def nil_bytes_def
  show "VerifyVRFOutput L other (GenerateVRFOutput L a seed) seed = Inr True" if "length seed = 32"
    using signature_verifies [OF assms that] by (simp add: defs BytesToAddress_20 [OF len] GetAccountAddress_def)
  show "VerifyVRFOutput L other (GenerateVRFOutput L a seed) seed = Inl NilDereference" if "length seed \<noteq> 32"
    using unsigned_panics [OF assms(1) that] by (simp add: defs)
  obtain out pf' err where p: "ec_Prove L k input = (out, pf', err)" by (metis surj_pair)
  show "VerifyVRF L (va_pubKey a) input (GenerateVRF L k input)" if "snd (snd (ec_Prove L k input)) = None"
    using that p assms(1) account_fields(1,2) [OF assms(2)] by (simp add: VerifyVRF_def GenerateVRF_def ec_laws_def)
  obtain out' e where v: "ec_Verify L p input pf = (out', e)" by (metis surj_pair)
  show "VerifyVRF L p input \<lparr>vr_Proof = pf, vr_RandomValue = None\<rparr>" if rejected: "snd (ec_Verify L p input pf) \<noteq> None"
  proof -
    obtain y where "e = Some y" using rejected v by auto
    then have "out' = None" using v assms(1) unfolding ec_laws_def by blast
    then show ?thesis using v by (simp add: VerifyVRF_def)
  qed
qed

text \<open>Keys are single bytes, a signature is the key and 64 zeros, and no proof is accepted.\<close>

definition demo_ec :: "nat ec_lib" where
  "demo_ec = \<lparr>ec_Valid = (\<lambda>k. length k = 1), ec_Pub = (\<lambda>k. k), ec_PubkeyToAddress = (\<lambda>p. take 20 (p @ replicate 20 0)),
     ec_Sign = (\<lambda>h k. if length h = 32 then Some (k @ replicate 64 0) else None),
     ec_Ecrecover = (\<lambda>h s. if length s = 65 then Some (take 1 s) else None),
     ec_UnmarshalPubkey = (\<lambda>b. if b = [] then None else Some b), ec_Prove = (\<lambda>k a. (None, None, Some ''no'')),
     ec_Verify = (\<lambda>p a pf. (None, Some ''no'')), ec_Rlp = (\<lambda>n. Inl [of_nat n]), ec_Keccak = (\<lambda>b. replicate 32 0)\<rparr>"

lemma demo_ec_laws: "ec_laws demo_ec"
proof -
  have "signs demo_ec h k" if "ec_Valid demo_ec k" "length h = 32" for h k
    using that by (cases k) (simp_all add: demo_ec_def signs_def)
  then show ?thesis by (simp add: ec_laws_def) (auto simp: demo_ec_def)
qed

theorem sortition_accepts_any_account_witness:
  "\<exists>a b. NewVrfAccount demo_ec (Some [1]) ''d'' = Inr a \<and> NewVrfAccount demo_ec (Some [2]) ''d'' = Inr b \<and>
     va_pubKey b \<noteq> va_pubKey a \<and> VerifyVRFOutput demo_ec b (GenerateVRFOutput demo_ec a (replicate 32 7)) (replicate 32 7) = Inr True \<and>
     VerifyVRF demo_ec [2] [7] (GenerateVRF demo_ec [1] [7])"
proof -
  define acc where "acc k = projr (NewVrfAccount demo_ec (Some k) ''d'')" for k
  have n: "NewVrfAccount demo_ec (Some k) ''d'' = Inr (acc k)" "va_pubKey (acc k) = k" for k
    by (simp_all add: acc_def NewVrfAccount_def newPrivateKey_def demo_ec_def)
  have v: "ec_Valid demo_ec [1]" "snd (ec_Verify demo_ec [2] [7] None) \<noteq> None" by (simp_all add: demo_ec_def)
  have "GenerateVRF demo_ec [1] [7] = \<lparr>vr_Proof = None, vr_RandomValue = None\<rparr>" by (simp add: GenerateVRF_def demo_ec_def)
  then show ?thesis
    using sortition_accepts_any_account [OF demo_ec_laws n(1) v(1), of "replicate 32 7" "acc [2]" "[7]" "[2]" None] v(2) n by auto
qed

end
