(* ===== verification/Spec2Isabelle.thy ===== *)
theory Spec2Isabelle
  imports Overlay_Build Pbft_Safety Clpa_Transfer Bridge_Routes Supervisor_Stop Network_Delivery Query Relay_Money
    Shard_Fork Scripts Vrf
begin

text \<open>
  Verification of the block emulator: a sharded blockchain whose shards run PBFT and whose
  transfers between shards use one of five mechanisms, a supervisor that feeds it transactions from
  a file, measures it and stops it, and the network between them.

  \<^bold>\<open>The program and its parts.\<close>

  A \<^emph>\<open>node\<close> (\<open>consensus_shard/pbft_all\<close>) has a chain (\<open>chain\<close>, \<open>storage\<close>, \<open>core\<close>) with a transaction pool.
  The leader of a shard packs a block, the nodes agree on it in three phases, append it, and the
  module of the mechanism (relay, broker, bridge, CLPA, CLPA with brokers) sends on what concerns
  other shards and reports the block to the supervisor. The \<^emph>\<open>supervisor\<close> (\<open>supervisor\<close>) has a
  committee for the mechanism, which reads the file of transactions, sends them to the leaders and
  handles the reports, and modules that measure; the bridge committee keeps an overlay of the
  shards (\<open>pcn\<close>), the CLPA committees a graph of the accounts, which they partition anew (\<open>partition\<close>).
  All of them talk through \<open>networks\<close>. \<open>build\<close> and \<open>main.go\<close> start one node or the supervisor, \<open>query\<close>
  reads the databases of a node.

  \<^bold>\<open>Theories and sources.\<close>

  \<^item> \<open>Prelude\<close>: Go's types, panics as values (\<open>res\<close>), runs that may not end (\<open>run\<close>), loops, lemmas.
  \<^item> \<open>Data_Model\<close> (\<open>core/account.go, transaction.go, block.go\<close>, \<open>message_CLPA.go\<close>) and the record \<open>lib\<close> of
    the libraries outside; \<open>TxPool\<close> (\<open>core/txpool.go\<close>); \<open>Utils\<close> (\<open>utils\<close>, hashes modulo a number); \<open>Params\<close>
    (\<open>params\<close>); \<open>Storage\<close> (\<open>storage\<close>); \<open>Numbers\<close>: 64-bit integers and an interface to \<open>float64\<close>.
  \<^item> \<open>Blockchain\<close> (\<open>chain/blockchain.go\<close>), \<open>Merkle_Proof\<close> (\<open>chain/merkleproof.go\<close>), \<open>Query\<close> (\<open>query\<close>). The
    specification of a chain is the ledger of \<open>Chain_Ledger\<close>, which the execution of a block refines;
    \<open>Chain_Safety\<close> has the invariant \<open>chain_ok\<close>, start, restart and the agreement of replicas,
    \<open>Chain_Accounts\<close> the transfer of accounts. \<open>Demo_Lib\<close> is one instance of all libraries, for the
    witnesses.
  \<^item> \<open>Dsu\<close>, \<open>Overlay\<close> (\<open>pcn/overlay.go\<close>); \<open>Overlay_Bfs\<close>, \<open>Overlay_Routes\<close>, \<open>Overlay_Tree\<close>, \<open>Overlay_Build\<close> prove
    union-find, the breadth-first search, the routes, the tree and the builder.
  \<^item> \<open>Message\<close> (\<open>message\<close>): the structs, the type \<open>wire\<close> of decoded messages, the framing. \<open>Network\<close>
    (\<open>networks\<close>): pool, attempts, rate limits, reading of lines; \<open>Network_Delivery\<close>: what arrives.
  \<^item> \<open>Pbft_Node\<close> (\<open>pbft.go, messageHandle.go, toolFuncs.go, view_change.go\<close>): the state of a node and its
    handlers; the modules of the mechanisms are records of operations (\<open>ExtraOp\<close>): \<open>Pbft_Relay\<close> (relay
    and broker), \<open>Pbft_Bridge\<close>, \<open>Pbft_Clpa\<close> (with and without brokers). \<open>Pbft_Control\<close> proves the protocol
    once for every module that meets the contract \<open>consensus_ops\<close>, \<open>Pbft_Contracts\<close> that all five meet
    it, \<open>Pbft_Start\<close>, \<open>Pbft_Round\<close>, \<open>Demo_Node\<close> and \<open>Pbft_Safety\<close> the properties of runs. \<open>Relay_Money\<close>
    follows the money of the relay protocol from one shard to the other, \<open>Pbft_Shard\<close>, \<open>Shard_Agreement\<close> and
    \<open>Shard_Fork\<close> all the nodes of a shard with the messages between them, \<open>Clpa_Transfer\<close> the accounts that a
    new partition moves, from the leaders that send them to the node that installs them.
  \<^item> \<open>Committee\<close> (\<open>committee_relay.go\<close>, stop signal), \<open>Committee_Broker\<close> and \<open>Broker_Transfer\<close>
    (\<open>committee_broker.go, broker.go\<close>), \<open>Committee_Bridge\<close> and \<open>Bridge_Routes\<close> (\<open>committee_bridge.go\<close>),
    \<open>Committee_Clpa\<close> with \<open>Clpa_Epochs\<close>, \<open>Clpa_Runs\<close>, \<open>Clpa_Broker_Runs\<close> (\<open>committee_clpa.go\<close>,
    \<open>committee_clpa_broker.go\<close>), on top of \<open>Clpa\<close>, \<open>Clpa_Counts\<close>, \<open>Clpa_Partition\<close> (\<open>partition\<close>).
  \<^item> \<open>Measure\<close> and \<open>Measure_Counts\<close> (\<open>supervisor/measure\<close>); \<open>Supervisor\<close> and \<open>Supervisor_Stop\<close>
    (\<open>supervisor.go\<close>, \<open>build.go\<close>); \<open>Scripts\<close> (\<open>main.go\<close>, \<open>build/tool.go\<close>, \<open>io_file_helper.go\<close>): the
    commands that start the nodes. \<open>Vrf\<close> (\<open>shard/vrf\<close>): sortition, which no other part calls.
  \<^item> This theory: properties that need several of these.

  \<^bold>\<open>How code becomes definitions.\<close> A struct is a record with the fields of the source (prefixed), a
  method is a function from the state to the new state, in \<open>res\<close> when it may panic and in \<open>run\<close> when it
  may also not return. \<open>uint64\<close> is \<open>64 word\<close>; Go's \<open>int\<close> is \<open>int\<close>, and conversions between the two are
  written out. Sending is an entry of an outbox, in the order of the calls. Locks that are held during
  a whole method make it one step, and so do the methods of a node and of a committee that hold none or
  several short ones (\<open>Propose\<close>, catch-up and view change, a batch, a report); goroutines interleave as sequences of such steps
  (\<open>clpa_reach\<close>, \<open>sup_step\<close>, \<open>net_run\<close>, \<open>shard_run\<close>, the runs of \<open>Pbft_Control\<close>). Where a Go map is ranged over, the
  order is a parameter. The clock, random numbers and \<open>float64\<close> arithmetic are parameters; a handler of
  a node reads the clock once.

  \<^bold>\<open>Interfaces.\<close> \<open>packing_queue\<close> (pool), \<open>block_store\<close> (storage), \<open>union_find\<close> (overlay), \<open>consensus_ops\<close> (a
  module of a mechanism), \<open>replicated_ops\<close> (a module whose requests are blocks of one chain), \<open>injector\<close> and \<open>batch_sender\<close> (committees), \<open>partitioned_committee\<close> (CLPA
  committees) and \<open>epoch_metric\<close> (measuring modules) are locales; each is interpreted for every
  definition of the code that provides it.

  \<^bold>\<open>What is shown.\<close>

  \<^item> Chain: execution refines the ledger, conserves money and overdraws no account; a leader's block is
    valid and appended; replicas agree; restarts recover; accounts are installed as sent; proofs are
    found and verify; queries return what was stored; the pool packs what its limits admit, in order. In the relay protocol all money is accounted for.
    A new partition loses no account and no queued transaction.
  \<^item> Consensus, for all five mechanisms: the commit handler executes a request (calls the module with it) once
    and with a counted quorum, the head changes only so, views change only with a quorum, and a round with enough messages appends the block. For relay, broker
    and bridge the nodes of a shard agree on one chain while the first leader leads, whatever is
    repeated, reordered or lost between them; after a change of the leader they may not.
  \<^item> Overlay: for all weights the builder gives a connected overlay within the degrees and shortest
    routes; the bridge committee keeps such an overlay and routes along it.
  \<^item> Committees: the relay committee injects the file; a broker transfer has its two halves; every shard
    is told exactly the placement that the CLPA committee uses, and the committee reads its file to the end, whatever
    the clock does, if the shards report one block of each new epoch; label propagation ends, keeps its counters, empties
    no shard and returns exactly the accounts it moved.
  \<^item> Supervisor: the counters of the modules are those of the reports in any order; it stops all nodes
    only when the shards are quiet, and then does.
  \<^item> Start: the generated scripts start every node and the supervisor with their numbers.
  \<^item> Network: for which bandwidths a write returns; the connections to an address carry exactly the messages
    whose sending succeeded, and the reader of each gets a prefix of its part, whole and in order.
  \<^item> Where the code does not do what it means to, the theorem says what it does
    (\<open>wrong_state_root_is_accepted\<close>, \<open>batch_false_positive\<close>, \<open>one_sender_is_a_quorum\<close>,
    \<open>view_change_can_split_a_shard\<close>, \<open>skipped_block_is_counted\<close>, \<open>sortition_accepts_any_account\<close>, the skipped transfers of
    \<open>relay_money_accounted\<close>, \<open>transfers_return_iff_bandwidth\<close>).

  \<^bold>\<open>Termination.\<close> No definition has fuel. Loops whose end is not obvious are \<open>partial_function (option)\<close>
  (\<open>find_parent\<close>, \<open>route_loop\<close>, \<open>grow_loop\<close>, \<open>old_requests\<close>, \<open>upload_wait\<close>, \<open>download_wait\<close>,
  \<open>handle_messages\<close>); the theorems on their callers state that they return, or when they do not. Loops
  that wait for another thread are states of a machine.

  \<^bold>\<open>Not modelled.\<close> Sockets, files, the text of JSON and CSV, log output and status texts are
  input and output; the parser of the command line is a parameter. Agreement of a shard is not shown for the CLPA
  protocols, where a request may be a repartition, and does not hold across a change of the leader. The libraries outside the repository
  (trie, bolt, bit set, hashes, signatures, verifiable random functions, rate limiter) are parameters with their
  documented laws.
\<close>

section \<open>From sender to receiver\<close>

text \<open>No type of a message contains the newline that ends a message.\<close>

lemma message_types_no_newline: "\<forall>t \<in> set message_types. newline \<notin> set (map byte_of t)"
  by (simp add: message_types_def message_type_defs newline_def byte_of_def)

text \<open>
  (C23) A message crosses the network as it was sent. For every type of the program and every content
  without a newline, \<open>MergeMessage\<close> does not panic and \<open>TcpDialSync\<close> returns, over any network with a
  bandwidth that is not 0. If it returns no error, the connections to the address carry exactly one
  more line for their readers, and \<open>SplitMessage\<close> of that line gives the type and the content,
  followed by the newline. If it returns an error they carry no more lines than before. Those to other
  addresses are left as they were. There is no error when the network works from the last attempt on.
\<close>

theorem message_crosses_the_network:
  assumes "net_laws E" and "0 < li_Burst (ne_limiter E) (nt_upload s)" and "net_ok s"
    and "t \<in> set message_types" and "newline \<notin> set content"
    and "0 \<le> JitterRange P" and "0 \<le> r" and "JitterRange P \<noteq> 0 \<longrightarrow> r < JitterRange P"
  shows "\<exists>msg err s'. MergeMessage t content = Inr msg \<and> TcpDialSync E P r msg a attempts s = Some (Inr (err, s')) \<and>
    net_ok s' \<and> (\<forall>b. b \<noteq> a \<longrightarrow> lines_written b s' = lines_written b s) \<and>
    (err \<noteq> None \<longrightarrow> lines_written a s' = lines_written a s) \<and>
    (err = None \<longrightarrow> (\<exists>line. lines_written a s' = lines_written a s @ [line] \<and> SplitMessage line = Inr (t, content @ [newline]))) \<and>
    ((\<forall>k \<ge> nt_calls s + nat (attempts - 1). ne_Dial E k a \<and> ne_Write E k (msg @ [newline]) = None) \<longrightarrow> err = None)"
proof -
  let ?msg = "map byte_of t @ replicate (30 - length t) 0 @ content"
  have t: "length t \<le> 30" "CHR 0x00 \<notin> set t" "newline \<notin> set (map byte_of t)"
    using assms(4) message_types_fit message_types_no_newline by blast+
  have "newline \<noteq> 0" by (simp add: newline_def)
  then have "newline \<notin> set ?msg" using t(3) assms(5) by auto
  from TcpDialSync_sends_once [OF assms(1-3) this assms(6-8), of a attempts]
  obtain err s' where d: "TcpDialSync E P r ?msg a attempts s = Some (Inr (err, s'))" "net_ok s'"
    "\<forall>b. lines_written b s' = lines_written b s @ (if err = None \<and> b = a then [?msg @ [newline]] else [])"
    "(\<forall>k \<ge> nt_calls s + nat (attempts - 1). ne_Dial E k a \<and> ne_Write E k (?msg @ [newline]) = None) \<longrightarrow> err = None"
    by blast
  have "SplitMessage (?msg @ [newline]) = Inr (t, content @ [newline])"
    using SplitMessage_eq [OF t(1,2), of "content @ [newline]"] by simp
  then show ?thesis using MergeMessage_eq [OF t(1), of content] d by (intro exI [of _ ?msg] exI [of _ err] exI [of _ s']) simp
qed

theorem message_crosses_the_network_witness:
  "\<exists>msg s' line. MergeMessage CStop [1] = Inr msg \<and>
     TcpDialSync demo_net defaultParams 0 msg ''a'' 6 (net_init 7) = Some (Inr (None, s')) \<and>
     lines_written ''a'' s' = [line] \<and> SplitMessage line = Inr (CStop, [1, newline])"
proof -
  have "0 < li_Burst (ne_limiter demo_net) (nt_upload (net_init 7))"
    by (simp add: demo_net_def demo_limiter_def net_init_def)
  moreover have "\<forall>k \<ge> nt_calls (net_init 7 :: int net) + nat (6 - 1). ne_Dial demo_net k ''a'' \<and> ne_Write demo_net k (m @ [newline]) = None" for m
    by (simp add: demo_net_def net_init_def)
  moreover have "lines_written b (net_init 7 :: int net) = []" for b by (simp add: lines_written_def net_init_def)
  moreover have "CStop \<in> set message_types" "newline \<notin> set [1]" by (simp_all add: message_types_def newline_def)
  ultimately show ?thesis
    using message_crosses_the_network [OF demo_net_laws _ net_init_ok, of 7 CStop "[1]" defaultParams 0 "''a''" 6]
    by (auto simp: defaultParams_def)
qed

end
